(* ===== verification/Prelude.thy ===== *)
theory Prelude
  imports Main "HOL-Library.Word" "HOL-Library.List_Lexorder" "HOL-Library.Char_ord"
    "HOL-Library.Product_Lexorder" "HOL-Library.Monad_Syntax"
begin

text \<open>
  Shared vocabulary of the development: the machine types, the part of the C string library
  the sources call (strings are NUL-free character lists, \<open>strlen\<close> is \<^const>\<open>length\<close>),
  fixed-size character buffers, little-endian words, and the generic lemmas on them that the
  component theories use through the collections \<open>cstr_simps\<close> and \<open>buf_simps\<close>.
\<close>

unbundle bit_operations_syntax

named_theorems cstr_simps \<open>facts about the C string functions\<close>
named_theorems buf_simps \<open>facts about fixed-size character buffers\<close>

section \<open>Machine types\<close>

type_synonym u8 = "8 word"
type_synonym u32 = "32 word"
type_synonym u64 = "64 word"

lemma nat_bit_less: "m < 2 ^ k \<Longrightarrow> bit (m::nat) n \<Longrightarrow> n < k"
  by (metis bit_take_bit_iff take_bit_nat_eq_self)

text \<open>\<open>__BIONIC_ALIGN(value, 4)\<close>: round up to a multiple of four.\<close>

definition align4 :: "nat \<Rightarrow> nat" where
  "align4 n = (n + 3) div 4 * 4"

lemma align4_ge: "n \<le> align4 n"
  unfolding align4_def by presburger

lemma align4_pos: "0 < n \<Longrightarrow> 0 < align4 n"
  using align4_ge [of n] by linarith

lemma align4_dvd: "4 dvd align4 n"
  by (simp add: align4_def)

lemma align4_less: "align4 n < n + 4"
  unfolding align4_def by presburger

section \<open>C strings\<close>

text \<open>
  \<open>strcmp\<close> and \<open>strncmp\<close> compare unsigned characters; only the sign of the result is
  meaningful in C, so the model returns -1, 0 or 1.
\<close>

fun strcmp :: "string \<Rightarrow> string \<Rightarrow> int" where
  "strcmp [] [] = 0"
| "strcmp [] (b # bs) = -1"
| "strcmp (a # as) [] = 1"
| "strcmp (a # as) (b # bs) =
     (if a = b then strcmp as bs else if a < b then -1 else 1)"

fun strncmp :: "string \<Rightarrow> string \<Rightarrow> nat \<Rightarrow> int" where
  "strncmp s t 0 = 0"
| "strncmp [] [] (Suc n) = 0"
| "strncmp [] (b # bs) (Suc n) = -1"
| "strncmp (a # as) [] (Suc n) = 1"
| "strncmp (a # as) (b # bs) (Suc n) =
     (if a = b then strncmp as bs n else if a < b then -1 else 1)"

text \<open>\<open>strchr(s, c)\<close> as the index of the first occurrence.\<close>

fun strchr :: "string \<Rightarrow> char \<Rightarrow> nat option" where
  "strchr [] c = None"
| "strchr (x # xs) c = (if x = c then Some 0 else map_option Suc (strchr xs c))"

text \<open>\<open>strstr(s, t) != NULL\<close>.\<close>

fun strstr :: "string \<Rightarrow> string \<Rightarrow> bool" where
  "strstr s t = (if take (length t) s = t then True
                 else case s of [] \<Rightarrow> False | _ # s' \<Rightarrow> strstr s' t)"

lemma strcmp_eq_0_iff [simp, cstr_simps]: "strcmp s t = 0 \<longleftrightarrow> s = t"
  by (induction s t rule: strcmp.induct) auto

lemma strcmp_less_0_iff [cstr_simps]: "strcmp s t < 0 \<longleftrightarrow> s < t"
  by (induction s t rule: strcmp.induct) auto

lemma strcmp_greater_0_iff [cstr_simps]: "0 < strcmp s t \<longleftrightarrow> t < s"
  by (induction s t rule: strcmp.induct) auto

lemma strncmp_eq_0_iff [cstr_simps]: "strncmp s t n = 0 \<longleftrightarrow> take n s = take n t"
  by (induction s t n rule: strncmp.induct) auto

lemma strncmp_strcmp: "length s \<le> n \<Longrightarrow> length t \<le> n \<Longrightarrow> strncmp s t n = strcmp s t"
  by (induction s t n rule: strncmp.induct) (auto split: if_splits)

lemma strncmp_take: "strncmp s t n = strcmp (take n s) (take n t)"
  by (induction s t n rule: strncmp.induct) auto

text \<open>The prefix test \<open>strncmp(s, p, strlen(p)) == 0\<close>.\<close>

lemma strncmp_prefix_iff [cstr_simps]:
  "strncmp s p (length p) = 0 \<longleftrightarrow> (\<exists>r. s = p @ r)"
  by (auto simp: strncmp_eq_0_iff) (metis append_take_drop_id)

lemma strchr_None_iff [cstr_simps]: "strchr s c = None \<longleftrightarrow> c \<notin> set s"
  by (induction s) auto

lemma strchr_SomeD:
  "strchr s c = Some i \<Longrightarrow> i < length s \<and> s ! i = c \<and> c \<notin> set (take i s)"
proof (induction s arbitrary: i)
  case (Cons x xs)
  then show ?case by (auto split: if_splits)
qed simp

lemma strchr_append_notin: "c \<notin> set s \<Longrightarrow> strchr (s @ c # t) c = Some (length s)"
  by (induction s) auto

section \<open>Splitting a name at a separator\<close>

text \<open>
  The loops over a property name look for the next \<open>'.'\<close> with \<open>strchr\<close> and go on behind
  it. \<open>tokens\<close> is the list of pieces such a loop sees.
\<close>

fun tokens :: "string \<Rightarrow> string list" where
  "tokens [] = [[]]"
| "tokens (x # xs) =
     (if x = CHR ''.'' then [] # tokens xs
      else case tokens xs of [] \<Rightarrow> [[x]] | t # ts \<Rightarrow> (x # t) # ts)"

lemma tokens_nonempty [simp]: "tokens s \<noteq> []"
  by (cases s) (auto split: list.splits)

lemma tokens_no_dot: "CHR ''.'' \<notin> set s \<Longrightarrow> tokens s = [s]"
  by (induction s) auto

lemma tokens_sep:
  "CHR ''.'' \<notin> set s \<Longrightarrow> tokens (s @ CHR ''.'' # t) = s # tokens t"
  by (induction s) auto

lemma tokens_strchr_None: "strchr s CHR ''.'' = None \<Longrightarrow> tokens s = [s]"
  by (simp add: strchr_None_iff tokens_no_dot)

lemma tokens_strchr_Some:
  assumes "strchr s CHR ''.'' = Some i"
  shows "tokens s = take i s # tokens (drop (Suc i) s)"
proof -
  from strchr_SomeD [OF assms] have i: "i < length s" "s ! i = CHR ''.''"
    and nd: "CHR ''.'' \<notin> set (take i s)" by auto
  from i have "s = take i s @ CHR ''.'' # drop (Suc i) s"
    using id_take_nth_drop [OF i(1)] by simp
  with tokens_sep [OF nd] show ?thesis by metis
qed

fun join_dots :: "string list \<Rightarrow> string" where
  "join_dots [] = []"
| "join_dots [t] = t"
| "join_dots (t # ts) = t @ CHR ''.'' # join_dots ts"

lemma join_tokens [simp]: "join_dots (tokens s) = s"
proof (induction s)
  case (Cons x xs)
  then show ?case
    by (cases "tokens xs" rule: join_dots.cases) (auto split: list.splits)
qed simp

lemma tokens_inj: "tokens s = tokens t \<longleftrightarrow> s = t"
  using join_tokens by metis

section \<open>Fixed-size buffers and little-endian words\<close>

text \<open>
  A \<open>char buf[n]\<close> is a list of \<open>n\<close> characters. \<open>c_str\<close> reads it as a C string, up to
  the first NUL; \<open>buf_write\<close> is \<open>memcpy(buf + i, s, strlen(s))\<close>.
\<close>

abbreviation NUL :: char where "NUL \<equiv> CHR 0x00"

definition c_str :: "char list \<Rightarrow> string" where
  "c_str b = takeWhile (\<lambda>c. c \<noteq> NUL) b"

definition buf_write :: "char list \<Rightarrow> nat \<Rightarrow> char list \<Rightarrow> char list" where
  "buf_write b i s = take i b @ s @ drop (i + length s) b"

lemma length_buf_write [simp, buf_simps]:
  "i + length s \<le> length b \<Longrightarrow> length (buf_write b i s) = length b"
  by (simp add: buf_write_def)

lemma c_str_buf_write [buf_simps]:
  "NUL \<notin> set s \<Longrightarrow> c_str (buf_write b 0 (s @ [NUL])) = s"
  by (auto simp: c_str_def buf_write_def takeWhile_append)

lemma take_buf_write_after [buf_simps]:
  "n \<le> i \<Longrightarrow> i \<le> length b \<Longrightarrow> take n (buf_write b i s) = take n b"
  by (simp add: buf_write_def min_def)

lemma drop_buf_write_before [buf_simps]:
  "i + length s \<le> n \<Longrightarrow> i + length s \<le> length b \<Longrightarrow> drop n (buf_write b i s) = drop n b"
  by (simp add: buf_write_def)

lemma NUL_notin_c_str [simp, buf_simps]: "NUL \<notin> set (c_str b)"
  by (auto simp: c_str_def dest: set_takeWhileD)

definition le32 :: "nat \<Rightarrow> char list" where
  "le32 n = map (\<lambda>k. char_of (n div 256 ^ k)) [0, 1, 2, 3]"

definition le32_nat :: "char list \<Rightarrow> nat" where
  "le32_nat bs = (\<Sum>k\<leftarrow>[0, 1, 2, 3]. of_char (bs ! k) * 256 ^ k)"

lemma length_le32 [simp]: "length (le32 n) = 4"
  by (simp add: le32_def)

lemma mod_pow_256:
  "(n::nat) mod 4294967296 =
     n mod 256 + 256 * (n div 256 mod 256) + 65536 * (n div 65536 mod 256)
     + 16777216 * (n div 16777216 mod 256)"
  using mod_mult2_eq [of n 256 16777216] mod_mult2_eq [of "n div 256" 256 65536]
    mod_mult2_eq [of "n div 65536" 256 256]
  by (simp add: div_mult2_eq [symmetric])

lemma le32_nat_le32 [simp]: "le32_nat (le32 n) = n mod 2 ^ 32"
  by (simp add: le32_def le32_nat_def mod_pow_256 algebra_simps)

end
