(* ===== verification/C_Text.thy ===== *)
theory C_Text
  imports Prelude
begin

text \<open>
  Text as the C library reads it: character classes, decimal numbers, and the directives of
  \<open>fscanf\<close> that the sources use, each on what is left of a stream. Decimal printing is proved to
  be inverse to the scanning of numbers.
\<close>

section \<open>Character classes and digits\<close>

definition c_isspace :: "char \<Rightarrow> bool" where
  "c_isspace c \<longleftrightarrow> c \<in> {CHR '' '', CHR 0x09, CHR 0x0A, CHR 0x0B, CHR 0x0C, CHR 0x0D}"

definition c_isdigit :: "char \<Rightarrow> bool" where
  "c_isdigit c \<longleftrightarrow> CHR ''0'' \<le> c \<and> c \<le> CHR ''9''"

definition digit_val :: "char \<Rightarrow> int" where
  "digit_val c = of_char c - of_char (CHR ''0'')"

fun digits_val :: "int \<Rightarrow> string \<Rightarrow> int" where
  "digits_val acc [] = acc"
| "digits_val acc (c # cs) = (if c_isdigit c then digits_val (10 * acc + digit_val c) cs else acc)"

section \<open>Scanning\<close>

definition skip_ws :: "string \<Rightarrow> string" where
  "skip_ws s = dropWhile c_isspace s"

text \<open>\<open>"%*[^\n]\n"\<close>: the rest of the line and the white space after it; an empty line does not match.\<close>

definition skip_line :: "string \<Rightarrow> string" where
  "skip_line s =
     (if s = [] \<or> hd s = CHR 0x0A then s else skip_ws (dropWhile (\<lambda>c. c \<noteq> CHR 0x0A) s))"

text \<open>An optional sign and at least one digit, behind white space.\<close>

definition split_sign :: "string \<Rightarrow> bool \<times> string" where
  "split_sign t =
     (case t of
        [] \<Rightarrow> (False, [])
      | c # cs \<Rightarrow> if c = CHR ''-'' then (True, cs) else if c = CHR ''+'' then (False, cs) else (False, t))"

definition scan_int :: "string \<Rightarrow> int option \<times> string" where
  "scan_int s =
     (let t = skip_ws s; (neg, u) = split_sign t
      in if u = [] \<or> \<not> c_isdigit (hd u) then (None, t)
         else (Some (if neg then - digits_val 0 u else digits_val 0 u), dropWhile c_isdigit u))"

text \<open>\<open>%d\<close> stores the low 32 bits, \<open>%llu\<close> saturates.\<close>

definition scan_d :: "string \<Rightarrow> int option \<times> string" where
  "scan_d s = (case scan_int s of (v, r) \<Rightarrow> (map_option (signed_take_bit 31) v, r))"

definition scan_llu :: "string \<Rightarrow> u64 option \<times> string" where
  "scan_llu s = (case scan_int s of (v, r) \<Rightarrow> (map_option (\<lambda>n. word_of_int (min n (2 ^ 64 - 1))) v, r))"

text \<open>Literal characters of the format.\<close>

fun scan_lit :: "string \<Rightarrow> string \<Rightarrow> string option" where
  "scan_lit [] s = Some s"
| "scan_lit (c # cs) [] = None"
| "scan_lit (c # cs) (x # s) = (if c = x then scan_lit cs s else None)"

text \<open>\<open>%3s\<close>: up to \<open>n\<close> characters that are not white space.\<close>

definition scan_s :: "nat \<Rightarrow> string \<Rightarrow> string option \<times> string" where
  "scan_s n s =
     (let t = skip_ws s; w = take n (takeWhile (\<lambda>c. \<not> c_isspace c) t)
      in if w = [] then (None, t) else (Some w, drop (length w) t))"

section \<open>Decimal printing\<close>

definition digit_char :: "nat \<Rightarrow> char" where
  "digit_char d = ''0123456789'' ! d"

fun dec :: "nat \<Rightarrow> string" where
  "dec n = (if n < 10 then [digit_char n] else dec (n div 10) @ [digit_char (n mod 10)])"

declare dec.simps [simp del]

lemma digit_char: "d < 10 \<Longrightarrow> c_isdigit (digit_char d) \<and> digit_val (digit_char d) = int d
    \<and> \<not> c_isspace (digit_char d)"
proof -
  assume "d < 10"
  then have "d \<in> {0, 1, 2, 3, 4, 5, 6, 7, 8, 9}" by auto
  then show ?thesis
    by (elim insertE emptyE)
      (simp_all add: digit_char_def c_isdigit_def digit_val_def c_isspace_def less_eq_char_def)
qed

lemma dec_digits: "list_all c_isdigit (dec n)" "dec n \<noteq> []"
  by (induction n rule: dec.induct) (subst dec.simps, simp add: digit_char)+

lemma digits_val_append:
  "list_all c_isdigit ds \<Longrightarrow> digits_val acc (ds @ r) = digits_val (digits_val acc ds) r"
  by (induction ds arbitrary: acc) auto

lemma digits_val_dec: "digits_val 0 (dec n) = int n"
proof (induction n rule: dec.induct)
  case (1 n)
  show ?case
  proof (cases "n < 10")
    case True
    then show ?thesis using digit_char [of n] by (subst dec.simps) simp
  next
    case False
    then have "digits_val 0 (dec n) = 10 * int (n div 10) + int (n mod 10)"
      using 1 digit_char [of "n mod 10"]
      by (subst dec.simps) (simp add: digits_val_append dec_digits)
    moreover have "10 * (n div 10) + n mod 10 = n" by simp
    ultimately show ?thesis by linarith
  qed
qed

lemma digits_val_stop:
  "list_all c_isdigit ds \<Longrightarrow> r = [] \<or> \<not> c_isdigit (hd r) \<Longrightarrow> digits_val acc (ds @ r) = digits_val acc ds"
  by (simp add: digits_val_append) (cases r; simp)

lemma not_space_digit: "c_isdigit c \<Longrightarrow> \<not> c_isspace c \<and> c \<noteq> CHR ''-'' \<and> c \<noteq> CHR ''+''"
  by (auto simp: c_isdigit_def c_isspace_def less_eq_char_def)

lemma scan_int_dec:
  assumes "r = [] \<or> \<not> c_isdigit (hd r)" and "\<forall>c \<in> set w. c_isspace c"
  shows "scan_int (w @ dec n @ r) = (Some (int n), r)"
proof -
  obtain c cs where c: "dec n = c # cs" "c_isdigit c" using dec_digits [of n] by (cases "dec n") auto
  have "skip_ws (w @ dec n @ r) = dec n @ r"
    using assms(2) c not_space_digit by (induction w) (auto simp: skip_ws_def)
  moreover have "split_sign (dec n @ r) = (False, dec n @ r)"
    using c not_space_digit by (auto simp: split_sign_def)
  moreover have "digits_val 0 (dec n @ r) = int n"
    using digits_val_stop [OF dec_digits(1) assms(1)] digits_val_dec by simp
  moreover have "dropWhile c_isdigit (dec n @ r) = r"
    using dec_digits(1) [of n] assms(1) by (cases r) (auto simp: dropWhile_append list_all_iff)
  ultimately show ?thesis using c by (simp add: scan_int_def)
qed

lemma scan_d_dec:
  "n < 2 ^ 31 \<Longrightarrow> r = [] \<or> \<not> c_isdigit (hd r) \<Longrightarrow> \<forall>c \<in> set w. c_isspace c
     \<Longrightarrow> scan_d (w @ dec n @ r) = (Some (int n), r)"
  by (simp add: scan_d_def scan_int_dec signed_take_bit_int_eq_self)

lemma scan_llu_dec:
  assumes "n < 2 ^ 64" and "r = [] \<or> \<not> c_isdigit (hd r)" and "\<forall>c \<in> set w. c_isspace c"
  shows "scan_llu (w @ dec n @ r) = (Some (of_nat n), r)"
  using assms(1) by (simp add: scan_llu_def scan_int_dec [OF assms(2,3)] min_def)

lemma skip_ws_nonspace: "s = [] \<or> \<not> c_isspace (hd s) \<Longrightarrow> skip_ws s = s"
  by (cases s) (auto simp: skip_ws_def)

text \<open>\<open>%d\<close>, and \<open>std::to_string\<close>\<close>

definition to_string :: "int \<Rightarrow> string" where
  "to_string v = (if v < 0 then CHR ''-'' # dec (nat (- v)) else dec (nat v))"

section \<open>strtol\<close>

text \<open>Digits of a base up to 36.\<close>

definition digit_of :: "char \<Rightarrow> nat" where
  "digit_of c =
     (if c_isdigit c then of_char c - 48
      else if CHR ''a'' \<le> c \<and> c \<le> CHR ''z'' then of_char c - 87
      else if CHR ''A'' \<le> c \<and> c \<le> CHR ''Z'' then of_char c - 55 else 36)"

definition base_digits :: "nat \<Rightarrow> string \<Rightarrow> string" where
  "base_digits b s = takeWhile (\<lambda>c. digit_of c < b) s"

fun base_val :: "nat \<Rightarrow> int \<Rightarrow> string \<Rightarrow> int" where
  "base_val b acc [] = acc"
| "base_val b acc (c # cs) = base_val b (int b * acc + int (digit_of c)) cs"

text \<open>The base and the digits behind a possible prefix.\<close>

definition base_prefix :: "nat \<Rightarrow> string \<Rightarrow> nat \<times> string" where
  "base_prefix base u =
     (if (base = 0 \<or> base = 16) \<and> (take 2 u = ''0x'' \<or> take 2 u = ''0X'') \<and> base_digits 16 (drop 2 u) \<noteq> []
      then (16, drop 2 u)
      else if base = 0 then (if take 1 u = ''0'' then 8 else 10, u) else (base, u))"

text \<open>A \<open>long\<close> of \<open>lb + 1\<close> bits saturates; without digits the end is the start.\<close>

definition clamp :: "nat \<Rightarrow> int \<Rightarrow> int" where
  "clamp lb v = max (- (2 ^ lb)) (min v (2 ^ lb - 1))"

definition strtol :: "nat \<Rightarrow> nat \<Rightarrow> string \<Rightarrow> int \<times> string" where
  "strtol lb base s =
     (let (neg, u) = split_sign (skip_ws s); (b, w) = base_prefix base u; ds = base_digits b w
      in if ds = [] then (0, s)
         else (clamp lb (if neg then - base_val b 0 ds else base_val b 0 ds), drop (length ds) w))"

lemma digit_of_digit: "c_isdigit c \<Longrightarrow> digit_of c < 10 \<and> int (digit_of c) = digit_val c"
  by (auto simp: digit_of_def c_isdigit_def digit_val_def less_eq_char_def of_nat_diff of_nat_of_char)

lemma digit_of_ten: "digit_of c < 10 \<longleftrightarrow> c_isdigit c"
proof
  assume "digit_of c < 10"
  then show "c_isdigit c" by (auto simp: digit_of_def less_eq_char_def split: if_splits)
qed (simp add: digit_of_digit)

lemma base_val_digits: "list_all c_isdigit ds \<Longrightarrow> base_val 10 acc ds = digits_val acc ds"
  by (induction ds arbitrary: acc) (auto simp: digit_of_digit)

lemma base_digits_dec:
  assumes "r = [] \<or> \<not> c_isdigit (hd r)"
  shows "base_digits 10 (dec n @ r) = dec n"
proof -
  have "takeWhile c_isdigit (dec n @ r) = dec n"
    using dec_digits(1) [of n] assms by (cases r) (auto simp: takeWhile_append list_all_iff)
  then show ?thesis by (simp add: base_digits_def digit_of_ten)
qed

lemma clamp_id: "- (2 ^ lb) \<le> v \<Longrightarrow> v < 2 ^ lb \<Longrightarrow> clamp lb v = v"
  by (simp add: clamp_def)

lemma to_string_split:
  "skip_ws (to_string v @ r) = to_string v @ r"
  "split_sign (to_string v @ r) = (v < 0, dec (nat \<bar>v\<bar>) @ r)"
proof -
  obtain c cs where c: "dec (nat \<bar>v\<bar>) = c # cs" "c_isdigit c" using dec_digits [of "nat \<bar>v\<bar>"] by (cases "dec (nat \<bar>v\<bar>)") auto
  then have v: "to_string v = (if v < 0 then CHR ''-'' # c # cs else c # cs)" by (auto simp: to_string_def)
  show "skip_ws (to_string v @ r) = to_string v @ r"
    using v not_space_digit [OF c(2)] by (auto simp: skip_ws_def c_isspace_def)
  show "split_sign (to_string v @ r) = (v < 0, dec (nat \<bar>v\<bar>) @ r)"
    using v c not_space_digit [OF c(2)] by (auto simp: split_sign_def)
qed

lemma strtol_to_string:
  assumes "- (2 ^ lb) \<le> v" and "v < 2 ^ lb" and "r = [] \<or> \<not> c_isdigit (hd r)"
  shows "strtol lb 10 (to_string v @ r) = (v, r)"
proof -
  have "base_val 10 0 (dec (nat \<bar>v\<bar>)) = \<bar>v\<bar>"
    using digits_val_dec [of "nat \<bar>v\<bar>"] by (simp add: base_val_digits dec_digits(1))
  then show ?thesis
    using assms base_digits_dec [OF assms(3)] dec_digits(2) [of "nat \<bar>v\<bar>"]
    by (auto simp: strtol_def to_string_split base_prefix_def clamp_id Let_def)
qed

lemma dec_leading: "n \<noteq> 0 \<Longrightarrow> hd (dec n) \<noteq> CHR ''0''"
proof (induction n rule: dec.induct)
  case (1 n)
  show ?case
  proof (cases "n < 10")
    case True
    then have "n \<in> {1, 2, 3, 4, 5, 6, 7, 8, 9}" using 1(2) by auto
    then show ?thesis by (subst dec.simps) (auto simp: digit_char_def)
  next
    case False
    then have "hd (dec (n div 10)) \<noteq> CHR ''0''" using 1 by simp
    then show ?thesis using False dec_digits(2) by (subst dec.simps) simp
  qed
qed

text \<open>A printed number has no prefix that base 0 would take for another base.\<close>

lemma strtol_base0_to_string:
  assumes "- (2 ^ lb) \<le> v" and "v < 2 ^ lb"
  shows "fst (strtol lb 0 (to_string v)) = v"
proof (cases "v = 0")
  case True
  have "dec 0 = ''0''" by (simp add: dec.simps digit_char_def)
  then show ?thesis
    using True by (simp add: strtol_def to_string_def skip_ws_def c_isspace_def split_sign_def base_prefix_def
        base_digits_def digit_of_def c_isdigit_def clamp_def less_eq_char_def)
next
  case False
  let ?d = "dec (nat \<bar>v\<bar>)"
  obtain c cs where c: "?d = c # cs" "c \<noteq> CHR ''0''"
    using dec_digits(2) [of "nat \<bar>v\<bar>"] dec_leading [of "nat \<bar>v\<bar>"] False by (cases ?d) auto
  then have "base_prefix 0 ?d = (10, ?d)" by (simp add: base_prefix_def)
  moreover have "split_sign (skip_ws (to_string v)) = (v < 0, ?d)" using to_string_split [of v "[]"] by simp
  moreover have "base_val 10 0 ?d = \<bar>v\<bar>"
    using digits_val_dec [of "nat \<bar>v\<bar>"] by (simp add: base_val_digits dec_digits(1))
  ultimately show ?thesis
    using assms base_digits_dec [of "[]" "nat \<bar>v\<bar>"] dec_digits(2) [of "nat \<bar>v\<bar>"] by (auto simp: strtol_def clamp_id Let_def)
qed

section \<open>What scanning leaves\<close>

lemma skip_ws_idem [simp]: "skip_ws (skip_ws s) = skip_ws s"
  by (cases "skip_ws s") (auto simp: skip_ws_def dropWhile_eq_Cons_conv)

lemma scan_int_skip_ws [simp]: "scan_int (skip_ws s) = scan_int s"
  by (simp add: scan_int_def)

lemma scan_d_skip_ws [simp]: "scan_d (skip_ws s) = scan_d s"
  by (simp add: scan_d_def)

lemma length_skip_ws: "length (skip_ws s) \<le> length s"
  by (simp add: skip_ws_def length_dropWhile_le)

lemma length_skip_line: "length (skip_line s) \<le> length s"
  using length_skip_ws length_dropWhile_le by (auto simp: skip_line_def intro: order_trans)

lemma length_split_sign: "length (snd (split_sign t)) \<le> length t"
  by (cases t) (simp_all add: split_sign_def)

lemma length_scan_int:
  assumes "scan_int s = (v, r)"
  shows "length r \<le> length s" and "v \<noteq> None \<Longrightarrow> length r < length s"
proof -
  obtain neg u where u: "split_sign (skip_ws s) = (neg, u)" by (cases "split_sign (skip_ws s)")
  then have "length u \<le> length (skip_ws s)"
    using length_split_sign [of "skip_ws s"] by simp
  then have lu: "length u \<le> length s" using length_skip_ws [of s] by linarith
  have drop: "length (dropWhile c_isdigit u) < length u" if "u \<noteq> []" "c_isdigit (hd u)"
    using that length_dropWhile_le [of c_isdigit "tl u"] by (cases u) auto
  show "length r \<le> length s" "v \<noteq> None \<Longrightarrow> length r < length s"
    using assms u lu drop length_skip_ws [of s] length_dropWhile_le [of c_isdigit u]
    by (auto simp: scan_int_def split: if_splits)
qed

lemma length_scan_d:
  assumes "scan_d s = (v, r)"
  shows "length r \<le> length s" and "v \<noteq> None \<Longrightarrow> length r < length s"
  using assms length_scan_int [of s] by (auto simp: scan_d_def split: prod.splits)

lemma length_scan_llu: "scan_llu s = (v, r) \<Longrightarrow> length r \<le> length s"
  using length_scan_int(1) [of s] by (auto simp: scan_llu_def split: prod.splits)

lemma length_scan_s: "scan_s n s = (v, r) \<Longrightarrow> length r \<le> length s"
  using length_skip_ws [of s] by (auto simp: scan_s_def Let_def split: if_splits)

lemma scan_s_word:
  assumes "length w = n" and "w \<noteq> []" and "\<forall>c \<in> set w. \<not> c_isspace c"
  shows "scan_s n (w @ s) = (Some w, s)"
proof -
  have "skip_ws (w @ s) = w @ s" using assms by (cases w) (auto simp: skip_ws_def)
  moreover have "take n (takeWhile (\<lambda>c. \<not> c_isspace c) (w @ s)) = w"
    using assms by (simp add: takeWhile_append2)
  ultimately show ?thesis using assms by (auto simp: scan_s_def Let_def)
qed

lemma skip_line_newline:
  assumes "l \<noteq> []" and "CHR 0x0A \<notin> set l"
  shows "skip_line (l @ CHR 0x0A # r) = skip_ws r"
proof -
  have "dropWhile (\<lambda>c. c \<noteq> CHR 0x0A) (l @ CHR 0x0A # r) = CHR 0x0A # r"
    using assms(2) by (induction l) auto
  moreover have "skip_ws (CHR 0x0A # r) = skip_ws r" by (simp add: skip_ws_def c_isspace_def)
  moreover have "hd (l @ CHR 0x0A # r) \<noteq> CHR 0x0A" using assms(1,2) by (auto simp: neq_Nil_conv)
  ultimately show ?thesis unfolding skip_line_def by simp
qed

end
