(* ===== verification/Vectors.thy ===== *)
theory Vectors
  imports Prelude "HOL-Library.Multiset"
begin

text \<open>
  The growable pointer vector of \<open>tools/resetprop/utils/vector.c\<close>, on which property lists,
  argument lists and line lists are kept. \<open>size\<close> and \<open>cap\<close> are 32-bit, the array behind
  \<open>data\<close> is a list of cells, and an access outside it is a fault (\<^const>\<open>None\<close>). Allocation is
  taken to succeed, as the code does not test it; a null vector pointer, on which the operations
  do nothing, is not a value of the model. The contract of a comparison callback is the
  locale \<open>comparator\<close>, under which \<open>vec_sort\<close> is proved to sort and to drop the NULLs.
\<close>

section \<open>The structure\<close>

datatype 'a cell = Junk | Ptr "'a option"

record 'a vector =
  vsize :: u32
  vcap :: u32
  vdata :: "'a cell list"

fun cell_ptr :: "'a cell \<Rightarrow> 'a option" where
  "cell_ptr Junk = None"
| "cell_ptr (Ptr p) = p"

definition vec_elems :: "'a vector \<Rightarrow> 'a option list" where
  "vec_elems v = map cell_ptr (take (unat (vsize v)) (vdata v))"

section \<open>Operations\<close>

definition vec_init :: "'a vector" where
  "vec_init = \<lparr>vsize = 0, vcap = 1, vdata = [Junk]\<rparr>"

definition realloc_cells :: "'a cell list \<Rightarrow> nat \<Rightarrow> 'a cell list" where
  "realloc_cells d n = take n d @ replicate (n - length d) Junk"

definition vec_push_back :: "'a vector \<Rightarrow> 'a option \<Rightarrow> 'a vector option" where
  "vec_push_back v p =
     (let v' = (if vsize v = vcap v
                then v\<lparr>vcap := vcap v * 2,
                        vdata := realloc_cells (vdata v) (unat (vcap v * 2))\<rparr>
                else v)
      in if unat (vsize v') < length (vdata v')
         then Some (v'\<lparr>vdata := (vdata v')[unat (vsize v') := Ptr p], vsize := vsize v' + 1\<rparr>)
         else None)"

text \<open>The variadic arguments up to the terminating NULL.\<close>

fun vec_push_args :: "'a vector \<Rightarrow> 'a list \<Rightarrow> 'a vector option" where
  "vec_push_args v [] = Some v"
| "vec_push_args v (a # as) =
     (case vec_push_back v (Some a) of None \<Rightarrow> None | Some v' \<Rightarrow> vec_push_args v' as)"

definition vec_push_back_all :: "'a vector \<Rightarrow> 'a option \<Rightarrow> 'a list \<Rightarrow> 'a vector option" where
  "vec_push_back_all v p args =
     (case vec_push_back v p of None \<Rightarrow> None | Some v' \<Rightarrow> vec_push_args v' args)"

definition vec_pop_back :: "'a vector \<Rightarrow> ('a option \<times> 'a vector) option" where
  "vec_pop_back v =
     (if unat (vsize v - 1) < length (vdata v)
      then Some (cell_ptr (vdata v ! unat (vsize v - 1)), v\<lparr>vsize := vsize v - 1\<rparr>)
      else None)"

definition vec_comp :: "('a \<Rightarrow> 'a \<Rightarrow> int) option \<Rightarrow> 'a option \<Rightarrow> 'a option \<Rightarrow> int" where
  "vec_comp cmp aa bb =
     (case (aa, bb) of
        (None, None) \<Rightarrow> 0
      | (None, Some _) \<Rightarrow> 1
      | (Some _, None) \<Rightarrow> -1
      | (Some a, Some b) \<Rightarrow> (case cmp of None \<Rightarrow> 0 | Some c \<Rightarrow> c a b))"

text \<open>
  The loop \<open>vec_for_each_r\<close> of \<open>vec_sort\<close>: from the last element down, one decrement of
  \<open>size\<close> per NULL, stopping at the first element that is not NULL.
\<close>

fun trim_nulls :: "'a option list \<Rightarrow> u32 \<Rightarrow> u32" where
  "trim_nulls [] n = n"
| "trim_nulls (e # es) n = (if e \<noteq> None then n else trim_nulls es (n - 1))"

definition vec_sort ::
    "(('a option \<Rightarrow> 'a option \<Rightarrow> int) \<Rightarrow> 'a option list \<Rightarrow> 'a option list)
     \<Rightarrow> ('a \<Rightarrow> 'a \<Rightarrow> int) option \<Rightarrow> 'a vector \<Rightarrow> 'a vector" where
  "vec_sort qsort compar v =
     (let es = qsort (vec_comp compar) (vec_elems v)
      in v\<lparr>vdata := map Ptr es @ drop (unat (vsize v)) (vdata v),
            vsize := trim_nulls (rev es) (vsize v)\<rparr>)"

definition vec_destroy :: "'a vector \<Rightarrow> 'a vector" where
  "vec_destroy v = v\<lparr>vsize := 0, vcap := 0, vdata := []\<rparr>"

text \<open>The pointers freed, in order, and the destroyed vector.\<close>

definition vec_deep_destroy :: "'a vector \<Rightarrow> 'a option list \<times> 'a vector" where
  "vec_deep_destroy v = (vec_elems v, vec_destroy v)"

definition vec_dup :: "'a vector \<Rightarrow> 'a vector" where
  "vec_dup v = \<lparr>vsize = vsize v, vcap = vcap v, vdata = take (unat (vcap v)) (vdata v)\<rparr>"

text \<open>
  The indices the macro \<open>vec_for_each\<close> reads when its body never breaks: the initialiser
  reads \<open>data[0]\<close>, and the step \<open>++_, e = data[_]\<close> reads the next cell before the bound is
  tested.
\<close>

definition vec_for_each_reads :: "'a vector \<Rightarrow> nat list" where
  "vec_for_each_reads v = [0..<Suc (unat (vsize v))]"

section \<open>The invariant and what each operation keeps of it\<close>

text \<open>
  The capacity is a power of two, as it starts at one and only doubles: this is what makes
  the 32-bit doubling wrap to zero at \<open>2 ^ 31\<close> elements.
\<close>

definition vec_inv :: "'a vector \<Rightarrow> bool" where
  "vec_inv v \<longleftrightarrow>
     unat (vsize v) \<le> unat (vcap v) \<and> length (vdata v) = unat (vcap v)
     \<and> (\<exists>k < 32. unat (vcap v) = 2 ^ k)
     \<and> (\<forall>i < unat (vsize v). vdata v ! i \<noteq> Junk)"

lemma length_realloc_cells [simp]: "length (realloc_cells d n) = n"
  by (simp add: realloc_cells_def)

lemma nth_realloc_cells: "i < length d \<Longrightarrow> i < n \<Longrightarrow> realloc_cells d n ! i = d ! i"
  by (simp add: realloc_cells_def nth_append)

lemma take_realloc_cells: "k \<le> length d \<Longrightarrow> k \<le> n \<Longrightarrow> take k (realloc_cells d n) = take k d"
  by (simp add: realloc_cells_def min_def)

lemma vec_inv_init: "vec_inv vec_init"
  by (auto simp: vec_inv_def vec_init_def intro!: exI [of _ 0])

lemma vec_elems_init [simp]: "vec_elems vec_init = []"
  by (simp add: vec_elems_def vec_init_def)

lemma unat_double:
  fixes w :: u32
  assumes "unat w = 2 ^ k" and "k < 31"
  shows "unat (w * 2) = 2 ^ Suc k"
proof -
  have "(2::nat) ^ Suc k < 2 ^ 32"
    using assms(2) by (intro power_strict_increasing) auto
  then show ?thesis
    using assms by (simp add: unat_word_ariths mult.commute)
qed

lemma unat_plus_1:
  fixes w :: u32
  shows "unat w < n \<Longrightarrow> n < 2 ^ 32 \<Longrightarrow> unat (w + 1) = Suc (unat w)"
  by (simp add: unat_word_ariths)

lemma vec_push_back_Some:
  assumes inv: "vec_inv v" and room: "unat (vsize v) < 2 ^ 31"
  obtains v' where "vec_push_back v p = Some v'" and "vec_inv v'"
    and "vec_elems v' = vec_elems v @ [p]" and "unat (vsize v') = Suc (unat (vsize v))"
proof -
  from inv obtain k where k: "k < 32" "unat (vcap v) = 2 ^ k"
    and le: "unat (vsize v) \<le> unat (vcap v)" and len: "length (vdata v) = unat (vcap v)"
    and def: "\<forall>i < unat (vsize v). vdata v ! i \<noteq> Junk"
    by (auto simp: vec_inv_def)
  have sz: "unat (vsize v + 1) = Suc (unat (vsize v))"
    using room by (intro unat_plus_1 [where n = "2 ^ 31"]) auto
  show ?thesis
  proof (cases "vsize v = vcap v")
    case True
    with room k have "k < 31"
      by (metis not_less power_increasing one_le_numeral)
    then have cap: "unat (vcap v * 2) = 2 ^ Suc k" and k': "Suc k < 32"
      using unat_double [OF k(2)] by auto
    let ?d = "realloc_cells (vdata v) (2 ^ Suc k)"
    let ?v = "v\<lparr>vcap := vcap v * 2, vdata := ?d[unat (vsize v) := Ptr p], vsize := vsize v + 1\<rparr>"
    have lt: "unat (vsize v) < 2 ^ Suc k" using True k by simp
    have push: "vec_push_back v p = Some ?v"
      using True cap lt by (simp add: vec_push_back_def)
    have "vec_inv ?v"
      using True k k' cap sz def len
      by (auto simp: vec_inv_def nth_list_update nth_realloc_cells less_Suc_eq
          intro: exI [of _ "Suc k"])
    moreover have "vec_elems ?v = vec_elems v @ [p]"
      using sz lt len le
      by (simp add: vec_elems_def take_Suc_conv_app_nth take_realloc_cells)
    ultimately show ?thesis
      using that [of ?v] push sz by simp
  next
    case False
    with le have lt: "unat (vsize v) < unat (vcap v)"
      by (simp add: word_unat_eq_iff)
    let ?v = "v\<lparr>vdata := (vdata v)[unat (vsize v) := Ptr p], vsize := vsize v + 1\<rparr>"
    have push: "vec_push_back v p = Some ?v"
      using False lt len by (simp add: vec_push_back_def)
    have "vec_inv ?v"
      using lt k len def sz by (auto simp: vec_inv_def nth_list_update less_Suc_eq)
    moreover have "vec_elems ?v = vec_elems v @ [p]"
      using sz lt len by (simp add: vec_elems_def take_Suc_conv_app_nth)
    ultimately show ?thesis
      using that [of ?v] push sz by simp
  qed
qed

lemma vec_push_args_Some:
  assumes "vec_inv v" and "unat (vsize v) + length as \<le> 2 ^ 31"
  shows "\<exists>v'. vec_push_args v as = Some v' \<and> vec_inv v'
           \<and> vec_elems v' = vec_elems v @ map Some as"
  using assms
proof (induction as arbitrary: v)
  case (Cons a as)
  from Cons.prems have "unat (vsize v) < 2 ^ 31" by simp
  with Cons.prems(1) obtain v1 where v1: "vec_push_back v (Some a) = Some v1" "vec_inv v1"
    "vec_elems v1 = vec_elems v @ [Some a]" "unat (vsize v1) = Suc (unat (vsize v))"
    by (rule vec_push_back_Some)
  moreover have "unat (vsize v1) + length as \<le> 2 ^ 31"
    using Cons.prems(2) v1(4) by simp
  ultimately show ?case using Cons.IH [of v1] by auto
qed simp

lemma length_vec_elems: "vec_inv v \<Longrightarrow> length (vec_elems v) = unat (vsize v)"
  by (simp add: vec_elems_def vec_inv_def)

lemma vec_pop_back_Some:
  assumes inv: "vec_inv v" and ne: "vec_elems v \<noteq> []"
  obtains v' where "vec_pop_back v = Some (last (vec_elems v), v')" and "vec_inv v'"
    and "vec_elems v' = butlast (vec_elems v)"
proof -
  from inv ne have pos: "0 < unat (vsize v)"
    by (simp add: vec_elems_def)
  then have n: "unat (vsize v - 1) = unat (vsize v) - 1"
    by (metis One_nat_def Suc_leI unat_1 unat_sub word_le_nat_alt)
  let ?v = "v\<lparr>vsize := vsize v - 1\<rparr>"
  from inv have le: "unat (vsize v) \<le> length (vdata v)" by (simp add: vec_inv_def)
  have "last (vec_elems v) = cell_ptr (vdata v ! (unat (vsize v) - 1))"
    using last_conv_nth [OF ne] pos le by (simp add: vec_elems_def)
  then have "vec_pop_back v = Some (last (vec_elems v), ?v)"
    using pos le n by (simp add: vec_pop_back_def)
  moreover have "vec_inv ?v"
    using inv n by (auto simp: vec_inv_def)
  moreover have "vec_elems ?v = butlast (vec_elems v)"
    using n le by (simp add: vec_elems_def map_butlast [symmetric] butlast_take)
  ultimately show ?thesis using that by blast
qed

section \<open>Sorting under the comparator contract\<close>

text \<open>
  What \<open>qsort\<close> needs of its callback: the sign is antisymmetric and \<open>\<le> 0\<close> is transitive.
\<close>

locale comparator =
  fixes c :: "'a \<Rightarrow> 'a \<Rightarrow> int"
  assumes antisym_sign: "c x y < 0 \<longleftrightarrow> 0 < c y x"
    and le_trans: "c x y \<le> 0 \<Longrightarrow> c y z \<le> 0 \<Longrightarrow> c x z \<le> 0"
begin

lemma self_zero: "c x x = 0"
  using antisym_sign [of x x] by linarith

lemma le_total: "c x y \<le> 0 \<or> c y x \<le> 0"
  using antisym_sign [of y x] by linarith

text \<open>Lifting a callback to pointers, NULL last, gives a comparator again.\<close>

lemma vec_comp_comparator: "comparator (vec_comp (Some c))"
proof
  fix x y z :: "'a option"
  show "vec_comp (Some c) x y < 0 \<longleftrightarrow> 0 < vec_comp (Some c) y x"
    by (auto simp: vec_comp_def antisym_sign split: option.splits)
  show "vec_comp (Some c) x y \<le> 0 \<Longrightarrow> vec_comp (Some c) y z \<le> 0 \<Longrightarrow> vec_comp (Some c) x z \<le> 0"
    using le_trans by (auto simp: vec_comp_def split: option.splits)
qed

end

text \<open>
  The documented contract of \<open>qsort\<close>: on a consistent comparison it returns a sorted
  rearrangement; nothing is said of the order of equal elements.
\<close>

definition qsort_ok :: "(('e \<Rightarrow> 'e \<Rightarrow> int) \<Rightarrow> 'e list \<Rightarrow> 'e list) \<Rightarrow> bool" where
  "qsort_ok q \<longleftrightarrow>
     (\<forall>c xs. comparator c \<longrightarrow> mset (q c xs) = mset xs \<and> sorted_wrt (\<lambda>x y. c x y \<le> 0) (q c xs))"

text \<open>Insertion sort satisfies it.\<close>

fun insert_by :: "('e \<Rightarrow> 'e \<Rightarrow> int) \<Rightarrow> 'e \<Rightarrow> 'e list \<Rightarrow> 'e list" where
  "insert_by c x [] = [x]"
| "insert_by c x (y # ys) = (if c x y \<le> 0 then x # y # ys else y # insert_by c x ys)"

definition insertion_sort :: "('e \<Rightarrow> 'e \<Rightarrow> int) \<Rightarrow> 'e list \<Rightarrow> 'e list" where
  "insertion_sort c xs = foldr (insert_by c) xs []"

lemma mset_insert_by: "mset (insert_by c x ys) = add_mset x (mset ys)"
  by (induction ys) auto

lemma set_insert_by: "set (insert_by c x ys) = insert x (set ys)"
  using mset_insert_by [of c x ys] by (metis set_mset_add_mset_insert set_mset_mset)

lemma sorted_insert_by:
  assumes "comparator c" and "sorted_wrt (\<lambda>x y. c x y \<le> 0) ys"
  shows "sorted_wrt (\<lambda>x y. c x y \<le> 0) (insert_by c x ys)"
  using assms(2)
proof (induction ys)
  case (Cons y ys)
  then show ?case
    using comparator.le_trans [OF assms(1)] comparator.le_total [OF assms(1), of x y]
    by (auto simp: set_insert_by)
qed simp

lemma qsort_ok_insertion_sort: "qsort_ok insertion_sort"
proof -
  have "mset (insertion_sort c xs) = mset xs
        \<and> sorted_wrt (\<lambda>x y. c x y \<le> 0) (insertion_sort c xs)"
    if "comparator c" for c :: "'e \<Rightarrow> 'e \<Rightarrow> int" and xs
    unfolding insertion_sort_def
    by (induction xs) (auto simp: mset_insert_by sorted_insert_by [OF that])
  then show ?thesis by (auto simp: qsort_ok_def)
qed

text \<open>The trimming loop keeps exactly the elements before the trailing NULLs.\<close>

lemma trim_nulls_unat:
  "length es \<le> unat n \<Longrightarrow>
   unat (trim_nulls es n) = unat n - length (takeWhile (\<lambda>e. e = None) es)"
proof (induction es arbitrary: n)
  case (Cons e es)
  then have n: "unat (n - 1) = unat n - 1"
    by (metis One_nat_def Suc_le_eq length_Cons less_eq_Suc_le not_less_zero unat_1 unat_sub
        word_le_nat_alt zero_less_Suc order_less_le_trans)
  then show ?case using Cons by auto
qed simp

lemma sorted_vec_comp_split:
  assumes "sorted_wrt (\<lambda>x y. vec_comp (Some c) x y \<le> 0) es"
  shows "\<exists>k. es = filter (\<lambda>e. e \<noteq> None) es @ replicate k None"
  using assms
proof (induction es)
  case (Cons e es)
  then obtain k where k: "es = filter (\<lambda>e. e \<noteq> None) es @ replicate k None" by auto
  show ?case
  proof (cases e)
    case None
    with Cons.prems have "\<forall>x \<in> set es. x = None"
      by (auto simp: vec_comp_def split: option.splits)
    then have "es = replicate (length es) None"
      by (simp add: replicate_length_same)
    moreover from \<open>\<forall>x \<in> set es. x = None\<close> have "filter (\<lambda>e. e \<noteq> None) es = []"
      by (simp add: filter_empty_conv)
    ultimately show ?thesis using None by (auto intro!: exI [of _ "Suc (length es)"])
  next
    case (Some a)
    with k show ?thesis by auto
  qed
qed simp

lemma takeWhile_replicate_append:
  "(\<forall>x \<in> set xs. x \<noteq> a) \<Longrightarrow> takeWhile (\<lambda>e. e = a) (replicate k a @ xs) = replicate k a"
  by (induction k) (auto simp: takeWhile_eq_Nil_iff intro: hd_in_set)

context comparator
begin

lemma vec_sort_elems:
  assumes inv: "vec_inv v" and q: "qsort_ok q"
  shows "vec_elems (vec_sort q (Some c) v) =
         filter (\<lambda>e. e \<noteq> None) (q (vec_comp (Some c)) (vec_elems v))"
    and "vec_inv (vec_sort q (Some c) v)"
proof -
  let ?es = "q (vec_comp (Some c)) (vec_elems v)"
  let ?n = "trim_nulls (rev ?es) (vsize v)"
  have qs: "mset ?es = mset (vec_elems v)" "sorted_wrt (\<lambda>x y. vec_comp (Some c) x y \<le> 0) ?es"
    using q vec_comp_comparator by (auto simp: qsort_ok_def)
  have len: "length ?es = unat (vsize v)"
    using qs(1) length_vec_elems [OF inv] by (metis size_mset)
  obtain k where k: "?es = filter (\<lambda>e. e \<noteq> None) ?es @ replicate k None"
    using sorted_vec_comp_split [OF qs(2)] by blast
  let ?fs = "filter (\<lambda>e. e \<noteq> None) ?es"
  have "rev ?es = replicate k None @ rev ?fs"
    by (subst k) simp
  then have "takeWhile (\<lambda>e. e = None) (rev ?es) = replicate k None"
    using takeWhile_replicate_append [of "rev ?fs" None k] by simp
  then have n: "unat ?n = unat (vsize v) - k"
    using trim_nulls_unat [of "rev ?es" "vsize v"] len by simp
  have lf: "length ?fs = unat (vsize v) - k"
    using arg_cong [OF k, of length] len by simp
  have "take (unat (vsize v) - k) ?es = ?fs"
    using lf by (subst k) simp
  then show "vec_elems (vec_sort q (Some c) v) = ?fs"
    using n len by (simp add: vec_elems_def vec_sort_def Let_def take_map comp_def)
  show "vec_inv (vec_sort q (Some c) v)"
    using inv n len by (auto simp: vec_inv_def vec_sort_def Let_def nth_append)
qed

lemma vec_sort_spec:
  assumes inv: "vec_inv v" and q: "qsort_ok q"
  shows "mset (vec_elems (vec_sort q (Some c) v)) = filter_mset (\<lambda>e. e \<noteq> None) (mset (vec_elems v))"
    and "sorted_wrt (\<lambda>x y. vec_comp (Some c) x y \<le> 0) (vec_elems (vec_sort q (Some c) v))"
proof -
  let ?es = "q (vec_comp (Some c)) (vec_elems v)"
  have qs: "mset ?es = mset (vec_elems v)" "sorted_wrt (\<lambda>x y. vec_comp (Some c) x y \<le> 0) ?es"
    using q vec_comp_comparator by (auto simp: qsort_ok_def)
  show "mset (vec_elems (vec_sort q (Some c) v)) = filter_mset (\<lambda>e. e \<noteq> None) (mset (vec_elems v))"
    by (simp only: vec_sort_elems(1) [OF assms] mset_filter qs(1))
  show "sorted_wrt (\<lambda>x y. vec_comp (Some c) x y \<le> 0) (vec_elems (vec_sort q (Some c) v))"
    using qs(2) by (simp add: vec_sort_elems(1) [OF assms] sorted_wrt_filter)
qed

end

section \<open>Properties\<close>

text \<open>
  Below \<open>2 ^ 31\<close> elements, \<open>vec_push_back\<close> does not fault, keeps the vector's
  invariant and appends exactly the given pointer.
\<close>

theorem vec_push_back_appends:
  assumes "vec_inv v" and "unat (vsize v) < 2 ^ 31"
  shows "\<exists>v'. vec_push_back v p = Some v' \<and> vec_inv v' \<and> vec_elems v' = vec_elems v @ [p]"
  using vec_push_back_Some [OF assms] by metis

theorem vec_push_back_appends_witness:
  "\<exists>v'. vec_push_back (vec_init :: nat vector) (Some 7) = Some v' \<and> vec_inv v'
        \<and> vec_elems v' = [Some 7]"
  using vec_push_back_appends [OF vec_inv_init, of "Some (7::nat)"]
  by (simp add: vec_init_def vec_elems_def)

text \<open>
  The doubling of the 32-bit capacity wraps to zero in a full vector of
  \<open>2 ^ 31\<close> elements: the next \<open>vec_push_back\<close> shrinks the array to nothing and writes
  outside it. The same fault hits any push on a vector that \<open>vec_destroy\<close> has emptied.
\<close>

lemma vec_push_back_wraps:
  "(vsize v = 2 ^ 31 \<and> vcap v = 2 ^ 31 \<longrightarrow> vec_push_back v p = None)
   \<and> vec_push_back (vec_destroy v) p = None"
  by (simp add: vec_push_back_def vec_destroy_def)

text \<open>
  Property C11. With a consistent comparison, \<open>vec_sort\<close> leaves exactly the non-NULL
  elements, in order, and keeps the vector's invariant.
\<close>

theorem vec_sort_sorts:
  assumes "comparator c" and "qsort_ok q" and "vec_inv v"
  shows "vec_inv (vec_sort q (Some c) v)
     \<and> mset (vec_elems (vec_sort q (Some c) v)) = filter_mset (\<lambda>e. e \<noteq> None) (mset (vec_elems v))
     \<and> sorted_wrt (\<lambda>x y. vec_comp (Some c) x y \<le> 0) (vec_elems (vec_sort q (Some c) v))"
  using comparator.vec_sort_elems [OF assms(1,3,2)] comparator.vec_sort_spec [OF assms(1,3,2)]
  by blast

lemma comparator_int_diff: "comparator (\<lambda>x y :: int. x - y)"
  by unfold_locales auto

theorem vec_sort_sorts_witness:
  "vec_elems (vec_sort insertion_sort (Some (\<lambda>x y :: int. x - y))
     \<lparr>vsize = 3, vcap = 4, vdata = [Ptr (Some 9), Ptr None, Ptr (Some 2), Junk]\<rparr>) = [Some 2, Some 9]
   \<and> sorted_wrt (\<lambda>x y. vec_comp (Some (\<lambda>x y :: int. x - y)) x y \<le> 0)
      (vec_elems (vec_sort insertion_sort (Some (\<lambda>x y :: int. x - y))
        \<lparr>vsize = 3, vcap = 4, vdata = [Ptr (Some 9), Ptr None, Ptr (Some 2), Junk]\<rparr>))"
proof -
  let ?v = "\<lparr>vsize = 3, vcap = 4, vdata = [Ptr (Some 9), Ptr None, Ptr (Some 2), Junk]\<rparr> :: int vector"
  have "\<forall>i < (3::nat). vdata ?v ! i \<noteq> Junk"
    by (auto simp: numeral_3_eq_3 less_Suc_eq)
  moreover have "\<exists>k < 32. (4::nat) = 2 ^ k"
    by (rule exI [of _ 2]) simp
  ultimately have "vec_inv ?v" by (simp add: vec_inv_def)
  from vec_sort_sorts [OF comparator_int_diff qsort_ok_insertion_sort this]
  show ?thesis
    by (simp add: vec_sort_def vec_elems_def insertion_sort_def vec_comp_def)
qed

text \<open>
  A \<open>vec_for_each\<close> whose body runs to the end reads the cell behind the last
  element; it stays inside the array exactly when the vector is not full.
\<close>

theorem vec_for_each_overread:
  assumes "vec_inv v"
  shows "(\<forall>i \<in> set (vec_for_each_reads v). i < length (vdata v)) \<longleftrightarrow> vsize v \<noteq> vcap v"
  using assms by (auto simp: vec_inv_def vec_for_each_reads_def word_unat_eq_iff)

theorem vec_for_each_overread_witness:
  "\<not> (\<forall>i \<in> set (vec_for_each_reads \<lparr>vsize = 1, vcap = 1, vdata = [Ptr (Some (5::nat))]\<rparr>).
        i < length (vdata \<lparr>vsize = 1, vcap = 1, vdata = [Ptr (Some (5::nat))]\<rparr>))"
proof -
  have "vec_inv \<lparr>vsize = 1, vcap = 1, vdata = [Ptr (Some (5::nat))]\<rparr>"
    by (auto simp: vec_inv_def intro!: exI [of _ 0])
  from vec_for_each_overread [OF this] show ?thesis by simp
qed

end
