(* ===== verification/Prop_Area.thy ===== *)
theory Prop_Area
  imports Prelude
begin

text \<open>
  The shared-memory property area: \<open>prop_info.{h,cpp}\<close> and \<open>prop_area.{h,cpp}\<close> of
  \<open>tools/resetprop/libuniversal7420systemproperties\<close>. The mapped region behind \<open>data_\<close> is a map
  from offsets to the objects constructed there (trie nodes, property records, long values);
  objects live in zero-filled memory that is handed out once and never reused. Offsets and
  lengths are \<open>uint32_t\<close> in the code and natural numbers here, with the only arithmetic that could
  wrap (\<open>bytes_used_ += aligned\<close>, \<open>long_value_offset -= new_offset\<close>) written modulo \<open>2 ^ 32\<close>.
  Following a link to memory that holds no node is a fault; it and non-termination of a walk
  over cyclic memory are the value \<^const>\<open>None\<close>.
\<close>

section \<open>Property records (prop\_info)\<close>

definition PROP_VALUE_MAX :: nat where "PROP_VALUE_MAX = 92"

definition kLongFlag :: u32 where "kLongFlag = push_bit 16 1"

definition kLongLegacyErrorBufferSize :: nat where "kLongLegacyErrorBufferSize = 56"

definition kLongLegacyError :: string where
  "kLongLegacyError = ''Must use __system_property_read_callback() to read''"

text \<open>
  The union of \<open>value[92]\<close> and \<open>long_property\<close> is the 92 bytes \<open>pi_union\<close>: \<open>value\<close> starts at
  byte 0, \<open>error_message\<close> is bytes 0 to 55 and \<open>offset\<close> the four bytes at 56.
\<close>

record prop_info =
  pi_serial :: u32
  pi_union :: "char list"
  pi_name :: string

definition is_long :: "prop_info \<Rightarrow> bool" where
  "is_long i \<longleftrightarrow> pi_serial i AND kLongFlag \<noteq> 0"

definition pi_value :: "prop_info \<Rightarrow> string" where
  "pi_value i = c_str (pi_union i)"

definition long_offset :: "prop_info \<Rightarrow> nat" where
  "long_offset i = le32_nat (take 4 (drop kLongLegacyErrorBufferSize (pi_union i)))"

definition zero_union :: "char list" where
  "zero_union = replicate PROP_VALUE_MAX NUL"

definition prop_info_short :: "string \<Rightarrow> string \<Rightarrow> prop_info" where
  "prop_info_short name value =
     \<lparr>pi_serial = push_bit 24 (of_nat (length value)),
      pi_union = buf_write zero_union 0 (value @ [NUL]),
      pi_name = name\<rparr>"

definition prop_info_long :: "string \<Rightarrow> nat \<Rightarrow> prop_info" where
  "prop_info_long name long_off =
     \<lparr>pi_serial = push_bit 24 (of_nat (length kLongLegacyError)) OR kLongFlag,
      pi_union = buf_write (buf_write zero_union 0 (kLongLegacyError @ [NUL]))
                   kLongLegacyErrorBufferSize (le32 long_off),
      pi_name = name\<rparr>"

section \<open>The area\<close>

record prop_bt =
  bt_namelen :: nat
  bt_prop :: nat
  bt_left :: nat
  bt_right :: nat
  bt_children :: nat
  bt_name :: string

datatype pobj = Bt prop_bt | Info prop_info | LongValue string

record prop_area =
  bytes_used :: nat
  pa_serial :: u32
  pa_magic :: u32
  pa_version :: u32
  pa_data :: "nat \<rightharpoonup> pobj"

definition sizeof_prop_area :: nat where "sizeof_prop_area = 128"
definition sizeof_prop_bt :: nat where "sizeof_prop_bt = 20"
definition sizeof_prop_info :: nat where "sizeof_prop_info = 96"

definition PA_SIZE :: nat where "PA_SIZE = 128 * 1024"
definition PROP_AREA_MAGIC :: u32 where "PROP_AREA_MAGIC = 0x504f5250"
definition PROP_AREA_VERSION :: u32 where "PROP_AREA_VERSION = 0xfc6ed0ab"

definition zero_bt :: prop_bt where
  "zero_bt = \<lparr>bt_namelen = 0, bt_prop = 0, bt_left = 0, bt_right = 0, bt_children = 0,
              bt_name = []\<rparr>"

definition prop_bt_new :: "string \<Rightarrow> prop_bt" where
  "prop_bt_new name = zero_bt\<lparr>bt_namelen := length name, bt_name := name\<rparr>"

text \<open>The constructor: the zero memory at offset 0 is the root node.\<close>

definition prop_area_init :: "u32 \<Rightarrow> u32 \<Rightarrow> prop_area" where
  "prop_area_init magic version =
     \<lparr>bytes_used = sizeof_prop_bt, pa_serial = 0, pa_magic = magic, pa_version = version,
      pa_data = [0 \<mapsto> Bt zero_bt]\<rparr>"

text \<open>
  \<open>ds\<close> is the static member \<open>pa_data_size_\<close>, shared by all areas.
\<close>

definition allocate_obj :: "nat \<Rightarrow> prop_area \<Rightarrow> nat \<Rightarrow> (nat \<times> prop_area) option" where
  "allocate_obj ds pa sz =
     (let aligned = align4 sz
      in if bytes_used pa + aligned > ds then None
         else Some (bytes_used pa,
                    pa\<lparr>bytes_used := (bytes_used pa + aligned) mod 2 ^ 32\<rparr>))"

definition new_prop_bt :: "nat \<Rightarrow> prop_area \<Rightarrow> string \<Rightarrow> prop_area \<times> nat option" where
  "new_prop_bt ds pa name =
     (case allocate_obj ds pa (sizeof_prop_bt + length name + 1) of
        None \<Rightarrow> (pa, None)
      | Some (off, pa') \<Rightarrow>
          (pa'\<lparr>pa_data := (pa_data pa')(off \<mapsto> Bt (prop_bt_new name))\<rparr>, Some off))"

definition new_prop_info ::
    "nat \<Rightarrow> prop_area \<Rightarrow> string \<Rightarrow> string \<Rightarrow> prop_area \<times> nat option" where
  "new_prop_info ds pa name value =
     (case allocate_obj ds pa (sizeof_prop_info + length name + 1) of
        None \<Rightarrow> (pa, None)
      | Some (off, pa1) \<Rightarrow>
          if length value \<ge> PROP_VALUE_MAX then
            (case allocate_obj ds pa1 (length value + 1) of
               None \<Rightarrow> (pa1, None)
             | Some (loff, pa2) \<Rightarrow>
                 (pa2\<lparr>pa_data := (pa_data pa2)
                        (loff \<mapsto> LongValue value,
                         off \<mapsto> Info (prop_info_long name (nat ((int loff - int off) mod 2 ^ 32))))\<rparr>,
                  Some off))
          else
            (pa1\<lparr>pa_data := (pa_data pa1)(off \<mapsto> Info (prop_info_short name value))\<rparr>, Some off))"

definition to_prop_obj :: "nat \<Rightarrow> nat \<Rightarrow> nat option" where
  "to_prop_obj ds off = (if off > ds then None else Some off)"

definition root_node :: "nat \<Rightarrow> nat option" where
  "root_node ds = to_prop_obj ds 0"

text \<open>Dereferencing a node or record pointer.\<close>

definition bt_at :: "prop_area \<Rightarrow> nat \<Rightarrow> prop_bt option" where
  "bt_at pa off = (case pa_data pa off of Some (Bt b) \<Rightarrow> Some b | _ \<Rightarrow> None)"

definition info_at :: "prop_area \<Rightarrow> nat \<Rightarrow> prop_info option" where
  "info_at pa off = (case pa_data pa off of Some (Info i) \<Rightarrow> Some i | _ \<Rightarrow> None)"

definition upd_bt :: "prop_area \<Rightarrow> nat \<Rightarrow> (prop_bt \<Rightarrow> prop_bt) \<Rightarrow> prop_area" where
  "upd_bt pa off f =
     (case pa_data pa off of
        Some (Bt b) \<Rightarrow> pa\<lparr>pa_data := (pa_data pa)(off \<mapsto> Bt (f b))\<rparr>
      | _ \<Rightarrow> pa)"

section \<open>Searching the trie\<close>

definition cmp_prop_name :: "string \<Rightarrow> nat \<Rightarrow> string \<Rightarrow> nat \<Rightarrow> int" where
  "cmp_prop_name one one_len two two_len =
     (if one_len < two_len then -1
      else if one_len > two_len then 1
      else strncmp one two one_len)"

text \<open>Linking a freshly allocated node into a field of node \<open>c\<close>.\<close>

definition link_new ::
    "nat \<Rightarrow> prop_area \<Rightarrow> nat \<Rightarrow> string \<Rightarrow> (nat \<Rightarrow> prop_bt \<Rightarrow> prop_bt) \<Rightarrow> prop_area \<times> nat option" where
  "link_new ds pa c name set_link =
     (case new_prop_bt ds pa name of
        (pa', None) \<Rightarrow> (pa', None)
      | (pa', Some off) \<Rightarrow> (upd_bt pa' c (set_link off), Some off))"

text \<open>
  \<open>find_prop_bt(bt, name, namelen, alloc_if_needed)\<close>: the binary search among the siblings of
  one level. The result is the new area and the node found, if any.
\<close>

partial_function (option) find_prop_bt_sib ::
    "nat \<Rightarrow> prop_area \<Rightarrow> nat option \<Rightarrow> string \<Rightarrow> bool \<Rightarrow> (prop_area \<times> nat option) option" where
  "find_prop_bt_sib ds pa current name alloc =
     (case current of
        None \<Rightarrow> Some (pa, None)
      | Some c \<Rightarrow>
          (case bt_at pa c of
             None \<Rightarrow> None
           | Some b \<Rightarrow>
               if cmp_prop_name name (length name) (bt_name b) (bt_namelen b) = 0 then
                 Some (pa, Some c)
               else if cmp_prop_name name (length name) (bt_name b) (bt_namelen b) < 0 then
                 (if bt_left b \<noteq> 0 then
                    find_prop_bt_sib ds pa (to_prop_obj ds (bt_left b)) name alloc
                  else if \<not> alloc then Some (pa, None)
                  else Some (link_new ds pa c name (\<lambda>off b. b\<lparr>bt_left := off\<rparr>)))
               else
                 (if bt_right b \<noteq> 0 then
                    find_prop_bt_sib ds pa (to_prop_obj ds (bt_right b)) name alloc
                  else if \<not> alloc then Some (pa, None)
                  else Some (link_new ds pa c name (\<lambda>off b. b\<lparr>bt_right := off\<rparr>)))))"

text \<open>
  \<open>find_prop_bt(trie, name, alloc_if_needed)\<close>: one trie level per dot-separated piece.
\<close>

function find_prop_bt ::
    "nat \<Rightarrow> prop_area \<Rightarrow> nat \<Rightarrow> string \<Rightarrow> bool \<Rightarrow> (prop_area \<times> nat option) option" where
  "find_prop_bt ds pa current remaining_name alloc =
     (let sep = strchr remaining_name CHR ''.'';
          sub = (case sep of None \<Rightarrow> remaining_name | Some i \<Rightarrow> take i remaining_name)
      in if sub = [] then Some (pa, None)
         else case bt_at pa current of
           None \<Rightarrow> None
         | Some b \<Rightarrow>
             (case (if bt_children b \<noteq> 0 then (pa, to_prop_obj ds (bt_children b))
                    else if alloc
                         then link_new ds pa current sub (\<lambda>off b. b\<lparr>bt_children := off\<rparr>)
                         else (pa, None)) of
                (pa1, None) \<Rightarrow> Some (pa1, None)
              | (pa1, Some root) \<Rightarrow>
                  (case find_prop_bt_sib ds pa1 (Some root) sub alloc of
                     None \<Rightarrow> None
                   | Some (pa2, None) \<Rightarrow> Some (pa2, None)
                   | Some (pa2, Some c) \<Rightarrow>
                       (case sep of
                          None \<Rightarrow> Some (pa2, Some c)
                        | Some i \<Rightarrow> find_prop_bt ds pa2 c (drop (Suc i) remaining_name) alloc))))"
  by pat_completeness auto
termination
  by (relation "measure (\<lambda>(ds, pa, c, rem, alloc). length rem)")
    (auto dest!: sym [of _ "strchr _ _"] dest: strchr_SomeD)

declare find_prop_bt.simps [simp del]

text \<open>The offset of the record found or created, with the area afterwards.\<close>

definition find_property ::
    "nat \<Rightarrow> prop_area \<Rightarrow> nat option \<Rightarrow> string \<Rightarrow> string \<Rightarrow> bool \<Rightarrow> (prop_area \<times> nat option) option" where
  "find_property ds pa trie name value alloc =
     (case trie of
        None \<Rightarrow> Some (pa, None)
      | Some t \<Rightarrow>
          (case find_prop_bt ds pa t name alloc of
             None \<Rightarrow> None
           | Some (pa1, None) \<Rightarrow> Some (pa1, None)
           | Some (pa1, Some c) \<Rightarrow>
               (case bt_at pa1 c of
                  None \<Rightarrow> None
                | Some b \<Rightarrow>
                    if bt_prop b \<noteq> 0 then Some (pa1, to_prop_obj ds (bt_prop b))
                    else if alloc then
                      (case new_prop_info ds pa1 name value of
                         (pa2, None) \<Rightarrow> Some (pa2, None)
                       | (pa2, Some off) \<Rightarrow>
                           Some (upd_bt pa2 c (\<lambda>b. b\<lparr>bt_prop := off\<rparr>), Some off))
                    else Some (pa1, None))))"

definition area_find :: "nat \<Rightarrow> prop_area \<Rightarrow> string \<Rightarrow> nat option option" where
  "area_find ds pa name = map_option snd (find_property ds pa (root_node ds) name [] False)"

definition area_add :: "nat \<Rightarrow> prop_area \<Rightarrow> string \<Rightarrow> string \<Rightarrow> (prop_area \<times> bool) option" where
  "area_add ds pa name value =
     map_option (\<lambda>(pa', r). (pa', r \<noteq> None)) (find_property ds pa (root_node ds) name value True)"

definition area_del :: "nat \<Rightarrow> prop_area \<Rightarrow> string \<Rightarrow> (prop_area \<times> bool) option" where
  "area_del ds pa name =
     (case root_node ds of
        None \<Rightarrow> Some (pa, False)
      | Some t \<Rightarrow>
          (case find_prop_bt ds pa t name False of
             None \<Rightarrow> None
           | Some (pa1, None) \<Rightarrow> Some (pa1, False)
           | Some (pa1, Some c) \<Rightarrow>
               (case bt_at pa1 c of
                  None \<Rightarrow> None
                | Some b \<Rightarrow> Some (upd_bt pa1 c (\<lambda>b. b\<lparr>bt_prop := 0\<rparr>), True))))"

text \<open>
  \<open>foreach_property\<close>: an in-order walk; the model returns the records handed to \<open>propfn\<close>.
  The recursive calls return \<open>bool\<close>, which the code stores in an \<open>int\<close> and tests for being
  negative.
\<close>

definition walk_err :: "bool \<Rightarrow> bool" where
  "walk_err r \<longleftrightarrow> (of_bool r :: int) < 0"

partial_function (option) foreach_property ::
    "nat \<Rightarrow> prop_area \<Rightarrow> nat option \<Rightarrow> (bool \<times> nat list) option" where
  "foreach_property ds pa trie =
     (case trie of
        None \<Rightarrow> Some (False, [])
      | Some t \<Rightarrow>
          (case bt_at pa t of
             None \<Rightarrow> None
           | Some b \<Rightarrow>
               Option.bind
                 (if bt_left b \<noteq> 0 then foreach_property ds pa (to_prop_obj ds (bt_left b))
                  else Some (True, []))
                 (\<lambda>(rl, ls).
                    if walk_err rl then Some (False, ls)
                    else if bt_prop b \<noteq> 0 \<and> to_prop_obj ds (bt_prop b) = None then Some (False, ls)
                    else
                      Option.bind
                        (if bt_children b \<noteq> 0
                         then foreach_property ds pa (to_prop_obj ds (bt_children b))
                         else Some (True, []))
                        (\<lambda>(rc, cs).
                           if walk_err rc
                           then Some (False, ls @ (if bt_prop b \<noteq> 0 then [bt_prop b] else []) @ cs)
                           else
                             Option.bind
                               (if bt_right b \<noteq> 0
                                then foreach_property ds pa (to_prop_obj ds (bt_right b))
                                else Some (True, []))
                               (\<lambda>(rr, rs).
                                  Some (\<not> walk_err rr,
                                        ls @ (if bt_prop b \<noteq> 0 then [bt_prop b] else []) @ cs @ rs))))))"

definition area_foreach :: "nat \<Rightarrow> prop_area \<Rightarrow> (bool \<times> nat list) option" where
  "area_foreach ds pa = foreach_property ds pa (root_node ds)"

text \<open>The string behind the record at an offset, if there is one where the offset points.\<close>

definition long_value :: "prop_area \<Rightarrow> nat \<Rightarrow> prop_info \<Rightarrow> string option" where
  "long_value pa off i =
     (case pa_data pa (off + long_offset i) of Some (LongValue s) \<Rightarrow> Some s | _ \<Rightarrow> None)"

section \<open>Mapping an area\<close>

text \<open>
  The results of the system calls are arguments: \<open>errno\<close> of a failed \<open>open\<close>, the record
  \<open>fstat\<close> fills, and what a successful \<open>mmap\<close> shows. The static members \<open>pa_size_\<close> and
  \<open>pa_data_size_\<close> are threaded as a pair.
\<close>

record file_stat =
  st_uid :: nat
  st_gid :: nat
  st_mode :: u32
  st_size :: nat

definition S_IWGRP :: u32 where "S_IWGRP = 16"
definition S_IWOTH :: u32 where "S_IWOTH = 2"
definition EACCES :: int where "EACCES = 13"

type_synonym pa_sizes = "nat \<times> nat"

definition map_fd_rw ::
    "file_stat option \<Rightarrow> prop_area option \<Rightarrow> pa_sizes \<Rightarrow> prop_area option \<times> pa_sizes" where
  "map_fd_rw fstat_r mmap_r sizes =
     (case fstat_r of
        None \<Rightarrow> (None, sizes)
      | Some st \<Rightarrow>
          if st_uid st \<noteq> 0 \<or> st_gid st \<noteq> 0 \<or> st_mode st AND (S_IWGRP OR S_IWOTH) \<noteq> 0
             \<or> st_size st < sizeof_prop_area
          then (None, sizes)
          else
            (case mmap_r of
               None \<Rightarrow> (None, st_size st, st_size st - sizeof_prop_area)
             | Some pa \<Rightarrow>
                 (if pa_magic pa \<noteq> PROP_AREA_MAGIC \<or> pa_version pa \<noteq> PROP_AREA_VERSION then None
                  else Some pa,
                  st_size st, st_size st - sizeof_prop_area)))"

definition map_prop_area ::
    "bool \<Rightarrow> file_stat option \<Rightarrow> prop_area option \<Rightarrow> pa_sizes \<Rightarrow> prop_area option \<times> pa_sizes" where
  "map_prop_area open_ok fstat_r mmap_r sizes =
     (if \<not> open_ok then (None, sizes) else map_fd_rw fstat_r mmap_r sizes)"

text \<open>
  Creating an area; \<open>abort()\<close> is \<^const>\<open>None\<close>. The flag \<open>*fsetxattr_failed\<close> is threaded.
\<close>

definition map_prop_area_rw ::
    "int option \<Rightarrow> string option \<Rightarrow> bool \<Rightarrow> bool \<Rightarrow> bool \<Rightarrow> bool \<Rightarrow> pa_sizes
     \<Rightarrow> (prop_area option \<times> bool \<times> pa_sizes) option" where
  "map_prop_area_rw open_errno context setxattr_ok ftruncate_ok mmap_ok fsetxattr_failed sizes =
     (case open_errno of
        Some e \<Rightarrow> if e = EACCES then None else Some (None, fsetxattr_failed, sizes)
      | None \<Rightarrow>
          let failed = fsetxattr_failed \<or> (context \<noteq> None \<and> \<not> setxattr_ok)
          in if \<not> ftruncate_ok then Some (None, failed, sizes)
             else if \<not> mmap_ok then Some (None, failed, PA_SIZE, PA_SIZE - sizeof_prop_area)
             else Some (Some (prop_area_init PROP_AREA_MAGIC PROP_AREA_VERSION), failed,
                        PA_SIZE, PA_SIZE - sizeof_prop_area))"

text \<open>\<open>unmap_prop_area\<close> clears the pointer; the second component says whether \<open>munmap\<close> ran.\<close>

definition unmap_prop_area :: "prop_area option \<Rightarrow> prop_area option \<times> bool" where
  "unmap_prop_area pa = (None, pa \<noteq> None)"

end
