(* ===== verification/Prop_Trie.thy ===== *)
theory Prop_Trie
  imports Prelude
begin

text \<open>
  The abstract shape of the property trie: a ternary search tree whose nodes carry the offset
  they occupy in the area, their name piece and the offset of their property record (0 for
  none). Searching, inserting a sibling and overwriting a node are the functional counterparts
  of the walks in \<open>prop_area.cpp\<close>; \<open>bst\<close> is the order the siblings of each level are kept in.
\<close>

datatype tst = Tip | Nd nat string nat tst tst tst

text \<open>Pieces are ordered by length first, as \<open>cmp_prop_name\<close> compares them.\<close>

definition key :: "string \<Rightarrow> nat \<times> string" where
  "key x = (length x, x)"

lemma key_inj [simp]: "key x = key y \<longleftrightarrow> x = y"
  by (auto simp: key_def)

fun offs :: "tst \<Rightarrow> nat list" where
  "offs Tip = []"
| "offs (Nd k nm p l r c) = k # offs l @ offs r @ offs c"

fun sib_toks :: "tst \<Rightarrow> string set" where
  "sib_toks Tip = {}"
| "sib_toks (Nd k nm p l r c) = {nm} \<union> sib_toks l \<union> sib_toks r"

fun bst :: "tst \<Rightarrow> bool" where
  "bst Tip = True"
| "bst (Nd k nm p l r c) =
     ((\<forall>x \<in> sib_toks l. key x < key nm) \<and> (\<forall>x \<in> sib_toks r. key nm < key x)
      \<and> bst l \<and> bst r \<and> bst c)"

section \<open>One level\<close>

text \<open>The node named \<open>x\<close> among the siblings: its offset, property offset and children.\<close>

fun sfind :: "tst \<Rightarrow> string \<Rightarrow> (nat \<times> nat \<times> tst) option" where
  "sfind Tip x = None"
| "sfind (Nd k nm p l r c) x =
     (if x = nm then Some (k, p, c) else if key x < key nm then sfind l x else sfind r x)"

fun sins :: "tst \<Rightarrow> string \<Rightarrow> nat \<Rightarrow> tst" where
  "sins Tip x n = Nd n x 0 Tip Tip Tip"
| "sins (Nd k nm p l r c) x n =
     (if x = nm then Nd k nm p l r c
      else if key x < key nm then Nd k nm p (sins l x n) r c else Nd k nm p l (sins r x n) c)"

text \<open>Overwrite the property offset and the children of the node named \<open>x\<close>.\<close>

fun sput :: "string \<Rightarrow> nat \<Rightarrow> tst \<Rightarrow> tst \<Rightarrow> tst" where
  "sput x q d Tip = Tip"
| "sput x q d (Nd k nm p l r c) =
     (if x = nm then Nd k nm q l r d
      else if key x < key nm then Nd k nm p (sput x q d l) r c else Nd k nm p l (sput x q d r) c)"

lemma sfind_offs: "sfind t x = Some (k, p, c) \<Longrightarrow> k \<in> set (offs t) \<and> set (offs c) \<subseteq> set (offs t)"
  by (induction t) (auto split: if_splits)

lemma sfind_distinct:
  "sfind t x = Some (k, p, c) \<Longrightarrow> distinct (offs t) \<Longrightarrow> distinct (k # offs c)"
  by (induction t) (auto split: if_splits)

lemma sfind_bst: "sfind t x = Some (k, p, c) \<Longrightarrow> bst t \<Longrightarrow> bst c"
  by (induction t) (auto split: if_splits)

lemma sfind_sib_toks: "bst t \<Longrightarrow> x \<in> sib_toks t \<longleftrightarrow> sfind t x \<noteq> None"
  by (induction t) (auto split: if_splits)

lemma sib_toks_sput [simp]: "sib_toks (sput x q d t) = sib_toks t"
  by (induction t) auto

lemma sib_toks_sins: "sib_toks (sins t x n) = insert x (sib_toks t)"
  by (induction t) auto

lemma bst_sput: "bst t \<Longrightarrow> bst d \<Longrightarrow> bst (sput x q d t)"
  by (induction t) auto

lemma bst_sins: "bst t \<Longrightarrow> bst (sins t x n)"
proof (induction t)
  case (Nd k nm p l r c)
  have "key nm < key x" if "x \<noteq> nm" "\<not> key x < key nm"
    using that by (metis antisym_conv3 key_inj)
  with Nd show ?case by (auto simp: sib_toks_sins)
qed simp

lemma set_offs_sins: "sfind t x = None \<Longrightarrow> set (offs (sins t x n)) = insert n (set (offs t))"
  by (induction t) (auto split: if_splits)

lemma distinct_offs_sins:
  "sfind t x = None \<Longrightarrow> distinct (offs t) \<Longrightarrow> n \<notin> set (offs t) \<Longrightarrow> distinct (offs (sins t x n))"
  by (induction t) (auto split: if_splits simp: set_offs_sins)

lemma set_offs_sput:
  "sfind t x = Some (k, p, c) \<Longrightarrow> set (offs (sput x q d t)) \<subseteq> set (offs t) \<union> set (offs d)"
  by (induction t) (auto split: if_splits)

lemma distinct_offs_sput:
  assumes "sfind t x = Some (k, p, c)" and "distinct (offs t)" and "distinct (offs d)"
    and "set (offs d) \<inter> set (offs t) \<subseteq> set (offs c)"
  shows "distinct (offs (sput x q d t))"
  using assms
proof (induction t)
  case (Nd k' nm p' l r c')
  show ?case
  proof (cases "x = nm")
    case True
    with Nd.prems show ?thesis by auto
  next
    case False
    show ?thesis
    proof (cases "key x < key nm")
      case True
      with False Nd.prems have f: "sfind l x = Some (k, p, c)" by simp
      with True False Nd.prems Nd.IH(1) have "distinct (offs (sput x q d l))" by auto
      with True False Nd.prems f set_offs_sput [OF f, of q d] sfind_offs [OF f]
      show ?thesis by auto blast+
    next
      case ge: False
      with False Nd.prems have f: "sfind r x = Some (k, p, c)" by simp
      with ge False Nd.prems Nd.IH(2) have "distinct (offs (sput x q d r))" by auto
      with ge False Nd.prems f set_offs_sput [OF f, of q d] sfind_offs [OF f]
      show ?thesis by auto blast+
    qed
  qed
qed simp

lemma sfind_sins:
  "sfind t x = None \<Longrightarrow> sfind (sins t x n) y = (if y = x then Some (n, 0, Tip) else sfind t y)"
  by (induction t) (auto split: if_splits)

lemma sfind_sput:
  "sfind (sput x q d t) y =
     (if y = x then map_option (\<lambda>z. (fst z, q, d)) (sfind t x) else sfind t y)"
  by (induction t) auto

section \<open>Paths\<close>

fun node :: "tst \<Rightarrow> string list \<Rightarrow> (nat \<times> nat \<times> tst) option" where
  "node t [] = None"
| "node t [x] = sfind t x"
| "node t (x # xs) = (case sfind t x of None \<Rightarrow> None | Some (k, p, c) \<Rightarrow> node c xs)"

definition tlook :: "tst \<Rightarrow> string list \<Rightarrow> nat option" where
  "tlook t ts = (case node t ts of None \<Rightarrow> None | Some (k, p, c) \<Rightarrow> if p = 0 then None else Some p)"

fun tpset :: "string list \<Rightarrow> nat \<Rightarrow> tst \<Rightarrow> tst" where
  "tpset [] q t = t"
| "tpset [x] q t = (case sfind t x of None \<Rightarrow> t | Some (k, p, c) \<Rightarrow> sput x q c t)"
| "tpset (x # xs) q t =
     (case sfind t x of None \<Rightarrow> t | Some (k, p, c) \<Rightarrow> sput x p (tpset xs q c) t)"

lemma node_Cons: "xs \<noteq> [] \<Longrightarrow> node t (x # xs) = (case sfind t x of None \<Rightarrow> None | Some (k, p, c) \<Rightarrow> node c xs)"
  by (cases xs) auto

lemma tpset_Cons: "xs \<noteq> [] \<Longrightarrow> tpset (x # xs) q t =
     (case sfind t x of None \<Rightarrow> t | Some (k, p, c) \<Rightarrow> sput x p (tpset xs q c) t)"
  by (cases xs) auto

lemma tlook_Nil [simp]: "tlook t [] = None"
  by (simp add: tlook_def)

lemma tlook_Cons:
  "tlook t (x # xs) =
     (case sfind t x of None \<Rightarrow> None
      | Some (k, p, c) \<Rightarrow> if xs = [] then (if p = 0 then None else Some p) else tlook c xs)"
  by (cases xs) (auto simp: tlook_def split: option.splits)

lemma tlook_Tip [simp]: "tlook Tip ts = None"
  by (cases ts) (auto simp: tlook_Cons)

lemma tlook_sins: "sfind t x = None \<Longrightarrow> tlook (sins t x n) ts = tlook t ts"
  by (cases ts) (auto simp: tlook_Cons sfind_sins)

lemma tlook_sput:
  assumes "sfind t x = Some (k, p, c)"
  shows "tlook (sput x q d t) (y # ys) =
     (if y = x then (if ys = [] then (if q = 0 then None else Some q) else tlook d ys)
      else tlook t (y # ys))"
  using assms by (auto simp: tlook_Cons sfind_sput)

lemma tlook_tpset:
  "node t ts \<noteq> None \<Longrightarrow>
   tlook (tpset ts q t) us = (if us = ts then (if q = 0 then None else Some q) else tlook t us)"
proof (induction ts q t arbitrary: us rule: tpset.induct)
  case (2 x q t)
  then obtain k p c where f: "sfind t x = Some (k, p, c)" by auto
  show ?case
    by (cases us) (auto simp: f tlook_Cons sfind_sput)
next
  case (3 x y ys q t)
  then obtain k p c where f: "sfind t x = Some (k, p, c)" and n: "node c (y # ys) \<noteq> None"
    by (auto split: option.splits)
  then have IH: "tlook (tpset (y # ys) q c) us =
      (if us = y # ys then (if q = 0 then None else Some q) else tlook c us)" for us
    using 3 by auto
  show ?case
    by (cases us) (auto simp: f IH tlook_sput [OF f] tlook_Cons [of t x])
qed auto

lemma bst_tpset: "bst t \<Longrightarrow> bst (tpset ts q t)"
proof (induction ts q t rule: tpset.induct)
  case (3 x y ys q t)
  show ?case
  proof (cases "sfind t x")
    case (Some z)
    then show ?thesis
      using 3 sfind_bst [of t x "fst z" "fst (snd z)" "snd (snd z)"]
      by (auto intro!: bst_sput split: prod.splits)
  qed (use 3 in simp)
qed (auto split: option.splits intro!: bst_sput dest: sfind_bst)

lemma offs_sput_same: "sfind t x = Some (k, p, c) \<Longrightarrow> offs d = offs c \<Longrightarrow> offs (sput x q d t) = offs t"
  by (induction t) (auto split: if_splits)

lemma offs_tpset [simp]: "offs (tpset ts q t) = offs t"
  by (induction ts q t rule: tpset.induct) (auto split: option.splits simp: offs_sput_same)

section \<open>Walking\<close>

text \<open>The in-order walk, with the path of each property met.\<close>

fun paths :: "tst \<Rightarrow> (string list \<times> nat) list" where
  "paths Tip = []"
| "paths (Nd k nm p l r c) =
     paths l @ (if p \<noteq> 0 then [([nm], p)] else []) @ map (\<lambda>(ts, q). (nm # ts, q)) (paths c)
     @ paths r"

lemma paths_head: "(ts, p) \<in> set (paths t) \<Longrightarrow> ts \<noteq> [] \<and> hd ts \<in> sib_toks t"
  by (induction t arbitrary: ts) (auto split: if_splits)

lemma paths_iff_tlook: "bst t \<Longrightarrow> (ts, p) \<in> set (paths t) \<longleftrightarrow> tlook t ts = Some p"
proof (induction t arbitrary: ts)
  case (Nd k nm q l r c)
  then have b: "bst l" "bst r" "bst c"
    and lt: "\<And>x. x \<in> sib_toks l \<Longrightarrow> key x < key nm" and gt: "\<And>x. x \<in> sib_toks r \<Longrightarrow> key nm < key x"
    by auto
  note IH = Nd.IH(1) [OF b(1)] Nd.IH(2) [OF b(2)] Nd.IH(3) [OF b(3)]
  show ?case
  proof (cases ts)
    case Nil
    then show ?thesis using paths_head by fastforce
  next
    case (Cons x xs)
    have l: "(x # xs, p) \<in> set (paths l) \<longrightarrow> key x < key nm"
      using paths_head lt by fastforce
    have r: "(x # xs, p) \<in> set (paths r) \<longrightarrow> key nm < key x"
      using paths_head gt by fastforce
    have "([], p) \<notin> set (paths c)" using paths_head by fastforce
    moreover have "(x # xs, p) \<in> (\<lambda>(ts, q). (nm # ts, q)) ` set (paths c)
        \<longleftrightarrow> x = nm \<and> (xs, p) \<in> set (paths c)"
      by force
    moreover have "tlook (Nd k nm q l r c) (x # xs) =
        (if x = nm then (if xs = [] then (if q = 0 then None else Some q) else tlook c xs)
         else if key x < key nm then tlook l (x # xs) else tlook r (x # xs))"
      by (simp add: tlook_Cons)
    ultimately show ?thesis
      using l r by (auto simp: Cons IH split: if_splits)
  qed
qed simp

lemma distinct_paths: "bst t \<Longrightarrow> distinct (map fst (paths t))"
proof (induction t)
  case (Nd k nm q l r c)
  have "inj_on (\<lambda>ts. nm # ts) (fst ` set (paths c))" by (simp add: inj_on_def)
  then have "distinct (map fst (map (\<lambda>(ts, q). (nm # ts, q)) (paths c)))"
    using Nd by (simp add: distinct_map comp_def case_prod_beta inj_on_def)
  moreover have "[] \<notin> fst ` set (paths c)" using paths_head by fastforce
  moreover have "hd ts \<in> sib_toks u" "ts \<noteq> []" if "ts \<in> fst ` set (paths u)" for ts u
    using that paths_head by fastforce+
  ultimately show ?case using Nd
    by (auto simp: image_iff) (metis list.sel(1) order_less_asym order_less_irrefl fst_conv)+
qed simp

end
