(* ===== verification/Prop_Area_Correct.thy ===== *)
theory Prop_Area_Correct
  imports Prop_Area Prop_Trie
begin

text \<open>
  The refinement of the property area: a well-formed area represents an abstract trie, every
  search terminates without a fault, and \<open>find\<close>, \<open>add\<close>, \<open>del\<close> and \<open>foreach\<close> act on the
  properties as the corresponding operations of a finite map. The step lemmas go level by
  level: \<open>lvl\<close> says that a node and its children represent a trie, \<open>grows\<close> that an area was
  extended by fresh nodes without touching anything else.
\<close>

section \<open>Comparing pieces\<close>

lemma cmp_prop_name_less:
  "cmp_prop_name a (length a) b (length b) < 0 \<longleftrightarrow> key a < key b"
  by (auto simp: cmp_prop_name_def key_def strncmp_strcmp strcmp_less_0_iff)

lemma cmp_prop_name_eq [simp]:
  "cmp_prop_name a (length a) b (length b) = 0 \<longleftrightarrow> a = b"
  by (auto simp: cmp_prop_name_def strncmp_strcmp)

section \<open>Representation and frames\<close>

fun repr :: "prop_area \<Rightarrow> nat \<Rightarrow> tst \<Rightarrow> bool" where
  "repr pa k Tip \<longleftrightarrow> k = 0"
| "repr pa k (Nd j nm p l r c) \<longleftrightarrow>
     k = j \<and> 0 < j
     \<and> (\<exists>b. bt_at pa j = Some b \<and> bt_name b = nm \<and> bt_namelen b = length nm \<and> bt_prop b = p
          \<and> repr pa (bt_left b) l \<and> repr pa (bt_right b) r \<and> repr pa (bt_children b) c)"

definition frame :: "nat set \<Rightarrow> prop_area \<Rightarrow> prop_area \<Rightarrow> bool" where
  "frame S pa pa' \<longleftrightarrow>
     bytes_used pa \<le> bytes_used pa'
     \<and> (\<forall>k. k < bytes_used pa \<longrightarrow> k \<notin> S \<longrightarrow> pa_data pa' k = pa_data pa k)"

definition area_sz :: "nat \<Rightarrow> prop_area \<Rightarrow> bool" where
  "area_sz ds pa \<longleftrightarrow> bytes_used pa \<le> ds \<and> ds < 2 ^ 32"

lemma frame_refl [simp]: "frame S pa pa"
  by (simp add: frame_def)

lemma frame_mono: "frame S pa pa' \<Longrightarrow> S \<subseteq> T \<Longrightarrow> frame T pa pa'"
  by (auto simp: frame_def)

lemma frame_trans:
  "frame S pa pa' \<Longrightarrow> frame T pa' pa'' \<Longrightarrow> T \<inter> {..<bytes_used pa} \<subseteq> S \<Longrightarrow> frame S pa pa''"
  by (auto simp: frame_def) (metis (no_types, lifting) IntI in_mono lessThan_iff order_less_le_trans)

lemma frame_bt_at: "frame S pa pa' \<Longrightarrow> k < bytes_used pa \<Longrightarrow> k \<notin> S \<Longrightarrow> bt_at pa' k = bt_at pa k"
  by (simp add: frame_def bt_at_def)

lemma repr_frame:
  "repr pa k t \<Longrightarrow> frame S pa pa' \<Longrightarrow> set (offs t) \<inter> S = {}
   \<Longrightarrow> (\<forall>j \<in> set (offs t). j < bytes_used pa) \<Longrightarrow> repr pa' k t"
proof (induction t arbitrary: k)
  case (Nd j nm p l r c)
  then have "bt_at pa' j = bt_at pa j" by (intro frame_bt_at) auto
  with Nd show ?case by fastforce
qed simp

lemma repr_bt_at: "repr pa k t \<Longrightarrow> j \<in> set (offs t) \<Longrightarrow> 0 < j \<and> (\<exists>b. bt_at pa j = Some b)"
  by (induction t arbitrary: k) auto

lemma repr_sfind:
  "repr pa k t \<Longrightarrow> sfind t x = Some (j, p, c) \<Longrightarrow>
   \<exists>b. bt_at pa j = Some b \<and> bt_prop b = p \<and> repr pa (bt_children b) c"
  by (induction t arbitrary: k) (auto split: if_splits)

lemma repr_nonTip: "repr pa k t \<Longrightarrow> k \<noteq> 0 \<longleftrightarrow> t \<noteq> Tip"
  by (cases t) auto

lemma repr_root_in_offs: "repr pa k t \<Longrightarrow> t \<noteq> Tip \<Longrightarrow> k \<in> set (offs t)"
  by (cases t) auto

lemma to_prop_obj_in: "area_sz ds pa \<Longrightarrow> k < bytes_used pa \<Longrightarrow> to_prop_obj ds k = Some k"
  by (simp add: to_prop_obj_def area_sz_def)

section \<open>Allocation\<close>

text \<open>The bytes a node for one piece takes, and the most a whole name can take.\<close>

definition node_size :: "string \<Rightarrow> nat" where
  "node_size nm = align4 (sizeof_prop_bt + length nm + 1)"

definition nodes_size :: "string list \<Rightarrow> nat" where
  "nodes_size ts = sum_list (map node_size ts)"

lemma nodes_size_simps [simp]:
  "nodes_size [] = 0" "nodes_size (x # xs) = node_size x + nodes_size xs"
  by (simp_all add: nodes_size_def)

lemma new_prop_bt_cases:
  assumes "area_sz ds pa"
  obtains (fail) "new_prop_bt ds pa nm = (pa, None)" and "ds < bytes_used pa + node_size nm"
  | (ok) pa' where "new_prop_bt ds pa nm = (pa', Some (bytes_used pa))"
      and "pa_data pa' = (pa_data pa)(bytes_used pa \<mapsto> Bt (prop_bt_new nm))"
      and "bytes_used pa < bytes_used pa'" and "area_sz ds pa'"
      and "bytes_used pa' = bytes_used pa + node_size nm"
proof -
  let ?a = "align4 (sizeof_prop_bt + length nm + 1)"
  have pos: "0 < ?a" by (rule align4_pos) simp
  show ?thesis
  proof (cases "bytes_used pa + ?a > ds")
    case True
    then show ?thesis using fail by (simp add: new_prop_bt_def allocate_obj_def Let_def node_size_def)
  next
    case False
    with assms have "(bytes_used pa + ?a) mod 2 ^ 32 = bytes_used pa + ?a"
      by (simp add: area_sz_def)
    with False assms pos show ?thesis
      using ok by (simp add: new_prop_bt_def allocate_obj_def Let_def area_sz_def node_size_def)
  qed
qed

lemma link_new_cases:
  assumes sz: "area_sz ds pa" and b: "bt_at pa c = Some b" and c: "c < bytes_used pa"
  obtains (fail) "link_new ds pa c nm f = (pa, None)" and "ds < bytes_used pa + node_size nm"
  | (ok) pa' where "link_new ds pa c nm f = (pa', Some (bytes_used pa))"
      and "bt_at pa' (bytes_used pa) = Some (prop_bt_new nm)"
      and "bt_at pa' c = Some (f (bytes_used pa) b)" and "frame {c} pa pa'"
      and "bytes_used pa < bytes_used pa'" and "area_sz ds pa'"
      and "bytes_used pa' = bytes_used pa + node_size nm"
proof (rule new_prop_bt_cases [OF sz, of nm])
  assume "new_prop_bt ds pa nm = (pa, None)" "ds < bytes_used pa + node_size nm"
  then show ?thesis using fail by (simp add: link_new_def)
next
  fix pa1
  assume pa1: "new_prop_bt ds pa nm = (pa1, Some (bytes_used pa))"
    "pa_data pa1 = (pa_data pa)(bytes_used pa \<mapsto> Bt (prop_bt_new nm))"
    "bytes_used pa < bytes_used pa1" "area_sz ds pa1" "bytes_used pa1 = bytes_used pa + node_size nm"
  from b c have "pa_data pa1 c = Some (Bt b)"
    by (auto simp: pa1(2) bt_at_def split: option.splits pobj.splits)
  then have "upd_bt pa1 c (f (bytes_used pa)) =
      pa1\<lparr>pa_data := (pa_data pa1)(c \<mapsto> Bt (f (bytes_used pa) b))\<rparr>"
    by (simp add: upd_bt_def)
  then show ?thesis
    using ok [of "upd_bt pa1 c (f (bytes_used pa))"] pa1 c
    by (simp add: link_new_def bt_at_def frame_def area_sz_def)
qed

section \<open>One level: the sibling search\<close>

text \<open>
  What the search for \<open>x\<close> from node \<open>k\<close> on may do to a level \<open>t\<close>: return what the abstract
  search returns and leave the area alone, or insert a fresh node.
\<close>

definition sib_res ::
    "nat \<Rightarrow> prop_area \<Rightarrow> nat \<Rightarrow> tst \<Rightarrow> string \<Rightarrow> bool \<Rightarrow> (prop_area \<times> nat option) option \<Rightarrow> bool" where
  "sib_res ds pa k t x alloc res \<longleftrightarrow>
     (res = Some (pa, map_option fst (sfind t x))
      \<and> (alloc \<and> sfind t x = None \<longrightarrow> ds < bytes_used pa + node_size x))
     \<or> (alloc \<and> sfind t x = None
        \<and> (\<exists>pa'. res = Some (pa', Some (bytes_used pa))
             \<and> repr pa' k (sins t x (bytes_used pa)) \<and> frame (set (offs t)) pa pa'
             \<and> bytes_used pa < bytes_used pa' \<and> area_sz ds pa'
             \<and> bytes_used pa' = bytes_used pa + node_size x))"

definition lvl_ok :: "nat \<Rightarrow> prop_area \<Rightarrow> nat \<Rightarrow> tst \<Rightarrow> bool" where
  "lvl_ok ds pa k t \<longleftrightarrow>
     repr pa k t \<and> distinct (offs t) \<and> (\<forall>j \<in> set (offs t). j < bytes_used pa) \<and> area_sz ds pa"

lemma lvl_okD:
  assumes "lvl_ok ds pa k (Nd j nm p l r c)" and "bt_at pa j = Some b"
  shows "k = j" and "j < bytes_used pa" and "bt_name b = nm" and "bt_namelen b = length nm"
    and "lvl_ok ds pa (bt_left b) l" and "lvl_ok ds pa (bt_right b) r"
    and "lvl_ok ds pa (bt_children b) c"
  using assms by (auto simp: lvl_ok_def)

lemma lvl_ok_disjoint:
  assumes "lvl_ok ds pa k (Nd j nm p l r c)"
  shows "set (offs l) \<inter> {j} = {}" and "set (offs r) \<inter> {j} = {}" and "set (offs c) \<inter> {j} = {}"
    and "set (offs r) \<inter> set (offs l) = {}" and "set (offs c) \<inter> set (offs l) = {}"
    and "set (offs l) \<inter> set (offs r) = {}" and "set (offs c) \<inter> set (offs r) = {}"
    and "j \<notin> set (offs l)" and "j \<notin> set (offs r)"
  using assms by (auto simp: lvl_ok_def)

lemma lvl_ok_frame:
  "lvl_ok ds pa k t \<Longrightarrow> frame S pa pa' \<Longrightarrow> set (offs t) \<inter> S = {} \<Longrightarrow> repr pa' k t"
  unfolding lvl_ok_def by (auto intro: repr_frame)

lemma lvl_ok_to_prop_obj: "lvl_ok ds pa k t \<Longrightarrow> t \<noteq> Tip \<Longrightarrow> k \<noteq> 0 \<and> to_prop_obj ds k = Some k"
  unfolding lvl_ok_def using repr_nonTip repr_root_in_offs to_prop_obj_in by blast

lemma link_left:
  assumes ok: "lvl_ok ds pa j (Nd j nm p Tip r c)" and b: "bt_at pa j = Some b"
    and x: "x \<noteq> nm" "key x < key nm"
  shows "sib_res ds pa j (Nd j nm p Tip r c) x True
           (Some (link_new ds pa j x (\<lambda>off b. b\<lparr>bt_left := off\<rparr>)))"
proof (rule link_new_cases [OF _ b lvl_okD(2) [OF ok b], of ds x "\<lambda>off b. b\<lparr>bt_left := off\<rparr>"])
  fix pa'
  let ?n = "bytes_used pa"
  assume pa': "link_new ds pa j x (\<lambda>off b. b\<lparr>bt_left := off\<rparr>) = (pa', Some ?n)"
    "bt_at pa' ?n = Some (prop_bt_new x)" "bt_at pa' j = Some (b\<lparr>bt_left := ?n\<rparr>)"
    "frame {j} pa pa'" "?n < bytes_used pa'" "area_sz ds pa'" "bytes_used pa' = ?n + node_size x"
  have "repr pa' (bt_right b) r" "repr pa' (bt_children b) c"
    using lvl_okD [OF ok b] lvl_ok_disjoint [OF ok] lvl_ok_frame [OF _ pa'(4)] by blast+
  with ok b pa' x have "repr pa' j (sins (Nd j nm p Tip r c) x ?n)"
    by (auto simp: prop_bt_new_def zero_bt_def lvl_ok_def)
  with pa' x show ?thesis
    by (auto simp: sib_res_def intro: frame_mono [OF pa'(4)])
qed (use ok x in \<open>auto simp: lvl_ok_def sib_res_def\<close>)

lemma link_right:
  assumes ok: "lvl_ok ds pa j (Nd j nm p l Tip c)" and b: "bt_at pa j = Some b"
    and x: "x \<noteq> nm" "\<not> key x < key nm"
  shows "sib_res ds pa j (Nd j nm p l Tip c) x True
           (Some (link_new ds pa j x (\<lambda>off b. b\<lparr>bt_right := off\<rparr>)))"
proof (rule link_new_cases [OF _ b lvl_okD(2) [OF ok b], of ds x "\<lambda>off b. b\<lparr>bt_right := off\<rparr>"])
  fix pa'
  let ?n = "bytes_used pa"
  assume pa': "link_new ds pa j x (\<lambda>off b. b\<lparr>bt_right := off\<rparr>) = (pa', Some ?n)"
    "bt_at pa' ?n = Some (prop_bt_new x)" "bt_at pa' j = Some (b\<lparr>bt_right := ?n\<rparr>)"
    "frame {j} pa pa'" "?n < bytes_used pa'" "area_sz ds pa'" "bytes_used pa' = ?n + node_size x"
  have "repr pa' (bt_left b) l" "repr pa' (bt_children b) c"
    using lvl_okD [OF ok b] lvl_ok_disjoint [OF ok] lvl_ok_frame [OF _ pa'(4)] by blast+
  with ok b pa' x have "repr pa' j (sins (Nd j nm p l Tip c) x ?n)"
    by (auto simp: prop_bt_new_def zero_bt_def lvl_ok_def)
  with pa' x show ?thesis
    by (auto simp: sib_res_def intro: frame_mono [OF pa'(4)])
qed (use ok x in \<open>auto simp: lvl_ok_def sib_res_def\<close>)

lemma descend_left:
  assumes ok: "lvl_ok ds pa j (Nd j nm p l r c)" and b: "bt_at pa j = Some b"
    and x: "x \<noteq> nm" "key x < key nm" and res: "sib_res ds pa (bt_left b) l x alloc z"
  shows "sib_res ds pa j (Nd j nm p l r c) x alloc z"
  using res unfolding sib_res_def
proof (elim disjE conjE exE)
  fix pa'
  assume h: "alloc" "sfind l x = None" "z = Some (pa', Some (bytes_used pa))"
    "repr pa' (bt_left b) (sins l x (bytes_used pa))" "frame (set (offs l)) pa pa'"
    "bytes_used pa < bytes_used pa'" "area_sz ds pa'" "bytes_used pa' = bytes_used pa + node_size x"
  have "bt_at pa' j = Some b" "repr pa' (bt_right b) r" "repr pa' (bt_children b) c"
    using lvl_okD [OF ok b] lvl_ok_disjoint [OF ok] lvl_ok_frame [OF _ h(5)]
      frame_bt_at [OF h(5)] b by auto
  then have "repr pa' j (sins (Nd j nm p l r c) x (bytes_used pa))"
    using ok b h x by (auto simp: lvl_ok_def)
  with h x show "(z = Some (pa, map_option fst (sfind (Nd j nm p l r c) x))
      \<and> (alloc \<and> sfind (Nd j nm p l r c) x = None \<longrightarrow> ds < bytes_used pa + node_size x))
    \<or> (alloc \<and> sfind (Nd j nm p l r c) x = None
       \<and> (\<exists>pa'. z = Some (pa', Some (bytes_used pa))
            \<and> repr pa' j (sins (Nd j nm p l r c) x (bytes_used pa))
            \<and> frame (set (offs (Nd j nm p l r c))) pa pa'
            \<and> bytes_used pa < bytes_used pa' \<and> area_sz ds pa'
            \<and> bytes_used pa' = bytes_used pa + node_size x))"
    by (auto intro!: frame_mono [OF h(5)])
qed (use x in simp)

lemma descend_right:
  assumes ok: "lvl_ok ds pa j (Nd j nm p l r c)" and b: "bt_at pa j = Some b"
    and x: "x \<noteq> nm" "\<not> key x < key nm" and res: "sib_res ds pa (bt_right b) r x alloc z"
  shows "sib_res ds pa j (Nd j nm p l r c) x alloc z"
  using res unfolding sib_res_def
proof (elim disjE conjE exE)
  fix pa'
  assume h: "alloc" "sfind r x = None" "z = Some (pa', Some (bytes_used pa))"
    "repr pa' (bt_right b) (sins r x (bytes_used pa))" "frame (set (offs r)) pa pa'"
    "bytes_used pa < bytes_used pa'" "area_sz ds pa'" "bytes_used pa' = bytes_used pa + node_size x"
  have "bt_at pa' j = Some b" "repr pa' (bt_left b) l" "repr pa' (bt_children b) c"
    using lvl_okD [OF ok b] lvl_ok_disjoint [OF ok] lvl_ok_frame [OF _ h(5)]
      frame_bt_at [OF h(5)] b by auto
  then have "repr pa' j (sins (Nd j nm p l r c) x (bytes_used pa))"
    using ok b h x by (auto simp: lvl_ok_def)
  with h x show "(z = Some (pa, map_option fst (sfind (Nd j nm p l r c) x))
      \<and> (alloc \<and> sfind (Nd j nm p l r c) x = None \<longrightarrow> ds < bytes_used pa + node_size x))
    \<or> (alloc \<and> sfind (Nd j nm p l r c) x = None
       \<and> (\<exists>pa'. z = Some (pa', Some (bytes_used pa))
            \<and> repr pa' j (sins (Nd j nm p l r c) x (bytes_used pa))
            \<and> frame (set (offs (Nd j nm p l r c))) pa pa'
            \<and> bytes_used pa < bytes_used pa' \<and> area_sz ds pa'
            \<and> bytes_used pa' = bytes_used pa + node_size x))"
    by (auto intro!: frame_mono [OF h(5)])
qed (use x in simp)

lemma find_sib_res:
  assumes "lvl_ok ds pa k t" and "t \<noteq> Tip"
  shows "sib_res ds pa k t x alloc (find_prop_bt_sib ds pa (Some k) x alloc)"
  using assms
proof (induction t arbitrary: k)
  case (Nd j nm p l r c)
  from Nd.prems(1) obtain b where b: "bt_at pa j = Some b" by (auto simp: lvl_ok_def)
  note D = lvl_okD [OF Nd.prems(1) b]
  have ok: "lvl_ok ds pa j (Nd j nm p l r c)" using Nd.prems(1) D(1) by simp
  note unf = find_prop_bt_sib.simps [of ds pa "Some j" x alloc]
  consider (eq) "x = nm" | (lt) "x \<noteq> nm" "key x < key nm" | (gt) "x \<noteq> nm" "\<not> key x < key nm"
    by blast
  then have "sib_res ds pa j (Nd j nm p l r c) x alloc (find_prop_bt_sib ds pa (Some j) x alloc)"
  proof cases
    case eq
    then show ?thesis using b D by (subst unf) (simp add: sib_res_def)
  next
    case lt
    show ?thesis
    proof (cases "l = Tip")
      case True
      then show ?thesis using b D lt link_left [of ds pa j nm p r c b x] ok
        by (subst unf) (auto simp: cmp_prop_name_less lvl_ok_def sib_res_def)
    next
      case False
      then have "find_prop_bt_sib ds pa (Some j) x alloc
          = find_prop_bt_sib ds pa (Some (bt_left b)) x alloc"
        using b D lt lvl_ok_to_prop_obj [OF D(5)] by (subst unf) (simp add: cmp_prop_name_less)
      then show ?thesis
        using descend_left [OF ok b lt Nd.IH(1) [OF D(5) False]] by simp
    qed
  next
    case gt
    show ?thesis
    proof (cases "r = Tip")
      case True
      then show ?thesis using b D gt link_right [of ds pa j nm p l c b x] ok
        by (subst unf) (auto simp: cmp_prop_name_less lvl_ok_def sib_res_def)
    next
      case False
      then have "find_prop_bt_sib ds pa (Some j) x alloc
          = find_prop_bt_sib ds pa (Some (bt_right b)) x alloc"
        using b D gt lvl_ok_to_prop_obj [OF D(6)] by (subst unf) (simp add: cmp_prop_name_less)
      then show ?thesis
        using descend_right [OF ok b gt Nd.IH(2) [OF D(6) False]] by simp
    qed
  qed
  then show ?case using D(1) by simp
qed simp

section \<open>Growing a level\<close>

definition lvl :: "nat \<Rightarrow> prop_area \<Rightarrow> nat \<Rightarrow> prop_bt \<Rightarrow> tst \<Rightarrow> bool" where
  "lvl ds pa cur b t \<longleftrightarrow>
     bt_at pa cur = Some b \<and> lvl_ok ds pa (bt_children b) t \<and> cur \<notin> set (offs t)
     \<and> cur < bytes_used pa \<and> bst t"

definition grows :: "nat \<Rightarrow> prop_area \<Rightarrow> nat \<Rightarrow> prop_bt \<Rightarrow> tst \<Rightarrow> prop_area \<Rightarrow> tst \<Rightarrow> bool" where
  "grows ds pa cur b t pa' t' \<longleftrightarrow>
     (\<exists>m. lvl ds pa' cur (b\<lparr>bt_children := m\<rparr>) t')
     \<and> set (offs t') \<subseteq> set (offs t) \<union> {bytes_used pa..}
     \<and> frame (insert cur (set (offs t))) pa pa'
     \<and> (\<forall>ts. tlook t' ts = tlook t ts)"

lemma grows_refl: "lvl ds pa cur b t \<Longrightarrow> grows ds pa cur b t pa t"
  by (auto simp: grows_def intro!: exI [of _ "bt_children b"])

lemma grows_trans:
  assumes "grows ds pa cur b t pa1 t1" and "bt_at pa1 cur = Some b1"
    and "grows ds pa1 cur b1 t1 pa2 t2"
  shows "grows ds pa cur b t pa2 t2"
proof -
  from assms(1) obtain m where m: "bt_at pa1 cur = Some (b\<lparr>bt_children := m\<rparr>)"
    and fr: "frame (insert cur (set (offs t))) pa pa1"
    and o1: "set (offs t1) \<subseteq> set (offs t) \<union> {bytes_used pa..}"
    by (auto simp: grows_def lvl_def)
  have le: "bytes_used pa \<le> bytes_used pa1" using fr by (simp add: frame_def)
  have "frame (insert cur (set (offs t))) pa pa2"
    using assms(3) o1 by (intro frame_trans [OF fr, of "insert cur (set (offs t1))"])
      (auto simp: grows_def)
  with assms o1 le m show ?thesis
    by (fastforce simp: grows_def)
qed

lemma lvl_child:
  assumes "lvl ds pa cur b t" and "sfind t x = Some (j, p, c)"
  obtains bj where "lvl ds pa j bj c" and "bt_prop bj = p"
proof -
  from assms obtain bj where "bt_at pa j = Some bj" "bt_prop bj = p" "repr pa (bt_children bj) c"
    using repr_sfind by (fastforce simp: lvl_def lvl_ok_def)
  moreover have "j \<in> set (offs t)" "set (offs c) \<subseteq> set (offs t)" "distinct (j # offs c)" "bst c"
    using assms sfind_offs sfind_distinct sfind_bst by (auto simp: lvl_def lvl_ok_def)
  ultimately show ?thesis
    using that [of bj] assms(1) by (auto simp: lvl_def lvl_ok_def)
qed

text \<open>A change below one node of a level, seen from the level.\<close>

lemma repr_sput:
  assumes "lvl_ok ds pa k t" and "sfind t x = Some (j, p, c)" and "bt_at pa j = Some b"
    and "frame (insert j (set (offs c))) pa pa'"
    and "bt_at pa' j = Some (b\<lparr>bt_prop := q, bt_children := m\<rparr>)" and "repr pa' m d"
  shows "repr pa' k (sput x q d t)"
  using assms(1,2)
proof (induction t arbitrary: k)
  case (Nd i nm p' l r c')
  from Nd.prems(1) obtain bi where bi: "bt_at pa i = Some bi" "bt_prop bi = p'" "0 < i"
    by (auto simp: lvl_ok_def)
  note D = lvl_okD [OF Nd.prems(1) bi(1)] and dj = lvl_ok_disjoint [OF Nd.prems(1)]
  consider (eq) "x = nm" | (lt) "x \<noteq> nm" "key x < key nm" | (gt) "x \<noteq> nm" "\<not> key x < key nm"
    by blast
  then show ?case
  proof cases
    case eq
    with Nd.prems(2) have e: "j = i" "c = c'" "p = p'" by auto
    have "repr pa' (bt_left bi) l" "repr pa' (bt_right bi) r"
      using D dj e by (auto intro!: lvl_ok_frame [OF _ assms(4)])
    with eq e bi D assms(3,5,6) show ?thesis by auto
  next
    case lt
    with Nd.prems(2) have f: "sfind l x = Some (j, p, c)" by simp
    have "set (offs u) \<inter> insert j (set (offs c)) = {}" if "set (offs u) \<inter> set (offs l) = {}" for u
      using sfind_offs [OF f] that by auto
    then have "repr pa' (bt_right bi) r" "repr pa' (bt_children bi) c'"
      using D dj by (auto intro!: lvl_ok_frame [OF _ assms(4)])
    moreover have "i \<notin> insert j (set (offs c))"
      using sfind_offs [OF f] dj by blast
    then have "bt_at pa' i = Some bi"
      using frame_bt_at [OF assms(4) D(2)] bi by simp
    ultimately show ?thesis using lt bi D Nd.IH(1) [OF D(5) f] by auto
  next
    case gt
    with Nd.prems(2) have f: "sfind r x = Some (j, p, c)" by simp
    have "set (offs u) \<inter> insert j (set (offs c)) = {}" if "set (offs u) \<inter> set (offs r) = {}" for u
      using sfind_offs [OF f] that by auto
    then have "repr pa' (bt_left bi) l" "repr pa' (bt_children bi) c'"
      using D dj by (auto intro!: lvl_ok_frame [OF _ assms(4)])
    moreover have "i \<notin> insert j (set (offs c))"
      using sfind_offs [OF f] dj by blast
    then have "bt_at pa' i = Some bi"
      using frame_bt_at [OF assms(4) D(2)] bi by simp
    ultimately show ?thesis using gt bi D Nd.IH(2) [OF D(6) f] by auto
  qed
qed simp

lemma grows_lift:
  assumes lv: "lvl ds pa cur b t" and f: "sfind t x = Some (j, p, c)"
    and bj: "bt_at pa j = Some bj" "bt_prop bj = p" and g: "grows ds pa j bj c pa' c'"
  shows "grows ds pa cur b t pa' (sput x p c' t)"
proof -
  from g obtain m where m: "lvl ds pa' j (bj\<lparr>bt_children := m\<rparr>) c'"
    and oc: "set (offs c') \<subseteq> set (offs c) \<union> {bytes_used pa..}"
    and fr: "frame (insert j (set (offs c))) pa pa'" and tl: "\<And>ts. tlook c' ts = tlook c ts"
    by (auto simp: grows_def)
  have ok: "lvl_ok ds pa (bt_children b) t" and cur: "cur \<notin> set (offs t)" "cur < bytes_used pa"
    and bt: "bst t" and bc: "bt_at pa cur = Some b"
    using lv by (auto simp: lvl_def)
  have ins: "j \<in> set (offs t)" "set (offs c) \<subseteq> set (offs t)" using sfind_offs [OF f] by auto
  have le: "bytes_used pa \<le> bytes_used pa'" using fr by (simp add: frame_def)
  have "bt_at pa' j = Some (bj\<lparr>bt_prop := p, bt_children := m\<rparr>)" "repr pa' m c'"
    using m bj by (auto simp: lvl_def lvl_ok_def)
  then have rep: "repr pa' (bt_children b) (sput x p c' t)"
    using repr_sput [OF ok f bj(1) fr] by blast
  have osub: "set (offs (sput x p c' t)) \<subseteq> set (offs t) \<union> {bytes_used pa..}"
    using set_offs_sput [OF f, of p c'] oc ins by auto
  have lt: "\<forall>i \<in> set (offs t). i < bytes_used pa" "distinct (offs t)"
    using ok by (auto simp: lvl_ok_def)
  have "distinct (offs c')" "\<forall>i \<in> set (offs c'). i < bytes_used pa'" "area_sz ds pa'" "bst c'"
    using m by (auto simp: lvl_def lvl_ok_def)
  moreover have "set (offs c') \<inter> set (offs t) \<subseteq> set (offs c)"
    using oc lt(1) by fastforce
  ultimately have "lvl_ok ds pa' (bt_children b) (sput x p c' t)"
    using rep distinct_offs_sput [OF f lt(2)] set_offs_sput [OF f, of p c'] lt le
    by (auto simp: lvl_ok_def) (meson UnE in_mono order_less_le_trans)
  moreover have "bt_at pa' cur = Some b"
    using frame_bt_at [OF fr cur(2)] bc cur ins by auto
  ultimately have "lvl ds pa' cur (b\<lparr>bt_children := bt_children b\<rparr>) (sput x p c' t)"
    using osub cur le bst_sput [OF bt \<open>bst c'\<close>] by (auto simp: lvl_def)
  moreover have "frame (insert cur (set (offs t))) pa pa'"
    using fr ins by (auto intro: frame_mono)
  moreover have "tlook (sput x p c' t) ts = tlook t ts" for ts
    by (cases ts) (auto simp: tlook_sput [OF f] tlook_Cons [of t x] f tl)
  ultimately show ?thesis
    using osub unfolding grows_def by blast
qed

lemma grows_root:
  assumes lv: "lvl ds pa cur b Tip" and n: "n = bytes_used pa"
    and "bt_at pa' n = Some (prop_bt_new x)" and "bt_at pa' cur = Some (b\<lparr>bt_children := n\<rparr>)"
    and "frame {cur} pa pa'" and "n < bytes_used pa'" and "area_sz ds pa'"
  shows "grows ds pa cur b Tip pa' (Nd n x 0 Tip Tip Tip)"
proof -
  have "lvl ds pa' cur (b\<lparr>bt_children := n\<rparr>) (Nd n x 0 Tip Tip Tip)"
    using assms by (auto simp: lvl_def lvl_ok_def prop_bt_new_def zero_bt_def)
  moreover have "tlook (Nd n x 0 Tip Tip Tip) ts = None" for ts
    by (cases ts) (auto simp: tlook_Cons)
  ultimately show ?thesis
    using assms unfolding grows_def by auto
qed

lemma grows_sib:
  assumes lv: "lvl ds pa cur b t" and n: "n = bytes_used pa" and f: "sfind t x = None"
    and r: "repr pa' (bt_children b) (sins t x n)" and fr: "frame (set (offs t)) pa pa'"
    and "n < bytes_used pa'" and "area_sz ds pa'"
  shows "grows ds pa cur b t pa' (sins t x n)"
proof -
  have t: "distinct (offs t)" "\<forall>i \<in> set (offs t). i < n" "cur < n" "cur \<notin> set (offs t)"
    "bt_at pa cur = Some b" "bst t"
    using lv n by (auto simp: lvl_def lvl_ok_def)
  then have "bt_at pa' cur = Some b"
    using frame_bt_at [OF fr] n by auto
  moreover have "distinct (offs (sins t x n))"
    using distinct_offs_sins [OF f t(1)] t(2) by auto
  ultimately have "lvl ds pa' cur (b\<lparr>bt_children := bt_children b\<rparr>) (sins t x n)"
    using assms t by (fastforce simp: lvl_def lvl_ok_def set_offs_sins [OF f] intro: bst_sins)
  moreover have "frame (insert cur (set (offs t))) pa pa'"
    using fr by (rule frame_mono) auto
  moreover have "set (offs (sins t x n)) \<subseteq> set (offs t) \<union> {bytes_used pa..}"
    using n by (simp add: set_offs_sins [OF f])
  ultimately show ?thesis
    unfolding grows_def using tlook_sins [OF f] by blast
qed

section \<open>The search, level by level\<close>

text \<open>The body of the trie loop for one piece of the name.\<close>

definition level_search ::
    "nat \<Rightarrow> prop_area \<Rightarrow> nat \<Rightarrow> prop_bt \<Rightarrow> string \<Rightarrow> bool \<Rightarrow> (prop_area \<times> nat option) option" where
  "level_search ds pa cur b sub alloc =
     (case (if bt_children b \<noteq> 0 then (pa, to_prop_obj ds (bt_children b))
            else if alloc then link_new ds pa cur sub (\<lambda>off b. b\<lparr>bt_children := off\<rparr>)
            else (pa, None)) of
        (pa1, None) \<Rightarrow> Some (pa1, None)
      | (pa1, Some root) \<Rightarrow> find_prop_bt_sib ds pa1 (Some root) sub alloc)"

fun search_toks ::
    "nat \<Rightarrow> prop_area \<Rightarrow> nat \<Rightarrow> string list \<Rightarrow> bool \<Rightarrow> (prop_area \<times> nat option) option" where
  "search_toks ds pa cur [] alloc = Some (pa, None)"
| "search_toks ds pa cur (x # xs) alloc =
     (if x = [] then Some (pa, None)
      else case bt_at pa cur of
        None \<Rightarrow> None
      | Some b \<Rightarrow>
          (case level_search ds pa cur b x alloc of
             None \<Rightarrow> None
           | Some (pa2, None) \<Rightarrow> Some (pa2, None)
           | Some (pa2, Some c) \<Rightarrow>
               if xs = [] then Some (pa2, Some c) else search_toks ds pa2 c xs alloc))"

lemma find_prop_bt_level:
  "find_prop_bt ds pa cur rem alloc =
     (let sep = strchr rem CHR ''.'';
          sub = (case sep of None \<Rightarrow> rem | Some i \<Rightarrow> take i rem)
      in if sub = [] then Some (pa, None)
         else case bt_at pa cur of
           None \<Rightarrow> None
         | Some b \<Rightarrow>
             (case level_search ds pa cur b sub alloc of
                None \<Rightarrow> None
              | Some (pa2, None) \<Rightarrow> Some (pa2, None)
              | Some (pa2, Some c) \<Rightarrow>
                  (case sep of
                     None \<Rightarrow> Some (pa2, Some c)
                   | Some i \<Rightarrow> find_prop_bt ds pa2 c (drop (Suc i) rem) alloc)))"
proof -
  have bind: "(case (case z of (pa1, None) \<Rightarrow> Some (pa1, None) | (pa1, Some root) \<Rightarrow> F pa1 root) of
        None \<Rightarrow> None | Some (pa2, None) \<Rightarrow> Some (pa2, None) | Some (pa2, Some c) \<Rightarrow> G pa2 c)
      = (case z of (pa1, None) \<Rightarrow> Some (pa1, None)
         | (pa1, Some root) \<Rightarrow>
             (case F pa1 root of None \<Rightarrow> None | Some (pa2, None) \<Rightarrow> Some (pa2, None)
              | Some (pa2, Some c) \<Rightarrow> G pa2 c))"
    for z :: "prop_area \<times> nat option" and F and G :: "prop_area \<Rightarrow> nat \<Rightarrow> (prop_area \<times> nat option) option"
    by (cases z; cases "snd z") auto
  show ?thesis
    unfolding level_search_def bind by (rule find_prop_bt.simps)
qed

lemma find_prop_bt_tokens:
  "find_prop_bt ds pa cur rem alloc = search_toks ds pa cur (tokens rem) alloc"
proof (induction rem arbitrary: pa cur rule: length_induct)
  case (1 rem)
  show ?case
  proof (cases "strchr rem CHR ''.''")
    case None
    then show ?thesis
      by (subst find_prop_bt_level)
        (simp add: tokens_strchr_None [OF None] split: option.split prod.split)
  next
    case (Some i)
    have "i < length rem" using strchr_SomeD [OF Some] by blast
    then have "length (drop (Suc i) rem) < length rem" by simp
    then have IH: "find_prop_bt ds pa2 c (drop (Suc i) rem) alloc
        = search_toks ds pa2 c (tokens (drop (Suc i) rem)) alloc" for pa2 c
      using "1.IH" by blast
    show ?thesis
      by (subst find_prop_bt_level)
        (simp add: Some tokens_strchr_Some [OF Some] IH split: option.split prod.split)
  qed
qed

lemma level_search_grows:
  assumes lv: "lvl ds pa cur b t"
  obtains pa1 t1 r where "level_search ds pa cur b x True = Some (pa1, r)"
    and "grows ds pa cur b t pa1 t1"
    and "r = None \<and> ds < bytes_used pa + node_size x
      \<or> (\<exists>j p c. r = Some j \<and> sfind t1 x = Some (j, p, c))"
    and "bytes_used pa1 \<le> bytes_used pa + node_size x"
proof (cases "t = Tip")
  case True
  have c0: "bt_children b = 0" and bc: "bt_at pa cur = Some b" "cur < bytes_used pa" "area_sz ds pa"
    using lv True by (auto simp: lvl_def lvl_ok_def)
  show ?thesis
  proof (rule link_new_cases [OF bc(3,1,2), of x "\<lambda>off b. b\<lparr>bt_children := off\<rparr>"])
    assume "link_new ds pa cur x (\<lambda>off b. b\<lparr>bt_children := off\<rparr>) = (pa, None)"
      "ds < bytes_used pa + node_size x"
    then show ?thesis
      using that [of pa None t] c0 grows_refl [OF lv] by (simp add: level_search_def)
  next
    fix pa'
    let ?n = "bytes_used pa" and ?t = "Nd (bytes_used pa) x 0 Tip Tip Tip"
    assume pa': "link_new ds pa cur x (\<lambda>off b. b\<lparr>bt_children := off\<rparr>) = (pa', Some ?n)"
      "bt_at pa' ?n = Some (prop_bt_new x)" "bt_at pa' cur = Some (b\<lparr>bt_children := ?n\<rparr>)"
      "frame {cur} pa pa'" "?n < bytes_used pa'" "area_sz ds pa'" "bytes_used pa' = ?n + node_size x"
    have g: "grows ds pa cur b t pa' ?t"
      using grows_root [of ds pa cur b ?n pa' x] lv pa' True by simp
    have "lvl_ok ds pa' ?n ?t"
      using pa' bc by (auto simp: lvl_ok_def prop_bt_new_def zero_bt_def)
    then have "find_prop_bt_sib ds pa' (Some ?n) x True = Some (pa', Some ?n)"
      using find_sib_res [of ds pa' ?n ?t x True] by (simp add: sib_res_def)
    then show ?thesis
      using that [of pa' "Some ?n" ?t] c0 g pa'(1,7) by (simp add: level_search_def)
  qed
next
  case False
  have ok: "lvl_ok ds pa (bt_children b) t" using lv by (simp add: lvl_def)
  have step: "level_search ds pa cur b x True = find_prop_bt_sib ds pa (Some (bt_children b)) x True"
    using lvl_ok_to_prop_obj [OF ok False] by (simp add: level_search_def)
  from find_sib_res [OF ok False, of x True] show ?thesis
    unfolding sib_res_def
  proof (elim disjE conjE exE)
    assume "find_prop_bt_sib ds pa (Some (bt_children b)) x True = Some (pa, map_option fst (sfind t x))"
      "True \<and> sfind t x = None \<longrightarrow> ds < bytes_used pa + node_size x"
    then show ?thesis
      using that [of pa "map_option fst (sfind t x)" t] step grows_refl [OF lv]
      by (cases "sfind t x") auto
  next
    fix pa'
    assume h: "sfind t x = None"
      "find_prop_bt_sib ds pa (Some (bt_children b)) x True = Some (pa', Some (bytes_used pa))"
      "repr pa' (bt_children b) (sins t x (bytes_used pa))" "frame (set (offs t)) pa pa'"
      "bytes_used pa < bytes_used pa'" "area_sz ds pa'" "bytes_used pa' = bytes_used pa + node_size x"
    then show ?thesis
      using that [OF _ grows_sib [OF lv refl h(1,3,4,5,6)]] step sfind_sins [OF h(1)] by auto
  qed
qed

lemma level_search_ro:
  assumes lv: "lvl ds pa cur b t"
  shows "level_search ds pa cur b x False = Some (pa, map_option fst (sfind t x))"
proof (cases "t = Tip")
  case True
  then show ?thesis using lv by (simp add: level_search_def lvl_def lvl_ok_def)
next
  case False
  have ok: "lvl_ok ds pa (bt_children b) t" using lv by (simp add: lvl_def)
  then show ?thesis
    using find_sib_res [OF ok False, of x False] lvl_ok_to_prop_obj [OF ok False]
    by (simp add: sib_res_def level_search_def)
qed

lemma grows_lvl:
  assumes "grows ds pa cur b t pa' t'"
  obtains b' where "lvl ds pa' cur b' t'" and "bt_at pa' cur = Some b'"
    and "bt_prop b' = bt_prop b" and "bt_left b' = bt_left b" and "bt_right b' = bt_right b"
  using assms unfolding grows_def lvl_def by fastforce

lemma node_sput:
  "sfind t x = Some (j, p, c) \<Longrightarrow> xs \<noteq> [] \<Longrightarrow> node (sput x q d t) (x # xs) = node d xs"
  by (simp add: node_Cons sfind_sput)

text \<open>Entering the subtree of a token and growing there.\<close>

lemma search_toks_step:
  assumes x: "x \<noteq> []" "xs \<noteq> []" and bc: "bt_at pa cur = Some b" and ls: "level_search ds pa cur b x True = Some (pa1, Some j)"
    and g1: "grows ds pa cur b t pa1 t1" and u: "bytes_used pa1 \<le> bytes_used pa + node_size x"
    and b1: "lvl ds pa1 cur b1 t1" "bt_at pa1 cur = Some b1" and j: "sfind t1 x = Some (j, p, c)"
    and bj: "lvl ds pa1 j bj c" "bt_prop bj = p"
    and IH: "search_toks ds pa1 j xs True = Some (pa2, r2)" "grows ds pa1 j bj c pa2 c'"
      "bytes_used pa2 \<le> bytes_used pa1 + nodes_size xs"
      "r2 = None \<and> ([] \<in> set xs \<or> ds < bytes_used pa1 + nodes_size xs)
       \<or> (\<exists>k q d. r2 = Some k \<and> node c' xs = Some (k, q, d) \<and> [] \<notin> set xs)"
  shows "\<exists>pa' t' r. search_toks ds pa cur (x # xs) True = Some (pa', r) \<and> grows ds pa cur b t pa' t'
           \<and> bytes_used pa' \<le> bytes_used pa + nodes_size (x # xs)
           \<and> (r = None \<and> ([] \<in> set (x # xs) \<or> ds < bytes_used pa + nodes_size (x # xs))
              \<or> (\<exists>j p c. r = Some j \<and> node t' (x # xs) = Some (j, p, c) \<and> [] \<notin> set (x # xs)))"
proof -
  have "grows ds pa1 cur b1 t1 pa2 (sput x p c' t1)"
    using grows_lift [OF b1(1) j _ bj(2) IH(2)] bj(1) by (simp add: lvl_def)
  then have "grows ds pa cur b t pa2 (sput x p c' t1)" using grows_trans [OF g1 b1(2)] by blast
  moreover have "search_toks ds pa cur (x # xs) True = Some (pa2, r2)" using x bc ls IH(1) by simp
  moreover have "bytes_used pa2 \<le> bytes_used pa + nodes_size (x # xs)" using IH(3) u by simp
  moreover have "r2 = None \<and> ([] \<in> set (x # xs) \<or> ds < bytes_used pa + nodes_size (x # xs))
      \<or> (\<exists>k q d. r2 = Some k \<and> node (sput x p c' t1) (x # xs) = Some (k, q, d) \<and> [] \<notin> set (x # xs))"
    using IH(4) u x(1) node_sput [OF j x(2), of p c'] by auto
  ultimately show ?thesis by blast
qed

lemma search_toks_grows:
  assumes "lvl ds pa cur b t" and "ts \<noteq> []"
  shows "\<exists>pa' t' r. search_toks ds pa cur ts True = Some (pa', r) \<and> grows ds pa cur b t pa' t'
           \<and> bytes_used pa' \<le> bytes_used pa + nodes_size ts
           \<and> (r = None \<and> ([] \<in> set ts \<or> ds < bytes_used pa + nodes_size ts)
              \<or> (\<exists>j p c. r = Some j \<and> node t' ts = Some (j, p, c) \<and> [] \<notin> set ts))"
  using assms
proof (induction ts arbitrary: pa cur b t)
  case (Cons x xs)
  have bc: "bt_at pa cur = Some b" using Cons.prems by (simp add: lvl_def)
  show ?case
  proof (cases "x = []")
    case True
    then show ?thesis using grows_refl [OF Cons.prems(1)] by auto
  next
    case False
    obtain pa1 t1 r where ls: "level_search ds pa cur b x True = Some (pa1, r)"
      and g1: "grows ds pa cur b t pa1 t1"
      and r: "r = None \<and> ds < bytes_used pa + node_size x
        \<or> (\<exists>j p c. r = Some j \<and> sfind t1 x = Some (j, p, c))"
      and u: "bytes_used pa1 \<le> bytes_used pa + node_size x"
      using level_search_grows [OF Cons.prems(1), of x] .
    from r show ?thesis
    proof (elim disjE exE conjE)
      assume "r = None" "ds < bytes_used pa + node_size x"
      then have "search_toks ds pa cur (x # xs) True = Some (pa1, None)"
        "ds < bytes_used pa + nodes_size (x # xs)"
        using False bc ls by auto
      then show ?thesis using g1 u by (metis nodes_size_simps(2) trans_le_add1 add.assoc)
    next
      fix j p c assume j: "r = Some j" "sfind t1 x = Some (j, p, c)"
      obtain b1 where b1: "lvl ds pa1 cur b1 t1" "bt_at pa1 cur = Some b1"
        using grows_lvl [OF g1] by blast
      obtain bj where bj: "lvl ds pa1 j bj c" "bt_prop bj = p"
        using lvl_child [OF b1(1) j(2)] .
      show ?thesis
      proof (cases "xs = []")
        case True
        then have "search_toks ds pa cur (x # xs) True = Some (pa1, Some j)"
          "node t1 (x # xs) = Some (j, p, c)" "[] \<notin> set (x # xs)"
          using False bc ls j by auto
        then show ?thesis using g1 u by (metis nodes_size_simps(2) trans_le_add1 add.assoc)
      next
        case ne: False
        from Cons.IH [OF bj(1) ne] obtain pa2 c' r2 where
          IH: "search_toks ds pa1 j xs True = Some (pa2, r2)" "grows ds pa1 j bj c pa2 c'"
          "bytes_used pa2 \<le> bytes_used pa1 + nodes_size xs"
          "r2 = None \<and> ([] \<in> set xs \<or> ds < bytes_used pa1 + nodes_size xs)
           \<or> (\<exists>k q d. r2 = Some k \<and> node c' xs = Some (k, q, d) \<and> [] \<notin> set xs)"
          by blast
        from search_toks_step [OF False ne bc ls [unfolded j(1)] g1 u b1 j(2) bj this] show ?thesis .
      qed
    qed
  qed
qed simp

lemma search_toks_ro:
  assumes "lvl ds pa cur b t" and "ts \<noteq> []"
  shows "search_toks ds pa cur ts False =
         Some (pa, if [] \<in> set ts then None else map_option fst (node t ts))"
  using assms
proof (induction ts arbitrary: cur b t)
  case (Cons x xs)
  have bc: "bt_at pa cur = Some b" using Cons.prems by (simp add: lvl_def)
  note ls = level_search_ro [OF Cons.prems(1), of x]
  show ?case
  proof (cases "sfind t x")
    case None
    then show ?thesis using bc ls by (cases xs) auto
  next
    case (Some z)
    then obtain j p c where z: "sfind t x = Some (j, p, c)" by (cases z) auto
    obtain bj where "lvl ds pa j bj c" using lvl_child [OF Cons.prems(1) z] .
    with Cons.IH [of j bj c] show ?thesis using bc ls z
      by (cases "xs = []") (auto simp: node_Cons)
  qed
qed simp

text \<open>A name that is already there is found without allocating anything.\<close>

lemma level_search_found:
  assumes lv: "lvl ds pa cur b t" and f: "sfind t x = Some (j, p, c)"
  shows "level_search ds pa cur b x alloc = Some (pa, Some j)"
proof -
  have ok: "lvl_ok ds pa (bt_children b) t" using lv by (simp add: lvl_def)
  have ne: "t \<noteq> Tip" using f by auto
  show ?thesis
    using find_sib_res [OF ok ne, of x alloc] lvl_ok_to_prop_obj [OF ok ne] f
    by (auto simp: sib_res_def level_search_def)
qed

lemma search_toks_found:
  "lvl ds pa cur b t \<Longrightarrow> node t ts = Some (j, p, c) \<Longrightarrow> [] \<notin> set ts \<Longrightarrow>
   search_toks ds pa cur ts alloc = Some (pa, Some j)"
proof (induction ts arbitrary: cur b t)
  case (Cons x xs)
  have bc: "bt_at pa cur = Some b" using Cons.prems by (simp add: lvl_def)
  from Cons.prems(2) obtain i q d where i: "sfind t x = Some (i, q, d)"
    by (cases xs) (auto split: option.splits)
  obtain bj where bj: "lvl ds pa i bj d" using lvl_child [OF Cons.prems(1) i] .
  show ?case
  proof (cases "xs = []")
    case True
    then show ?thesis using Cons.prems bc i level_search_found [OF Cons.prems(1) i] by simp
  next
    case False
    then have "node d xs = Some (j, p, c)" using Cons.prems(2) i by (simp add: node_Cons)
    with Cons.IH [OF bj] False show ?thesis
      using Cons.prems bc level_search_found [OF Cons.prems(1) i] by auto
  qed
qed simp

text \<open>An update of one node of a level: nothing else changes, and the level stays one if its tree is still represented.\<close>

lemma upd_bt_frame: "frame {k} pa (upd_bt pa k f)" "bytes_used (upd_bt pa k f) = bytes_used pa"
  by (auto simp: upd_bt_def frame_def split: option.splits pobj.splits)

lemma upd_bt_self: "bt_at (upd_bt pa k f) k = map_option f (bt_at pa k)"
  by (auto simp: upd_bt_def bt_at_def split: option.splits pobj.splits)

lemma lvl_upd_bt:
  assumes "lvl ds pa cur b t" "repr (upd_bt pa j f) (bt_children b) t'" "offs t' = offs t" "j \<in> set (offs t)" "bst t'"
  shows "lvl ds (upd_bt pa j f) cur b t'"
  using assms frame_bt_at [OF upd_bt_frame(1) [of j pa f], of cur]
  by (auto simp: lvl_def lvl_ok_def area_sz_def upd_bt_frame(2))

lemma lvl_tpset:
  assumes "lvl ds pa cur b t" and "node t ts = Some (j, p, c)"
  shows "\<exists>bj. bt_at pa j = Some bj \<and> bt_prop bj = p \<and> j \<in> set (offs t)
     \<and> (let pa' = upd_bt pa j (\<lambda>b. b\<lparr>bt_prop := q\<rparr>)
        in frame {j} pa pa' \<and> bytes_used pa' = bytes_used pa \<and> lvl ds pa' cur b (tpset ts q t))"
  using assms
proof (induction ts arbitrary: cur b t)
  case (Cons x xs)
  let ?f = "\<lambda>b. b\<lparr>bt_prop := q\<rparr>" and ?pa = "upd_bt pa j (\<lambda>b. b\<lparr>bt_prop := q\<rparr>)"
  have ok: "lvl_ok ds pa (bt_children b) t" and cur: "cur \<notin> set (offs t)" "cur < bytes_used pa"
    "bt_at pa cur = Some b" "bst t"
    using Cons.prems(1) by (auto simp: lvl_def)
  note upd = upd_bt_frame [where pa = pa and f = ?f] and self = upd_bt_self [of pa _ ?f]
  note fin = lvl_upd_bt [OF Cons.prems(1), of j ?f]
  from Cons.prems(2) obtain i pi ci where i: "sfind t x = Some (i, pi, ci)"
    by (cases xs) (auto split: option.splits)
  obtain bi where bi: "lvl ds pa i bi ci" "bt_prop bi = pi"
    using lvl_child [OF Cons.prems(1) i] .
  have ii: "bt_at pa i = Some bi" "i \<notin> set (offs ci)" "lvl_ok ds pa (bt_children bi) ci"
    using bi by (auto simp: lvl_def)
  note io = sfind_offs [OF i]
  show ?case
  proof (cases "xs = []")
    case True
    with Cons.prems(2) i have e: "j = i" "p = pi" "c = ci" by auto
    have "repr ?pa (bt_children bi) ci"
      using lvl_ok_frame [OF ii(3) upd(1) [of j]] ii(2) e by auto
    moreover have "bt_at ?pa i = Some (bi\<lparr>bt_prop := q, bt_children := bt_children bi\<rparr>)"
      using self [of i] ii e by simp
    moreover have "frame (insert i (set (offs ci))) pa ?pa"
      using upd(1) [of j] e by (auto intro: frame_mono)
    ultimately have "repr ?pa (bt_children b) (sput x q ci t)"
      using repr_sput [OF ok i ii(1)] by blast
    then have "lvl ds ?pa cur b (sput x q ci t)"
      using fin offs_sput_same [OF i refl] io e sfind_bst [OF i] bst_sput cur by blast
    then show ?thesis using True i e ii bi upd [of j] io by (auto simp: Let_def)
  next
    case False
    then have nd: "node ci xs = Some (j, p, c)" using Cons.prems(2) i by (simp add: node_Cons)
    from Cons.IH [OF bi(1) nd] obtain bj where bj: "bt_at pa j = Some bj" "bt_prop bj = p"
      "j \<in> set (offs ci)" and l': "lvl ds ?pa i bi (tpset xs q ci)"
      by (auto simp: Let_def)
    have "frame (insert i (set (offs ci))) pa ?pa"
      using upd(1) [of j] bj(3) by (auto intro: frame_mono)
    moreover have "bt_at ?pa i = Some (bi\<lparr>bt_prop := pi, bt_children := bt_children bi\<rparr>)"
      "repr ?pa (bt_children bi) (tpset xs q ci)"
      using l' bi by (auto simp: lvl_def lvl_ok_def)
    ultimately have "repr ?pa (bt_children b) (sput x pi (tpset xs q ci) t)"
      using repr_sput [OF ok i ii(1)] by blast
    then have "lvl ds ?pa cur b (sput x pi (tpset xs q ci) t)"
      using fin offs_sput_same [OF i, of "tpset xs q ci"] io bj(3) bst_sput cur bst_tpset
        sfind_bst [OF i] by (metis in_mono offs_tpset)
    then show ?thesis using False i bj upd [of j] io by (auto simp: Let_def tpset_Cons)
  qed
qed simp

end
