(* ===== verification/Prop_Area_Spec.thy ===== *)
theory Prop_Area_Spec
  imports Prop_Area_Correct
begin

text \<open>
  What a property area promises its clients, on top of the refinement of
  \<open>Prop_Area_Correct\<close>: a well-formed area is a finite map from names to values, and \<open>find\<close>,
  \<open>add\<close>, \<open>del\<close> and \<open>foreach\<close> are total and act on this map as they should. The
  contract is the locale \<open>prop_store\<close>, interpreted on the area's own operations.
\<close>

section \<open>Values of records\<close>

text \<open>
  What a reader of the record at \<open>off\<close> gets from \<open>ReadCallback\<close>: only for a read-only
  property the flag decides between the record's own bytes and the long value.
\<close>

definition is_read_only :: "string \<Rightarrow> bool" where
  "is_read_only name \<longleftrightarrow> strncmp name ''ro.'' 3 = 0"

definition prop_value :: "prop_area \<Rightarrow> nat \<Rightarrow> prop_info \<Rightarrow> string option" where
  "prop_value pa off i =
     (if is_read_only (pi_name i) \<and> is_long i then long_value pa off i else Some (pi_value i))"

text \<open>Only a read-only property may have a value that does not fit its record.\<close>

definition storable :: "string \<Rightarrow> string \<Rightarrow> bool" where
  "storable name v \<longleftrightarrow> NUL \<notin> set v \<and> (length v < PROP_VALUE_MAX \<or> is_read_only name)"

text \<open>
  A record at rest: the dirty bit is clear and the top byte of the serial number is the length
  of the string in the record.
\<close>

definition rec_ok :: "prop_info \<Rightarrow> bool" where
  "rec_ok i \<longleftrightarrow> length (pi_union i) = PROP_VALUE_MAX \<and> \<not> bit (pi_serial i) 0
     \<and> unat (drop_bit 24 (pi_serial i)) = length (pi_value i)"

definition value_at :: "prop_area \<Rightarrow> nat \<Rightarrow> string option" where
  "value_at pa off = Option.bind (info_at pa off) (prop_value pa off)"

definition info_ok :: "prop_area \<Rightarrow> nat \<Rightarrow> string list \<Rightarrow> bool" where
  "info_ok pa p ts \<longleftrightarrow>
     (case info_at pa p of
        None \<Rightarrow> False
      | Some i \<Rightarrow> tokens (pi_name i) = ts \<and> prop_value pa p i \<noteq> None \<and> p < bytes_used pa
          \<and> rec_ok i
          \<and> (is_read_only (pi_name i) \<and> is_long i \<longrightarrow> p + long_offset i < bytes_used pa))"

lemma bit_kLongFlag: "bit kLongFlag n \<longleftrightarrow> n = 16"
  unfolding kLongFlag_def bit_push_bit_iff bit_1_iff by auto

lemma not_is_long_short [simp]: "\<not> is_long (prop_info_short nm v)"
proof -
  have "push_bit 24 (of_nat (length v)) AND kLongFlag = 0"
    by (rule bit_eqI) (auto simp: bit_and_iff bit_push_bit_iff bit_kLongFlag)
  then show ?thesis by (simp add: is_long_def prop_info_short_def)
qed

lemma is_long_long [simp]: "is_long (prop_info_long nm k)"
proof -
  have "bit ((push_bit 24 (of_nat (length kLongLegacyError)) OR kLongFlag) AND kLongFlag) 16"
    by (simp add: bit_and_iff bit_or_iff bit_kLongFlag)
  then show ?thesis
    by (auto simp: is_long_def prop_info_long_def)
qed

lemma pi_value_short:
  "NUL \<notin> set v \<Longrightarrow> pi_value (prop_info_short nm v) = v"
  by (simp add: pi_value_def prop_info_short_def buf_simps)

lemma length_zero_union [simp]: "length zero_union = 92"
  by (simp add: zero_union_def PROP_VALUE_MAX_def)

lemma long_offset_long: "k < 2 ^ 32 \<Longrightarrow> long_offset (prop_info_long nm k) = k"
  by (simp add: long_offset_def prop_info_long_def buf_write_def kLongLegacyErrorBufferSize_def
      kLongLegacyError_def)

lemma pi_name_simps [simp]:
  "pi_name (prop_info_short nm v) = nm" "pi_name (prop_info_long nm k) = nm"
  by (simp_all add: prop_info_short_def prop_info_long_def)

text \<open>A legacy reader of a long record finds the error message, not the value.\<close>

lemma pi_value_long: "pi_value (prop_info_long nm k) = kLongLegacyError"
proof -
  have "takeWhile (\<lambda>c. c \<noteq> NUL) (kLongLegacyError @ NUL # r) = kLongLegacyError" for r
    by (simp add: kLongLegacyError_def)
  moreover have "pi_union (prop_info_long nm k) =
      kLongLegacyError @ NUL # drop (Suc (length kLongLegacyError))
        (pi_union (prop_info_long nm k))"
    by (simp add: prop_info_long_def buf_write_def kLongLegacyErrorBufferSize_def
        kLongLegacyError_def)
  ultimately show ?thesis by (metis pi_value_def c_str_def)
qed

lemma rec_ok_short:
  assumes "length v < PROP_VALUE_MAX" and "NUL \<notin> set v"
  shows "rec_ok (prop_info_short nm v)"
proof -
  have "drop_bit 24 (push_bit 24 (of_nat (length v) :: u32)) = of_nat (length v)"
    using assms(1) nat_bit_less [of "length v" 8]
    by (intro bit_word_eqI) (auto simp: bit_simps PROP_VALUE_MAX_def)
  then show ?thesis
    using assms by (simp add: rec_ok_def pi_value_short)
      (simp add: prop_info_short_def PROP_VALUE_MAX_def unat_of_nat bit_simps)
qed

lemma rec_ok_long: "rec_ok (prop_info_long nm k)"
  by (simp add: rec_ok_def pi_value_long)
    (simp add: prop_info_long_def PROP_VALUE_MAX_def kLongFlag_def kLongLegacyError_def
      kLongLegacyErrorBufferSize_def bit_simps)

lemma allocate_cases:
  assumes "area_sz ds pa" and "0 < n"
  obtains (fail) "allocate_obj ds pa n = None" and "ds < bytes_used pa + align4 n"
  | (ok) u where "allocate_obj ds pa n = Some (bytes_used pa, pa\<lparr>bytes_used := u\<rparr>)"
      and "bytes_used pa < u" and "area_sz ds (pa\<lparr>bytes_used := u\<rparr>)"
      and "u = bytes_used pa + align4 n"
proof (cases "bytes_used pa + align4 n > ds")
  case True
  then show ?thesis using fail by (simp add: allocate_obj_def Let_def)
next
  case False
  with assms have "(bytes_used pa + align4 n) mod 2 ^ 32 = bytes_used pa + align4 n"
    by (simp add: area_sz_def)
  with False show ?thesis
    using ok assms align4_pos [OF assms(2)] by (simp add: allocate_obj_def Let_def area_sz_def)
qed

definition info_size :: "string \<Rightarrow> string \<Rightarrow> nat" where
  "info_size nm v = align4 (sizeof_prop_info + length nm + 1)
     + (if length v \<ge> PROP_VALUE_MAX then align4 (length v + 1) else 0)"

lemma new_prop_info_cases:
  assumes sz: "area_sz ds pa" and st: "storable nm v"
  obtains (fail) pa' where "new_prop_info ds pa nm v = (pa', None)" and "frame {} pa pa'"
      and "area_sz ds pa'" and "ds < bytes_used pa + info_size nm v"
  | (ok) pa' where "new_prop_info ds pa nm v = (pa', Some (bytes_used pa))"
      and "frame {} pa pa'" and "bytes_used pa < bytes_used pa'" and "area_sz ds pa'"
      and "info_ok pa' (bytes_used pa) (tokens nm)" and "value_at pa' (bytes_used pa) = Some v"
proof (rule allocate_cases [OF sz, of "sizeof_prop_info + length nm + 1"])
  assume "allocate_obj ds pa (sizeof_prop_info + length nm + 1) = None"
    "ds < bytes_used pa + align4 (sizeof_prop_info + length nm + 1)"
  then show ?thesis using fail [of pa] sz by (simp add: new_prop_info_def info_size_def)
next
  fix u
  assume a: "allocate_obj ds pa (sizeof_prop_info + length nm + 1)
      = Some (bytes_used pa, pa\<lparr>bytes_used := u\<rparr>)"
    "bytes_used pa < u" "area_sz ds (pa\<lparr>bytes_used := u\<rparr>)"
    "u = bytes_used pa + align4 (sizeof_prop_info + length nm + 1)"
  have v: "NUL \<notin> set v" using st by (simp add: storable_def)
  show ?thesis
  proof (cases "length v \<ge> PROP_VALUE_MAX")
    case False
    with a show ?thesis
      using ok [of "pa\<lparr>bytes_used := u, pa_data := (pa_data pa)
          (bytes_used pa \<mapsto> Info (prop_info_short nm v))\<rparr>"] v rec_ok_short [of v nm]
      by (simp add: new_prop_info_def frame_def area_sz_def info_ok_def info_at_def
          prop_value_def value_at_def pi_value_short)
  next
    case True
    show ?thesis
    proof (rule allocate_cases [OF a(3), of "length v + 1"])
      assume "allocate_obj ds (pa\<lparr>bytes_used := u\<rparr>) (length v + 1) = None"
        "ds < bytes_used (pa\<lparr>bytes_used := u\<rparr>) + align4 (length v + 1)"
      then show ?thesis
        using fail [of "pa\<lparr>bytes_used := u\<rparr>"] a True
        by (simp add: new_prop_info_def frame_def info_size_def)
    next
      fix w
      assume b: "allocate_obj ds (pa\<lparr>bytes_used := u\<rparr>) (length v + 1)
          = Some (bytes_used (pa\<lparr>bytes_used := u\<rparr>), pa\<lparr>bytes_used := u, bytes_used := w\<rparr>)"
        "bytes_used (pa\<lparr>bytes_used := u\<rparr>) < w" "area_sz ds (pa\<lparr>bytes_used := u, bytes_used := w\<rparr>)"
      have "(int u - int (bytes_used pa)) mod 2 ^ 32 = int (u - bytes_used pa)"
        using a(2,3) by (simp add: area_sz_def of_nat_diff)
      then have k: "nat ((int u - int (bytes_used pa)) mod 2 ^ 32) = u - bytes_used pa"
        by simp
      have lo: "long_offset (prop_info_long nm (u - bytes_used pa)) = u - bytes_used pa"
        using a(3) by (intro long_offset_long) (auto simp: area_sz_def)
      show ?thesis
        using ok [of "pa\<lparr>bytes_used := w, pa_data := (pa_data pa)
          (u \<mapsto> LongValue v, bytes_used pa \<mapsto> Info (prop_info_long nm (u - bytes_used pa)))\<rparr>"]
          a b True k lo rec_ok_long st
        by (simp add: new_prop_info_def frame_def area_sz_def info_ok_def info_at_def
            prop_value_def value_at_def long_value_def storable_def)
    qed simp
  qed
qed simp_all

section \<open>Well-formed areas\<close>

definition wf_area :: "nat \<Rightarrow> prop_area \<Rightarrow> tst \<Rightarrow> bool" where
  "wf_area ds pa t \<longleftrightarrow>
     (\<exists>b. lvl ds pa 0 b t \<and> bt_prop b = 0 \<and> bt_left b = 0 \<and> bt_right b = 0)
     \<and> (\<forall>ts p. tlook t ts = Some p \<longrightarrow> [] \<notin> set ts \<and> info_ok pa p ts)"

definition look :: "prop_area \<Rightarrow> tst \<Rightarrow> string \<Rightarrow> string option" where
  "look pa t name = Option.bind (tlook t (tokens name)) (value_at pa)"

lemma info_ok_frame:
  assumes "info_ok pa p ts" and "frame S pa pa'" and "\<And>k. k \<in> S \<Longrightarrow> bt_at pa k \<noteq> None"
  shows "info_ok pa' p ts" and "value_at pa' p = value_at pa p"
proof -
  from assms(1) obtain i where i: "info_at pa p = Some i" "tokens (pi_name i) = ts"
    "prop_value pa p i \<noteq> None" "p < bytes_used pa" "rec_ok i"
    "is_read_only (pi_name i) \<and> is_long i \<longrightarrow> p + long_offset i < bytes_used pa"
    by (auto simp: info_ok_def split: option.splits)
  have data: "pa_data pa' k = pa_data pa k" if "bt_at pa k = None" "k < bytes_used pa" for k
    using assms(2) assms(3) [of k] that by (auto simp: frame_def)
  have "info_at pa' p = Some i"
    using i data [of p] by (auto simp: info_at_def bt_at_def split: option.splits pobj.splits)
  moreover have v: "prop_value pa' p i = prop_value pa p i"
    using i(3,6) data [of "p + long_offset i"]
    by (auto simp: prop_value_def long_value_def bt_at_def split: option.splits pobj.splits if_splits)
  ultimately show "info_ok pa' p ts" "value_at pa' p = value_at pa p"
    using i assms(2) by (auto simp: info_ok_def frame_def value_at_def)
qed

lemma wf_bt_at: "lvl ds pa cur b t \<Longrightarrow> k \<in> insert cur (set (offs t)) \<Longrightarrow> bt_at pa k \<noteq> None"
  by (auto simp: lvl_def lvl_ok_def dest: repr_bt_at)

text \<open>Any extension that keeps the records found and only writes to nodes keeps the map.\<close>

lemma wf_area_step:
  assumes wf: "wf_area ds pa t" and l: "lvl ds pa' 0 b' t'" "bt_prop b' = 0" "bt_left b' = 0" "bt_right b' = 0"
    and fr: "frame S pa pa'" "\<And>k. k \<in> S \<Longrightarrow> bt_at pa k \<noteq> None"
    and tl: "\<And>ts. tlook t' ts = tlook t ts"
  shows "wf_area ds pa' t'" and "look pa' t' name = look pa t name"
proof -
  have ok: "tlook t ts = Some p \<Longrightarrow> [] \<notin> set ts \<and> info_ok pa p ts" for ts p
    using wf by (simp add: wf_area_def)
  show "wf_area ds pa' t'"
    unfolding wf_area_def tl using l ok info_ok_frame(1) [OF _ fr] by blast
  show "look pa' t' name = look pa t name"
    using ok info_ok_frame(2) [OF _ fr]
    by (auto simp: look_def tl split: bind_splits)
qed

lemma wf_grows:
  assumes "wf_area ds pa t" and "lvl ds pa 0 b t" and "grows ds pa 0 b t pa' t'"
  shows "wf_area ds pa' t'" and "look pa' t' name = look pa t name"
proof -
  obtain b0 where "lvl ds pa 0 b0 t" "bt_prop b0 = 0" "bt_left b0 = 0" "bt_right b0 = 0"
    using assms(1) by (auto simp: wf_area_def)
  then have b: "bt_prop b = 0" "bt_left b = 0" "bt_right b = 0"
    using assms(2) by (auto simp: lvl_def)
  obtain b' where l: "lvl ds pa' 0 b' t'" "bt_prop b' = 0" "bt_left b' = 0" "bt_right b' = 0"
    using grows_lvl [OF assms(3)] b by metis
  have fr: "frame (insert 0 (set (offs t))) pa pa'" and tl: "\<And>ts. tlook t' ts = tlook t ts"
    using assms(3) by (auto simp: grows_def)
  show "wf_area ds pa' t'" "look pa' t' name = look pa t name"
    using wf_area_step [OF assms(1) l fr wf_bt_at [OF assms(2)] tl] by auto
qed

lemma lvl_frame:
  assumes "lvl ds pa cur b t" and "frame {} pa pa'" and "area_sz ds pa'"
  shows "lvl ds pa' cur b t"
  using assms frame_bt_at [OF assms(2), of cur] lvl_ok_frame [OF _ assms(2), of ds "bt_children b" t]
  by (auto simp: lvl_def lvl_ok_def frame_def)

lemma wf_area_frame:
  assumes "wf_area ds pa t" and "frame {} pa pa'" and "area_sz ds pa'"
  shows "wf_area ds pa' t" and "look pa' t name = look pa t name"
proof -
  obtain b where b: "lvl ds pa 0 b t" "bt_prop b = 0" "bt_left b = 0" "bt_right b = 0"
    using assms(1) by (auto simp: wf_area_def)
  have "lvl ds pa' 0 b t" using lvl_frame [OF b(1) assms(2,3)] .
  then show "wf_area ds pa' t" "look pa' t name = look pa t name"
    using wf_area_step [OF assms(1) _ b(2-4) assms(2)] by auto
qed

lemma lvl_node:
  assumes "lvl ds pa cur b t" and "node t ts = Some (j, p, c)"
  shows "\<exists>bj. bt_at pa j = Some bj \<and> bt_prop bj = p"
  using lvl_tpset [OF assms] by blast

text \<open>Setting or clearing the record link of a node.\<close>

lemma wf_area_tpset:
  assumes wf: "wf_area ds pa t" and n: "node t (tokens nm) = Some (j, p, c)"
    and q: "q = 0 \<or> [] \<notin> set (tokens nm) \<and> info_ok pa q (tokens nm)"
  defines "pa' \<equiv> upd_bt pa j (\<lambda>b. b\<lparr>bt_prop := q\<rparr>)"
  shows "wf_area ds pa' (tpset (tokens nm) q t)"
    and "look pa' (tpset (tokens nm) q t) name =
         (if name = nm then (if q = 0 then None else value_at pa q) else look pa t name)"
proof -
  obtain b where b: "lvl ds pa 0 b t" "bt_prop b = 0" "bt_left b = 0" "bt_right b = 0"
    using wf by (auto simp: wf_area_def)
  from lvl_tpset [OF b(1) n, of q] obtain bj where bj: "bt_at pa j = Some bj"
    and fr: "frame {j} pa pa'" and l: "lvl ds pa' 0 b (tpset (tokens nm) q t)"
    by (auto simp: pa'_def Let_def)
  have ok: "tlook t ts = Some p \<Longrightarrow> [] \<notin> set ts \<and> info_ok pa p ts" for ts p
    using wf by (simp add: wf_area_def)
  have fr': "\<And>k. k \<in> {j} \<Longrightarrow> bt_at pa k \<noteq> None" using bj by simp
  have tl: "tlook (tpset (tokens nm) q t) us =
      (if us = tokens nm then (if q = 0 then None else Some q) else tlook t us)" for us
    using tlook_tpset n by simp
  have "[] \<notin> set ts \<and> info_ok pa' r ts" if "tlook (tpset (tokens nm) q t) ts = Some r" for ts r
    using that ok q info_ok_frame(1) [OF _ fr fr'] by (auto simp: tl split: if_splits)
  with l b show "wf_area ds pa' (tpset (tokens nm) q t)" unfolding wf_area_def by blast
  have "value_at pa' r = value_at pa r" if "tlook t ts = Some r" for ts r
    using info_ok_frame(2) [OF _ fr fr'] ok that by blast
  moreover have "value_at pa' q = value_at pa q" if "q \<noteq> 0"
    using info_ok_frame(2) [OF _ fr fr'] q that by blast
  ultimately show "look pa' (tpset (tokens nm) q t) name =
      (if name = nm then (if q = 0 then None else value_at pa q) else look pa t name)"
    by (cases "tlook t (tokens name)") (auto simp: look_def tl tokens_inj)
qed

section \<open>The operations on a well-formed area\<close>

lemma root_node_0 [simp]: "root_node ds = Some 0"
  by (simp add: root_node_def to_prop_obj_def)

lemma info_ok_to_prop_obj: "area_sz ds pa \<Longrightarrow> info_ok pa p ts \<Longrightarrow> to_prop_obj ds p = Some p"
  by (auto simp: info_ok_def to_prop_obj_def area_sz_def split: option.splits)

lemma wf_area_sz: "wf_area ds pa t \<Longrightarrow> area_sz ds pa"
  by (auto simp: wf_area_def lvl_def lvl_ok_def)

lemma find_property_wf:
  assumes wf: "wf_area ds pa t"
  shows "find_property ds pa (Some 0) name v False = Some (pa, tlook t (tokens name))"
proof -
  obtain b where b: "lvl ds pa 0 b t" using wf by (auto simp: wf_area_def)
  have s: "find_prop_bt ds pa 0 name False =
      Some (pa, if [] \<in> set (tokens name) then None else map_option fst (node t (tokens name)))"
    using search_toks_ro [OF b] by (simp add: find_prop_bt_tokens)
  have ok: "tlook t (tokens name) = Some p \<Longrightarrow> [] \<notin> set (tokens name) \<and> to_prop_obj ds p = Some p" for p
    using wf info_ok_to_prop_obj [OF wf_area_sz [OF wf]] by (auto simp: wf_area_def)
  show ?thesis
  proof (cases "node t (tokens name)")
    case None
    then show ?thesis by (simp add: find_property_def s tlook_def)
  next
    case (Some z)
    then obtain j p c where z: "node t (tokens name) = Some (j, p, c)" by (cases z) auto
    with lvl_node [OF b z] ok show ?thesis
      by (cases "p = 0") (auto simp: find_property_def s tlook_def)
  qed
qed

lemma area_find_wf: "wf_area ds pa t \<Longrightarrow> area_find ds pa name = Some (tlook t (tokens name))"
  by (simp add: area_find_def find_property_wf)

text \<open>The bytes a new property can take: its record and a node for each piece of the name.\<close>

definition add_need :: "string \<Rightarrow> string \<Rightarrow> nat" where
  "add_need nm v = nodes_size (tokens nm) + info_size nm v"

lemma area_add_present:
  assumes wf: "wf_area ds pa t" and p: "tlook t (tokens name) = Some p"
  shows "area_add ds pa name v = Some (pa, True)"
proof -
  obtain b where b: "lvl ds pa 0 b t" using wf by (auto simp: wf_area_def)
  have nn: "[] \<notin> set (tokens name)" "to_prop_obj ds p = Some p"
    using wf p info_ok_to_prop_obj [OF wf_area_sz [OF wf]] by (auto simp: wf_area_def)
  obtain j c where n: "node t (tokens name) = Some (j, p, c)" "p \<noteq> 0"
    using p by (auto simp: tlook_def split: option.splits if_splits)
  show ?thesis
    using search_toks_found [OF b n(1) nn(1)] lvl_node [OF b n(1)] n(2) nn(2)
    by (auto simp: area_add_def find_property_def find_prop_bt_tokens)
qed

lemma area_add_absent:
  assumes wf: "wf_area ds pa t" and v: "storable name v" and none: "tlook t (tokens name) = None"
  obtains (fail) pa' t' where "area_add ds pa name v = Some (pa', False)" and "wf_area ds pa' t'"
      and "\<And>nm. look pa' t' nm = look pa t nm"
      and "[] \<in> set (tokens name) \<or> ds < bytes_used pa + add_need name v"
  | (ok) pa' t' where "area_add ds pa name v = Some (pa', True)" and "wf_area ds pa' t'"
      and "\<And>nm. look pa' t' nm = (if nm = name then Some v else look pa t nm)"
      and "[] \<notin> set (tokens name)"
proof -
  obtain b where b: "lvl ds pa 0 b t" using wf by (auto simp: wf_area_def)
  from search_toks_grows [OF b, of "tokens name"] obtain pa1 t1 r where
    s: "find_prop_bt ds pa 0 name True = Some (pa1, r)" and g: "grows ds pa 0 b t pa1 t1"
    and u: "bytes_used pa1 \<le> bytes_used pa + nodes_size (tokens name)"
    and r: "r = None \<and> ([] \<in> set (tokens name) \<or> ds < bytes_used pa + nodes_size (tokens name))
            \<or> (\<exists>j p c. r = Some j \<and> node t1 (tokens name) = Some (j, p, c)
               \<and> [] \<notin> set (tokens name))"
    by (auto simp: find_prop_bt_tokens)
  note w1 = wf_grows [OF wf b g]
  have sz1: "area_sz ds pa1" by (rule wf_area_sz [OF w1(1)])
  from r show ?thesis
  proof (elim disjE exE conjE)
    fix j p c
    assume j: "r = Some j" "node t1 (tokens name) = Some (j, p, c)" "[] \<notin> set (tokens name)"
    have "tlook t1 (tokens name) = None" using g none by (simp add: grows_def)
    with j(2) have p0: "p = 0" by (auto simp: tlook_def split: if_splits)
    obtain b1 where b1: "lvl ds pa1 0 b1 t1" using w1(1) by (auto simp: wf_area_def)
    obtain bj where bj: "bt_at pa1 j = Some bj" "bt_prop bj = 0"
      using lvl_node [OF b1 j(2)] p0 by auto
    show ?thesis
    proof (rule new_prop_info_cases [OF sz1 v])
      fix pa2 assume a: "new_prop_info ds pa1 name v = (pa2, None)" "frame {} pa1 pa2"
        "area_sz ds pa2" "ds < bytes_used pa1 + info_size name v"
      have "area_add ds pa name v = Some (pa2, False)"
        using s j bj a by (simp add: area_add_def find_property_def)
      then show ?thesis
        using fail [of pa2 t1] wf_area_frame [OF w1(1) a(2,3)] w1(2) a(4) u
        by (simp add: add_need_def)
    next
      fix pa2 assume a: "new_prop_info ds pa1 name v = (pa2, Some (bytes_used pa1))"
        "frame {} pa1 pa2" "bytes_used pa1 < bytes_used pa2" "area_sz ds pa2"
        "info_ok pa2 (bytes_used pa1) (tokens name)" "value_at pa2 (bytes_used pa1) = Some v"
      note w2 = wf_area_frame [OF w1(1) a(2,4)]
      have "0 < bytes_used pa1" using b1 by (auto simp: lvl_def)
      then have "look (upd_bt pa2 j (\<lambda>b. b\<lparr>bt_prop := bytes_used pa1\<rparr>))
            (tpset (tokens name) (bytes_used pa1) t1) nm
          = (if nm = name then Some v else look pa t nm)" for nm
        using wf_area_tpset(2) [OF w2(1) j(2), of "bytes_used pa1" nm] a(5,6) j(3) w2(2) w1(2)
        by simp
      moreover have "area_add ds pa name v =
          Some (upd_bt pa2 j (\<lambda>b. b\<lparr>bt_prop := bytes_used pa1\<rparr>), True)"
        using s j bj a by (simp add: area_add_def find_property_def)
      ultimately show ?thesis
        using ok wf_area_tpset(1) [OF w2(1) j(2), of "bytes_used pa1"] a(5) j(3) by blast
    qed
  qed (use fail s w1 in \<open>auto simp: area_add_def find_property_def add_need_def\<close>)
qed

lemma area_del_wf:
  assumes wf: "wf_area ds pa t"
  obtains pa' t' r where "area_del ds pa name = Some (pa', r)" and "wf_area ds pa' t'"
    and "\<And>nm. look pa' t' nm = (if nm = name then None else look pa t nm)"
    and "look pa t name \<noteq> None \<Longrightarrow> r"
    and "bytes_used pa' = bytes_used pa"
proof -
  obtain b where b: "lvl ds pa 0 b t" using wf by (auto simp: wf_area_def)
  have s: "find_prop_bt ds pa 0 name False =
      Some (pa, if [] \<in> set (tokens name) then None else map_option fst (node t (tokens name)))"
    using search_toks_ro [OF b] by (simp add: find_prop_bt_tokens)
  show ?thesis
  proof (cases "[] \<in> set (tokens name) \<or> node t (tokens name) = None")
    case True
    then have "tlook t (tokens name) = None"
      using wf by (cases "tlook t (tokens name)") (auto simp: wf_area_def tlook_def)
    then have "look pa t name = None" by (simp add: look_def)
    then show ?thesis
      using that [of pa False t] True wf s by (auto simp: area_del_def)
  next
    case False
    then obtain j p c where n: "node t (tokens name) = Some (j, p, c)" by (cases "node t (tokens name)") auto
    obtain bj where bj: "bt_at pa j = Some bj" using lvl_node [OF b n] by blast
    have "bytes_used (upd_bt pa j (\<lambda>b. b\<lparr>bt_prop := 0\<rparr>)) = bytes_used pa"
      by (auto simp: upd_bt_def split: option.splits pobj.splits)
    then show ?thesis
      using that [of "upd_bt pa j (\<lambda>b. b\<lparr>bt_prop := 0\<rparr>)" True "tpset (tokens name) 0 t"]
        wf_area_tpset [OF wf n, of 0] False n s bj by (simp add: area_del_def)
  qed
qed

lemma foreach_property_lvl:
  assumes "lvl_ok ds pa k t" and "t \<noteq> Tip" and "\<forall>(ts, p) \<in> set (paths t). to_prop_obj ds p = Some p"
  shows "foreach_property ds pa (Some k) = Some (True, map snd (paths t))"
  using assms
proof (induction t arbitrary: k)
  case (Nd j nm p l r c)
  from Nd.prems(1) obtain b where b: "bt_at pa j = Some b" "bt_prop b = p"
    by (auto simp: lvl_ok_def)
  note D = lvl_okD [OF Nd.prems(1) b(1)]
  have sub: "(if n \<noteq> 0 then foreach_property ds pa (to_prop_obj ds n) else Some (True, []))
      = Some (True, map snd (paths u))"
    if "lvl_ok ds pa n u" and "u \<noteq> Tip \<Longrightarrow> foreach_property ds pa (Some n) = Some (True, map snd (paths u))"
    for n u
    using that lvl_ok_to_prop_obj [OF that(1)] by (cases "u = Tip") (auto simp: lvl_ok_def)
  have obj: "\<forall>(ts, p) \<in> set (paths l). to_prop_obj ds p = Some p"
    "\<forall>(ts, p) \<in> set (paths r). to_prop_obj ds p = Some p"
    "\<forall>(ts, p) \<in> set (paths c). to_prop_obj ds p = Some p"
    "p \<noteq> 0 \<Longrightarrow> to_prop_obj ds p = Some p"
    using Nd.prems(3) by (simp_all add: ball_Un split_beta)
  have subs: "(if bt_left b \<noteq> 0 then foreach_property ds pa (to_prop_obj ds (bt_left b))
        else Some (True, [])) = Some (True, map snd (paths l))"
    "(if bt_right b \<noteq> 0 then foreach_property ds pa (to_prop_obj ds (bt_right b))
        else Some (True, [])) = Some (True, map snd (paths r))"
    "(if bt_children b \<noteq> 0 then foreach_property ds pa (to_prop_obj ds (bt_children b))
        else Some (True, [])) = Some (True, map snd (paths c))"
    using Nd.IH D(5-7) obj by (intro sub; blast)+
  have "map snd (map (\<lambda>(ts, q). (nm # ts, q)) (paths c)) = map snd (paths c)"
    by (simp add: case_prod_beta comp_def)
  then show ?case
    using obj(4)
    by (subst foreach_property.simps, unfold D(1) option.case b subs Option.bind.simps prod.case)
      (auto simp: walk_err_def)
qed simp

lemma area_foreach_wf:
  assumes wf: "wf_area ds pa t"
  shows "area_foreach ds pa = Some (True, map snd (paths t))"
proof -
  obtain b where b: "lvl ds pa 0 b t" "bt_prop b = 0" "bt_left b = 0" "bt_right b = 0"
    using wf by (auto simp: wf_area_def)
  have l: "lvl_ok ds pa (bt_children b) t" "bst t" "bt_at pa 0 = Some b"
    using b by (auto simp: lvl_def)
  have "\<forall>(ts, p) \<in> set (paths t). to_prop_obj ds p = Some p"
    using wf info_ok_to_prop_obj [OF wf_area_sz [OF wf]] paths_iff_tlook [OF l(2)]
    unfolding wf_area_def by blast
  then show ?thesis
    using foreach_property_lvl [OF l(1)] lvl_ok_to_prop_obj [OF l(1)] b l
    by (subst area_foreach_def, subst root_node_0, subst foreach_property.simps)
      (cases "t = Tip", auto simp: walk_err_def lvl_ok_def)
qed

section \<open>The contract\<close>

definition area_ok :: "nat \<Rightarrow> prop_area \<Rightarrow> bool" where
  "area_ok ds pa \<longleftrightarrow> (\<exists>t. wf_area ds pa t)"

text \<open>Finding the record of a name and reading it.\<close>

definition area_get :: "nat \<Rightarrow> prop_area \<Rightarrow> string \<Rightarrow> string option" where
  "area_get ds pa name =
     (case area_find ds pa name of Some (Some off) \<Rightarrow> value_at pa off | _ \<Rightarrow> None)"

definition area_room :: "nat \<Rightarrow> prop_area \<Rightarrow> string \<Rightarrow> string \<Rightarrow> bool" where
  "area_room ds pa name v \<longleftrightarrow>
     [] \<notin> set (tokens name) \<and> bytes_used pa + add_need name v \<le> ds"

lemma area_get_wf: "wf_area ds pa t \<Longrightarrow> area_get ds pa name = look pa t name"
  by (cases "tlook t (tokens name)") (simp_all add: area_get_def area_find_wf look_def)

lemma info_ok_value: "info_ok pa p ts \<Longrightarrow> value_at pa p \<noteq> None"
  by (auto simp: info_ok_def value_at_def split: option.splits)

lemma look_None: "wf_area ds pa t \<Longrightarrow> look pa t name = None \<longleftrightarrow> tlook t (tokens name) = None"
  by (cases "tlook t (tokens name)") (auto simp: wf_area_def look_def dest: info_ok_value)

lemma area_okI: "wf_area ds pa t \<Longrightarrow> area_ok ds pa"
  by (auto simp: area_ok_def)

lemma area_add_get:
  assumes ok: "area_ok ds pa" and v: "storable n v"
  shows "\<exists>pa' r. area_add ds pa n v = Some (pa', r) \<and> area_ok ds pa'
    \<and> area_get ds pa' m =
        (if r \<and> m = n \<and> area_get ds pa n = None then Some v else area_get ds pa m)
    \<and> (area_get ds pa n \<noteq> None \<longrightarrow> r \<and> pa' = pa)
    \<and> (area_room ds pa n v \<longrightarrow> r)"
proof -
  from ok obtain t where wf: "wf_area ds pa t" by (auto simp: area_ok_def)
  show ?thesis
  proof (cases "tlook t (tokens n)")
    case None
    then have n: "area_get ds pa n = None" by (simp add: area_get_wf [OF wf] look_None [OF wf])
    show ?thesis
    proof (rule area_add_absent [OF wf v None])
      fix pa' t' assume a: "area_add ds pa n v = Some (pa', False)" "wf_area ds pa' t'"
        "\<And>nm. look pa' t' nm = look pa t nm"
        "[] \<in> set (tokens n) \<or> ds < bytes_used pa + add_need n v"
      moreover have "area_get ds pa' m = area_get ds pa m" "\<not> area_room ds pa n v"
        using a by (auto simp: area_get_wf [OF wf] area_get_wf [OF a(2)] area_room_def)
      ultimately show ?thesis
        using n area_okI [OF a(2)] by (intro exI [of _ pa'] exI [of _ False]) simp
    next
      fix pa' t' assume a: "area_add ds pa n v = Some (pa', True)" "wf_area ds pa' t'"
        "\<And>nm. look pa' t' nm = (if nm = n then Some v else look pa t nm)"
      moreover have "area_get ds pa' m = (if m = n then Some v else area_get ds pa m)"
        using a by (simp add: area_get_wf [OF wf] area_get_wf [OF a(2)])
      ultimately show ?thesis
        using n area_okI [OF a(2)] by (intro exI [of _ pa'] exI [of _ True]) simp
    qed
  next
    case (Some p)
    then have "area_get ds pa n \<noteq> None" by (simp add: area_get_wf [OF wf] look_None [OF wf])
    then show ?thesis using area_add_present [OF wf Some] ok by auto
  qed
qed

lemma area_del_get:
  assumes ok: "area_ok ds pa"
  shows "\<exists>pa' r. area_del ds pa n = Some (pa', r) \<and> area_ok ds pa'
    \<and> area_get ds pa' m = (if m = n then None else area_get ds pa m)
    \<and> (area_get ds pa n \<noteq> None \<longrightarrow> r) \<and> bytes_used pa' = bytes_used pa"
proof -
  from ok obtain t where wf: "wf_area ds pa t" by (auto simp: area_ok_def)
  show ?thesis
  proof (rule area_del_wf [OF wf, of n])
    fix pa' t' r assume a: "area_del ds pa n = Some (pa', r)" "wf_area ds pa' t'"
      "\<And>nm. look pa' t' nm = (if nm = n then None else look pa t nm)"
      "look pa t n \<noteq> None \<Longrightarrow> r" "bytes_used pa' = bytes_used pa"
    moreover have "area_get ds pa' m = (if m = n then None else area_get ds pa m)"
      "area_get ds pa n \<noteq> None \<longrightarrow> r"
      using a by (simp_all add: area_get_wf [OF wf] area_get_wf [OF a(2)])
    ultimately show ?thesis
      using area_okI [OF a(2)] by simp
  qed
qed

text \<open>
  A store of properties as its clients see it: \<open>add\<close> never overwrites and fails only for lack
  of room, \<open>del\<close> forgets one name, and both keep everything else.
\<close>

locale prop_store =
  fixes ok :: "'s \<Rightarrow> bool" and get :: "'s \<Rightarrow> string \<Rightarrow> string option"
    and add :: "'s \<Rightarrow> string \<Rightarrow> string \<Rightarrow> ('s \<times> bool) option"
    and del :: "'s \<Rightarrow> string \<Rightarrow> ('s \<times> bool) option"
    and room :: "'s \<Rightarrow> string \<Rightarrow> string \<Rightarrow> bool"
  assumes add_law: "ok s \<Longrightarrow> storable n v \<Longrightarrow>
      \<exists>s' r. add s n v = Some (s', r) \<and> ok s'
        \<and> get s' m = (if r \<and> m = n \<and> get s n = None then Some v else get s m)
        \<and> (get s n \<noteq> None \<longrightarrow> r \<and> s' = s) \<and> (room s n v \<longrightarrow> r)"
    and del_law: "ok s \<Longrightarrow>
      \<exists>s' r. del s n = Some (s', r) \<and> ok s' \<and> get s' m = (if m = n then None else get s m)
        \<and> (get s n \<noteq> None \<longrightarrow> r)"
    and del_room: "ok s \<Longrightarrow> del s n = Some (s', r) \<Longrightarrow> room s k v \<Longrightarrow> room s' k v"
begin

text \<open>Replacing a property: delete it, then add it with the new value.\<close>

lemma replace_law:
  assumes "ok s" and "storable n v" and "room s n v"
  shows "\<exists>s1 r1 s2. del s n = Some (s1, r1) \<and> add s1 n v = Some (s2, True) \<and> ok s2
           \<and> get s2 m = (if m = n then Some v else get s m)"
proof -
  obtain s1 r1 where s1: "del s n = Some (s1, r1)" "ok s1" "get s1 n = None"
    using del_law [OF assms(1), of n n] by auto
  have m: "get s1 m = (if m = n then None else get s m)"
    using del_law [OF assms(1), of n m] s1(1) by auto
  have rm: "room s1 n v" using del_room [OF assms(1) s1(1) assms(3)] .
  show ?thesis using add_law [OF s1(2) assms(2), of m] s1 m rm by auto
qed

text \<open>Adding many properties keeps the first value given for each name.\<close>

fun add_all :: "'s \<Rightarrow> (string \<times> string) list \<Rightarrow> 's option" where
  "add_all s [] = Some s"
| "add_all s ((n, v) # kvs) =
     (case add s n v of Some (s', True) \<Rightarrow> add_all s' kvs | _ \<Rightarrow> None)"

lemma add_all_get:
  "ok s \<Longrightarrow> \<forall>(n, v) \<in> set kvs. storable n v \<Longrightarrow> add_all s kvs = Some s' \<Longrightarrow>
   ok s' \<and> get s' m = (case get s m of None \<Rightarrow> map_of kvs m | Some v \<Rightarrow> Some v)"
proof (induction s kvs rule: add_all.induct)
  case (2 s n v kvs)
  from 2(3,4) obtain s1 where s1: "add s n v = Some (s1, True)" "ok s1" and k: "add_all s1 kvs = Some s'"
    using add_law [OF 2(2), of n v m] by (auto split: option.splits bool.splits)
  have "get s1 m = (if m = n \<and> get s n = None then Some v else get s m)"
    using add_law [OF 2(2), of n v m] 2(3) s1 by auto
  moreover have "ok s' \<and> get s' m = (case get s1 m of None \<Rightarrow> map_of kvs m | Some v \<Rightarrow> Some v)"
    using 2(1) [OF s1(1) _ _ s1(2) _ k] 2(3) by auto
  ultimately show ?case by (auto split: option.splits)
qed (auto split: option.splits)

end

interpretation area: prop_store "area_ok ds" "area_get ds" "area_add ds" "area_del ds" "area_room ds"
  for ds
proof
  show "\<exists>pa' r. area_del ds pa n = Some (pa', r) \<and> area_ok ds pa'
      \<and> area_get ds pa' m = (if m = n then None else area_get ds pa m)
      \<and> (area_get ds pa n \<noteq> None \<longrightarrow> r)" if "area_ok ds pa" for pa n m
    using area_del_get [OF that, of n m] by auto
  show "area_room ds pa' k v"
    if "area_ok ds pa" "area_del ds pa n = Some (pa', r)" "area_room ds pa k v" for pa pa' n r k v
    using area_del_get [OF that(1), of n] that(2,3) by (auto simp: area_room_def)
qed (rule area_add_get)

section \<open>Properties\<close>

lemma area_ok_init: "sizeof_prop_bt \<le> ds \<Longrightarrow> ds < 2 ^ 32 \<Longrightarrow> area_ok ds (prop_area_init mg ver)"
proof (rule area_okI [of _ _ Tip])
  assume "sizeof_prop_bt \<le> ds" "ds < 2 ^ 32"
  then have "lvl ds (prop_area_init mg ver) 0 zero_bt Tip"
    by (simp add: lvl_def lvl_ok_def prop_area_init_def bt_at_def zero_bt_def area_sz_def
        sizeof_prop_bt_def)
  then show "wf_area ds (prop_area_init mg ver) Tip"
    by (auto simp: wf_area_def zero_bt_def)
qed

lemma area_find_init: "sizeof_prop_bt \<le> ds \<Longrightarrow> ds < 2 ^ 32 \<Longrightarrow> area_get ds (prop_area_init mg ver) n = None"
proof -
  assume a: "sizeof_prop_bt \<le> ds" "ds < 2 ^ 32"
  have "area_find ds (prop_area_init mg ver) n = Some None"
    by (simp add: area_find_def find_property_def find_prop_bt_tokens prop_area_init_def)
       (cases "tokens n", auto simp: bt_at_def level_search_def zero_bt_def)
  then show ?thesis by (simp add: area_get_def)
qed

text \<open>
  Property C1. On a well-formed area \<open>prop_area::add\<close> always returns and leaves a well-formed
  area. If the name is already there nothing changes and it reports success. Otherwise it
  either adds exactly this property with exactly this value, long values included, or
  reports failure with every property as before; with enough bytes left and no empty piece in
  the name it does not fail.
\<close>

theorem area_add_correct:
  assumes "area_ok ds pa" and "storable name value"
  shows "\<exists>pa' r. area_add ds pa name value = Some (pa', r) \<and> area_ok ds pa'
    \<and> area_get ds pa' m =
        (if r \<and> m = name \<and> area_get ds pa name = None then Some value else area_get ds pa m)
    \<and> (area_get ds pa name \<noteq> None \<longrightarrow> r \<and> pa' = pa)
    \<and> (area_room ds pa name value \<longrightarrow> r)"
  by (rule area.add_law [OF assms])

theorem area_add_correct_witness:
  "\<exists>pa' r. area_add 1000 (prop_area_init 0 0) ''ro.secure'' ''0'' = Some (pa', r) \<and> r
     \<and> area_get 1000 pa' ''ro.secure'' = Some ''0''"
proof -
  have ok: "area_ok 1000 (prop_area_init 0 0)"
    and none: "area_get 1000 (prop_area_init 0 0) ''ro.secure'' = None"
    by (simp_all add: area_ok_init area_find_init sizeof_prop_bt_def)
  have room: "area_room 1000 (prop_area_init 0 0) ''ro.secure'' ''0''"
    by (simp add: area_room_def prop_area_init_def add_need_def info_size_def node_size_def
        sizeof_prop_bt_def sizeof_prop_info_def align4_def PROP_VALUE_MAX_def)
  have "storable ''ro.secure'' ''0''" by (simp add: storable_def PROP_VALUE_MAX_def)
  from area_add_correct [OF ok this, of "''ro.secure''"] none room
  show ?thesis by auto
qed

text \<open>
  Property C3. On a well-formed area \<open>prop_area::del\<close> always returns and leaves a well-formed
  area in which exactly the given name is gone; it reports success whenever the property was
  there, and it never frees bytes.
\<close>

theorem area_del_correct:
  assumes "area_ok ds pa"
  shows "\<exists>pa' r. area_del ds pa name = Some (pa', r) \<and> area_ok ds pa'
    \<and> area_get ds pa' m = (if m = name then None else area_get ds pa m)
    \<and> (area_get ds pa name \<noteq> None \<longrightarrow> r) \<and> bytes_used pa' = bytes_used pa"
  by (rule area_del_get [OF assms])

theorem area_del_correct_witness:
  "\<exists>pa' r. area_del 1000 (prop_area_init 0 0) ''ro.x'' = Some (pa', r)
     \<and> area_get 1000 pa' ''ro.x'' = None \<and> bytes_used pa' = 20"
  using area_del_correct [of 1000 "prop_area_init 0 0" "''ro.x''" "''ro.x''"]
    area_ok_init [of 1000 0 0]
  by (auto simp: sizeof_prop_bt_def prop_area_init_def)

text \<open>
  Property C2. On a well-formed area \<open>prop_area::find\<close> always returns, changes nothing, and
  what it returns is a record carrying exactly the name asked for, whose value can be read.
\<close>

theorem area_find_correct:
  assumes "area_ok ds pa"
  shows "\<exists>r. find_property ds pa (root_node ds) name [] False = Some (pa, r)
    \<and> area_find ds pa name = Some r
    \<and> (case r of None \<Rightarrow> area_get ds pa name = None
       | Some off \<Rightarrow> \<exists>i v. info_at pa off = Some i \<and> pi_name i = name
           \<and> prop_value pa off i = Some v \<and> area_get ds pa name = Some v)"
proof -
  from assms obtain t where wf: "wf_area ds pa t" by (auto simp: area_ok_def)
  show ?thesis
  proof (cases "tlook t (tokens name)")
    case None
    then show ?thesis
      using find_property_wf [OF wf] area_find_wf [OF wf] by (simp add: area_get_def)
  next
    case (Some p)
    then have "info_ok pa p (tokens name)" using wf by (simp add: wf_area_def)
    then show ?thesis
      using Some find_property_wf [OF wf] area_find_wf [OF wf]
      by (auto simp: area_get_def info_ok_def value_at_def tokens_inj split: option.splits)
  qed
qed

theorem area_find_correct_witness:
  "area_find 1000 (prop_area_init 0 0) ''ro.x'' \<noteq> None"
  using area_find_correct [of 1000 "prop_area_init 0 0" "''ro.x''"] area_ok_init [of 1000 0 0]
  by (auto simp: sizeof_prop_bt_def)

text \<open>
  Property C4. On a well-formed area \<open>prop_area::foreach\<close> always returns true, calls its
  callback on no record twice, and the records it is called on are exactly those that
  \<open>find\<close> returns for some name.
\<close>

theorem area_foreach_complete:
  assumes "area_ok ds pa"
  shows "\<exists>offsets. area_foreach ds pa = Some (True, offsets) \<and> distinct offsets
    \<and> set offsets = {off. \<exists>name. area_find ds pa name = Some (Some off)}"
proof -
  from assms obtain t where wf: "wf_area ds pa t" by (auto simp: area_ok_def)
  then have b: "bst t" by (auto simp: wf_area_def lvl_def)
  have nm: "\<exists>name. ts = tokens name \<and> info_at pa p \<noteq> None \<and> map_option pi_name (info_at pa p) = Some name"
    if "tlook t ts = Some p" for ts p
    using wf that by (force simp: wf_area_def info_ok_def split: option.splits)
  have "inj_on snd (set (paths t))"
  proof (rule inj_onI)
    fix x y assume h: "x \<in> set (paths t)" "y \<in> set (paths t)" "snd x = snd y"
    then have "tlook t (fst x) = Some (snd x)" "tlook t (fst y) = Some (snd x)"
      using paths_iff_tlook [OF b] by (metis prod.collapse)+
    then have "fst x = fst y" using nm by (metis option.inject)
    with h show "x = y" by (simp add: prod_eq_iff)
  qed
  moreover have "distinct (paths t)"
    using distinct_paths [OF b] by (simp add: distinct_map)
  ultimately have "distinct (map snd (paths t))"
    by (simp add: distinct_map)
  moreover have "set (map snd (paths t)) = {off. \<exists>name. area_find ds pa name = Some (Some off)}"
    using paths_iff_tlook [OF b] nm by (force simp: area_find_wf [OF wf])
  ultimately show ?thesis using area_foreach_wf [OF wf] by blast
qed

theorem area_foreach_complete_witness:
  "\<exists>offsets. area_foreach 1000 (prop_area_init 0 0) = Some (True, offsets) \<and> distinct offsets"
  using area_foreach_complete [of 1000 "prop_area_init 0 0"] area_ok_init [of 1000 0 0]
  by (auto simp: sizeof_prop_bt_def)

text \<open>
  Deleting a property and adding it again, the way read-only properties are
  replaced, sets it to the new value and changes no other property, whenever the area had
  room for it before the deletion.
\<close>

theorem area_replace_correct:
  assumes "area_ok ds pa" and "storable name value" and "area_room ds pa name value"
  shows "\<exists>pa1 r1 pa2. area_del ds pa name = Some (pa1, r1)
    \<and> area_add ds pa1 name value = Some (pa2, True) \<and> area_ok ds pa2
    \<and> area_get ds pa2 m = (if m = name then Some value else area_get ds pa m)"
  by (rule area.replace_law [OF assms])

theorem area_replace_correct_witness:
  "\<exists>pa1 r1 pa2. area_del 1000 (prop_area_init 0 0) ''ro.x'' = Some (pa1, r1)
    \<and> area_add 1000 pa1 ''ro.x'' ''1'' = Some (pa2, True)
    \<and> area_get 1000 pa2 ''ro.x'' = Some ''1''"
proof -
  have "area_ok 1000 (prop_area_init 0 0)" by (simp add: area_ok_init sizeof_prop_bt_def)
  moreover have "storable ''ro.x'' ''1''" by (simp add: storable_def PROP_VALUE_MAX_def)
  moreover have "area_room 1000 (prop_area_init 0 0) ''ro.x'' ''1''"
    by (simp add: area_room_def prop_area_init_def add_need_def info_size_def
        node_size_def sizeof_prop_bt_def sizeof_prop_info_def align4_def PROP_VALUE_MAX_def)
  ultimately show ?thesis using area_replace_correct [of 1000 "prop_area_init 0 0" "''ro.x''" "''1''" "''ro.x''"]
    by auto
qed

text \<open>
  An area file is mapped only if it is owned by root, writable by nobody else, at
  least as long as the header and carries the magic and version numbers; a freshly created
  area is mapped with the sizes of a 128 KiB file, is well-formed and has no property.
\<close>

theorem map_prop_area_checked:
  "(\<forall>st mm sizes pa sizes'. map_prop_area True st mm sizes = (Some pa, sizes') \<longrightarrow>
      (\<exists>s. st = Some s \<and> mm = Some pa \<and> st_uid s = 0 \<and> st_gid s = 0
         \<and> st_mode s AND (S_IWGRP OR S_IWOTH) = 0 \<and> sizeof_prop_area \<le> st_size s
         \<and> pa_magic pa = PROP_AREA_MAGIC \<and> pa_version pa = PROP_AREA_VERSION
         \<and> fst sizes' = snd sizes' + sizeof_prop_area))
   \<and> (\<forall>ctx sx fl sizes pa fl' sizes' n.
        map_prop_area_rw None ctx sx True True fl sizes = Some (Some pa, fl', sizes') \<longrightarrow>
        sizes' = (131072, 130944) \<and> area_ok (snd sizes') pa \<and> area_get (snd sizes') pa n = None)"
proof (intro conjI allI impI)
  fix st mm sizes pa sizes'
  assume "map_prop_area True st mm sizes = (Some pa, sizes')"
  then show "\<exists>s. st = Some s \<and> mm = Some pa \<and> st_uid s = 0 \<and> st_gid s = 0
         \<and> st_mode s AND (S_IWGRP OR S_IWOTH) = 0 \<and> sizeof_prop_area \<le> st_size s
         \<and> pa_magic pa = PROP_AREA_MAGIC \<and> pa_version pa = PROP_AREA_VERSION
         \<and> fst sizes' = snd sizes' + sizeof_prop_area"
    by (auto simp: map_prop_area_def map_fd_rw_def split: option.splits if_splits)
next
  fix ctx sx fl sizes pa fl' sizes' n
  assume a: "map_prop_area_rw None ctx sx True True fl sizes = Some (Some pa, fl', sizes')"
  then show s: "sizes' = (131072, 130944)"
    by (auto simp: map_prop_area_rw_def Let_def PA_SIZE_def sizeof_prop_area_def)
  have "pa = prop_area_init PROP_AREA_MAGIC PROP_AREA_VERSION"
    using a by (simp add: map_prop_area_rw_def Let_def)
  then show "area_ok (snd sizes') pa" "area_get (snd sizes') pa n = None"
    by (simp_all add: s area_ok_init area_find_init sizeof_prop_bt_def)
qed

theorem map_prop_area_checked_witness:
  "map_prop_area_rw None None True True True False (0, 0) =
     Some (Some (prop_area_init PROP_AREA_MAGIC PROP_AREA_VERSION), False, 131072, 130944)
   \<and> area_get 130944 (prop_area_init PROP_AREA_MAGIC PROP_AREA_VERSION) ''ro.x'' = None"
proof -
  have r: "map_prop_area_rw None None True True True False (0, 0) =
     Some (Some (prop_area_init PROP_AREA_MAGIC PROP_AREA_VERSION), False, 131072, 130944)"
    by (simp add: map_prop_area_rw_def PA_SIZE_def sizeof_prop_area_def)
  with map_prop_area_checked show ?thesis by (metis snd_conv)
qed

end
