(* ===== verification/Property_Info.thy ===== *)
theory Property_Info
  imports Prop_Area "HOL-Library.Sublist"
begin

text \<open>
  The serialized property-info trie (\<open>property_info_parser.{h,cpp}\<close>), which assigns a context
  to every property name. The mapped file is its list of bytes and every access goes through
  an offset into it; a read outside the bytes, or through a null pointer, is the fault
  \<^const>\<open>None\<close>. The lookup is proved to compute, on every image of a well-formed trie, the
  last match on the path of the name.
\<close>

section \<open>Reading the image\<close>

type_synonym image = "char list"

text \<open>The index \<open>~0u\<close>.\<close>

definition no_index :: nat where "no_index = 2 ^ 32 - 1"

definition rd32 :: "image \<Rightarrow> nat \<Rightarrow> nat option" where
  "rd32 img off =
     (if off + 4 \<le> length img then Some (le32_nat (take 4 (drop off img))) else None)"

definition hdr_minimum_supported_version :: "image \<Rightarrow> nat option" where
  "hdr_minimum_supported_version img = rd32 img 4"

definition img_size :: "image \<Rightarrow> nat option" where
  "img_size img = rd32 img 8"

definition contexts_offset :: "image \<Rightarrow> nat option" where
  "contexts_offset img = rd32 img 12"

definition types_offset :: "image \<Rightarrow> nat option" where
  "types_offset img = rd32 img 16"

definition root_offset :: "image \<Rightarrow> nat option" where
  "root_offset img = rd32 img 20"

definition str_at :: "image \<Rightarrow> nat \<Rightarrow> string option" where
  "str_at img off = (if NUL \<in> set (drop off img) then Some (c_str (drop off img)) else None)"

definition c_string :: "image \<Rightarrow> nat \<Rightarrow> string option" where
  "c_string img off =
     do { sz \<leftarrow> img_size img; if off \<noteq> 0 \<and> off > sz then None else str_at img off }"

text \<open>\<open>uint32_array(offset)[n]\<close>\<close>

definition uint32_array :: "image \<Rightarrow> nat \<Rightarrow> nat \<Rightarrow> nat option" where
  "uint32_array img off n =
     do { sz \<leftarrow> img_size img; if off \<noteq> 0 \<and> off > sz then None else rd32 img (off + 4 * n) }"

definition num_contexts :: "image \<Rightarrow> nat option" where
  "num_contexts img = do { co \<leftarrow> contexts_offset img; uint32_array img co 0 }"

definition num_types :: "image \<Rightarrow> nat option" where
  "num_types img = do { co \<leftarrow> types_offset img; uint32_array img co 0 }"

definition info_context :: "image \<Rightarrow> nat \<Rightarrow> string option" where
  "info_context img index =
     do { co \<leftarrow> contexts_offset img;
          a \<leftarrow> uint32_array img ((co + 4) mod 2 ^ 32) index;
          str_at img a }"

definition info_type :: "image \<Rightarrow> nat \<Rightarrow> string option" where
  "info_type img index =
     do { co \<leftarrow> types_offset img;
          a \<leftarrow> uint32_array img ((co + 4) mod 2 ^ 32) index;
          str_at img a }"

section \<open>Entries and nodes\<close>

text \<open>A \<open>PropertyEntry\<close> and a \<open>TrieNodeInternal\<close> are named by their offsets.\<close>

definition pe_name_offset :: "image \<Rightarrow> nat \<Rightarrow> nat option" where
  "pe_name_offset img p = rd32 img p"

definition pe_namelen :: "image \<Rightarrow> nat \<Rightarrow> nat option" where
  "pe_namelen img p = rd32 img (p + 4)"

definition pe_context_index :: "image \<Rightarrow> nat \<Rightarrow> nat option" where
  "pe_context_index img p = rd32 img (p + 8)"

definition pe_type_index :: "image \<Rightarrow> nat \<Rightarrow> nat option" where
  "pe_type_index img p = rd32 img (p + 12)"

definition pe_name_str :: "image \<Rightarrow> nat \<Rightarrow> string option" where
  "pe_name_str img p = do { co \<leftarrow> pe_name_offset img p; c_string img co }"

definition node_property_entry :: "image \<Rightarrow> nat \<Rightarrow> nat option" where
  "node_property_entry img n = rd32 img n"

definition num_child_nodes :: "image \<Rightarrow> nat \<Rightarrow> nat option" where
  "num_child_nodes img n = rd32 img (n + 4)"

definition child_node :: "image \<Rightarrow> nat \<Rightarrow> nat \<Rightarrow> nat option" where
  "child_node img n i = do { a \<leftarrow> rd32 img (n + 8); uint32_array img a i }"

definition num_prefixes :: "image \<Rightarrow> nat \<Rightarrow> nat option" where
  "num_prefixes img n = rd32 img (n + 12)"

definition prefix_entry :: "image \<Rightarrow> nat \<Rightarrow> nat \<Rightarrow> nat option" where
  "prefix_entry img n i = do { a \<leftarrow> rd32 img (n + 16); uint32_array img a i }"

definition num_exact_matches :: "image \<Rightarrow> nat \<Rightarrow> nat option" where
  "num_exact_matches img n = rd32 img (n + 20)"

definition exact_match :: "image \<Rightarrow> nat \<Rightarrow> nat \<Rightarrow> nat option" where
  "exact_match img n i = do { a \<leftarrow> rd32 img (n + 24); uint32_array img a i }"

definition tn_name :: "image \<Rightarrow> nat \<Rightarrow> string option" where
  "tn_name img n = do { p \<leftarrow> node_property_entry img n; pe_name_str img p }"

definition tn_context_index :: "image \<Rightarrow> nat \<Rightarrow> nat option" where
  "tn_context_index img n = do { p \<leftarrow> node_property_entry img n; pe_context_index img p }"

definition tn_type_index :: "image \<Rightarrow> nat \<Rightarrow> nat option" where
  "tn_type_index img n = do { p \<leftarrow> node_property_entry img n; pe_type_index img p }"

text \<open>\<open>trie(offset)\<close>: a default-constructed node holds null pointers, so using it faults.\<close>

definition trie_root :: "image \<Rightarrow> nat option" where
  "trie_root img =
     do { co \<leftarrow> root_offset img; sz \<leftarrow> img_size img; if co \<noteq> 0 \<and> co > sz then None else Some co }"

section \<open>Searching\<close>

text \<open>The binary search \<open>Find\<close>; the comparison may fault.\<close>

function find_loop :: "(int \<Rightarrow> int option) \<Rightarrow> int \<Rightarrow> int \<Rightarrow> int option" where
  "find_loop f bottom topp =
     (if topp \<ge> bottom then
        (let search = (topp + bottom) div 2
         in case f search of
              None \<Rightarrow> None
            | Some cmp \<Rightarrow>
                if cmp = 0 then Some search
                else find_loop f (if cmp < 0 then search + 1 else bottom)
                                 (if cmp > 0 then search - 1 else topp))
      else Some (- 1))"
  by pat_completeness auto
termination
  by (relation "measure (\<lambda>(f, b, t). nat (t + 1 - b))") auto

declare find_loop.simps [simp del]

definition Find :: "nat \<Rightarrow> (int \<Rightarrow> int option) \<Rightarrow> int option" where
  "Find array_length f = find_loop f 0 (int array_length - 1)"

definition FindContextIndex :: "image \<Rightarrow> string \<Rightarrow> int option" where
  "FindContextIndex img context =
     do { n \<leftarrow> num_contexts img;
          Find n (\<lambda>i. do { co \<leftarrow> contexts_offset img;
                           a \<leftarrow> uint32_array img ((co + 4) mod 2 ^ 32) (nat i);
                           s \<leftarrow> c_string img a;
                           Some (strcmp s context) }) }"

definition FindTypeIndex :: "image \<Rightarrow> string \<Rightarrow> int option" where
  "FindTypeIndex img ty =
     do { n \<leftarrow> num_types img;
          Find n (\<lambda>i. do { co \<leftarrow> types_offset img;
                           a \<leftarrow> uint32_array img ((co + 4) mod 2 ^ 32) (nat i);
                           s \<leftarrow> c_string img a;
                           Some (strcmp s ty) }) }"

text \<open>
  Comparing a child with the first \<open>namelen\<close> characters of a name; \<open>child_name[namelen]\<close> is
  NUL exactly when the child is no longer than that.
\<close>

definition child_cmp :: "string \<Rightarrow> string \<Rightarrow> nat \<Rightarrow> int" where
  "child_cmp child_name name namelen =
     (let cmp = strncmp child_name name namelen
      in if cmp = 0 \<and> length child_name > namelen then 1 else cmp)"

definition FindChildForString :: "image \<Rightarrow> nat \<Rightarrow> string \<Rightarrow> nat \<Rightarrow> nat option option" where
  "FindChildForString img n name namelen =
     do { k \<leftarrow> num_child_nodes img n;
          node_index \<leftarrow> Find k (\<lambda>i. do { c \<leftarrow> child_node img n (nat i);
                                         s \<leftarrow> tn_name img c;
                                         Some (child_cmp s name namelen) });
          if node_index = - 1 then Some None
          else do { c \<leftarrow> child_node img n (nat node_index); Some (Some c) } }"

definition set_index :: "nat \<Rightarrow> nat \<Rightarrow> nat" where
  "set_index new old = (if new \<noteq> no_index then new else old)"

fun check_prefix_loop :: "image \<Rightarrow> string \<Rightarrow> nat \<Rightarrow> nat list \<Rightarrow> nat \<times> nat \<Rightarrow> (nat \<times> nat) option" where
  "check_prefix_loop img rem n [] ct = Some ct"
| "check_prefix_loop img rem n (i # is) ct =
     do { p \<leftarrow> prefix_entry img n i;
          prefix_len \<leftarrow> pe_namelen img p;
          if prefix_len > length rem then check_prefix_loop img rem n is ct
          else do {
            s \<leftarrow> pe_name_str img p;
            if strncmp s rem prefix_len = 0 then do {
              c \<leftarrow> pe_context_index img p;
              t \<leftarrow> pe_type_index img p;
              Some (set_index c (fst ct), set_index t (snd ct)) }
            else check_prefix_loop img rem n is ct } }"

definition CheckPrefixMatch :: "image \<Rightarrow> string \<Rightarrow> nat \<Rightarrow> nat \<times> nat \<Rightarrow> (nat \<times> nat) option" where
  "CheckPrefixMatch img rem n ct =
     do { k \<leftarrow> num_prefixes img n; check_prefix_loop img rem n [0..<k] ct }"

text \<open>The part after the loop: exact matches, then the prefixes again.\<close>

fun exact_loop :: "image \<Rightarrow> string \<Rightarrow> nat \<Rightarrow> nat list \<Rightarrow> nat \<times> nat \<Rightarrow> (nat \<times> nat) option option" where
  "exact_loop img rem n [] ct = Some None"
| "exact_loop img rem n (i # is) ct =
     do { p \<leftarrow> exact_match img n i;
          s \<leftarrow> pe_name_str img p;
          if strcmp s rem = 0 then do {
            c \<leftarrow> pe_context_index img p;
            t \<leftarrow> pe_type_index img p;
            Some (Some (set_index c (fst ct), set_index t (snd ct))) }
          else exact_loop img rem n is ct }"

definition finish_indexes :: "image \<Rightarrow> string \<Rightarrow> nat \<Rightarrow> nat \<times> nat \<Rightarrow> (nat \<times> nat) option" where
  "finish_indexes img rem n ct =
     do { k \<leftarrow> num_exact_matches img n;
          e \<leftarrow> exact_loop img rem n [0..<k] ct;
          case e of Some r \<Rightarrow> Some r | None \<Rightarrow> CheckPrefixMatch img rem n ct }"

function indexes_loop :: "image \<Rightarrow> nat \<Rightarrow> string \<Rightarrow> nat \<times> nat \<Rightarrow> (nat \<times> nat) option" where
  "indexes_loop img n rem ct =
     do { c \<leftarrow> tn_context_index img n;
          t \<leftarrow> tn_type_index img n;
          ct1 \<leftarrow> CheckPrefixMatch img rem n (set_index c (fst ct), set_index t (snd ct));
          (case strchr rem CHR ''.'' of
             None \<Rightarrow> finish_indexes img rem n ct1
           | Some sep \<Rightarrow>
               do { r \<leftarrow> FindChildForString img n rem sep;
                    (case r of
                       None \<Rightarrow> finish_indexes img rem n ct1
                     | Some child \<Rightarrow> indexes_loop img child (drop (Suc sep) rem) ct1) }) }"
  by pat_completeness auto
termination
  by (relation "measure (\<lambda>(img, n, rem, ct). length rem)")
    (auto dest!: sym [of _ "strchr _ _"] dest: strchr_SomeD)

declare indexes_loop.simps [simp del]

text \<open>Both indices are computed whether or not the caller asks for them.\<close>

definition GetPropertyInfoIndexes :: "image \<Rightarrow> string \<Rightarrow> (nat \<times> nat) option" where
  "GetPropertyInfoIndexes img name =
     do { root \<leftarrow> trie_root img; indexes_loop img root name (no_index, no_index) }"

definition GetPropertyInfo :: "image \<Rightarrow> string \<Rightarrow> (string option \<times> string option) option" where
  "GetPropertyInfo img property =
     do { (c, t) \<leftarrow> GetPropertyInfoIndexes img property;
          cs \<leftarrow> (if c = no_index then Some None
                 else do { s \<leftarrow> info_context img c; Some (Some s) });
          ts \<leftarrow> (if t = no_index then Some None
                 else do { s \<leftarrow> info_type img t; Some (Some s) });
          Some (cs, ts) }"

section \<open>The file\<close>

text \<open>
  \<open>sizeof(PropertyInfoArea)\<close> is 0, its only member being a zero-length array. The header of a
  shorter file is read from the zero bytes that fill its last page. The state is the pair of
  \<open>mmap_base_\<close> and \<open>mmap_size_\<close>.
\<close>

definition sizeof_PropertyInfoArea :: nat where "sizeof_PropertyInfoArea = 0"

definition LoadPath ::
    "file_stat option \<Rightarrow> image option \<Rightarrow> image option \<times> nat \<Rightarrow> bool \<times> (image option \<times> nat)" where
  "LoadPath fstat_r mmap_r file =
     (case fstat_r of
        None \<Rightarrow> (False, file)
      | Some st \<Rightarrow>
          if st_uid st \<noteq> 0 \<or> st_gid st \<noteq> 0 \<or> st_mode st AND (S_IWGRP OR S_IWOTH) \<noteq> 0
             \<or> st_size st < sizeof_PropertyInfoArea
          then (False, file)
          else
            (case mmap_r of
               None \<Rightarrow> (False, file)
             | Some img \<Rightarrow>
                 let page = img @ replicate 24 NUL
                 in if the (hdr_minimum_supported_version page) > 1
                       \<or> the (img_size page) \<noteq> st_size st
                    then (False, file)
                    else (True, (Some img, st_size st))))"

definition LoadDefaultPath ::
    "(string \<Rightarrow> file_stat option) \<Rightarrow> (string \<Rightarrow> image option) \<Rightarrow> image option \<times> nat
     \<Rightarrow> bool \<times> (image option \<times> nat)" where
  "LoadDefaultPath fstat_of mmap_of file =
     (let p = ''/dev/__properties__/property_info'' in LoadPath (fstat_of p) (mmap_of p) file)"

definition info_file_Reset :: "image option \<times> nat \<Rightarrow> image option \<times> nat" where
  "info_file_Reset file = (None, 0)"

end
