(* ===== verification/Property_Info_Correct.thy ===== *)
theory Property_Info_Correct
  imports Property_Info
begin

text \<open>
  Correctness of the property-info lookup: the binary search finds what a linear search finds,
  and on every byte image of a well-formed trie the lookup of a name terminates without a
  fault and returns the indices of the last match on the path of the name.
\<close>

section \<open>The binary search\<close>

lemma find_loop_correct:
  assumes "\<And>i. 0 \<le> i \<Longrightarrow> i < n \<Longrightarrow> f i = Some (g i)"
    and up: "\<And>i j. 0 \<le> i \<Longrightarrow> i \<le> j \<Longrightarrow> j < n \<Longrightarrow> 0 < g i \<Longrightarrow> 0 < g j"
    and down: "\<And>i j. 0 \<le> i \<Longrightarrow> i \<le> j \<Longrightarrow> j < n \<Longrightarrow> g j < 0 \<Longrightarrow> g i < 0"
    and "0 \<le> bottom" and "topp < n"
  shows "\<exists>r. find_loop f bottom topp = Some r
    \<and> (r = - 1 \<and> (\<forall>i. bottom \<le> i \<and> i \<le> topp \<longrightarrow> g i \<noteq> 0)
       \<or> bottom \<le> r \<and> r \<le> topp \<and> g r = 0)"
  using assms(1,4,5)
proof (induction f bottom topp rule: find_loop.induct)
  case (1 f bottom topp)
  show ?case
  proof (cases "topp \<ge> bottom")
    case False
    then show ?thesis by (simp add: find_loop.simps [of f bottom topp])
  next
    case True
    define s where "s = (topp + bottom) div 2"
    have s: "bottom \<le> s" "s \<le> topp" "0 \<le> s" "s < n" using True "1.prems" by (auto simp: s_def)
    then have fs: "f s = Some (g s)" using "1.prems"(1) by blast
    have unf: "find_loop f bottom topp = (if g s = 0 then Some s
        else find_loop f (if g s < 0 then s + 1 else bottom) (if g s > 0 then s - 1 else topp))"
      using True fs by (simp add: find_loop.simps [of f bottom topp] s_def Let_def)
    show ?thesis
    proof (cases "g s = 0")
      case True
      then show ?thesis using unf s by auto
    next
      case ne: False
      have "\<exists>r. find_loop f (if g s < 0 then s + 1 else bottom) (if g s > 0 then s - 1 else topp) = Some r
        \<and> (r = - 1 \<and> (\<forall>i. (if g s < 0 then s + 1 else bottom) \<le> i
              \<and> i \<le> (if g s > 0 then s - 1 else topp) \<longrightarrow> g i \<noteq> 0)
           \<or> (if g s < 0 then s + 1 else bottom) \<le> r
              \<and> r \<le> (if g s > 0 then s - 1 else topp) \<and> g r = 0)"
        using "1.IH" [OF True s_def fs ne "1.prems"(1)] "1.prems" s by auto
      then obtain r where r: "find_loop f (if g s < 0 then s + 1 else bottom) (if g s > 0 then s - 1 else topp) = Some r"
        "r = - 1 \<and> (\<forall>i. (if g s < 0 then s + 1 else bottom) \<le> i
              \<and> i \<le> (if g s > 0 then s - 1 else topp) \<longrightarrow> g i \<noteq> 0)
           \<or> (if g s < 0 then s + 1 else bottom) \<le> r
              \<and> r \<le> (if g s > 0 then s - 1 else topp) \<and> g r = 0"
        by blast
      have "g i \<noteq> 0" if "bottom \<le> i" "i \<le> s" "g s < 0" for i
        using down [of i s] that s "1.prems" by auto
      moreover have "g i \<noteq> 0" if "s \<le> i" "i \<le> topp" "g s > 0" for i
        using up [of s i] that s "1.prems" by auto
      ultimately have "r = - 1 \<and> (\<forall>i. bottom \<le> i \<and> i \<le> topp \<longrightarrow> g i \<noteq> 0)
          \<or> bottom \<le> r \<and> r \<le> topp \<and> g r = 0"
        using r(2) s ne by (smt (verit))
      then show ?thesis using unf r(1) ne by auto
    qed
  qed
qed

text \<open>Searching a strictly sorted list of strings for one of them.\<close>

lemma Find_sorted:
  assumes f: "\<And>i. i < length xs \<Longrightarrow> f (int i) = Some (g (xs ! i))"
    and lt: "\<And>x. g x < 0 \<longleftrightarrow> x < (p :: string)" and eq: "\<And>x. g x = 0 \<longleftrightarrow> x = p"
    and s: "sorted_wrt (<) xs"
  shows "\<exists>r. Find (length xs) f = Some r
    \<and> (r = - 1 \<and> p \<notin> set xs \<or> 0 \<le> r \<and> nat r < length xs \<and> xs ! nat r = p)"
proof -
  let ?g = "\<lambda>i. g (xs ! nat i)"
  have gt: "0 < g x \<longleftrightarrow> p < x" for x using lt [of x] eq [of x] by (metis linorder_cases not_less_iff_gr_or_eq)
  have mono: "xs ! i \<le> xs ! j" if "i \<le> j" "j < length xs" for i j
    using sorted_wrt_nth_less [OF s, of i j] that by (cases "i = j") auto
  have "\<exists>r. find_loop f 0 (int (length xs) - 1) = Some r
    \<and> (r = - 1 \<and> (\<forall>i. 0 \<le> i \<and> i \<le> int (length xs) - 1 \<longrightarrow> ?g i \<noteq> 0)
       \<or> 0 \<le> r \<and> r \<le> int (length xs) - 1 \<and> ?g r = 0)"
  proof (rule find_loop_correct [where n = "int (length xs)"])
    show "f i = Some (?g i)" if "0 \<le> i" "i < int (length xs)" for i
      using f [of "nat i"] that by (simp add: nat_less_iff)
    show "0 < ?g j" if "0 \<le> i" "i \<le> j" "j < int (length xs)" "0 < ?g i" for i j
      using mono [of "nat i" "nat j"] that gt by (simp add: nat_less_iff nat_mono)
    show "?g i < 0" if "0 \<le> i" "i \<le> j" "j < int (length xs)" "?g j < 0" for i j
      using mono [of "nat i" "nat j"] that lt by (simp add: nat_less_iff nat_mono)
  qed auto
  then obtain r where r: "Find (length xs) f = Some r"
    "r = - 1 \<and> (\<forall>i. 0 \<le> i \<and> i \<le> int (length xs) - 1 \<longrightarrow> ?g i \<noteq> 0)
       \<or> 0 \<le> r \<and> r \<le> int (length xs) - 1 \<and> ?g r = 0"
    unfolding Find_def by blast
  have "p \<notin> set xs" if "\<forall>i. 0 \<le> i \<and> i \<le> int (length xs) - 1 \<longrightarrow> ?g i \<noteq> 0"
  proof
    assume "p \<in> set xs"
    then obtain k where "k < length xs" "xs ! k = p" by (auto simp: in_set_conv_nth)
    then show False using that [rule_format, of "int k"] eq by auto
  qed
  note absent = this
  from r(2) show ?thesis
  proof (elim disjE conjE)
    assume "0 \<le> r" "r \<le> int (length xs) - 1" "?g r = 0"
    then have "nat r < length xs" "xs ! nat r = p" using eq by auto
    then show ?thesis using r(1) \<open>0 \<le> r\<close> by blast
  qed (use r(1) absent in blast)
qed

section \<open>Comparing with a piece of the name\<close>

lemma less_append_iff:
  "length u = length v \<Longrightarrow> u \<noteq> v \<Longrightarrow> u @ r < v \<longleftrightarrow> u < (v :: string)"
  by (induction u v rule: list_induct2) auto

lemma less_append_self: "r \<noteq> [] \<Longrightarrow> (u :: string) < u @ r"
  by (induction u) (auto simp: neq_Nil_conv)

lemma child_cmp_piece:
  assumes "k \<le> length name"
  shows "child_cmp s name k = 0 \<longleftrightarrow> s = take k name"
    and "child_cmp s name k < 0 \<longleftrightarrow> s < take k name"
proof -
  let ?p = "take k name" and ?u = "take k s"
  have s: "s = ?u @ drop k s" by simp
  have "child_cmp s name k = 0 \<longleftrightarrow> s = ?p" and "child_cmp s name k < 0 \<longleftrightarrow> s < ?p" if "k < length s"
  proof -
    have len: "length ?u = length ?p" using that assms by simp
    have neq: "s \<noteq> ?p" using that assms by (metis length_take min.absorb2 nat_less_le)
    have "s < ?p \<longleftrightarrow> ?u < ?p" if "?u \<noteq> ?p"
      using less_append_iff [OF len that, of "drop k s"] s by simp
    moreover have "\<not> s < ?p" if "?u = ?p"
    proof -
      have "drop k s \<noteq> []" using \<open>k < length s\<close> by simp
      then have "?p < s" using less_append_self [of "drop k s" ?u] s that by simp
      then show ?thesis by simp
    qed
    ultimately show "child_cmp s name k = 0 \<longleftrightarrow> s = ?p" and "child_cmp s name k < 0 \<longleftrightarrow> s < ?p"
      using that neq by (auto simp: child_cmp_def Let_def strncmp_take strcmp_less_0_iff)
  qed
  moreover have "child_cmp s name k = 0 \<longleftrightarrow> s = ?p" and "child_cmp s name k < 0 \<longleftrightarrow> s < ?p"
    if "\<not> k < length s"
    using that by (auto simp: child_cmp_def Let_def strncmp_take strcmp_less_0_iff)
  ultimately show "child_cmp s name k = 0 \<longleftrightarrow> s = ?p" "child_cmp s name k < 0 \<longleftrightarrow> s < ?p"
    by blast+
qed

section \<open>The abstract trie\<close>

record pentry =
  en_name :: string
  en_context :: nat
  en_type :: nat

datatype ptrie = PNode (pn_entry: pentry) (pn_children: "ptrie list") (pn_prefixes: "pentry list")
  (pn_exacts: "pentry list")

definition entry_at :: "image \<Rightarrow> nat \<Rightarrow> pentry \<Rightarrow> bool" where
  "entry_at img p e \<longleftrightarrow>
     pe_name_str img p = Some (en_name e) \<and> pe_namelen img p = Some (length (en_name e))
     \<and> pe_context_index img p = Some (en_context e) \<and> pe_type_index img p = Some (en_type e)"

definition ent_opt :: "image \<Rightarrow> nat option \<Rightarrow> pentry \<Rightarrow> bool" where
  "ent_opt img po e \<longleftrightarrow> (case po of None \<Rightarrow> False | Some p \<Rightarrow> entry_at img p e)"

fun node_at :: "image \<Rightarrow> nat \<Rightarrow> ptrie \<Rightarrow> bool" where
  "node_at img n (PNode e cs ps xs) \<longleftrightarrow>
     ent_opt img (node_property_entry img n) e
     \<and> num_child_nodes img n = Some (length cs)
     \<and> list_all2 (\<lambda>i c. case child_node img n i of None \<Rightarrow> False | Some m \<Rightarrow> node_at img m c)
         [0..<length cs] cs
     \<and> num_prefixes img n = Some (length ps)
     \<and> list_all2 (\<lambda>i. ent_opt img (prefix_entry img n i)) [0..<length ps] ps
     \<and> num_exact_matches img n = Some (length xs)
     \<and> list_all2 (\<lambda>i. ent_opt img (exact_match img n i)) [0..<length xs] xs"

definition pn_name :: "ptrie \<Rightarrow> string" where
  "pn_name t = en_name (pn_entry t)"

fun wf_ptrie :: "ptrie \<Rightarrow> bool" where
  "wf_ptrie (PNode e cs ps xs) \<longleftrightarrow>
     sorted_wrt (<) (map pn_name cs) \<and> (\<forall>c \<in> set cs. wf_ptrie c)"

text \<open>The child for the piece before the next dot, with the rest of the name.\<close>

definition next_child :: "ptrie list \<Rightarrow> string \<Rightarrow> (ptrie \<times> string) option" where
  "next_child cs rem =
     (case strchr rem CHR ''.'' of
        None \<Rightarrow> None
      | Some i \<Rightarrow> map_option (\<lambda>c. (c, drop (Suc i) rem)) (List.find (\<lambda>c. pn_name c = take i rem) cs))"

text \<open>The entries that match a name, the most specific last.\<close>

function matches :: "ptrie \<Rightarrow> string \<Rightarrow> pentry list" where
  "matches (PNode e cs ps xs) rem =
     e # (case List.find (\<lambda>p. prefix (en_name p) rem) ps of None \<Rightarrow> [] | Some p \<Rightarrow> [p])
     @ (case next_child cs rem of
          None \<Rightarrow> (case List.find (\<lambda>x. en_name x = rem) xs of None \<Rightarrow> [] | Some x \<Rightarrow> [x])
        | Some (c, rest) \<Rightarrow> matches c rest)"
  by pat_completeness auto
termination
  by (relation "measure (\<lambda>(t, rem). length rem)")
    (auto simp: next_child_def split: option.splits dest: strchr_SomeD)

text \<open>The last index that is given.\<close>

definition pick :: "(pentry \<Rightarrow> nat) \<Rightarrow> pentry list \<Rightarrow> nat \<Rightarrow> nat" where
  "pick sel es d = foldl (\<lambda>a e. set_index (sel e) a) d es"

lemma pick_simps [simp]:
  "pick sel [] d = d" "pick sel (e # es) d = pick sel es (set_index (sel e) d)"
  "pick sel (es @ fs) d = pick sel fs (pick sel es d)"
  by (simp_all add: pick_def)

lemma set_index_idem [simp]: "set_index a (set_index a b) = set_index a b"
  by (simp add: set_index_def)

lemma pick_last: "sel e \<noteq> no_index \<Longrightarrow> pick sel (es @ [e]) d = sel e"
  by (simp add: set_index_def)

definition pick2 :: "pentry list \<Rightarrow> nat \<times> nat \<Rightarrow> nat \<times> nat" where
  "pick2 es ct = (pick en_context es (fst ct), pick en_type es (snd ct))"

lemma pick2_simps [simp]:
  "pick2 [] ct = ct" "pick2 (es @ fs) ct = pick2 fs (pick2 es ct)"
  "pick2 (e # es) ct = pick2 es (set_index (en_context e) (fst ct), set_index (en_type e) (snd ct))"
  by (simp_all add: pick2_def)

definition opt_list :: "'a option \<Rightarrow> 'a list" where
  "opt_list z = (case z of None \<Rightarrow> [] | Some x \<Rightarrow> [x])"

lemma opt_list_simps [simp]: "opt_list None = []" "opt_list (Some x) = [x]"
  by (simp_all add: opt_list_def)

lemma matches_unfold:
  "matches (PNode e cs ps xs) rem =
     e # opt_list (List.find (\<lambda>p. prefix (en_name p) rem) ps)
     @ (case next_child cs rem of
          None \<Rightarrow> opt_list (List.find (\<lambda>x. en_name x = rem) xs)
        | Some (c, rest) \<Rightarrow> matches c rest)"
  by (simp only: matches.simps opt_list_def)

declare matches.simps [simp del]

section \<open>The walk\<close>

lemma strncmp_prefix: "strncmp s rem (length s) = 0 \<longleftrightarrow> prefix s rem" if "length s \<le> length rem"
  using that by (simp add: strncmp_eq_0_iff prefix_def) (metis append_eq_conv_conj append_take_drop_id)

lemma check_prefix_loop_ok:
  "list_all2 (\<lambda>i. ent_opt img (prefix_entry img n i)) is ps \<Longrightarrow>
   check_prefix_loop img rem n is ct = Some (pick2 (opt_list (List.find (\<lambda>p. prefix (en_name p) rem) ps)) ct)"
proof (induction "is" ps rule: list_all2_induct)
  case (Cons i "is" p ps)
  then obtain a where a: "prefix_entry img n i = Some a" "entry_at img a p"
    by (auto simp: ent_opt_def split: option.splits)
  show ?case
  proof (cases "length (en_name p) > length rem")
    case True
    then have "\<not> prefix (en_name p) rem" using prefix_length_le by fastforce
    with a True Cons.IH show ?thesis by (simp add: entry_at_def)
  next
    case False
    then show ?thesis using a Cons.IH by (simp add: entry_at_def strncmp_prefix)
  qed
qed simp

lemma exact_loop_ok:
  "list_all2 (\<lambda>i. ent_opt img (exact_match img n i)) is xs \<Longrightarrow>
   exact_loop img rem n is ct =
     Some (map_option (\<lambda>x. pick2 [x] ct) (List.find (\<lambda>x. en_name x = rem) xs))"
proof (induction "is" xs rule: list_all2_induct)
  case (Cons i "is" p ps)
  then obtain a where "exact_match img n i = Some a" "entry_at img a p"
    by (auto simp: ent_opt_def split: option.splits)
  then show ?case using Cons.IH by (simp add: entry_at_def)
qed simp

lemma CheckPrefixMatch_ok:
  assumes "node_at img n (PNode e cs ps xs)"
  shows "CheckPrefixMatch img rem n ct =
     Some (pick2 (opt_list (List.find (\<lambda>p. prefix (en_name p) rem) ps)) ct)"
  using assms check_prefix_loop_ok [of img n "[0..<length ps]" ps rem ct]
  by (simp add: CheckPrefixMatch_def)

lemma finish_indexes_ok:
  assumes "node_at img n (PNode e cs ps xs)"
    and "ct = pick2 (opt_list (List.find (\<lambda>p. prefix (en_name p) rem) ps)) ct0"
  shows "finish_indexes img rem n ct = Some (pick2 (opt_list (List.find (\<lambda>x. en_name x = rem) xs)) ct)"
proof -
  have "pick2 (opt_list z) (pick2 (opt_list z) ct0) = pick2 (opt_list z) ct0" for z
    by (cases z) simp_all
  then show ?thesis
    using assms exact_loop_ok [of img n "[0..<length xs]" xs rem ct]
      CheckPrefixMatch_ok [OF assms(1), of rem ct]
    by (cases "List.find (\<lambda>x. en_name x = rem) xs") (simp_all add: finish_indexes_def)
qed


lemma find_unique:
  assumes "i < length xs" and "xs ! i = x" and "sorted_wrt (<) (map h xs)" and "h x = (p :: string)"
  shows "List.find (\<lambda>x. h x = p) xs = Some x"
proof -
  have "h (xs ! j) \<noteq> p" if "j < i" for j
    using sorted_wrt_nth_less [OF assms(3), of j i] that assms by auto
  then show ?thesis using assms by (auto simp: find_Some_iff)
qed

lemma FindChildForString_ok:
  assumes n: "node_at img n (PNode e cs ps xs)" and wf: "sorted_wrt (<) (map pn_name cs)"
    and sep: "sep \<le> length rem"
  shows "case List.find (\<lambda>c. pn_name c = take sep rem) cs of
     None \<Rightarrow> FindChildForString img n rem sep = Some None
   | Some c \<Rightarrow> \<exists>m. FindChildForString img n rem sep = Some (Some m) \<and> node_at img m c"
proof -
  have ch: "\<exists>m. child_node img n i = Some m \<and> node_at img m (cs ! i) \<and> tn_name img m = Some (pn_name (cs ! i))"
    if "i < length cs" for i
  proof -
    from n that obtain m where m: "child_node img n i = Some m" "node_at img m (cs ! i)"
      by (auto simp: list_all2_conv_all_nth split: option.splits)
    from m(2) have "tn_name img m = Some (pn_name (cs ! i))"
      by (cases "cs ! i") (auto simp: tn_name_def pn_name_def ent_opt_def entry_at_def split: option.splits)
    with m show ?thesis by blast
  qed
  let ?f = "\<lambda>i. do { c \<leftarrow> child_node img n (nat i); s \<leftarrow> tn_name img c; Some (child_cmp s rem sep) }"
  have "\<exists>r. Find (length (map pn_name cs)) ?f = Some r \<and>
      (r = - 1 \<and> take sep rem \<notin> set (map pn_name cs)
       \<or> 0 \<le> r \<and> nat r < length (map pn_name cs) \<and> map pn_name cs ! nat r = take sep rem)"
  proof (rule Find_sorted [where g = "\<lambda>s. child_cmp s rem sep"])
    fix i assume "i < length (map pn_name cs)"
    then show "?f (int i) = Some (child_cmp (map pn_name cs ! i) rem sep)"
      using ch [of i] by auto
  qed (use wf child_cmp_piece [OF sep] in auto)
  then obtain r where r: "Find (length cs) ?f = Some r"
    "r = - 1 \<and> take sep rem \<notin> set (map pn_name cs)
       \<or> 0 \<le> r \<and> nat r < length cs \<and> map pn_name cs ! nat r = take sep rem"
    by auto
  have unf: "FindChildForString img n rem sep = (if r = - 1 then Some None
      else do { c \<leftarrow> child_node img n (nat r); Some (Some c) })"
    using n r(1) by (simp add: FindChildForString_def)
  from r(2) show ?thesis
  proof (elim disjE conjE)
    assume h: "r = - 1" "take sep rem \<notin> set (map pn_name cs)"
    then have "List.find (\<lambda>c. pn_name c = take sep rem) cs = None"
      by (force simp: find_None_iff image_iff)
    then show ?thesis using unf h by simp
  next
    assume h: "0 \<le> r" "nat r < length cs" "map pn_name cs ! nat r = take sep rem"
    then have "List.find (\<lambda>c. pn_name c = take sep rem) cs = Some (cs ! nat r)"
      using find_unique [OF h(2) refl wf] by simp
    then show ?thesis using unf h ch [OF h(2)] by auto
  qed
qed

lemma indexes_loop_ok:
  "node_at img n t \<Longrightarrow> wf_ptrie t \<Longrightarrow> indexes_loop img n rem ct = Some (pick2 (matches t rem) ct)"
proof (induction t rem arbitrary: n ct rule: matches.induct)
  case (1 e cs ps xs rem)
  let ?ct1 = "pick2 (opt_list (List.find (\<lambda>p. prefix (en_name p) rem) ps))
      (set_index (en_context e) (fst ct), set_index (en_type e) (snd ct))"
  have e: "tn_context_index img n = Some (en_context e)" "tn_type_index img n = Some (en_type e)"
    using "1.prems"(1)
    by (auto simp: tn_context_index_def tn_type_index_def ent_opt_def entry_at_def split: option.splits)
  note p = CheckPrefixMatch_ok [OF "1.prems"(1)] and fin = finish_indexes_ok [OF "1.prems"(1) refl]
  have srt: "sorted_wrt (<) (map pn_name cs)" using "1.prems"(2) by simp
  show ?case
  proof (cases "strchr rem CHR ''.''")
    case None
    then show ?thesis
      by (simp add: indexes_loop.simps [of img n rem] e p fin matches_unfold next_child_def)
  next
    case (Some sep)
    then have "sep \<le> length rem" using strchr_SomeD by fastforce
    note fc = FindChildForString_ok [OF "1.prems"(1) srt this]
    show ?thesis
    proof (cases "List.find (\<lambda>c. pn_name c = take sep rem) cs")
      case nf: None
      then show ?thesis using fc Some
        by (simp add: indexes_loop.simps [of img n rem] e p fin matches_unfold next_child_def)
    next
      case (Some c)
      note sp = \<open>strchr rem CHR ''.'' = Some sep\<close>
      from fc Some obtain m where m: "FindChildForString img n rem sep = Some (Some m)" "node_at img m c"
        by auto
      have nc: "next_child cs rem = Some (c, drop (Suc sep) rem)"
        using sp Some by (simp add: next_child_def)
      have "c \<in> set cs" using Some by (auto simp: find_Some_iff)
      then have "wf_ptrie c" using "1.prems"(2) by simp
      then have "indexes_loop img m (drop (Suc sep) rem) ?ct1 = Some (pick2 (matches c (drop (Suc sep) rem)) ?ct1)"
        using "1.IH" [OF nc refl m(2)] by simp
      then show ?thesis
        by (simp add: indexes_loop.simps [of img n rem] e p sp m(1) matches_unfold nc)
    qed
  qed
qed

section \<open>Properties\<close>

text \<open>
  Property C10. On the byte image of a well-formed trie, \<open>GetPropertyInfoIndexes\<close> terminates
  without reading outside the image and returns, for the context and for the type, the index
  given by the last entry on the path of the name that has one: nodes and their dot-less
  prefixes from the root down, an exact match last, and \<open>~0u\<close> if no entry has one.
\<close>

theorem GetPropertyInfoIndexes_correct:
  assumes "trie_root img = Some n" and "node_at img n t" and "wf_ptrie t"
  shows "GetPropertyInfoIndexes img name =
    Some (pick en_context (matches t name) no_index, pick en_type (matches t name) no_index)"
  using assms indexes_loop_ok [OF assms(2,3)] by (simp add: GetPropertyInfoIndexes_def pick2_def)

text \<open>Images given by words and strings.\<close>

lemma length_words [simp]: "length (concat (map le32 ws)) = 4 * length ws"
  by (induction ws) auto

lemma take_drop_words: "i < length ws \<Longrightarrow> take 4 (drop (4 * i) (concat (map le32 ws) @ r)) = le32 (ws ! i)"
proof (induction ws arbitrary: i)
  case (Cons w ws)
  show ?case
  proof (cases i)
    case (Suc j)
    then show ?thesis using Cons by simp
  qed simp
qed simp

definition words_image :: "nat list \<Rightarrow> char list \<Rightarrow> image" where
  "words_image ws r = concat (map le32 ws) @ r"

lemma rd32_words:
  "off mod 4 = 0 \<Longrightarrow> off div 4 < length ws \<Longrightarrow>
   rd32 (words_image ws r) off = Some (ws ! (off div 4) mod 2 ^ 32)"
  using take_drop_words [of "off div 4" ws r] by (auto simp: rd32_def words_image_def)

lemma str_at_words:
  "4 * length ws \<le> off \<Longrightarrow>
   str_at (words_image ws r) off =
     (let s = drop (off - 4 * length ws) r in if NUL \<in> set s then Some (c_str s) else None)"
  by (simp add: str_at_def words_image_def)

definition sample_image :: image where
  "sample_image = words_image
      [1, 1, 165, 24, 32, 36, 1, 159, 0, 100, 1, 64, 0, 0, 0, 0, 68, 116, 0, 0, 0, 0, 1, 96, 132,
       148, 0, no_index, no_index, 149, 2, no_index, no_index, 152, 6, 0, no_index]
     (NUL # ''ro'' @ NUL # ''secure'' @ NUL # ''u:sec'' @ [NUL])"

lemmas image_simps = rd32_words str_at_words c_str_def img_size_def contexts_offset_def
  root_offset_def trie_root_def c_string_def uint32_array_def num_contexts_def pe_name_offset_def
  pe_namelen_def pe_context_index_def pe_type_index_def pe_name_str_def node_property_entry_def
  num_child_nodes_def child_node_def num_prefixes_def num_exact_matches_def exact_match_def
  entry_at_def ent_opt_def no_index_def

definition sample_trie :: ptrie where
  "sample_trie = PNode \<lparr>en_name = [], en_context = no_index, en_type = no_index\<rparr>
     [PNode \<lparr>en_name = ''ro'', en_context = no_index, en_type = no_index\<rparr> [] []
        [\<lparr>en_name = ''secure'', en_context = 0, en_type = no_index\<rparr>]] [] []"

lemma sample_node: "trie_root sample_image = Some 36 \<and> node_at sample_image 36 sample_trie"
  by (simp add: sample_image_def sample_trie_def image_simps)

theorem GetPropertyInfoIndexes_correct_witness:
  "GetPropertyInfoIndexes sample_image ''ro.secure'' = Some (0, no_index)"
proof -
  have "wf_ptrie sample_trie" by (simp add: sample_trie_def)
  then have "GetPropertyInfoIndexes sample_image ''ro.secure'' =
      Some (pick en_context (matches sample_trie ''ro.secure'') no_index,
            pick en_type (matches sample_trie ''ro.secure'') no_index)"
    using GetPropertyInfoIndexes_correct [of sample_image 36 sample_trie] sample_node by blast
  moreover have "matches sample_trie ''ro.secure'' =
      [\<lparr>en_name = [], en_context = no_index, en_type = no_index\<rparr>,
       \<lparr>en_name = ''ro'', en_context = no_index, en_type = no_index\<rparr>,
       \<lparr>en_name = ''secure'', en_context = 0, en_type = no_index\<rparr>]"
    by (simp add: sample_trie_def matches_unfold next_child_def pn_name_def)
  ultimately show ?thesis by (simp add: set_index_def no_index_def)
qed

text \<open>
  Where the context strings of the image are strictly sorted, the binary search
  \<open>FindContextIndex\<close> returns the position of the context asked for, and \<open>-1\<close> exactly when it
  is not among them.
\<close>

theorem FindContextIndex_correct:
  assumes "num_contexts img = Some (length cs)" and "contexts_offset img = Some co"
    and "\<And>i. i < length cs \<Longrightarrow>
           Option.bind (uint32_array img ((co + 4) mod 2 ^ 32) i) (c_string img) = Some (cs ! i)"
    and "sorted_wrt (<) cs"
  shows "\<exists>r. FindContextIndex img context = Some r
    \<and> (r = - 1 \<and> context \<notin> set cs \<or> 0 \<le> r \<and> nat r < length cs \<and> cs ! nat r = context)"
proof -
  let ?f = "\<lambda>i. do { co \<leftarrow> contexts_offset img; a \<leftarrow> uint32_array img ((co + 4) mod 2 ^ 32) (nat i);
      s \<leftarrow> c_string img a; Some (strcmp s context) }"
  have "?f (int i) = Some (strcmp (cs ! i) context)" if "i < length cs" for i
    using assms(2) assms(3) [OF that] by (auto simp: bind_eq_Some_conv)
  then show ?thesis
    using Find_sorted [where f = ?f and g = "\<lambda>s. strcmp s context" and p = "context" and xs = cs]
      assms by (simp add: FindContextIndex_def strcmp_less_0_iff)
qed

theorem FindContextIndex_correct_witness:
  "FindContextIndex sample_image ''u:sec'' \<noteq> Some (- 1)"
proof -
  have "num_contexts sample_image = Some (length [''u:sec''])"
    by (simp add: sample_image_def image_simps)
  moreover have "contexts_offset sample_image = Some 24"
    by (simp add: sample_image_def image_simps)
  moreover have "Option.bind (uint32_array sample_image ((24 + 4) mod 2 ^ 32) i) (c_string sample_image)
      = Some ([''u:sec''] ! i)" if "i < length [''u:sec'']" for i
  proof -
    have "i = 0" using that by simp
    moreover have "Option.bind (uint32_array sample_image ((24 + 4) mod 2 ^ 32) 0) (c_string sample_image)
      = Some ''u:sec''" by (simp add: sample_image_def image_simps)
    ultimately show ?thesis by simp
  qed
  ultimately show ?thesis
    using FindContextIndex_correct [of sample_image "[''u:sec'']" 24 "''u:sec''"] by auto
qed

text \<open>
  The property-info file is accepted only if it is owned by root, writable by
  nobody else, of a version this code supports and of the size its header states; a file that
  is rejected leaves the state as it was, and an accepted one becomes the state.
\<close>

theorem LoadPath_checked:
  assumes "LoadPath fstat_r mmap_r file = (ok, file')"
  shows "if ok then \<exists>st img. fstat_r = Some st \<and> mmap_r = Some img \<and> file' = (Some img, st_size st)
           \<and> st_uid st = 0 \<and> st_gid st = 0 \<and> st_mode st AND (S_IWGRP OR S_IWOTH) = 0
           \<and> img_size (img @ replicate 24 NUL) = Some (st_size st)
           \<and> the (hdr_minimum_supported_version (img @ replicate 24 NUL)) \<le> 1
         else file' = file"
  using assms
  by (auto simp: LoadPath_def Let_def img_size_def rd32_def split: option.splits if_splits)

theorem LoadPath_checked_witness:
  "LoadPath (Some \<lparr>st_uid = 0, st_gid = 0, st_mode = 0, st_size = 165\<rparr>) (Some sample_image) (None, 0)
     = (True, (Some sample_image, 165)) \<and> img_size (sample_image @ replicate 24 NUL) = Some 165"
proof -
  let ?st = "\<lparr>st_uid = 0, st_gid = 0, st_mode = 0, st_size = 165\<rparr>"
  have "sample_image @ replicate 24 NUL = words_image
      [1, 1, 165, 24, 32, 36, 1, 159, 0, 100, 1, 64, 0, 0, 0, 0, 68, 116, 0, 0, 0, 0, 1, 96, 132,
       148, 0, no_index, no_index, 149, 2, no_index, no_index, 152, 6, 0, no_index]
     ((NUL # ''ro'' @ NUL # ''secure'' @ NUL # ''u:sec'' @ [NUL]) @ replicate 24 NUL)"
    by (simp add: sample_image_def words_image_def)
  then have h: "the (hdr_minimum_supported_version (sample_image @ replicate 24 NUL)) = 1"
    "the (img_size (sample_image @ replicate 24 NUL)) = 165"
    by (simp_all add: hdr_minimum_supported_version_def image_simps)
  then have l: "LoadPath (Some ?st) (Some sample_image) (None, 0) = (True, (Some sample_image, 165))"
    by (simp add: LoadPath_def sizeof_PropertyInfoArea_def)
  show ?thesis using LoadPath_checked [OF l] l by simp
qed

end
