(* ===== verification/Contexts.thy ===== *)
theory Contexts
  imports C_Text Property_Info Prop_Area_Spec
begin

text \<open>
  The contexts of the property system: which area a property name lives in
  (\<open>context_node.{h,cpp}\<close>, \<open>contexts_pre_split.h\<close>, \<open>contexts_split.{h,cpp}\<close>,
  \<open>contexts_serialized.{h,cpp}\<close>). A mapped area is named by its file, so that two pointers to
  one file are one area; \<open>world\<close> holds the contents of the files, what the system calls
  answer, and the two static sizes. A fault or \<open>abort()\<close> is \<^const>\<open>None\<close>. The per-node lock is not
  part of this sequential model (see \<open>Locks\<close>).
\<close>

section \<open>The world\<close>

record create_result =
  cr_errno :: "int option"
  cr_setxattr :: bool
  cr_ftruncate :: bool
  cr_mmap :: bool

record world =
  w_areas :: "string \<rightharpoonup> prop_area"
  w_stat :: "string \<rightharpoonup> file_stat"
  w_info_stat :: "string \<rightharpoonup> file_stat"
  w_can_open :: "string \<Rightarrow> bool"
  w_readable :: "string \<Rightarrow> bool"
  w_create :: "string \<Rightarrow> create_result"
  w_text :: "string \<rightharpoonup> string"
  w_image :: "string \<rightharpoonup> image"
  w_sizes :: pa_sizes

definition map_area :: "string \<Rightarrow> world \<Rightarrow> string option \<times> world" where
  "map_area fn w =
     (case map_prop_area (w_can_open w fn) (w_stat w fn) (w_areas w fn) (w_sizes w) of
        (r, sizes) \<Rightarrow> (map_option (\<lambda>_. fn) r, w\<lparr>w_sizes := sizes\<rparr>))"

definition map_area_rw ::
    "string \<Rightarrow> string option \<Rightarrow> bool \<Rightarrow> world \<Rightarrow> (string option \<times> bool \<times> world) option" where
  "map_area_rw fn ctx failed w =
     (let cr = w_create w fn
      in case map_prop_area_rw (cr_errno cr) ctx (cr_setxattr cr) (cr_ftruncate cr) (cr_mmap cr)
                failed (w_sizes w) of
           None \<Rightarrow> None
         | Some (r, failed', sizes) \<Rightarrow>
             Some (map_option (\<lambda>_. fn) r, failed',
                   w\<lparr>w_sizes := sizes,
                     w_areas := (case r of None \<Rightarrow> w_areas w | Some pa \<Rightarrow> (w_areas w)(fn \<mapsto> pa))\<rparr>))"

definition PROP_FILENAME_MAX :: nat where "PROP_FILENAME_MAX = 1024"

section \<open>Context nodes\<close>

record context_node =
  cn_context :: string
  cn_pa :: "string option"
  cn_no_access :: bool
  cn_filename :: string

definition context_node_new :: "string \<Rightarrow> string \<Rightarrow> context_node" where
  "context_node_new ctx filename =
     \<lparr>cn_context = ctx, cn_pa = None, cn_no_access = False, cn_filename = filename\<rparr>"

definition cn_path :: "context_node \<Rightarrow> string" where
  "cn_path cn = cn_filename cn @ ''/'' @ cn_context cn"

definition cn_Open ::
    "bool \<Rightarrow> bool \<Rightarrow> context_node \<Rightarrow> world \<Rightarrow> (bool \<times> bool \<times> context_node \<times> world) option" where
  "cn_Open access_rw failed cn w =
     (if cn_pa cn \<noteq> None then Some (True, failed, cn, w)
      else if length (cn_path cn) \<ge> PROP_FILENAME_MAX then Some (False, failed, cn, w)
      else if access_rw then
        (case map_area_rw (cn_path cn) (Some (cn_context cn)) failed w of
           None \<Rightarrow> None
         | Some (r, failed', w') \<Rightarrow> Some (r \<noteq> None, failed', cn\<lparr>cn_pa := r\<rparr>, w'))
      else
        (case map_area (cn_path cn) w of
           (r, w') \<Rightarrow> Some (r \<noteq> None, failed, cn\<lparr>cn_pa := r\<rparr>, w')))"

text \<open>Opening for reading cannot abort.\<close>

definition cn_Open_ro :: "context_node \<Rightarrow> world \<Rightarrow> bool \<times> context_node \<times> world" where
  "cn_Open_ro cn w =
     (if cn_pa cn \<noteq> None then (True, cn, w)
      else if length (cn_path cn) \<ge> PROP_FILENAME_MAX then (False, cn, w)
      else (case map_area (cn_path cn) w of (r, w') \<Rightarrow> (r \<noteq> None, cn\<lparr>cn_pa := r\<rparr>, w')))"

lemma cn_Open_False: "cn_Open False f cn w = (case cn_Open_ro cn w of (r, cn', w') \<Rightarrow> Some (r, f, cn', w'))"
  by (simp add: cn_Open_def cn_Open_ro_def split: prod.splits)

definition cn_CheckAccess :: "context_node \<Rightarrow> world \<Rightarrow> bool" where
  "cn_CheckAccess cn w \<longleftrightarrow>
     length (cn_path cn) < PROP_FILENAME_MAX \<and> w_readable w (cn_path cn)"

definition cn_CheckAccessAndOpen :: "context_node \<Rightarrow> world \<Rightarrow> bool \<times> context_node \<times> world" where
  "cn_CheckAccessAndOpen cn w =
     (if cn_pa cn = None \<and> \<not> cn_no_access cn then
        (if \<not> cn_CheckAccess cn w then (False, cn\<lparr>cn_no_access := True\<rparr>, w)
         else case cn_Open_ro cn w of
                (r, cn', w') \<Rightarrow>
                  if r then (cn_pa cn' \<noteq> None, cn', w')
                  else (cn_pa cn' \<noteq> None, cn'\<lparr>cn_no_access := True\<rparr>, w'))
      else (cn_pa cn \<noteq> None, cn, w))"

definition cn_Unmap :: "context_node \<Rightarrow> context_node" where
  "cn_Unmap cn = cn\<lparr>cn_pa := None\<rparr>"

definition cn_ResetAccess :: "world \<Rightarrow> context_node \<Rightarrow> context_node" where
  "cn_ResetAccess w cn =
     (if \<not> cn_CheckAccess cn w then (cn_Unmap cn)\<lparr>cn_no_access := True\<rparr>
      else cn\<lparr>cn_no_access := False\<rparr>)"

section \<open>Prefix lists\<close>

text \<open>
  A \<open>PrefixNode\<close> is its prefix with the context string of the \<open>ContextListNode\<close> it points to;
  the list of those holds every context string once.
\<close>

fun ListAddAfterLen :: "(string \<times> string) list \<Rightarrow> string \<Rightarrow> string \<Rightarrow> (string \<times> string) list" where
  "ListAddAfterLen [] pfx ctx = [(pfx, ctx)]"
| "ListAddAfterLen ((p, c) # ps) pfx ctx =
     (if length p < length pfx \<or> (p \<noteq> [] \<and> hd p = CHR ''*'')
      then (pfx, ctx) # (p, c) # ps
      else (p, c) # ListAddAfterLen ps pfx ctx)"

definition prefix_matches :: "string \<Rightarrow> string \<times> string \<Rightarrow> bool" where
  "prefix_matches name pc \<longleftrightarrow>
     (fst pc \<noteq> [] \<and> hd (fst pc) = CHR ''*'') \<or> strncmp (fst pc) name (length (fst pc)) = 0"

section \<open>Reading property\_contexts files\<close>

text \<open>
  \<open>read_spec_entry\<close>: the next word and what follows it. An empty word is found only at the end
  of the buffer.
\<close>

definition read_spec_entry :: "string \<Rightarrow> string \<times> string" where
  "read_spec_entry buf =
     (let tmp = dropWhile c_isspace buf
      in (takeWhile (\<lambda>c. \<not> c_isspace c) tmp, dropWhile (\<lambda>c. \<not> c_isspace c) tmp))"

text \<open>The loop of \<open>read_spec_entries\<close>: the words of the items counted.\<close>

fun spec_entries_loop :: "nat \<Rightarrow> string \<Rightarrow> string list" where
  "spec_entries_loop 0 buf = []"
| "spec_entries_loop (Suc k) buf =
     (if buf = [] then []
      else case read_spec_entry buf of
             (entry, rest) \<Rightarrow> if entry = [] then [] else entry # spec_entries_loop k rest)"

definition read_spec_entries :: "string \<Rightarrow> nat \<Rightarrow> string list" where
  "read_spec_entries line_buf num_args =
     (let buf = (if line_buf \<noteq> [] \<and> last line_buf = CHR 0x0A then butlast line_buf else line_buf);
          p = dropWhile c_isspace buf
      in if p = [] \<or> hd p = CHR ''#'' then [] else spec_entries_loop num_args p)"

record contexts_split =
  cs_prefixes :: "(string \<times> string) list"
  cs_contexts :: "context_node list"
  cs_serial :: "string option"
  cs_filename :: string

definition split_add_line :: "string \<Rightarrow> contexts_split \<Rightarrow> contexts_split" where
  "split_add_line line cs =
     (case read_spec_entries line 2 of
        [prop_prefix, ctx] \<Rightarrow>
          if strncmp prop_prefix ''ctl.'' 4 = 0 then cs
          else if \<exists>l \<in> set (cs_contexts cs). strcmp (cn_context l) ctx = 0 then
            cs\<lparr>cs_prefixes := ListAddAfterLen (cs_prefixes cs) prop_prefix ctx\<rparr>
          else
            cs\<lparr>cs_contexts := context_node_new ctx (cs_filename cs) # cs_contexts cs,
               cs_prefixes := ListAddAfterLen (cs_prefixes cs) prop_prefix ctx\<rparr>
      | _ \<Rightarrow> cs)"

text \<open>The lines \<open>getline\<close> returns, each with its newline.\<close>

fun text_lines :: "string \<Rightarrow> string list" where
  "text_lines [] = []"
| "text_lines (c # s) =
     (if c = CHR 0x0A then [c] # text_lines s
      else case text_lines s of
             [] \<Rightarrow> [[c]]
           | l # ls \<Rightarrow> (c # l) # ls)"

definition InitializePropertiesFromFile ::
    "string \<Rightarrow> world \<Rightarrow> contexts_split \<Rightarrow> bool \<times> contexts_split" where
  "InitializePropertiesFromFile fn w cs =
     (case w_text w fn of
        None \<Rightarrow> (False, cs)
      | Some txt \<Rightarrow> (True, fold split_add_line (text_lines txt) cs))"

definition split_InitializeProperties :: "world \<Rightarrow> contexts_split \<Rightarrow> bool \<times> contexts_split" where
  "split_InitializeProperties w cs =
     (let init = (\<lambda>fn. InitializePropertiesFromFile fn w) in
      case init ''/property_contexts'' cs of
        (True, cs') \<Rightarrow> (True, cs')
      | (False, cs') \<Rightarrow>
          if w_readable w ''/system/etc/selinux/plat_property_contexts'' then
            (case init ''/system/etc/selinux/plat_property_contexts'' cs' of
               (False, cs1) \<Rightarrow> (False, cs1)
             | (True, cs1) \<Rightarrow>
                 (True, snd (init (if w_readable w ''/vendor/etc/selinux/vendor_property_contexts''
                                   then ''/vendor/etc/selinux/vendor_property_contexts''
                                   else ''/vendor/etc/selinux/nonplat_property_contexts'') cs1)))
          else
            (case init ''/plat_property_contexts'' cs' of
               (False, cs1) \<Rightarrow> (False, cs1)
             | (True, cs1) \<Rightarrow>
                 (True, snd (init (if w_readable w ''/vendor_property_contexts''
                                   then ''/vendor_property_contexts''
                                   else ''/nonplat_property_contexts'') cs1))))"

text \<open>Opening every node for writing: whether one failed, the flag, the nodes and the world.\<close>

fun open_all :: "bool \<Rightarrow> context_node list \<Rightarrow> world \<Rightarrow> (bool \<times> bool \<times> context_node list \<times> world) option" where
  "open_all failed [] w = Some (False, failed, [], w)"
| "open_all failed (cn # cns) w =
     (case cn_Open True failed cn w of
        None \<Rightarrow> None
      | Some (r, failed1, cn', w1) \<Rightarrow>
          (case open_all failed1 cns w1 of
             None \<Rightarrow> None
           | Some (bad, failed2, cns', w2) \<Rightarrow> Some (\<not> r \<or> bad, failed2, cn' # cns', w2)))"

definition serial_path :: "string \<Rightarrow> string" where
  "serial_path filename = filename @ ''/properties_serial''"

text \<open>\<open>MapSerialPropertyArea\<close>, the same in both classes.\<close>

definition MapSerialPropertyArea ::
    "bool \<Rightarrow> bool \<Rightarrow> string \<Rightarrow> world \<Rightarrow> (string option \<times> bool \<times> world) option" where
  "MapSerialPropertyArea access_rw failed filename w =
     (if length (serial_path filename) \<ge> PROP_FILENAME_MAX then Some (None, failed, w)
      else if access_rw then
        map_area_rw (serial_path filename) (Some ''u:object_r:properties_serial:s0'') failed w
      else (case map_area (serial_path filename) w of (r, w') \<Rightarrow> Some (r, failed, w')))"

definition split_FreeAndUnmap :: "contexts_split \<Rightarrow> contexts_split" where
  "split_FreeAndUnmap cs = cs\<lparr>cs_prefixes := [], cs_contexts := [], cs_serial := None\<rparr>"

text \<open>
  \<open>Initialize\<close>; the flag \<open>*fsetxattr_failed\<close> is returned.
\<close>

definition split_Initialize ::
    "bool \<Rightarrow> string \<Rightarrow> bool \<Rightarrow> contexts_split \<Rightarrow> world \<Rightarrow> (bool \<times> bool \<times> contexts_split \<times> world) option" where
  "split_Initialize writable filename failed cs w =
     (case split_InitializeProperties w (cs\<lparr>cs_filename := filename\<rparr>) of
        (False, cs1) \<Rightarrow> Some (False, failed, cs1, w)
      | (True, cs1) \<Rightarrow>
          if writable then
            (case open_all False (cs_contexts cs1) w of
               None \<Rightarrow> None
             | Some (bad, failed1, cns, w1) \<Rightarrow>
                 let cs2 = cs1\<lparr>cs_contexts := cns\<rparr>
                 in if bad then Some (False, failed1, split_FreeAndUnmap cs2, w1)
                    else case MapSerialPropertyArea True failed1 filename w1 of
                           None \<Rightarrow> None
                         | Some (r, failed2, w2) \<Rightarrow>
                             if r = None then Some (False, failed2, split_FreeAndUnmap cs2, w2)
                             else Some (True, failed2, cs2\<lparr>cs_serial := r\<rparr>, w2))
          else
            (case MapSerialPropertyArea False failed filename w of
               None \<Rightarrow> None
             | Some (r, failed2, w2) \<Rightarrow>
                 if r = None then Some (False, failed2, split_FreeAndUnmap cs1, w2)
                 else Some (True, failed2, cs1\<lparr>cs_serial := r\<rparr>, w2)))"

text \<open>Opening the node of a given context in the list, if it is not open.\<close>

fun open_context :: "string \<Rightarrow> context_node list \<Rightarrow> world \<Rightarrow> string option \<times> context_node list \<times> world" where
  "open_context ctx [] w = (None, [], w)"
| "open_context ctx (cn # cns) w =
     (if cn_context cn = ctx then
        (case cn_Open_ro cn w of (r, cn', w') \<Rightarrow> (cn_pa cn', cn' # cns, w'))
      else (case open_context ctx cns w of (r, cns', w') \<Rightarrow> (r, cn # cns', w')))"

definition split_GetPropAreaForName ::
    "string \<Rightarrow> contexts_split \<Rightarrow> world \<Rightarrow> string option \<times> contexts_split \<times> world" where
  "split_GetPropAreaForName name cs w =
     (case List.find (prefix_matches name) (cs_prefixes cs) of
        None \<Rightarrow> (None, cs, w)
      | Some (p, ctx) \<Rightarrow>
          (case open_context ctx (cs_contexts cs) w of
             (r, cns, w') \<Rightarrow> (r, cs\<lparr>cs_contexts := cns\<rparr>, w')))"

text \<open>\<open>ForEach\<close>: the records the callback is called on, each with its area.\<close>

fun nodes_ForEach :: "context_node list \<Rightarrow> world \<Rightarrow> ((string \<times> nat) list \<times> context_node list \<times> world) option" where
  "nodes_ForEach [] w = Some ([], [], w)"
| "nodes_ForEach (cn # cns) w =
     (case cn_CheckAccessAndOpen cn w of
        (r, cn', w1) \<Rightarrow>
          (case (case cn_pa cn' of
                   None \<Rightarrow> Some []
                 | Some h \<Rightarrow>
                     (case w_areas w1 h of
                        None \<Rightarrow> None
                      | Some pa \<Rightarrow>
                          map_option (\<lambda>(b, offs). map (Pair h) offs) (area_foreach (snd (w_sizes w1)) pa))) of
             None \<Rightarrow> None
           | Some here \<Rightarrow>
               (case nodes_ForEach cns w1 of
                  None \<Rightarrow> None
                | Some (rest, cns', w2) \<Rightarrow> Some (here @ rest, cn' # cns', w2))))"

definition split_ForEach ::
    "contexts_split \<Rightarrow> world \<Rightarrow> ((string \<times> nat) list \<times> contexts_split \<times> world) option" where
  "split_ForEach cs w =
     (case nodes_ForEach (cs_contexts cs) w of
        None \<Rightarrow> None
      | Some (vs, cns, w') \<Rightarrow> Some (vs, cs\<lparr>cs_contexts := cns\<rparr>, w'))"

definition split_ResetAccess :: "contexts_split \<Rightarrow> world \<Rightarrow> contexts_split" where
  "split_ResetAccess cs w = cs\<lparr>cs_contexts := map (cn_ResetAccess w) (cs_contexts cs)\<rparr>"

section \<open>Serialized contexts\<close>

record contexts_serialized =
  sr_filename :: string
  sr_file :: "image option \<times> nat"
  sr_nodes :: "context_node list option"
  sr_num :: nat
  sr_serial :: "string option"

definition serialized_FreeAndUnmap :: "contexts_serialized \<Rightarrow> contexts_serialized" where
  "serialized_FreeAndUnmap cs =
     cs\<lparr>sr_file := info_file_Reset (sr_file cs), sr_nodes := None, sr_serial := None\<rparr>"

text \<open>The anonymous mapping for the nodes may fail; reading a context string may fault.\<close>

definition InitializeContextNodes ::
    "bool \<Rightarrow> image \<Rightarrow> contexts_serialized \<Rightarrow> (bool \<times> contexts_serialized) option" where
  "InitializeContextNodes mmap_ok img cs =
     do { n \<leftarrow> num_contexts img;
          if \<not> mmap_ok then Some (False, cs)
          else do {
            ctxs \<leftarrow> those (map (info_context img) [0..<n]);
            Some (True, cs\<lparr>sr_nodes := Some (map (\<lambda>c. context_node_new c (sr_filename cs)) ctxs),
                           sr_num := n\<rparr>) } }"

definition serialized_InitializeProperties ::
    "bool \<Rightarrow> world \<Rightarrow> contexts_serialized \<Rightarrow> (bool \<times> contexts_serialized) option" where
  "serialized_InitializeProperties mmap_ok w cs =
     (case LoadDefaultPath (w_info_stat w) (w_image w) (sr_file cs) of
        (False, f) \<Rightarrow> Some (False, cs\<lparr>sr_file := f\<rparr>)
      | (True, f) \<Rightarrow>
          (case fst f of
             None \<Rightarrow> None
           | Some img \<Rightarrow>
               (case InitializeContextNodes mmap_ok img (cs\<lparr>sr_file := f\<rparr>) of
                  None \<Rightarrow> None
                | Some (True, cs1) \<Rightarrow> Some (True, cs1)
                | Some (False, cs1) \<Rightarrow> Some (False, serialized_FreeAndUnmap cs1))))"

definition serialized_Initialize ::
    "bool \<Rightarrow> bool \<Rightarrow> string \<Rightarrow> bool \<Rightarrow> contexts_serialized \<Rightarrow> world
     \<Rightarrow> (bool \<times> bool \<times> contexts_serialized \<times> world) option" where
  "serialized_Initialize mmap_ok writable filename failed cs w =
     (case serialized_InitializeProperties mmap_ok w (cs\<lparr>sr_filename := filename\<rparr>) of
        None \<Rightarrow> None
      | Some (False, cs1) \<Rightarrow> Some (False, failed, cs1, w)
      | Some (True, cs1) \<Rightarrow>
          if writable then
            (case open_all False (case sr_nodes cs1 of None \<Rightarrow> [] | Some ns \<Rightarrow> ns) w of
               None \<Rightarrow> None
             | Some (bad, failed1, cns, w1) \<Rightarrow>
                 let cs2 = cs1\<lparr>sr_nodes := Some cns\<rparr>
                 in if bad then Some (False, failed1, serialized_FreeAndUnmap cs2, w1)
                    else case MapSerialPropertyArea True failed1 filename w1 of
                           None \<Rightarrow> None
                         | Some (r, failed2, w2) \<Rightarrow>
                             if r = None then Some (False, failed2, serialized_FreeAndUnmap cs2, w2)
                             else Some (True, failed2, cs2\<lparr>sr_serial := r\<rparr>, w2))
          else
            (case MapSerialPropertyArea False failed filename w of
               None \<Rightarrow> None
             | Some (r, failed2, w2) \<Rightarrow>
                 if r = None then Some (False, failed2, serialized_FreeAndUnmap cs1, w2)
                 else Some (True, failed2, cs1\<lparr>sr_serial := r\<rparr>, w2)))"

definition serialized_GetPropAreaForName ::
    "string \<Rightarrow> contexts_serialized \<Rightarrow> world \<Rightarrow> (string option \<times> contexts_serialized \<times> world) option" where
  "serialized_GetPropAreaForName name cs w =
     do { img \<leftarrow> fst (sr_file cs);
          (index, ty) \<leftarrow> GetPropertyInfoIndexes img name;
          if index = no_index \<or> index \<ge> sr_num cs then Some (None, cs, w)
          else do {
            nodes \<leftarrow> sr_nodes cs;
            if index \<ge> length nodes then None
            else (case cn_Open_ro (nodes ! index) w of
                    (r, cn', w') \<Rightarrow> Some (cn_pa cn', cs\<lparr>sr_nodes := Some (nodes[index := cn'])\<rparr>, w')) } }"

definition serialized_ForEach ::
    "contexts_serialized \<Rightarrow> world \<Rightarrow> ((string \<times> nat) list \<times> contexts_serialized \<times> world) option" where
  "serialized_ForEach cs w =
     (case sr_nodes cs of
        None \<Rightarrow> if sr_num cs = 0 then Some ([], cs, w) else None
      | Some nodes \<Rightarrow>
          (case nodes_ForEach nodes w of
             None \<Rightarrow> None
           | Some (vs, cns, w') \<Rightarrow> Some (vs, cs\<lparr>sr_nodes := Some cns\<rparr>, w')))"

definition serialized_ResetAccess :: "contexts_serialized \<Rightarrow> world \<Rightarrow> contexts_serialized" where
  "serialized_ResetAccess cs w = cs\<lparr>sr_nodes := map_option (map (cn_ResetAccess w)) (sr_nodes cs)\<rparr>"

section \<open>The interface\<close>

datatype contexts =
    PreSplit "string option"
  | Split contexts_split
  | Serialized contexts_serialized

definition GetSerialPropArea :: "contexts \<Rightarrow> string option" where
  "GetSerialPropArea cs =
     (case cs of PreSplit h \<Rightarrow> h | Split c \<Rightarrow> cs_serial c | Serialized c \<Rightarrow> sr_serial c)"

definition GetPropAreaForName ::
    "string \<Rightarrow> contexts \<Rightarrow> world \<Rightarrow> (string option \<times> contexts \<times> world) option" where
  "GetPropAreaForName name cs w =
     (case cs of
        PreSplit h \<Rightarrow> Some (h, cs, w)
      | Split c \<Rightarrow> (case split_GetPropAreaForName name c w of (r, c', w') \<Rightarrow> Some (r, Split c', w'))
      | Serialized c \<Rightarrow>
          map_option (\<lambda>(r, c', w'). (r, Serialized c', w')) (serialized_GetPropAreaForName name c w))"

definition contexts_ForEach ::
    "contexts \<Rightarrow> world \<Rightarrow> ((string \<times> nat) list \<times> contexts \<times> world) option" where
  "contexts_ForEach cs w =
     (case cs of
        PreSplit h \<Rightarrow>
          (case Option.bind h (w_areas w) of
             None \<Rightarrow> None
           | Some pa \<Rightarrow>
               map_option (\<lambda>(b, offs). (map (Pair (the h)) offs, cs, w)) (area_foreach (snd (w_sizes w)) pa))
      | Split c \<Rightarrow> map_option (\<lambda>(vs, c', w'). (vs, Split c', w')) (split_ForEach c w)
      | Serialized c \<Rightarrow> map_option (\<lambda>(vs, c', w'). (vs, Serialized c', w')) (serialized_ForEach c w))"

definition contexts_ResetAccess :: "contexts \<Rightarrow> world \<Rightarrow> contexts" where
  "contexts_ResetAccess cs w =
     (case cs of PreSplit h \<Rightarrow> cs | Split c \<Rightarrow> Split (split_ResetAccess c w)
      | Serialized c \<Rightarrow> Serialized (serialized_ResetAccess c w))"

definition pre_split_Initialize :: "string \<Rightarrow> world \<Rightarrow> bool \<times> contexts \<times> world" where
  "pre_split_Initialize filename w =
     (case map_area filename w of (r, w') \<Rightarrow> (r \<noteq> None, PreSplit r, w'))"

definition contexts_FreeAndUnmap :: "contexts \<Rightarrow> contexts" where
  "contexts_FreeAndUnmap cs =
     (case cs of PreSplit h \<Rightarrow> PreSplit None | Split c \<Rightarrow> Split (split_FreeAndUnmap c)
      | Serialized c \<Rightarrow> Serialized (serialized_FreeAndUnmap c))"

end
