(* ===== verification/System_Properties.thy ===== *)
theory System_Properties
  imports Contexts
begin

text \<open>
  The class \<open>SystemProperties\<close> of \<open>system_properties.{h,cpp}\<close>: initialisation, lookup, reading,
  update, addition, deletion, waiting and enumeration, as functions on the object's state.
  A property pointer is the pair of its area and its offset. These are the operations run one
  after the other by a single process; what a reader may see of an update in progress is the
  subject of \<open>Seqlock\<close>.
\<close>

record sysprops =
  sp_initialized :: bool
  sp_contexts :: contexts
  sp_filename :: string
  sp_world :: world

type_synonym pi_ptr = "string \<times> nat"

definition sp_ds :: "sysprops \<Rightarrow> nat" where
  "sp_ds sp = snd (w_sizes (sp_world sp))"

definition SERIAL_DIRTY :: "u32 \<Rightarrow> bool" where
  "SERIAL_DIRTY serial \<longleftrightarrow> serial AND 1 \<noteq> 0"

definition SERIAL_VALUE_LEN :: "u32 \<Rightarrow> nat" where
  "SERIAL_VALUE_LEN serial = unat (drop_bit 24 serial)"

definition PROP_NAME_MAX :: nat where "PROP_NAME_MAX = 32"

section \<open>Initialisation\<close>

text \<open>The three constructors leave zeroed members.\<close>

definition split_new :: contexts_split where
  "split_new = \<lparr>cs_prefixes = [], cs_contexts = [], cs_serial = None, cs_filename = []\<rparr>"

definition serialized_new :: contexts_serialized where
  "serialized_new = \<lparr>sr_filename = [], sr_file = (None, 0), sr_nodes = None, sr_num = 0, sr_serial = None\<rparr>"

text \<open>\<open>is_dir\<close> and the anonymous mapping of the context nodes are arguments.\<close>

definition sp_Init :: "(string \<Rightarrow> bool) \<Rightarrow> bool \<Rightarrow> string \<Rightarrow> sysprops \<Rightarrow> (bool \<times> sysprops) option" where
  "sp_Init is_dir mmap_ok filename sp =
     (if sp_initialized sp then Some (True, sp)
      else if length filename \<ge> PROP_FILENAME_MAX then Some (False, sp)
      else
        let sp1 = sp\<lparr>sp_filename := filename\<rparr>; w = sp_world sp
        in if is_dir filename then
             (if w_readable w ''/dev/__properties__/property_info'' then
                (case serialized_Initialize mmap_ok False filename False serialized_new w of
                   None \<Rightarrow> None
                 | Some (r, fl, c, w') \<Rightarrow>
                     Some (r, sp1\<lparr>sp_contexts := Serialized c, sp_world := w', sp_initialized := r\<rparr>))
              else
                (case split_Initialize False filename False split_new w of
                   None \<Rightarrow> None
                 | Some (r, fl, c, w') \<Rightarrow>
                     Some (r, sp1\<lparr>sp_contexts := Split c, sp_world := w', sp_initialized := r\<rparr>)))
           else
             (case pre_split_Initialize filename w of
                (r, c, w') \<Rightarrow>
                  Some (r, sp1\<lparr>sp_contexts := c, sp_world := w', sp_initialized := r\<rparr>)))"

definition sp_AreaInit ::
    "bool \<Rightarrow> string \<Rightarrow> bool \<Rightarrow> sysprops \<Rightarrow> (bool \<times> bool \<times> sysprops) option" where
  "sp_AreaInit mmap_ok filename failed sp =
     (if length filename \<ge> PROP_FILENAME_MAX then Some (False, failed, sp)
      else
        (case serialized_Initialize mmap_ok True filename failed serialized_new (sp_world sp) of
           None \<Rightarrow> None
         | Some (r, fl, c, w') \<Rightarrow>
             Some (r, fl, sp\<lparr>sp_filename := filename, sp_contexts := Serialized c, sp_world := w',
                              sp_initialized := (sp_initialized sp \<or> r)\<rparr>)))"

definition sp_AreaSerial :: "sysprops \<Rightarrow> u32 option" where
  "sp_AreaSerial sp =
     (if \<not> sp_initialized sp then Some (- 1)
      else case GetSerialPropArea (sp_contexts sp) of
             None \<Rightarrow> Some (- 1)
           | Some h \<Rightarrow> map_option pa_serial (w_areas (sp_world sp) h))"

section \<open>Finding and reading\<close>

definition sp_Find :: "string \<Rightarrow> sysprops \<Rightarrow> (pi_ptr option \<times> sysprops) option" where
  "sp_Find name sp =
     (if \<not> sp_initialized sp then Some (None, sp)
      else case GetPropAreaForName name (sp_contexts sp) (sp_world sp) of
             None \<Rightarrow> None
           | Some (h, cs, w) \<Rightarrow>
               let sp1 = sp\<lparr>sp_contexts := cs, sp_world := w\<rparr>
               in (case h of
                     None \<Rightarrow> Some (None, sp1)
                   | Some a \<Rightarrow>
                       (case w_areas w a of
                          None \<Rightarrow> None
                        | Some pa \<Rightarrow>
                            (case area_find (snd (w_sizes w)) pa name of
                               None \<Rightarrow> None
                             | Some r \<Rightarrow> Some (map_option (Pair a) r, sp1)))))"

definition sp_info :: "sysprops \<Rightarrow> pi_ptr \<Rightarrow> (prop_area \<times> prop_info) option" where
  "sp_info sp pi =
     (case w_areas (sp_world sp) (fst pi) of
        None \<Rightarrow> None
      | Some pa \<Rightarrow> map_option (Pair pa) (info_at pa (snd pi)))"

text \<open>
  \<open>Serial\<close>: without a writer a dirty serial number stays dirty and the wait never ends.
\<close>

definition sp_Serial :: "prop_info \<Rightarrow> u32 option" where
  "sp_Serial i = (if SERIAL_DIRTY (pi_serial i) then None else Some (pi_serial i))"

text \<open>\<open>Read\<close>: the length returned, the truncated name and the bytes written to \<open>value\<close>.\<close>

definition sp_Read :: "prop_info \<Rightarrow> (nat \<times> string \<times> char list) option" where
  "sp_Read i =
     do { serial \<leftarrow> sp_Serial i;
          let len = SERIAL_VALUE_LEN serial;
          if len + 1 > length (pi_union i) then None
          else Some (len, take (PROP_NAME_MAX - 1) (pi_name i), take (len + 1) (pi_union i)) }"

text \<open>\<open>ReadCallback\<close>: what the callback is given.\<close>

definition sp_ReadCallback :: "prop_area \<Rightarrow> nat \<Rightarrow> prop_info \<Rightarrow> (string \<times> string \<times> u32) option" where
  "sp_ReadCallback pa off i =
     do { serial \<leftarrow> sp_Serial i;
          if is_read_only (pi_name i) then
            (if is_long i
             then map_option (\<lambda>v. (pi_name i, v, serial)) (long_value pa off i)
             else Some (pi_name i, pi_value i, serial))
          else
            (let len = SERIAL_VALUE_LEN serial
             in if len > length (pi_union i) then None
                else Some (pi_name i, c_str (take len (pi_union i) @ [NUL]), serial)) }"

text \<open>\<open>Get\<close>: the length and the string left in the caller's buffer.\<close>

definition sp_Get :: "string \<Rightarrow> sysprops \<Rightarrow> ((nat \<times> string) \<times> sysprops) option" where
  "sp_Get name sp =
     do { (pi, sp1) \<leftarrow> sp_Find name sp;
          (case pi of
             None \<Rightarrow> Some ((0, []), sp1)
           | Some p \<Rightarrow>
               do { (pa, i) \<leftarrow> sp_info sp1 p;
                    (len, nm, bytes) \<leftarrow> sp_Read i;
                    Some ((len, c_str bytes), sp1) }) }"

section \<open>Changing properties\<close>

definition upd_info :: "prop_area \<Rightarrow> nat \<Rightarrow> (prop_info \<Rightarrow> prop_info) \<Rightarrow> prop_area" where
  "upd_info pa off f =
     (case pa_data pa off of
        Some (Info i) \<Rightarrow> pa\<lparr>pa_data := (pa_data pa)(off \<mapsto> Info (f i))\<rparr>
      | _ \<Rightarrow> pa)"

definition bump_serial :: "string \<Rightarrow> world \<Rightarrow> world" where
  "bump_serial h w =
     (case w_areas w h of
        None \<Rightarrow> w
      | Some pa \<Rightarrow> w\<lparr>w_areas := (w_areas w)(h \<mapsto> pa\<lparr>pa_serial := pa_serial pa + 1\<rparr>)\<rparr>)"

text \<open>
  The record after an update: \<open>serial |= 1\<close>, \<open>strlcpy(pi->value, value, len + 1)\<close>, and the new
  serial number with the length in its top byte.
\<close>

definition updated_info :: "string \<Rightarrow> nat \<Rightarrow> prop_info \<Rightarrow> prop_info" where
  "updated_info value len i =
     (let serial = pi_serial i OR 1
      in i\<lparr>pi_serial := push_bit 24 (of_nat len) OR ((serial + 1) AND 0xffffff),
            pi_union := buf_write (pi_union i) 0 (take len value @ [NUL])\<rparr>)"

definition sp_Update :: "pi_ptr \<Rightarrow> string \<Rightarrow> nat \<Rightarrow> sysprops \<Rightarrow> (int \<times> sysprops) option" where
  "sp_Update pi value len sp =
     (if len \<ge> PROP_VALUE_MAX \<or> \<not> sp_initialized sp then Some (- 1, sp)
      else case GetSerialPropArea (sp_contexts sp) of
             None \<Rightarrow> Some (- 1, sp)
           | Some hs \<Rightarrow>
               (case sp_info sp pi of
                  None \<Rightarrow> None
                | Some (pa, i) \<Rightarrow>
                    let w = sp_world sp;
                        w1 = w\<lparr>w_areas := (w_areas w)(fst pi \<mapsto> upd_info pa (snd pi) (updated_info value len))\<rparr>
                    in Some (0, sp\<lparr>sp_world := bump_serial hs w1\<rparr>)))"

definition sp_Add :: "string \<Rightarrow> string \<Rightarrow> sysprops \<Rightarrow> (int \<times> sysprops) option" where
  "sp_Add name value sp =
     (if (length value \<ge> PROP_VALUE_MAX \<and> \<not> is_read_only name) \<or> length name < 1
         \<or> \<not> sp_initialized sp
      then Some (- 1, sp)
      else case GetSerialPropArea (sp_contexts sp) of
             None \<Rightarrow> Some (- 1, sp)
           | Some hs \<Rightarrow>
               (case GetPropAreaForName name (sp_contexts sp) (sp_world sp) of
                  None \<Rightarrow> None
                | Some (h, cs, w) \<Rightarrow>
                    let sp1 = sp\<lparr>sp_contexts := cs, sp_world := w\<rparr>
                    in (case h of
                          None \<Rightarrow> Some (- 1, sp1)
                        | Some a \<Rightarrow>
                            (case w_areas w a of
                               None \<Rightarrow> None
                             | Some pa \<Rightarrow>
                                 (case area_add (snd (w_sizes w)) pa name value of
                                    None \<Rightarrow> None
                                  | Some (pa', ret) \<Rightarrow>
                                      let w1 = w\<lparr>w_areas := (w_areas w)(a \<mapsto> pa')\<rparr>
                                      in if \<not> ret then Some (- 1, sp1\<lparr>sp_world := w1\<rparr>)
                                         else Some (0, sp1\<lparr>sp_world := bump_serial hs w1\<rparr>))))))"

definition sp_Delete :: "string \<Rightarrow> sysprops \<Rightarrow> (int \<times> sysprops) option" where
  "sp_Delete name sp =
     (if \<not> sp_initialized sp then Some (- 1, sp)
      else case GetSerialPropArea (sp_contexts sp) of
             None \<Rightarrow> Some (- 1, sp)
           | Some hs \<Rightarrow>
               (case GetPropAreaForName name (sp_contexts sp) (sp_world sp) of
                  None \<Rightarrow> None
                | Some (h, cs, w) \<Rightarrow>
                    let sp1 = sp\<lparr>sp_contexts := cs, sp_world := w\<rparr>
                    in (case h of
                          None \<Rightarrow> Some (- 1, sp1)
                        | Some a \<Rightarrow>
                            (case w_areas w a of
                               None \<Rightarrow> None
                             | Some pa \<Rightarrow>
                                 (case area_del (snd (w_sizes w)) pa name of
                                    None \<Rightarrow> None
                                  | Some (pa', ret) \<Rightarrow>
                                      let w1 = w\<lparr>w_areas := (w_areas w)(a \<mapsto> pa')\<rparr>
                                      in if \<not> ret then Some (- 1, sp1\<lparr>sp_world := w1\<rparr>)
                                         else Some (0, sp1\<lparr>sp_world := bump_serial hs w1\<rparr>))))))"

section \<open>Waiting and enumerating\<close>

text \<open>
  One event per turn of the loop: whether \<open>__futex_wait\<close> timed out, and the serial number read
  after it. The result is the return value and \<open>*new_serial_ptr\<close>, if it was written;
  \<^const>\<open>None\<close> is still waiting.
\<close>

fun wait_loop :: "u32 \<Rightarrow> (bool \<times> u32) list \<Rightarrow> (bool \<times> u32 option) option" where
  "wait_loop old [] = None"
| "wait_loop old ((timed_out, new) # evs) =
     (if timed_out then Some (False, None)
      else if new = old then wait_loop old evs
      else Some (True, Some new))"

text \<open>\<open>return -1\<close> from a \<open>bool\<close> function returns true.\<close>

definition sp_Wait :: "pi_ptr option \<Rightarrow> u32 \<Rightarrow> (bool \<times> u32) list \<Rightarrow> sysprops \<Rightarrow> (bool \<times> u32 option) option" where
  "sp_Wait pi old_serial evs sp =
     (if pi = None \<and> (\<not> sp_initialized sp \<or> GetSerialPropArea (sp_contexts sp) = None)
      then Some (True, None)
      else wait_loop old_serial evs)"

text \<open>The value of \<open>new_serial\<close> that \<open>WaitAny\<close> returns, if it was initialised.\<close>

definition sp_WaitAny :: "u32 \<Rightarrow> (bool \<times> u32) list \<Rightarrow> sysprops \<Rightarrow> u32 option option" where
  "sp_WaitAny old_serial evs sp = map_option snd (sp_Wait None old_serial evs sp)"

definition sp_Foreach :: "sysprops \<Rightarrow> (int \<times> pi_ptr list \<times> sysprops) option" where
  "sp_Foreach sp =
     (if \<not> sp_initialized sp then Some (- 1, [], sp)
      else case contexts_ForEach (sp_contexts sp) (sp_world sp) of
             None \<Rightarrow> None
           | Some (ps, cs, w) \<Rightarrow> Some (0, ps, sp\<lparr>sp_contexts := cs, sp_world := w\<rparr>))"

definition find_nth_fn :: "u32 \<Rightarrow> 'p \<Rightarrow> u32 \<times> 'p option \<Rightarrow> u32 \<times> 'p option" where
  "find_nth_fn sought pi st =
     (case st of (current, result) \<Rightarrow> (current + 1, if current = sought then Some pi else result))"

definition sp_FindNth :: "u32 \<Rightarrow> sysprops \<Rightarrow> (pi_ptr option \<times> sysprops) option" where
  "sp_FindNth n sp =
     map_option (\<lambda>(r, ps, sp'). (snd (fold (find_nth_fn n) ps (0, None)), sp')) (sp_Foreach sp)"

section \<open>The C interface\<close>

text \<open>\<open>system_property_api.cpp\<close>: the two initialisations on the one global object.\<close>

definition PROP_FILENAME :: string where "PROP_FILENAME = ''/dev/__properties__''"

definition system_properties_init :: "(string \<Rightarrow> bool) \<Rightarrow> bool \<Rightarrow> sysprops \<Rightarrow> (int \<times> sysprops) option" where
  "system_properties_init is_dir mmap_ok sp =
     map_option (\<lambda>(ok, sp'). (if ok then 0 else - 1, sp')) (sp_Init is_dir mmap_ok PROP_FILENAME sp)"

definition system_property_area_init :: "bool \<Rightarrow> sysprops \<Rightarrow> (int \<times> sysprops) option" where
  "system_property_area_init mmap_ok sp =
     map_option (\<lambda>(ok, fsetxattr_failed, sp'). (if ok \<and> \<not> fsetxattr_failed then 0 else - 1, sp'))
       (sp_AreaInit mmap_ok PROP_FILENAME False sp)"

end
