(* ===== verification/Contexts_Correct.thy ===== *)
theory Contexts_Correct
  imports System_Properties Property_Info_Correct
begin

text \<open>
  What the property system relies on in its contexts: looking up the area of a name never
  faults on a well-formed state, changes nothing but the cache of opened areas, and gives the
  same answer ever after. The contract is the locale \<open>area_resolver\<close>; the three classes and
  their union are its interpretations.
\<close>

section \<open>Opening areas\<close>

text \<open>All property files have the size the static members record.\<close>

definition sizes_ok :: "world \<Rightarrow> bool" where
  "sizes_ok w \<longleftrightarrow> fst (w_sizes w) = snd (w_sizes w) + sizeof_prop_area
     \<and> (\<forall>fn st. w_stat w fn = Some st \<longrightarrow> st_size st = fst (w_sizes w))"

text \<open>Worlds that differ in the contents of areas only.\<close>

definition pa_header :: "prop_area \<Rightarrow> u32 \<times> u32" where
  "pa_header pa = (pa_magic pa, pa_version pa)"

definition same_shape :: "world \<Rightarrow> world \<Rightarrow> bool" where
  "same_shape w v \<longleftrightarrow> v = w\<lparr>w_areas := w_areas v\<rparr>
     \<and> (\<forall>h. map_option pa_header (w_areas v h) = map_option pa_header (w_areas w h))"

lemma same_shape_refl [simp]: "same_shape w w"
  by (simp add: same_shape_def)

lemma same_shapeD:
  assumes "same_shape w v"
  shows "w_sizes v = w_sizes w" "w_stat v = w_stat w" "w_can_open v = w_can_open w"
    and "dom (w_areas v) = dom (w_areas w)"
proof -
  have "v = w\<lparr>w_areas := w_areas v\<rparr>" using assms by (simp add: same_shape_def)
  then show "w_sizes v = w_sizes w" "w_stat v = w_stat w" "w_can_open v = w_can_open w"
    by (metis world.select_convs world.surjective world.update_convs(1))+
  show "dom (w_areas v) = dom (w_areas w)"
    using assms by (auto simp: same_shape_def dom_def) (metis map_option_is_None not_None_eq)+
qed

lemma sizes_ok_shape: "same_shape w v \<Longrightarrow> sizes_ok w \<Longrightarrow> sizes_ok v"
  by (simp add: sizes_ok_def same_shapeD)

lemma map_area_world:
  assumes "sizes_ok w"
  shows "snd (map_area fn w) = w"
proof -
  have "snd (map_prop_area (w_can_open w fn) (w_stat w fn) (w_areas w fn) (w_sizes w)) = w_sizes w"
    using assms
    by (auto simp: map_prop_area_def map_fd_rw_def sizes_ok_def prod_eq_iff
        split: option.splits if_splits)
  then show ?thesis by (simp add: map_area_def case_prod_beta)
qed

lemma map_area_dom: "fst (map_area fn w) = Some h \<Longrightarrow> h = fn \<and> fn \<in> dom (w_areas w)"
  by (auto simp: map_area_def map_prop_area_def map_fd_rw_def
      split: option.splits prod.splits if_splits)

lemma map_area_shape:
  assumes "same_shape w v"
  shows "fst (map_area fn v) = fst (map_area fn w)"
proof -
  have "map_option pa_header (w_areas v fn) = map_option pa_header (w_areas w fn)"
    using assms by (simp add: same_shape_def)
  then show ?thesis
    using same_shapeD [OF assms]
    by (cases "w_areas v fn"; cases "w_areas w fn")
      (auto simp: map_area_def map_prop_area_def map_fd_rw_def pa_header_def split: option.splits)
qed

definition node_ok :: "world \<Rightarrow> context_node \<Rightarrow> bool" where
  "node_ok w cn \<longleftrightarrow> (\<forall>h. cn_pa cn = Some h \<longrightarrow> h \<in> dom (w_areas w))"

text \<open>The area a node gives, whether it is open already or not.\<close>

definition node_area :: "world \<Rightarrow> context_node \<Rightarrow> string option" where
  "node_area w cn = cn_pa (fst (snd (cn_Open_ro cn w)))"

lemma cn_Open_ro_ok:
  assumes "sizes_ok w" and "node_ok w cn"
  obtains r cn' where "cn_Open_ro cn w = (r, cn', w)" and "node_ok w cn'"
    and "cn_pa cn' = node_area w cn" and "node_area w cn' = node_area w cn"
    and "cn_context cn' = cn_context cn"
proof -
  obtain r w1 where m: "map_area (cn_path cn) w = (r, w1)" by fastforce
  have w1: "w1 = w" using map_area_world [OF assms(1), of "cn_path cn"] m by simp
  have d: "r = Some h \<Longrightarrow> h \<in> dom (w_areas w)" for h
    using map_area_dom [of "cn_path cn" w h] m by auto
  have "snd (snd (cn_Open_ro cn w)) = w"
    using m w1 by (simp add: cn_Open_ro_def)
  then obtain q cn' where o: "cn_Open_ro cn w = (q, cn', w)"
    by (metis prod.collapse)
  have "node_ok w cn'" "cn_context cn' = cn_context cn"
    using o assms(2) d m w1 by (auto simp: cn_Open_ro_def node_ok_def split: if_splits)
  moreover have "node_area w cn' = cn_pa cn'"
    using o m w1 by (auto simp: cn_Open_ro_def node_area_def cn_path_def split: if_splits)
  ultimately show ?thesis using that o by (simp add: node_area_def)
qed

lemma node_area_shape: "same_shape w v \<Longrightarrow> node_area v cn = node_area w cn"
  using map_area_shape [of w v "cn_path cn"]
  by (auto simp: node_area_def cn_Open_ro_def split: prod.splits)

section \<open>The contract\<close>

locale area_resolver =
  fixes ok :: "world \<Rightarrow> 'c \<Rightarrow> bool"
    and get :: "string \<Rightarrow> 'c \<Rightarrow> world \<Rightarrow> (string option \<times> 'c \<times> world) option"
    and serial :: "'c \<Rightarrow> string option"
  assumes get_law: "sizes_ok w \<Longrightarrow> ok w c \<Longrightarrow>
      \<exists>h c'. get n c w = Some (h, c', w) \<and> ok w c' \<and> serial c' = serial c
        \<and> (\<forall>x. h = Some x \<longrightarrow> x \<in> dom (w_areas w))
        \<and> map_option fst (get m c' w) = map_option fst (get m c w)"
    and ok_shape: "same_shape w v \<Longrightarrow> ok w c \<Longrightarrow> ok v c"
    and get_shape: "same_shape w v \<Longrightarrow> sizes_ok w \<Longrightarrow> ok w c \<Longrightarrow>
      map_option fst (get m c v) = map_option fst (get m c w)"
begin

text \<open>
  The area of every name is the same after any lookups and any changes to the contents of
  areas.
\<close>

lemma lookup_stable:
  assumes "sizes_ok w" and "ok w c" and "get n c w = Some (h, c', w')" and "same_shape w' v"
  shows "ok v c' \<and> sizes_ok v \<and> serial c' = serial c
    \<and> map_option fst (get m c' v) = map_option fst (get m c w)"
proof -
  obtain h2 c2 where g: "get n c w = Some (h2, c2, w)" "ok w c2" "serial c2 = serial c"
    "map_option fst (get m c2 w) = map_option fst (get m c w)"
    using get_law [OF assms(1,2), of n m] by blast
  with assms(3) have e: "h2 = h" "c2 = c'" "w' = w" by auto
  then have "ok v c'" "map_option fst (get m c' v) = map_option fst (get m c' w)"
    using g ok_shape get_shape assms by auto
  then show ?thesis using g e sizes_ok_shape assms by auto
qed

end

definition pre_ok :: "world \<Rightarrow> string option \<Rightarrow> bool" where
  "pre_ok w h \<longleftrightarrow> (\<forall>x. h = Some x \<longrightarrow> x \<in> dom (w_areas w))"

interpretation pre: area_resolver pre_ok "\<lambda>n h w. Some (h, h, w)" "\<lambda>h. h"
  by unfold_locales (auto simp: pre_ok_def same_shapeD)

subsection \<open>Split contexts\<close>

definition split_ok :: "world \<Rightarrow> contexts_split \<Rightarrow> bool" where
  "split_ok w c \<longleftrightarrow> (\<forall>cn \<in> set (cs_contexts c). node_ok w cn)"

lemma open_context_ok:
  assumes "sizes_ok w" and "\<forall>cn \<in> set cns. node_ok w cn"
  shows "\<exists>r cns'. open_context ctx cns w = (r, cns', w) \<and> (\<forall>cn \<in> set cns'. node_ok w cn)
    \<and> (\<forall>x. r = Some x \<longrightarrow> x \<in> dom (w_areas w))
    \<and> fst (open_context d cns' w) = fst (open_context d cns w)"
  using assms(2)
proof (induction cns)
  case (Cons cn cns)
  then have cn: "node_ok w cn" by simp
  obtain q cn' where o: "cn_Open_ro cn w = (q, cn', w)" "node_ok w cn'"
    "cn_pa cn' = node_area w cn" "node_area w cn' = node_area w cn" "cn_context cn' = cn_context cn"
    using cn_Open_ro_ok [OF assms(1) cn] .
  show ?case
  proof (cases "cn_context cn = ctx")
    case True
    have "fst (open_context d (cn' # cns) w) = fst (open_context d (cn # cns) w)"
      using o by (auto simp: node_area_def case_prod_beta)
    then show ?thesis using True o Cons.prems by (auto simp: node_ok_def)
  next
    case False
    then show ?thesis using Cons by (auto split: prod.splits)
  qed
qed simp

lemma open_context_shape:
  "same_shape w v \<Longrightarrow> fst (open_context ctx cns v) = fst (open_context ctx cns w)"
  by (induction cns) (use node_area_shape [of w v] in \<open>auto simp: node_area_def case_prod_beta\<close>)

interpretation split: area_resolver split_ok
  "\<lambda>n c w. Some (split_GetPropAreaForName n c w)" cs_serial
proof
  fix w c n m
  assume sz: "sizes_ok w" and ok: "split_ok w c"
  show "\<exists>h c'. Some (split_GetPropAreaForName n c w) = Some (h, c', w) \<and> split_ok w c' \<and> cs_serial c' = cs_serial c
        \<and> (\<forall>x. h = Some x \<longrightarrow> x \<in> dom (w_areas w))
        \<and> map_option fst (Some (split_GetPropAreaForName m c' w))
          = map_option fst (Some (split_GetPropAreaForName m c w))"
  proof (cases "List.find (prefix_matches n) (cs_prefixes c)")
    case None
    then show ?thesis using ok by (simp add: split_GetPropAreaForName_def)
  next
    case (Some pc)
    obtain p ctx where pc: "pc = (p, ctx)" by fastforce
    have st: "\<forall>cn \<in> set (cs_contexts c). node_ok w cn" using ok by (simp add: split_ok_def)
    obtain r cns where o: "open_context ctx (cs_contexts c) w = (r, cns, w)"
      "\<forall>cn \<in> set cns. node_ok w cn" "\<forall>x. r = Some x \<longrightarrow> x \<in> dom (w_areas w)"
      using open_context_ok [OF sz st, of ctx] by blast
    have "fst (open_context d cns w) = fst (open_context d (cs_contexts c) w)" for d
      using open_context_ok [OF sz st, of ctx d] o(1) by auto
    then have "fst (split_GetPropAreaForName m (c\<lparr>cs_contexts := cns\<rparr>) w) = fst (split_GetPropAreaForName m c w)"
      by (auto simp: split_GetPropAreaForName_def case_prod_beta split: option.splits)
    then show ?thesis
      using Some pc o by (auto simp: split_GetPropAreaForName_def split_ok_def)
  qed
next
  fix w v c assume "same_shape w v" "split_ok w c"
  then show "split_ok v c" by (simp add: split_ok_def node_ok_def same_shapeD)
next
  fix w v c m assume sh: "same_shape w v" "sizes_ok w" "split_ok w c"
  have "fst (split_GetPropAreaForName m c v) = fst (split_GetPropAreaForName m c w)"
    using open_context_shape [OF sh(1), of _ "cs_contexts c"]
    by (auto simp: split_GetPropAreaForName_def case_prod_beta split: option.splits)
  then show "map_option fst (Some (split_GetPropAreaForName m c v))
      = map_option fst (Some (split_GetPropAreaForName m c w))" by simp
qed

subsection \<open>Serialized contexts\<close>

definition serialized_ok :: "world \<Rightarrow> contexts_serialized \<Rightarrow> bool" where
  "serialized_ok w c \<longleftrightarrow>
     (\<exists>img nodes n t. fst (sr_file c) = Some img \<and> trie_root img = Some n \<and> node_at img n t
        \<and> wf_ptrie t \<and> sr_nodes c = Some nodes \<and> sr_num c = length nodes
        \<and> (\<forall>cn \<in> set nodes. node_ok w cn))"

interpretation serialized: area_resolver serialized_ok serialized_GetPropAreaForName sr_serial
proof
  fix w c n m
  assume sz: "sizes_ok w" and ok: "serialized_ok w c"
  then obtain img nodes rt t where c: "fst (sr_file c) = Some img" "trie_root img = Some rt"
    "node_at img rt t" "wf_ptrie t" "sr_nodes c = Some nodes" "sr_num c = length nodes"
    "\<forall>cn \<in> set nodes. node_ok w cn"
    by (auto simp: serialized_ok_def)
  have ix: "\<exists>i ty. GetPropertyInfoIndexes img k = Some (i, ty)" for k
    using indexes_loop_ok [OF c(3,4)] c(2) by (simp add: GetPropertyInfoIndexes_def pick2_def)
  obtain i ty where i: "GetPropertyInfoIndexes img n = Some (i, ty)" using ix by blast
  show "\<exists>h c'. serialized_GetPropAreaForName n c w = Some (h, c', w) \<and> serialized_ok w c'
        \<and> sr_serial c' = sr_serial c \<and> (\<forall>x. h = Some x \<longrightarrow> x \<in> dom (w_areas w))
        \<and> map_option fst (serialized_GetPropAreaForName m c' w)
          = map_option fst (serialized_GetPropAreaForName m c w)"
  proof (cases "i = no_index \<or> i \<ge> length nodes")
    case True
    then show ?thesis using i c ok by (auto simp: serialized_GetPropAreaForName_def)
  next
    case False
    then have il: "i < length nodes" "i \<noteq> no_index" by auto
    then have "node_ok w (nodes ! i)" using c(7) by auto
    from cn_Open_ro_ok [OF sz this] obtain q cn' where o: "cn_Open_ro (nodes ! i) w = (q, cn', w)"
      "node_ok w cn'" "cn_pa cn' = node_area w (nodes ! i)" "node_area w cn' = node_area w (nodes ! i)"
      by metis
    let ?c' = "c\<lparr>sr_nodes := Some (nodes[i := cn'])\<rparr>"
    have g: "serialized_GetPropAreaForName n c w = Some (cn_pa cn', ?c', w)"
      using i c il o by (simp add: serialized_GetPropAreaForName_def)
    have ok': "serialized_ok w ?c'"
      using c o(2) il set_update_subset_insert [of nodes i cn']
      by (fastforce simp: serialized_ok_def)
    have "cn_pa (fst (snd (cn_Open_ro (nodes[i := cn'] ! j) w))) = cn_pa (fst (snd (cn_Open_ro (nodes ! j) w)))"
      if "j < length nodes" for j
      using o(4) il that by (cases "i = j") (auto simp: node_area_def)
    moreover obtain j tj where "GetPropertyInfoIndexes img m = Some (j, tj)" using ix by blast
    ultimately have "map_option fst (serialized_GetPropAreaForName m ?c' w)
        = map_option fst (serialized_GetPropAreaForName m c w)"
      using c by (auto simp: serialized_GetPropAreaForName_def case_prod_beta)
    moreover have "cn_pa cn' = Some x \<Longrightarrow> x \<in> dom (w_areas w)" for x
      using o(2) by (simp add: node_ok_def)
    ultimately show ?thesis using g ok' by auto
  qed
next
  fix w v c assume "same_shape w v" "serialized_ok w c"
  then show "serialized_ok v c" by (simp add: serialized_ok_def node_ok_def same_shapeD)
next
  fix w v c m assume sh: "same_shape w v" "sizes_ok w" "serialized_ok w c"
  have "cn_pa (fst (snd (cn_Open_ro cn v))) = cn_pa (fst (snd (cn_Open_ro cn w)))" for cn
    using node_area_shape [OF sh(1)] by (simp add: node_area_def)
  then show "map_option fst (serialized_GetPropAreaForName m c v)
      = map_option fst (serialized_GetPropAreaForName m c w)"
    by (auto simp: serialized_GetPropAreaForName_def case_prod_beta split: bind_splits)
qed

subsection \<open>All three\<close>

definition contexts_ok :: "world \<Rightarrow> contexts \<Rightarrow> bool" where
  "contexts_ok w cs \<longleftrightarrow>
     (case cs of PreSplit h \<Rightarrow> pre_ok w h | Split c \<Rightarrow> split_ok w c | Serialized c \<Rightarrow> serialized_ok w c)"

interpretation ctx: area_resolver contexts_ok GetPropAreaForName GetSerialPropArea
proof
  fix w c n m
  assume sz: "sizes_ok w" and ok: "contexts_ok w c"
  show "\<exists>h c'. GetPropAreaForName n c w = Some (h, c', w) \<and> contexts_ok w c'
        \<and> GetSerialPropArea c' = GetSerialPropArea c \<and> (\<forall>x. h = Some x \<longrightarrow> x \<in> dom (w_areas w))
        \<and> map_option fst (GetPropAreaForName m c' w) = map_option fst (GetPropAreaForName m c w)"
  proof (cases c)
    case (PreSplit h)
    then show ?thesis using ok by (auto simp: GetPropAreaForName_def contexts_ok_def pre_ok_def)
  next
    case (Split d)
    then have "split_ok w d" using ok by (simp add: contexts_ok_def)
    from split.get_law [OF sz this, of n m] show ?thesis using Split
      by (auto simp: GetPropAreaForName_def contexts_ok_def GetSerialPropArea_def split: prod.splits)
  next
    case (Serialized d)
    then have "serialized_ok w d" using ok by (simp add: contexts_ok_def)
    from serialized.get_law [OF sz this, of n m] show ?thesis using Serialized
      by (auto simp: GetPropAreaForName_def contexts_ok_def GetSerialPropArea_def
          option.map_comp comp_def case_prod_beta)
  qed
next
  fix w v c assume "same_shape w v" "contexts_ok w c"
  then show "contexts_ok v c"
    using pre.ok_shape split.ok_shape serialized.ok_shape
    by (auto simp: contexts_ok_def split: contexts.splits)
next
  fix w v c m assume sh: "same_shape w v" "sizes_ok w" "contexts_ok w c"
  show "map_option fst (GetPropAreaForName m c v) = map_option fst (GetPropAreaForName m c w)"
  proof (cases c)
    case (Split d)
    then show ?thesis using split.get_shape [OF sh(1,2), of d m] sh(3)
      by (auto simp: GetPropAreaForName_def contexts_ok_def split: prod.splits)
  next
    case (Serialized d)
    then show ?thesis using serialized.get_shape [OF sh(1,2), of d m] sh(3)
      by (auto simp: GetPropAreaForName_def contexts_ok_def option.map_comp comp_def case_prod_beta)
  qed (simp add: GetPropAreaForName_def)
qed

end
