(* ===== verification/System_Properties_Correct.thy ===== *)
theory System_Properties_Correct
  imports Contexts_Correct
begin

text \<open>
  The property system as a map from names to values: adding, deleting and updating a property
  through the contexts changes the value of that name and of no other, and advances the global
  serial number by one.
\<close>

section \<open>Changes that keep an area well-formed\<close>

lemma repr_cong: "(\<And>k. bt_at pa' k = bt_at pa k) \<Longrightarrow> repr pa' k t \<longleftrightarrow> repr pa k t"
  by (induction t arbitrary: k) auto

lemma lvl_cong:
  "(\<And>k. bt_at pa' k = bt_at pa k) \<Longrightarrow> bytes_used pa' = bytes_used pa \<Longrightarrow>
   lvl ds pa' cur b t \<longleftrightarrow> lvl ds pa cur b t"
  using repr_cong [of pa' pa] by (simp add: lvl_def lvl_ok_def area_sz_def)

text \<open>
  Overwriting one reachable record: either the new record holds its value itself, or old and
  new record refer to the same long value.
\<close>

lemma wf_area_upd_info:
  assumes wf: "wf_area ds pa t" and p: "tlook t (tokens nm) = Some p" and i: "info_at pa p = Some i"
    and f: "pi_name (f i) = pi_name i" "rec_ok (f i)"
      "is_read_only (pi_name i) \<and> is_long (f i) \<Longrightarrow> is_long i \<and> long_offset (f i) = long_offset i"
  defines "pa' \<equiv> upd_info pa p f"
  shows "wf_area ds pa' t"
    and "look pa' t m =
      (if m = nm \<and> \<not> (is_read_only (pi_name i) \<and> is_long (f i)) then Some (pi_value (f i))
       else look pa t m)"
proof -
  have pi: "pa_data pa p = Some (Info i)"
    using i by (auto simp: info_at_def split: option.splits pobj.splits)
  have data: "pa_data pa' = (pa_data pa)(p \<mapsto> Info (f i))" "bytes_used pa' = bytes_used pa"
    by (simp_all add: pa'_def upd_info_def pi)
  have bt: "bt_at pa' k = bt_at pa k" for k
    using pi by (simp add: bt_at_def data)
  have info: "info_at pa' q = (if q = p then Some (f i) else info_at pa q)" for q
    by (simp add: info_at_def data)
  have lv: "long_value pa' q j = long_value pa q j" for q j
    using pi by (simp add: long_value_def data)
  have pv: "prop_value pa' q = prop_value pa q" for q
    by (simp add: prop_value_def lv fun_eq_iff)
  have ok: "[] \<notin> set ts \<and> info_ok pa q ts" if "tlook t ts = Some q" for ts q
    using wf that by (simp add: wf_area_def)
  have nm: "pi_name i = nm" "p < bytes_used pa"
    using ok [OF p] i by (auto simp: info_ok_def tokens_inj)
  have ok': "info_ok pa' q ts" if "tlook t ts = Some q" for ts q
  proof (cases "q = p")
    case True
    then show ?thesis
      using ok [OF that] f nm i lv
      by (auto simp: info_ok_def info prop_value_def data(2) long_value_def)
  next
    case False
    then show ?thesis
      using ok [OF that] by (simp add: info_ok_def info pv data(2) cong: option.case_cong)
  qed
  obtain b where "lvl ds pa 0 b t" "bt_prop b = 0" "bt_left b = 0" "bt_right b = 0"
    using wf by (auto simp: wf_area_def)
  then show "wf_area ds pa' t"
    unfolding wf_area_def using lvl_cong [OF bt data(2)] ok ok' by blast
  have "tlook t (tokens m) \<noteq> Some p" if "m \<noteq> nm"
    using ok [of "tokens m" p] that i nm by (auto simp: info_ok_def tokens_inj)
  moreover have "long_value pa p (f i) = long_value pa p i" if "long_offset (f i) = long_offset i"
    using that by (simp add: long_value_def)
  ultimately show "look pa' t m =
      (if m = nm \<and> \<not> (is_read_only (pi_name i) \<and> is_long (f i)) then Some (pi_value (f i))
       else look pa t m)"
    using p f nm i
    by (cases "tlook t (tokens m)")
      (auto simp: look_def value_at_def info pv prop_value_def [of pa p "f i"] prop_value_def [of pa p i])
qed

lemma area_cong:
  assumes "pa_data pa' = pa_data pa" and "bytes_used pa' = bytes_used pa"
  shows "area_ok ds pa' \<longleftrightarrow> area_ok ds pa" and "area_ok ds pa \<Longrightarrow> area_get ds pa' n = area_get ds pa n"
proof -
  have at: "bt_at pa' k = bt_at pa k" "info_at pa' k = info_at pa k" "long_value pa' k i = long_value pa k i" for k i
    using assms by (simp_all add: bt_at_def info_at_def long_value_def)
  have "info_ok pa' p ts = info_ok pa p ts" for p ts
    by (simp add: info_ok_def at prop_value_def assms cong: option.case_cong)
  then have wf: "wf_area ds pa' t = wf_area ds pa t" for t
    using lvl_cong [OF at(1) assms(2)] by (simp add: wf_area_def)
  then show "area_ok ds pa' \<longleftrightarrow> area_ok ds pa" by (simp add: area_ok_def)
  assume "area_ok ds pa"
  then obtain t where t: "wf_area ds pa t" by (auto simp: area_ok_def)
  have "value_at pa' p = value_at pa p" for p
    using at(3) by (cases "info_at pa p") (simp_all add: value_at_def at prop_value_def)
  then have "look pa' t n = look pa t n"
    by (cases "tlook t (tokens n)") (simp_all add: look_def)
  then show "area_get ds pa' n = area_get ds pa n"
    using t wf area_get_wf by metis
qed

text \<open>The arithmetic of the serial number in an update.\<close>

lemma updated_serial_len:
  assumes "len < 256"
  shows "drop_bit 24 (push_bit 24 (of_nat len :: u32) OR (x AND 0xffffff)) = of_nat len"
proof (rule bit_word_eqI)
  fix n assume n: "n < LENGTH(32)"
  have "\<not> bit (0xffffff :: u32) (24 + n)"
    using bit_mask_iff [of 24 "24 + n", where 'a = "32 word"] by (simp add: mask_eq_exp_minus_1)
  moreover have "bit (of_nat len :: u32) n \<Longrightarrow> n < 8"
    using nat_bit_less [of len 8 n] assms by (simp add: bit_simps)
  ultimately show "bit (drop_bit 24 (push_bit 24 (of_nat len :: u32) OR (x AND 0xffffff))) n
      = bit (of_nat len :: u32) n"
    using n by (auto simp: bit_simps)
qed

lemma updated_serial_clean: "\<not> bit (push_bit 24 (of_nat len :: u32) OR (((s OR 1) + 1) AND 0xffffff)) 0"
proof -
  have "odd (s OR 1)" by (simp add: even_or_iff)
  then have "even ((s OR 1) + 1)" by simp
  then show ?thesis by (simp add: bit_0 even_or_iff even_and_iff)
qed

lemma c_str_take_write:
  "NUL \<notin> set v \<Longrightarrow> c_str (buf_write u 0 (take n v @ [NUL])) = take n v"
  using in_set_takeD c_str_buf_write by metis

lemma updated_info_ok:
  assumes "length (pi_union i) = PROP_VALUE_MAX" and "len < PROP_VALUE_MAX" and "len \<le> length v"
    and "NUL \<notin> set v"
  shows "rec_ok (updated_info v len i)" and "pi_value (updated_info v len i) = take len v"
    and "pi_name (updated_info v len i) = pi_name i"
proof -
  have v: "pi_value (updated_info v len i) = take len v"
    using assms by (simp add: updated_info_def pi_value_def Let_def c_str_take_write)
  have "unat (drop_bit 24 (pi_serial (updated_info v len i))) = len"
    using assms updated_serial_len [of len "(pi_serial i OR 1) + 1"]
    by (simp add: updated_info_def Let_def PROP_VALUE_MAX_def unat_of_nat)
  then show "rec_ok (updated_info v len i)"
    using assms v updated_serial_clean [of len "pi_serial i"]
    by (simp add: rec_ok_def) (simp add: updated_info_def Let_def)
  show "pi_value (updated_info v len i) = take len v"
    and "pi_name (updated_info v len i) = pi_name i"
    by (rule v) (simp add: updated_info_def Let_def)
qed

section \<open>The header of an area\<close>

definition pa_head :: "prop_area \<Rightarrow> u32 \<times> u32 \<times> u32" where
  "pa_head pa = (pa_serial pa, pa_magic pa, pa_version pa)"

lemma head_new_prop_bt: "new_prop_bt ds pa nm = (pa', r) \<Longrightarrow> pa_head pa' = pa_head pa"
  by (auto simp: new_prop_bt_def allocate_obj_def Let_def pa_head_def split: option.splits if_splits)

lemma head_upd_bt [simp]: "pa_head (upd_bt pa k f) = pa_head pa"
  by (auto simp: upd_bt_def pa_head_def split: option.splits pobj.splits)

lemma head_link_new: "link_new ds pa c nm f = (pa', r) \<Longrightarrow> pa_head pa' = pa_head pa"
  by (auto simp: link_new_def split: prod.splits option.splits dest: head_new_prop_bt)

lemma head_new_prop_info: "new_prop_info ds pa nm v = (pa', r) \<Longrightarrow> pa_head pa' = pa_head pa"
  by (auto simp: new_prop_info_def allocate_obj_def Let_def pa_head_def split: option.splits if_splits)

lemma head_find_sib:
  assumes "find_prop_bt_sib ds pa cur nm alloc = Some (pa', r)"
  shows "pa_head pa' = pa_head pa"
proof -
  have ln: "link_new ds pa c nm f = z \<Longrightarrow> pa_head (fst z) = pa_head pa" for ds pa c nm f z
    using head_link_new [of ds pa c nm f "fst z" "snd z"] by simp
  have "(\<lambda>ds pa cur nm alloc z. pa_head (fst z) = pa_head pa) ds pa cur nm alloc (pa', r)"
    by (rule find_prop_bt_sib.raw_induct [OF _ assms])
      (auto split: option.splits if_splits dest: ln)
  then show ?thesis by simp
qed

lemma head_find_prop_bt: "find_prop_bt ds pa cur nm alloc = Some (pa', r) \<Longrightarrow> pa_head pa' = pa_head pa"
proof -
  have lvl: "level_search ds pa cur b x alloc = Some (pa1, q) \<Longrightarrow> pa_head pa1 = pa_head pa"
    for ds pa cur b x alloc pa1 q
    by (auto simp: level_search_def split: prod.splits option.splits if_splits
        dest!: head_find_sib head_link_new)
  have "search_toks ds pa cur ts alloc = Some (pa', r) \<Longrightarrow> pa_head pa' = pa_head pa" for ts
    by (induction ts arbitrary: pa cur)
      (auto split: option.splits if_splits prod.splits dest: lvl)
  then show "find_prop_bt ds pa cur nm alloc = Some (pa', r) \<Longrightarrow> pa_head pa' = pa_head pa"
    by (simp add: find_prop_bt_tokens)
qed

lemma head_area_add: "area_add ds pa nm v = Some (pa', r) \<Longrightarrow> pa_head pa' = pa_head pa"
  by (auto simp: area_add_def find_property_def split: option.splits if_splits prod.splits
      dest!: head_find_prop_bt head_new_prop_info)

lemma head_area_del: "area_del ds pa nm = Some (pa', r) \<Longrightarrow> pa_head pa' = pa_head pa"
  by (auto simp: area_del_def split: option.splits dest!: head_find_prop_bt)

section \<open>The property system as a map\<close>

definition sp_area :: "sysprops \<Rightarrow> string \<Rightarrow> string option" where
  "sp_area sp name =
     (case GetPropAreaForName name (sp_contexts sp) (sp_world sp) of
        None \<Rightarrow> None
      | Some (h, cs, w) \<Rightarrow> h)"

definition sp_get :: "sysprops \<Rightarrow> string \<Rightarrow> string option" where
  "sp_get sp name =
     (case sp_area sp name of
        None \<Rightarrow> None
      | Some h \<Rightarrow>
          (case w_areas (sp_world sp) h of
             None \<Rightarrow> None
           | Some pa \<Rightarrow> area_get (sp_ds sp) pa name))"

text \<open>
  Well-formed states: initialised, every area well-formed, every handle mapped, and the files
  of one size.
\<close>

definition sp_ok :: "sysprops \<Rightarrow> bool" where
  "sp_ok sp \<longleftrightarrow>
     sp_initialized sp \<and> sizes_ok (sp_world sp) \<and> contexts_ok (sp_world sp) (sp_contexts sp)
     \<and> (\<forall>h pa. w_areas (sp_world sp) h = Some pa \<longrightarrow> area_ok (sp_ds sp) pa)
     \<and> (case GetSerialPropArea (sp_contexts sp) of None \<Rightarrow> False
        | Some hs \<Rightarrow> hs \<in> dom (w_areas (sp_world sp)))"

lemma sp_okD:
  assumes "sp_ok sp"
  shows "sp_initialized sp" "sizes_ok (sp_world sp)" "contexts_ok (sp_world sp) (sp_contexts sp)"
    and "w_areas (sp_world sp) h = Some pa \<Longrightarrow> area_ok (sp_ds sp) pa"
    and "\<exists>hs pas. GetSerialPropArea (sp_contexts sp) = Some hs \<and> w_areas (sp_world sp) hs = Some pas"
  using assms by (auto simp: sp_ok_def split: option.splits)

text \<open>One step: a lookup in the contexts, then a change of the contents of areas.\<close>

lemma sp_step:
  assumes ok: "sp_ok sp" and g: "GetPropAreaForName name (sp_contexts sp) (sp_world sp) = Some (h, cs, w)"
    and sh: "same_shape w v" and ar: "\<And>k pa. w_areas v k = Some pa \<Longrightarrow> area_ok (snd (w_sizes w)) pa"
  shows "sp_ok (sp\<lparr>sp_contexts := cs, sp_world := v\<rparr>)"
    and "sp_area (sp\<lparr>sp_contexts := cs, sp_world := v\<rparr>) m = sp_area sp m"
proof -
  note D = sp_okD [OF ok]
  have w: "w = sp_world sp" using ctx.get_law [OF D(2,3), of name] g by auto
  have st: "contexts_ok v cs \<and> sizes_ok v \<and> GetSerialPropArea cs = GetSerialPropArea (sp_contexts sp)
      \<and> map_option fst (GetPropAreaForName m cs v)
        = map_option fst (GetPropAreaForName m (sp_contexts sp) (sp_world sp))" for m
    using ctx.lookup_stable [OF D(2,3) g sh] by blast
  have "sp_area sp' m = the (map_option fst (GetPropAreaForName m (sp_contexts sp') (sp_world sp')))"
    if "contexts_ok (sp_world sp') (sp_contexts sp')" "sizes_ok (sp_world sp')" for sp'
    using ctx.get_law [OF that(2,1), of m m] by (auto simp: sp_area_def)
  then show "sp_area (sp\<lparr>sp_contexts := cs, sp_world := v\<rparr>) m = sp_area sp m"
    using st D by simp
  show "sp_ok (sp\<lparr>sp_contexts := cs, sp_world := v\<rparr>)"
    using st [of m] D(1,5) ar same_shapeD [OF sh] w by (auto simp: sp_ok_def sp_ds_def)
qed

lemma pa_header_head: "pa_head pa' = pa_head pa \<Longrightarrow> pa_header pa' = pa_header pa"
  by (simp add: pa_head_def pa_header_def)

lemma same_shape_upd:
  assumes "w_areas w h = Some pa" and "pa_header pa' = pa_header pa"
  shows "same_shape w (w\<lparr>w_areas := (w_areas w)(h \<mapsto> pa')\<rparr>)"
  using assms by (simp add: same_shape_def)

lemma same_shape_trans: "same_shape u v \<Longrightarrow> same_shape v w \<Longrightarrow> same_shape u w"
  unfolding same_shape_def by (metis world.surjective world.update_convs(1))

lemma same_shape_bump: "same_shape w (bump_serial h w)"
  by (cases "w_areas w h") (simp_all add: bump_serial_def same_shape_upd pa_header_def)

lemma bump_areas:
  "w_areas (bump_serial hs w) k =
     (if k = hs then map_option (\<lambda>pa. pa\<lparr>pa_serial := pa_serial pa + 1\<rparr>) (w_areas w k)
      else w_areas w k)"
  by (simp add: bump_serial_def split: option.split)

lemma bump_sizes [simp]: "w_sizes (bump_serial hs w) = w_sizes w"
  by (simp add: bump_serial_def split: option.split)

lemma bump_area_ok:
  assumes "\<And>k pa. w_areas w k = Some pa \<Longrightarrow> area_ok ds pa" and "w_areas (bump_serial hs w) k = Some pa"
  shows "area_ok ds pa"
  using assms area_cong(1) [of "pa'\<lparr>pa_serial := s\<rparr>" pa' ds for pa' s]
  by (auto simp: bump_areas split: if_splits)

text \<open>The value of a name in a world, given its area.\<close>

definition value_in :: "world \<Rightarrow> string option \<Rightarrow> string \<Rightarrow> string option" where
  "value_in w h m =
     (case h of None \<Rightarrow> None
      | Some k \<Rightarrow> (case w_areas w k of None \<Rightarrow> None | Some pa \<Rightarrow> area_get (snd (w_sizes w)) pa m))"

lemma sp_get_value_in: "sp_get sp m = value_in (sp_world sp) (sp_area sp m) m"
  unfolding sp_get_def value_in_def sp_ds_def ..

lemma value_in_bump:
  assumes "\<And>k pa. w_areas w k = Some pa \<Longrightarrow> area_ok (snd (w_sizes w)) pa"
  shows "value_in (bump_serial hs w) h m = value_in w h m"
proof -
  have "area_get ds (pa\<lparr>pa_serial := s\<rparr>) m = area_get ds pa m" if "area_ok ds pa" for ds pa s
    using that by (intro area_cong(2)) simp_all
  then show ?thesis
    using assms by (auto simp: value_in_def bump_areas split: option.splits)
qed

text \<open>A change of one area, optionally followed by the bump of the global serial number.\<close>

lemma sp_change:
  fixes b :: bool
  assumes ok: "sp_ok sp" and g: "GetPropAreaForName name (sp_contexts sp) (sp_world sp) = Some (Some a, cs, sp_world sp)"
    and pa: "w_areas (sp_world sp) a = Some pa" and hd: "pa_head pa' = pa_head pa" and ok': "area_ok (sp_ds sp) pa'"
    and hs: "GetSerialPropArea (sp_contexts sp) = Some hs"
    and get: "\<And>m. area_get (sp_ds sp) pa' m = (if P m then x else area_get (sp_ds sp) pa m)"
    and P: "\<And>m. P m \<Longrightarrow> sp_area sp m = Some a"
  defines "w1 \<equiv> (sp_world sp)\<lparr>w_areas := (w_areas (sp_world sp))(a \<mapsto> pa')\<rparr>"
  defines "v \<equiv> (if b then bump_serial hs w1 else w1)"
  shows "sp_ok (sp\<lparr>sp_contexts := cs, sp_world := v\<rparr>)"
    and "sp_get (sp\<lparr>sp_contexts := cs, sp_world := v\<rparr>) m = (if P m then x else sp_get sp m)"
    and "sp_AreaSerial (sp\<lparr>sp_contexts := cs, sp_world := v\<rparr>) =
         map_option (\<lambda>s. if b then s + 1 else s) (sp_AreaSerial sp)"
proof -
  let ?w = "sp_world sp"
  note D = sp_okD [OF ok]
  have gs: "GetSerialPropArea cs = Some hs"
    using ctx.get_law [OF D(2,3), of name] g hs by auto
  have sh1: "same_shape ?w w1"
    using same_shape_upd [OF pa pa_header_head [OF hd]] by (simp add: w1_def)
  then have sh: "same_shape ?w v"
    using same_shape_trans [OF sh1 same_shape_bump] by (simp add: v_def)
  have a1: "w_areas w1 k = Some p \<Longrightarrow> area_ok (snd (w_sizes w1)) p" for k p
    using ok' D(4) by (auto simp: w1_def sp_ds_def split: if_splits)
  have sz: "w_sizes w1 = w_sizes ?w" by (simp add: w1_def)
  have av: "w_areas v k = Some p \<Longrightarrow> area_ok (snd (w_sizes ?w)) p" for k p
    using a1 bump_area_ok [of w1 "snd (w_sizes ?w)" hs k p] sz by (auto simp: v_def split: if_splits)
  show "sp_ok (sp\<lparr>sp_contexts := cs, sp_world := v\<rparr>)"
    using sp_step(1) [OF ok g sh av] .
  have "sp_get (sp\<lparr>sp_contexts := cs, sp_world := v\<rparr>) m = value_in v (sp_area sp m) m"
    using sp_step(2) [OF ok g sh av, where m = m] by (simp add: sp_get_value_in)
  also have "\<dots> = value_in w1 (sp_area sp m) m"
    using value_in_bump [OF a1] by (simp add: v_def)
  also have "\<dots> = (if P m then x else value_in ?w (sp_area sp m) m)"
    using get P [of m] pa by (auto simp: value_in_def w1_def sp_ds_def split: option.splits)
  finally show "sp_get (sp\<lparr>sp_contexts := cs, sp_world := v\<rparr>) m = (if P m then x else sp_get sp m)"
    by (simp add: sp_get_value_in)
  have "pa_serial pa' = pa_serial pa" using hd by (simp add: pa_head_def)
  moreover have "map_option pa_serial (w_areas v hs) =
      map_option (\<lambda>s. if b then s + 1 else s) (map_option pa_serial (w_areas w1 hs))"
    by (simp add: v_def bump_areas option.map_comp comp_def)
  ultimately show "sp_AreaSerial (sp\<lparr>sp_contexts := cs, sp_world := v\<rparr>) =
      map_option (\<lambda>s. if b then s + 1 else s) (sp_AreaSerial sp)"
    using D(1) gs hs pa by (simp add: sp_AreaSerial_def w1_def)
qed

lemma sp_areaI:
  "GetPropAreaForName name (sp_contexts sp) (sp_world sp) = Some (h, cs, w) \<Longrightarrow> sp_area sp name = h"
  by (simp add: sp_area_def)

text \<open>The lookup every operation starts with.\<close>

lemma sp_lookup:
  assumes "sp_ok sp"
  obtains (none) cs where "GetPropAreaForName name (sp_contexts sp) (sp_world sp) = Some (None, cs, sp_world sp)"
      and "sp_get sp name = None"
  | (area) a pa cs where "GetPropAreaForName name (sp_contexts sp) (sp_world sp) = Some (Some a, cs, sp_world sp)"
      and "w_areas (sp_world sp) a = Some pa" and "area_ok (sp_ds sp) pa"
      and "sp_area sp name = Some a" and "sp_get sp name = area_get (sp_ds sp) pa name"
proof -
  note D = sp_okD [OF assms]
  obtain h cs where g: "GetPropAreaForName name (sp_contexts sp) (sp_world sp) = Some (h, cs, sp_world sp)"
    "\<forall>x. h = Some x \<longrightarrow> x \<in> dom (w_areas (sp_world sp))"
    using ctx.get_law [OF D(2,3), of name] by blast
  show ?thesis
  proof (cases h)
    case None
    then show ?thesis using none g sp_areaI [OF g(1)] by (simp add: sp_get_def)
  next
    case (Some a)
    with g obtain pa where pa: "w_areas (sp_world sp) a = Some pa" by auto
    then show ?thesis
      using area [OF _ pa D(4) [OF pa]] g(1) Some sp_areaI [OF g(1)] by (simp add: sp_get_def)
  qed
qed

section \<open>Reading a record\<close>

lemma c_str_take_value:
  assumes "rec_ok i"
  shows "c_str (take (length (pi_value i)) (pi_union i) @ [NUL]) = pi_value i"
proof -
  have "take (length (pi_value i)) (pi_union i) = pi_value i"
    by (simp add: pi_value_def c_str_def takeWhile_eq_take [symmetric])
  then show ?thesis
    using c_str_buf_write [of "pi_value i" "[]"] by (simp add: buf_write_def pi_value_def)
qed

lemma rec_ok_serial: "rec_ok i \<Longrightarrow> sp_Serial i = Some (pi_serial i)"
  by (auto simp: rec_ok_def sp_Serial_def SERIAL_DIRTY_def and_one_eq bit_0 even_iff_mod_2_eq_zero)

lemma ReadCallback_value:
  assumes "rec_ok i" and "prop_value pa off i = Some v"
  shows "sp_ReadCallback pa off i = Some (pi_name i, v, pi_serial i)"
proof -
  have "length (pi_value i) \<le> length (pi_union i)"
    by (simp add: pi_value_def c_str_def length_takeWhile_le)
  then show ?thesis
    using assms rec_ok_serial [OF assms(1)] c_str_take_value [OF assms(1)]
    by (auto simp: sp_ReadCallback_def prop_value_def SERIAL_VALUE_LEN_def rec_ok_def Let_def
        split: if_splits)
qed

section \<open>The laws of finding, adding, deleting and updating\<close>

lemma Find_law:
  assumes "sp_ok sp"
  shows "\<exists>pi sp1. sp_Find name sp = Some (pi, sp1) \<and> sp_ok sp1 \<and> (\<forall>m. sp_get sp1 m = sp_get sp m)
    \<and> (case pi of
         None \<Rightarrow> sp_get sp name = None
       | Some p \<Rightarrow> \<exists>pa i v serial. sp_info sp1 p = Some (pa, i)
           \<and> sp_ReadCallback pa (snd p) i = Some (name, v, serial) \<and> sp_get sp name = Some v)"
  using assms
proof (rule sp_lookup [of sp name])
  fix cs assume g: "GetPropAreaForName name (sp_contexts sp) (sp_world sp) = Some (None, cs, sp_world sp)"
    "sp_get sp name = None"
  let ?sp1 = "sp\<lparr>sp_contexts := cs, sp_world := sp_world sp\<rparr>"
  note st = sp_step [OF assms g(1) same_shape_refl sp_okD(4) [OF assms, unfolded sp_ds_def]]
  have "sp_get ?sp1 m = sp_get sp m" for m
    using st(2) [where m = m] by (simp add: sp_get_value_in)
  then show ?thesis
    using g st(1) sp_okD(1) [OF assms] by (simp add: sp_Find_def Let_def)
next
  fix a pa cs
  assume g: "GetPropAreaForName name (sp_contexts sp) (sp_world sp) = Some (Some a, cs, sp_world sp)"
    and pa: "w_areas (sp_world sp) a = Some pa" "area_ok (sp_ds sp) pa"
    and get: "sp_get sp name = area_get (sp_ds sp) pa name"
  let ?sp1 = "sp\<lparr>sp_contexts := cs, sp_world := sp_world sp\<rparr>"
  note st = sp_step [OF assms g same_shape_refl sp_okD(4) [OF assms, unfolded sp_ds_def]]
  have same: "sp_get ?sp1 m = sp_get sp m" for m
    using st(2) [where m = m] by (simp add: sp_get_value_in)
  obtain t where wf: "wf_area (sp_ds sp) pa t" using pa(2) by (auto simp: area_ok_def)
  have find: "sp_Find name sp = Some (map_option (Pair a) (tlook t (tokens name)), ?sp1)"
    using g pa sp_okD(1) [OF assms] area_find_wf [OF wf] by (simp add: sp_Find_def Let_def sp_ds_def)
  show ?thesis
  proof (cases "tlook t (tokens name)")
    case None
    then show ?thesis
      using find st(1) same get by (simp add: area_get_wf [OF wf] look_def)
  next
    case (Some p)
    then have "info_ok pa p (tokens name)" using wf by (simp add: wf_area_def)
    then obtain i v where i: "info_at pa p = Some i" "pi_name i = name" "rec_ok i"
      "prop_value pa p i = Some v"
      by (auto simp: info_ok_def tokens_inj split: option.splits)
    then have "sp_get sp name = Some v"
      using Some get by (simp add: area_get_wf [OF wf] look_def value_at_def)
    then show ?thesis
      using find st(1) same Some pa(1) i ReadCallback_value [OF i(3,4)]
      by (simp add: sp_info_def)
  qed
qed

lemma Add_law:
  assumes ok: "sp_ok sp" and nul: "NUL \<notin> set value"
  shows "\<exists>r sp'. sp_Add name value sp = Some (r, sp') \<and> sp_ok sp' \<and> r \<in> {0, - 1}
    \<and> (\<forall>m. sp_get sp' m =
           (if r = 0 \<and> m = name \<and> sp_get sp name = None then Some value else sp_get sp m))
    \<and> sp_AreaSerial sp' = map_option (\<lambda>s. if r = 0 then s + 1 else s) (sp_AreaSerial sp)
    \<and> (\<forall>h pa. name \<noteq> [] \<and> storable name value \<and> sp_area sp name = Some h
         \<and> w_areas (sp_world sp) h = Some pa \<and> area_room (sp_ds sp) pa name value \<longrightarrow> r = 0)"
proof (cases "(length value \<ge> PROP_VALUE_MAX \<and> \<not> is_read_only name) \<or> name = []")
  case True
  then have "sp_Add name value sp = Some (- 1, sp)" by (auto simp: sp_Add_def Suc_le_eq)
  moreover have "\<not> storable name value \<or> name = []" using True by (auto simp: storable_def)
  ultimately show ?thesis using ok by (auto simp: option.map_ident)
next
  case False
  then have st: "storable name value" "name \<noteq> []" using nul by (auto simp: storable_def)
  obtain hs where hs: "GetSerialPropArea (sp_contexts sp) = Some hs" using sp_okD(5) [OF ok] by blast
  from ok show ?thesis
  proof (rule sp_lookup [of sp name])
    fix cs assume g: "GetPropAreaForName name (sp_contexts sp) (sp_world sp) = Some (None, cs, sp_world sp)"
      "sp_get sp name = None"
    note stp = sp_step [OF ok g(1) same_shape_refl sp_okD(4) [OF ok, unfolded sp_ds_def]]
    have "sp_Add name value sp = Some (- 1, sp\<lparr>sp_contexts := cs, sp_world := sp_world sp\<rparr>)"
      using False hs g sp_okD(1) [OF ok] by (auto simp: sp_Add_def Let_def Suc_le_eq)
    moreover have "sp_get (sp\<lparr>sp_contexts := cs, sp_world := sp_world sp\<rparr>) m = sp_get sp m" for m
      using stp(2) [where m = m] by (simp add: sp_get_value_in)
    moreover have "GetSerialPropArea cs = Some hs"
      using ctx.get_law [OF sp_okD(2,3) [OF ok], of name] g hs by auto
    ultimately show ?thesis
      using stp(1) sp_areaI [OF g(1)] sp_okD(1) [OF ok] hs by (simp add: sp_AreaSerial_def option.map_ident)
  next
    fix a pa cs
    assume g: "GetPropAreaForName name (sp_contexts sp) (sp_world sp) = Some (Some a, cs, sp_world sp)"
      and pa: "w_areas (sp_world sp) a = Some pa" "area_ok (sp_ds sp) pa"
      and ar: "sp_area sp name = Some a" and get: "sp_get sp name = area_get (sp_ds sp) pa name"
    obtain pa' ret where add: "area_add (sp_ds sp) pa name value = Some (pa', ret)" "area_ok (sp_ds sp) pa'"
      "area_room (sp_ds sp) pa name value \<longrightarrow> ret"
      using area_add_get [OF pa(2) st(1)] by blast
    have m: "area_get (sp_ds sp) pa' m =
        (if ret \<and> m = name \<and> area_get (sp_ds sp) pa name = None then Some value
         else area_get (sp_ds sp) pa m)" for m
      using area_add_get [OF pa(2) st(1), of m] add(1) by auto
    note ch = sp_change [OF ok g pa(1) head_area_add [OF add(1)] add(2) hs,
        where P = "\<lambda>m. ret \<and> m = name \<and> area_get (sp_ds sp) pa name = None" and x = "Some value" and b = ret,
        OF m]
    let ?w1 = "(sp_world sp)\<lparr>w_areas := (w_areas (sp_world sp))(a \<mapsto> pa')\<rparr>"
    have "sp_Add name value sp = Some (if ret then 0 else - 1,
        sp\<lparr>sp_contexts := cs, sp_world := if ret then bump_serial hs ?w1 else ?w1\<rparr>)"
      using False hs g pa add(1) sp_okD(1) [OF ok] by (auto simp: sp_Add_def Let_def sp_ds_def Suc_le_eq)
    then show ?thesis
      using ch ar get add(3) pa(1) by auto
  qed
qed

lemma Delete_law:
  assumes ok: "sp_ok sp"
  shows "\<exists>r sp'. sp_Delete name sp = Some (r, sp') \<and> sp_ok sp' \<and> r \<in> {0, - 1}
    \<and> (\<forall>m. sp_get sp' m = (if m = name then None else sp_get sp m))
    \<and> sp_AreaSerial sp' = map_option (\<lambda>s. if r = 0 then s + 1 else s) (sp_AreaSerial sp)
    \<and> (sp_get sp name \<noteq> None \<longrightarrow> r = 0)"
proof -
  obtain hs where hs: "GetSerialPropArea (sp_contexts sp) = Some hs" using sp_okD(5) [OF ok] by blast
  from ok show ?thesis
  proof (rule sp_lookup [of sp name])
    fix cs assume g: "GetPropAreaForName name (sp_contexts sp) (sp_world sp) = Some (None, cs, sp_world sp)"
      "sp_get sp name = None"
    note stp = sp_step [OF ok g(1) same_shape_refl sp_okD(4) [OF ok, unfolded sp_ds_def]]
    have "sp_Delete name sp = Some (- 1, sp\<lparr>sp_contexts := cs, sp_world := sp_world sp\<rparr>)"
      using hs g sp_okD(1) [OF ok] by (auto simp: sp_Delete_def Let_def)
    moreover have "sp_get (sp\<lparr>sp_contexts := cs, sp_world := sp_world sp\<rparr>) m = sp_get sp m" for m
      using stp(2) [where m = m] by (simp add: sp_get_value_in)
    moreover have "GetSerialPropArea cs = Some hs"
      using ctx.get_law [OF sp_okD(2,3) [OF ok], of name] g hs by auto
    ultimately show ?thesis
      using stp(1) g(2) sp_okD(1) [OF ok] hs by (simp add: sp_AreaSerial_def option.map_ident)
  next
    fix a pa cs
    assume g: "GetPropAreaForName name (sp_contexts sp) (sp_world sp) = Some (Some a, cs, sp_world sp)"
      and pa: "w_areas (sp_world sp) a = Some pa" "area_ok (sp_ds sp) pa"
      and ar: "sp_area sp name = Some a" and get: "sp_get sp name = area_get (sp_ds sp) pa name"
    obtain pa' ret where del: "area_del (sp_ds sp) pa name = Some (pa', ret)" "area_ok (sp_ds sp) pa'"
      "area_get (sp_ds sp) pa name \<noteq> None \<longrightarrow> ret"
      using area_del_get [OF pa(2)] by blast
    have m: "area_get (sp_ds sp) pa' m = (if m = name then None else area_get (sp_ds sp) pa m)" for m
      using area_del_get [OF pa(2), of name m] del(1) by auto
    note ch = sp_change [OF ok g pa(1) head_area_del [OF del(1)] del(2) hs,
        where P = "\<lambda>m. m = name" and x = None and b = ret, OF m]
    let ?w1 = "(sp_world sp)\<lparr>w_areas := (w_areas (sp_world sp))(a \<mapsto> pa')\<rparr>"
    have "sp_Delete name sp = Some (if ret then 0 else - 1,
        sp\<lparr>sp_contexts := cs, sp_world := if ret then bump_serial hs ?w1 else ?w1\<rparr>)"
      using hs g pa del(1) sp_okD(1) [OF ok] by (auto simp: sp_Delete_def Let_def sp_ds_def)
    then show ?thesis
      using ch ar get del(3) by auto
  qed
qed

text \<open>
  An update that leaves a record holding its own value, or one that still refers to the long
  value it had: short enough not to reach the offset of the long value.
\<close>

definition keeps_long :: "string \<Rightarrow> nat \<Rightarrow> prop_info \<Rightarrow> bool" where
  "keeps_long value len i \<longleftrightarrow> is_long i \<and> is_long (updated_info value len i) \<and> len < kLongLegacyErrorBufferSize"

lemma keeps_long_offset:
  assumes "keeps_long value len i" and "length (pi_union i) = PROP_VALUE_MAX"
  shows "long_offset (updated_info value len i) = long_offset i"
  using assms
  by (auto simp: keeps_long_def long_offset_def updated_info_def Let_def drop_buf_write_before
      PROP_VALUE_MAX_def kLongLegacyErrorBufferSize_def)

lemma bump_AreaSerial:
  assumes "sp_initialized sp" and "GetSerialPropArea (sp_contexts sp) = Some hs"
    and "GetSerialPropArea cs = Some hs" and "w_areas (sp_world sp) a = Some pa"
    and "pa_head pa' = pa_head pa"
  shows "sp_AreaSerial (sp\<lparr>sp_contexts := cs, sp_world :=
        bump_serial hs ((sp_world sp)\<lparr>w_areas := (w_areas (sp_world sp))(a \<mapsto> pa')\<rparr>)\<rparr>)
    = map_option (\<lambda>s. s + 1) (sp_AreaSerial sp)"
proof -
  have "pa_serial pa' = pa_serial pa" using assms(5) by (simp add: pa_head_def)
  then show ?thesis
    using assms(1-4) by (simp add: sp_AreaSerial_def bump_areas option.map_comp comp_def)
qed

lemma Update_full:
  assumes ok: "sp_ok sp" and find: "sp_Find name sp = Some (Some p, sp1)"
    and info: "sp_info sp1 p = Some (pa, i)"
    and len: "len < PROP_VALUE_MAX" "len \<le> length value" and nul: "NUL \<notin> set value"
  shows "\<exists>sp2. sp_Update p value len sp1 = Some (0, sp2)
    \<and> sp_AreaSerial sp2 = map_option (\<lambda>s. s + 1) (sp_AreaSerial sp)
    \<and> (is_read_only name \<and> is_long (updated_info value len i) \<longrightarrow> keeps_long value len i \<longrightarrow>
         sp_ok sp2 \<and> (\<forall>m. sp_get sp2 m = sp_get sp m))
    \<and> (\<not> (is_read_only name \<and> is_long (updated_info value len i)) \<longrightarrow>
         sp_ok sp2 \<and> (\<forall>m. sp_get sp2 m = (if m = name then Some (take len value) else sp_get sp m)))"
proof -
  obtain hs where hs: "GetSerialPropArea (sp_contexts sp) = Some hs" using sp_okD(5) [OF ok] by blast
  from ok show ?thesis
  proof (rule sp_lookup [of sp name])
    fix cs assume "GetPropAreaForName name (sp_contexts sp) (sp_world sp) = Some (None, cs, sp_world sp)"
    then show ?thesis using find sp_okD(1) [OF ok] by (simp add: sp_Find_def Let_def)
  next
    fix a pa0 cs
    assume g: "GetPropAreaForName name (sp_contexts sp) (sp_world sp) = Some (Some a, cs, sp_world sp)"
      and pa0: "w_areas (sp_world sp) a = Some pa0" "area_ok (sp_ds sp) pa0"
      and ar: "sp_area sp name = Some a"
    obtain t where wf: "wf_area (sp_ds sp) pa0 t" using pa0(2) by (auto simp: area_ok_def)
    have "sp_Find name sp = Some (map_option (Pair a) (tlook t (tokens name)),
        sp\<lparr>sp_contexts := cs, sp_world := sp_world sp\<rparr>)"
      using g pa0 sp_okD(1) [OF ok] area_find_wf [OF wf] by (simp add: sp_Find_def Let_def sp_ds_def)
    with find obtain off where off: "tlook t (tokens name) = Some off" "p = (a, off)"
      and sp1: "sp1 = sp\<lparr>sp_contexts := cs, sp_world := sp_world sp\<rparr>" by auto
    with info pa0 have i: "pa = pa0" "info_at pa0 off = Some i" by (auto simp: sp_info_def)
    have io: "info_ok pa0 off (tokens name)" using wf off by (simp add: wf_area_def)
    then have nm: "pi_name i = name" "rec_ok i" using i by (auto simp: info_ok_def tokens_inj)
    note u = updated_info_ok [OF _ len nul, of i]
    let ?pa' = "upd_info pa0 off (updated_info value len)"
    let ?rl = "is_read_only name \<and> is_long (updated_info value len i)"
    have u': "pi_name (updated_info value len i) = pi_name i" "rec_ok (updated_info value len i)"
      "pi_value (updated_info value len i) = take len value"
      using u nm by (auto simp: rec_ok_def [of i])
    have hd: "pa_head ?pa' = pa_head pa0"
      by (auto simp: upd_info_def pa_head_def split: option.splits pobj.splits)
    have cs: "GetSerialPropArea cs = Some hs"
      using ctx.get_law [OF sp_okD(2,3) [OF ok], of name] g hs by auto
    let ?sp2 = "sp\<lparr>sp_contexts := cs, sp_world :=
        bump_serial hs ((sp_world sp)\<lparr>w_areas := (w_areas (sp_world sp))(a \<mapsto> ?pa')\<rparr>)\<rparr>"
    have upd: "sp_Update p value len sp1 = Some (0, ?sp2)"
      using cs len sp_okD(1) [OF ok] off i pa0 by (simp add: sp_Update_def sp1 sp_info_def Let_def)
    have serial: "sp_AreaSerial ?sp2 = map_option (\<lambda>s. s + 1) (sp_AreaSerial sp)"
      using bump_AreaSerial [OF sp_okD(1) [OF ok] hs cs pa0(1) hd] .
    have good: "sp_ok ?sp2 \<and> (\<forall>m. sp_get ?sp2 m =
        (if m = name \<and> \<not> ?rl then Some (take len value) else sp_get sp m))"
      if kl: "?rl \<longrightarrow> keeps_long value len i"
    proof -
      have "is_read_only (pi_name i) \<and> is_long (updated_info value len i) \<Longrightarrow>
          is_long i \<and> long_offset (updated_info value len i) = long_offset i"
        using kl nm keeps_long_offset [where i = i] by (auto simp: keeps_long_def rec_ok_def)
      with wf_area_upd_info [where f = "updated_info value len", OF wf off(1) i(2) u'(1,2)]
      have wfu: "wf_area (sp_ds sp) ?pa' t" "\<And>m. look ?pa' t m =
          (if m = name \<and> \<not> (is_read_only (pi_name i) \<and> is_long (updated_info value len i))
           then Some (pi_value (updated_info value len i)) else look pa0 t m)"
        by blast+
      have m: "area_get (sp_ds sp) ?pa' m =
          (if m = name \<and> \<not> ?rl then Some (take len value) else area_get (sp_ds sp) pa0 m)" for m
        using wfu(2) [of m] u'(3) nm by (auto simp: area_get_wf [OF wf] area_get_wf [OF wfu(1)])
      show ?thesis
        using sp_change [OF ok g pa0(1) hd area_okI [OF wfu(1)] hs,
          where P = "\<lambda>m. m = name \<and> \<not> ?rl" and x = "Some (take len value)" and b = True, OF m] ar
        by auto
    qed
    show ?thesis using upd serial good by auto
  qed
qed

lemma Update_law:
  assumes ok: "sp_ok sp" and find: "sp_Find name sp = Some (Some p, sp1)"
    and info: "sp_info sp1 p = Some (pa, i)"
    and len: "len < PROP_VALUE_MAX" "len \<le> length value" and nul: "NUL \<notin> set value"
    and flag: "\<not> (is_read_only name \<and> is_long (updated_info value len i))"
  shows "\<exists>sp2. sp_Update p value len sp1 = Some (0, sp2) \<and> sp_ok sp2
    \<and> (\<forall>m. sp_get sp2 m = (if m = name then Some (take len value) else sp_get sp m))
    \<and> sp_AreaSerial sp2 = map_option (\<lambda>s. s + 1) (sp_AreaSerial sp)"
  using Update_full [OF assms(1-6)] flag by blast

section \<open>Properties\<close>

text \<open>A device with one area file, as before the split into contexts, holding no property.\<close>

definition sample_sp :: sysprops where
  "sample_sp =
     \<lparr>sp_initialized = True, sp_contexts = PreSplit (Some ''p''), sp_filename = ''p'',
      sp_world =
        \<lparr>w_areas = [''p'' \<mapsto> prop_area_init PROP_AREA_MAGIC PROP_AREA_VERSION],
         w_stat = [''p'' \<mapsto> \<lparr>st_uid = 0, st_gid = 0, st_mode = 0, st_size = 131072\<rparr>],
         w_info_stat = Map.empty, w_can_open = \<lambda>_. True, w_readable = \<lambda>_. True,
         w_create = \<lambda>_. \<lparr>cr_errno = None, cr_setxattr = True, cr_ftruncate = True, cr_mmap = True\<rparr>,
         w_text = Map.empty, w_image = Map.empty, w_sizes = (131072, 130944)\<rparr>\<rparr>"

lemma sample_sp_ok: "sp_ok sample_sp"
  using area_ok_init [of 130944]
  by (auto simp: sp_ok_def sample_sp_def sizes_ok_def contexts_ok_def pre_ok_def sp_ds_def
      GetSerialPropArea_def sizeof_prop_area_def sizeof_prop_bt_def split: if_splits)

lemma sample_sp_area: "sp_area sample_sp m = Some ''p''"
  "w_areas (sp_world sample_sp) ''p'' = Some (prop_area_init PROP_AREA_MAGIC PROP_AREA_VERSION)"
  "sp_ds sample_sp = 130944"
  by (simp_all add: sp_area_def sample_sp_def GetPropAreaForName_def sp_ds_def)

lemma sample_sp_get: "sp_get sample_sp m = None"
  using area_find_init [of 130944] by (simp add: sp_get_def sample_sp_area sizeof_prop_bt_def)

lemma sample_room: "area_room 130944 (prop_area_init mg ver) ''ro.x'' ''1''"
  by (simp add: area_room_def prop_area_init_def add_need_def info_size_def node_size_def
      sizeof_prop_bt_def sizeof_prop_info_def align4_def PROP_VALUE_MAX_def)

text \<open>
  Property C6. On a well-formed state \<open>Find\<close> always returns, changes no property, and
  \<open>ReadCallback\<close> on the record it returns hands the callback the name asked for and the current
  value of the property; a null result means there is no such property.
\<close>

theorem Find_ReadCallback:
  assumes "sp_ok sp"
  shows "\<exists>pi sp1. sp_Find name sp = Some (pi, sp1) \<and> sp_ok sp1 \<and> (\<forall>m. sp_get sp1 m = sp_get sp m)
    \<and> (case pi of
         None \<Rightarrow> sp_get sp name = None
       | Some p \<Rightarrow> \<exists>pa i v serial. sp_info sp1 p = Some (pa, i)
           \<and> sp_ReadCallback pa (snd p) i = Some (name, v, serial) \<and> sp_get sp name = Some v)"
  by (rule Find_law [OF assms])

theorem Find_ReadCallback_witness:
  "\<exists>sp1. sp_Find ''ro.x'' sample_sp = Some (None, sp1) \<and> sp_ok sp1"
  using Find_ReadCallback [OF sample_sp_ok, of "''ro.x''"] sample_sp_get
  by (auto split: option.splits) (metis option.exhaust surj_pair)

text \<open>
  Property C5. On a well-formed state \<open>Add\<close> always returns 0 or -1 and leaves a well-formed
  state. When it returns 0 a name that was free has the given value, every other property is
  unchanged and the global serial number has advanced by one; when it returns -1 nothing is
  changed for readers. It does return 0 if the name is not empty, its area exists and has
  room, and the value fits a record or the name is read-only.
\<close>

theorem Add_correct:
  assumes ok: "sp_ok sp" and nul: "NUL \<notin> set value"
  shows "\<exists>r sp'. sp_Add name value sp = Some (r, sp') \<and> sp_ok sp' \<and> r \<in> {0, - 1}
    \<and> (\<forall>m. sp_get sp' m =
           (if r = 0 \<and> m = name \<and> sp_get sp name = None then Some value else sp_get sp m))
    \<and> sp_AreaSerial sp' = map_option (\<lambda>s. if r = 0 then s + 1 else s) (sp_AreaSerial sp)
    \<and> (\<forall>h pa. name \<noteq> [] \<and> storable name value \<and> sp_area sp name = Some h
         \<and> w_areas (sp_world sp) h = Some pa \<and> area_room (sp_ds sp) pa name value \<longrightarrow> r = 0)"
  by (rule Add_law [OF assms])

theorem Add_correct_witness:
  "\<exists>sp'. sp_Add ''ro.x'' ''1'' sample_sp = Some (0, sp') \<and> sp_get sp' ''ro.x'' = Some ''1''
     \<and> sp_AreaSerial sp' = Some 1"
proof -
  have n: "NUL \<notin> set ''1''" by simp
  have "storable ''ro.x'' ''1''" by (simp add: storable_def PROP_VALUE_MAX_def)
  moreover have "sp_AreaSerial sample_sp = Some 0"
    by (simp add: sp_AreaSerial_def sample_sp_def GetSerialPropArea_def prop_area_init_def)
  ultimately show ?thesis
    using Add_correct [OF sample_sp_ok n, of "''ro.x''"] sample_sp_area sample_sp_get sample_room
    by auto
qed

text \<open>
  Property C9. On a well-formed state \<open>Delete\<close> always returns 0 or -1 and leaves a well-formed
  state without the property: every other property is unchanged whatever it returns, it
  returns 0 if the property was there, and the global serial number advances by one exactly
  when it returns 0.
\<close>

theorem Delete_correct:
  assumes ok: "sp_ok sp"
  shows "\<exists>r sp'. sp_Delete name sp = Some (r, sp') \<and> sp_ok sp' \<and> r \<in> {0, - 1}
    \<and> (\<forall>m. sp_get sp' m = (if m = name then None else sp_get sp m))
    \<and> sp_AreaSerial sp' = map_option (\<lambda>s. if r = 0 then s + 1 else s) (sp_AreaSerial sp)
    \<and> (sp_get sp name \<noteq> None \<longrightarrow> r = 0)"
  using Delete_law [OF assms] .

theorem Delete_correct_witness:
  "\<exists>r sp'. sp_Delete ''ro.x'' sample_sp = Some (r, sp') \<and> sp_ok sp' \<and> sp_get sp' ''ro.x'' = None"
  using Delete_correct [OF sample_sp_ok, of "''ro.x''"] by auto

text \<open>
  Property C7. Updating the record found for a name with the first \<open>len\<close> characters of a value.
  A length of 92 or more is refused with -1 and nothing changes. Any other length returns 0 and
  advances the global serial number by one; and then: (a) unless the name is read-only and the
  updated serial number carries the flag of a long value, exactly this property has the new
  value and the state is well-formed; (b) if the name is read-only, the record carried the flag
  before and after, and \<open>len\<close> is below 56, every property, this one included, keeps its old value
  although 0 is returned. (The remaining updates of flagged read-only records, whose offset of
  the long value is overwritten or never was one, leave a record that cannot be read.)
\<close>

theorem Update_correct:
  assumes ok: "sp_ok sp" and find: "sp_Find name sp = Some (Some p, sp1)"
    and info: "sp_info sp1 p = Some (pa, i)" and nul: "NUL \<notin> set value" and len: "len \<le> length value"
  shows "if len \<ge> PROP_VALUE_MAX then sp_Update p value len sp1 = Some (- 1, sp1)
    else \<exists>sp2. sp_Update p value len sp1 = Some (0, sp2)
      \<and> sp_AreaSerial sp2 = map_option (\<lambda>s. s + 1) (sp_AreaSerial sp)
      \<and> (\<not> (is_read_only name \<and> is_long (updated_info value len i)) \<longrightarrow>
           sp_ok sp2 \<and> (\<forall>m. sp_get sp2 m = (if m = name then Some (take len value) else sp_get sp m)))
      \<and> (is_read_only name \<and> is_long i \<and> is_long (updated_info value len i) \<and> len < 56 \<longrightarrow>
           sp_ok sp2 \<and> (\<forall>m. sp_get sp2 m = sp_get sp m))"
proof (cases "PROP_VALUE_MAX \<le> len")
  case True
  then show ?thesis by (simp add: sp_Update_def)
next
  case False
  then have "len < PROP_VALUE_MAX" by simp
  from Update_full [OF ok find info this len nul] False show ?thesis
    unfolding keeps_long_def kLongLegacyErrorBufferSize_def by (simp only: if_False) blast
qed

theorem Update_correct_witness:
  "\<exists>sp' p sp1 sp2. sp_Add ''sys.x'' ''1'' sample_sp = Some (0, sp')
     \<and> sp_Find ''sys.x'' sp' = Some (Some p, sp1)
     \<and> sp_Update p ''22'' 2 sp1 = Some (0, sp2) \<and> sp_get sp2 ''sys.x'' = Some ''22''"
proof -
  have n: "NUL \<notin> set ''1''" "NUL \<notin> set ''22''" by simp_all
  have "storable ''sys.x'' ''1''" by (simp add: storable_def PROP_VALUE_MAX_def)
  moreover have "area_room 130944 (prop_area_init mg ver) ''sys.x'' ''1''" for mg ver
    by (simp add: area_room_def prop_area_init_def add_need_def info_size_def node_size_def
      sizeof_prop_bt_def sizeof_prop_info_def align4_def PROP_VALUE_MAX_def)
  ultimately obtain sp' where sp': "sp_Add ''sys.x'' ''1'' sample_sp = Some (0, sp')" "sp_ok sp'"
    "sp_get sp' ''sys.x'' = Some ''1''"
    using Add_law [OF sample_sp_ok n(1), of "''sys.x''"] sample_sp_area sample_sp_get by auto
  obtain pi sp1 where f: "sp_Find ''sys.x'' sp' = Some (pi, sp1)"
    "case pi of None \<Rightarrow> sp_get sp' ''sys.x'' = None
     | Some p \<Rightarrow> \<exists>pa i v serial. sp_info sp1 p = Some (pa, i)
         \<and> sp_ReadCallback pa (snd p) i = Some (''sys.x'', v, serial) \<and> sp_get sp' ''sys.x'' = Some v"
    using Find_law [OF sp'(2), of "''sys.x''"] by blast
  then obtain p pa i where p: "pi = Some p" "sp_info sp1 p = Some (pa, i)"
    using sp'(3) by (auto split: option.splits)
  have "\<not> is_read_only ''sys.x''" by (simp add: is_read_only_def eval_nat_numeral)
  then obtain sp2 where "sp_Update p ''22'' 2 sp1 = Some (0, sp2)"
    "sp_get sp2 ''sys.x'' = Some (take 2 ''22'')"
    using Update_correct [OF sp'(2) f(1) [unfolded p(1)] p(2) n(2), of 2]
    by (auto simp: PROP_VALUE_MAX_def)
  then show ?thesis using sp'(1) f(1) p(1) by fastforce
qed

text \<open>
  Updating a read-only property that was added with a long value keeps the flag
  and the offset of the long value, if the new value is at most 55 characters long: the update
  reports success and \<open>ReadCallback\<close> goes on returning the old long value.
\<close>

theorem Update_long_keeps_old:
  assumes "is_read_only nm" and "len < kLongLegacyErrorBufferSize" and "off_v < 2 ^ 32"
    and "sp_ReadCallback pa off (prop_info_long nm off_v) = Some (nm, old, serial)"
    and "len \<le> length v"
  shows "\<exists>serial'. sp_ReadCallback pa off (updated_info v len (prop_info_long nm off_v))
           = Some (nm, old, serial')"
proof -
  let ?i = "prop_info_long nm off_v" let ?u = "updated_info v len ?i"
  have "bit (((pi_serial ?i OR 1) + 1) AND 0xffffff) 16"
    by (simp add: prop_info_long_def kLongFlag_def kLongLegacyError_def bit_simps)
  then have "bit (pi_serial ?u AND kLongFlag) 16"
    by (simp add: updated_info_def Let_def bit_and_iff bit_or_iff bit_kLongFlag)
  then have lg: "is_long ?u" by (auto simp: is_long_def)
  have clean: "sp_Serial ?u = Some (pi_serial ?u)"
    using updated_serial_clean [of len "pi_serial ?i"]
    by (auto simp: sp_Serial_def SERIAL_DIRTY_def updated_info_def Let_def and_one_eq bit_0
        even_iff_mod_2_eq_zero)
  have "drop kLongLegacyErrorBufferSize (pi_union ?u) = drop kLongLegacyErrorBufferSize (pi_union ?i)"
    using assms by (simp add: updated_info_def Let_def drop_buf_write_before prop_info_long_def
        kLongLegacyErrorBufferSize_def kLongLegacyError_def)
  then have "long_value pa off ?u = long_value pa off ?i"
    by (simp add: long_value_def long_offset_def)
  moreover have "pi_name ?u = nm" by (simp add: updated_info_def Let_def)
  ultimately show ?thesis
    using assms(1,4) lg clean by (auto simp: sp_ReadCallback_def split: bind_splits)
qed

theorem Update_long_keeps_old_witness:
  "\<exists>serial'. sp_ReadCallback ((prop_area_init 0 0)\<lparr>pa_data := [300 \<mapsto> LongValue ''old'']\<rparr>) 100
     (updated_info ''new'' 3 (prop_info_long ''ro.x'' 200)) = Some (''ro.x'', ''old'', serial')"
proof -
  let ?pa = "(prop_area_init 0 0)\<lparr>pa_data := [300 \<mapsto> LongValue ''old'']\<rparr>"
  have ro: "is_read_only ''ro.x''" by (simp add: is_read_only_def eval_nat_numeral)
  have "sp_Serial (prop_info_long ''ro.x'' 200) = Some (pi_serial (prop_info_long ''ro.x'' 200))"
    by (rule rec_ok_serial [OF rec_ok_long])
  moreover have "long_value ?pa 100 (prop_info_long ''ro.x'' 200) = Some ''old''"
    by (simp add: long_value_def long_offset_long)
  ultimately have "sp_ReadCallback ?pa 100 (prop_info_long ''ro.x'' 200)
      = Some (''ro.x'', ''old'', pi_serial (prop_info_long ''ro.x'' 200))"
    using ro by (simp add: sp_ReadCallback_def)
  from Update_long_keeps_old [OF ro _ _ this, of 3 "''new''"] show ?thesis
    by (simp add: kLongLegacyErrorBufferSize_def)
qed

text \<open>
  The update counter shares its field with the flag of long values: when its low
  16 bits are \<open>0xfffe\<close> the next update carries into bit 16, and a short value is from then on
  taken for a long one.
\<close>

theorem Update_counter_sets_long_flag:
  assumes "take_bit 17 (pi_serial i) = 0xfffe"
  shows "\<not> is_long i \<and> is_long (updated_info v len i)"
proof -
  let ?s = "pi_serial i" and ?n = "unat (pi_serial i)"
  have "unat (take_bit 17 ?s) = 65534" using assms by simp
  then have n: "?n mod 131072 = 65534" by (simp add: take_bit_eq_mod unat_mod_distrib)
  have bit16: "bit (w :: u32) 16 \<longleftrightarrow> odd (unat w div 65536)" for w
    using bit_unsigned_iff [of w 16, where 'a = nat] by (simp add: bit_iff_odd)
  define q where "q = ?n div 131072"
  have q: "?n = 65536 * (2 * q) + 65534"
    using n div_mult_mod_eq [of ?n 131072] by (simp add: q_def)
  then have "even ?n" by simp
  then have "even ?s" using bit_unsigned_iff [of ?s 0, where 'a = nat] by (simp add: bit_0)
  then have "?s OR 1 = ?s + 1" by (simp add: or_one_eq)
  then have e: "(?s OR 1) + 1 = ?s + 2" by simp
  have "unat (?s + 2) = (?n + 2) mod 4294967296" by (simp add: unat_word_ariths)
  also have "?n + 2 = 65536 * (2 * q + 1)" using q by simp
  also have "(65536 * (2 * q + 1)) mod 4294967296 = 65536 * ((2 * q + 1) mod 65536)"
    using mult_mod_right [of 65536 "2 * q + 1" 65536] by simp
  finally have "unat (?s + 2) div 65536 = (2 * q + 1) mod 65536" by simp
  moreover have "odd ((2 * q + 1) mod 65536)" by (simp add: dvd_mod_iff)
  ultimately have "odd (unat (?s + 2) div 65536)" by simp
  then have b2: "bit (?s + 2) 16" by (simp add: bit16)
  have "?n div 65536 = 2 * q" using q by simp
  then have "even (?n div 65536)" by simp
  then have "\<not> bit ?s 16" by (simp add: bit16)
  have flag: "is_long j \<longleftrightarrow> bit (pi_serial j) 16" for j
  proof -
    have "(w AND kLongFlag = 0) = (\<not> bit w 16)" for w :: u32
      using bit_eq_iff [of "w AND kLongFlag" 0]
      by (simp add: bit_and_iff bit_kLongFlag) (metis numeral_less_iff semiring_norm(76,78))
    then show ?thesis by (simp add: is_long_def)
  qed
  have "bit (0xffffff :: u32) 16" by (simp add: bit_numeral_rec)
  then show ?thesis
    using b2 \<open>\<not> bit ?s 16\<close> by (simp add: flag updated_info_def Let_def e bit_or_iff bit_and_iff)
qed

theorem Update_counter_sets_long_flag_witness:
  "is_long (updated_info ''v'' 1 ((prop_info_short ''ro.x'' ''v'')\<lparr>pi_serial := 0x100fffe\<rparr>))"
  using Update_counter_sets_long_flag [of "(prop_info_short ''ro.x'' ''v'')\<lparr>pi_serial := 0x100fffe\<rparr>"]
  by (simp add: take_bit_eq_mod)

text \<open>
  \<open>FindNth\<close> returns the property that \<open>Foreach\<close> visits in position \<open>n\<close>, counting
  from 0, and null if there are at most \<open>n\<close> properties.
\<close>

theorem FindNth_correct:
  assumes "sp_Foreach sp = Some (r, ps, sp')" and "length ps < 2 ^ 32"
  shows "sp_FindNth n sp = Some (if unat n < length ps then Some (ps ! unat n) else None, sp')"
proof -
  have "snd (fold (find_nth_fn n) qs (of_nat k, z)) =
      (if k \<le> unat n \<and> unat n < k + length qs then Some (qs ! (unat n - k)) else z)"
    if "k + length qs < 2 ^ 32" for qs :: "pi_ptr list" and k z
    using that
  proof (induction qs arbitrary: k z)
    case (Cons q qs)
    have k: "(of_nat k = n) = (k = unat n)"
      using Cons.prems by (auto simp: word_unat_eq_iff unat_of_nat)
    have "snd (fold (find_nth_fn n) (q # qs) (of_nat k, z)) =
        snd (fold (find_nth_fn n) qs (of_nat (Suc k), if of_nat k = n then Some q else z))"
      by (simp add: find_nth_fn_def add.commute)
    also have "\<dots> = (if Suc k \<le> unat n \<and> unat n < Suc k + length qs then Some (qs ! (unat n - Suc k))
        else if of_nat k = n then Some q else z)"
      using Cons.IH [of "Suc k" "if of_nat k = n then Some q else z"] Cons.prems by simp
    also have "\<dots> = (if k \<le> unat n \<and> unat n < k + length (q # qs) then Some ((q # qs) ! (unat n - k)) else z)"
      using k by (auto simp: nth_Cons Suc_diff_le diff_Suc split: nat.splits)
    finally show ?case .
  qed auto
  from this [of 0 ps None] show ?thesis using assms by (simp add: sp_FindNth_def)
qed

theorem FindNth_correct_witness:
  "\<exists>sp'. sp_FindNth 3 sample_sp = Some (None, sp')"
proof -
  have bt: "bt_at (prop_area_init mg ver) 0 = Some zero_bt" for mg ver
    by (simp add: bt_at_def prop_area_init_def)
  have "area_foreach 130944 (prop_area_init mg ver) = Some (True, [])" for mg ver
    unfolding area_foreach_def root_node_0
    by (subst foreach_property.simps) (simp add: bt zero_bt_def walk_err_def)
  then have "sp_Foreach sample_sp = Some (0, [], sample_sp)"
    by (simp add: sp_Foreach_def contexts_ForEach_def sample_sp_def)
  from FindNth_correct [OF this, of 3] show ?thesis by simp
qed

end
