(* ===== verification/Contexts_Split_Correct.thy ===== *)
theory Contexts_Split_Correct
  imports Contexts
begin

text \<open>
  The prefix list that \<open>ContextsSplit\<close> builds from the property\_contexts files: it is kept
  longest prefix first with the wildcards last, so that the first match is the most specific.
\<close>

definition star :: "string \<Rightarrow> bool" where
  "star p \<longleftrightarrow> p \<noteq> [] \<and> hd p = CHR ''*''"

definition before :: "string \<times> string \<Rightarrow> string \<times> string \<Rightarrow> bool" where
  "before a b \<longleftrightarrow> star (fst b) \<or> \<not> star (fst a) \<and> length (fst b) \<le> length (fst a)"

text \<open>A wildcard is a lone star.\<close>

definition plain_prefix :: "string \<Rightarrow> bool" where
  "plain_prefix p \<longleftrightarrow> p \<noteq> [] \<and> (star p \<longrightarrow> p = ''*'')"

definition prefixes_inv :: "(string \<times> string) list \<Rightarrow> bool" where
  "prefixes_inv ps \<longleftrightarrow> sorted_wrt before ps \<and> (\<forall>pc \<in> set ps. plain_prefix (fst pc))"

lemma set_ListAddAfterLen [simp]: "set (ListAddAfterLen ps p c) = insert (p, c) (set ps)"
  by (induction ps p c rule: ListAddAfterLen.induct) auto

lemma prefixes_inv_add:
  assumes "prefixes_inv ps" and "plain_prefix p"
  shows "prefixes_inv (ListAddAfterLen ps p c)"
  using assms
proof (induction ps p c rule: ListAddAfterLen.induct)
  case (2 q d ps p c)
  have q: "plain_prefix q" "prefixes_inv ps" "\<forall>b \<in> set ps. before (q, d) b"
    using "2.prems" by (auto simp: prefixes_inv_def)
  show ?case
  proof (cases "length q < length p \<or> star q")
    case True
    have "length q \<ge> 1" using q(1) by (cases q) (auto simp: plain_prefix_def)
    moreover have "star p \<Longrightarrow> length p = 1" using "2.prems"(2) by (simp add: plain_prefix_def)
    ultimately have bq: "before (p, c) (q, d)" using True by (auto simp: before_def)
    moreover have "before (p, c) b" if "b \<in> set ps" for b
      using bq q(3) that by (auto simp: before_def)
    ultimately show ?thesis
      using "2.prems" True by (auto simp: prefixes_inv_def star_def)
  next
    case False
    then have "prefixes_inv (ListAddAfterLen ps p c)"
      using "2.IH" q(2) "2.prems"(2) by (auto simp: star_def)
    moreover have "before (q, d) (p, c)" using False by (auto simp: before_def)
    ultimately show ?thesis
      using False q by (auto simp: prefixes_inv_def star_def)
  qed
qed (auto simp: prefixes_inv_def)

lemma find_first_best:
  assumes "sorted_wrt R xs" and "List.find P xs = Some x" and "y \<in> set xs" and "P y"
  shows "y = x \<or> R x y"
  using assms by (induction xs) (auto split: if_splits)

text \<open>The entries a file contributes.\<close>

definition file_entries :: "string \<Rightarrow> (string \<times> string) set" where
  "file_entries txt =
     {(p, c). \<exists>l \<in> set (text_lines txt). read_spec_entries l 2 = [p, c] \<and> strncmp p ''ctl.'' 4 \<noteq> 0}"

lemma split_add_line_prefixes:
  "cs_prefixes (split_add_line l cs) =
     (case read_spec_entries l 2 of
        [p, c] \<Rightarrow> if strncmp p ''ctl.'' 4 = 0 then cs_prefixes cs
                  else ListAddAfterLen (cs_prefixes cs) p c
      | _ \<Rightarrow> cs_prefixes cs)"
  by (auto simp: split_add_line_def split: list.splits)

lemma add_lines:
  assumes "prefixes_inv (cs_prefixes cs)"
    and "\<forall>l \<in> set ls. \<forall>p c. read_spec_entries l 2 = [p, c] \<and> strncmp p ''ctl.'' 4 \<noteq> 0 \<longrightarrow> plain_prefix p"
  shows "prefixes_inv (cs_prefixes (fold split_add_line ls cs))
    \<and> set (cs_prefixes (fold split_add_line ls cs)) = set (cs_prefixes cs)
        \<union> {(p, c). \<exists>l \<in> set ls. read_spec_entries l 2 = [p, c] \<and> strncmp p ''ctl.'' 4 \<noteq> 0}"
  using assms
proof (induction ls arbitrary: cs)
  case (Cons l ls)
  let ?cs = "split_add_line l cs"
  have "prefixes_inv (cs_prefixes ?cs)"
    using Cons.prems by (auto simp: split_add_line_prefixes prefixes_inv_add split: list.splits)
  then have IH: "prefixes_inv (cs_prefixes (fold split_add_line ls ?cs))"
    "set (cs_prefixes (fold split_add_line ls ?cs)) = set (cs_prefixes ?cs)
        \<union> {(p, c). \<exists>l \<in> set ls. read_spec_entries l 2 = [p, c] \<and> strncmp p ''ctl.'' 4 \<noteq> 0}"
    using Cons.IH [of ?cs] Cons.prems(2) by auto
  have "set (cs_prefixes ?cs) = set (cs_prefixes cs)
      \<union> {(p, c). read_spec_entries l 2 = [p, c] \<and> strncmp p ''ctl.'' 4 \<noteq> 0}"
    by (auto simp: split_add_line_prefixes split: list.splits)
  with IH show ?case by auto
qed simp

lemma spec_entries_loop_nonempty: "e \<in> set (spec_entries_loop k buf) \<Longrightarrow> e \<noteq> []"
  by (induction k buf rule: spec_entries_loop.induct) (auto split: prod.splits if_splits)

lemma read_spec_entries_nonempty: "read_spec_entries l n = p # es \<Longrightarrow> p \<noteq> []"
proof -
  assume a: "read_spec_entries l n = p # es"
  then obtain buf where "spec_entries_loop n buf = p # es"
    by (auto simp only: read_spec_entries_def Let_def split: if_splits)
  then show "p \<noteq> []" using spec_entries_loop_nonempty [of p n buf] by simp
qed

text \<open>
  Property C15. Reading a property\_contexts file whose only wildcard prefix is a lone star adds
  exactly the two-word lines that are not comments and not \<open>ctl.\<close> prefixes, and keeps the prefix
  list in order; the entry \<open>GetPropAreaForName\<close> then takes for a name is a longest one among
  those that match it, a wildcard only if no other prefix matches, and none is taken only if
  none matches.
\<close>

theorem split_longest_prefix:
  assumes "w_text w fn = Some txt" and "prefixes_inv (cs_prefixes cs)"
    and "\<And>p c. (p, c) \<in> file_entries txt \<Longrightarrow> star p \<Longrightarrow> p = ''*''"
    and "InitializePropertiesFromFile fn w cs = (ok, cs')"
  shows "ok \<and> prefixes_inv (cs_prefixes cs')
    \<and> set (cs_prefixes cs') = set (cs_prefixes cs) \<union> file_entries txt
    \<and> (case List.find (prefix_matches name) (cs_prefixes cs') of
         None \<Rightarrow> \<forall>pc \<in> set (cs_prefixes cs'). \<not> prefix_matches name pc
       | Some (p, c) \<Rightarrow> (p, c) \<in> set (cs_prefixes cs') \<and> prefix_matches name (p, c)
           \<and> (\<forall>(q, d) \<in> set (cs_prefixes cs'). prefix_matches name (q, d) \<longrightarrow>
                star q \<or> \<not> star p \<and> length q \<le> length p))"
proof -
  have pl: "plain_prefix p"
    if "l \<in> set (text_lines txt)" "read_spec_entries l 2 = [p, c]" "strncmp p ''ctl.'' 4 \<noteq> 0" for l p c
    using assms(3) [of p c] that read_spec_entries_nonempty [OF that(2)]
    by (auto simp: plain_prefix_def file_entries_def)
  have cs': "ok" "cs' = fold split_add_line (text_lines txt) cs"
    using assms(1,4) by (simp_all add: InitializePropertiesFromFile_def)
  have inv: "prefixes_inv (cs_prefixes cs')"
    and st: "set (cs_prefixes cs') = set (cs_prefixes cs) \<union> file_entries txt"
    using add_lines [OF assms(2), of "text_lines txt"] pl unfolding cs'(2) file_entries_def by auto
  have srt: "sorted_wrt before (cs_prefixes cs')" using inv by (simp add: prefixes_inv_def)
  show ?thesis
  proof (cases "List.find (prefix_matches name) (cs_prefixes cs')")
    case None
    then have "\<forall>pc \<in> set (cs_prefixes cs'). \<not> prefix_matches name pc"
      by (auto simp: find_None_iff)
    then show ?thesis using cs'(1) inv st None by simp
  next
    case (Some pc)
    obtain p c where pc: "pc = (p, c)" by fastforce
    have "(p, c) \<in> set (cs_prefixes cs')" "prefix_matches name (p, c)"
      using Some pc by (auto simp: find_Some_iff)
    moreover have "star q \<or> \<not> star p \<and> length q \<le> length p"
      if "(q, d) \<in> set (cs_prefixes cs')" "prefix_matches name (q, d)" for q d
      using find_first_best [OF srt Some [unfolded pc] that] by (auto simp: before_def)
    ultimately show ?thesis using cs'(1) inv st Some pc by auto
  qed
qed

definition sample_text :: string where
  "sample_text = ''* u:d'' @ CHR 0x0A # ''ro. u:r''"

definition sample_world :: world where
  "sample_world = \<lparr>w_areas = Map.empty, w_stat = Map.empty, w_info_stat = Map.empty,
     w_can_open = \<lambda>_. False, w_readable = \<lambda>_. False,
     w_create = \<lambda>_. \<lparr>cr_errno = None, cr_setxattr = True, cr_ftruncate = True, cr_mmap = True\<rparr>,
     w_text = [''f'' \<mapsto> sample_text], w_image = Map.empty, w_sizes = (0, 0)\<rparr>"

definition sample_split :: contexts_split where
  "sample_split = \<lparr>cs_prefixes = [], cs_contexts = [], cs_serial = None, cs_filename = ''d''\<rparr>"

lemma sample_lines:
  "text_lines sample_text = [''* u:d'' @ [CHR 0x0A], ''ro. u:r'']"
  "read_spec_entries (''* u:d'' @ [CHR 0x0A]) 2 = [''*'', ''u:d'']"
  "read_spec_entries ''ro. u:r'' 2 = [''ro.'', ''u:r'']"
  by (simp_all add: sample_text_def read_spec_entries_def read_spec_entry_def c_isspace_def
      eval_nat_numeral)

theorem split_longest_prefix_witness:
  "(''ro.'', ''u:r'') \<in> set (cs_prefixes (snd (InitializePropertiesFromFile ''f'' sample_world sample_split)))
   \<and> prefixes_inv (cs_prefixes (snd (InitializePropertiesFromFile ''f'' sample_world sample_split)))"
proof -
  let ?r = "InitializePropertiesFromFile ''f'' sample_world sample_split"
  have t: "w_text sample_world ''f'' = Some sample_text" by (simp add: sample_world_def)
  have i: "prefixes_inv (cs_prefixes sample_split)" by (simp add: sample_split_def prefixes_inv_def)
  have "strncmp ''ro.'' ''ctl.'' 4 \<noteq> 0" "strncmp ''*'' ''ctl.'' 4 \<noteq> 0" by (simp_all add: eval_nat_numeral)
  then have e: "file_entries sample_text = {(''*'', ''u:d''), (''ro.'', ''u:r'')}"
    unfolding file_entries_def sample_lines(1) list.set bex_simps sample_lines(2,3) by auto
  have "p = ''*''" if "(p, c) \<in> file_entries sample_text" "star p" for p c
    using that unfolding e star_def insert_iff prod.inject by (elim disjE) simp_all
  note th = split_longest_prefix [OF t i this prod.collapse [symmetric]]
  have "(''ro.'', ''u:r'') \<in> set (cs_prefixes sample_split) \<union> file_entries sample_text"
    unfolding e by blast
  then show ?thesis
    using conjunct1 [OF conjunct2 [OF th]] conjunct1 [OF conjunct2 [OF conjunct2 [OF th]]] by simp
qed

end
