(* ===== verification/Seqlock.thy ===== *)
theory Seqlock
  imports System_Properties "HOL-Library.Transitive_Closure_Table"
begin

text \<open>
  A reader racing with an update of the same property: the loop of \<open>SystemProperties::Read\<close>
  against the body of \<open>SystemProperties::Update\<close>, interleaved one load, one byte and one store
  at a time. The memory is sequentially consistent, which is what the fences in the code are
  there for. The last four fields are history: they record what happened and no step reads
  them.
\<close>

datatype wpc = WIdle | WWrite nat "char list" u32 nat

datatype rpc = RLoad | RCopy u32 nat "char list" | RDone u32 "char list"

record seq =
  sq_serial :: u32
  sq_mem :: "char list"
  sq_w :: wpc
  sq_r :: rpc
  sq_n :: nat
  sq_last :: "char list"
  sq_load :: "nat \<times> char list"
  sq_done :: nat

text \<open>
  \<open>sq_n\<close> counts completed updates and \<open>sq_last\<close> is what the last one wrote; \<open>sq_load\<close> is their
  value when the reader loaded the serial number, \<open>sq_done\<close> the count when it was satisfied.
\<close>

inductive seq_step :: "seq \<Rightarrow> seq \<Rightarrow> bool" where
  w_start: "sq_w s = WIdle \<Longrightarrow> len < PROP_VALUE_MAX \<Longrightarrow> len \<le> length value \<Longrightarrow>
    seq_step s (s\<lparr>sq_serial := sq_serial s OR 1,
                  sq_w := WWrite 0 (take len value @ [NUL]) (sq_serial s OR 1) len\<rparr>)"
| w_byte: "sq_w s = WWrite i data c len \<Longrightarrow> i < length data \<Longrightarrow>
    seq_step s (s\<lparr>sq_mem := (sq_mem s)[i := data ! i], sq_w := WWrite (Suc i) data c len\<rparr>)"
| w_end: "sq_w s = WWrite i data c len \<Longrightarrow> i = length data \<Longrightarrow>
    seq_step s (s\<lparr>sq_serial := push_bit 24 (of_nat len) OR ((c + 1) AND 0xffffff), sq_w := WIdle,
                  sq_n := Suc (sq_n s), sq_last := data\<rparr>)"
| r_load: "sq_r s = RLoad \<Longrightarrow> \<not> SERIAL_DIRTY (sq_serial s) \<Longrightarrow>
    seq_step s (s\<lparr>sq_r := RCopy (sq_serial s) 0 [], sq_load := (sq_n s, sq_last s)\<rparr>)"
| r_byte: "sq_r s = RCopy c i buf \<Longrightarrow> i < SERIAL_VALUE_LEN c + 1 \<Longrightarrow>
    seq_step s (s\<lparr>sq_r := RCopy c (Suc i) (buf @ [sq_mem s ! i])\<rparr>)"
| r_done: "sq_r s = RCopy c i buf \<Longrightarrow> i = SERIAL_VALUE_LEN c + 1 \<Longrightarrow> sq_serial s = c \<Longrightarrow>
    seq_step s (s\<lparr>sq_r := RDone c buf, sq_done := sq_n s\<rparr>)"
| r_retry: "sq_r s = RCopy c i buf \<Longrightarrow> i = SERIAL_VALUE_LEN c + 1 \<Longrightarrow> sq_serial s \<noteq> c \<Longrightarrow>
    seq_step s (s\<lparr>sq_r := RLoad\<rparr>)"

text \<open>Start: a record at rest, nobody in the middle of anything.\<close>

definition seq_init :: "seq \<Rightarrow> bool" where
  "seq_init s \<longleftrightarrow> sq_w s = WIdle \<and> sq_r s = RLoad \<and> sq_n s = 0
     \<and> length (sq_mem s) = PROP_VALUE_MAX \<and> even (sq_serial s)
     \<and> SERIAL_VALUE_LEN (sq_serial s) < PROP_VALUE_MAX
     \<and> sq_last s = take (SERIAL_VALUE_LEN (sq_serial s) + 1) (sq_mem s)"

section \<open>The serial number counts\<close>

definition phase :: "wpc \<Rightarrow> nat" where
  "phase w = (case w of WIdle \<Rightarrow> 0 | WWrite i data c len \<Rightarrow> 1)"

text \<open>The low 24 bits of a serial number, as a number.\<close>

definition low24 :: "u32 \<Rightarrow> nat" where
  "low24 w = unat w mod 2 ^ 24"

lemma low24_take_bit: "low24 w = unat (take_bit 24 w)"
  by (simp add: low24_def take_bit_eq_mod unat_mod_distrib)

lemma low24_start: "even s \<Longrightarrow> low24 (s OR 1) = Suc (low24 s) \<and> odd (low24 (s OR 1))"
proof -
  assume e: "even s"
  have "even (unat s)"
    using e bit_unsigned_iff [of s 0, where 'a = nat] by (simp add: bit_0)
  have "unat (s + 1) = Suc (unat s)"
  proof -
    have "unat s \<noteq> 2 ^ 32 - 1" using \<open>even (unat s)\<close> by auto
    then have "unat s + 1 < 2 ^ 32" using unsigned_less [of s, where 'a = nat] by simp
    then show ?thesis by (simp add: unat_word_ariths)
  qed
  moreover have "s OR 1 = s + 1" using e by (simp add: or_one_eq)
  moreover have "even (unat s mod 2 ^ 24)" using \<open>even (unat s)\<close> by (simp add: dvd_mod_iff)
  then have "Suc (unat s) mod 2 ^ 24 = Suc (unat s mod 2 ^ 24)"
    by (metis Suc_eq_plus1 even_Suc even_power even_numeral mod_Suc zero_less_numeral)
  ultimately show ?thesis
    using \<open>even (unat s mod 2 ^ 24)\<close> by (simp add: low24_def)
qed

lemma low24_end: "low24 (push_bit 24 (of_nat len) OR ((c + 1) AND 0xffffff)) = Suc (low24 c) mod 2 ^ 24"
proof -
  have m: "(c + 1) AND 0xffffff = take_bit 24 (c + 1)"
    by (simp add: take_bit_eq_mask mask_eq_exp_minus_1)
  have "take_bit 24 (push_bit 24 (of_nat len) OR take_bit 24 (c + 1)) = take_bit 24 (c + 1)"
    by (rule bit_word_eqI) (auto simp: bit_take_bit_iff bit_or_iff bit_push_bit_iff)
  then have "take_bit 24 (push_bit 24 (of_nat len) OR ((c + 1) AND 0xffffff)) = take_bit 24 (c + 1)"
    unfolding m .
  then have "low24 (push_bit 24 (of_nat len) OR ((c + 1) AND 0xffffff)) = unat (c + 1) mod 2 ^ 24"
    by (simp add: low24_take_bit) (simp add: low24_take_bit [symmetric] low24_def)
  moreover have "unat (c + 1) mod 2 ^ 24 = (unat c + 1) mod 2 ^ 24"
  proof -
    have "unat (c + 1) = (unat c + 1) mod 2 ^ 32" by (simp add: unat_word_ariths)
    moreover have "x mod 2 ^ 32 mod 2 ^ 24 = x mod 2 ^ 24" for x :: nat
      by (rule mod_mod_cancel) (rule le_imp_power_dvd, simp)
    ultimately show ?thesis by presburger
  qed
  ultimately show ?thesis by (simp add: low24_def mod_Suc_eq)
qed

lemma even_low24: "even (low24 w) \<longleftrightarrow> even w"
proof -
  have "even (unat w) \<longleftrightarrow> even w"
    using bit_unsigned_iff [of w 0, where 'a = nat] by (simp add: bit_0)
  then show ?thesis by (simp add: low24_def dvd_mod_iff)
qed

section \<open>The invariant\<close>

definition w_inv :: "seq \<Rightarrow> bool" where
  "w_inv s \<longleftrightarrow>
     (case sq_w s of
        WIdle \<Rightarrow> SERIAL_VALUE_LEN (sq_serial s) < PROP_VALUE_MAX
          \<and> sq_last s = take (SERIAL_VALUE_LEN (sq_serial s) + 1) (sq_mem s)
      | WWrite i data c len \<Rightarrow> sq_serial s = c \<and> len < PROP_VALUE_MAX \<and> length data = len + 1
          \<and> i \<le> length data \<and> take i (sq_mem s) = take i data)"

definition count_inv :: "nat \<Rightarrow> seq \<Rightarrow> bool" where
  "count_inv m0 s \<longleftrightarrow> low24 (sq_serial s) = (m0 + 2 * sq_n s + phase (sq_w s)) mod 2 ^ 24"

text \<open>Nothing was written since the reader loaded the serial number.\<close>

definition quiet :: "seq \<Rightarrow> bool" where
  "quiet s \<longleftrightarrow> sq_w s = WIdle \<and> sq_n s = fst (sq_load s)"

definition r_inv :: "nat \<Rightarrow> seq \<Rightarrow> bool" where
  "r_inv m0 s \<longleftrightarrow>
     (case sq_r s of
        RLoad \<Rightarrow> True
      | RCopy c i buf \<Rightarrow>
          low24 c = (m0 + 2 * fst (sq_load s)) mod 2 ^ 24 \<and> fst (sq_load s) \<le> sq_n s
          \<and> i \<le> SERIAL_VALUE_LEN c + 1
          \<and> (quiet s \<longrightarrow> sq_serial s = c \<and> sq_last s = snd (sq_load s) \<and> buf = take i (sq_last s))
      | RDone c buf \<Rightarrow>
          sq_done s - fst (sq_load s) < 2 ^ 23 \<longrightarrow> buf = snd (sq_load s))"

definition seq_inv :: "nat \<Rightarrow> seq \<Rightarrow> bool" where
  "seq_inv m0 s \<longleftrightarrow> length (sq_mem s) = PROP_VALUE_MAX \<and> w_inv s \<and> count_inv m0 s \<and> r_inv m0 s"

lemma count_parity: "count_inv m0 s \<Longrightarrow> even m0 \<Longrightarrow> even (sq_serial s) \<longleftrightarrow> sq_w s = WIdle"
  by (auto simp: count_inv_def phase_def dvd_mod_iff simp flip: even_low24 split: wpc.splits)

text \<open>The same low bits after fewer than \<open>2 ^ 23\<close> updates: there was none.\<close>

lemma no_wrap:
  fixes n k :: nat
  assumes "(m0 + 2 * n) mod 2 ^ 24 = (m0 + 2 * k) mod 2 ^ 24" and "k \<le> n" and "n - k < 2 ^ 23"
  shows "n = k"
proof (rule ccontr)
  assume "n \<noteq> k"
  then have "m0 + 2 * k \<le> m0 + 2 * n" "0 < 2 * (n - k)" "2 * (n - k) < 2 ^ 24" using assms by simp_all
  then show False
    using mod_eq_dvd_iff_nat [of "m0 + 2 * k" "m0 + 2 * n" "2 ^ 24"] assms(1)
    by (metis add_diff_cancel_left diff_mult_distrib2 nat_dvd_not_less)
qed

lemma serial_len_end: "len < PROP_VALUE_MAX \<Longrightarrow>
  SERIAL_VALUE_LEN (push_bit 24 (of_nat len) OR (x AND 0xffffff)) = len"
proof -
  assume l: "len < PROP_VALUE_MAX"
  have "(x AND 0xffffff) = take_bit 24 x"
    by (simp add: take_bit_eq_mask mask_eq_exp_minus_1)
  moreover have "drop_bit 24 (push_bit 24 (of_nat len :: u32) OR take_bit 24 x) = of_nat len"
    using nat_bit_less [of len 8] l
    by (intro bit_word_eqI) (auto simp: bit_simps PROP_VALUE_MAX_def)
  ultimately show ?thesis using l by (simp add: SERIAL_VALUE_LEN_def PROP_VALUE_MAX_def unat_of_nat)
qed

lemma seq_step_w_inv:
  assumes "seq_step s s'" and "seq_inv m0 s"
  shows "w_inv s' \<and> length (sq_mem s') = PROP_VALUE_MAX"
  using assms
proof (cases rule: seq_step.cases)
  case (w_byte i data c len)
  then have i: "sq_serial s = c" "len < PROP_VALUE_MAX" "length data = len + 1" "take i (sq_mem s) = take i data"
    and m: "length (sq_mem s) = PROP_VALUE_MAX"
    using assms(2) by (auto simp: seq_inv_def w_inv_def)
  then have "take (Suc i) ((sq_mem s)[i := data ! i]) = take (Suc i) data"
    using w_byte by (simp add: take_Suc_conv_app_nth)
  then show ?thesis using w_byte i m by (simp add: w_inv_def)
next
  case (w_end i data c len)
  then show ?thesis
    using assms(2) by (auto simp: seq_inv_def w_inv_def serial_len_end)
qed (auto simp: seq_inv_def w_inv_def split: wpc.splits)

lemma seq_step_count:
  assumes "seq_step s s'" and "seq_inv m0 s" and "even m0"
  shows "count_inv m0 s'"
proof -
  have par: "even (sq_serial s) \<longleftrightarrow> sq_w s = WIdle"
    using assms(2,3) count_parity by (auto simp: seq_inv_def)
  from assms(1) show ?thesis
  proof (cases rule: seq_step.cases)
    case (w_start len v)
    have "low24 (sq_serial s OR 1) = low24 (sq_serial s OR 1) mod 2 ^ 24" by (simp add: low24_def)
    also have "\<dots> = Suc (low24 (sq_serial s)) mod 2 ^ 24"
      using low24_start [of "sq_serial s"] par w_start by simp
    also have "low24 (sq_serial s) = (m0 + 2 * sq_n s) mod 2 ^ 24"
      using assms(2) w_start by (simp add: seq_inv_def count_inv_def phase_def)
    finally show ?thesis using w_start by (simp add: count_inv_def phase_def mod_Suc_eq)
  next
    case (w_end i data c len)
    then have "sq_serial s = c" "low24 c = (m0 + 2 * sq_n s + 1) mod 2 ^ 24"
      using assms(2) by (auto simp: seq_inv_def w_inv_def count_inv_def phase_def)
    then show ?thesis
      using w_end by (simp add: count_inv_def phase_def low24_end mod_Suc_eq)
  qed (use assms(2) in \<open>auto simp: seq_inv_def count_inv_def phase_def\<close>)
qed

lemma seq_step_r_inv:
  assumes "seq_step s s'" and inv: "seq_inv m0 s" and "even m0"
  shows "r_inv m0 s'"
proof -
  have par: "even (sq_serial s) \<longleftrightarrow> sq_w s = WIdle"
    using inv assms(3) count_parity by (auto simp: seq_inv_def)
  have cnt: "low24 (sq_serial s) = (m0 + 2 * sq_n s + phase (sq_w s)) mod 2 ^ 24"
    using inv by (simp add: seq_inv_def count_inv_def)
  from assms(1) show ?thesis
  proof (cases rule: seq_step.cases)
    case r_load
    then have "sq_w s = WIdle"
      using par by (auto simp: SERIAL_DIRTY_def and_one_eq even_iff_mod_2_eq_zero)
    then show ?thesis using r_load cnt by (simp add: r_inv_def quiet_def phase_def)
  next
    case (r_byte c i buf)
    have "buf @ [sq_mem s ! i] = take (Suc i) (sq_last s)"
      if q: "quiet s" and b: "sq_serial s = c" "buf = take i (sq_last s)"
    proof -
      have l: "sq_last s = take (SERIAL_VALUE_LEN c + 1) (sq_mem s)" "SERIAL_VALUE_LEN c < PROP_VALUE_MAX"
        using inv q b(1) by (auto simp: seq_inv_def w_inv_def quiet_def)
      moreover have "length (sq_mem s) = PROP_VALUE_MAX" using inv by (simp add: seq_inv_def)
      ultimately have "i < length (sq_last s)" "sq_last s ! i = sq_mem s ! i"
        using r_byte by auto
      then show ?thesis using b(2) by (simp add: take_Suc_conv_app_nth)
    qed
    then show ?thesis
      using inv r_byte by (auto simp: seq_inv_def r_inv_def quiet_def)
  next
    case (r_done c i buf)
    have r: "low24 c = (m0 + 2 * fst (sq_load s)) mod 2 ^ 24" "fst (sq_load s) \<le> sq_n s"
      "quiet s \<longrightarrow> sq_serial s = c \<and> sq_last s = snd (sq_load s) \<and> buf = take i (sq_last s)"
      using inv r_done by (auto simp: seq_inv_def r_inv_def)
    have idle: "sq_w s = WIdle"
    proof -
      have "even (low24 c)" using r(1) assms(3) by (simp add: dvd_mod_iff)
      then show ?thesis using par r_done(4) by (simp add: even_low24)
    qed
    have "buf = snd (sq_load s)" if lt: "sq_n s - fst (sq_load s) < 2 ^ 23"
    proof -
      have "(m0 + 2 * sq_n s) mod 2 ^ 24 = (m0 + 2 * fst (sq_load s)) mod 2 ^ 24"
        using cnt r(1) r_done(4) idle by (simp add: phase_def)
      from no_wrap [OF this r(2) lt] have q: "quiet s" using idle by (simp add: quiet_def)
      then have "sq_last s = take i (sq_mem s)"
        using inv r_done idle by (auto simp: seq_inv_def w_inv_def)
      with q r(3) show ?thesis by auto
    qed
    then show ?thesis using r_done by (simp add: r_inv_def)
  qed (use inv in \<open>auto simp: seq_inv_def r_inv_def quiet_def split: rpc.splits\<close>)
qed

lemma seq_inv_init: "seq_init s \<Longrightarrow> seq_inv (low24 (sq_serial s)) s"
  by (simp add: seq_inv_def seq_init_def w_inv_def count_inv_def r_inv_def phase_def low24_def)

lemma seq_inv_reachable:
  assumes "seq_step\<^sup>*\<^sup>* s0 s" and "seq_init s0"
  shows "seq_inv (low24 (sq_serial s0)) s"
  using assms(1)
proof (induction rule: rtranclp_induct)
  case base
  then show ?case using seq_inv_init [OF assms(2)] .
next
  case (step s s')
  have e: "even (low24 (sq_serial s0))" using assms(2) by (simp add: seq_init_def even_low24)
  show ?case
    using seq_step_w_inv [OF step(2,3)] seq_step_count [OF step(2,3) e] seq_step_r_inv [OF step(2,3) e]
    by (simp add: seq_inv_def)
qed

text \<open>
  Property C8. However the steps of a reader and of any number of updates are interleaved, the
  bytes a reader returns are exactly those the last update completed before it loaded the
  serial number had written, never a mixture, as long as fewer than \<open>2 ^ 23\<close> updates complete
  during one attempt to read.
\<close>

theorem seqlock_consistent:
  assumes "seq_init s0" and "seq_step\<^sup>*\<^sup>* s0 s" and "sq_r s = RDone serial bytes"
    and "sq_done s - fst (sq_load s) < 2 ^ 23"
  shows "bytes = snd (sq_load s)"
  using seq_inv_reachable [OF assms(2,1)] assms(3,4) by (simp add: seq_inv_def r_inv_def)

definition sample_seq :: seq where
  "sample_seq = \<lparr>sq_serial = 0, sq_mem = replicate 92 NUL, sq_w = WIdle, sq_r = RLoad, sq_n = 0,
     sq_last = [NUL], sq_load = (0, []), sq_done = 0\<rparr>"

lemma seq_three_steps: "seq_step a b \<Longrightarrow> seq_step b c \<Longrightarrow> seq_step c d \<Longrightarrow> seq_step\<^sup>*\<^sup>* a d"
  by (meson rtranclp.rtrancl_into_rtrancl rtranclp.rtrancl_refl)

theorem seqlock_consistent_witness:
  "\<exists>s bytes. seq_step\<^sup>*\<^sup>* sample_seq s \<and> sq_r s = RDone 0 bytes \<and> bytes = snd (sq_load s)"
proof -
  have init: "seq_init sample_seq"
    by (simp add: seq_init_def sample_seq_def PROP_VALUE_MAX_def SERIAL_VALUE_LEN_def)
  let ?s1 = "sample_seq\<lparr>sq_r := RCopy 0 0 [], sq_load := (0, [NUL])\<rparr>"
  let ?s2 = "?s1\<lparr>sq_r := RCopy 0 (Suc 0) [NUL]\<rparr>"
  let ?s3 = "?s2\<lparr>sq_r := RDone 0 [NUL], sq_done := sq_n ?s2\<rparr>"
  have a: "seq_step sample_seq ?s1"
    using r_load [of sample_seq] by (simp add: sample_seq_def SERIAL_DIRTY_def)
  have b: "seq_step ?s1 ?s2"
    using r_byte [of ?s1 0 0 "[]"] by (simp add: sample_seq_def SERIAL_VALUE_LEN_def)
  have c: "seq_step ?s2 ?s3"
    by (rule r_done [of ?s2 0 "Suc 0" "[NUL]"]) (simp_all add: sample_seq_def SERIAL_VALUE_LEN_def)
  have "seq_step\<^sup>*\<^sup>* sample_seq ?s3"
    by (rule seq_three_steps [OF a b c])
  moreover from this have "[NUL] = snd (sq_load ?s3)"
    by (rule seqlock_consistent [OF init]) (simp_all add: sample_seq_def)
  ultimately show ?thesis by (intro exI [of _ ?s3] exI [of _ "[NUL]"]) simp
qed

end
