(* ===== verification/Locks.thy ===== *)
theory Locks
  imports Prelude
begin

text \<open>
  The futex lock that guards each context node (\<open>bionic_lock.h\<close>), run by any number of threads:
  one step per atomic operation or system call. Proved: the lock excludes, and no thread is
  left asleep with nobody on the way to wake it.
\<close>

datatype lock_state = Unlocked | LockedWithoutWaiter | LockedWithWaiter

text \<open>Where a thread is: outside, before the exchange of the slow path, before the futex wait,
  asleep in it, inside, or before the futex wake of \<open>unlock\<close>.\<close>

datatype lock_pc = LOut | LExchange | LWait | LAsleep | LIn | LWake

record lock =
  lk_state :: lock_state
  lk_pc :: "nat \<Rightarrow> lock_pc"

definition lock_init :: lock where
  "lock_init = \<lparr>lk_state = Unlocked, lk_pc = \<lambda>_. LOut\<rparr>"

inductive lock_step :: "lock \<Rightarrow> lock \<Rightarrow> bool" where
  fast: "lk_pc l t = LOut \<Longrightarrow> lk_state l = Unlocked \<Longrightarrow>
    lock_step l (l\<lparr>lk_state := LockedWithoutWaiter, lk_pc := (lk_pc l)(t := LIn)\<rparr>)"
| slow: "lk_pc l t = LOut \<Longrightarrow> lk_state l \<noteq> Unlocked \<Longrightarrow>
    lock_step l (l\<lparr>lk_pc := (lk_pc l)(t := LExchange)\<rparr>)"
| try_fail: "lk_pc l t = LOut \<Longrightarrow> lk_state l \<noteq> Unlocked \<Longrightarrow> lock_step l l"
| exchange: "lk_pc l t = LExchange \<Longrightarrow>
    lock_step l (l\<lparr>lk_state := LockedWithWaiter,
                   lk_pc := (lk_pc l)(t := if lk_state l = Unlocked then LIn else LWait)\<rparr>)"
| wait: "lk_pc l t = LWait \<Longrightarrow>
    lock_step l (l\<lparr>lk_pc := (lk_pc l)(t := if lk_state l = LockedWithWaiter then LAsleep else LExchange)\<rparr>)"
| spurious: "lk_pc l t = LAsleep \<Longrightarrow> lock_step l (l\<lparr>lk_pc := (lk_pc l)(t := LExchange)\<rparr>)"
| unlock: "lk_pc l t = LIn \<Longrightarrow>
    lock_step l (l\<lparr>lk_state := Unlocked,
                   lk_pc := (lk_pc l)(t := if lk_state l = LockedWithWaiter then LWake else LOut)\<rparr>)"
| wake: "lk_pc l t = LWake \<Longrightarrow> lk_pc l u = LAsleep \<Longrightarrow>
    lock_step l (l\<lparr>lk_pc := (lk_pc l)(t := LOut, u := LExchange)\<rparr>)"
| wake_none: "lk_pc l t = LWake \<Longrightarrow> (\<forall>u. lk_pc l u \<noteq> LAsleep) \<Longrightarrow>
    lock_step l (l\<lparr>lk_pc := (lk_pc l)(t := LOut)\<rparr>)"

inductive_cases lock_stepE: "lock_step l l'"

text \<open>The threads at a place.\<close>

definition at :: "(nat \<Rightarrow> lock_pc) \<Rightarrow> lock_pc \<Rightarrow> nat set" where
  "at pc x = {t. pc t = x}"

lemma at_upd: "at (pc(t := y)) x = (if x = y then insert t (at pc x) else at pc x - {t})"
  by (auto simp: at_def)

lemma at_other: "pc t = y \<Longrightarrow> x \<noteq> y \<Longrightarrow> at pc x - {t} = at pc x"
  by (auto simp: at_def)

definition lock_inv :: "lock \<Rightarrow> bool" where
  "lock_inv l \<longleftrightarrow> (if lk_state l = Unlocked then at (lk_pc l) LIn = {} else \<exists>t. at (lk_pc l) LIn = {t})"

text \<open>Whoever sleeps is covered: by the flag, a pending wake or a pending exchange.\<close>

definition wake_inv :: "lock \<Rightarrow> bool" where
  "wake_inv l \<longleftrightarrow> at (lk_pc l) LAsleep = {} \<or> lk_state l = LockedWithWaiter
     \<or> at (lk_pc l) LWake \<noteq> {} \<or> at (lk_pc l) LExchange \<noteq> {}"

lemma lock_inv_step: "lock_step l l' \<Longrightarrow> lock_inv l \<Longrightarrow> lock_inv l'"
proof (induction rule: lock_step.induct)
  case (unlock l t)
  then have "t \<in> at (lk_pc l) LIn" by (simp add: at_def)
  with unlock show ?case by (auto simp: lock_inv_def at_upd split: if_splits)
next
  case (wake l t u)
  then have "t \<noteq> u" by auto
  with wake show ?case by (auto simp: lock_inv_def at_upd at_other)
qed (auto simp: lock_inv_def at_upd at_other split: if_splits)

lemma wake_inv_step: "lock_step l l' \<Longrightarrow> wake_inv l \<Longrightarrow> wake_inv l'"
proof (induction rule: lock_step.induct)
  case (wake_none l t)
  then show ?case by (auto simp: wake_inv_def at_upd at_def)
next
  case (unlock l t)
  then show ?case by (auto simp add: wake_inv_def at_upd at_other [of "lk_pc l" t LIn])
qed (auto simp: wake_inv_def at_upd at_other)

lemma lock_reachable: "lock_step\<^sup>*\<^sup>* lock_init l \<Longrightarrow> lock_inv l \<and> wake_inv l"
proof (induction rule: rtranclp_induct)
  case base
  show ?case by (simp add: lock_inv_def wake_inv_def lock_init_def at_def)
next
  case (step l l')
  then show ?case using lock_inv_step wake_inv_step by blast
qed

text \<open>
  Property C14. In every interleaving of any number of threads at most one thread holds the lock,
  and a thread asleep on it is never forgotten: while the lock is free, some thread is about
  to wake a sleeper or to take the lock itself.
\<close>

theorem lock_safe:
  assumes "lock_step\<^sup>*\<^sup>* lock_init l"
  shows "(lk_pc l t = LIn \<and> lk_pc l u = LIn \<longrightarrow> t = u)
    \<and> (lk_state l = Unlocked \<and> lk_pc l t = LAsleep \<longrightarrow>
        (\<exists>v. lk_pc l v = LWake \<or> lk_pc l v = LExchange))"
proof -
  have l: "lock_inv l" "wake_inv l" using lock_reachable [OF assms] by auto
  have "t = u" if "t \<in> at (lk_pc l) LIn" "u \<in> at (lk_pc l) LIn"
    using l(1) that by (auto simp: lock_inv_def split: if_splits)
  moreover have "\<exists>v. lk_pc l v = LWake \<or> lk_pc l v = LExchange"
    if "lk_state l = Unlocked" "lk_pc l t = LAsleep"
    using l(2) that by (auto simp: wake_inv_def at_def)
  ultimately show ?thesis by (simp add: at_def)
qed

theorem lock_safe_witness:
  "\<exists>l. lock_step\<^sup>*\<^sup>* lock_init l \<and> lk_pc l 0 = LIn \<and> lk_pc l 1 \<noteq> LIn"
proof -
  let ?l = "lock_init\<lparr>lk_state := LockedWithoutWaiter, lk_pc := (lk_pc lock_init)(0 := LIn)\<rparr>"
  have "lock_step lock_init ?l" by (rule fast) (simp_all add: lock_init_def)
  then have r: "lock_step\<^sup>*\<^sup>* lock_init ?l" by (rule r_into_rtranclp)
  have "lk_pc ?l 1 \<noteq> LIn" using lock_safe [OF r, of 0 1] by (simp add: lock_init_def)
  with r show ?thesis by (intro exI [of _ ?l]) simp
qed

section \<open>The futex calls\<close>

text \<open>\<open>bionic_futex.h\<close>: the arguments of the system call, which answers with its result, \<open>errno\<close> and the state of the kernel. A time to wait
  is \<^const>\<open>None\<close> for a null pointer.\<close>

record futex_call =
  fx_op :: int
  fx_value :: int
  fx_timeout :: "(int \<times> int) option"
  fx_bitset :: int

definition futex :: "(futex_call \<Rightarrow> int \<times> 'k \<Rightarrow> int \<times> int \<times> 'k) \<Rightarrow> futex_call \<Rightarrow> int \<times> 'k \<Rightarrow> int \<times> int \<times> 'k" where
  "futex sys c st =
     (case sys c st of (result, errno, k) \<Rightarrow> if result = -1 then (- errno, fst st, k) else (result, errno, k))"

definition futex_op :: "int \<Rightarrow> bool \<Rightarrow> int" where
  "futex_op op shared = (if shared then op else op + 128)"

definition futex_wake where
  "futex_wake sys cnt = futex sys \<lparr>fx_op = 1, fx_value = cnt, fx_timeout = None, fx_bitset = 0\<rparr>"

definition futex_wake_ex where
  "futex_wake_ex sys shared cnt = futex sys \<lparr>fx_op = futex_op 1 shared, fx_value = cnt, fx_timeout = None, fx_bitset = 0\<rparr>"

definition futex_wait where
  "futex_wait sys v timeout = futex sys \<lparr>fx_op = 0, fx_value = v, fx_timeout = timeout, fx_bitset = 0\<rparr>"

definition futex_wait_ex where
  "futex_wait_ex sys shared v = futex sys \<lparr>fx_op = futex_op 9 shared, fx_value = v, fx_timeout = None, fx_bitset = -1\<rparr>"

definition futex_pi_unlock where
  "futex_pi_unlock sys shared = futex sys \<lparr>fx_op = futex_op 7 shared, fx_value = 0, fx_timeout = None, fx_bitset = 0\<rparr>"

text \<open>As a system call leaves \<open>errno\<close> alone when it succeeds, the callers of \<open>futex\<close> never see it changed; a failure is a negative result.\<close>

lemma futex_keeps_errno:
  assumes sys: "sys c (e, k) = (r, e', k')" and keeps: "r \<noteq> -1 \<Longrightarrow> e' = e"
  shows "futex sys c (e, k) = (if r = -1 then - e' else r, e, k')"
  using assms by (simp add: futex_def)

end
