(* ===== verification/Property_Set.thy ===== *)
theory Property_Set
  imports System_Properties
begin

text \<open>
  The client of the property service, \<open>system_property_set.cpp\<close>: detection of the protocol
  version, the two message formats and \<open>__system_property_set\<close>. What the socket calls answer
  is a record; the bytes written are part of the result, and the theorems read them back the
  way the two formats define them.
\<close>

section \<open>Messages\<close>

definition PROP_MSG_SETPROP :: nat where "PROP_MSG_SETPROP = 1"
definition PROP_MSG_SETPROP2 :: nat where "PROP_MSG_SETPROP2 = 0x00020001"
definition PROP_SUCCESS :: int where "PROP_SUCCESS = 0"

record prop_msg =
  msg_cmd :: nat
  msg_name :: "char list"
  msg_value :: "char list"

text \<open>\<open>memset\<close> and \<open>strlcpy\<close> into the two arrays.\<close>

definition strlcpy_buf :: "nat \<Rightarrow> string \<Rightarrow> char list" where
  "strlcpy_buf sz src = buf_write (replicate sz NUL) 0 (take (sz - 1) src @ [NUL])"

definition prop_msg_new :: "string \<Rightarrow> string \<Rightarrow> prop_msg" where
  "prop_msg_new pname value =
     \<lparr>msg_cmd = PROP_MSG_SETPROP, msg_name = strlcpy_buf PROP_NAME_MAX pname,
      msg_value = strlcpy_buf PROP_VALUE_MAX value\<rparr>"

definition prop_msg_bytes :: "prop_msg \<Rightarrow> char list" where
  "prop_msg_bytes m = le32 (msg_cmd m) @ msg_name m @ msg_value m"

text \<open>The io vectors of \<open>SocketWriter\<close>, each the bytes it points to.\<close>

definition WriteUint32 :: "nat \<Rightarrow> char list list \<Rightarrow> char list list" where
  "WriteUint32 value iov = iov @ [le32 value]"

definition WriteString :: "string \<Rightarrow> char list list \<Rightarrow> char list list" where
  "WriteString value iov =
     (let iov1 = WriteUint32 (length value) iov
      in if length value = 0 then iov1 else iov1 @ [value])"

definition setprop2_iov :: "string \<Rightarrow> string \<Rightarrow> char list list" where
  "setprop2_iov pname value = WriteString value (WriteString pname (WriteUint32 PROP_MSG_SETPROP2 []))"

section \<open>The connection\<close>

text \<open>
  \<open>sv_connect\<close> is \<open>errno\<close> of a failed connection, \<open>sv_send\<close> and \<open>sv_writev\<close> are the results of \<open>send\<close> and
  \<open>writev\<close>, the number of bytes that were taken or -1, \<open>sv_recv\<close> is the result of \<open>recv\<close> with the integer it
  stored. A stream socket may take fewer bytes than it is offered: it holds the first ones then.
\<close>

record service =
  sv_connect :: "int option"
  sv_send :: int
  sv_writev :: int
  sv_recv :: "int \<times> int"

definition sizeof_prop_msg :: int where "sizeof_prop_msg = 128"

definition on_socket :: "int \<Rightarrow> char list \<Rightarrow> char list" where "on_socket n bs = take (nat n) bs"

text \<open>The result and the bytes put on the socket.\<close>

definition send_prop_msg :: "service \<Rightarrow> prop_msg \<Rightarrow> int \<times> char list" where
  "send_prop_msg sv msg =
     (case sv_connect sv of
        Some e \<Rightarrow> (e, [])
      | None \<Rightarrow>
          (if sv_send sv = sizeof_prop_msg then 0 else - 1, on_socket (sv_send sv) (prop_msg_bytes msg)))"

text \<open>\<open>SocketWriter::Send\<close> tests for -1 only: a short write is a success.\<close>

definition Send :: "service \<Rightarrow> char list list \<Rightarrow> bool \<times> char list" where
  "Send sv iov =
     (if sv_connect sv \<noteq> None then (False, [])
      else if sv_writev sv = - 1 then (False, [])
      else (True, on_socket (sv_writev sv) (concat iov)))"

definition RecvInt32 :: "service \<Rightarrow> int option" where
  "RecvInt32 sv = (if fst (sv_recv sv) = 4 then Some (snd (sv_recv sv)) else None)"

section \<open>The protocol version\<close>

text \<open>\<open>atoll\<close> is \<open>strtoll\<close> to base ten: a value out of range is the nearest one of \<open>long long\<close>.\<close>

definition llong :: "int \<Rightarrow> int" where "llong v = max (- (2 ^ 63)) (min (2 ^ 63 - 1) v)"

definition atoll :: "string \<Rightarrow> int" where
  "atoll s =
     (let t = dropWhile c_isspace s
      in case t of
           [] \<Rightarrow> 0
         | c # cs \<Rightarrow>
             llong (if c = CHR ''-'' then - digits_val 0 cs
                    else if c = CHR ''+'' then digits_val 0 cs
                    else digits_val 0 t))"

text \<open>\<open>got\<close> is what \<open>__system_property_get\<close> returned for the version property.\<close>

definition detect_protocol_version :: "nat \<times> string \<Rightarrow> nat" where
  "detect_protocol_version got =
     (if fst got = 0 then 1
      else if (atoll (snd got)) mod 2 ^ 32 \<ge> 2 then 2 else 1)"

text \<open>
  \<open>__system_property_set\<close> with the cached version: the result, the bytes on the socket and the
  version kept for the next call.
\<close>

definition system_property_set ::
    "service \<Rightarrow> nat \<times> string \<Rightarrow> nat \<Rightarrow> string option \<Rightarrow> string option \<Rightarrow> int \<times> char list \<times> nat" where
  "system_property_set sv got version key_opt value_opt =
     (case key_opt of
        None \<Rightarrow> (- 1, [], version)
      | Some pname \<Rightarrow>
          let value = (case value_opt of None \<Rightarrow> [] | Some v \<Rightarrow> v);
              ver = (if version = 0 then detect_protocol_version got else version)
          in if ver = 1 then
               (if length pname \<ge> PROP_NAME_MAX \<or> length value \<ge> PROP_VALUE_MAX then (- 1, [], ver)
                else case send_prop_msg sv (prop_msg_new pname value) of (r, b) \<Rightarrow> (r, b, ver))
             else if length value \<ge> PROP_VALUE_MAX \<and> strncmp pname ''ro.'' 3 \<noteq> 0 then (- 1, [], ver)
             else if sv_connect sv \<noteq> None then (- 1, [], ver)
             else
               (case Send sv (setprop2_iov pname value) of
                  (ok, b) \<Rightarrow>
                    if \<not> ok then (- 1, b, ver)
                    else (case RecvInt32 sv of
                            None \<Rightarrow> (- 1, b, ver)
                          | Some result \<Rightarrow> (if result \<noteq> PROP_SUCCESS then - 1 else 0, b, ver))))"

section \<open>Reading the messages back\<close>

text \<open>The two formats, from the other end of the socket.\<close>

definition decode_msg1 :: "char list \<Rightarrow> (nat \<times> string \<times> string) option" where
  "decode_msg1 bs =
     (if length bs \<noteq> 4 + PROP_NAME_MAX + PROP_VALUE_MAX then None
      else Some (le32_nat (take 4 bs), c_str (take PROP_NAME_MAX (drop 4 bs)),
                 c_str (drop (4 + PROP_NAME_MAX) bs)))"

definition decode_string :: "char list \<Rightarrow> (string \<times> char list) option" where
  "decode_string bs =
     (if length bs < 4 then None
      else let n = le32_nat (take 4 bs); r = drop 4 bs
           in if length r < n then None else Some (take n r, drop n r))"

definition decode_msg2 :: "char list \<Rightarrow> (nat \<times> string \<times> string) option" where
  "decode_msg2 bs =
     (if length bs < 4 then None
      else do { (k, r1) \<leftarrow> decode_string (drop 4 bs);
                (v, r2) \<leftarrow> decode_string r1;
                if r2 = [] then Some (le32_nat (take 4 bs), k, v) else None })"

lemma length_strlcpy_buf [simp]: "0 < n \<Longrightarrow> length (strlcpy_buf n s) = n"
  by (simp add: strlcpy_buf_def buf_write_def min_def)

lemma c_str_strlcpy_buf: "length s < n \<Longrightarrow> NUL \<notin> set s \<Longrightarrow> c_str (strlcpy_buf n s) = s"
  by (simp add: strlcpy_buf_def c_str_buf_write)

lemma decode_msg1_new:
  assumes "length pname < PROP_NAME_MAX" and "length value < PROP_VALUE_MAX"
    and "NUL \<notin> set pname" and "NUL \<notin> set value"
  shows "decode_msg1 (prop_msg_bytes (prop_msg_new pname value)) = Some (PROP_MSG_SETPROP, pname, value)"
  using assms
  by (simp add: decode_msg1_def prop_msg_bytes_def prop_msg_new_def c_str_strlcpy_buf PROP_NAME_MAX_def
      PROP_VALUE_MAX_def PROP_MSG_SETPROP_def)

lemma concat_setprop2_iov:
  "concat (setprop2_iov pname value) =
     le32 PROP_MSG_SETPROP2 @ le32 (length pname) @ pname @ le32 (length value) @ value"
  by (simp add: setprop2_iov_def WriteString_def WriteUint32_def Let_def)

text \<open>A string that is cut off is not read; what follows a whole one is left, as far as it is there.\<close>

lemma decode_string_take:
  assumes "length s < 2 ^ 32"
  shows "decode_string (take n (le32 (length s) @ s @ r)) =
    (if n < 4 + length s then None else Some (s, take (n - 4 - length s) r))"
  using assms by (auto simp: decode_string_def Let_def min_def)

lemma decode_msg2_take:
  assumes "length pname < 2 ^ 32" and "length value < 2 ^ 32"
  shows "decode_msg2 (take n (concat (setprop2_iov pname value))) =
    (if n < length (concat (setprop2_iov pname value)) then None else Some (PROP_MSG_SETPROP2, pname, value))"
proof (cases "n < 4")
  case True
  then show ?thesis by (simp add: decode_msg2_def concat_setprop2_iov)
next
  case False
  then show ?thesis
    using decode_string_take [OF assms(1), of "n - 4" "le32 (length value) @ value"]
      decode_string_take [OF assms(2), of "n - 4 - 4 - length pname" "[]"]
    by (auto simp: decode_msg2_def concat_setprop2_iov PROP_MSG_SETPROP2_def)
qed

lemma decode_msg1_take:
  assumes "length pname < PROP_NAME_MAX" and "length value < PROP_VALUE_MAX"
    and "NUL \<notin> set pname" and "NUL \<notin> set value"
  shows "decode_msg1 (take n (prop_msg_bytes (prop_msg_new pname value))) =
    (if n < 128 then None else Some (PROP_MSG_SETPROP, pname, value))"
proof -
  have len: "length (prop_msg_bytes (prop_msg_new pname value)) = 128"
    by (simp add: prop_msg_bytes_def prop_msg_new_def PROP_NAME_MAX_def PROP_VALUE_MAX_def)
  then have "n < 128 \<Longrightarrow> decode_msg1 (take n (prop_msg_bytes (prop_msg_new pname value))) = None"
    by (simp add: decode_msg1_def PROP_NAME_MAX_def PROP_VALUE_MAX_def)
  then show ?thesis using len decode_msg1_new [OF assms] by simp
qed

text \<open>What each protocol admits, its message and its format.\<close>

definition admits :: "nat \<Rightarrow> string \<Rightarrow> string \<Rightarrow> bool" where
  "admits ver pname value =
     (if ver = 1 then length pname < PROP_NAME_MAX \<and> length value < PROP_VALUE_MAX
      else length value < PROP_VALUE_MAX \<or> is_read_only pname)"

definition wire :: "nat \<Rightarrow> string \<Rightarrow> string \<Rightarrow> char list" where
  "wire ver pname value =
     (if ver = 1 then prop_msg_bytes (prop_msg_new pname value) else concat (setprop2_iov pname value))"

definition decode :: "nat \<Rightarrow> char list \<Rightarrow> (string \<times> string) option" where
  "decode ver bs =
     (if ver = 1 then Option.bind (decode_msg1 bs) (\<lambda>(c, k, v). if c = PROP_MSG_SETPROP then Some (k, v) else None)
      else Option.bind (decode_msg2 bs) (\<lambda>(c, k, v). if c = PROP_MSG_SETPROP2 then Some (k, v) else None))"

lemma length_wire1: "length (wire 1 pname value) = 128"
  by (simp add: wire_def prop_msg_bytes_def prop_msg_new_def PROP_NAME_MAX_def PROP_VALUE_MAX_def)

lemma decode_take_wire:
  assumes "NUL \<notin> set pname" and "NUL \<notin> set value" and "length pname < 2 ^ 32" and "length value < 2 ^ 32"
    and "ver = 1 \<or> ver = 2" and "admits ver pname value"
  shows "decode ver (take n (wire ver pname value)) =
    (if n < length (wire ver pname value) then None else Some (pname, value))"
  using assms decode_msg1_take [of pname "value" n] decode_msg2_take [of pname "value" n] length_wire1 [of pname "value"]
  by (auto simp: decode_def wire_def admits_def)

lemma system_property_set_cases:
  assumes "system_property_set sv got version (Some pname) (Some value) = (r, sent, ver)" and "version \<in> {0, 1, 2}"
  shows "ver = (if version = 0 then detect_protocol_version got else version)" and "ver = 1 \<or> ver = 2"
    and "\<not> admits ver pname value \<Longrightarrow> r = - 1 \<and> sent = []"
    and "admits ver pname value \<Longrightarrow> sv_connect sv = Some e \<Longrightarrow> sent = [] \<and> r = (if ver = 1 then e else - 1)"
    and "admits ver pname value \<Longrightarrow> sv_connect sv = None \<Longrightarrow>
      sent = take (nat (if ver = 1 then sv_send sv else sv_writev sv)) (wire ver pname value) \<and>
      r = (if if ver = 1 then sv_send sv = 128 else sv_writev sv \<noteq> - 1 \<and> RecvInt32 sv = Some PROP_SUCCESS then 0 else - 1)"
proof -
  show v: "ver = (if version = 0 then detect_protocol_version got else version)"
    using assms(1) by (auto simp: system_property_set_def Let_def split: if_splits option.splits prod.splits)
  then show ver: "ver = 1 \<or> ver = 2" using assms(2) by (auto simp: detect_protocol_version_def)
  note eq = assms(1) [unfolded system_property_set_def Let_def option.case v [symmetric]]
  show "\<not> admits ver pname value \<Longrightarrow> r = - 1 \<and> sent = []"
    using eq by (auto simp: admits_def is_read_only_def split: if_splits)
  show "admits ver pname value \<Longrightarrow> sv_connect sv = Some e \<Longrightarrow> sent = [] \<and> r = (if ver = 1 then e else - 1)"
    using eq by (auto simp: admits_def is_read_only_def send_prop_msg_def split: if_splits)
  show "admits ver pname value \<Longrightarrow> sv_connect sv = None \<Longrightarrow>
      sent = take (nat (if ver = 1 then sv_send sv else sv_writev sv)) (wire ver pname value) \<and>
      r = (if if ver = 1 then sv_send sv = 128 else sv_writev sv \<noteq> - 1 \<and> RecvInt32 sv = Some PROP_SUCCESS then 0 else - 1)"
    using eq by (auto simp: admits_def is_read_only_def send_prop_msg_def Send_def wire_def on_socket_def sizeof_prop_msg_def
        split: if_splits option.splits prod.splits)
qed

text \<open>
  Property C37. For a name and a value that the protocol in use does not admit, \<open>__system_property_set\<close> returns -1 and puts
  nothing on the socket. Otherwise the socket holds as much of the message as it took, which the format of that
  protocol reads back as exactly the name and the value when the message is complete and does not read at all when it is cut. The
  result is 0 exactly when the connection was made and, under the old protocol, the message was taken whole, under the
  current one, \<open>writev\<close> did not fail and the service answered success: there a short write is not noticed.
\<close>

theorem property_set_message:
  assumes "NUL \<notin> set pname" and "NUL \<notin> set value" and "length pname < 2 ^ 32" and "length value < 2 ^ 32"
    and "version \<in> {0, 1, 2}" and "sv_connect sv \<noteq> Some 0"
    and "system_property_set sv got version (Some pname) (Some value) = (r, sent, ver)"
  shows "ver = (if version = 0 then detect_protocol_version got else version) \<and> (ver = 1 \<or> ver = 2)
    \<and> (\<not> admits ver pname value \<longrightarrow> r = - 1 \<and> sent = [])
    \<and> (admits ver pname value \<longrightarrow>
         sent = (if sv_connect sv = None
                 then take (nat (if ver = 1 then sv_send sv else sv_writev sv)) (wire ver pname value) else [])
         \<and> decode ver sent = (if sent = wire ver pname value then Some (pname, value) else None)
         \<and> (r = 0 \<longleftrightarrow> sv_connect sv = None \<and>
              (if ver = 1 then sent = wire ver pname value \<and> sv_send sv = 128
               else sv_writev sv \<noteq> - 1 \<and> RecvInt32 sv = Some PROP_SUCCESS)))"
proof -
  note c = system_property_set_cases [OF assms(7,5)]
  have d: "decode ver sent = (if sent = wire ver pname value then Some (pname, value) else None)"
    if "admits ver pname value" "sent = take n (wire ver pname value)" for n
    using decode_take_wire [OF assms(1-4) c(2) that(1), of n] that(2) by (auto simp: min_def dest: arg_cong [of _ _ length])
  show ?thesis
  proof (cases "sv_connect sv")
    case None
    then show ?thesis using c(1,2,3,5) d length_wire1 [of pname "value"] by auto
  next
    case (Some e)
    then show ?thesis using c(1,2,3) c(4) [OF _ Some] d [of 0] assms(6) by auto
  qed
qed

theorem property_set_message_witness:
  "\<exists>bytes. system_property_set \<lparr>sv_connect = None, sv_send = 128, sv_writev = 18, sv_recv = (4, 0)\<rparr>
       (1, ''2'') 0 (Some ''sys.x'') (Some ''1'') = (0, bytes, 2)
     \<and> decode 2 bytes = Some (''sys.x'', ''1'')"
proof -
  let ?sv = "\<lparr>sv_connect = None, sv_send = 128, sv_writev = 18, sv_recv = (4, 0)\<rparr>"
  let ?w = "wire 2 ''sys.x'' ''1''"
  have "atoll ''2'' = 2" by (simp add: atoll_def llong_def c_isspace_def c_isdigit_def digit_val_def)
  then have "detect_protocol_version (1, ''2'') = 2" by (simp add: detect_protocol_version_def)
  moreover have "length ?w = 18" by (simp add: wire_def concat_setprop2_iov)
  ultimately have "system_property_set ?sv (1, ''2'') 0 (Some ''sys.x'') (Some ''1'') = (0, ?w, 2)"
    by (simp add: system_property_set_def Send_def on_socket_def RecvInt32_def PROP_SUCCESS_def PROP_VALUE_MAX_def wire_def)
  moreover have "admits 2 ''sys.x'' ''1''" by (simp add: admits_def PROP_VALUE_MAX_def)
  ultimately show ?thesis using property_set_message [of "''sys.x''" "''1''" 0 ?sv "(1, ''2'')" 0 ?w 2] by simp
qed

text \<open>A message cut after its first bytes counts as set when the service answers success.\<close>

lemma short_write_unnoticed:
  assumes "sv_connect sv = None" and "sv_writev sv \<noteq> - 1" and "RecvInt32 sv = Some PROP_SUCCESS" and "admits 2 pname value"
    and "nat (sv_writev sv) < length (wire 2 pname value)"
    and "system_property_set sv got 2 (Some pname) (Some value) = (r, sent, ver)"
  shows "r = 0 \<and> sent \<noteq> wire 2 pname value"
  using system_property_set_cases [OF assms(6)] assms(1-5) by (auto dest: arg_cong [of _ _ length])

end
