(* ===== verification/Persist_Props.thy ===== *)
theory Persist_Props
  imports Vectors Prop_Area
begin

text \<open>
  The property lists of \<open>resetprop.c\<close> (\<open>struct prop_t\<close>, the callbacks that fill a vector, the
  comparison that sorts it) and the persistent storage of \<open>persist_properties.c\<close>, in its two
  forms: one protobuf file, or one file per property. A callback that would write past
  \<open>prop_t::value\<close> or follow a null name is a fault, \<^const>\<open>None\<close>. The nanopb library is a
  parameter: what it decodes from a file and the bytes it encodes for one record.
\<close>

section \<open>Property lists\<close>

record prop_t =
  pt_name :: string
  pt_value :: string

definition mk_prop_t :: "string \<Rightarrow> string \<Rightarrow> prop_t" where
  "mk_prop_t name value = \<lparr>pt_name = name, pt_value = value\<rparr>"

text \<open>\<open>strcpy(p->value, value)\<close> writes \<open>strlen(value) + 1\<close> bytes into \<open>PROP_VALUE_MAX\<close>.\<close>

definition collect_props :: "string option \<Rightarrow> string \<Rightarrow> prop_t vector \<Rightarrow> prop_t vector option" where
  "collect_props name value prop_list =
     (case name of
        None \<Rightarrow> None
      | Some n \<Rightarrow>
          if length value \<ge> PROP_VALUE_MAX then None
          else vec_push_back prop_list (Some (mk_prop_t n value)))"

text \<open>The search loops over a vector follow each element's name until the first match.\<close>

fun find_name :: "string \<Rightarrow> prop_t option list \<Rightarrow> nat \<Rightarrow> nat option option" where
  "find_name n [] k = Some None"
| "find_name n (None # es) k = None"
| "find_name n (Some p # es) k =
     (if strcmp (pt_name p) n = 0 then Some (Some k) else find_name n es (Suc k))"

definition collect_unique_props ::
    "string option \<Rightarrow> string \<Rightarrow> prop_t vector \<Rightarrow> prop_t vector option" where
  "collect_unique_props name value prop_list =
     (case name of
        None \<Rightarrow> None
      | Some n \<Rightarrow>
          (case find_name n (vec_elems prop_list) 0 of
             None \<Rightarrow> None
           | Some (Some _) \<Rightarrow> Some prop_list
           | Some None \<Rightarrow> collect_props name value prop_list))"

definition prop_cmp :: "prop_t \<Rightarrow> prop_t \<Rightarrow> int" where
  "prop_cmp p1 p2 = strcmp (pt_name p1) (pt_name p2)"

lemma prop_cmp_le_0: "prop_cmp p q \<le> 0 \<longleftrightarrow> pt_name p \<le> pt_name q"
  using strcmp_greater_0_iff [of "pt_name p" "pt_name q"] by (auto simp: prop_cmp_def not_less)

interpretation pc: comparator prop_cmp
proof
  fix x y z :: prop_t
  show "prop_cmp x y < 0 \<longleftrightarrow> 0 < prop_cmp y x"
    by (simp add: prop_cmp_def strcmp_less_0_iff strcmp_greater_0_iff)
  show "prop_cmp x y \<le> 0 \<Longrightarrow> prop_cmp y z \<le> 0 \<Longrightarrow> prop_cmp x z \<le> 0"
    by (auto simp: prop_cmp_le_0)
qed

section \<open>The storage\<close>

datatype pfile = PFile "char list" | PDir

text \<open>
  \<open>pp_blob\<close> is the readable protobuf file, if any; \<open>pp_files\<close> the files that can be opened;
  \<open>pp_entries\<close> what \<open>readdir\<close> lists, if the directory opens.
\<close>

record persist =
  pp_blob :: "char list option"
  pp_files :: "string \<rightharpoonup> pfile"
  pp_entries :: "string list option"

text \<open>
  The library: the name bytes and the value of each record that \<open>pb_decode\<close> delivers before
  the end of the file or the first malformed record, and the tag and submessage it encodes
  for a name and a value.
\<close>

record nanopb =
  pb_decode :: "char list \<Rightarrow> (char list option \<times> string) list"
  pb_encode_prop :: "string \<Rightarrow> string \<Rightarrow> char list option"

text \<open>What the system calls of a rewrite answer: \<open>creat\<close>, the bytes it can write, \<open>rename\<close>.\<close>

record rewrite =
  rw_creat :: bool
  rw_space :: nat
  rw_rename :: bool

definition PERSISTENT_PROPERTY_DIR :: string where "PERSISTENT_PROPERTY_DIR = ''/data/property''"

definition PATH_MAX :: nat where "PATH_MAX = 4096"

definition persist_path :: "string \<Rightarrow> string" where
  "persist_path name = take (PATH_MAX - 1) (PERSISTENT_PROPERTY_DIR @ ''/'' @ name)"

definition name_decode :: "char list \<Rightarrow> string" where
  "name_decode bytes = c_str (bytes @ [NUL])"

text \<open>\<open>prop_decode\<close> for each record, the callback's effect threaded through.\<close>

fun prop_decode ::
    "(string option \<Rightarrow> string \<Rightarrow> 'c \<Rightarrow> 'c option) \<Rightarrow> (char list option \<times> string) list \<Rightarrow> 'c \<Rightarrow> 'c option" where
  "prop_decode func [] c = Some c"
| "prop_decode func ((n, v) # rs) c =
     (case func (map_option name_decode n) v c of None \<Rightarrow> None | Some c' \<Rightarrow> prop_decode func rs c')"

text \<open>\<open>write_callback\<close>: what is in the file after a write, if it was written whole.\<close>

definition write_callback :: "rewrite \<Rightarrow> char list \<Rightarrow> char list \<Rightarrow> char list option" where
  "write_callback rw out buf =
     (if rw_creat rw \<and> length out + length buf \<le> rw_space rw then Some (out @ buf) else None)"

text \<open>
  \<open>prop_encode\<close>: the bytes written so far, or false. The outer option is the fault of an
  overflowing \<open>prop.value\<close>.
\<close>

fun prop_encode :: "nanopb \<Rightarrow> rewrite \<Rightarrow> prop_t option list \<Rightarrow> char list \<Rightarrow> char list option option" where
  "prop_encode pb rw [] out = Some (Some out)"
| "prop_encode pb rw (None # es) out = prop_encode pb rw es out"
| "prop_encode pb rw (Some e # es) out =
     (if length (pt_value e) \<ge> PROP_VALUE_MAX then None
      else case pb_encode_prop pb (pt_name e) (pt_value e) of
             None \<Rightarrow> Some None
           | Some b \<Rightarrow>
               (case write_callback rw out b of
                  None \<Rightarrow> Some None
                | Some out' \<Rightarrow> prop_encode pb rw es out'))"

text \<open>The cookie of \<open>pb_getprop_cb\<close>: \<open>prop->name\<close> and \<open>prop->value\<close>.\<close>

definition pb_getprop_cb ::
    "string option \<Rightarrow> string \<Rightarrow> string option \<times> string \<Rightarrow> (string option \<times> string) option" where
  "pb_getprop_cb name value c =
     (case fst c of
        None \<Rightarrow> Some c
      | Some sought \<Rightarrow>
          (case name of
             None \<Rightarrow> None
           | Some n \<Rightarrow>
               if strcmp n sought = 0
               then (if length value \<ge> PROP_VALUE_MAX then None else Some (None, value))
               else Some c))"

text \<open>
  \<open>persist_getprop\<close>: the fault, or the value or NULL. In the directory form the value is read
  with \<open>sizeof(PROP_VALUE_MAX)\<close>, the size of an \<open>int\<close>; a failed \<open>read\<close> returns -1 and is used as an
  index.
\<close>

definition sizeof_int :: nat where "sizeof_int = 4"

definition persist_read_file :: "string \<Rightarrow> persist \<Rightarrow> string option option" where
  "persist_read_file name st =
     (case pp_files st (persist_path name) of
        None \<Rightarrow> Some None
      | Some PDir \<Rightarrow> None
      | Some (PFile content) \<Rightarrow> Some (Some (c_str (take sizeof_int content @ [NUL]))))"

definition persist_getprop :: "nanopb \<Rightarrow> string \<Rightarrow> persist \<Rightarrow> string option option" where
  "persist_getprop pb name st =
     (case pp_blob st of
        Some blob \<Rightarrow>
          (case prop_decode pb_getprop_cb (pb_decode pb blob) (Some name, []) of
             None \<Rightarrow> None
           | Some (Some _, v) \<Rightarrow> Some None
           | Some (None, v) \<Rightarrow> Some (Some v))
      | None \<Rightarrow> persist_read_file name st)"

fun persist_dir_loop ::
    "(string option \<Rightarrow> string \<Rightarrow> 'c \<Rightarrow> 'c option) \<Rightarrow> persist \<Rightarrow> string list \<Rightarrow> 'c \<Rightarrow> 'c option" where
  "persist_dir_loop func st [] c = Some c"
| "persist_dir_loop func st (e # es) c =
     (if strcmp e ''.'' = 0 \<or> strcmp e ''..'' = 0 then persist_dir_loop func st es c
      else case persist_read_file e st of
             None \<Rightarrow> None
           | Some None \<Rightarrow> persist_dir_loop func st es c
           | Some (Some v) \<Rightarrow>
               (case func (Some e) v c of None \<Rightarrow> None | Some c' \<Rightarrow> persist_dir_loop func st es c'))"

definition persist_getprop_all ::
    "nanopb \<Rightarrow> (string option \<Rightarrow> string \<Rightarrow> 'c \<Rightarrow> 'c option) \<Rightarrow> persist \<Rightarrow> 'c \<Rightarrow> 'c option" where
  "persist_getprop_all pb func st c =
     (case pp_blob st of
        Some blob \<Rightarrow> prop_decode func (pb_decode pb blob) c
      | None \<Rightarrow>
          (case pp_entries st of
             None \<Rightarrow> None
           | Some es \<Rightarrow> persist_dir_loop func st es c))"

text \<open>\<open>vec_cur(&v) = NULL\<close>.\<close>

definition vec_set_null :: "nat \<Rightarrow> 'a vector \<Rightarrow> 'a vector" where
  "vec_set_null k v = v\<lparr>vdata := (vdata v)[k := Ptr None]\<rparr>"

text \<open>\<open>unlink\<close> may be refused: \<open>may_unlink\<close>.\<close>

definition persist_deleteprop ::
    "nanopb \<Rightarrow> rewrite \<Rightarrow> (string \<Rightarrow> bool) \<Rightarrow> string \<Rightarrow> persist \<Rightarrow> (bool \<times> persist) option" where
  "persist_deleteprop pb rw may_unlink name st =
     (if pp_blob st \<noteq> None then
        do { v \<leftarrow> persist_getprop_all pb collect_props st vec_init;
             hit \<leftarrow> find_name name (vec_elems v) 0;
             (case hit of
                None \<Rightarrow> Some (False, st)
              | Some k \<Rightarrow>
                  do { res \<leftarrow> prop_encode pb rw (vec_elems (vec_set_null k v)) [];
                       (case res of
                          None \<Rightarrow> Some (False, st)
                        | Some out \<Rightarrow>
                            Some (True, if rw_creat rw \<and> rw_rename rw then st\<lparr>pp_blob := Some out\<rparr> else st)) }) }
      else
        let path = persist_path name
        in (case pp_files st path of
              Some (PFile _) \<Rightarrow>
                if may_unlink path then Some (True, st\<lparr>pp_files := (pp_files st)(path := None)\<rparr>)
                else Some (False, st)
            | _ \<Rightarrow> Some (False, st)))"

end
