(* ===== verification/Persist_Props_Correct.thy ===== *)
theory Persist_Props_Correct
  imports Persist_Props
begin

text \<open>
  The protobuf form of the persistent storage is a finite map from names to values:
  \<open>persist_getprop\<close> looks a name up in it and \<open>persist_deleteprop\<close> removes exactly one entry,
  given that nanopb decodes what it encoded. The directory form is proved to return four
  characters of a value at most.
\<close>

section \<open>Contents of a protobuf file\<close>

definition blob_props :: "nanopb \<Rightarrow> char list \<Rightarrow> (string \<times> string) list" where
  "blob_props pb blob = map (\<lambda>(n, v). (name_decode (the n), v)) (pb_decode pb blob)"

text \<open>
  A file as \<open>init\<close> writes it: every record has a name, no name twice, values within bounds.
\<close>

definition blob_ok :: "nanopb \<Rightarrow> char list \<Rightarrow> bool" where
  "blob_ok pb blob \<longleftrightarrow>
     list_all (\<lambda>(n, v). n \<noteq> None \<and> length v < PROP_VALUE_MAX \<and> NUL \<notin> set v) (pb_decode pb blob)
     \<and> distinct (map fst (blob_props pb blob)) \<and> length (pb_decode pb blob) < 2 ^ 31"

text \<open>
  The documented behaviour of the library: encoded records, one after the other, decode to
  the records.
\<close>

definition nanopb_ok :: "nanopb \<Rightarrow> bool" where
  "nanopb_ok pb \<longleftrightarrow>
     (\<forall>ps bs. list_all2 (\<lambda>(n, v) b. pb_encode_prop pb n v = Some b \<and> NUL \<notin> set n \<and> NUL \<notin> set v
                 \<and> length v < PROP_VALUE_MAX) ps bs
        \<longrightarrow> pb_decode pb (concat bs) = map (\<lambda>(n, v). (Some n, v)) ps)"

lemma name_decode_id: "NUL \<notin> set n \<Longrightarrow> name_decode n = n"
  unfolding name_decode_def c_str_def by (subst takeWhile_append2) auto

lemma NUL_name_decode: "NUL \<notin> set (name_decode n)"
  by (auto simp: name_decode_def c_str_def dest: set_takeWhileD)

section \<open>The callbacks\<close>

lemma getprop_decode:
  assumes "list_all (\<lambda>(n, v). n \<noteq> None \<and> length v < PROP_VALUE_MAX \<and> NUL \<notin> set v) rs"
  shows "prop_decode pb_getprop_cb rs (Some name, w) =
     (case map_of (map (\<lambda>(n, v). (name_decode (the n), v)) rs) name of
        None \<Rightarrow> Some (Some name, w) | Some v \<Rightarrow> Some (None, v))"
proof -
  have found: "prop_decode pb_getprop_cb qs (None, v) = Some (None, v)" for qs v
    by (induction qs) (auto simp: pb_getprop_cb_def)
  show ?thesis
    using assms by (induction rs) (auto simp: pb_getprop_cb_def found)
qed

lemma collect_decode:
  assumes "list_all (\<lambda>(n, v). n \<noteq> None \<and> length v < PROP_VALUE_MAX \<and> NUL \<notin> set v) rs"
    and "vec_inv v" and "unat (vsize v) + length rs < 2 ^ 31"
  shows "\<exists>v'. prop_decode collect_props rs v = Some v' \<and> vec_inv v'
    \<and> vec_elems v' = vec_elems v @ map (\<lambda>(n, x). Some (mk_prop_t (name_decode (the n)) x)) rs"
  using assms
proof (induction rs arbitrary: v)
  case (Cons r rs)
  obtain n x where r: "r = (Some n, x)" "length x < PROP_VALUE_MAX" using Cons.prems by auto
  obtain v' where v': "vec_push_back v (Some (mk_prop_t (name_decode n) x)) = Some v'" "vec_inv v'"
    "vec_elems v' = vec_elems v @ [Some (mk_prop_t (name_decode n) x)]"
    using vec_push_back_Some [of v] Cons.prems by (metis add_lessD1)
  have "unat (vsize v') = Suc (unat (vsize v))"
    using v' length_vec_elems Cons.prems(2) by (metis length_append_singleton)
  then obtain w where "prop_decode collect_props rs v' = Some w" "vec_inv w"
    "vec_elems w = vec_elems v' @ map (\<lambda>(n, x). Some (mk_prop_t (name_decode (the n)) x)) rs"
    using Cons.IH [OF _ v'(2)] Cons.prems by auto
  moreover have "collect_props (Some (name_decode n)) x v = Some v'"
    using r v' by (simp add: collect_props_def)
  ultimately show ?case using r v' by simp
qed auto

text \<open>The search over a list without NULLs finds the first entry with the name.\<close>

lemma find_name_map:
  "find_name n (map (\<lambda>(m, x). Some (mk_prop_t m x)) ps) k =
     Some (case map_of ps n of None \<Rightarrow> None | Some _ \<Rightarrow> Some (k + length (takeWhile (\<lambda>p. fst p \<noteq> n) ps)))"
  by (induction ps arbitrary: k) (auto simp: mk_prop_t_def split: option.splits)

section \<open>Rewriting the file\<close>

definition live :: "prop_t option list \<Rightarrow> (string \<times> string) list" where
  "live es = map (\<lambda>e. (pt_name (the e), pt_value (the e))) (filter (\<lambda>e. e \<noteq> None) es)"

lemma live_simps [simp]:
  "live [] = []" "live (None # es) = live es"
  "live (Some e # es) = (pt_name e, pt_value e) # live es"
  by (simp_all add: live_def)

definition enc_size :: "nanopb \<Rightarrow> (string \<times> string) list \<Rightarrow> nat" where
  "enc_size pb ps = sum_list (map (\<lambda>(n, v). length (the (pb_encode_prop pb n v))) ps)"

lemma enc_size_filter: "enc_size pb (filter P ps) \<le> enc_size pb ps"
  unfolding enc_size_def by (induction ps) auto

lemma prop_encode_law:
  assumes "\<forall>(n, v) \<in> set (live es). length v < PROP_VALUE_MAX"
  shows "\<exists>r. prop_encode pb rw es out = Some r
    \<and> (\<forall>out'. r = Some out' \<longrightarrow>
         (\<exists>bs. list_all2 (\<lambda>(n, v) b. pb_encode_prop pb n v = Some b) (live es) bs \<and> out' = out @ concat bs))
    \<and> ((\<forall>(n, v) \<in> set (live es). pb_encode_prop pb n v \<noteq> None) \<and> rw_creat rw
         \<and> length out + enc_size pb (live es) \<le> rw_space rw \<longrightarrow> r \<noteq> None)"
  using assms
proof (induction pb rw es out rule: prop_encode.induct)
  case (3 pb rw e es out)
  have short: "length (pt_value e) < PROP_VALUE_MAX" using 3(2) by auto
  show ?case
  proof (cases "pb_encode_prop pb (pt_name e) (pt_value e)")
    case None
    then show ?thesis using short by auto
  next
    case b: (Some b)
    show ?thesis
    proof (cases "write_callback rw out b")
      case None
      then show ?thesis using short b by (auto simp: write_callback_def enc_size_def split: if_splits)
    next
      case (Some out')
      then have o': "out' = out @ b" by (auto simp: write_callback_def split: if_splits)
      have "\<forall>(n, v) \<in> set (live es). length v < PROP_VALUE_MAX" using 3(2) by auto
      from 3(1) [OF _ b Some this] short obtain r where r: "prop_encode pb rw es out' = Some r"
        "\<And>o2. r = Some o2 \<Longrightarrow> \<exists>bs. list_all2 (\<lambda>(n, v) b. pb_encode_prop pb n v = Some b) (live es) bs
            \<and> o2 = out' @ concat bs"
        "(\<forall>(n, v) \<in> set (live es). pb_encode_prop pb n v \<noteq> None) \<and> rw_creat rw
            \<and> length out' + enc_size pb (live es) \<le> rw_space rw \<longrightarrow> r \<noteq> None"
        unfolding not_le by blast
      have "\<exists>bs. list_all2 (\<lambda>(n, v) b. pb_encode_prop pb n v = Some b) (live (Some e # es)) bs
            \<and> o2 = out @ concat bs" if "r = Some o2" for o2
      proof -
        from r(2) [OF that] obtain bs where
          "list_all2 (\<lambda>(n, v) b. pb_encode_prop pb n v = Some b) (live es) bs" "o2 = out' @ concat bs" by auto
        then show ?thesis using b o' by (intro exI [of _ "b # bs"]) simp
      qed
      then show ?thesis using r short b Some o' by (auto simp: enc_size_def)
    qed
  qed
qed auto

lemma live_update:
  "k < length ps \<Longrightarrow> live ((map (\<lambda>(m, x). Some (mk_prop_t m x)) ps)[k := None]) = take k ps @ drop (Suc k) ps"
proof (induction ps arbitrary: k)
  case (Cons p ps)
  have "live (map (\<lambda>(m, x). Some (mk_prop_t m x)) qs) = qs" for qs
    by (induction qs) (auto simp: mk_prop_t_def)
  then show ?case using Cons by (cases k; cases p) (auto simp: mk_prop_t_def)
qed simp

lemma remove_first:
  assumes "distinct (map fst ps)" and "k = length (takeWhile (\<lambda>p. fst p \<noteq> n) ps)"
  shows "take k ps @ drop (Suc k) ps = filter (\<lambda>p. fst p \<noteq> n) ps"
  using assms
proof (induction ps arbitrary: k)
  case (Cons p ps)
  show ?case
  proof (cases "fst p = n")
    case True
    then have "filter (\<lambda>q. fst q \<noteq> n) ps = ps" using Cons.prems by (auto simp: filter_id_conv image_iff)
    then show ?thesis using True Cons.prems by simp
  next
    case False
    then show ?thesis using Cons by simp
  qed
qed simp

lemma map_of_filter_neq:
  "map_of (filter (\<lambda>p. fst p \<noteq> n) ps) m = (if m = n then None else map_of ps m)"
  by (induction ps) auto

lemma vec_elems_set_null:
  "vec_inv v \<Longrightarrow> k < length (vec_elems v) \<Longrightarrow> vec_elems (vec_set_null k v) = (vec_elems v)[k := None]"
  by (auto simp: vec_elems_def vec_set_null_def take_update_swap map_update)

section \<open>The laws\<close>

lemma persist_getprop_blob:
  assumes "pp_blob st = Some blob" and "blob_ok pb blob"
  shows "persist_getprop pb name st = Some (map_of (blob_props pb blob) name)"
  using assms getprop_decode [of "pb_decode pb blob" name "[]"]
  by (auto simp: persist_getprop_def blob_ok_def blob_props_def split: option.splits)

lemma blob_props_encoded:
  assumes "nanopb_ok pb" and "list_all2 (\<lambda>(n, v) b. pb_encode_prop pb n v = Some b) ps bs"
    and "\<forall>(n, v) \<in> set ps. NUL \<notin> set n \<and> NUL \<notin> set v \<and> length v < PROP_VALUE_MAX"
  shows "pb_decode pb (concat bs) = map (\<lambda>(n, v). (Some n, v)) ps" and "blob_props pb (concat bs) = ps"
proof -
  have "list_all2 (\<lambda>(n, v) b. pb_encode_prop pb n v = Some b \<and> NUL \<notin> set n \<and> NUL \<notin> set v
                 \<and> length v < PROP_VALUE_MAX) ps bs"
    using assms(2,3) by (induction rule: list_all2_induct) auto
  then show "pb_decode pb (concat bs) = map (\<lambda>(n, v). (Some n, v)) ps"
    using assms(1) unfolding nanopb_ok_def by blast
  then show "blob_props pb (concat bs) = ps"
    using assms(3) by (simp add: blob_props_def, intro map_idI) (auto simp: name_decode_id)
qed

lemma blob_props_bounds:
  assumes "blob_ok pb blob"
  shows "\<forall>(n, v) \<in> set (blob_props pb blob). NUL \<notin> set n \<and> NUL \<notin> set v \<and> length v < PROP_VALUE_MAX"
  using assms NUL_name_decode by (auto simp: blob_ok_def blob_props_def list_all_iff)

lemma blob_vector:
  assumes "pp_blob st = Some blob" and "blob_ok pb blob"
  shows "\<exists>v. persist_getprop_all pb collect_props st vec_init = Some v \<and> vec_inv v
    \<and> vec_elems v = map (\<lambda>(m, x). Some (mk_prop_t m x)) (blob_props pb blob)"
proof -
  have "unat (vsize (vec_init :: prop_t vector)) = 0" by (simp add: vec_init_def)
  then show ?thesis
    using collect_decode [OF _ vec_inv_init, of "pb_decode pb blob"] assms
    by (auto simp: persist_getprop_all_def blob_ok_def blob_props_def case_prod_unfold comp_def)
qed

lemma takeWhile_found:
  assumes "map_of ps name = Some x"
  shows "length (takeWhile (\<lambda>p. fst p \<noteq> name) ps) < length ps"
proof (rule ccontr)
  assume "\<not> ?thesis"
  then have "takeWhile (\<lambda>p. fst p \<noteq> name) ps = ps" using takeWhile_eq_take [of "\<lambda>p. fst p \<noteq> name" ps] by simp
  then show False using map_of_SomeD [OF assms] by (auto simp: takeWhile_eq_all_conv)
qed

text \<open>The storage that is written without one property: it is readable, and only that property is missing.\<close>

lemma blob_without:
  assumes pb: "nanopb_ok pb" and blob: "pp_blob st = Some blob" "blob_ok pb blob"
    and bs: "list_all2 (\<lambda>(n, v) b. pb_encode_prop pb n v = Some b) (filter (\<lambda>p. fst p \<noteq> name) (blob_props pb blob)) bs"
  shows "persist_getprop pb m (st\<lparr>pp_blob := Some (concat bs)\<rparr>) = (if m = name then Some None else persist_getprop pb m st)"
proof -
  let ?ps = "blob_props pb blob" let ?qs = "filter (\<lambda>p. fst p \<noteq> name) ?ps"
  have ok: "\<forall>(n, v) \<in> set ?qs. NUL \<notin> set n \<and> NUL \<notin> set v \<and> length v < PROP_VALUE_MAX"
    using blob_props_bounds [OF blob(2)] by auto
  note dec = blob_props_encoded [OF pb bs ok]
  have "length ?qs < 2 ^ 31" "distinct (map fst ?qs)"
    using blob(2) le_less_trans [OF length_filter_le [of "\<lambda>p. fst p \<noteq> name" ?ps], of "2 ^ 31"]
    by (simp_all add: blob_ok_def distinct_map_filter) (simp add: blob_props_def)
  then have "blob_ok pb (concat bs)" using dec ok by (auto simp: blob_ok_def list_all_iff)
  then show ?thesis
    using persist_getprop_blob [of "st\<lparr>pp_blob := Some (concat bs)\<rparr>" "concat bs" pb m] dec(2)
    by (simp add: persist_getprop_blob [OF blob] map_of_filter_neq)
qed

lemma persist_delete_law:
  assumes pb: "nanopb_ok pb" and blob: "pp_blob st = Some blob" "blob_ok pb blob"
  shows "\<exists>b st'. persist_deleteprop pb rw mu name st = Some (b, st')
    \<and> (\<not> b \<longrightarrow> st' = st) \<and> (b \<longrightarrow> persist_getprop pb name st \<noteq> Some None)
    \<and> (b \<and> rw_creat rw \<and> rw_rename rw \<longrightarrow>
         (\<forall>m. persist_getprop pb m st' = (if m = name then Some None else persist_getprop pb m st)))
    \<and> ((\<forall>(n, v) \<in> set (blob_props pb blob). pb_encode_prop pb n v \<noteq> None) \<and> rw_creat rw
         \<and> enc_size pb (blob_props pb blob) \<le> rw_space rw \<and> persist_getprop pb name st \<noteq> Some None \<longrightarrow> b)"
proof -
  let ?ps = "blob_props pb blob" let ?qs = "filter (\<lambda>p. fst p \<noteq> name) ?ps"
  obtain v where v: "persist_getprop_all pb collect_props st vec_init = Some v" "vec_inv v"
    "vec_elems v = map (\<lambda>(m, x). Some (mk_prop_t m x)) ?ps" using blob_vector [OF blob] by blast
  note get = persist_getprop_blob [OF blob]
  show ?thesis
  proof (cases "map_of ?ps name")
    case None
    then have "persist_deleteprop pb rw mu name st = Some (False, st)"
      using v blob find_name_map [of name ?ps 0] by (simp add: persist_deleteprop_def)
    then show ?thesis using None by (auto simp: get)
  next
    case (Some x)
    define k where "k = length (takeWhile (\<lambda>p. fst p \<noteq> name) ?ps)"
    have k: "k < length ?ps" unfolding k_def by (rule takeWhile_found [OF Some])
    have hit: "find_name name (vec_elems v) 0 = Some (Some k)"
      using Some v(3) find_name_map [of name ?ps 0] by (simp add: k_def)
    have live: "live (vec_elems (vec_set_null k v)) = ?qs"
      using k v live_update [OF k] remove_first [OF _ k_def] blob(2)
      by (simp add: vec_elems_set_null blob_ok_def)
    have ok: "\<forall>(n, v) \<in> set ?qs. NUL \<notin> set n \<and> NUL \<notin> set v \<and> length v < PROP_VALUE_MAX"
      using blob_props_bounds [OF blob(2)] by auto
    then obtain r where r: "prop_encode pb rw (vec_elems (vec_set_null k v)) [] = Some r"
      "\<And>out. r = Some out \<Longrightarrow>
         \<exists>bs. list_all2 (\<lambda>(n, v) b. pb_encode_prop pb n v = Some b) ?qs bs \<and> out = concat bs"
      "(\<forall>(n, v) \<in> set ?qs. pb_encode_prop pb n v \<noteq> None) \<and> rw_creat rw
         \<and> enc_size pb ?qs \<le> rw_space rw \<longrightarrow> r \<noteq> None"
      using prop_encode_law [of "vec_elems (vec_set_null k v)" pb rw "[]"] live by auto
    have less: "enc_size pb ?qs \<le> enc_size pb ?ps"
      by (rule enc_size_filter)
    show ?thesis
    proof (cases r)
      case None
      then have "persist_deleteprop pb rw mu name st = Some (False, st)"
        using v(1) hit r(1) blob(1) by (simp add: persist_deleteprop_def)
      moreover have "\<not> ((\<forall>(n, v) \<in> set ?ps. pb_encode_prop pb n v \<noteq> None) \<and> rw_creat rw
          \<and> enc_size pb ?ps \<le> rw_space rw)"
        using None r(3) less by force
      ultimately show ?thesis by blast
    next
      case out: (Some out)
      let ?st = "if rw_creat rw \<and> rw_rename rw then st\<lparr>pp_blob := Some out\<rparr> else st"
      have del: "persist_deleteprop pb rw mu name st = Some (True, ?st)"
        using v(1) hit r(1) blob(1) out by (simp add: persist_deleteprop_def)
      obtain bs where bs: "list_all2 (\<lambda>(n, v) b. pb_encode_prop pb n v = Some b) ?qs bs" "out = concat bs"
        using r(2) [OF out] by blast
      show ?thesis using del Some get blob_without [OF pb blob bs(1), folded bs(2)] by auto
    qed
  qed
qed

section \<open>Properties\<close>

text \<open>
  A codec with the documented behaviour, for the witnesses: every string ends in a NUL.
\<close>

fun nul_decode :: "string option \<Rightarrow> string \<Rightarrow> char list \<Rightarrow> (char list option \<times> string) list" where
  "nul_decode n acc [] = []"
| "nul_decode n acc (c # cs) =
     (if c = NUL
      then (case n of None \<Rightarrow> nul_decode (Some acc) [] cs | Some m \<Rightarrow> (Some m, acc) # nul_decode None [] cs)
      else nul_decode n (acc @ [c]) cs)"

definition nul_codec :: nanopb where
  "nul_codec = \<lparr>pb_decode = nul_decode None [], pb_encode_prop = \<lambda>n v. Some (n @ [NUL] @ v @ [NUL])\<rparr>"

lemma nanopb_ok_nul_codec: "nanopb_ok nul_codec"
proof -
  have str: "nul_decode n acc (s @ NUL # cs) =
      (case n of None \<Rightarrow> nul_decode (Some (acc @ s)) [] cs | Some m \<Rightarrow> (Some m, acc @ s) # nul_decode None [] cs)"
    if "NUL \<notin> set s" for n acc s cs
    using that by (induction s arbitrary: acc) (auto split: option.splits)
  have "nul_decode None [] (concat bs) = map (\<lambda>(n, v). (Some n, v)) ps"
    if "list_all2 (\<lambda>(n, v) b. pb_encode_prop nul_codec n v = Some b \<and> NUL \<notin> set n \<and> NUL \<notin> set v
                 \<and> length v < PROP_VALUE_MAX) ps bs" for ps bs
    using that by (induction rule: list_all2_induct) (auto simp: nul_codec_def str)
  then show ?thesis unfolding nanopb_ok_def by (simp add: nul_codec_def)
qed

text \<open>
  On a protobuf file as \<open>init\<close> writes it, \<open>persist_deleteprop\<close> never faults. When it
  returns false the storage is unchanged; when it returns true the property was stored, and
  once the new file is in place exactly this property is gone and every other one reads as
  before. It does return true for every stored property if the records encode and the device
  has room for them.
\<close>

theorem persist_delete_correct:
  assumes "nanopb_ok pb" and "pp_blob st = Some blob" and "blob_ok pb blob"
  shows "\<exists>b st'. persist_deleteprop pb rw mu name st = Some (b, st')
    \<and> (\<not> b \<longrightarrow> st' = st) \<and> (b \<longrightarrow> persist_getprop pb name st \<noteq> Some None)
    \<and> (b \<and> rw_creat rw \<and> rw_rename rw \<longrightarrow>
         (\<forall>m. persist_getprop pb m st' = (if m = name then Some None else persist_getprop pb m st)))
    \<and> ((\<forall>(n, v) \<in> set (blob_props pb blob). pb_encode_prop pb n v \<noteq> None) \<and> rw_creat rw
         \<and> enc_size pb (blob_props pb blob) \<le> rw_space rw \<and> persist_getprop pb name st \<noteq> Some None \<longrightarrow> b)"
  using persist_delete_law [OF assms] .

definition sample_blob :: "char list" where
  "sample_blob = ''persist.a'' @ [NUL] @ ''1'' @ [NUL] @ ''persist.b'' @ [NUL] @ ''2'' @ [NUL]"

lemma sample_blob_ok:
  "blob_ok nul_codec sample_blob"
  "blob_props nul_codec sample_blob = [(''persist.a'', ''1''), (''persist.b'', ''2'')]"
  by (simp_all add: blob_ok_def blob_props_def sample_blob_def nul_codec_def name_decode_def c_str_def
      PROP_VALUE_MAX_def)

theorem persist_delete_correct_witness:
  "\<exists>st'. persist_deleteprop nul_codec \<lparr>rw_creat = True, rw_space = 100, rw_rename = True\<rparr> (\<lambda>_. True) ''persist.a''
       \<lparr>pp_blob = Some sample_blob, pp_files = Map.empty, pp_entries = None\<rparr> = Some (True, st')
     \<and> persist_getprop nul_codec ''persist.a'' st' = Some None
     \<and> persist_getprop nul_codec ''persist.b'' st' = Some (Some ''2'')"
proof -
  let ?st = "\<lparr>pp_blob = Some sample_blob, pp_files = Map.empty, pp_entries = None\<rparr>"
  let ?rw = "\<lparr>rw_creat = True, rw_space = 100, rw_rename = True\<rparr>"
  have "pp_blob ?st = Some sample_blob" by simp
  note get = persist_getprop_blob [OF this sample_blob_ok(1)] and
    del = persist_delete_correct [OF nanopb_ok_nul_codec this sample_blob_ok(1), of ?rw "\<lambda>_. True" "''persist.a''"]
  have "enc_size nul_codec (blob_props nul_codec sample_blob) \<le> 100"
    "\<forall>(n, v) \<in> set (blob_props nul_codec sample_blob). pb_encode_prop nul_codec n v \<noteq> None"
    unfolding sample_blob_ok by (simp_all add: enc_size_def nul_codec_def)
  moreover obtain b st' where st': "persist_deleteprop nul_codec ?rw (\<lambda>_. True) ''persist.a'' ?st = Some (b, st')"
    "b \<longrightarrow> (\<forall>m. persist_getprop nul_codec m st' = (if m = ''persist.a'' then Some None
       else persist_getprop nul_codec m ?st))"
    "(\<forall>(n, v) \<in> set (blob_props nul_codec sample_blob). pb_encode_prop nul_codec n v \<noteq> None)
       \<and> enc_size nul_codec (blob_props nul_codec sample_blob) \<le> 100
       \<and> persist_getprop nul_codec ''persist.a'' ?st \<noteq> Some None \<longrightarrow> b"
    using del by (simp only: rewrite.simps simp_thms) blast
  moreover have "persist_getprop nul_codec ''persist.a'' ?st \<noteq> Some None"
    "persist_getprop nul_codec ''persist.b'' ?st = Some (Some ''2'')"
    by (simp_all add: get sample_blob_ok)
  ultimately have b by blast
  with st'(2) have "persist_getprop nul_codec ''persist.a'' st' = Some None"
    "persist_getprop nul_codec ''persist.b'' st' = Some (Some ''2'')"
    by (simp_all add: get sample_blob_ok)
  with st'(1) \<open>b\<close> show ?thesis by simp
qed

text \<open>
  In the directory form \<open>persist_getprop\<close> reads \<open>sizeof(PROP_VALUE_MAX)\<close> bytes, so a
  stored value longer than four characters is returned cut to its first four.
\<close>

theorem persist_getprop_truncates:
  assumes "pp_blob st = None" and "pp_files st (persist_path name) = Some (PFile val)" and "NUL \<notin> set val"
  shows "persist_getprop pb name st = Some (Some (take 4 val))"
proof -
  have "NUL \<notin> set (take 4 val)" using assms(3) by (auto dest: in_set_takeD)
  then show ?thesis
    using assms name_decode_id [of "take 4 val"]
    by (simp add: persist_getprop_def persist_read_file_def sizeof_int_def name_decode_def)
qed

theorem persist_getprop_truncates_witness:
  "persist_getprop nul_codec ''persist.sys.locale''
     \<lparr>pp_blob = None, pp_files = [persist_path ''persist.sys.locale'' \<mapsto> PFile ''en-US''], pp_entries = None\<rparr>
   = Some (Some ''en-U'')"
  using persist_getprop_truncates [of "\<lparr>pp_blob = None,
      pp_files = [persist_path ''persist.sys.locale'' \<mapsto> PFile ''en-US''], pp_entries = None\<rparr>"
      "''persist.sys.locale''" "''en-US''"] by simp

end
