(* ===== verification/Resetprop.thy ===== *)
theory Resetprop
  imports System_Properties Property_Set Persist_Props
begin

text \<open>
  The command \<open>resetprop\<close> (\<open>tools/resetprop/resetprop.c\<close>) on top of the property system and the
  persistent storage. The property service on the other end of the socket and the system calls
  are the record \<open>rp_env\<close>; \<^const>\<open>None\<close> is a fault, such as the overflow of a value buffer.
\<close>

section \<open>The tool's world\<close>

text \<open>
  \<open>ev_service\<close> is \<open>__system_property_set\<close> together with what the property service does to the
  areas; \<open>ev_text\<close> are the files \<open>fopen\<close> opens.
\<close>

record rp_env =
  ev_is_dir :: "string \<Rightarrow> bool"
  ev_mmap :: bool
  ev_pb :: nanopb
  ev_rw :: rewrite
  ev_unlink :: "string \<Rightarrow> bool"
  ev_service :: "string \<Rightarrow> string \<Rightarrow> sysprops \<Rightarrow> int \<times> sysprops"
  ev_text :: "string \<rightharpoonup> string"
  ev_qsort :: "(prop_t option \<Rightarrow> prop_t option \<Rightarrow> int) \<Rightarrow> prop_t option list \<Rightarrow> prop_t option list"

record rp_state =
  rp_sp :: sysprops
  rp_persist :: persist

section \<open>Names\<close>

definition legal_char :: "char \<Rightarrow> bool" where
  "legal_char c \<longleftrightarrow>
     c = CHR ''_'' \<or> c = CHR ''-'' \<or> c = CHR ''@'' \<or> c = CHR '':''
     \<or> (CHR ''a'' \<le> c \<and> c \<le> CHR ''z'') \<or> (CHR ''A'' \<le> c \<and> c \<le> CHR ''Z'')
     \<or> (CHR ''0'' \<le> c \<and> c \<le> CHR ''9'')"

text \<open>The loop, with \<open>name[i - 1]\<close>; a dot at index 0 has been excluded before.\<close>

fun legal_loop :: "char \<Rightarrow> string \<Rightarrow> bool" where
  "legal_loop prev [] = True"
| "legal_loop prev (c # cs) =
     (if c = CHR ''.'' then (if prev = CHR ''.'' then False else legal_loop c cs)
      else if legal_char c then legal_loop c cs else False)"

definition check_legal_property_name :: "string \<Rightarrow> int" where
  "check_legal_property_name name =
     (if length name < 1 then 1
      else if hd name = CHR ''.'' then 1
      else if last name = CHR ''.'' then 1
      else if legal_loop NUL name then 0 else 1)"

section \<open>Reading\<close>

definition init_resetprop :: "rp_env \<Rightarrow> rp_state \<Rightarrow> (bool \<times> rp_state) option" where
  "init_resetprop ev st =
     (case system_properties_init (ev_is_dir ev) (ev_mmap ev) (rp_sp st) of
        None \<Rightarrow> None
      | Some (r, sp) \<Rightarrow> Some (r = 0, st\<lparr>rp_sp := sp\<rparr>))"

definition prop_exist :: "rp_env \<Rightarrow> string \<Rightarrow> rp_state \<Rightarrow> (bool \<times> rp_state) option" where
  "prop_exist ev name st =
     do { (ok, st1) \<leftarrow> init_resetprop ev st;
          if \<not> ok then Some (False, st1)
          else do { (pi, sp) \<leftarrow> sp_Find name (rp_sp st1); Some (pi \<noteq> None, st1\<lparr>rp_sp := sp\<rparr>) } }"

text \<open>\<open>callback_wrapper\<close> hands name and value on to the callback.\<close>

definition callback_wrapper ::
    "(string option \<Rightarrow> string \<Rightarrow> 'c \<Rightarrow> 'c option) \<Rightarrow> string \<times> string \<times> u32 \<Rightarrow> 'c \<Rightarrow> 'c option" where
  "callback_wrapper func r c = (case r of (name, value, serial) \<Rightarrow> func (Some name) value c)"

text \<open>\<open>store_prop_value\<close>: \<open>strcpy\<close> into the caller's \<open>PROP_VALUE_MAX\<close> bytes.\<close>

definition store_prop_value :: "string option \<Rightarrow> string \<Rightarrow> string \<Rightarrow> string option" where
  "store_prop_value name value dst = (if length value \<ge> PROP_VALUE_MAX then None else Some value)"

definition read_prop ::
    "(string option \<Rightarrow> string \<Rightarrow> 'c \<Rightarrow> 'c option) \<Rightarrow> sysprops \<Rightarrow> pi_ptr \<Rightarrow> 'c \<Rightarrow> 'c option" where
  "read_prop func sp p c =
     do { (pa, i) \<leftarrow> sp_info sp p; r \<leftarrow> sp_ReadCallback pa (snd p) i; callback_wrapper func r c }"

definition getprop2 :: "rp_env \<Rightarrow> string \<Rightarrow> bool \<Rightarrow> rp_state \<Rightarrow> (string option \<times> rp_state) option" where
  "getprop2 ev name persist st =
     (if check_legal_property_name name \<noteq> 0 then Some (None, st)
      else do {
        (ok, st1) \<leftarrow> init_resetprop ev st;
        if \<not> ok then Some (None, st1)
        else do {
          (pi, sp) \<leftarrow> sp_Find name (rp_sp st1);
          let st2 = st1\<lparr>rp_sp := sp\<rparr>;
          (case pi of
             None \<Rightarrow>
               if persist \<and> strncmp name ''persist.'' 8 = 0
               then map_option (\<lambda>v. (v, st2)) (persist_getprop (ev_pb ev) name (rp_persist st2))
               else Some (None, st2)
           | Some p \<Rightarrow> map_option (\<lambda>v. (Some v, st2)) (read_prop store_prop_value sp p [])) } })"

definition getprop :: "rp_env \<Rightarrow> string \<Rightarrow> rp_state \<Rightarrow> (string option \<times> rp_state) option" where
  "getprop ev name st = getprop2 ev name False st"

text \<open>\<open>prop_foreach_cb\<close> for each property \<open>__system_property_foreach\<close> visits.\<close>

fun foreach_read ::
    "(string option \<Rightarrow> string \<Rightarrow> 'c \<Rightarrow> 'c option) \<Rightarrow> sysprops \<Rightarrow> pi_ptr list \<Rightarrow> 'c \<Rightarrow> 'c option" where
  "foreach_read func sp [] c = Some c"
| "foreach_read func sp (p # ps) c =
     (case read_prop func sp p c of None \<Rightarrow> None | Some c' \<Rightarrow> foreach_read func sp ps c')"

definition getprop_all ::
    "rp_env \<Rightarrow> (string option \<Rightarrow> string \<Rightarrow> 'c \<Rightarrow> 'c option) \<Rightarrow> 'c \<Rightarrow> rp_state \<Rightarrow> ('c \<times> rp_state) option" where
  "getprop_all ev callback cookie st =
     do { (ok, st1) \<leftarrow> init_resetprop ev st;
          if \<not> ok then Some (cookie, st1)
          else do { (r, ps, sp) \<leftarrow> sp_Foreach (rp_sp st1);
                    c \<leftarrow> foreach_read callback sp ps cookie;
                    Some (c, st1\<lparr>rp_sp := sp\<rparr>) } }"

definition prop_line :: "prop_t \<Rightarrow> string" where
  "prop_line p = ''['' @ pt_name p @ '']: ['' @ pt_value p @ '']'' @ [CHR 0x0A]"

text \<open>The lines \<open>print_props\<close> prints; a NULL in the list would be dereferenced.\<close>

fun prop_lines :: "prop_t option list \<Rightarrow> string list option" where
  "prop_lines [] = Some []"
| "prop_lines (None # es) = None"
| "prop_lines (Some p # es) = map_option ((#) (prop_line p)) (prop_lines es)"

definition print_props :: "rp_env \<Rightarrow> bool \<Rightarrow> rp_state \<Rightarrow> (string list \<times> rp_state) option" where
  "print_props ev persist st =
     do { (v, st1) \<leftarrow> getprop_all ev collect_props vec_init st;
          v1 \<leftarrow> (if persist then persist_getprop_all (ev_pb ev) collect_unique_props (rp_persist st1) v
                 else Some v);
          out \<leftarrow> prop_lines (vec_elems (vec_sort (ev_qsort ev) (Some prop_cmp) v1));
          Some (out, st1) }"

section \<open>Deleting and setting\<close>

text \<open>The result is a C truth value: 0 only if one of the two deletions succeeded.\<close>

definition deleteprop2 :: "rp_env \<Rightarrow> string \<Rightarrow> bool \<Rightarrow> rp_state \<Rightarrow> (int \<times> rp_state) option" where
  "deleteprop2 ev name persist st =
     (if check_legal_property_name name \<noteq> 0 then Some (1, st)
      else do {
        (ok, st1) \<leftarrow> init_resetprop ev st;
        if \<not> ok then Some (- 1, st1)
        else do {
          (p, pst) \<leftarrow>
            (if persist \<and> strncmp name ''persist.'' 8 = 0
             then persist_deleteprop (ev_pb ev) (ev_rw ev) (ev_unlink ev) name (rp_persist st1)
             else Some (persist, rp_persist st1));
          (r, sp) \<leftarrow> sp_Delete name (rp_sp st1);
          Some (if r \<noteq> 0 \<and> \<not> (p \<and> strncmp name ''persist.'' 8 = 0) then 1 else 0,
                st1\<lparr>rp_sp := sp, rp_persist := pst\<rparr>) } })"

definition deleteprop :: "rp_env \<Rightarrow> string \<Rightarrow> rp_state \<Rightarrow> (int \<times> rp_state) option" where
  "deleteprop ev name st = deleteprop2 ev name True st"

definition setprop2 :: "rp_env \<Rightarrow> string \<Rightarrow> string \<Rightarrow> bool \<Rightarrow> rp_state \<Rightarrow> (int \<times> rp_state) option" where
  "setprop2 ev name value trigger st =
     (if check_legal_property_name name \<noteq> 0 then Some (1, st)
      else do {
        (ok, st1) \<leftarrow> init_resetprop ev st;
        if \<not> ok then Some (- 1, st1)
        else do {
          (pi, sp) \<leftarrow> sp_Find name (rp_sp st1);
          let st2 = st1\<lparr>rp_sp := sp\<rparr>;
          (case pi of
             Some p \<Rightarrow>
               if trigger then
                 do { (d, st3) \<leftarrow> (if strncmp name ''ro.'' 3 = 0 then deleteprop ev name st2 else Some (0, st2));
                      let (r, sp4) = ev_service ev name value (rp_sp st3);
                      Some (r, st3\<lparr>rp_sp := sp4\<rparr>) }
               else
                 do { (r, sp3) \<leftarrow> sp_Update p value (length value) sp; Some (r, st2\<lparr>rp_sp := sp3\<rparr>) }
           | None \<Rightarrow>
               if trigger then
                 (let (r, sp3) = ev_service ev name value sp in Some (r, st2\<lparr>rp_sp := sp3\<rparr>))
               else
                 do { (r, sp3) \<leftarrow> sp_Add name value sp; Some (r, st2\<lparr>rp_sp := sp3\<rparr>) }) } })"

definition setprop :: "rp_env \<Rightarrow> string \<Rightarrow> string \<Rightarrow> rp_state \<Rightarrow> (int \<times> rp_state) option" where
  "setprop ev name value st = setprop2 ev name value True st"

section \<open>Property files\<close>

definition chomp :: "string \<Rightarrow> string" where
  "chomp line = (if line \<noteq> [] \<and> last line = CHR 0x0A then butlast line else line)"

text \<open>
  One line: the name from the first character that is not a space up to the first \<open>'='\<close>, the
  value behind it; comments and lines without a name or a value are skipped.
\<close>

definition parse_prop_line :: "string \<Rightarrow> (string \<times> string) option" where
  "parse_prop_line line0 =
     (let line = chomp line0; i = length (takeWhile (\<lambda>c. c = CHR '' '') line)
      in if i < length line \<and> line ! i = CHR ''#'' then None
         else case strchr (c_str line) CHR ''='' of
                None \<Rightarrow> None
              | Some p \<Rightarrow>
                  if i \<ge> p \<or> Suc p \<ge> length line then None
                  else Some (drop i (take p line), c_str (drop (Suc p) line @ [NUL])))"

fun prop_file_loop :: "rp_env \<Rightarrow> bool \<Rightarrow> string list \<Rightarrow> rp_state \<Rightarrow> rp_state option" where
  "prop_file_loop ev trigger [] st = Some st"
| "prop_file_loop ev trigger (l # ls) st =
     (case parse_prop_line l of
        None \<Rightarrow> prop_file_loop ev trigger ls st
      | Some (name, value) \<Rightarrow>
          (case setprop2 ev name value trigger st of
             None \<Rightarrow> None
           | Some (r, st') \<Rightarrow> prop_file_loop ev trigger ls st'))"

definition read_prop_file :: "rp_env \<Rightarrow> string \<Rightarrow> bool \<Rightarrow> rp_state \<Rightarrow> (int \<times> rp_state) option" where
  "read_prop_file ev filename trigger st =
     do { (ok, st1) \<leftarrow> init_resetprop ev st;
          if \<not> ok then Some (- 1, st1)
          else case ev_text ev filename of
                 None \<Rightarrow> Some (1, st1)
               | Some txt \<Rightarrow> map_option (Pair 0) (prop_file_loop ev trigger (text_lines txt) st1) }"

section \<open>The command line\<close>

record rp_flags =
  fl_trigger :: bool
  fl_persist :: bool
  fl_verbose :: bool

datatype rp_command =
    LoadFile string
  | DeleteProp string
  | Usage
  | Args "string list"

text \<open>
  The characters of one argument behind its first: \<open>'-'\<close> falls through to \<open>'v'\<close> when the argument
  is none of the long options. The result is a command that ends the parsing, or the flags.
\<close>

fun flag_chars :: "string list \<Rightarrow> string \<Rightarrow> rp_flags \<Rightarrow> rp_command option \<times> rp_flags" where
  "flag_chars argv [] fl = (None, fl)"
| "flag_chars argv (c # cs) fl =
     (if c = CHR ''-'' then
        (if hd argv = ''--file'' \<and> length argv = 2 then (Some (LoadFile (argv ! 1)), fl)
         else if hd argv = ''--delete'' \<and> length argv = 2 then (Some (DeleteProp (argv ! 1)), fl)
         else if hd argv = ''--help'' then (Some Usage, fl)
         else flag_chars argv cs (fl\<lparr>fl_verbose := True\<rparr>))
      else if c = CHR ''v'' then flag_chars argv cs (fl\<lparr>fl_verbose := True\<rparr>)
      else if c = CHR ''p'' then flag_chars argv cs (fl\<lparr>fl_persist := True\<rparr>)
      else if c = CHR ''n'' then flag_chars argv cs (fl\<lparr>fl_trigger := False\<rparr>)
      else (Some Usage, fl))"

fun parse_args :: "string list \<Rightarrow> rp_flags \<Rightarrow> rp_command \<times> rp_flags" where
  "parse_args [] fl = (Args [], fl)"
| "parse_args (a # as) fl =
     (if a \<noteq> [] \<and> hd a = CHR ''-'' then
        (case flag_chars (a # as) (tl a) fl of
           (Some cmd, fl') \<Rightarrow> (cmd, fl')
         | (None, fl') \<Rightarrow> parse_args as fl')
      else (Args (a # as), fl))"

text \<open>\<open>main\<close>: the exit status and the lines on standard output.\<close>

definition rp_main :: "rp_env \<Rightarrow> string list \<Rightarrow> rp_state \<Rightarrow> (int \<times> string list \<times> rp_state) option" where
  "rp_main ev argv st =
     (case parse_args argv \<lparr>fl_trigger = True, fl_persist = False, fl_verbose = False\<rparr> of
        (LoadFile f, fl) \<Rightarrow> map_option (\<lambda>(r, s). (r, [], s)) (read_prop_file ev f (fl_trigger fl) st)
      | (DeleteProp n, fl) \<Rightarrow> map_option (\<lambda>(r, s). (r, [], s)) (deleteprop2 ev n (fl_persist fl) st)
      | (Usage, fl) \<Rightarrow> Some (1, [], st)
      | (Args [], fl) \<Rightarrow> map_option (\<lambda>(out, s). (0, out, s)) (print_props ev (fl_persist fl) st)
      | (Args [n], fl) \<Rightarrow>
          map_option (\<lambda>(v, s). case v of None \<Rightarrow> (1, [], s) | Some x \<Rightarrow> (0, [x @ [CHR 0x0A]], s))
            (getprop2 ev n (fl_persist fl) st)
      | (Args [n, v], fl) \<Rightarrow> map_option (\<lambda>(r, s). (r, [], s)) (setprop2 ev n v (fl_trigger fl) st)
      | (Args _, fl) \<Rightarrow> Some (1, [], st))"

end
