(* ===== verification/Property_Room.thy ===== *)
theory Property_Room
  imports System_Properties_Correct
begin

text \<open>
  What the operations of the property system do to the records of the other properties and to the free bytes of the areas. A client
  that makes several changes in a row needs this to know that the later ones succeed: an area is a bump allocator of fixed size, and the
  record of a read-only property may be in a state in which an update does not take effect.
\<close>

section \<open>Records and bytes of one area\<close>

definition area_rec :: "nat \<Rightarrow> prop_area \<Rightarrow> string \<Rightarrow> prop_info option" where
  "area_rec ds pa name = (case area_find ds pa name of Some (Some off) \<Rightarrow> info_at pa off | _ \<Rightarrow> None)"

lemma area_rec_wf: "wf_area ds pa t \<Longrightarrow> area_rec ds pa name = Option.bind (tlook t (tokens name)) (info_at pa)"
  by (cases "tlook t (tokens name)") (simp_all add: area_rec_def area_find_wf)

lemma info_at_frame:
  assumes "info_ok pa p ts" and "frame S pa pa'" and "\<And>k. k \<in> S \<Longrightarrow> bt_at pa k \<noteq> None"
  shows "info_at pa' p = info_at pa p"
proof -
  have p: "p < bytes_used pa" "info_at pa p \<noteq> None" using assms(1) by (auto simp: info_ok_def split: option.splits)
  then have "p \<notin> S" using assms(3) [of p] by (auto simp: info_at_def bt_at_def split: option.splits pobj.splits)
  then show ?thesis using p assms(2) by (simp add: info_at_def frame_def)
qed

lemma new_prop_info_short:
  assumes "area_sz ds pa" and "new_prop_info ds pa nm v = (pa', Some k)" and "length v < PROP_VALUE_MAX"
  shows "info_at pa' k = Some (prop_info_short nm v)"
  by (rule allocate_cases [OF assms(1), of "sizeof_prop_info + length nm + 1"])
    (use assms(2,3) in \<open>auto simp: new_prop_info_def info_at_def\<close>)

lemma new_prop_info_bytes:
  assumes "area_sz ds pa" and "new_prop_info ds pa nm v = (pa', r)"
  shows "bytes_used pa' \<le> bytes_used pa + info_size nm v"
proof (rule allocate_cases [OF assms(1), of "sizeof_prop_info + length nm + 1"])
  assume "allocate_obj ds pa (sizeof_prop_info + length nm + 1) = None"
  then show ?thesis using assms(2) by (simp add: new_prop_info_def)
next
  fix u assume a: "allocate_obj ds pa (sizeof_prop_info + length nm + 1) = Some (bytes_used pa, pa\<lparr>bytes_used := u\<rparr>)"
    "area_sz ds (pa\<lparr>bytes_used := u\<rparr>)" "u = bytes_used pa + align4 (sizeof_prop_info + length nm + 1)"
  show ?thesis
    by (rule allocate_cases [OF a(2), of "length v + 1"])
      (use a assms(2) in \<open>auto simp: new_prop_info_def info_size_def split: if_splits\<close>)
qed simp

text \<open>An addition takes at most the bytes it may need, writes only to nodes and to fresh memory, and keeps what is found for every other name.\<close>

lemma area_add_frame:
  assumes wf: "wf_area ds pa t" and v: "storable name v" and none: "tlook t (tokens name) = None"
    and add: "area_add ds pa name v = Some (pa', r)"
  shows "\<exists>t' S. wf_area ds pa' t' \<and> (\<forall>ts. ts \<noteq> tokens name \<longrightarrow> tlook t' ts = tlook t ts)
    \<and> frame S pa pa' \<and> (\<forall>k \<in> S. bt_at pa k \<noteq> None) \<and> bytes_used pa' \<le> bytes_used pa + add_need name v
    \<and> (r \<and> length v < PROP_VALUE_MAX \<longrightarrow> Option.bind (tlook t' (tokens name)) (info_at pa') = Some (prop_info_short name v))"
proof -
  obtain b where b: "lvl ds pa 0 b t" using wf by (auto simp: wf_area_def)
  let ?S = "insert 0 (set (offs t))"
  have S: "\<forall>k \<in> ?S. bt_at pa k \<noteq> None" using wf_bt_at [OF b] by blast
  from search_toks_grows [OF b, of "tokens name"] obtain pa1 t1 q where
    s: "find_prop_bt ds pa 0 name True = Some (pa1, q)" and g: "grows ds pa 0 b t pa1 t1"
    and u: "bytes_used pa1 \<le> bytes_used pa + nodes_size (tokens name)"
    and q: "q = None \<or> (\<exists>j p c. q = Some j \<and> node t1 (tokens name) = Some (j, p, c) \<and> [] \<notin> set (tokens name))"
    by (auto simp: find_prop_bt_tokens)
  note w1 = wf_grows [OF wf b g]
  have sz1: "area_sz ds pa1" by (rule wf_area_sz [OF w1(1)])
  have fr1: "frame ?S pa pa1" "set (offs t1) \<subseteq> set (offs t) \<union> {bytes_used pa..}" "\<And>ts. tlook t1 ts = tlook t ts"
    using g by (auto simp: grows_def)
  from q show ?thesis
  proof (elim disjE exE conjE)
    assume "q = None"
    then have "pa' = pa1" "\<not> r" using add s by (simp_all add: area_add_def find_property_def)
    then show ?thesis using w1(1) fr1 S u by (intro exI [of _ t1] exI [of _ ?S]) (auto simp: add_need_def)
  next
    fix j p c
    assume j: "q = Some j" "node t1 (tokens name) = Some (j, p, c)" "[] \<notin> set (tokens name)"
    have "tlook t1 (tokens name) = None" using fr1(3) none by simp
    with j(2) have p0: "p = 0" by (auto simp: tlook_def split: if_splits)
    obtain b1 where b1: "lvl ds pa1 0 b1 t1" using w1(1) by (auto simp: wf_area_def)
    obtain bj where bj: "bt_at pa1 j = Some bj" "bt_prop bj = 0" "j \<in> set (offs t1)"
      using lvl_tpset [OF b1 j(2)] p0 by blast
    obtain pa2 z where n: "new_prop_info ds pa1 name v = (pa2, z)" by fastforce
    have u2: "bytes_used pa2 \<le> bytes_used pa + add_need name v"
      using new_prop_info_bytes [OF sz1 n] u by (simp add: add_need_def)
    show ?thesis
    proof (rule new_prop_info_cases [OF sz1 v])
      fix pa3 assume a: "new_prop_info ds pa1 name v = (pa3, None)" "frame {} pa1 pa3" "area_sz ds pa3"
      then have "pa' = pa2" "pa3 = pa2" "\<not> r" using add n s j bj by (auto simp: area_add_def find_property_def)
      then show ?thesis
        using wf_area_frame(1) [OF w1(1) a(2,3)] fr1 S u2 frame_trans [OF fr1(1) a(2)]
        by (intro exI [of _ t1] exI [of _ ?S]) auto
    next
      fix pa3 assume a: "new_prop_info ds pa1 name v = (pa3, Some (bytes_used pa1))" "frame {} pa1 pa3"
        "area_sz ds pa3" "info_ok pa3 (bytes_used pa1) (tokens name)"
      let ?f = "\<lambda>b. b\<lparr>bt_prop := bytes_used pa1\<rparr>"
      have e: "pa3 = pa2" "pa' = upd_bt pa2 j ?f"
        using a(1) add n s j bj by (auto simp: area_add_def find_property_def)
      note w2 = wf_area_frame [OF w1(1) a(2,3)]
      have "frame ?S pa pa2" using frame_trans [OF fr1(1) a(2)] e by simp
      moreover have "{j} \<inter> {..<bytes_used pa} \<subseteq> ?S" using bj(3) fr1(2) by fastforce
      ultimately have "frame ?S pa pa'"
        unfolding e(2) by (rule frame_trans [OF _ upd_bt_frame(1)])
      moreover have "wf_area ds pa' (tpset (tokens name) (bytes_used pa1) t1)"
        using wf_area_tpset(1) [OF w2(1) j(2), of "bytes_used pa1"] a(4) j(3) e by simp
      moreover have "tlook (tpset (tokens name) (bytes_used pa1) t1) ts = tlook t ts" if "ts \<noteq> tokens name" for ts
        using that tlook_tpset [of t1 "tokens name" "bytes_used pa1" ts] j(2) fr1(3) by simp
      moreover have "bytes_used pa' \<le> bytes_used pa + add_need name v" using u2 e upd_bt_frame(2) by simp
      moreover have "Option.bind (tlook (tpset (tokens name) (bytes_used pa1) t1) (tokens name)) (info_at pa') = Some (prop_info_short name v)"
        if "length v < PROP_VALUE_MAX"
      proof -
        have "0 < bytes_used pa1" using b1 by (auto simp: lvl_def)
        then have "tlook (tpset (tokens name) (bytes_used pa1) t1) (tokens name) = Some (bytes_used pa1)"
          using tlook_tpset [of t1 "tokens name" "bytes_used pa1" "tokens name"] j(2) by simp
        moreover have "info_at pa3 (bytes_used pa1) = Some (prop_info_short name v)"
          by (rule new_prop_info_short [OF sz1 a(1) that])
        moreover have "info_at (upd_bt pa2 j ?f) k = info_at pa2 k" for k
          by (auto simp: upd_bt_def info_at_def split: option.splits pobj.splits)
        ultimately show ?thesis using e by simp
      qed
      ultimately show ?thesis using S by blast
    qed
  qed
qed

lemma area_add_room:
  assumes ok: "area_ok ds pa" and v: "storable name v" and add: "area_add ds pa name v = Some (pa', r)"
  shows "m \<noteq> name \<Longrightarrow> area_rec ds pa' m = area_rec ds pa m"
    and "bytes_used pa' \<le> bytes_used pa + add_need name v"
    and "area_get ds pa name = None \<Longrightarrow> r \<Longrightarrow> length v < PROP_VALUE_MAX \<Longrightarrow> area_rec ds pa' name = Some (prop_info_short name v)"
proof -
  obtain t where wf: "wf_area ds pa t" using ok by (auto simp: area_ok_def)
  have "(m \<noteq> name \<longrightarrow> area_rec ds pa' m = area_rec ds pa m) \<and> bytes_used pa' \<le> bytes_used pa + add_need name v
    \<and> (area_get ds pa name = None \<and> r \<and> length v < PROP_VALUE_MAX \<longrightarrow> area_rec ds pa' name = Some (prop_info_short name v))"
  proof (cases "tlook t (tokens name)")
    case None
    from area_add_frame [OF wf v None add] obtain t' S where a: "wf_area ds pa' t'"
      "\<And>ts. ts \<noteq> tokens name \<Longrightarrow> tlook t' ts = tlook t ts" "frame S pa pa'" "\<And>k. k \<in> S \<Longrightarrow> bt_at pa k \<noteq> None"
      "bytes_used pa' \<le> bytes_used pa + add_need name v"
      "r \<and> length v < PROP_VALUE_MAX \<longrightarrow> Option.bind (tlook t' (tokens name)) (info_at pa') = Some (prop_info_short name v)" by blast
    have "info_at pa' p = info_at pa p" if "tlook t (tokens m) = Some p" for p
      using info_at_frame [OF _ a(3,4)] wf that unfolding wf_area_def by blast
    then show ?thesis
      using a(2) [of "tokens m"] a(5,6)
      by (auto simp: area_rec_wf [OF wf] area_rec_wf [OF a(1)] tokens_inj split: bind_splits)
  next
    case (Some p)
    then have "area_get ds pa name \<noteq> None" by (simp add: area_get_wf [OF wf] look_None [OF wf])
    then show ?thesis using area_add_present [OF wf Some] add by auto
  qed
  then show "m \<noteq> name \<Longrightarrow> area_rec ds pa' m = area_rec ds pa m"
    and "bytes_used pa' \<le> bytes_used pa + add_need name v"
    and "area_get ds pa name = None \<Longrightarrow> r \<Longrightarrow> length v < PROP_VALUE_MAX \<Longrightarrow> area_rec ds pa' name = Some (prop_info_short name v)" by auto
qed

lemma area_rec_None:
  assumes "area_ok ds pa" and "area_get ds pa m = None"
  shows "area_rec ds pa m = None"
proof -
  obtain t where wf: "wf_area ds pa t" using assms(1) by (auto simp: area_ok_def)
  then show ?thesis using assms(2) by (simp add: area_rec_wf area_get_wf look_None)
qed

lemma area_rec_serial:
  assumes "area_ok ds pa"
  shows "area_rec ds (pa\<lparr>pa_serial := s\<rparr>) m = area_rec ds pa m"
proof -
  let ?q = "pa\<lparr>pa_serial := s\<rparr>"
  obtain t where wf: "wf_area ds pa t" using assms by (auto simp: area_ok_def)
  have at: "bt_at ?q k = bt_at pa k" "info_at ?q k = info_at pa k" "long_value ?q k i = long_value pa k i" for k i
    by (simp_all add: bt_at_def info_at_def long_value_def)
  have "info_ok ?q p ts = info_ok pa p ts" for p ts
    by (simp add: info_ok_def at prop_value_def cong: option.case_cong)
  then have "wf_area ds ?q t" using wf lvl_cong [of ?q pa, OF at(1)] by (simp add: wf_area_def)
  from area_rec_wf [OF this] show ?thesis
    by (cases "tlook t (tokens m)") (simp_all add: area_rec_wf [OF wf] at)
qed

lemma area_rec_upd:
  assumes wf: "wf_area ds pa t" "wf_area ds (upd_info pa p f) t" and p: "tlook t (tokens name) = Some p" and m: "m \<noteq> name"
  shows "area_rec ds (upd_info pa p f) m = area_rec ds pa m"
proof -
  have "info_at (upd_info pa p f) q = info_at pa q" if "tlook t (tokens m) = Some q" for q
  proof -
    have "info_ok pa q (tokens m)" "info_ok pa p (tokens name)" using wf(1) that p unfolding wf_area_def by blast+
    then have "q \<noteq> p" using m by (auto simp: info_ok_def tokens_inj split: option.splits)
    then show ?thesis by (auto simp: upd_info_def info_at_def split: option.splits pobj.splits)
  qed
  then show ?thesis
    by (cases "tlook t (tokens m)") (simp_all add: area_rec_wf [OF wf(1)] area_rec_wf [OF wf(2)])
qed

section \<open>Records and bytes in the property system\<close>

definition sp_pa :: "sysprops \<Rightarrow> string \<Rightarrow> prop_area option" where
  "sp_pa sp m = Option.bind (sp_area sp m) (w_areas (sp_world sp))"

definition sp_rec :: "sysprops \<Rightarrow> string \<Rightarrow> prop_info option" where
  "sp_rec sp m = Option.bind (sp_pa sp m) (\<lambda>pa. area_rec (sp_ds sp) pa m)"

text \<open>The bytes that are free in the area of a name.\<close>

definition sp_space :: "sysprops \<Rightarrow> string \<Rightarrow> nat" where
  "sp_space sp m = (case sp_pa sp m of None \<Rightarrow> 0 | Some pa \<Rightarrow> sp_ds sp - bytes_used pa)"

text \<open>
  An update of the property takes effect: it does not exist, it is not read-only, or its serial number will not carry the flag of a
  long value.
\<close>

definition updatable :: "sysprops \<Rightarrow> string \<Rightarrow> bool" where
  "updatable sp m \<longleftrightarrow>
     \<not> (is_read_only m \<and> (case sp_rec sp m of None \<Rightarrow> False | Some i \<Rightarrow> is_long (updated_info [] 0 i)))"

lemma is_long_updated: "is_long (updated_info v len i) = is_long (updated_info [] 0 i)"
proof -
  have "(push_bit 24 x OR y) AND kLongFlag = y AND kLongFlag" for x y :: u32
    by (rule bit_word_eqI) (auto simp: bit_simps bit_kLongFlag)
  then show ?thesis by (simp add: is_long_def updated_info_def Let_def)
qed

text \<open>One step, as in \<open>sp_change\<close>.\<close>

lemma sp_change_room:
  fixes b :: bool and hs :: string
  assumes ok: "sp_ok sp" and g: "GetPropAreaForName name (sp_contexts sp) (sp_world sp) = Some (Some a, cs, sp_world sp)"
    and pa: "w_areas (sp_world sp) a = Some pa" and hd: "pa_head pa' = pa_head pa" and ok': "area_ok (sp_ds sp) pa'"
  defines "w1 \<equiv> (sp_world sp)\<lparr>w_areas := (w_areas (sp_world sp))(a \<mapsto> pa')\<rparr>"
  defines "v \<equiv> (if b then bump_serial hs w1 else w1)"
  shows "sp_rec (sp\<lparr>sp_contexts := cs, sp_world := v\<rparr>) m =
      (if sp_area sp m = Some a then area_rec (sp_ds sp) pa' m else sp_rec sp m)"
    and "sp_space (sp\<lparr>sp_contexts := cs, sp_world := v\<rparr>) m =
      (if sp_area sp m = Some a then sp_ds sp - bytes_used pa' else sp_space sp m)"
proof -
  let ?w = "sp_world sp" and ?sp' = "sp\<lparr>sp_contexts := cs, sp_world := v\<rparr>"
  note D = sp_okD [OF ok]
  have sh1: "same_shape ?w w1"
    using same_shape_upd [OF pa pa_header_head [OF hd]] by (simp add: w1_def)
  then have sh: "same_shape ?w v"
    using same_shape_trans [OF sh1 same_shape_bump] by (simp add: v_def)
  have a1: "w_areas w1 k = Some p \<Longrightarrow> area_ok (snd (w_sizes w1)) p" for k p
    using ok' D(4) by (auto simp: w1_def sp_ds_def split: if_splits)
  have sz: "w_sizes w1 = w_sizes ?w" by (simp add: w1_def)
  have av: "w_areas v k = Some p \<Longrightarrow> area_ok (snd (w_sizes ?w)) p" for k p
    using a1 bump_area_ok [of w1 "snd (w_sizes ?w)" hs k p] sz by (auto simp: v_def split: if_splits)
  have ar: "sp_area ?sp' m = sp_area sp m" by (rule sp_step(2) [OF ok g sh av])
  have ds: "sp_ds ?sp' = sp_ds sp" by (simp add: sp_ds_def v_def w1_def)
  define ser where "ser k q = (if b \<and> k = hs then pa_serial q + 1 else pa_serial q)" for k and q :: prop_area
  have s: "w_areas v k = map_option (\<lambda>q. q\<lparr>pa_serial := ser k q\<rparr>) (w_areas w1 k)" for k
    by (cases "w_areas w1 k") (auto simp: v_def bump_areas ser_def)
  have r1: "area_rec (sp_ds sp) (q\<lparr>pa_serial := x\<rparr>) m = area_rec (sp_ds sp) q m" if "w_areas w1 k = Some q" for q x k
    using area_rec_serial a1 [OF that] sz by (simp add: sp_ds_def)
  show "sp_rec ?sp' m = (if sp_area sp m = Some a then area_rec (sp_ds sp) pa' m else sp_rec sp m)"
  proof (cases "sp_area sp m")
    case (Some k)
    then show ?thesis
      using r1 [of k] by (cases "w_areas w1 k") (auto simp: sp_rec_def sp_pa_def ar ds s, auto simp: w1_def split: if_splits)
  qed (simp add: sp_rec_def sp_pa_def ar)
  show "sp_space ?sp' m = (if sp_area sp m = Some a then sp_ds sp - bytes_used pa' else sp_space sp m)"
    by (cases "sp_area sp m") (auto simp: sp_space_def sp_pa_def ar ds s w1_def split: option.splits)
qed

text \<open>A lookup changes only what the contexts have cached.\<close>

lemma Find_keeps:
  assumes ok: "sp_ok sp" and find: "sp_Find name sp = Some (pi, sp1)"
  shows "sp_world sp1 = sp_world sp" and "sp_area sp1 m = sp_area sp m"
proof -
  from ok have "\<exists>h cs. GetPropAreaForName name (sp_contexts sp) (sp_world sp) = Some (h, cs, sp_world sp)"
    by (rule sp_lookup [of sp name]) auto
  then obtain h cs where g: "GetPropAreaForName name (sp_contexts sp) (sp_world sp) = Some (h, cs, sp_world sp)"
    by blast
  have sp1: "sp1 = sp\<lparr>sp_contexts := cs, sp_world := sp_world sp\<rparr>"
    using find g sp_okD(1) [OF ok] by (auto simp: sp_Find_def Let_def split: option.splits)
  then show "sp_world sp1 = sp_world sp" by simp
  show "sp_area sp1 m = sp_area sp m"
    unfolding sp1 by (rule sp_step(2) [OF ok g same_shape_refl sp_okD(4) [OF ok, unfolded sp_ds_def]])
qed

lemma Find_room:
  assumes "sp_ok sp" and "sp_Find name sp = Some (pi, sp1)"
  shows "sp_rec sp1 m = sp_rec sp m" and "sp_space sp1 m = sp_space sp m"
proof -
  have "sp_ds sp1 = sp_ds sp" "sp_pa sp1 m = sp_pa sp m" using Find_keeps [OF assms] by (simp_all add: sp_ds_def sp_pa_def)
  then show "sp_rec sp1 m = sp_rec sp m" "sp_space sp1 m = sp_space sp m"
    by (simp_all add: sp_rec_def sp_space_def split: option.split)
qed

lemma Find_rec:
  assumes ok: "sp_ok sp" and find: "sp_Find name sp = Some (Some p, sp1)" and info: "sp_info sp1 p = Some (pa, i)"
  shows "sp_rec sp name = Some i"
  using ok
proof (rule sp_lookup [of sp name])
  fix cs assume "GetPropAreaForName name (sp_contexts sp) (sp_world sp) = Some (None, cs, sp_world sp)"
  then show ?thesis using find sp_okD(1) [OF ok] by (simp add: sp_Find_def Let_def)
next
  fix a pa0 cs
  assume g: "GetPropAreaForName name (sp_contexts sp) (sp_world sp) = Some (Some a, cs, sp_world sp)"
    and pa0: "w_areas (sp_world sp) a = Some pa0" "area_ok (sp_ds sp) pa0" and ar: "sp_area sp name = Some a"
  then have "area_find (sp_ds sp) pa0 name = Some (Some (snd p)) \<and> fst p = a"
    using find sp_okD(1) [OF ok] by (auto simp: sp_Find_def Let_def sp_ds_def split: option.splits)
  then show ?thesis
    using info pa0(1) ar Find_keeps(1) [OF ok find] by (auto simp: sp_rec_def sp_pa_def area_rec_def sp_info_def)
qed

lemma Update_room:
  assumes ok: "sp_ok sp" and find: "sp_Find name sp = Some (Some p, sp1)" and len: "len < PROP_VALUE_MAX" "len \<le> length val"
    and nul: "NUL \<notin> set val" and upd: "updatable sp name"
  shows "\<exists>sp2. sp_Update p val len sp1 = Some (0, sp2) \<and> sp_ok sp2
    \<and> (\<forall>m. sp_get sp2 m = (if m = name then Some (take len val) else sp_get sp m))
    \<and> (\<forall>m. m \<noteq> name \<longrightarrow> sp_rec sp2 m = sp_rec sp m) \<and> (\<forall>m. sp_space sp2 m = sp_space sp m)"
proof -
  obtain pa i where i: "sp_info sp1 p = Some (pa, i)" using Find_law [OF ok, of name] find by auto
  then have flag: "\<not> (is_read_only name \<and> is_long (updated_info val len i))"
    using upd Find_rec [OF ok find i] is_long_updated [of val len i] by (simp add: updatable_def)
  obtain sp2 where sp2: "sp_Update p val len sp1 = Some (0, sp2)" "sp_ok sp2"
    "\<forall>m. sp_get sp2 m = (if m = name then Some (take len val) else sp_get sp m)"
    using Update_law [OF ok find i len nul flag] by blast
  obtain hs where hs: "GetSerialPropArea (sp_contexts sp) = Some hs" using sp_okD(5) [OF ok] by blast
  have "(\<forall>m. m \<noteq> name \<longrightarrow> sp_rec sp2 m = sp_rec sp m) \<and> (\<forall>m. sp_space sp2 m = sp_space sp m)"
    using ok
  proof (rule sp_lookup [of sp name])
    fix cs assume "GetPropAreaForName name (sp_contexts sp) (sp_world sp) = Some (None, cs, sp_world sp)"
    then show ?thesis using find sp_okD(1) [OF ok] by (simp add: sp_Find_def Let_def)
  next
    fix a pa0 cs
    assume g: "GetPropAreaForName name (sp_contexts sp) (sp_world sp) = Some (Some a, cs, sp_world sp)"
      and pa0: "w_areas (sp_world sp) a = Some pa0" "area_ok (sp_ds sp) pa0" and ar: "sp_area sp name = Some a"
    obtain t where wf: "wf_area (sp_ds sp) pa0 t" using pa0(2) by (auto simp: area_ok_def)
    have "sp_Find name sp = Some (map_option (Pair a) (tlook t (tokens name)), sp\<lparr>sp_contexts := cs, sp_world := sp_world sp\<rparr>)"
      using g pa0 sp_okD(1) [OF ok] area_find_wf [OF wf] by (simp add: sp_Find_def Let_def sp_ds_def)
    with find obtain off where off: "tlook t (tokens name) = Some off" "p = (a, off)"
      and sp1: "sp1 = sp\<lparr>sp_contexts := cs, sp_world := sp_world sp\<rparr>" by auto
    with i pa0 have i': "pa = pa0" "info_at pa0 off = Some i" by (auto simp: sp_info_def)
    have "info_ok pa0 off (tokens name)" using wf off unfolding wf_area_def by blast
    then have nm: "pi_name i = name" "rec_ok i" using i' by (auto simp: info_ok_def tokens_inj)
    have u: "pi_name (updated_info val len i) = pi_name i" "rec_ok (updated_info val len i)"
      using updated_info_ok [OF _ len nul, of i] nm by (auto simp: rec_ok_def [of i])
    let ?pa' = "upd_info pa0 off (updated_info val len)"
    have wf': "wf_area (sp_ds sp) ?pa' t"
      using wf_area_upd_info(1) [where f = "updated_info val len", OF wf off(1) i'(2) u] flag nm by blast
    have hd: "pa_head ?pa' = pa_head pa0" and by_: "bytes_used ?pa' = bytes_used pa0"
      by (auto simp: upd_info_def pa_head_def split: option.splits pobj.splits)
    have cs: "GetSerialPropArea cs = Some hs" using ctx.get_law [OF sp_okD(2,3) [OF ok], of name] g hs by auto
    have "sp2 = sp\<lparr>sp_contexts := cs, sp_world := (if True then
        bump_serial hs ((sp_world sp)\<lparr>w_areas := (w_areas (sp_world sp))(a \<mapsto> ?pa')\<rparr>)
        else (sp_world sp)\<lparr>w_areas := (w_areas (sp_world sp))(a \<mapsto> ?pa')\<rparr>)\<rparr>"
      using sp2(1) cs len sp_okD(1) [OF ok] off i' pa0 by (simp add: sp_Update_def sp1 sp_info_def Let_def)
    note ch = sp_change_room [OF ok g pa0(1) hd area_okI [OF wf'], where b = True and hs = hs, folded this]
    have "sp_space sp m = sp_ds sp - bytes_used pa0" "sp_rec sp m = area_rec (sp_ds sp) pa0 m" if "sp_area sp m = Some a" for m
      using that pa0(1) by (simp_all add: sp_space_def sp_rec_def sp_pa_def)
    then show ?thesis using ch by_ area_rec_upd [OF wf wf' off(1)] by auto
  qed
  then show ?thesis using sp2 by blast
qed

lemma Add_room:
  assumes ok: "sp_ok sp" and val: "NUL \<notin> set val" "length val < PROP_VALUE_MAX" and none: "sp_get sp name = None"
  shows "\<exists>r sp'. sp_Add name val sp = Some (r, sp') \<and> sp_ok sp'
    \<and> (\<forall>m. sp_get sp' m = (if m = name \<and> r = 0 then Some val else sp_get sp m))
    \<and> (name \<noteq> [] \<and> [] \<notin> set (tokens name) \<and> add_need name val \<le> sp_space sp name \<longrightarrow> r = 0)
    \<and> (\<forall>m. m \<noteq> name \<longrightarrow> sp_rec sp' m = sp_rec sp m)
    \<and> (\<forall>m. sp_space sp m \<le> sp_space sp' m + add_need name val)
    \<and> (r = 0 \<longrightarrow> sp_rec sp' name = Some (prop_info_short name val))"
proof -
  obtain r sp' where add: "sp_Add name val sp = Some (r, sp')" "sp_ok sp'" "r \<in> {0, - 1}"
    "\<forall>m. sp_get sp' m = (if r = 0 \<and> m = name \<and> sp_get sp name = None then Some val else sp_get sp m)"
    "\<And>h pa. name \<noteq> [] \<Longrightarrow> storable name val \<Longrightarrow> sp_area sp name = Some h \<Longrightarrow> w_areas (sp_world sp) h = Some pa
      \<Longrightarrow> area_room (sp_ds sp) pa name val \<Longrightarrow> r = 0"
    using Add_law [OF ok val(1), of name] by blast
  have st: "storable name val" using val by (simp add: storable_def)
  have pos: "0 < add_need name val" using align4_pos [of "sizeof_prop_info + length name + 1"] by (simp add: add_need_def info_size_def)
  have zero: "r = 0" if h: "name \<noteq> []" "[] \<notin> set (tokens name)" "add_need name val \<le> sp_space sp name"
  proof -
    obtain h pa where "sp_area sp name = Some h" "w_areas (sp_world sp) h = Some pa" "bytes_used pa + add_need name val \<le> sp_ds sp"
      using h(3) pos by (auto simp: sp_space_def sp_pa_def split: option.splits bind_splits)
    then show ?thesis using add(5) [OF h(1) st] h(2) by (simp add: area_room_def)
  qed
  obtain hs where hs: "GetSerialPropArea (sp_contexts sp) = Some hs" using sp_okD(5) [OF ok] by blast
  have "(\<forall>m. m \<noteq> name \<longrightarrow> sp_rec sp' m = sp_rec sp m) \<and> (\<forall>m. sp_space sp m \<le> sp_space sp' m + add_need name val)
      \<and> (r = 0 \<longrightarrow> sp_rec sp' name = Some (prop_info_short name val))"
  proof (cases "name = []")
    case True
    then show ?thesis using add(1) by (simp add: sp_Add_def)
  next
    case False
    from ok show ?thesis
    proof (rule sp_lookup [of sp name])
      fix cs assume g: "GetPropAreaForName name (sp_contexts sp) (sp_world sp) = Some (None, cs, sp_world sp)"
      then have "sp' = sp\<lparr>sp_contexts := cs, sp_world := sp_world sp\<rparr>" "r = - 1"
        using False hs sp_okD(1) [OF ok] add(1) val by (auto simp: sp_Add_def Let_def Suc_le_eq split: if_splits)
      moreover have "sp_area (sp\<lparr>sp_contexts := cs, sp_world := sp_world sp\<rparr>) m = sp_area sp m" for m
        by (rule sp_step(2) [OF ok g same_shape_refl sp_okD(4) [OF ok, unfolded sp_ds_def]])
      ultimately have "sp_pa sp' m = sp_pa sp m" "sp_ds sp' = sp_ds sp" "r \<noteq> 0" for m by (simp_all add: sp_pa_def sp_ds_def)
      then show ?thesis by (simp add: sp_rec_def sp_space_def split: option.split)
    next
      fix a pa cs
      assume g: "GetPropAreaForName name (sp_contexts sp) (sp_world sp) = Some (Some a, cs, sp_world sp)"
        and pa: "w_areas (sp_world sp) a = Some pa" "area_ok (sp_ds sp) pa" and ar: "sp_area sp name = Some a"
        and get: "sp_get sp name = area_get (sp_ds sp) pa name"
      obtain pa' ret where ad: "area_add (sp_ds sp) pa name val = Some (pa', ret)" "area_ok (sp_ds sp) pa'"
        using area_add_get [OF pa(2) st] by blast
      have "r = (if ret then 0 else - 1)"
        using False hs g pa ad(1) sp_okD(1) [OF ok] add(1) val
        by (auto simp: sp_Add_def Let_def sp_ds_def Suc_le_eq split: if_splits)
      then have short: "area_rec (sp_ds sp) pa' name = Some (prop_info_short name val)" if "r = 0"
        using that area_add_room(3) [OF pa(2) st ad(1)] none get val(2) by (simp split: if_splits)
      have "sp' = sp\<lparr>sp_contexts := cs, sp_world := (if ret then
          bump_serial hs ((sp_world sp)\<lparr>w_areas := (w_areas (sp_world sp))(a \<mapsto> pa')\<rparr>)
          else (sp_world sp)\<lparr>w_areas := (w_areas (sp_world sp))(a \<mapsto> pa')\<rparr>)\<rparr>"
        using False hs g pa ad(1) sp_okD(1) [OF ok] add(1) val
        by (auto simp: sp_Add_def Let_def sp_ds_def Suc_le_eq split: if_splits)
      note ch = sp_change_room [OF ok g pa(1) head_area_add [OF ad(1)] ad(2), where b = ret and hs = hs, folded this]
      have "sp_space sp m = sp_ds sp - bytes_used pa" "sp_rec sp m = area_rec (sp_ds sp) pa m" if "sp_area sp m = Some a" for m
        using that pa(1) by (simp_all add: sp_space_def sp_rec_def sp_pa_def)
      then show ?thesis using ch area_add_room(1,2) [OF pa(2) st ad(1)] short ar by auto
    qed
  qed
  then show ?thesis using add(1,2,4) zero none by (intro exI [of _ r] exI [of _ sp']) auto
qed

text \<open>A missing property, a property that is not read-only, and a fresh short record can be updated.\<close>

lemma updatable_missing:
  assumes "sp_ok sp" and "sp_get sp m = None"
  shows "updatable sp m"
proof -
  have "sp_rec sp m = None"
    using assms area_rec_None [of "sp_ds sp" _ m] sp_okD(4) [OF assms(1)]
    by (auto simp: sp_rec_def sp_pa_def sp_get_def split: bind_splits option.splits)
  then show ?thesis by (simp add: updatable_def)
qed

lemma updatable_short: "sp_rec sp m = Some (prop_info_short n v) \<Longrightarrow> updatable sp m"
proof -
  have "(push_bit 24 x OR 1) + 1 = (push_bit 24 x + 2 :: u32)" for x :: u32
    by (simp add: or_one_eq)
  moreover have "\<not> bit (push_bit 24 x + 2 :: u32) 16" for x :: u32
  proof -
    have "push_bit 24 x + 2 = push_bit 24 x OR (2 :: u32)"
      by (rule disjunctive_add_eq_or) (auto intro!: bit_eqI simp: bit_simps bit_numeral_rec bit_1_iff numeral_One split: nat.splits)
    then show ?thesis by (simp add: bit_simps bit_numeral_rec)
  qed
  moreover have "w AND kLongFlag = 0" if "\<not> bit w 16" for w :: u32
    using that by (intro bit_word_eqI) (auto simp: bit_and_iff bit_kLongFlag)
  ultimately have "\<not> is_long (updated_info [] 0 (prop_info_short n v))"
    by (simp add: is_long_def updated_info_def prop_info_short_def Let_def bit_and_iff add.commute)
  then show "sp_rec sp m = Some (prop_info_short n v) \<Longrightarrow> updatable sp m" by (simp add: updatable_def)
qed

lemma Delete_room:
  assumes ok: "sp_ok sp" and del: "sp_Delete name sp = Some (r, sp')"
  shows "sp_space sp' m = sp_space sp m"
proof -
  obtain hs where hs: "GetSerialPropArea (sp_contexts sp) = Some hs" using sp_okD(5) [OF ok] by blast
  from ok show ?thesis
  proof (rule sp_lookup [of sp name])
    fix cs assume g: "GetPropAreaForName name (sp_contexts sp) (sp_world sp) = Some (None, cs, sp_world sp)"
    then have "sp' = sp\<lparr>sp_contexts := cs, sp_world := sp_world sp\<rparr>"
      using hs sp_okD(1) [OF ok] del by (auto simp: sp_Delete_def Let_def)
    moreover have "sp_area (sp\<lparr>sp_contexts := cs, sp_world := sp_world sp\<rparr>) m = sp_area sp m"
      by (rule sp_step(2) [OF ok g same_shape_refl sp_okD(4) [OF ok, unfolded sp_ds_def]])
    ultimately have "sp_pa sp' m = sp_pa sp m" "sp_ds sp' = sp_ds sp" by (simp_all add: sp_pa_def sp_ds_def)
    then show ?thesis by (simp add: sp_space_def split: option.split)
  next
    fix a pa cs
    assume g: "GetPropAreaForName name (sp_contexts sp) (sp_world sp) = Some (Some a, cs, sp_world sp)"
      and pa: "w_areas (sp_world sp) a = Some pa" "area_ok (sp_ds sp) pa"
    obtain pa' ret where ad: "area_del (sp_ds sp) pa name = Some (pa', ret)" "area_ok (sp_ds sp) pa'" "bytes_used pa' = bytes_used pa"
      using area_del_get [OF pa(2), of name name] by blast
    have "sp' = sp\<lparr>sp_contexts := cs, sp_world := (if ret then
        bump_serial hs ((sp_world sp)\<lparr>w_areas := (w_areas (sp_world sp))(a \<mapsto> pa')\<rparr>)
        else (sp_world sp)\<lparr>w_areas := (w_areas (sp_world sp))(a \<mapsto> pa')\<rparr>)\<rparr>"
      using hs g pa ad(1) sp_okD(1) [OF ok] del by (auto simp: sp_Delete_def Let_def sp_ds_def split: if_splits)
    note ch = sp_change_room(2) [OF ok g pa(1) head_area_del [OF ad(1)] ad(2), where b = ret and hs = hs, folded this]
    show ?thesis unfolding ch using ad(3) pa(1) by (simp add: sp_space_def sp_pa_def)
  qed
qed

end
