(* ===== verification/Resetprop_Correct.thy ===== *)
theory Resetprop_Correct
  imports Resetprop Property_Room Persist_Props_Correct
begin

text \<open>
  What the command does: the check of property names against its reading by pieces, the round
  trip of setting and getting without the property service, deletion in both stores, the order
  of the listing, and the parser of property files.
\<close>

section \<open>Names\<close>

text \<open>A legal name: pieces between dots that are not empty, of admitted characters.\<close>

definition legal_name :: "string \<Rightarrow> bool" where
  "legal_name name \<longleftrightarrow> (\<forall>t \<in> set (tokens name). t \<noteq> [] \<and> list_all legal_char t)"

lemma set_tokens: "(\<Union>t \<in> set (tokens s). set t) = set s - {CHR ''.''}"
proof (induction s)
  case (Cons x xs)
  obtain t ts where t: "tokens xs = t # ts" by (cases "tokens xs") auto
  have "tokens (x # xs) = (if x = CHR ''.'' then [] # t # ts else (x # t) # ts)" by (simp add: t)
  moreover have "set t \<union> (\<Union>u \<in> set ts. set u) = set xs - {CHR ''.''}" using Cons t by simp
  ultimately show ?case by auto
qed simp

lemma legal_loop_tokens:
  "prev \<noteq> CHR ''.'' \<Longrightarrow> legal_loop prev s \<and> (s = [] \<or> last s \<noteq> CHR ''.'')
     \<longleftrightarrow> (\<forall>c \<in> set s - {CHR ''.''}. legal_char c) \<and> [] \<notin> set (tl (tokens s))"
  "legal_loop CHR ''.'' s \<and> s \<noteq> [] \<and> last s \<noteq> CHR ''.''
     \<longleftrightarrow> (\<forall>c \<in> set s - {CHR ''.''}. legal_char c) \<and> [] \<notin> set (tokens s)"
proof (induction s arbitrary: prev)
  case (Cons c cs)
  {
    case 1
    show ?case
    proof (cases "c = CHR ''.''")
      case True
      then show ?thesis using 1 Cons(2) by auto
    next
      case False
      then show ?thesis using Cons(1) [of c] by (auto split: list.splits)
    qed
  next
    case 2
    show ?case using Cons(1) [of c] by (auto split: list.splits)
  }
qed (auto simp: legal_loop.simps)

lemma check_legal_law: "check_legal_property_name name = 0 \<longleftrightarrow> legal_name name"
proof (cases name)
  case Nil
  then show ?thesis by (simp add: check_legal_property_name_def legal_name_def)
next
  case (Cons c cs)
  have "(\<forall>t \<in> set (tokens name). list_all legal_char t) \<longleftrightarrow> (\<forall>c \<in> set name - {CHR ''.''}. legal_char c)"
    unfolding set_tokens [symmetric] list_all_iff by blast
  then have ln: "legal_name name \<longleftrightarrow> (\<forall>c \<in> set name - {CHR ''.''}. legal_char c) \<and> [] \<notin> set (tokens name)"
    unfolding legal_name_def by blast
  show ?thesis
  proof (cases "c = CHR ''.''")
    case True
    then show ?thesis using Cons unfolding ln by (simp add: check_legal_property_name_def)
  next
    case False
    then have "[] \<notin> set (tokens name) \<longleftrightarrow> [] \<notin> set (tl (tokens name))"
      using Cons by (auto split: list.splits)
    then have "legal_name name \<longleftrightarrow> legal_loop NUL name \<and> last name \<noteq> CHR ''.''"
      using ln legal_loop_tokens(1) [of NUL name] Cons by auto
    then show ?thesis using False Cons by (simp add: check_legal_property_name_def)
  qed
qed

section \<open>Reading and writing the areas\<close>

lemma init_ok: "sp_ok (rp_sp st) \<Longrightarrow> init_resetprop ev st = Some (True, st)"
  by (simp add: init_resetprop_def system_properties_init_def sp_Init_def sp_okD(1))


text \<open>
  The conditions under which a property takes a new value: one that is missing, or that is deleted first, needs the bytes of a new
  record; one that is updated in place must be one on which an update takes effect.
\<close>

definition can_store :: "sysprops \<Rightarrow> bool \<Rightarrow> string \<Rightarrow> string \<Rightarrow> bool" where
  "can_store sp trigger name val \<longleftrightarrow>
     (if sp_get sp name = None \<or> trigger \<and> is_read_only name then add_need name val \<le> sp_space sp name
      else trigger \<or> updatable sp name)"

text \<open>
  The property service: it sets a property, missing or not, unless it is read-only and exists, and needs room for a missing one.
\<close>

definition service_ok :: "(string \<Rightarrow> string \<Rightarrow> sysprops \<Rightarrow> int \<times> sysprops) \<Rightarrow> bool" where
  "service_ok sv \<longleftrightarrow>
     (\<forall>n v sp. sp_ok sp \<and> legal_name n \<and> NUL \<notin> set v \<and> length v < PROP_VALUE_MAX
        \<and> (if sp_get sp n = None then add_need n v \<le> sp_space sp n else \<not> is_read_only n) \<longrightarrow>
        (\<exists>sp'. sv n v sp = (0, sp') \<and> sp_ok sp' \<and> (\<forall>m. sp_get sp' m = (if m = n then Some v else sp_get sp m))))"

lemma legal_nonempty: "legal_name name \<Longrightarrow> name \<noteq> [] \<and> [] \<notin> set (tokens name)"
  by (auto simp: legal_name_def)

text \<open>Setting without the property service.\<close>

lemma find_store_law:
  assumes ok: "sp_ok sp" and legal: "legal_name name" and val: "NUL \<notin> set val" "length val < PROP_VALUE_MAX"
    and room: "can_store sp False name val" and find: "sp_Find name sp = Some (pi, sp1)"
  shows "\<exists>sp2. (case pi of Some p \<Rightarrow> sp_Update p val (length val) sp1 | None \<Rightarrow> sp_Add name val sp1) = Some (0, sp2)
    \<and> sp_ok sp2 \<and> (\<forall>m. sp_get sp2 m = (if m = name then Some val else sp_get sp m))"
proof -
  have f: "sp_ok sp1" "\<forall>m. sp_get sp1 m = sp_get sp m" "pi = None \<longleftrightarrow> sp_get sp name = None"
    using Find_law [OF ok, of name] find by (auto split: option.splits)
  show ?thesis
  proof (cases pi)
    case None
    then have n: "sp_get sp1 name = None" "add_need name val \<le> sp_space sp1 name"
      using f room Find_room(2) [OF ok find] by (simp_all add: can_store_def)
    show ?thesis using Add_room [OF f(1) val n(1)] n(2) legal_nonempty [OF legal] None f(2) by auto
  next
    case (Some p)
    then have "updatable sp name" using f(3) room by (auto simp: can_store_def)
    from Update_room [OF ok _ val(2) _ val(1) this] find Some show ?thesis by auto
  qed
qed

lemma setprop2_law:
  assumes ok: "sp_ok (rp_sp st)" and legal: "legal_name name"
    and val: "NUL \<notin> set val" "length val < PROP_VALUE_MAX" and room: "can_store (rp_sp st) trigger name val"
    and sv: "trigger \<Longrightarrow> service_ok (ev_service ev)"
  shows "\<exists>st'. setprop2 ev name val trigger st = Some (0, st') \<and> sp_ok (rp_sp st')
    \<and> rp_persist st' = rp_persist st
    \<and> (\<forall>m. sp_get (rp_sp st') m = (if m = name then Some val else sp_get (rp_sp st) m))"
proof -
  obtain pi sp1 where f: "sp_Find name (rp_sp st) = Some (pi, sp1)" "sp_ok sp1"
    "\<forall>m. sp_get sp1 m = sp_get (rp_sp st) m" "pi = None \<longleftrightarrow> sp_get (rp_sp st) name = None"
    using Find_law [OF ok, of name] by (fastforce split: option.splits)
  note room1 = Find_room(2) [OF ok f(1)]
  have leg: "check_legal_property_name name = 0" using legal check_legal_law by blast
  note unf = setprop2_def leg init_ok [OF ok] f(1)
  show ?thesis
  proof (cases trigger)
    case False
    then have "can_store (rp_sp st) False name val" using room by simp
    from find_store_law [OF ok legal val this f(1)] False show ?thesis by (cases pi) (auto simp: unf)
  next
    case True
    let ?del = "pi \<noteq> None \<and> is_read_only name"
    obtain r sp3 where del: "sp_Delete name sp1 = Some (r, sp3)" "sp_ok sp3"
      "\<forall>m. sp_get sp3 m = (if m = name then None else sp_get sp1 m)"
      using Delete_law [OF f(2), of name] by blast
    let ?sp = "if ?del then sp3 else sp1"
    have np: "is_read_only name \<Longrightarrow> strncmp name ''persist.'' 8 \<noteq> 0"
      by (cases name) (auto simp: is_read_only_def eval_nat_numeral split: if_splits)
    have "sp_ok ?sp" "if sp_get ?sp name = None then add_need name val \<le> sp_space ?sp name else \<not> is_read_only name"
      using room True f del room1 Delete_room [OF f(2) del(1)] by (auto simp: can_store_def)
    then obtain sp4 where sp4: "ev_service ev name val ?sp = (0, sp4)" "sp_ok sp4"
      "\<forall>m. sp_get sp4 m = (if m = name then Some val else sp_get ?sp m)"
      using sv [OF True] legal val unfolding service_ok_def by blast
    have dl: "deleteprop ev name (st\<lparr>rp_sp := sp1\<rparr>) = Some (if r \<noteq> 0 then 1 else 0, st\<lparr>rp_sp := sp3\<rparr>)" if "is_read_only name"
      using np [OF that] leg init_ok [of "st\<lparr>rp_sp := sp1\<rparr>" ev] f(2) del(1)
      by (simp add: deleteprop_def deleteprop2_def)
    have "setprop2 ev name val True st = Some (0, st\<lparr>rp_sp := sp4\<rparr>)"
      using sp4(1) dl by (cases pi; cases "is_read_only name") (simp_all add: unf Let_def flip: is_read_only_def)
    then show ?thesis using sp4 f(3) del(3) True by auto
  qed
qed

section \<open>Listing\<close>

definition prop_read :: "sysprops \<Rightarrow> pi_ptr \<Rightarrow> (string \<times> string) option" where
  "prop_read sp p =
     do { (pa, i) \<leftarrow> sp_info sp p; (n, v, s) \<leftarrow> sp_ReadCallback pa (snd p) i; Some (n, v) }"

lemma read_prop_alt:
  "read_prop func sp p c = (case prop_read sp p of None \<Rightarrow> None | Some (n, v) \<Rightarrow> func (Some n) v c)"
  by (auto simp: read_prop_def prop_read_def callback_wrapper_def split: option.splits bind_splits)

abbreviation mk_props :: "(string \<times> string) list \<Rightarrow> prop_t option list" where
  "mk_props ps \<equiv> map (\<lambda>(m, x). Some (mk_prop_t m x)) ps"

lemma push_prop:
  assumes "vec_inv v" and "vec_elems v = mk_props ps" and "length ps < 2 ^ 31" and "length x < PROP_VALUE_MAX"
  shows "\<exists>v'. collect_props (Some n) x v = Some v' \<and> vec_inv v' \<and> vec_elems v' = mk_props (ps @ [(n, x)])"
proof -
  have "unat (vsize v) < 2 ^ 31" using assms length_vec_elems [OF assms(1)] by simp
  then show ?thesis
    using vec_push_back_Some [OF assms(1), of "Some (mk_prop_t n x)"] assms(2,4)
    by (auto simp: collect_props_def)
qed

lemma foreach_collect:
  assumes "list_all2 (\<lambda>p (n, x). prop_read sp p = Some (n, x) \<and> length x < PROP_VALUE_MAX) ptrs qs"
    and "vec_inv v" and "vec_elems v = mk_props ps" and "length ps + length qs < 2 ^ 31"
  shows "\<exists>v'. foreach_read collect_props sp ptrs v = Some v' \<and> vec_inv v' \<and> vec_elems v' = mk_props (ps @ qs)"
  using assms
proof (induction ptrs qs arbitrary: v ps rule: list_all2_induct)
  case (Cons p ptrs q qs)
  obtain n x where q: "q = (n, x)" by (cases q)
  obtain v1 where v1: "collect_props (Some n) x v = Some v1" "vec_inv v1" "vec_elems v1 = mk_props (ps @ [q])"
    using push_prop [of v ps x n] Cons q by auto
  with Cons.IH [OF v1(2,3)] Cons.prems Cons.hyps q show ?case
    by (auto simp: read_prop_alt)
qed auto

lemma unique_collect:
  assumes "list_all (\<lambda>(n, v). n \<noteq> None \<and> length v < PROP_VALUE_MAX \<and> NUL \<notin> set v) rs"
    and "vec_inv v" and "vec_elems v = mk_props ps" and "length ps + length rs < 2 ^ 31"
    and "distinct (map (\<lambda>(n, x). name_decode (the n)) rs)"
  shows "\<exists>v'. prop_decode collect_unique_props rs v = Some v' \<and> vec_inv v'
    \<and> vec_elems v' = mk_props (ps @ filter (\<lambda>(n, x). n \<notin> fst ` set ps)
         (map (\<lambda>(n, x). (name_decode (the n), x)) rs))"
  using assms
proof (induction rs arbitrary: v ps)
  case (Cons r rs)
  obtain n x where r: "r = (Some n, x)" "length x < PROP_VALUE_MAX" using Cons.prems by auto
  let ?n = "name_decode n"
  show ?case
  proof (cases "?n \<in> fst ` set ps")
    case True
    then have "collect_unique_props (Some ?n) x v = Some v"
      using Cons.prems(3) by (auto simp: collect_unique_props_def find_name_map map_of_eq_None_iff
          split: option.splits)
    then show ?thesis using True Cons.IH [OF _ Cons.prems(2,3)] Cons.prems r by auto
  next
    case False
    obtain v1 where v1: "collect_props (Some ?n) x v = Some v1" "vec_inv v1"
      "vec_elems v1 = mk_props (ps @ [(?n, x)])"
      using push_prop [of v ps x ?n] Cons.prems r by auto
    have "map_of ps ?n = None" using False by (simp add: map_of_eq_None_iff)
    then have "collect_unique_props (Some ?n) x v = Some v1"
      using v1(1) Cons.prems(3) by (simp add: collect_unique_props_def find_name_map)
    moreover have "filter (\<lambda>(m, y). m \<notin> fst ` set (ps @ [(?n, x)])) (map (\<lambda>(n, x). (name_decode (the n), x)) rs)
        = filter (\<lambda>(m, y). m \<notin> fst ` set ps) (map (\<lambda>(n, x). (name_decode (the n), x)) rs)"
      using Cons.prems(5) r by (intro filter_cong) (auto simp: image_iff)
    ultimately show ?thesis
      using False Cons.IH [OF _ v1(2,3)] Cons.prems r by auto
  qed
qed auto

lemma sorted_listing:
  assumes "vec_inv v" and "vec_elems v = mk_props ps" and "qsort_ok q"
  shows "\<exists>qs. prop_lines (vec_elems (vec_sort q (Some prop_cmp) v)) = Some (map prop_line qs)
    \<and> mset qs = mset (map (\<lambda>(m, x). mk_prop_t m x) ps) \<and> sorted (map pt_name qs)"
proof -
  let ?es = "vec_elems (vec_sort q (Some prop_cmp) v)"
  note srt = pc.vec_sort_spec [OF assms(1,3)]
  have m: "mset ?es = mset (map Some (map (\<lambda>(m, x). mk_prop_t m x) ps))"
    unfolding srt(1) assms(2) mset_filter [symmetric] by (simp add: comp_def case_prod_unfold filter_id_conv)
  then have "set ?es \<subseteq> range Some" using mset_eq_setD [OF m] by auto
  then have es: "?es = map Some (map the ?es)" by (auto intro!: map_idI [symmetric])
  have lines: "prop_lines (map Some qs) = Some (map prop_line qs)" for qs by (induction qs) auto
  have "mset (map the ?es) = mset (map (\<lambda>(m, x). mk_prop_t m x) ps)"
    using arg_cong [OF m, of "image_mset the"] by (simp add: image_mset.compositionality comp_def)
  moreover have "sorted_wrt (\<lambda>x y. prop_cmp x y \<le> 0) (map the ?es)"
    using srt(2) es by (metis (mono_tags, lifting) sorted_wrt_map sorted_wrt_mono_rel vec_comp_def
        case_prod_conv option.case(2))
  then have "sorted (map pt_name (map the ?es))"
    by (simp add: sorted_wrt_map prop_cmp_le_0 sorted_map)
  ultimately show ?thesis using lines es by metis
qed

section \<open>Property files\<close>

definition prop_file :: "(string \<times> string) list \<Rightarrow> string" where
  "prop_file ps = concat (map (\<lambda>(n, v). n @ ''='' @ v @ [CHR 0x0A]) ps)"

lemma text_lines_line:
  "CHR 0x0A \<notin> set l \<Longrightarrow> text_lines (l @ CHR 0x0A # rest) = (l @ [CHR 0x0A]) # text_lines rest"
  by (induction l) auto

lemma legal_name_chars:
  assumes "legal_name name" and "c \<in> set name"
  shows "c = CHR ''.'' \<or> legal_char c"
proof (cases "c = CHR ''.''")
  case False
  with assms(2) have "c \<in> (\<Union>t \<in> set (tokens name). set t)" unfolding set_tokens by blast
  then obtain t where "t \<in> set (tokens name)" "c \<in> set t" by blast
  with assms(1) show ?thesis by (auto simp: legal_name_def list_all_iff)
qed simp

lemma legal_name_excludes:
  assumes "legal_name name"
  shows "CHR ''='' \<notin> set name" "CHR 0x0A \<notin> set name" "NUL \<notin> set name" "CHR '' '' \<notin> set name"
    "CHR ''#'' \<notin> set name" "name \<noteq> []"
proof -
  have ill: "\<not> legal_char CHR ''=''" "\<not> legal_char CHR 0x0A" "\<not> legal_char NUL" "\<not> legal_char CHR '' ''"
    "\<not> legal_char CHR ''#''"
    by (simp_all add: legal_char_def less_eq_char_def)
  show "CHR ''='' \<notin> set name" "CHR 0x0A \<notin> set name" "NUL \<notin> set name" "CHR '' '' \<notin> set name"
    "CHR ''#'' \<notin> set name"
    using legal_name_chars [OF assms, of "CHR ''=''"] legal_name_chars [OF assms, of "CHR 0x0A"]
      legal_name_chars [OF assms, of NUL] legal_name_chars [OF assms, of "CHR '' ''"]
      legal_name_chars [OF assms, of "CHR ''#''"] ill by auto
  show "name \<noteq> []" using assms by (auto simp: legal_name_def)
qed

lemma parse_prop_line_law:
  assumes n: "legal_name n" and v: "v \<noteq> []" "NUL \<notin> set v" "CHR 0x0A \<notin> set v"
  shows "parse_prop_line (replicate k CHR '' '' @ n @ ''='' @ v @ [CHR 0x0A]) = Some (n, v)"
proof -
  note ex = legal_name_excludes [OF n]
  let ?sp = "replicate k CHR '' ''" let ?l = "?sp @ n @ CHR ''='' # v"
  have ch: "chomp (?sp @ n @ ''='' @ v @ [CHR 0x0A]) = ?l"
    using butlast_snoc [of ?l "CHR 0x0A"] by (simp add: chomp_def)
  obtain c cs where c: "n = c # cs" "c \<noteq> CHR '' ''" "c \<noteq> CHR ''#''" using ex by (cases n) auto
  have tw: "takeWhile (\<lambda>c. c = CHR '' '') ?l = ?sp"
    unfolding c(1) using c(2) by (induction k) simp_all
  have nt: "?l ! k = c" using c by (simp add: nth_append)
  have cstr: "c_str ?l = ?l"
    using ex v by (auto simp: c_str_def takeWhile_eq_all_conv)
  have "CHR ''='' \<notin> set (?sp @ n)" using ex by (auto dest: in_set_replicate [THEN iffD1])
  from strchr_append_notin [OF this, of v] have chr: "strchr ?l CHR ''='' = Some (k + length n)" by simp
  have "c_str (v @ [NUL]) = v" using name_decode_id [OF v(2)] by (simp add: name_decode_def)
  then show ?thesis
    unfolding parse_prop_line_def ch Let_def tw cstr chr using c v nt by simp
qed

lemma prop_file_loop_law:
  assumes "sp_ok (rp_sp st)"
    and "\<forall>(n, v) \<in> set ps. legal_name n \<and> \<not> is_read_only n \<and> sp_get (rp_sp st) n \<noteq> None
           \<and> v \<noteq> [] \<and> NUL \<notin> set v \<and> CHR 0x0A \<notin> set v \<and> length v < PROP_VALUE_MAX"
  shows "\<exists>st'. prop_file_loop ev False (text_lines (prop_file ps)) st = Some st' \<and> sp_ok (rp_sp st')
    \<and> (\<forall>m. sp_get (rp_sp st') m = (case map_of (rev ps) m of None \<Rightarrow> sp_get (rp_sp st) m | Some v \<Rightarrow> Some v))"
  using assms
proof (induction ps arbitrary: st)
  case Nil
  then show ?case by (simp add: prop_file_def)
next
  case (Cons p ps)
  obtain n v where p: "p = (n, v)" by (cases p)
  then have nv: "legal_name n" "\<not> is_read_only n" "sp_get (rp_sp st) n \<noteq> None" "v \<noteq> []" "NUL \<notin> set v"
    "CHR 0x0A \<notin> set v" "length v < PROP_VALUE_MAX" using Cons.prems by auto
  have "CHR 0x0A \<notin> set (n @ ''='' @ v)" using nv legal_name_excludes [OF nv(1)] by auto
  from text_lines_line [OF this, of "prop_file ps"]
  have lines: "text_lines (prop_file (p # ps)) = (n @ ''='' @ v @ [CHR 0x0A]) # text_lines (prop_file ps)"
    by (simp add: prop_file_def p)
  have parse: "parse_prop_line (n @ ''='' @ v @ [CHR 0x0A]) = Some (n, v)"
    using parse_prop_line_law [OF nv(1,4,5,6), of 0] by simp
  have "can_store (rp_sp st) False n v" using nv(2,3) by (auto simp: can_store_def updatable_def)
  then obtain st1 where st1: "setprop2 ev n v False st = Some (0, st1)" "sp_ok (rp_sp st1)"
    "\<forall>m. sp_get (rp_sp st1) m = (if m = n then Some v else sp_get (rp_sp st) m)"
    using setprop2_law [OF Cons.prems(1) nv(1,5,7), of False ev] by blast
  have "\<forall>(k, w) \<in> set ps. legal_name k \<and> \<not> is_read_only k \<and> sp_get (rp_sp st1) k \<noteq> None
           \<and> w \<noteq> [] \<and> NUL \<notin> set w \<and> CHR 0x0A \<notin> set w \<and> length w < PROP_VALUE_MAX"
    using Cons.prems(2) st1(3) by auto
  from Cons.IH [OF st1(2) this] obtain st' where st': "sp_ok (rp_sp st')"
    "prop_file_loop ev False (text_lines (prop_file ps)) st1 = Some st'"
    "\<And>m. sp_get (rp_sp st') m = (case map_of (rev ps) m of None \<Rightarrow> sp_get (rp_sp st1) m | Some v \<Rightarrow> Some v)"
    by blast
  have "sp_get (rp_sp st') m =
      (case map_of (rev (p # ps)) m of None \<Rightarrow> sp_get (rp_sp st) m | Some v \<Rightarrow> Some v)" for m
    unfolding st'(3) using st1(3) p by (cases "map_of (rev ps) m") (auto simp: map_add_def)
  then show ?case using st1(1) st'(1,2) parse lines by auto
qed

section \<open>Properties\<close>

text \<open>
  Property C36. \<open>check_legal_property_name\<close> returns 0 exactly for the names whose pieces between
  dots are non-empty and made of admitted characters, and 1 for every other string.
\<close>

theorem check_legal_name:
  "check_legal_property_name name = (if legal_name name then 0 else 1)"
  using check_legal_law [of name] by (auto simp: check_legal_property_name_def)


text \<open>A property service that finds and then updates or adds.\<close>

definition sample_service :: "string \<Rightarrow> string \<Rightarrow> sysprops \<Rightarrow> int \<times> sysprops" where
  "sample_service n v sp =
     (case sp_Find n sp of
        None \<Rightarrow> (- 1, sp)
      | Some (pi, sp1) \<Rightarrow>
          if pi \<noteq> None \<and> is_read_only n then (- 1, sp1)
          else (case (case pi of Some p \<Rightarrow> sp_Update p v (length v) sp1 | None \<Rightarrow> sp_Add n v sp1) of
                  None \<Rightarrow> (- 1, sp1) | Some z \<Rightarrow> z))"


definition sample_env :: rp_env where
  "sample_env = \<lparr>ev_is_dir = \<lambda>_. False, ev_mmap = True, ev_pb = nul_codec,
     ev_rw = \<lparr>rw_creat = True, rw_space = 100, rw_rename = True\<rparr>, ev_unlink = \<lambda>_. True,
     ev_service = sample_service, ev_text = Map.empty, ev_qsort = insertion_sort\<rparr>"

definition sample_st :: rp_state where
  "sample_st = \<lparr>rp_sp = sample_sp,
     rp_persist = \<lparr>pp_blob = Some sample_blob, pp_files = Map.empty, pp_entries = None\<rparr>\<rparr>"

lemma sample_st_simps [simp]: "rp_sp sample_st = sample_sp" "pp_blob (rp_persist sample_st) = Some sample_blob"
  by (simp_all add: sample_st_def)

lemma legal_sample: "legal_name ''sys.x''" "legal_name ''persist.a''"
  "\<not> is_read_only ''sys.x''" "\<not> is_read_only ''persist.a''"
  by (simp_all add: legal_name_def legal_char_def less_eq_char_def is_read_only_def eval_nat_numeral)

lemma sample_space: "sp_space sample_sp m = 130924"
  by (simp add: sp_space_def sp_pa_def sample_sp_area prop_area_init_def sizeof_prop_bt_def)

lemma sample_can_store: "can_store sample_sp trigger ''sys.x'' ''1''"
  by (simp add: can_store_def sample_space sample_sp_get add_need_def info_size_def
      node_size_def sizeof_prop_bt_def sizeof_prop_info_def align4_def PROP_VALUE_MAX_def)


text \<open>
  \<open>read_prop_file\<close> on a file of \<open>name=value\<close> lines, for properties that exist and are
  not read-only, returns 0 and gives every property its last value in the file and leaves all
  others alone.
\<close>

theorem read_prop_file_sets:
  assumes "sp_ok (rp_sp st)" and "ev_text ev f = Some (prop_file ps)"
    and "\<forall>(n, v) \<in> set ps. legal_name n \<and> \<not> is_read_only n \<and> sp_get (rp_sp st) n \<noteq> None
           \<and> v \<noteq> [] \<and> NUL \<notin> set v \<and> CHR 0x0A \<notin> set v \<and> length v < PROP_VALUE_MAX"
  shows "\<exists>st'. read_prop_file ev f False st = Some (0, st') \<and> sp_ok (rp_sp st')
    \<and> (\<forall>m. sp_get (rp_sp st') m = (case map_of (rev ps) m of None \<Rightarrow> sp_get (rp_sp st) m | Some v \<Rightarrow> Some v))"
  using prop_file_loop_law [OF assms(1,3), of ev] assms(2) init_ok [OF assms(1), of ev]
  by (auto simp: read_prop_file_def)

theorem read_prop_file_sets_witness:
  "\<exists>st1 st2. setprop2 sample_env ''sys.x'' ''1'' False sample_st = Some (0, st1)
     \<and> read_prop_file (sample_env\<lparr>ev_text := [''f'' \<mapsto> prop_file [(''sys.x'', ''2''), (''sys.x'', ''3'')]]\<rparr>) ''f'' False st1
       = Some (0, st2) \<and> sp_get (rp_sp st2) ''sys.x'' = Some ''3''"
proof -
  let ?ev = "sample_env\<lparr>ev_text := [''f'' \<mapsto> prop_file [(''sys.x'', ''2''), (''sys.x'', ''3'')]]\<rparr>"
  have a: "sp_ok (rp_sp sample_st)" "can_store (rp_sp sample_st) False ''sys.x'' ''1''"
    "NUL \<notin> set ''1''" "length ''1'' < PROP_VALUE_MAX"
    using sample_sp_ok sample_can_store by (simp_all add: PROP_VALUE_MAX_def)
  obtain st1 where st1: "setprop2 sample_env ''sys.x'' ''1'' False sample_st = Some (0, st1)" "sp_ok (rp_sp st1)"
    "sp_get (rp_sp st1) ''sys.x'' = Some ''1''"
    using setprop2_law [OF a(1) legal_sample(1) a(3,4,2), of sample_env] by auto
  have "ev_text ?ev ''f'' = Some (prop_file [(''sys.x'', ''2''), (''sys.x'', ''3'')])" by simp
  from read_prop_file_sets [OF st1(2) this] st1 legal_sample show ?thesis
    by (auto simp: PROP_VALUE_MAX_def)
qed

text \<open>
  Property C13. \<open>deleteprop2\<close> of a legal name never faults and returns 0 or 1: the property is gone
  from the areas and every other one is unchanged; with the persist flag and a \<open>persist.\<close> name it
  is gone from a storage that can be rewritten too, and without them the storage is untouched.
  It returns 1 only if the property was not in the areas.
\<close>

theorem deleteprop2_correct:
  assumes ok: "sp_ok (rp_sp st)" and legal: "legal_name name"
    and pb: "nanopb_ok (ev_pb ev)" and blob: "pp_blob (rp_persist st) = Some blob" "blob_ok (ev_pb ev) blob"
    and rw: "\<forall>(n, v) \<in> set (blob_props (ev_pb ev) blob). pb_encode_prop (ev_pb ev) n v \<noteq> None"
      "enc_size (ev_pb ev) (blob_props (ev_pb ev) blob) \<le> rw_space (ev_rw ev)"
      "rw_creat (ev_rw ev)" "rw_rename (ev_rw ev)"
  shows "\<exists>r st'. deleteprop2 ev name persist st = Some (r, st') \<and> r \<in> {0, 1} \<and> sp_ok (rp_sp st')
    \<and> (\<forall>m. sp_get (rp_sp st') m = (if m = name then None else sp_get (rp_sp st) m))
    \<and> (\<forall>m. persist_getprop (ev_pb ev) m (rp_persist st') =
          (if persist \<and> take 8 name = ''persist.'' \<and> m = name then Some None
           else persist_getprop (ev_pb ev) m (rp_persist st)))
    \<and> (r = 1 \<longrightarrow> sp_get (rp_sp st) name = None)"
proof -
  let ?p = "persist \<and> strncmp name ''persist.'' 8 = 0"
  have pre: "strncmp name ''persist.'' 8 = 0 \<longleftrightarrow> take 8 name = ''persist.''"
    by (simp add: strncmp_eq_0_iff)
  have leg: "check_legal_property_name name = 0" using legal check_legal_law by blast
  obtain b pst where p: "(if ?p then persist_deleteprop (ev_pb ev) (ev_rw ev) (ev_unlink ev) name (rp_persist st)
      else Some (persist, rp_persist st)) = Some (b, pst)"
    "\<forall>m. persist_getprop (ev_pb ev) m pst = (if ?p \<and> m = name then Some None
       else persist_getprop (ev_pb ev) m (rp_persist st))"
  proof (cases ?p)
    case True
    from persist_delete_law [OF pb blob, of "ev_rw ev" "ev_unlink ev" name] obtain b pst where
      d: "persist_deleteprop (ev_pb ev) (ev_rw ev) (ev_unlink ev) name (rp_persist st) = Some (b, pst)"
      "\<not> b \<longrightarrow> pst = rp_persist st" "persist_getprop (ev_pb ev) name (rp_persist st) \<noteq> Some None \<longrightarrow> b"
      "b \<longrightarrow> (\<forall>m. persist_getprop (ev_pb ev) m pst =
         (if m = name then Some None else persist_getprop (ev_pb ev) m (rp_persist st)))"
      using rw by blast
    then show ?thesis using that [of b pst] True by (cases b) auto
  next
    case False
    then show ?thesis using that by auto
  qed
  obtain r sp' where d: "sp_Delete name (rp_sp st) = Some (r, sp')" "sp_ok sp'" "r \<in> {0, - 1}"
    "\<forall>m. sp_get sp' m = (if m = name then None else sp_get (rp_sp st) m)"
    "sp_get (rp_sp st) name \<noteq> None \<longrightarrow> r = 0"
    using Delete_law [OF ok, of name] by blast
  have "deleteprop2 ev name persist st =
      Some (if r \<noteq> 0 \<and> \<not> (b \<and> strncmp name ''persist.'' 8 = 0) then 1 else 0, st\<lparr>rp_sp := sp', rp_persist := pst\<rparr>)"
    unfolding deleteprop2_def using leg init_ok [OF ok, of ev] p(1) d(1) by simp
  then show ?thesis using p(2) d pre by (auto split: if_splits)
qed

theorem deleteprop2_correct_witness:
  "\<exists>r st'. deleteprop2 sample_env ''persist.a'' True sample_st = Some (r, st')
     \<and> sp_get (rp_sp st') ''persist.a'' = None
     \<and> persist_getprop nul_codec ''persist.a'' (rp_persist st') = Some None
     \<and> persist_getprop nul_codec ''persist.b'' (rp_persist st') = Some (Some ''2'')"
proof -
  have env: "ev_pb sample_env = nul_codec" "rw_space (ev_rw sample_env) = 100" "rw_creat (ev_rw sample_env)"
    "rw_rename (ev_rw sample_env)" by (simp_all add: sample_env_def)
  have hyp: "sp_ok (rp_sp sample_st)" "nanopb_ok (ev_pb sample_env)"
    "pp_blob (rp_persist sample_st) = Some sample_blob" "blob_ok (ev_pb sample_env) sample_blob"
    "\<forall>(n, v) \<in> set (blob_props (ev_pb sample_env) sample_blob). pb_encode_prop (ev_pb sample_env) n v \<noteq> None"
    "enc_size (ev_pb sample_env) (blob_props (ev_pb sample_env) sample_blob) \<le> rw_space (ev_rw sample_env)"
    using sample_sp_ok nanopb_ok_nul_codec sample_blob_ok(1) unfolding env sample_blob_ok
    by (simp_all add: nul_codec_def enc_size_def)
  have b: "persist_getprop nul_codec ''persist.b'' (rp_persist sample_st) = Some (Some ''2'')"
    by (simp add: persist_getprop_blob [OF hyp(3) sample_blob_ok(1)] sample_blob_ok)
  from deleteprop2_correct [OF hyp(1) legal_sample(2) hyp(2-6) env(3,4), of True]
  show ?thesis unfolding env(1) using b by auto
qed

text \<open>
  \<open>print_props\<close> prints one line per property, in the order of the names: the
  properties \<open>__system_property_foreach\<close> visits and, with the persist flag, those entries of the
  storage whose names are not among them. No value may fill its buffer.
\<close>

theorem print_props_sorted:
  assumes ok: "sp_ok (rp_sp st)" and each: "sp_Foreach (rp_sp st) = Some (0, ptrs, sp1)"
    and reads: "list_all2 (\<lambda>p (n, x). prop_read sp1 p = Some (n, x) \<and> length x < PROP_VALUE_MAX) ptrs ps"
    and blob: "pp_blob (rp_persist st) = Some blob" "blob_ok (ev_pb ev) blob"
    and bound: "length ps + length (blob_props (ev_pb ev) blob) < 2 ^ 31" and q: "qsort_ok (ev_qsort ev)"
  shows "\<exists>st' qs. print_props ev persist st = Some (map prop_line qs, st') \<and> sorted (map pt_name qs)
    \<and> mset qs = mset (map (\<lambda>(n, x). mk_prop_t n x)
        (ps @ (if persist then filter (\<lambda>(n, x). n \<notin> fst ` set ps) (blob_props (ev_pb ev) blob) else [])))"
proof -
  have "vec_elems vec_init = mk_props []" by simp
  then obtain v where v: "foreach_read collect_props sp1 ptrs vec_init = Some v" "vec_inv v" "vec_elems v = mk_props ps"
    using foreach_collect [OF reads vec_inv_init] bound by fastforce
  let ?all = "ps @ (if persist then filter (\<lambda>(n, x). n \<notin> fst ` set ps) (blob_props (ev_pb ev) blob) else [])"
  have "\<exists>v1. (if persist then persist_getprop_all (ev_pb ev) collect_unique_props (rp_persist st) v else Some v)
      = Some v1 \<and> vec_inv v1 \<and> vec_elems v1 = mk_props ?all"
  proof (cases persist)
    case True
    have "length ps + length (pb_decode (ev_pb ev) blob) < 2 ^ 31" using bound by (simp add: blob_props_def)
    then show ?thesis
      using True blob unique_collect [OF _ v(2,3), of "pb_decode (ev_pb ev) blob"]
      by (auto simp: persist_getprop_all_def blob_ok_def blob_props_def comp_def case_prod_unfold)
  next
    case False
    then show ?thesis using v by simp
  qed
  then obtain v1 where v1: "(if persist then persist_getprop_all (ev_pb ev) collect_unique_props (rp_persist st) v
      else Some v) = Some v1" "vec_inv v1" "vec_elems v1 = mk_props ?all" by blast
  from sorted_listing [OF v1(2,3) q] obtain qs where
    "prop_lines (vec_elems (vec_sort (ev_qsort ev) (Some prop_cmp) v1)) = Some (map prop_line qs)"
    "mset qs = mset (map (\<lambda>(m, x). mk_prop_t m x) ?all)" "sorted (map pt_name qs)" by blast
  moreover have "getprop_all ev collect_props vec_init st = Some (v, st\<lparr>rp_sp := sp1\<rparr>)"
    using init_ok [OF ok, of ev] each v(1) by (simp add: getprop_all_def)
  ultimately show ?thesis using v1(1) by (auto simp: print_props_def split: if_splits)
qed

theorem print_props_sorted_witness:
  "\<exists>st' qs. print_props sample_env True sample_st = Some (map prop_line qs, st') \<and> sorted (map pt_name qs)
     \<and> mset qs = {#mk_prop_t ''persist.a'' ''1'', mk_prop_t ''persist.b'' ''2''#}"
proof -
  have env: "ev_pb sample_env = nul_codec" "ev_qsort sample_env = insertion_sort" by (simp_all add: sample_env_def)
  have bt: "bt_at (prop_area_init mg ver) 0 = Some zero_bt" for mg ver
    by (simp add: bt_at_def prop_area_init_def)
  have "area_foreach 130944 (prop_area_init mg ver) = Some (True, [])" for mg ver
    unfolding area_foreach_def root_node_0
    by (subst foreach_property.simps) (simp add: bt zero_bt_def walk_err_def)
  then have "sp_Foreach (rp_sp sample_st) = Some (0, [], sample_sp)"
    by (simp add: sp_Foreach_def contexts_ForEach_def sample_sp_def)
  moreover have "sp_ok (rp_sp sample_st)" "pp_blob (rp_persist sample_st) = Some sample_blob"
    "blob_ok (ev_pb sample_env) sample_blob" "qsort_ok (ev_qsort sample_env)"
    "length ([] :: (string \<times> string) list) + length (blob_props (ev_pb sample_env) sample_blob) < 2 ^ 31"
    using sample_sp_ok sample_blob_ok qsort_ok_insertion_sort unfolding env by simp_all
  ultimately show ?thesis
    using print_props_sorted [of sample_st "[]" sample_sp "[]" sample_blob sample_env True]
    by (simp add: env sample_blob_ok)
qed

end
