(* ===== verification/Irqbalance.thy ===== *)
theory Irqbalance
  imports C_Text Complex_Main
begin

text \<open>
  The interrupt balancer \<open>hardware/irqbalance/irqbalance.c\<close>: the configuration file, the scan of
  \<open>/proc/interrupts\<close>, the CPU times of \<open>/proc/stat\<close> and the distribution of the interrupts over
  the CPUs. Files are the texts read from them; which of the files \<open>/proc/irq/<irq>/smp_affinity\<close> can be
  opened is an argument. The number of interrupts for a CPU is computed in \<open>double\<close>: every operation
  is followed by the rounding \<open>to_double\<close>, to the nearest number with 53 significant bits, ties to even. All
  values in question are zero or between \<open>2 ^ -60\<close> and \<open>2 ^ 31\<close>, where the format has no other limits. Products and
  differences are not contracted into one operation.
\<close>

section \<open>State\<close>

record cpudata =
  cd_core :: u8
  cd_online :: bool
  ct_user :: u64
  ct_nice :: u64
  ct_system :: u64
  ct_idle :: u64
  ct_iowait :: u64
  ct_irq :: u64
  ct_softirq :: u64
  ct_steal :: u64
  ct_guest :: u64
  ct_guest_nice :: u64
  cpu_util :: u64

record irqbal =
  NR_CPUS :: int
  OFFS_CPUS :: int
  THREAD_DELAY :: u64
  irqs :: "int list"
  irq_blacklist :: "int list"
  cpus :: "cpudata list"

definition irqbal_init :: irqbal where
  "irqbal_init = \<lparr>NR_CPUS = - 1, OFFS_CPUS = - 1, THREAD_DELAY = 0, irqs = [], irq_blacklist = [], cpus = []\<rparr>"

definition ENOENT :: int where "ENOENT = 2"
definition ENOMEM :: int where "ENOMEM = 12"
definition EINVAL :: int where "EINVAL = 22"

section \<open>CPU times\<close>

text \<open>The target of the n-th \<open>%llu\<close>.\<close>

definition set_time :: "nat \<Rightarrow> u64 \<Rightarrow> cpudata \<Rightarrow> cpudata" where
  "set_time k v cd =
     (if k = 0 then cd\<lparr>ct_user := v\<rparr> else if k = 1 then cd\<lparr>ct_nice := v\<rparr>
      else if k = 2 then cd\<lparr>ct_system := v\<rparr> else if k = 3 then cd\<lparr>ct_idle := v\<rparr>
      else if k = 4 then cd\<lparr>ct_iowait := v\<rparr> else if k = 5 then cd\<lparr>ct_irq := v\<rparr>
      else if k = 6 then cd\<lparr>ct_softirq := v\<rparr> else if k = 7 then cd\<lparr>ct_steal := v\<rparr>
      else if k = 8 then cd\<lparr>ct_guest := v\<rparr> else cd\<lparr>ct_guest_nice := v\<rparr>)"

text \<open>The conversions from the k-th on, stopping at the first that fails; how many succeeded.\<close>

fun scan_times :: "nat \<Rightarrow> nat \<Rightarrow> string \<Rightarrow> cpudata \<Rightarrow> nat \<times> cpudata" where
  "scan_times 0 k s cd = (0, cd)"
| "scan_times (Suc n) k s cd =
     (case scan_llu s of
        (None, r) \<Rightarrow> (0, cd)
      | (Some v, r) \<Rightarrow> (case scan_times n (Suc k) r (set_time k v cd) of (m, cd') \<Rightarrow> (Suc m, cd')))"

definition scan_stat_line :: "string \<Rightarrow> cpudata \<Rightarrow> nat \<times> cpudata" where
  "scan_stat_line s cd =
     (case scan_lit ''cpu'' s of
        None \<Rightarrow> (0, cd)
      | Some r \<Rightarrow>
          (case scan_d r of
             (None, _) \<Rightarrow> (0, cd)
           | (Some d, r') \<Rightarrow> (case scan_times 10 0 r' cd of (m, cd') \<Rightarrow> (Suc m, cd'))))"

text \<open>\<open>stat\<close> is the text of \<open>/proc/stat\<close>, if it opens.\<close>

definition read_cpudata :: "int \<Rightarrow> string option \<Rightarrow> int \<Rightarrow> cpudata \<Rightarrow> int \<times> cpudata" where
  "read_cpudata offs stat core cd =
     (case stat of
        None \<Rightarrow> (- ENOENT, cd)
      | Some txt \<Rightarrow>
          (case scan_stat_line ((skip_line ^^ nat (core + offs + 1)) txt) cd of
             (ret, cd') \<Rightarrow>
               if ret \<noteq> 11 then (- EINVAL, cd'\<lparr>cd_online := False\<rparr>)
               else (0, cd'\<lparr>cd_online := True\<rparr>)))"

definition TOTAL_CPUTIME :: "cpudata \<Rightarrow> u64" where
  "TOTAL_CPUTIME d =
     ct_user d + ct_nice d + ct_system d + ct_iowait d + ct_irq d + ct_softirq d + ct_steal d
     + ct_guest d + ct_guest_nice d"

text \<open>The utilisation; dividing by zero is a fault.\<close>

definition calc_util :: "cpudata \<Rightarrow> cpudata \<Rightarrow> u64 option" where
  "calc_util old cur =
     (let cputime_delta = TOTAL_CPUTIME cur - TOTAL_CPUTIME old;
          cputime_total_delta = (TOTAL_CPUTIME cur + ct_idle cur) - (TOTAL_CPUTIME old + ct_idle old)
      in if cputime_total_delta = 0 then None
         else Some ((cputime_delta * 100) div cputime_total_delta))"

text \<open>The CPUs from the i-th on; \<open>stat i\<close> is \<open>/proc/stat\<close> when CPU \<open>i\<close> is read.\<close>

fun irqbalance_load_watchdog ::
    "int \<Rightarrow> (nat \<Rightarrow> string option) \<Rightarrow> nat \<Rightarrow> cpudata list \<Rightarrow> cpudata list option" where
  "irqbalance_load_watchdog offs stat i [] = Some []"
| "irqbalance_load_watchdog offs stat i (old # cds) =
     (case read_cpudata offs (stat i) (int i) old of
        (ret, cur) \<Rightarrow>
          if ret \<noteq> 0 then Some (cur # cds)
          else case calc_util old cur of
                 None \<Rightarrow> None
               | Some u \<Rightarrow>
                   map_option ((#) (cur\<lparr>cpu_util := u\<rparr>)) (irqbalance_load_watchdog offs stat (Suc i) cds))"

section \<open>Distribution\<close>

text \<open>
  The inner loop over \<open>m\<close> neighbours, and whether it swapped; then the outer loop with its
  shrinking bound.
\<close>

fun bubble_pass :: "nat \<Rightarrow> cpudata list \<Rightarrow> cpudata list \<times> bool" where
  "bubble_pass (Suc m) (x # y # zs) =
     (if cpu_util x > cpu_util y
      then (case bubble_pass m (x # zs) of (r, s) \<Rightarrow> (y # r, True))
      else (case bubble_pass m (y # zs) of (r, s) \<Rightarrow> (x # r, s)))"
| "bubble_pass m xs = (xs, False)"

lemma bubble_pass_swap: "bubble_pass m xs = (ys, True) \<Longrightarrow> 0 < m"
  by (cases m) simp_all

function bubble_sort :: "nat \<Rightarrow> cpudata list \<Rightarrow> cpudata list" where
  "bubble_sort n xs =
     (case bubble_pass (n - 1) xs of (ys, swp) \<Rightarrow> if swp then bubble_sort (n - 1) ys else ys)"
  by pat_completeness auto

termination
  by (relation "measure fst") (auto dest!: sym [of "(_, True)"] bubble_pass_swap)

definition int_of_u64 :: "u64 \<Rightarrow> int" where
  "int_of_u64 u = signed_take_bit 31 (uint u)"

text \<open>
  Rounding a number to the nearest integer, ties to even, and to the nearest \<open>double\<close>: \<open>2 powr dbl_exp x\<close> is
  the value of the last of its 53 bits.
\<close>

definition rne :: "real \<Rightarrow> int" where
  "rne x =
     (let f = \<lfloor>x\<rfloor>; d = x - of_int f
      in if d < 1 / 2 \<or> d = 1 / 2 \<and> even f then f else f + 1)"

definition dbl_exp :: "real \<Rightarrow> int" where
  "dbl_exp x = \<lfloor>log 2 \<bar>x\<bar>\<rfloor> - 52"

definition to_double :: "real \<Rightarrow> real" where
  "to_double x = (if x = 0 then 0 else of_int (rne (x / 2 powr dbl_exp x)) * 2 powr dbl_exp x)"

text \<open>
  The share of a CPU that is not the last one. The conversions of \<open>int\<close> are exact, \<open>sqrt\<close> is correctly rounded and \<open>ceil\<close>
  exact. (On the last CPU the source divides by zero first and then overwrites the result.)
\<close>

definition irq_share :: "int \<Rightarrow> int \<Rightarrow> int \<Rightarrow> int" where
  "irq_share util irqs_left online_index =
     (let ratio = to_double (of_int util / 100);
          part = to_double (to_double (sqrt ratio) * of_int irqs_left)
      in \<lceil>to_double (to_double (of_int irqs_left - part) / of_int online_index)\<rceil>)"

text \<open>
  The writes for one CPU: the IRQ number and the core whose bit \<open>1 << core\<close> is written to
  \<open>/proc/irq/<irq>/smp_affinity\<close>, for those of the files that open; an index outside the array is a fault.
\<close>

definition assign_irqs :: "(int \<Rightarrow> bool) \<Rightarrow> int list \<Rightarrow> int \<Rightarrow> int \<Rightarrow> u8 \<Rightarrow> (int \<times> u8) list option" where
  "assign_irqs opens irqtab start n core =
     (if n \<le> 0 then Some []
      else if start < 0 \<or> start + n > int (length irqtab) then None
      else Some (map (\<lambda>irq. (irq, core)) (filter opens (take (nat n) (drop (nat start) irqtab)))))"

text \<open>The CPUs from the most loaded down.\<close>

fun balance_loop ::
    "(int \<Rightarrow> bool) \<Rightarrow> int list \<Rightarrow> int \<Rightarrow> int \<Rightarrow> cpudata list \<Rightarrow> (int \<times> u8) list option" where
  "balance_loop opens irqtab irqs_processed online_cpus [] = Some []"
| "balance_loop opens irqtab irqs_processed online_cpus (cd # cds) =
     (let irqs_num = int (length irqtab)
      in if irqs_processed \<ge> irqs_num then Some []
         else if \<not> cd_online cd then balance_loop opens irqtab irqs_processed online_cpus cds
         else
           let online_index = online_cpus - 1;
               irqs_left = irqs_num - irqs_processed;
               irqnum = (if online_index = 0 then irqs_left
                         else irq_share (int_of_u64 (cpu_util cd)) irqs_left online_index)
           in case assign_irqs opens irqtab irqs_processed irqnum (cd_core cd) of
                None \<Rightarrow> None
              | Some ws \<Rightarrow>
                  if online_cpus \<le> 0 then Some ws
                  else map_option ((@) ws)
                         (balance_loop opens irqtab (irqs_processed + irqnum) (online_cpus - 1) cds))"

definition irqbalance_main :: "(int \<Rightarrow> bool) \<Rightarrow> irqbal \<Rightarrow> (int \<times> u8) list option" where
  "irqbalance_main opens st =
     (let c_cpudata = bubble_sort (length (cpus st)) (cpus st)
      in balance_loop opens (irqs st) 0 (int (length (filter cd_online c_cpudata))) (rev c_cpudata))"

text \<open>One turn of \<open>irqbalance_loop\<close>, and how long it then sleeps, in microseconds.\<close>

definition loop_turn ::
    "(int \<Rightarrow> bool) \<Rightarrow> (nat \<Rightarrow> string option) \<Rightarrow> irqbal \<Rightarrow> ((int \<times> u8) list \<times> irqbal) option" where
  "loop_turn opens stat st =
     (case irqbalance_load_watchdog (OFFS_CPUS st) stat 0 (cpus st) of
        None \<Rightarrow> None
      | Some cds \<Rightarrow>
          (let st' = st\<lparr>cpus := cds\<rparr> in map_option (\<lambda>ws. (ws, st')) (irqbalance_main opens st')))"

definition sleep_delta :: "u64 \<Rightarrow> u64 \<Rightarrow> u64 \<Rightarrow> u64" where
  "sleep_delta delay time_start_val time_end_val =
     (let time_delta = (time_end_val - time_start_val) div 1000
      in if delay < time_delta then 0 else delay - time_delta)"

section \<open>Configuration\<close>

text \<open>The blacklisted numbers; a missing one is an error.\<close>

fun read_blacklist :: "nat \<Rightarrow> string \<Rightarrow> (int list \<times> string) option" where
  "read_blacklist 0 s = Some ([], s)"
| "read_blacklist (Suc n) s =
     (case scan_d s of
        (None, r) \<Rightarrow> None
      | (Some v, r) \<Rightarrow>
          (case read_blacklist n (skip_ws r) of None \<Rightarrow> None | Some (vs, r') \<Rightarrow> Some (v # vs, r')))"

text \<open>
  One turn of the loop: the error, or the new state and the rest of the file. Where the source
  compares a command it could not read, from uninitialised bytes, the model takes it as invalid.
\<close>

definition config_command :: "string \<Rightarrow> irqbal \<Rightarrow> int + (irqbal \<times> string)" where
  "config_command s st =
     (if s = [] then Inl (- EINVAL)
      else if hd s = CHR ''#'' then Inr (st, skip_line (tl s))
      else case scan_s 3 (tl s) of
             (None, r) \<Rightarrow> Inl (- EINVAL)
           | (Some w, r) \<Rightarrow>
               (let cmd = hd s # w; (v, r1) = scan_d r; r' = (if v = None then r1 else skip_ws r1)
                in if cmd = ''cpun'' then
                     Inr (case v of None \<Rightarrow> st | Some n \<Rightarrow> st\<lparr>NR_CPUS := n\<rparr>, r')
                   else if cmd = ''cpuo'' then
                     Inr (case v of None \<Rightarrow> st | Some n \<Rightarrow> st\<lparr>OFFS_CPUS := n\<rparr>, r')
                   else if cmd = ''tdel'' then
                     (case scan_llu r of
                        (None, r2) \<Rightarrow> Inr (st, r2)
                      | (Some d, r2) \<Rightarrow> Inr (st\<lparr>THREAD_DELAY := d\<rparr>, skip_ws r2))
                   else if cmd = ''blck'' then
                     (let n = (case v of None \<Rightarrow> int (length (irq_blacklist st)) | Some n \<Rightarrow> n)
                      in if n < 0 then Inl (- ENOMEM)
                         else case read_blacklist (nat n) r' of
                                None \<Rightarrow> Inl (- EINVAL)
                              | Some (bl, r2) \<Rightarrow> Inr (st\<lparr>irq_blacklist := bl\<rparr>, r2))
                   else Inl (- EINVAL)))"

text \<open>
  The loop runs until a read has met the end of the file; every turn consumes a character, so
  as many turns as there are characters are enough.
\<close>

fun config_loop :: "nat \<Rightarrow> string \<Rightarrow> irqbal \<Rightarrow> (int + irqbal) option" where
  "config_loop 0 s st = None"
| "config_loop (Suc fuel) s st =
     (case config_command s st of
        Inl e \<Rightarrow> Some (Inl e)
      | Inr (st', r) \<Rightarrow> if r = [] then Some (Inr st') else config_loop fuel r st')"

definition read_irqbalance_configuration :: "string option \<Rightarrow> irqbal \<Rightarrow> (int + irqbal) option" where
  "read_irqbalance_configuration conf st =
     (case conf of None \<Rightarrow> Some (Inl (- ENOENT)) | Some s \<Rightarrow> config_loop (Suc (length s)) s st)"

section \<open>Interrupts\<close>

text \<open>\<open>"%d: "\<close>: the result, and what is left: a missing colon ends the matching but not the count.\<close>

definition scan_irq :: "string \<Rightarrow> int option \<times> string" where
  "scan_irq s =
     (case scan_d s of
        (None, r) \<Rightarrow> (None, r)
      | (Some v, r) \<Rightarrow>
          (Some v, case scan_lit '':'' r of None \<Rightarrow> r | Some r' \<Rightarrow> skip_ws r'))"

text \<open>Each numeric line consumes input, so the length of the text bounds the number of lines.\<close>

fun count_irqs :: "nat \<Rightarrow> string \<Rightarrow> int option" where
  "count_irqs 0 s = None"
| "count_irqs (Suc fuel) s =
     (case scan_irq s of
        (None, r) \<Rightarrow> Some 0
      | (Some v, r) \<Rightarrow> map_option ((+) 1) (count_irqs fuel (skip_line r)))"

text \<open>
  Reading until \<open>n\<close> numbers are stored. A failed conversion leaves \<open>irqs[i]\<close> uninitialised, which
  is a fault of the model.
\<close>

fun read_irqs :: "int list \<Rightarrow> nat \<Rightarrow> nat \<Rightarrow> string \<Rightarrow> int list option" where
  "read_irqs bl fuel 0 s = Some []"
| "read_irqs bl 0 (Suc n) s = None"
| "read_irqs bl (Suc fuel) (Suc n) s =
     (case scan_irq s of
        (None, r) \<Rightarrow> None
      | (Some v, r) \<Rightarrow>
          if v \<in> set bl then read_irqs bl fuel (Suc n) (skip_line r)
          else map_option ((#) v) (read_irqs bl fuel n (skip_line r)))"

definition scan_for_irqs :: "string option \<Rightarrow> irqbal \<Rightarrow> (int + irqbal) option" where
  "scan_for_irqs interrupts st =
     (case interrupts of
        None \<Rightarrow> Some (Inl (- ENOENT))
      | Some txt \<Rightarrow>
          do { total \<leftarrow> count_irqs (Suc (length txt)) (skip_line txt);
               let irqs_num = total - int (length (irq_blacklist st));
               if irqs_num < 0 then Some (Inl (- ENOMEM))
               else map_option (\<lambda>is. Inr (st\<lparr>irqs := is\<rparr>))
                      (read_irqs (irq_blacklist st) (Suc (length txt)) (nat irqs_num) (skip_line txt)) })"

section \<open>Start\<close>

fun init_cpus :: "int \<Rightarrow> (nat \<Rightarrow> string option) \<Rightarrow> nat \<Rightarrow> nat \<Rightarrow> int + cpudata list" where
  "init_cpus offs stat i 0 = Inr []"
| "init_cpus offs stat i (Suc n) =
     (let zero = \<lparr>cd_core = word_of_int (int i + offs), cd_online = False, ct_user = 0, ct_nice = 0,
            ct_system = 0, ct_idle = 0, ct_iowait = 0, ct_irq = 0, ct_softirq = 0, ct_steal = 0,
            ct_guest = 0, ct_guest_nice = 0, cpu_util = 0\<rparr>
      in case read_cpudata offs (stat i) (int i) zero of
           (ret, cd) \<Rightarrow>
             if ret \<noteq> 0 then Inl ret
             else case init_cpus offs stat (Suc i) n of Inl e \<Rightarrow> Inl e | Inr cds \<Rightarrow> Inr (cd # cds))"

text \<open>\<open>main\<close> up to the endless loop: the exit status, or the state the loop starts in.\<close>

definition irqbalance_start ::
    "string option \<Rightarrow> string option \<Rightarrow> (nat \<Rightarrow> string option) \<Rightarrow> (int + irqbal) option" where
  "irqbalance_start conf interrupts stat =
     (case read_irqbalance_configuration conf irqbal_init of
        None \<Rightarrow> None
      | Some (Inl e) \<Rightarrow> Some (Inl e)
      | Some (Inr st1) \<Rightarrow>
          (case scan_for_irqs interrupts st1 of
             None \<Rightarrow> None
           | Some (Inl e) \<Rightarrow> Some (Inl e)
           | Some (Inr st2) \<Rightarrow>
               if NR_CPUS st2 < 0 then Some (Inl (- ENOMEM))
               else case init_cpus (OFFS_CPUS st2) stat 0 (nat (NR_CPUS st2)) of
                      Inl e \<Rightarrow> Some (Inl e)
                    | Inr cds \<Rightarrow> Some (Inr (st2\<lparr>cpus := cds\<rparr>))))"

end
