(* ===== verification/Irqbalance_Correct.thy ===== *)
theory Irqbalance_Correct
  imports Irqbalance "HOL-Library.Multiset"
begin

text \<open>
  The balancer's parts are proved correct: the bubble sort sorts, every interrupt is assigned
  exactly once and to an online CPU, utilisations are percentages as long as the kernel's
  counters run forward, and the parsers of the configuration and of \<open>/proc/interrupts\<close> always
  return, with what the files hold.
\<close>

section \<open>Sorting\<close>

lemma bubble_pass_law:
  "length as = Suc m \<Longrightarrow> \<exists>as' s. bubble_pass m (as @ bs) = (as' @ bs, s) \<and> mset as' = mset as
     \<and> (\<forall>x \<in> set as. cpu_util x \<le> cpu_util (last as')) \<and> (\<not> s \<longrightarrow> as' = as \<and> sorted (map cpu_util as))"
proof (induction m arbitrary: as)
  case 0
  then obtain x where "as = [x]" by (auto simp: length_Suc_conv)
  then show ?case by (intro exI [of _ as] exI [of _ False]) simp
next
  case (Suc m)
  then obtain x y zs where as: "as = x # y # zs" by (auto simp: length_Suc_conv)
  have ne: "r \<noteq> []" if "mset r = mset (z # zs)" for r z using that by auto
  show ?case
  proof (cases "cpu_util x > cpu_util y")
    case True
    obtain r s where r: "bubble_pass m ((x # zs) @ bs) = (r @ bs, s)" "mset r = mset (x # zs)"
      "\<forall>u \<in> set (x # zs). cpu_util u \<le> cpu_util (last r)"
      using Suc.IH [of "x # zs"] Suc.prems as by auto
    then have "bubble_pass (Suc m) (as @ bs) = ((y # r) @ bs, True)" using True as by simp
    moreover have "\<forall>u \<in> set as. cpu_util u \<le> cpu_util (last (y # r))"
      using r(3) True ne [OF r(2)] as by auto
    ultimately show ?thesis using r(2) as by fastforce
  next
    case False
    obtain r s where r: "bubble_pass m ((y # zs) @ bs) = (r @ bs, s)" "mset r = mset (y # zs)"
      "\<forall>u \<in> set (y # zs). cpu_util u \<le> cpu_util (last r)"
      "\<not> s \<longrightarrow> r = y # zs \<and> sorted (map cpu_util (y # zs))"
      using Suc.IH [of "y # zs"] Suc.prems as by auto
    then have "bubble_pass (Suc m) (as @ bs) = ((x # r) @ bs, s)" using False as by simp
    moreover have "\<forall>u \<in> set as. cpu_util u \<le> cpu_util (last (x # r))"
      using r(3) False ne [OF r(2)] as by auto
    moreover have "\<not> s \<longrightarrow> x # r = as \<and> sorted (map cpu_util as)"
      using r(4) False as by auto
    ultimately show ?thesis using r(2) as by fastforce
  qed
qed

declare bubble_sort.simps [simp del]

lemma bubble_sort_law:
  assumes "length as = n" and "sorted (map cpu_util bs)" and "\<forall>x \<in> set as. \<forall>y \<in> set bs. cpu_util x \<le> cpu_util y"
  shows "sorted (map cpu_util (bubble_sort n (as @ bs))) \<and> mset (bubble_sort n (as @ bs)) = mset (as @ bs)"
  using assms
proof (induction n arbitrary: as bs)
  case 0
  then show ?case by (subst (1 2) bubble_sort.simps) simp
next
  case (Suc n)
  obtain as' s where p: "bubble_pass n (as @ bs) = (as' @ bs, s)" "mset as' = mset as"
    "\<forall>x \<in> set as. cpu_util x \<le> cpu_util (last as')" "\<not> s \<longrightarrow> as' = as \<and> sorted (map cpu_util as)"
    using bubble_pass_law [OF Suc.prems(1)] by blast
  show ?case
  proof (cases s)
    case False
    then have "bubble_sort (Suc n) (as @ bs) = as @ bs" using p by (subst bubble_sort.simps) simp
    then show ?thesis using False p(4) Suc.prems by (simp add: sorted_append)
  next
    case True
    have len: "length as' = Suc n" using p(2) Suc.prems(1) by (metis size_mset)
    then have split: "as' = butlast as' @ [last as']" by (metis append_butlast_last_id list.size(3) nat.simps(3))
    have st: "set as' = set as" using p(2) by (metis set_mset_mset)
    then have "last as' \<in> set as" using split by (metis in_set_conv_decomp)
    moreover have "set (butlast as') \<subseteq> set as" using st by (auto dest: in_set_butlastD)
    ultimately have "sorted (map cpu_util (last as' # bs))"
      "\<forall>x \<in> set (butlast as'). \<forall>y \<in> set (last as' # bs). cpu_util x \<le> cpu_util y"
      using Suc.prems p(3) by auto
    from Suc.IH [OF _ this] len
    have "sorted (map cpu_util (bubble_sort n (butlast as' @ last as' # bs)))
      \<and> mset (bubble_sort n (butlast as' @ last as' # bs)) = mset (butlast as' @ last as' # bs)" by simp
    moreover have "butlast as' @ last as' # bs = as' @ bs" using split by simp
    moreover have "bubble_sort (Suc n) (as @ bs) = bubble_sort n (as' @ bs)"
      using p(1) True by (subst bubble_sort.simps) simp
    ultimately show ?thesis using p(2) by simp
  qed
qed

section \<open>Distribution\<close>

text \<open>Rounding never passes an integer, and so never passes a number that is representable.\<close>

lemma rne_le: "x \<le> of_int n \<Longrightarrow> rne x \<le> n"
  unfolding rne_def Let_def by (auto simp: floor_le_iff le_floor_iff; linarith)

lemma rne_ge: "of_int n \<le> x \<Longrightarrow> n \<le> rne x"
  unfolding rne_def Let_def by (auto simp: le_floor_iff; linarith)

lemma to_double_bounds:
  assumes x: "0 \<le> x" "x \<le> of_int n" and n: "n < 2 ^ 52"
  shows "0 \<le> to_double x" and "to_double x \<le> of_int n"
proof -
  have "0 \<le> to_double x \<and> to_double x \<le> of_int n"
  proof (cases "x = 0")
    case True
    then show ?thesis using x by (simp add: to_double_def)
  next
    case False
    then have pos: "0 < x" using x by simp
    let ?e = "dbl_exp x" let ?p = "2 powr real_of_int ?e"
    have "(2::real) powr of_int \<lfloor>log 2 x\<rfloor> \<le> 2 powr log 2 x" by (intro powr_mono) auto
    then have "2 powr of_int \<lfloor>log 2 x\<rfloor> \<le> x" using pos by simp
    also have "x < real_of_int (2 ^ 52)" using x(2) n by (meson le_less_trans of_int_less_iff)
    also have "\<dots> = 2 powr 52" by simp
    finally have "real_of_int \<lfloor>log 2 x\<rfloor> < 52" by (simp only: powr_less_cancel_iff)
    then have "?e \<le> 0" using pos by (simp add: dbl_exp_def)
    then have pw: "?p = 1 / 2 ^ nat (- ?e)" by (simp add: powr_int powr_minus_divide)
    have "x / ?p \<le> of_int (n * 2 ^ nat (- ?e))" using x(2) by (simp add: pw)
    from rne_le [OF this] have "real_of_int (rne (x / ?p)) \<le> of_int (n * 2 ^ nat (- ?e))" by (simp only: of_int_le_iff)
    then have "real_of_int (rne (x / ?p)) * ?p \<le> of_int (n * 2 ^ nat (- ?e)) * ?p" by (rule mult_right_mono) simp
    then have "real_of_int (rne (x / ?p)) * ?p \<le> of_int n" by (simp add: pw)
    moreover have "0 \<le> rne (x / ?p)" by (rule rne_ge) (use pos in simp)
    ultimately show ?thesis using False by (simp add: to_double_def)
  qed
  then show "0 \<le> to_double x" "to_double x \<le> of_int n" by simp_all
qed

text \<open>The share lies between zero and what is left.\<close>

lemma irq_share_bounds:
  assumes u: "0 \<le> util" "util \<le> 100" and l: "0 \<le> irqs_left" "irqs_left < 2 ^ 31" and i: "1 \<le> online_index"
  shows "0 \<le> irq_share util irqs_left online_index" and "irq_share util irqs_left online_index \<le> irqs_left"
proof -
  have n: "(1::int) < 2 ^ 52" "irqs_left < 2 ^ 52" using l(2) by simp_all
  let ?l = "real_of_int irqs_left"
  define ratio where "ratio = to_double (of_int util / 100)"
  define s where "s = to_double (sqrt ratio)"
  define part where "part = to_double (s * ?l)"
  define rest where "rest = to_double (?l - part)"
  have r: "0 \<le> ratio" "ratio \<le> 1"
    unfolding ratio_def using to_double_bounds [OF _ _ n(1), of "of_int util / 100"] u by simp_all
  have s: "0 \<le> s" "s \<le> 1" unfolding s_def using to_double_bounds [OF _ _ n(1), of "sqrt ratio"] r by simp_all
  have "0 \<le> s * ?l" "s * ?l \<le> ?l" using s l by (auto simp: mult_left_le_one_le)
  then have p: "0 \<le> part" "part \<le> ?l" unfolding part_def using to_double_bounds [OF _ _ n(2)] by simp_all
  have t: "0 \<le> rest" "rest \<le> ?l" unfolding rest_def using to_double_bounds [OF _ _ n(2), of "?l - part"] p by simp_all
  have "rest / of_int online_index \<le> rest / 1" using t i by (intro divide_left_mono) auto
  then have "0 \<le> rest / of_int online_index" "rest / of_int online_index \<le> ?l" using t i by auto
  from to_double_bounds [OF this n(2)]
  have "0 \<le> to_double (rest / of_int online_index)" "to_double (rest / of_int online_index) \<le> ?l" .
  moreover have "irq_share util irqs_left online_index = \<lceil>to_double (rest / of_int online_index)\<rceil>"
    by (simp add: irq_share_def Let_def ratio_def s_def part_def rest_def)
  ultimately show "0 \<le> irq_share util irqs_left online_index" "irq_share util irqs_left online_index \<le> irqs_left"
    by (simp_all add: ceiling_le_iff le_ceiling_iff)
qed

lemma int_of_u64_small:
  assumes "unat u \<le> 100"
  shows "int_of_u64 u = int (unat u)" and "int_of_u64 u \<in> {0..100}"
proof -
  have "int (unat u) \<le> 100" using assms by linarith
  then have "uint u \<le> 100" "0 \<le> uint u" by simp_all
  moreover from this have "signed_take_bit 31 (uint u) = uint u"
    by (intro signed_take_bit_int_eq_self) (auto intro: order_trans [of _ 0])
  ultimately show "int_of_u64 u = int (unat u)" "int_of_u64 u \<in> {0..100}" by (simp_all add: int_of_u64_def)
qed

text \<open>The share of a core that is online is within what is left, and all of it on the last core.\<close>

lemma share_bounds:
  assumes N: "N < 2 ^ 31" "0 \<le> p" and util: "unat u \<le> 100" and "p < N" and n: "n = 1 + int rest"
    and k: "k = (if n - 1 = 0 then N - p else irq_share (int_of_u64 u) (N - p) (n - 1))"
  shows "0 \<le> k" "p + k \<le> N" "p + k < N \<Longrightarrow> 0 < n - 1"
proof -
  have "int_of_u64 u \<in> {0..100}" using util by (rule int_of_u64_small(2))
  then show "0 \<le> k" "p + k \<le> N"
    using irq_share_bounds [of "int_of_u64 u" "N - p" "n - 1"] assms(4) N n
    by (cases "n - 1 = 0"; simp add: k)+
  show "p + k < N \<Longrightarrow> 0 < n - 1" using n by (cases "n - 1 = 0") (simp_all add: k)
qed

lemma map_fst_core: "map fst (map (\<lambda>irq. (irq, c)) xs) = xs"
  by (simp add: comp_def)

lemma balance_loop_law:
  assumes q: "int (length irqtab) < 2 ^ 31" and "0 \<le> p" and "p \<le> int (length irqtab)"
    and "p < int (length irqtab) \<Longrightarrow> 0 < n" and "n = int (length (filter cd_online cds))"
    and "\<forall>cd \<in> set cds. cd_online cd \<longrightarrow> unat (cpu_util cd) \<le> 100"
  shows "\<exists>ws. balance_loop opens irqtab p n cds = Some ws \<and> map fst ws = filter opens (drop (nat p) irqtab)
    \<and> (\<forall>(irq, c) \<in> set ws. \<exists>cd \<in> set cds. cd_online cd \<and> cd_core cd = c)"
  using assms(2-)
proof (induction cds arbitrary: p n)
  case Nil
  then have "p = int (length irqtab)" by fastforce
  then show ?case by simp
next
  case (Cons cd cds)
  let ?N = "int (length irqtab)"
  consider (finished) "p \<ge> ?N" | (offline) "p < ?N" "\<not> cd_online cd" | (online) "p < ?N" "cd_online cd"
    by linarith
  then show ?case
  proof cases
    case finished
    then show ?thesis using Cons.prems by simp
  next
    case offline
    then show ?thesis using Cons.IH [of p n] Cons.prems by fastforce
  next
    case online
    define k where "k = (if n - 1 = 0 then ?N - p else irq_share (int_of_u64 (cpu_util cd)) (?N - p) (n - 1))"
    have n: "n = 1 + int (length (filter cd_online cds))" using Cons.prems(4) online by simp
    have "unat (cpu_util cd) \<le> 100" using Cons.prems(5) online by simp
    note k = share_bounds [OF q Cons.prems(1) this online(1) n k_def]
    let ?ws = "map (\<lambda>irq. (irq, cd_core cd)) (filter opens (take (nat k) (drop (nat p) irqtab)))"
    have as: "assign_irqs opens irqtab p k (cd_core cd) = Some ?ws"
      using k(1,2) Cons.prems(1) by (auto simp: assign_irqs_def)
    have "0 \<le> p + k" "n - 1 = int (length (filter cd_online cds))"
      "\<forall>cd \<in> set cds. cd_online cd \<longrightarrow> unat (cpu_util cd) \<le> 100"
      using k(1) Cons.prems(1,5) n by simp_all
    from Cons.IH [OF this(1) k(2,3) this(2,3)] obtain ws where ws: "balance_loop opens irqtab (p + k) (n - 1) cds = Some ws"
      "map fst ws = filter opens (drop (nat (p + k)) irqtab)"
      "\<forall>(irq, c) \<in> set ws. \<exists>cd \<in> set cds. cd_online cd \<and> cd_core cd = c"
      by blast
    have "balance_loop opens irqtab p n (cd # cds) = Some (?ws @ ws)"
    proof -
      have "balance_loop opens irqtab p n (cd # cds) =
          (case assign_irqs opens irqtab p k (cd_core cd) of
             None \<Rightarrow> None
           | Some ws \<Rightarrow> if n \<le> 0 then Some ws
                        else map_option ((@) ws) (balance_loop opens irqtab (p + k) (n - 1) cds))"
        using online unfolding k_def by (simp add: Let_def)
      then show ?thesis using as ws(1) n by simp
    qed
    moreover have "drop (nat p) irqtab = take (nat k) (drop (nat p) irqtab) @ drop (nat (p + k)) irqtab"
      using k(1) Cons.prems(1) by (simp add: nat_add_distrib add.commute [of "nat p"] flip: drop_drop)
    then have "map fst (?ws @ ws) = filter opens (drop (nat p) irqtab)"
      using ws(2) by (metis filter_append map_append map_fst_core)
    ultimately show ?thesis using ws(3) online by auto
  qed
qed

section \<open>The parsers return\<close>

lemma length_read_blacklist: "read_blacklist n s = Some (vs, r) \<Longrightarrow> length r \<le> length s"
proof (induction n arbitrary: s vs r)
  case (Suc n)
  obtain v r1 where v: "scan_d s = (v, r1)" by (cases "scan_d s")
  with Suc.prems obtain w vs' where "v = Some w" "read_blacklist n (skip_ws r1) = Some (vs', r)"
    by (auto split: option.splits)
  then show ?case
    using Suc.IH [of "skip_ws r1"] length_skip_ws [of r1] length_scan_d(1) [OF v] by fastforce
qed simp

lemma config_command_consumes:
  assumes "config_command s st = Inr (st', r)"
  shows "length r < length s"
proof -
  have ne: "s \<noteq> []" using assms by (auto simp: config_command_def)
  show ?thesis
  proof (cases "hd s = CHR ''#''")
    case True
    then show ?thesis
      using assms ne length_skip_line [of "tl s"] by (auto simp: config_command_def less_eq_Suc_le [symmetric]
          intro: le_less_trans)
  next
    case False
    obtain w r0 where w: "scan_s 3 (tl s) = (w, r0)" by (cases "scan_s 3 (tl s)")
    obtain v r1 where v: "scan_d r0 = (v, r1)" by (cases "scan_d r0")
    obtain d r2 where d: "scan_llu r0 = (d, r2)" by (cases "scan_llu r0")
    have l: "length r0 < length s" using length_scan_s [OF w] ne by (cases s) auto
    note ls = length_scan_d(1) [OF v] length_scan_llu [OF d] length_skip_ws [of r1] length_skip_ws [of r2]
    have "length r \<le> length r0"
      using assms ne False w v d ls length_read_blacklist
      by (auto simp: config_command_def Let_def split: option.splits if_splits dest!: length_read_blacklist)
    then show ?thesis using l by simp
  qed
qed

lemma config_loop_returns: "length s < fuel \<Longrightarrow> \<exists>res. config_loop fuel s st = Some res"
proof (induction fuel arbitrary: s st)
  case (Suc fuel)
  show ?case
  proof (cases "config_command s st")
    case (Inr p)
    then show ?thesis
      using Suc config_command_consumes [of s st "fst p" "snd p"] by (cases p) auto
  qed simp
qed simp

section \<open>Reading back a configuration\<close>

definition conf_line :: "string \<Rightarrow> nat \<Rightarrow> string" where
  "conf_line cmd n = cmd @ '' '' @ dec n @ [CHR 0x0A]"

definition conf_text :: "nat \<Rightarrow> nat \<Rightarrow> nat \<Rightarrow> nat list \<Rightarrow> string" where
  "conf_text n offs delay bl =
     conf_line ''cpun'' n @ conf_line ''cpuo'' offs @ conf_line ''tdel'' delay
     @ conf_line ''blck'' (length bl) @ concat (map (\<lambda>b. dec b @ [CHR 0x0A]) bl)"

lemma conf_line_not_Nil [simp]: "conf_line cmd n \<noteq> []"
  by (simp add: conf_line_def)

lemma space_blank: "c_isspace CHR '' ''" "c_isspace CHR 0x0A" "\<not> c_isdigit CHR 0x0A" "\<not> c_isdigit CHR '':''"
  by (simp_all add: c_isspace_def c_isdigit_def less_eq_char_def)

lemma scan_d_blank:
  "n < 2 ^ 31 \<Longrightarrow> scan_d (CHR '' '' # dec n @ CHR 0x0A # r) = (Some (int n), CHR 0x0A # r)"
  using scan_d_dec [of n "CHR 0x0A # r" "'' ''"] by (simp add: space_blank)

lemma scan_llu_blank:
  "n < 2 ^ 64 \<Longrightarrow> scan_llu (CHR '' '' # dec n @ CHR 0x0A # r) = (Some (of_nat n), CHR 0x0A # r)"
  using scan_llu_dec [of n "CHR 0x0A # r" "'' ''"] by (simp add: space_blank)

lemma skip_ws_newline: "r = [] \<or> \<not> c_isspace (hd r) \<Longrightarrow> skip_ws (CHR 0x0A # r) = r"
  using skip_ws_nonspace [of r] by (simp add: skip_ws_def space_blank)

lemma hd_dec: "\<not> c_isspace (hd (dec n @ r))" "dec n @ r \<noteq> []"
  using dec_digits [of n] not_space_digit by (cases "dec n"; auto)+

lemma read_blacklist_print:
  "\<forall>b \<in> set bl. b < 2 ^ 31 \<Longrightarrow>
     read_blacklist (length bl) (concat (map (\<lambda>b. dec b @ [CHR 0x0A]) bl)) = Some (map int bl, [])"
proof (induction bl)
  case (Cons b bl)
  let ?r = "concat (map (\<lambda>b. dec b @ [CHR 0x0A]) bl)"
  have "?r = [] \<or> \<not> c_isspace (hd ?r)" using hd_dec by (cases bl) auto
  then have "skip_ws (CHR 0x0A # ?r) = ?r" by (rule skip_ws_newline)
  moreover have "scan_d (dec b @ CHR 0x0A # ?r) = (Some (int b), CHR 0x0A # ?r)"
    using scan_d_dec [of b "CHR 0x0A # ?r" "[]"] Cons.prems by (simp add: space_blank)
  ultimately show ?case using Cons by simp
qed simp

lemma config_number:
  assumes "n < 2 ^ 31" and "r = [] \<or> \<not> c_isspace (hd r)"
  shows "config_command (conf_line ''cpun'' n @ r) st = Inr (st\<lparr>NR_CPUS := int n\<rparr>, r)"
    and "config_command (conf_line ''cpuo'' n @ r) st = Inr (st\<lparr>OFFS_CPUS := int n\<rparr>, r)"
    and "read_blacklist n r = Some (bl, r') \<Longrightarrow>
      config_command (conf_line ''blck'' n @ r) st = Inr (st\<lparr>irq_blacklist := bl\<rparr>, r')"
proof -
  have w: "scan_s 3 (''pun'' @ s) = (Some ''pun'', s)" "scan_s 3 (''puo'' @ s) = (Some ''puo'', s)"
    "scan_s 3 (''lck'' @ s) = (Some ''lck'', s)" for s
    by (rule scan_s_word; simp add: c_isspace_def)+
  show "config_command (conf_line ''cpun'' n @ r) st = Inr (st\<lparr>NR_CPUS := int n\<rparr>, r)"
    "config_command (conf_line ''cpuo'' n @ r) st = Inr (st\<lparr>OFFS_CPUS := int n\<rparr>, r)"
    "read_blacklist n r = Some (bl, r') \<Longrightarrow>
      config_command (conf_line ''blck'' n @ r) st = Inr (st\<lparr>irq_blacklist := bl\<rparr>, r')"
    using w [simplified] scan_d_blank [OF assms(1), of r] skip_ws_newline [OF assms(2)]
    by (simp_all add: config_command_def conf_line_def)
qed

lemma config_delay:
  assumes "n < 2 ^ 64" and "r = [] \<or> \<not> c_isspace (hd r)"
  shows "config_command (conf_line ''tdel'' n @ r) st = Inr (st\<lparr>THREAD_DELAY := of_nat n\<rparr>, r)"
proof -
  have w: "scan_s 3 (''del'' @ s) = (Some ''del'', s)" for s
    by (rule scan_s_word; simp add: c_isspace_def)
  show ?thesis
    using w [simplified] scan_llu_blank [OF assms(1), of r] skip_ws_newline [OF assms(2)]
    by (simp add: config_command_def conf_line_def split: prod.splits)
qed

section \<open>Reading back a table of interrupts\<close>

definition irq_line :: "nat \<times> string \<Rightarrow> string" where
  "irq_line e = '' '' @ dec (fst e) @ '':'' @ snd e @ [CHR 0x0A]"

definition irq_entry_ok :: "nat \<times> string \<Rightarrow> bool" where
  "irq_entry_ok e \<longleftrightarrow> fst e < 2 ^ 31 \<and> CHR 0x0A \<notin> set (snd e) \<and> (\<exists>c \<in> set (snd e). \<not> c_isspace c)"

definition irq_table :: "string \<Rightarrow> (nat \<times> string) list \<Rightarrow> string \<Rightarrow> string" where
  "irq_table header es tail = header @ [CHR 0x0A] @ concat (map irq_line es) @ tail"

lemma scan_irq_skip_ws [simp]: "scan_irq (skip_ws s) = scan_irq s"
  by (simp add: scan_irq_def)

lemma count_irqs_skip_ws [simp]: "count_irqs fuel (skip_ws s) = count_irqs fuel s"
  by (cases fuel) simp_all

lemma read_irqs_skip_ws [simp]: "read_irqs bl fuel n (skip_ws s) = read_irqs bl fuel n s"
  by (cases "(bl, fuel, n, s)" rule: read_irqs.cases) simp_all

lemma scan_irq_line:
  assumes "irq_entry_ok e"
  shows "\<exists>r. scan_irq (irq_line e @ s) = (Some (int (fst e)), r) \<and> skip_line r = skip_ws s"
proof -
  have "scan_d (irq_line e @ s) = (Some (int (fst e)), CHR '':'' # snd e @ CHR 0x0A # s)"
    using scan_d_dec [of "fst e" "CHR '':'' # snd e @ CHR 0x0A # s" "'' ''"] assms
    by (simp add: irq_line_def irq_entry_ok_def space_blank)
  then have "scan_irq (irq_line e @ s) = (Some (int (fst e)), skip_ws (snd e @ CHR 0x0A # s))"
    by (simp add: scan_irq_def)
  moreover obtain c where "c \<in> set (snd e)" "\<not> c_isspace c" using assms by (auto simp: irq_entry_ok_def)
  then have "skip_ws (snd e @ CHR 0x0A # s) = skip_ws (snd e) @ CHR 0x0A # s" "skip_ws (snd e) \<noteq> []"
    by (auto simp: skip_ws_def dropWhile_append1)
  moreover have "CHR 0x0A \<notin> set (skip_ws (snd e))"
    using assms by (auto simp: irq_entry_ok_def skip_ws_def dest: set_dropWhileD)
  ultimately show ?thesis using skip_line_newline by simp
qed

lemma count_irqs_table:
  "list_all irq_entry_ok es \<Longrightarrow> fst (scan_irq tail) = None \<Longrightarrow> length es < fuel \<Longrightarrow>
     count_irqs fuel (concat (map irq_line es) @ tail) = Some (int (length es))"
proof (induction es arbitrary: fuel)
  case Nil
  then show ?case by (cases fuel) (auto split: prod.splits option.splits)
next
  case (Cons e es)
  then obtain f where f: "fuel = Suc f" by (cases fuel) auto
  obtain r where "scan_irq (irq_line e @ concat (map irq_line es) @ tail) = (Some (int (fst e)), r)"
    "skip_line r = skip_ws (concat (map irq_line es) @ tail)"
    using scan_irq_line Cons.prems(1) by fastforce
  then show ?case using Cons f by simp
qed

lemma read_irqs_table:
  "list_all irq_entry_ok es \<Longrightarrow> length es \<le> fuel \<Longrightarrow> n \<le> length (filter (\<lambda>i. i \<notin> set bl) (map (int \<circ> fst) es)) \<Longrightarrow>
     read_irqs bl fuel n (concat (map irq_line es) @ tail)
       = Some (take n (filter (\<lambda>i. i \<notin> set bl) (map (int \<circ> fst) es)))"
proof (induction es arbitrary: fuel n)
  case (Cons e es)
  then obtain f where f: "fuel = Suc f" by (cases fuel) auto
  obtain r where r: "scan_irq (irq_line e @ concat (map irq_line es) @ tail) = (Some (int (fst e)), r)"
    "skip_line r = skip_ws (concat (map irq_line es) @ tail)"
    using scan_irq_line Cons.prems(1) by fastforce
  show ?case
  proof (cases n)
    case (Suc m)
    then show ?thesis
      using Cons.IH [of f n] Cons.IH [of f m] Cons.prems f r by (auto split: if_splits)
  qed simp
qed simp

lemma length_concat_irq_lines: "length es \<le> length (concat (map irq_line es) @ tail)"
  by (induction es) (auto simp: irq_line_def)

lemma filter_mem_length:
  assumes "distinct ns"
  shows "length (filter (\<lambda>i. i \<in> set bl) ns) \<le> length bl"
proof -
  have "length (filter (\<lambda>i. i \<in> set bl) ns) = card (set (filter (\<lambda>i. i \<in> set bl) ns))"
    using assms distinct_card [of "filter (\<lambda>i. i \<in> set bl) ns"] by simp
  also have "\<dots> \<le> card (set bl)" by (intro card_mono) auto
  also have "\<dots> \<le> length bl" by (rule card_length)
  finally show ?thesis .
qed

text \<open>Distinct numbers of which the blacklisted ones are a part.\<close>

lemma blacklist_count:
  assumes "distinct ns" and "distinct bl" and "set bl \<subseteq> set ns"
  shows "length (filter (\<lambda>i. i \<notin> set bl) ns) = length ns - length bl" and "length bl \<le> length ns"
proof -
  have "{x \<in> set ns. x \<in> set bl} = set bl" using assms(3) by blast
  then have "length (filter (\<lambda>i. i \<in> set bl) ns) = length bl"
    using assms by (simp add: distinct_card [symmetric] distinct_card [of bl, symmetric] del: distinct_card)
  then show "length (filter (\<lambda>i. i \<notin> set bl) ns) = length ns - length bl" "length bl \<le> length ns"
    using sum_length_filter_compl [of "\<lambda>i. i \<in> set bl" ns] by linarith+
qed

lemma unat_mult_100: "unat (d :: u64) * 100 < 2 ^ 64 \<Longrightarrow> unat (d * 100) = unat d * 100"
  by (simp add: unat_word_ariths)

section \<open>Properties\<close>

text \<open>
  Property C24. If some CPU is online and no online CPU reports more than 100 percent (the share of a CPU is computed in double precision from
  the utilisation), \<open>irqbalance_main\<close> never reads outside the table of interrupts and tries each interrupt exactly once, in the order
  of the table: the affinity of exactly the interrupts whose file can be opened is written, each once, each to a core that is online.
\<close>

theorem irqbalance_assigns_all:
  assumes "length (irqs st) < 2 ^ 31" and "\<exists>cd \<in> set (cpus st). cd_online cd"
    and "\<forall>cd \<in> set (cpus st). cd_online cd \<longrightarrow> unat (cpu_util cd) \<le> 100"
  shows "\<exists>ws. irqbalance_main opens st = Some ws \<and> map fst ws = filter opens (irqs st)
    \<and> (\<forall>(irq, core) \<in> set ws. \<exists>cd \<in> set (cpus st). cd_online cd \<and> cd_core cd = core)"
proof -
  let ?c = "bubble_sort (length (cpus st)) (cpus st)"
  have "mset ?c = mset (cpus st)" using bubble_sort_law [of "cpus st" _ "[]"] by simp
  then have set: "set ?c = set (cpus st)" by (metis set_mset_mset)
  then have "filter cd_online ?c \<noteq> []" using assms(2) by (auto simp: filter_empty_conv)
  then have "0 < int (length (filter cd_online ?c))" by simp
  moreover have "int (length (filter cd_online ?c)) = int (length (filter cd_online (rev ?c)))"
    by (simp add: rev_filter [symmetric])
  moreover have "int (length (irqs st)) < 2 ^ 31" using assms(1) by simp
  ultimately show ?thesis
    using balance_loop_law [of "irqs st" 0 "int (length (filter cd_online ?c))" "rev ?c" opens] assms(3) set
    by (simp add: irqbalance_main_def Let_def)
qed

definition sample_cpu :: "u8 \<Rightarrow> bool \<Rightarrow> u64 \<Rightarrow> cpudata" where
  "sample_cpu c onl u = \<lparr>cd_core = c, cd_online = onl, ct_user = 0, ct_nice = 0, ct_system = 0, ct_idle = 0,
     ct_iowait = 0, ct_irq = 0, ct_softirq = 0, ct_steal = 0, ct_guest = 0, ct_guest_nice = 0, cpu_util = u\<rparr>"

theorem irqbalance_assigns_all_witness:
  "\<exists>ws. irqbalance_main (\<lambda>irq. irq \<noteq> 8)
       (irqbal_init\<lparr>cpus := [sample_cpu 4 True 90, sample_cpu 5 True 10], irqs := [7, 8, 9]\<rparr>)
     = Some ws \<and> map fst ws = [7, 9]"
proof -
  let ?st = "irqbal_init\<lparr>cpus := [sample_cpu 4 True 90, sample_cpu 5 True 10], irqs := [7, 8, 9]\<rparr>"
  have "length (irqs ?st) < 2 ^ 31" "\<exists>cd \<in> set (cpus ?st). cd_online cd"
    "\<forall>cd \<in> set (cpus ?st). cd_online cd \<longrightarrow> unat (cpu_util cd) \<le> 100"
    by (simp_all add: sample_cpu_def)
  from irqbalance_assigns_all [OF this, of "\<lambda>irq. irq \<noteq> 8"] show ?thesis by auto
qed

text \<open>
  Property C40. The sort of \<open>irqbalance_main\<close> terminates with the CPUs rearranged by increasing
  utilisation.
\<close>

theorem bubble_sort_sorts:
  "sorted (map cpu_util (bubble_sort (length xs) xs)) \<and> mset (bubble_sort (length xs) xs) = mset xs"
  using bubble_sort_law [of xs "length xs" "[]"] by simp

text \<open>
  As long as the counters of \<open>/proc/stat\<close> run forward and do not overflow, the
  utilisation of a CPU between two readings is defined and at most 100.
\<close>

theorem calc_util_percentage:
  assumes "unat (TOTAL_CPUTIME old) \<le> unat (TOTAL_CPUTIME cur)" and "unat (ct_idle old) \<le> unat (ct_idle cur)"
    and "unat (TOTAL_CPUTIME cur) + unat (ct_idle cur) < 2 ^ 64"
    and "(unat (TOTAL_CPUTIME cur) - unat (TOTAL_CPUTIME old)) * 100 < 2 ^ 64"
    and "unat (TOTAL_CPUTIME old) + unat (ct_idle old) < unat (TOTAL_CPUTIME cur) + unat (ct_idle cur)"
  shows "\<exists>u. calc_util old cur = Some u \<and> unat u \<le> 100"
proof -
  let ?d = "TOTAL_CPUTIME cur - TOTAL_CPUTIME old"
  let ?t = "(TOTAL_CPUTIME cur + ct_idle cur) - (TOTAL_CPUTIME old + ct_idle old)"
  have d: "unat ?d = unat (TOTAL_CPUTIME cur) - unat (TOTAL_CPUTIME old)"
    using assms(1) by (simp add: unat_sub word_le_nat_alt)
  have sums: "unat (TOTAL_CPUTIME cur + ct_idle cur) = unat (TOTAL_CPUTIME cur) + unat (ct_idle cur)"
    "unat (TOTAL_CPUTIME old + ct_idle old) = unat (TOTAL_CPUTIME old) + unat (ct_idle old)"
    using assms by (simp_all add: unat_word_ariths)
  then have t: "unat ?t = unat (TOTAL_CPUTIME cur) + unat (ct_idle cur)
      - (unat (TOTAL_CPUTIME old) + unat (ct_idle old))"
    using assms(5) by (simp add: unat_sub word_le_nat_alt)
  then have pos: "?t \<noteq> 0" using assms(5) by (metis unat_0 zero_less_diff less_irrefl)
  have "unat (?d * 100) = unat ?d * 100" by (rule unat_mult_100) (use assms(4) d in simp)
  then have "unat ((?d * 100) div ?t) = unat ?d * 100 div unat ?t" by (simp add: unat_div)
  also have "\<dots> \<le> 100"
  proof -
    have "unat ?d \<le> unat ?t" using d t assms(1,2) by linarith
    then have "unat ?d * 100 div unat ?t \<le> unat ?t * 100 div unat ?t" by (intro div_le_mono) simp
    also have "\<dots> \<le> 100" by simp
    finally show ?thesis .
  qed
  finally show ?thesis using pos by (simp add: calc_util_def Let_def)
qed

theorem calc_util_percentage_witness:
  "\<exists>u. calc_util (sample_cpu 0 True 0) ((sample_cpu 0 True 0)\<lparr>ct_user := 30, ct_idle := 70\<rparr>) = Some u \<and> unat u \<le> 100"
proof -
  have "TOTAL_CPUTIME (sample_cpu 0 True 0) = 0" "ct_idle (sample_cpu 0 True 0) = 0"
    "TOTAL_CPUTIME ((sample_cpu 0 True 0)\<lparr>ct_user := 30, ct_idle := 70\<rparr>) = 30"
    by (simp_all add: TOTAL_CPUTIME_def sample_cpu_def)
  then show ?thesis
    using calc_util_percentage [of "sample_cpu 0 True 0" "(sample_cpu 0 True 0)\<lparr>ct_user := 30, ct_idle := 70\<rparr>"]
    by simp
qed

text \<open>
  The configuration parser returns on every file, whatever it holds, and reads a
  configuration file back: number and offset of the CPUs, delay and blacklist.
\<close>

theorem configuration_roundtrip:
  "(\<exists>res. read_irqbalance_configuration conf st = Some res)
   \<and> (n < 2 ^ 31 \<and> offs < 2 ^ 31 \<and> delay < 2 ^ 64 \<and> length bl < 2 ^ 31 \<and> (\<forall>b \<in> set bl. b < 2 ^ 31) \<longrightarrow>
      read_irqbalance_configuration (Some (conf_text n offs delay bl)) st
        = Some (Inr (st\<lparr>NR_CPUS := int n, OFFS_CPUS := int offs, THREAD_DELAY := of_nat delay,
                         irq_blacklist := map int bl\<rparr>)))"
proof (intro conjI impI)
  show "\<exists>res. read_irqbalance_configuration conf st = Some res"
    using config_loop_returns [OF lessI] by (cases conf) (simp_all only: read_irqbalance_configuration_def option.case, blast+)
next
  assume a: "n < 2 ^ 31 \<and> offs < 2 ^ 31 \<and> delay < 2 ^ 64 \<and> length bl < 2 ^ 31 \<and> (\<forall>b \<in> set bl. b < 2 ^ 31)"
  let ?b = "concat (map (\<lambda>b. dec b @ [CHR 0x0A]) bl)"
  let ?f = "length (conf_text n offs delay bl) - 3"
  let ?l4 = "conf_line ''blck'' (length bl) @ ?b"
  let ?l3 = "conf_line ''tdel'' delay @ ?l4" let ?l2 = "conf_line ''cpuo'' offs @ ?l3"
  have h: "?l2 = [] \<or> \<not> c_isspace (hd ?l2)" "?l3 = [] \<or> \<not> c_isspace (hd ?l3)" "?l4 = [] \<or> \<not> c_isspace (hd ?l4)"
    by (simp_all add: conf_line_def c_isspace_def)
  have b: "?b = [] \<or> \<not> c_isspace (hd ?b)" using hd_dec by (cases bl) auto
  have "4 \<le> length (conf_text n offs delay bl)" by (simp add: conf_text_def conf_line_def)
  then have f: "Suc (length (conf_text n offs delay bl)) = Suc (Suc (Suc (Suc ?f)))" by linarith
  have "read_irqbalance_configuration (Some (conf_text n offs delay bl)) st
      = config_loop (Suc (Suc (Suc (Suc ?f)))) (conf_line ''cpun'' n @ ?l2) st"
    by (simp only: read_irqbalance_configuration_def option.case f) (simp only: conf_text_def)
  then show "read_irqbalance_configuration (Some (conf_text n offs delay bl)) st
      = Some (Inr (st\<lparr>NR_CPUS := int n, OFFS_CPUS := int offs, THREAD_DELAY := of_nat delay,
                       irq_blacklist := map int bl\<rparr>))"
    using a config_number(1) [OF _ h(1)] config_number(2) [OF _ h(2)] config_delay [OF _ h(3)]
      config_number(3) [OF _ b read_blacklist_print] by simp
qed

theorem configuration_roundtrip_witness:
  "read_irqbalance_configuration (Some (conf_text 4 4 500000 [240, 241])) irqbal_init
     = Some (Inr (irqbal_init\<lparr>NR_CPUS := 4, OFFS_CPUS := 4, THREAD_DELAY := 500000, irq_blacklist := [240, 241]\<rparr>))"
  using configuration_roundtrip [of None irqbal_init 4 4 500000 "[240, 241]"] by simp

text \<open>
  On a table of distinct interrupts, \<open>scan_for_irqs\<close> with a blacklist of distinct
  interrupts of the table keeps exactly the others, in order. A blacklist with numbers that
  are not in the table makes it drop as many interrupts from the end.
\<close>

theorem scan_for_irqs_correct:
  assumes "header \<noteq> []" and "CHR 0x0A \<notin> set header" and "list_all irq_entry_ok es" and "fst (scan_irq tail) = None"
    and "distinct (map fst es)" and "length (irq_blacklist st) \<le> length es" and "distinct (irq_blacklist st)"
  shows "scan_for_irqs (Some (irq_table header es tail)) st
      = Some (Inr (st\<lparr>irqs := take (length es - length (irq_blacklist st))
                       (filter (\<lambda>i. i \<notin> set (irq_blacklist st)) (map (int \<circ> fst) es))\<rparr>))
    \<and> (set (irq_blacklist st) \<subseteq> set (map (int \<circ> fst) es) \<longrightarrow>
       length es - length (irq_blacklist st)
         = length (filter (\<lambda>i. i \<notin> set (irq_blacklist st)) (map (int \<circ> fst) es)))"
proof -
  let ?bl = "irq_blacklist st" let ?ns = "map (int \<circ> fst) es" let ?t = "irq_table header es tail"
  have dist: "distinct ?ns" using assms(5) by (auto simp: distinct_map inj_on_def)
  have skip: "skip_line ?t = skip_ws (concat (map irq_line es) @ tail)"
    using skip_line_newline [OF assms(1,2)] by (simp add: irq_table_def)
  have len: "length es < Suc (length ?t)"
    using length_concat_irq_lines [of es tail] by (simp add: irq_table_def)
  have count: "count_irqs (Suc (length ?t)) (skip_line ?t) = Some (int (length es))"
    unfolding skip count_irqs_skip_ws by (rule count_irqs_table [OF assms(3,4) len])
  have "length es - length ?bl \<le> length (filter (\<lambda>i. i \<notin> set ?bl) ?ns)"
    using filter_mem_length [OF dist, of ?bl] sum_length_filter_compl [of "\<lambda>i. i \<in> set ?bl" ?ns] by simp
  then have "read_irqs ?bl (Suc (length ?t)) (length es - length ?bl) (skip_line ?t)
      = Some (take (length es - length ?bl) (filter (\<lambda>i. i \<notin> set ?bl) ?ns))"
    unfolding skip read_irqs_skip_ws using read_irqs_table [OF assms(3)] len by simp
  moreover have "nat (int (length es) - int (length ?bl)) = length es - length ?bl" by simp
  ultimately have "scan_for_irqs (Some ?t) st
      = Some (Inr (st\<lparr>irqs := take (length es - length ?bl) (filter (\<lambda>i. i \<notin> set ?bl) ?ns)\<rparr>))"
    using count assms(6) by (simp add: scan_for_irqs_def Let_def del: count_irqs.simps read_irqs.simps)
  then show ?thesis using blacklist_count(1) [OF dist assms(7)] by simp
qed

theorem scan_for_irqs_correct_witness:
  "scan_for_irqs (Some (irq_table ''CPU0'' [(3, '' gic''), (5, '' gic'')] ''IPI0: 1'')) (irqbal_init\<lparr>irq_blacklist := [3]\<rparr>)
     = Some (Inr (irqbal_init\<lparr>irq_blacklist := [3], irqs := [5]\<rparr>))"
proof -
  have "list_all irq_entry_ok [(3, '' gic''), (5, '' gic'')]" "fst (scan_irq ''IPI0: 1'') = None"
    by (simp_all add: irq_entry_ok_def c_isspace_def scan_irq_def scan_d_def scan_int_def skip_ws_def
        split_sign_def c_isdigit_def less_eq_char_def)
  then show ?thesis
    using scan_for_irqs_correct [of "''CPU0''" "[(3, '' gic''), (5, '' gic'')]" "''IPI0: 1''"
        "irqbal_init\<lparr>irq_blacklist := [3]\<rparr>"] by simp
qed

end
