(* ===== verification/Sys_Utils.thy ===== *)
theory Sys_Utils
  imports C_Text
begin

text \<open>
  The helpers of \<open>hardware/Utils.{h,cpp}\<close> on a model of the control files of the kernel: a map
  from paths to nodes with mode, access rights and contents. The library is built with
  \<open>STRICT_BEHAVIOUR\<close>: a file that does not open is an error at once. A path without a node cannot be
  created by opening it, and a node takes what is written to it, as control files do. An exception of \<open>stoi\<close> is
  \<^const>\<open>None\<close>.
\<close>

section \<open>Files\<close>

record fnode =
  fn_mode :: u32
  fn_read :: bool
  fn_write :: bool
  fn_exec :: bool
  fn_text :: string

type_synonym sysfs = "string \<rightharpoonup> fnode"

definition S_IFREG :: u32 where "S_IFREG = 0x8000"
definition S_IFDIR :: u32 where "S_IFDIR = 0x4000"

definition statMode :: "sysfs \<Rightarrow> string \<Rightarrow> u32" where
  "statMode fs path = (case fs path of None \<Rightarrow> 0 | Some n \<Rightarrow> fn_mode n)"

definition isFile :: "sysfs \<Rightarrow> string \<Rightarrow> bool" where
  "isFile fs path \<longleftrightarrow> statMode fs path AND S_IFREG = S_IFREG"

definition isDirectory :: "sysfs \<Rightarrow> string \<Rightarrow> bool" where
  "isDirectory fs path \<longleftrightarrow> statMode fs path AND S_IFDIR = S_IFDIR"

definition canRead :: "sysfs \<Rightarrow> string \<Rightarrow> bool" where
  "canRead fs path \<longleftrightarrow> (case fs path of None \<Rightarrow> False | Some n \<Rightarrow> fn_read n)"

definition canWrite :: "sysfs \<Rightarrow> string \<Rightarrow> bool" where
  "canWrite fs path \<longleftrightarrow> (case fs path of None \<Rightarrow> False | Some n \<Rightarrow> fn_write n)"

definition canExecute :: "sysfs \<Rightarrow> string \<Rightarrow> bool" where
  "canExecute fs path \<longleftrightarrow> (case fs path of None \<Rightarrow> False | Some n \<Rightarrow> fn_exec n)"

section \<open>Writing\<close>

definition set_text :: "sysfs \<Rightarrow> string \<Rightarrow> string \<Rightarrow> sysfs" where
  "set_text fs path data =
     (case fs path of None \<Rightarrow> fs | Some n \<Rightarrow> fs(path \<mapsto> n\<lparr>fn_text := data\<rparr>))"

text \<open>The overloads of \<open>write\<close> for strings, numbers and truth values.\<close>

definition write_str :: "string \<Rightarrow> string \<Rightarrow> sysfs \<Rightarrow> bool \<times> sysfs" where
  "write_str path data fs = (if canWrite fs path then (True, set_text fs path data) else (False, fs))"

definition write_int :: "string \<Rightarrow> int \<Rightarrow> sysfs \<Rightarrow> bool \<times> sysfs" where
  "write_int path data fs = write_str path (to_string data) fs"

definition write_bool :: "string \<Rightarrow> bool \<Rightarrow> sysfs \<Rightarrow> bool \<times> sysfs" where
  "write_bool path data fs = write_int path (if data then 1 else 0) fs"

text \<open>\<open>writeLegacy\<close> opens without truncating; \<open>fits\<close> is whether \<open>write\<close> succeeds. It returns true either way.\<close>

definition writeLegacy :: "bool \<Rightarrow> string \<Rightarrow> string \<Rightarrow> sysfs \<Rightarrow> bool \<times> sysfs" where
  "writeLegacy fits path data fs =
     (case fs path of
        None \<Rightarrow> (False, fs)
      | Some n \<Rightarrow>
          if \<not> fn_write n then (False, fs)
          else if fits then (True, set_text fs path (data @ drop (length data) (fn_text n)))
          else (True, fs))"

definition writeLegacy_int :: "bool \<Rightarrow> string \<Rightarrow> int \<Rightarrow> sysfs \<Rightarrow> bool \<times> sysfs" where
  "writeLegacy_int fits path data fs = writeLegacy fits path (to_string data) fs"

definition writeLegacy_bool :: "bool \<Rightarrow> string \<Rightarrow> bool \<Rightarrow> sysfs \<Rightarrow> bool \<times> sysfs" where
  "writeLegacy_bool fits path data fs = writeLegacy_int fits path (if data then 1 else 0) fs"

text \<open>A shorter number leaves the end of a longer one in the file.\<close>

lemma writeLegacy_leaves_tail:
  assumes "fs path = Some n" "fn_write n"
  shows "\<exists>n'. snd (writeLegacy_bool True path b fs) path = Some n' \<and> fn_text n' = (if b then ''1'' else ''0'') @ drop 1 (fn_text n)"
  using assms by (simp add: writeLegacy_bool_def writeLegacy_int_def writeLegacy_def set_text_def to_string_def dec.simps digit_char_def)

section \<open>Reading\<close>

text \<open>\<open>getline\<close>: fails on an empty file.\<close>

definition read_str :: "sysfs \<Rightarrow> string \<Rightarrow> string option" where
  "read_str fs path =
     (case fs path of
        None \<Rightarrow> None
      | Some n \<Rightarrow>
          if fn_read n \<and> fn_text n \<noteq> [] then Some (takeWhile (\<lambda>c. c \<noteq> CHR 0x0A) (fn_text n)) else None)"

text \<open>\<open>std::stoi\<close>: an exception without digits or out of range.\<close>

definition stoi :: "string \<Rightarrow> int option" where
  "stoi s =
     (case fst (scan_int s) of
        None \<Rightarrow> None
      | Some v \<Rightarrow> if - (2 ^ 31) \<le> v \<and> v < 2 ^ 31 then Some v else None)"

text \<open>The outer option is the exception, the inner one a failed read.\<close>

definition read_int :: "sysfs \<Rightarrow> string \<Rightarrow> int option option" where
  "read_int fs path =
     (case read_str fs path of None \<Rightarrow> Some None | Some l \<Rightarrow> map_option Some (stoi l))"

definition read_bool :: "sysfs \<Rightarrow> string \<Rightarrow> bool option option" where
  "read_bool fs path = map_option (map_option (\<lambda>v. v \<noteq> 0)) (read_int fs path)"

definition screenIsOn :: "sysfs \<Rightarrow> bool option" where
  "screenIsOn fs =
     map_option (\<lambda>r. case r of None \<Rightarrow> True | Some brightness \<Rightarrow> brightness > 0)
       (read_int fs ''/sys/devices/13900000.dsim/backlight/panel/brightness'')"

section \<open>Governors\<close>

definition NR_CPUS :: int where "NR_CPUS = 8"

type_synonym governors = "int \<rightharpoonup> string"

definition cpu_path :: "int \<Rightarrow> string \<Rightarrow> string" where
  "cpu_path core rest = ''/sys/devices/system/cpu/cpu'' @ to_string core @ rest"

text \<open>\<open>kCpuGovernors[core]\<close> is empty for a core that was never read.\<close>

definition gov_at :: "governors \<Rightarrow> int \<Rightarrow> string" where
  "gov_at govs core = (case govs core of None \<Rightarrow> [] | Some g \<Rightarrow> g)"

definition updateCpuGov :: "int \<Rightarrow> sysfs \<Rightarrow> governors \<Rightarrow> bool \<times> governors" where
  "updateCpuGov core fs govs =
     (if core < 0 \<or> core \<ge> NR_CPUS then (False, govs)
      else case read_str fs (cpu_path core ''/cpufreq/scaling_governor'') of
             None \<Rightarrow> (False, govs)
           | Some g \<Rightarrow> (True, govs(core \<mapsto> g)))"

definition assertCpuGov :: "int \<Rightarrow> string \<Rightarrow> governors \<Rightarrow> bool" where
  "assertCpuGov core asserted govs \<longleftrightarrow> \<not> (core < 0 \<or> core \<ge> NR_CPUS) \<and> gov_at govs core = asserted"

definition gov_path :: "governors \<Rightarrow> int \<Rightarrow> string \<Rightarrow> string" where
  "gov_path govs core file = cpu_path core (''/cpufreq/'' @ gov_at govs core @ ''/'' @ file)"

definition writeCpuGov :: "int \<Rightarrow> string \<Rightarrow> string \<Rightarrow> governors \<Rightarrow> sysfs \<Rightarrow> bool \<times> sysfs" where
  "writeCpuGov core file data govs fs =
     (if core < 0 \<or> core \<ge> NR_CPUS then (False, fs)
      else if \<not> isFile fs (gov_path govs core file) then (False, fs)
      else write_str (gov_path govs core file) data fs)"

definition writeCpuGov_int :: "int \<Rightarrow> string \<Rightarrow> int \<Rightarrow> governors \<Rightarrow> sysfs \<Rightarrow> bool \<times> sysfs" where
  "writeCpuGov_int core file data govs fs = writeCpuGov core file (to_string data) govs fs"

definition writeCpuGov_bool :: "int \<Rightarrow> string \<Rightarrow> bool \<Rightarrow> governors \<Rightarrow> sysfs \<Rightarrow> bool \<times> sysfs" where
  "writeCpuGov_bool core file data govs fs = writeCpuGov_int core file (if data then 1 else 0) govs fs"

section \<open>Polling\<close>

text \<open>
  The thread of \<open>poll\<close> on the results of its reads: the values given to the callback.
  \<open>isFirstPoll\<close> is set to true again after a call, and \<open>ret\<close> has no value before the first one
  (\<open>None\<close>), which makes the test of \<open>ret\<close> a read of an uninitialised variable.
\<close>

fun poll_loop ::
    "(int \<Rightarrow> bool) \<Rightarrow> bool \<Rightarrow> bool \<Rightarrow> int option \<Rightarrow> bool option \<Rightarrow> int option list \<Rightarrow> int list option" where
  "poll_loop callback ignore first last_value ret [] = Some []"
| "poll_loop callback ignore first last_value ret (r # rs) =
     (case r of
        Some v \<Rightarrow>
          (let called = first \<or> Some v \<noteq> last_value;
               ret' = (if called then Some (callback v) else ret)
           in (case ret' of
                 None \<Rightarrow> None
               | Some False \<Rightarrow> Some (if called then [v] else [])
               | Some True \<Rightarrow>
                   map_option (\<lambda>vs. if called then v # vs else vs)
                     (poll_loop callback ignore (first \<or> called) (if called then Some v else last_value) ret' rs)))
      | None \<Rightarrow>
          (let ret' = (if ignore then ret else Some False)
           in (case ret' of
                 None \<Rightarrow> None
               | Some False \<Rightarrow> Some []
               | Some True \<Rightarrow> poll_loop callback ignore first last_value ret' rs)))"

section \<open>What writing does\<close>

lemma write_str_law:
  assumes "write_str path data fs = (r, fs')"
  shows "r = canWrite fs path" and "p \<noteq> path \<Longrightarrow> fs' p = fs p"
    and "map_option fn_text (fs' path) = (if r then Some data else map_option fn_text (fs path))"
    and "canWrite fs' p = canWrite fs p" and "statMode fs' p = statMode fs p" and "dom fs' = dom fs"
  using assms
  by (auto simp: write_str_def set_text_def canWrite_def statMode_def split: if_splits option.splits)

lemma poll_calls_every_time:
  "(\<And>v. callback v) \<Longrightarrow> poll_loop callback ignore True last_value (Some True) (map Some vs) = Some vs"
  by (induction vs arbitrary: last_value) (simp_all add: Let_def)

end
