(* ===== verification/Power_Profiles.thy ===== *)
theory Power_Profiles
  imports Sys_Utils "HOL-Library.Monad_Syntax"
begin

text \<open>
  The power profiles of \<open>hardware/power/Profiles.{h,cpp}\<close>: the structures, and how they are read
  from the XML file. libxml is a parameter: what an XPath expression selects. Each setting is a
  pair of its value and its \<open>__name_set\<close> flag. \<^const>\<open>None\<close> is a fault: an exception of \<open>stoi\<close>, a
  node without children, a full buffer, an unknown parent. The copy of the parent, a \<open>memcpy\<close>
  over \<open>std::string\<close> members in the source, is a copy of values here.
\<close>

section \<open>Structures\<close>

type_synonym 'a setting = "'a \<times> bool"

abbreviation sval :: "'a setting \<Rightarrow> 'a" where "sval s \<equiv> fst s"
abbreviation is_set :: "'a setting \<Rightarrow> bool" where "is_set s \<equiv> snd s"

record cluster_cores =
  co_enabled :: "bool setting"
  core1 :: "bool setting"
  core2 :: "bool setting"
  core3 :: "bool setting"
  core4 :: "bool setting"

record cpu_cluster =
  cl_enabled :: "bool setting"
  cl_governor :: "string setting"
  cl_freq_min :: "u32 setting"
  cl_freq_max :: "u32 setting"
  cl_freq_hispeed :: "u32 setting"
  cl_freq_boost :: "u32 setting"
  cl_cores :: cluster_cores
  cl_cores_set :: bool
  cl_governor_data :: "(string \<times> string) list"

record hmp_threshold =
  th_enabled :: "bool setting"
  th_down :: "u32 setting"
  th_up :: "u32 setting"

record profile =
  pf_enabled :: "bool setting"
  pf_cpu_enabled :: "bool setting"
  pf_cpu_set :: bool
  pf_apollo :: cpu_cluster
  pf_apollo_set :: bool
  pf_atlas :: cpu_cluster
  pf_atlas_set :: bool
  pf_cpusets_enabled :: "bool setting"
  pf_cpusets_set :: bool
  cps_defaults :: "string setting"
  cps_foreground :: "string setting"
  cps_foreground_boost :: "string setting"
  cps_background :: "string setting"
  cps_system_background :: "string setting"
  cps_top_app :: "string setting"
  pf_hmp_enabled :: "bool setting"
  pf_hmp_set :: bool
  hmp_boost :: "bool setting"
  hmp_semiboost :: "bool setting"
  hmp_power_migration :: "bool setting"
  hmp_active_down_migration :: "bool setting"
  hmp_aggressive_up_migration :: "bool setting"
  hmp_thr :: hmp_threshold
  hmp_thr_set :: bool
  hmp_sb_thr :: hmp_threshold
  hmp_sb_thr_set :: bool
  pf_gpu_enabled :: "bool setting"
  pf_gpu_set :: bool
  dvfs_enabled :: "bool setting"
  dvfs_set :: bool
  dvfs_freq_min :: "u32 setting"
  dvfs_freq_max :: "u32 setting"
  highspeed_enabled :: "bool setting"
  highspeed_set :: bool
  highspeed_freq :: "u32 setting"
  highspeed_load :: "u32 setting"
  pf_kernel_enabled :: "bool setting"
  pf_kernel_set :: bool
  kernel_pewq :: "bool setting"
  pf_ipa_enabled :: "bool setting"
  pf_ipa_set :: bool
  ipa_control_temp :: "int setting"
  pf_slow_enabled :: "bool setting"
  pf_slow_set :: bool
  slow_mode_toggle :: "bool setting"
  slow_timer_rate :: "int setting"
  pf_booster_enabled :: "bool setting"
  pf_booster_set :: bool
  booster_tail :: "string setting"
  booster_head :: "string setting"

text \<open>The static objects start zeroed.\<close>

definition zero_cores :: cluster_cores where
  "zero_cores = \<lparr>co_enabled = (False, False), core1 = (False, False), core2 = (False, False),
     core3 = (False, False), core4 = (False, False)\<rparr>"

definition zero_cluster :: cpu_cluster where
  "zero_cluster = \<lparr>cl_enabled = (False, False), cl_governor = ([], False), cl_freq_min = (0, False),
     cl_freq_max = (0, False), cl_freq_hispeed = (0, False), cl_freq_boost = (0, False),
     cl_cores = zero_cores, cl_cores_set = False, cl_governor_data = []\<rparr>"

definition zero_threshold :: hmp_threshold where
  "zero_threshold = \<lparr>th_enabled = (False, False), th_down = (0, False), th_up = (0, False)\<rparr>"

definition zero_profile :: profile where
  "zero_profile =
     \<lparr>pf_enabled = (False, False), pf_cpu_enabled = (False, False), pf_cpu_set = False,
      pf_apollo = zero_cluster, pf_apollo_set = False, pf_atlas = zero_cluster, pf_atlas_set = False,
      pf_cpusets_enabled = (False, False), pf_cpusets_set = False, cps_defaults = ([], False),
      cps_foreground = ([], False), cps_foreground_boost = ([], False), cps_background = ([], False),
      cps_system_background = ([], False), cps_top_app = ([], False),
      pf_hmp_enabled = (False, False), pf_hmp_set = False, hmp_boost = (False, False),
      hmp_semiboost = (False, False), hmp_power_migration = (False, False),
      hmp_active_down_migration = (False, False), hmp_aggressive_up_migration = (False, False),
      hmp_thr = zero_threshold, hmp_thr_set = False, hmp_sb_thr = zero_threshold, hmp_sb_thr_set = False,
      pf_gpu_enabled = (False, False), pf_gpu_set = False, dvfs_enabled = (False, False), dvfs_set = False,
      dvfs_freq_min = (0, False), dvfs_freq_max = (0, False), highspeed_enabled = (False, False),
      highspeed_set = False, highspeed_freq = (0, False), highspeed_load = (0, False),
      pf_kernel_enabled = (False, False), pf_kernel_set = False, kernel_pewq = (False, False),
      pf_ipa_enabled = (False, False), pf_ipa_set = False, ipa_control_temp = (0, False),
      pf_slow_enabled = (False, False), pf_slow_set = False, slow_mode_toggle = (False, False),
      slow_timer_rate = (0, False), pf_booster_enabled = (False, False), pf_booster_set = False,
      booster_tail = ([], False), booster_head = ([], False)\<rparr>"

section \<open>XML\<close>

text \<open>
  The first node an XPath expression selects: none, one without children, or one with the
  content of its first child (which is null unless that child is text).
\<close>

datatype xnode = NoNode | Childless | Node "string option"

record xml =
  xn_node :: "string \<Rightarrow> xnode"
  xn_attr :: "string \<Rightarrow> string \<Rightarrow> string option"
  xn_children :: "string \<Rightarrow> (string \<times> xnode) list"

definition XML_GET :: "xml \<Rightarrow> string \<Rightarrow> string option option" where
  "XML_GET x path =
     (case xn_node x path of NoNode \<Rightarrow> Some None | Childless \<Rightarrow> None | Node c \<Rightarrow> Some c)"

definition XML_GET_ATTR :: "xml \<Rightarrow> string \<Rightarrow> string \<Rightarrow> string option" where
  "XML_GET_ATTR x path attr = (case xn_node x path of NoNode \<Rightarrow> None | _ \<Rightarrow> xn_attr x path attr)"

definition XML_HAS_NODE :: "xml \<Rightarrow> string \<Rightarrow> bool" where
  "XML_HAS_NODE x path = (case xn_node x path of Node _ \<Rightarrow> True | _ \<Rightarrow> False)"

definition to_bool :: "string \<Rightarrow> bool option" where
  "to_bool c = Some (c = ''true'' \<or> c = ''TRUE'' \<or> c = ''1'')"

definition to_int :: "string \<Rightarrow> int option" where
  "to_int c = stoi c"

definition to_uint :: "string \<Rightarrow> u32 option" where
  "to_uint c = map_option word_of_int (stoi c)"

definition to_str :: "string \<Rightarrow> string option" where
  "to_str c = Some c"

definition PROFILE_SET ::
    "(string \<Rightarrow> 'a option) \<Rightarrow> xml \<Rightarrow> string \<Rightarrow> string \<Rightarrow> 'a setting \<Rightarrow> 'a setting option" where
  "PROFILE_SET conv x path dflt s =
     (case XML_GET x path of
        None \<Rightarrow> None
      | Some (Some c) \<Rightarrow> map_option (\<lambda>v. (v, True)) (conv c)
      | Some None \<Rightarrow> if is_set s then Some s else map_option (\<lambda>v. (v, is_set s)) (conv dflt))"

text \<open>The \<open>enabled\<close> member of a section and its flag.\<close>

definition PROFILE_INIT :: "xml \<Rightarrow> string \<Rightarrow> bool setting \<Rightarrow> (bool setting \<times> bool) option" where
  "PROFILE_INIT x path e =
     (if XML_HAS_NODE x path
      then map_option (\<lambda>e'. (e', True)) (PROFILE_SET to_bool x (path @ ''/enabled'') ''false'' e)
      else Some (e, False))"

fun gov_entries :: "(string \<times> xnode) list \<Rightarrow> (string \<times> string) list option" where
  "gov_entries [] = Some []"
| "gov_entries ((n, nd) # ns) =
     (case nd of
        Node (Some c) \<Rightarrow>
          if length n \<ge> 64 \<or> length c \<ge> 64 then None else map_option ((#) (n, c)) (gov_entries ns)
      | Node None \<Rightarrow> None
      | _ \<Rightarrow> gov_entries ns)"

text \<open>The array has 64 entries, the last one used ends the list.\<close>

definition XML_GET_CPUGOV :: "xml \<Rightarrow> string \<Rightarrow> cpu_cluster \<Rightarrow> cpu_cluster option" where
  "XML_GET_CPUGOV x path cl =
     (if XML_HAS_NODE x (path @ ''/governor_data'') then
        (case gov_entries (xn_children x (path @ ''/governor_data'')) of
           None \<Rightarrow> None
         | Some es \<Rightarrow> if length es \<ge> 64 then None else Some (cl\<lparr>cl_governor_data := es\<rparr>))
      else Some cl)"

definition XML_GET_CPUCLUSTER :: "xml \<Rightarrow> string \<Rightarrow> string \<Rightarrow> cpu_cluster \<Rightarrow> cpu_cluster option" where
  "XML_GET_CPUCLUSTER x path fmax cl =
     do { g \<leftarrow> PROFILE_SET to_str x (path @ ''/governor'') ''interactive'' (cl_governor cl);
          mn \<leftarrow> PROFILE_SET to_uint x (path @ ''/freq_min'') ''200000'' (cl_freq_min cl);
          mx \<leftarrow> PROFILE_SET to_uint x (path @ ''/freq_max'') fmax (cl_freq_max cl);
          hs \<leftarrow> PROFILE_SET to_uint x (path @ ''/freq_hispeed'') fmax (cl_freq_hispeed cl);
          b \<leftarrow> PROFILE_SET to_uint x (path @ ''/freq_boost'') ''0'' (cl_freq_boost cl);
          co \<leftarrow>
            (if sval (co_enabled (cl_cores cl)) then
               do { c1 \<leftarrow> PROFILE_SET to_bool x (path @ ''/cores/core1'') ''true'' (core1 (cl_cores cl));
                    c2 \<leftarrow> PROFILE_SET to_bool x (path @ ''/cores/core2'') ''true'' (core2 (cl_cores cl));
                    c3 \<leftarrow> PROFILE_SET to_bool x (path @ ''/cores/core3'') ''true'' (core3 (cl_cores cl));
                    c4 \<leftarrow> PROFILE_SET to_bool x (path @ ''/cores/core4'') ''true'' (core4 (cl_cores cl));
                    Some ((cl_cores cl)\<lparr>core1 := c1, core2 := c2, core3 := c3, core4 := c4\<rparr>) }
             else Some (cl_cores cl));
          Some (cl\<lparr>cl_governor := g, cl_freq_min := mn, cl_freq_max := mx, cl_freq_hispeed := hs,
                    cl_freq_boost := b, cl_cores := co\<rparr>) }"

section \<open>Loading one profile\<close>

text \<open>The block of \<open>PROFILE_INIT\<close>s.\<close>

definition init_sections :: "xml \<Rightarrow> string \<Rightarrow> profile \<Rightarrow> profile option" where
  "init_sections x path p =
     do { en \<leftarrow> PROFILE_SET to_bool x (path @ ''/enabled'') ''false'' (pf_enabled p);
          (cpu, cpu_s) \<leftarrow> PROFILE_INIT x (path @ ''/cpu'') (pf_cpu_enabled p);
          (ap, ap_s) \<leftarrow> PROFILE_INIT x (path @ ''/cpu/apollo'') (cl_enabled (pf_apollo p));
          (apc, apc_s) \<leftarrow> PROFILE_INIT x (path @ ''/cpu/apollo/cores'') (co_enabled (cl_cores (pf_apollo p)));
          (atl, atl_s) \<leftarrow> PROFILE_INIT x (path @ ''/cpu/atlas'') (cl_enabled (pf_atlas p));
          (atc, atc_s) \<leftarrow> PROFILE_INIT x (path @ ''/cpu/atlas/cores'') (co_enabled (cl_cores (pf_atlas p)));
          (cps, cps_s) \<leftarrow> PROFILE_INIT x (path @ ''/cpusets'') (pf_cpusets_enabled p);
          (hmp, hmp_s) \<leftarrow> PROFILE_INIT x (path @ ''/hmp'') (pf_hmp_enabled p);
          (th, th_s) \<leftarrow> PROFILE_INIT x (path @ ''/hmp/threshold'') (th_enabled (hmp_thr p));
          (sb, sb_s) \<leftarrow> PROFILE_INIT x (path @ ''/hmp/sb_threshold'') (th_enabled (hmp_sb_thr p));
          (gpu, gpu_s) \<leftarrow> PROFILE_INIT x (path @ ''/gpu'') (pf_gpu_enabled p);
          (dv, dv_s) \<leftarrow> PROFILE_INIT x (path @ ''/gpu/dvfs'') (dvfs_enabled p);
          (hs, hs_s) \<leftarrow> PROFILE_INIT x (path @ ''/gpu/highspeed'') (highspeed_enabled p);
          (kr, kr_s) \<leftarrow> PROFILE_INIT x (path @ ''/kernel'') (pf_kernel_enabled p);
          (ipa, ipa_s) \<leftarrow> PROFILE_INIT x (path @ ''/ipa'') (pf_ipa_enabled p);
          (sl, sl_s) \<leftarrow> PROFILE_INIT x (path @ ''/slow'') (pf_slow_enabled p);
          (bo, bo_s) \<leftarrow> PROFILE_INIT x (path @ ''/input_booster'') (pf_booster_enabled p);
          let apollo = (pf_apollo p)\<lparr>cl_enabled := ap, cl_cores_set := apc_s,
                          cl_cores := (cl_cores (pf_apollo p))\<lparr>co_enabled := apc\<rparr>\<rparr>;
          let atlas = (pf_atlas p)\<lparr>cl_enabled := atl, cl_cores_set := atc_s,
                          cl_cores := (cl_cores (pf_atlas p))\<lparr>co_enabled := atc\<rparr>\<rparr>;
          Some (p\<lparr>pf_enabled := en, pf_cpu_enabled := cpu, pf_cpu_set := cpu_s,
                   pf_apollo := apollo, pf_apollo_set := ap_s, pf_atlas := atlas, pf_atlas_set := atl_s,
                   pf_cpusets_enabled := cps, pf_cpusets_set := cps_s,
                   pf_hmp_enabled := hmp, pf_hmp_set := hmp_s,
                   hmp_thr := (hmp_thr p)\<lparr>th_enabled := th\<rparr>, hmp_thr_set := th_s,
                   hmp_sb_thr := (hmp_sb_thr p)\<lparr>th_enabled := sb\<rparr>, hmp_sb_thr_set := sb_s,
                   pf_gpu_enabled := gpu, pf_gpu_set := gpu_s, dvfs_enabled := dv, dvfs_set := dv_s,
                   highspeed_enabled := hs, highspeed_set := hs_s,
                   pf_kernel_enabled := kr, pf_kernel_set := kr_s, pf_ipa_enabled := ipa, pf_ipa_set := ipa_s,
                   pf_slow_enabled := sl, pf_slow_set := sl_s, pf_booster_enabled := bo, pf_booster_set := bo_s\<rparr>) }"

definition load_cpu :: "xml \<Rightarrow> string \<Rightarrow> profile \<Rightarrow> profile option" where
  "load_cpu x path p =
     (if sval (pf_cpu_enabled p) then
        do { ap \<leftarrow> (if sval (cl_enabled (pf_apollo p)) then
                      do { c \<leftarrow> XML_GET_CPUCLUSTER x (path @ ''/cpu/apollo'') ''1500000'' (pf_apollo p);
                           XML_GET_CPUGOV x (path @ ''/cpu/apollo'') c }
                    else Some (pf_apollo p));
             atl \<leftarrow> (if sval (cl_enabled (pf_atlas p)) then
                      do { c \<leftarrow> XML_GET_CPUCLUSTER x (path @ ''/cpu/atlas'') ''2100000'' (pf_atlas p);
                           XML_GET_CPUGOV x (path @ ''/cpu/atlas'') c }
                    else Some (pf_atlas p));
             Some (p\<lparr>pf_apollo := ap, pf_atlas := atl\<rparr>) }
      else Some p)"

definition load_cpusets :: "xml \<Rightarrow> string \<Rightarrow> profile \<Rightarrow> profile option" where
  "load_cpusets x path p =
     (if sval (pf_cpusets_enabled p) then
        do { d \<leftarrow> PROFILE_SET to_str x (path @ ''/cpusets/default'') ''0-7'' (cps_defaults p);
             f \<leftarrow> PROFILE_SET to_str x (path @ ''/cpusets/foreground'') ''0-7'' (cps_foreground p);
             fb \<leftarrow> PROFILE_SET to_str x (path @ ''/cpusets/foreground_boost'') ''0-7'' (cps_foreground_boost p);
             b \<leftarrow> PROFILE_SET to_str x (path @ ''/cpusets/background'') ''0-7'' (cps_background p);
             sb \<leftarrow> PROFILE_SET to_str x (path @ ''/cpusets/system_background'') ''0-7'' (cps_system_background p);
             t \<leftarrow> PROFILE_SET to_str x (path @ ''/cpusets/top_app'') ''0-7'' (cps_top_app p);
             Some (p\<lparr>cps_defaults := d, cps_foreground := f, cps_foreground_boost := fb,
                      cps_background := b, cps_system_background := sb, cps_top_app := t\<rparr>) }
      else Some p)"

definition load_threshold :: "xml \<Rightarrow> string \<Rightarrow> string \<Rightarrow> string \<Rightarrow> hmp_threshold \<Rightarrow> hmp_threshold option" where
  "load_threshold x path ddown dup th =
     (if sval (th_enabled th) then
        do { d \<leftarrow> PROFILE_SET to_uint x (path @ ''/down'') ddown (th_down th);
             u \<leftarrow> PROFILE_SET to_uint x (path @ ''/up'') dup (th_up th);
             Some (th\<lparr>th_down := d, th_up := u\<rparr>) }
      else Some th)"

definition load_hmp :: "xml \<Rightarrow> string \<Rightarrow> profile \<Rightarrow> profile option" where
  "load_hmp x path p =
     (if sval (pf_hmp_enabled p) then
        do { b \<leftarrow> PROFILE_SET to_bool x (path @ ''/hmp/boost'') ''false'' (hmp_boost p);
             sb \<leftarrow> PROFILE_SET to_bool x (path @ ''/hmp/semiboost'') ''false'' (hmp_semiboost p);
             pm \<leftarrow> PROFILE_SET to_bool x (path @ ''/hmp/power_migration'') ''false'' (hmp_power_migration p);
             ad \<leftarrow> PROFILE_SET to_bool x (path @ ''/hmp/active_down_migration'') ''false'' (hmp_active_down_migration p);
             au \<leftarrow> PROFILE_SET to_bool x (path @ ''/hmp/aggressive_up_migration'') ''false''
                     (hmp_aggressive_up_migration p);
             th \<leftarrow> load_threshold x (path @ ''/hmp/threshold'') ''214'' ''479'' (hmp_thr p);
             st \<leftarrow> load_threshold x (path @ ''/hmp/sb_threshold'') ''150'' ''100'' (hmp_sb_thr p);
             Some (p\<lparr>hmp_boost := b, hmp_semiboost := sb, hmp_power_migration := pm,
                      hmp_active_down_migration := ad, hmp_aggressive_up_migration := au,
                      hmp_thr := th, hmp_sb_thr := st\<rparr>) }
      else Some p)"

definition load_dvfs :: "xml \<Rightarrow> string \<Rightarrow> profile \<Rightarrow> profile option" where
  "load_dvfs x path p =
     (if sval (dvfs_enabled p) then
        do { a \<leftarrow> PROFILE_SET to_uint x (path @ ''/gpu/dvfs/freq_min'') ''100'' (dvfs_freq_min p);
             b \<leftarrow> PROFILE_SET to_uint x (path @ ''/gpu/dvfs/freq_max'') ''772'' (dvfs_freq_max p);
             Some (p\<lparr>dvfs_freq_min := a, dvfs_freq_max := b\<rparr>) }
      else Some p)"

definition load_highspeed :: "xml \<Rightarrow> string \<Rightarrow> profile \<Rightarrow> profile option" where
  "load_highspeed x path p =
     (if sval (highspeed_enabled p) then
        do { a \<leftarrow> PROFILE_SET to_uint x (path @ ''/gpu/highspeed/freq'') ''772'' (highspeed_freq p);
             b \<leftarrow> PROFILE_SET to_uint x (path @ ''/gpu/highspeed/load'') ''99'' (highspeed_load p);
             Some (p\<lparr>highspeed_freq := a, highspeed_load := b\<rparr>) }
      else Some p)"

definition load_gpu :: "xml \<Rightarrow> string \<Rightarrow> profile \<Rightarrow> profile option" where
  "load_gpu x path p =
     (if sval (pf_gpu_enabled p) then do { p1 \<leftarrow> load_dvfs x path p; load_highspeed x path p1 } else Some p)"

definition load_kernel :: "xml \<Rightarrow> string \<Rightarrow> profile \<Rightarrow> profile option" where
  "load_kernel x path p =
     (if sval (pf_kernel_enabled p) then
        map_option (\<lambda>v. p\<lparr>kernel_pewq := v\<rparr>)
          (PROFILE_SET to_bool x (path @ ''/kernel/pewq'') ''false'' (kernel_pewq p))
      else Some p)"

definition load_ipa :: "xml \<Rightarrow> string \<Rightarrow> profile \<Rightarrow> profile option" where
  "load_ipa x path p =
     (if sval (pf_ipa_enabled p) then
        map_option (\<lambda>v. p\<lparr>ipa_control_temp := v\<rparr>)
          (PROFILE_SET to_int x (path @ ''/ipa/control_temp'') ''65'' (ipa_control_temp p))
      else Some p)"

definition load_slow :: "xml \<Rightarrow> string \<Rightarrow> profile \<Rightarrow> profile option" where
  "load_slow x path p =
     (if sval (pf_slow_enabled p) then
        do { a \<leftarrow> PROFILE_SET to_bool x (path @ ''/slow/mode_toggle'') ''false'' (slow_mode_toggle p);
             b \<leftarrow> PROFILE_SET to_int x (path @ ''/slow/timer_rate'') ''0'' (slow_timer_rate p);
             Some (p\<lparr>slow_mode_toggle := a, slow_timer_rate := b\<rparr>) }
      else Some p)"

definition load_booster :: "xml \<Rightarrow> string \<Rightarrow> profile \<Rightarrow> profile option" where
  "load_booster x path p =
     (if sval (pf_booster_enabled p) then
        do { a \<leftarrow> PROFILE_SET to_str x (path @ ''/input_booster/tail'') ''0 0 0 0 0 0'' (booster_tail p);
             b \<leftarrow> PROFILE_SET to_str x (path @ ''/input_booster/head'') ''0 0 0 0 0 0'' (booster_head p);
             Some (p\<lparr>booster_tail := a, booster_head := b\<rparr>) }
      else Some p)"

type_synonym profile_table = "string \<rightharpoonup> profile"

text \<open>\<open>kProfileNameToData[name]\<close> is null for an unknown name, and copying from it a fault.\<close>

definition loadProfileImpl :: "profile_table \<Rightarrow> xml \<Rightarrow> string \<Rightarrow> profile \<Rightarrow> profile option" where
  "loadProfileImpl tab x path p0 =
     do { p1 \<leftarrow> init_sections x path p0;
          if \<not> sval (pf_enabled p1) then Some p1
          else do {
            p2 \<leftarrow> (case XML_GET_ATTR x path ''extends'' of None \<Rightarrow> Some p1 | Some parent \<Rightarrow> tab parent);
            p3 \<leftarrow> load_cpu x path p2;
            p4 \<leftarrow> load_cpusets x path p3;
            p5 \<leftarrow> load_hmp x path p4;
            p6 \<leftarrow> load_gpu x path p5;
            p7 \<leftarrow> load_kernel x path p6;
            p8 \<leftarrow> load_ipa x path p7;
            p9 \<leftarrow> load_slow x path p8;
            load_booster x path p9 } }"

section \<open>All profiles\<close>

definition profile_names :: "string list" where
  "profile_names = [''screen_off'', ''power_save'', ''bias_power_save'', ''balanced'', ''bias_performance'',
     ''performance'']"

definition kProfileNameToData :: profile_table where
  "kProfileNameToData = (\<lambda>n. if n \<in> set profile_names then Some zero_profile else None)"

fun load_names :: "xml \<Rightarrow> string list \<Rightarrow> profile_table \<Rightarrow> profile_table option" where
  "load_names x [] tab = Some tab"
| "load_names x (n # ns) tab =
     do { p0 \<leftarrow> tab n; p \<leftarrow> loadProfileImpl tab x (''/profiles/'' @ n) p0; load_names x ns (tab(n \<mapsto> p)) }"

definition loadProfilesImpl :: "xml \<Rightarrow> profile_table \<Rightarrow> profile_table option" where
  "loadProfilesImpl x tab = load_names x profile_names tab"

text \<open>\<open>parse\<close> is \<open>xmlParseFile\<close>; without any of the three files the process aborts.\<close>

definition loadProfiles :: "sysfs \<Rightarrow> (string \<Rightarrow> xml) \<Rightarrow> profile_table option" where
  "loadProfiles fs parse =
     (if isFile fs ''/data/system/power_profiles.xml'' then
        loadProfilesImpl (parse ''/data/system/power_profiles.xml'') kProfileNameToData
      else if isFile fs ''/vendor/etc/power_profiles.xml'' then
        loadProfilesImpl (parse ''/vendor/etc/power_profiles.xml'') kProfileNameToData
      else if isFile fs ''/system/etc/power_profiles.xml'' then
        loadProfilesImpl (parse ''/system/etc/power_profiles.xml'') kProfileNameToData
      else None)"

text \<open>\<open>SecPowerProfiles\<close>, and \<open>getProfileData\<close>, which is null for every other value.\<close>

definition INVALID :: int where "INVALID = - 0x80000000"
definition SCREEN_OFF :: int where "SCREEN_OFF = - 1"
definition POWER_SAVE :: int where "POWER_SAVE = 0"
definition BALANCED :: int where "BALANCED = 1"
definition HIGH_PERFORMANCE :: int where "HIGH_PERFORMANCE = 2"
definition BIAS_POWER_SAVE :: int where "BIAS_POWER_SAVE = 3"
definition BIAS_PERFORMANCE :: int where "BIAS_PERFORMANCE = 4"
definition MAX_PROFILES :: int where "MAX_PROFILES = 5"

lemmas profile_ids = INVALID_def SCREEN_OFF_def POWER_SAVE_def BALANCED_def HIGH_PERFORMANCE_def
  BIAS_POWER_SAVE_def BIAS_PERFORMANCE_def MAX_PROFILES_def

definition profile_name :: "int \<Rightarrow> string option" where
  "profile_name prof =
     (if prof = SCREEN_OFF then Some ''screen_off'' else if prof = POWER_SAVE then Some ''power_save''
      else if prof = BIAS_POWER_SAVE then Some ''bias_power_save'' else if prof = BALANCED then Some ''balanced''
      else if prof = BIAS_PERFORMANCE then Some ''bias_performance''
      else if prof = HIGH_PERFORMANCE then Some ''performance'' else None)"

definition getProfileData :: "profile_table \<Rightarrow> int \<Rightarrow> profile option" where
  "getProfileData tab prof = Option.bind (profile_name prof) tab"

end
