(* ===== verification/Power_Service.thy ===== *)
theory Power_Service
  imports Power_Profiles
begin

text \<open>
  The power service \<open>hardware/power/Power.{h,cpp}\<close>: its members, the profile it applies to the
  control files, hints, features, the interactive state. What the service leaves to detached
  threads (\<open>DELAY\<close>, \<open>ASYNC\<close>) is a list of pending actions, which a later step runs.
\<close>

section \<open>State\<close>

datatype device_variant = UNKNOWN | FLAT | EDGE

datatype pending = PApply int | PTouchkeys

record power =
  mIsInteractive :: bool
  mRequestedProfile :: int
  mCurrentProfile :: int
  mVariant :: device_variant
  mTouchControlPath :: string
  mTouchkeysEnabled :: bool
  mIsDT2WEnabled :: bool
  pw_fs :: sysfs
  pw_govs :: governors
  pw_table :: profile_table
  pw_props :: "string \<rightharpoonup> string"
  pw_pending :: "pending list"

definition POWER_DT2W_ENABLED :: string where "POWER_DT2W_ENABLED = ''/sys/class/dt2w/enabled''"
definition POWER_TOUCHKEYS_ENABLED :: string where
  "POWER_TOUCHKEYS_ENABLED = ''/sys/class/sec/sec_touchkey/input/enabled''"
definition POWER_TOUCHKEYS_BRIGHTNESS :: string where
  "POWER_TOUCHKEYS_BRIGHTNESS = ''/sys/class/sec/sec_touchkey/brightness''"
definition POWER_FINGERPRINT_PM :: string where "POWER_FINGERPRINT_PM = ''/sys/class/fingerprint/fingerprint/pm''"
definition POWER_FINGERPRINT_WAKELOCKS :: string where
  "POWER_FINGERPRINT_WAKELOCKS = ''/sys/class/fingerprint/fingerprint/wakelocks''"
definition POWER_TOUCHSCREEN_NAME :: string where "POWER_TOUCHSCREEN_NAME = ''/sys/class/input/input1/name''"
definition POWER_TOUCHSCREEN_NAME_EXPECT :: string where "POWER_TOUCHSCREEN_NAME_EXPECT = ''sec_touchscreen''"
definition POWER_TOUCHSCREEN_ENABLED_FLAT :: string where
  "POWER_TOUCHSCREEN_ENABLED_FLAT = ''/sys/class/input/input1/enabled''"
definition POWER_TOUCHSCREEN_ENABLED_EDGE :: string where
  "POWER_TOUCHSCREEN_ENABLED_EDGE = ''/sys/class/input/input0/enabled''"

section \<open>Applying a profile\<close>

text \<open>The actions of \<open>setProfile\<close>, in order. A failed \<open>UpdateGov\<close> ends the function.\<close>

datatype act = Put string string | UpdateGov int | PutGov int string string

definition bool_str :: "bool \<Rightarrow> string" where
  "bool_str b = to_string (if b then 1 else 0)"

definition uint_str :: "u32 \<Rightarrow> string" where
  "uint_str v = to_string (uint v)"

text \<open>\<open>PROFILE_WRITE\<close>\<close>

definition PROFILE_WRITE :: "('a \<Rightarrow> string) \<Rightarrow> string \<Rightarrow> 'a setting \<Rightarrow> act list" where
  "PROFILE_WRITE sh path s = (if is_set s then [Put path (sh (sval s))] else [])"

definition cluster_acts :: "int \<Rightarrow> cpu_cluster \<Rightarrow> act list" where
  "cluster_acts c cl =
     (if \<not> sval (cl_enabled cl) then []
      else PROFILE_WRITE id (cpu_path c ''/cpufreq/scaling_governor'') (cl_governor cl)
        @ [UpdateGov c]
        @ PROFILE_WRITE uint_str (cpu_path c ''/cpufreq/scaling_min_freq'') (cl_freq_min cl)
        @ PROFILE_WRITE uint_str (cpu_path c ''/cpufreq/scaling_max_freq'') (cl_freq_max cl)
        @ PROFILE_WRITE bool_str (cpu_path c ''/online'') (core1 (cl_cores cl))
        @ PROFILE_WRITE bool_str (cpu_path (c + 1) ''/online'') (core2 (cl_cores cl))
        @ PROFILE_WRITE bool_str (cpu_path (c + 2) ''/online'') (core3 (cl_cores cl))
        @ PROFILE_WRITE bool_str (cpu_path (c + 3) ''/online'') (core4 (cl_cores cl))
        @ [PutGov c ''freq_min'' (uint_str (sval (cl_freq_min cl))),
           PutGov c ''freq_max'' (uint_str (sval (cl_freq_max cl))),
           PutGov c ''hispeed_freq'' (uint_str (sval (cl_freq_hispeed cl)))]
        @ map (\<lambda>(n, d). PutGov c n d) (cl_governor_data cl))"

definition cpusets_acts :: "profile \<Rightarrow> act list" where
  "cpusets_acts p =
     (if \<not> sval (pf_cpusets_enabled p) then []
      else PROFILE_WRITE id ''/dev/cpuset/cpus'' (cps_defaults p)
        @ PROFILE_WRITE id ''/dev/cpuset/foreground/cpus'' (cps_foreground p)
        @ PROFILE_WRITE id ''/dev/cpuset/foreground/boost/cpus'' (cps_foreground_boost p)
        @ PROFILE_WRITE id ''/dev/cpuset/background/cpus'' (cps_background p)
        @ PROFILE_WRITE id ''/dev/cpuset/system-background/cpus'' (cps_system_background p)
        @ PROFILE_WRITE id ''/dev/cpuset/top-app/cpus'' (cps_top_app p))"

text \<open>
  The source writes \<open>"Y"\<close> to \<open>ipa/enabled\<close>; a string literal converts to \<open>bool\<close> before it
  converts to \<open>std::string\<close>, so the overload for truth values is called and stores \<open>1\<close>.
\<close>

definition ipa_acts :: "profile \<Rightarrow> act list" where
  "ipa_acts p =
     (if \<not> sval (pf_ipa_enabled p) then []
      else Put ''/sys/power/ipa/enabled'' (bool_str True)
        # PROFILE_WRITE to_string ''/sys/power/ipa/control_temp'' (ipa_control_temp p))"

definition gpu_acts :: "profile \<Rightarrow> act list" where
  "gpu_acts p =
     (if \<not> sval (pf_gpu_enabled p) then []
      else (if sval (dvfs_enabled p)
            then PROFILE_WRITE uint_str ''/sys/devices/14ac0000.mali/dvfs_min_lock'' (dvfs_freq_min p)
              @ PROFILE_WRITE uint_str ''/sys/devices/14ac0000.mali/dvfs_max_lock'' (dvfs_freq_max p) else [])
        @ (if sval (highspeed_enabled p)
           then PROFILE_WRITE uint_str ''/sys/devices/14ac0000.mali/highspeed_clock'' (highspeed_freq p)
             @ PROFILE_WRITE uint_str ''/sys/devices/14ac0000.mali/highspeed_load'' (highspeed_load p) else []))"

definition threshold_acts :: "string \<Rightarrow> hmp_threshold \<Rightarrow> act list" where
  "threshold_acts pre th =
     (if sval (th_enabled th)
      then PROFILE_WRITE uint_str (pre @ ''down_threshold'') (th_down th)
        @ PROFILE_WRITE uint_str (pre @ ''up_threshold'') (th_up th) else [])"

definition hmp_acts :: "profile \<Rightarrow> act list" where
  "hmp_acts p =
     (if \<not> sval (pf_hmp_enabled p) then []
      else PROFILE_WRITE bool_str ''/sys/kernel/hmp/boost'' (hmp_boost p)
        @ PROFILE_WRITE bool_str ''/sys/kernel/hmp/semiboost'' (hmp_semiboost p)
        @ PROFILE_WRITE bool_str ''/sys/kernel/hmp/power_migration'' (hmp_power_migration p)
        @ PROFILE_WRITE bool_str ''/sys/kernel/hmp/active_down_migration'' (hmp_semiboost p)
        @ PROFILE_WRITE bool_str ''/sys/kernel/hmp/aggressive_up_migration'' (hmp_aggressive_up_migration p)
        @ threshold_acts ''/sys/kernel/hmp/'' (hmp_thr p)
        @ threshold_acts ''/sys/kernel/hmp/sb_'' (hmp_sb_thr p))"

definition misc_acts :: "profile \<Rightarrow> act list" where
  "misc_acts p =
     Put ''/sys/power/enable_dm_hotplug'' (bool_str False)
     # (if sval (pf_kernel_enabled p)
        then PROFILE_WRITE bool_str ''/sys/module/workqueue/parameters/power_efficient'' (kernel_pewq p) else [])
     @ (if sval (pf_slow_enabled p)
        then PROFILE_WRITE bool_str ''/sys/devices/virtual/sec/sec_slow/enforced_slow_mode'' (slow_mode_toggle p)
          @ PROFILE_WRITE to_string ''/sys/devices/virtual/sec/sec_slow/timer_rate'' (slow_timer_rate p) else [])
     @ (if sval (pf_booster_enabled p)
        then PROFILE_WRITE id ''/sys/class/input_booster/tail'' (booster_tail p)
          @ PROFILE_WRITE id ''/sys/class/input_booster/head'' (booster_head p) else [])"

definition profile_acts :: "profile \<Rightarrow> act list" where
  "profile_acts p =
     [Put (cpu_path 0 ''/online'') (bool_str True), Put (cpu_path 4 ''/online'') (bool_str True)]
     @ (if sval (pf_cpu_enabled p) then cluster_acts 0 (pf_apollo p) @ cluster_acts 4 (pf_atlas p) else [])
     @ cpusets_acts p @ ipa_acts p @ gpu_acts p @ hmp_acts p @ misc_acts p"

fun run_acts :: "act list \<Rightarrow> sysfs \<times> governors \<Rightarrow> sysfs \<times> governors" where
  "run_acts [] s = s"
| "run_acts (Put path data # as) (fs, govs) = run_acts as (snd (write_str path data fs), govs)"
| "run_acts (PutGov core file data # as) (fs, govs) =
     run_acts as (snd (writeCpuGov core file data govs fs), govs)"
| "run_acts (UpdateGov core # as) (fs, govs) =
     (case updateCpuGov core fs govs of
        (False, govs') \<Rightarrow> (fs, govs')
      | (True, govs') \<Rightarrow> run_acts as (fs, govs'))"

text \<open>\<open>GetProperty\<close> returns the default for a property that is missing or empty.\<close>

definition isModuleEnabled :: "string \<Rightarrow> power \<Rightarrow> bool" where
  "isModuleEnabled module st \<longleftrightarrow>
     (case pw_props st (''sys.power.'' @ module) of None \<Rightarrow> True | Some v \<Rightarrow> v = [] \<or> v = ''true'')"

text \<open>\<open>data->enabled\<close> through a null pointer is a fault.\<close>

definition setProfile :: "int \<Rightarrow> power \<Rightarrow> power option" where
  "setProfile prof st =
     (let st1 = st\<lparr>mCurrentProfile := prof\<rparr>
      in if \<not> isModuleEnabled ''profiles'' st then Some st1
         else case getProfileData (pw_table st) prof of
                None \<Rightarrow> None
              | Some data \<Rightarrow>
                  if \<not> sval (pf_enabled data) then Some st1
                  else case run_acts (profile_acts data) (pw_fs st, pw_govs st) of
                         (fs, govs) \<Rightarrow> Some (st1\<lparr>pw_fs := fs, pw_govs := govs\<rparr>))"

definition setProfile_delayed :: "int \<Rightarrow> int \<Rightarrow> power \<Rightarrow> power option" where
  "setProfile_delayed prof delay st =
     (if delay \<le> 0 then setProfile prof st else Some (st\<lparr>pw_pending := pw_pending st @ [PApply prof]\<rparr>))"

definition resetProfile :: "int \<Rightarrow> power \<Rightarrow> power option" where
  "resetProfile delay st =
     setProfile_delayed (if mRequestedProfile st = INVALID then BALANCED else mRequestedProfile st) delay st"

section \<open>Inputs\<close>

definition put_bool :: "string \<Rightarrow> bool \<Rightarrow> power \<Rightarrow> power" where
  "put_bool path b st = st\<lparr>pw_fs := snd (write_bool path b (pw_fs st))\<rparr>"

definition put_int :: "string \<Rightarrow> int \<Rightarrow> power \<Rightarrow> power" where
  "put_int path v st = st\<lparr>pw_fs := snd (write_int path v (pw_fs st))\<rparr>"

definition setDT2WState :: "power \<Rightarrow> power" where
  "setDT2WState st = put_bool POWER_DT2W_ENABLED (mIsDT2WEnabled st) st"

definition setInputState :: "bool \<Rightarrow> power \<Rightarrow> power option" where
  "setInputState enabled st =
     (if enabled then
        (let st1 = (if mTouchControlPath st \<noteq> [] then put_bool (mTouchControlPath st) True st else st);
             st2 = (if mVariant st1 \<noteq> EDGE
                    then put_int POWER_TOUCHKEYS_BRIGHTNESS 255 (st1\<lparr>pw_pending := pw_pending st1 @ [PTouchkeys]\<rparr>)
                    else st1)
         in Some (setDT2WState st2))
      else
        do { st1 \<leftarrow>
               (if mVariant st \<noteq> EDGE then
                  (case read_bool (pw_fs st) POWER_TOUCHKEYS_ENABLED of
                     None \<Rightarrow> None
                   | Some r \<Rightarrow>
                       Some (put_int POWER_TOUCHKEYS_BRIGHTNESS 0
                               (put_bool POWER_TOUCHKEYS_ENABLED False
                                  (case r of None \<Rightarrow> st | Some b \<Rightarrow> st\<lparr>mTouchkeysEnabled := b\<rparr>))))
                else Some st);
             let st2 = (if mTouchControlPath st1 \<noteq> [] \<and> \<not> mIsDT2WEnabled st1
                        then put_bool (mTouchControlPath st1) False st1 else st1);
             Some (setDT2WState st2) })"

definition setFingerprintState :: "bool \<Rightarrow> power \<Rightarrow> power" where
  "setFingerprintState enabled st =
     (if enabled then put_bool POWER_FINGERPRINT_PM True (put_bool POWER_FINGERPRINT_WAKELOCKS True st)
      else put_bool POWER_FINGERPRINT_WAKELOCKS False (put_bool POWER_FINGERPRINT_PM False st))"

section \<open>The interface\<close>

definition setInteractive :: "bool \<Rightarrow> power \<Rightarrow> power option" where
  "setInteractive interactive st =
     (let st1 = st\<lparr>mIsInteractive := interactive\<rparr>
      in if interactive then
           do { st2 \<leftarrow> resetProfile 500 st1; setInputState True st2 }
         else
           do { onn \<leftarrow> screenIsOn (pw_fs st);
                if onn then Some st1
                else do { st2 \<leftarrow> setProfile SCREEN_OFF st1; setInputState False st2 } })"

datatype hint =
    SET_PROFILE | LOW_POWER | SUSTAINED_PERFORMANCE | VR_MODE | INTERACTION | LAUNCH | VSYNC | OTHER_HINT

text \<open>One cluster of \<open>boostpulse\<close>: whether the function goes on.\<close>

definition boost_cluster :: "int \<Rightarrow> int \<Rightarrow> u32 \<Rightarrow> power \<Rightarrow> bool \<times> power" where
  "boost_cluster core duration freq_boost st =
     (if freq_boost = 0 then (True, st)
      else case updateCpuGov core (pw_fs st) (pw_govs st) of
             (False, govs) \<Rightarrow> (False, st\<lparr>pw_govs := govs\<rparr>)
           | (True, govs) \<Rightarrow>
               (True, st\<lparr>pw_govs := govs,
                  pw_fs := fst (run_acts [PutGov core ''boost_freq'' (uint_str freq_boost),
                      PutGov core ''boostpulse_duration'' (to_string (signed_take_bit 31 (duration * 1000))),
                      PutGov core ''boostpulse'' (bool_str True)] (pw_fs st, govs))\<rparr>))"

definition boostpulse :: "int \<Rightarrow> power \<Rightarrow> power option" where
  "boostpulse duration st =
     (let d = (if duration \<le> 0 then (1000 div 60) * 10 else duration)
      in case getProfileData (pw_table st) (mCurrentProfile st) of
           None \<Rightarrow> None
         | Some data \<Rightarrow>
             (case boost_cluster 0 d (sval (cl_freq_boost (pf_apollo data))) st of
                (False, st1) \<Rightarrow> Some st1
              | (True, st1) \<Rightarrow> Some (snd (boost_cluster 4 d (sval (cl_freq_boost (pf_atlas data))) st1))))"

definition powerHint :: "hint \<Rightarrow> int \<Rightarrow> power \<Rightarrow> power option" where
  "powerHint h data st =
     (case h of
        SET_PROFILE \<Rightarrow> setProfile data (st\<lparr>mRequestedProfile := data\<rparr>)
      | LOW_POWER \<Rightarrow> if data \<noteq> 0 then setProfile POWER_SAVE st else resetProfile 0 st
      | SUSTAINED_PERFORMANCE \<Rightarrow> if data \<noteq> 0 then setProfile HIGH_PERFORMANCE st else resetProfile 0 st
      | VR_MODE \<Rightarrow> if data \<noteq> 0 then setProfile HIGH_PERFORMANCE st else resetProfile 0 st
      | INTERACTION \<Rightarrow> boostpulse data st
      | LAUNCH \<Rightarrow> Some st
      | VSYNC \<Rightarrow> Some st
      | OTHER_HINT \<Rightarrow> Some st)"

datatype feature = DOUBLE_TAP_TO_WAKE | SUPPORTED_PROFILES | OTHER_FEATURE

definition setFeature :: "feature \<Rightarrow> bool \<Rightarrow> power \<Rightarrow> power" where
  "setFeature f activate st =
     (case f of DOUBLE_TAP_TO_WAKE \<Rightarrow> setDT2WState (st\<lparr>mIsDT2WEnabled := activate\<rparr>) | _ \<Rightarrow> st)"

definition getFeature :: "feature \<Rightarrow> power \<Rightarrow> int" where
  "getFeature f st =
     (case f of
        SUPPORTED_PROFILES \<Rightarrow> MAX_PROFILES
      | DOUBLE_TAP_TO_WAKE \<Rightarrow>
          if isFile (pw_fs st) POWER_DT2W_ENABLED \<and> canWrite (pw_fs st) POWER_DT2W_ENABLED then 1 else 0
      | OTHER_FEATURE \<Rightarrow> - 1)"

text \<open>The constructor; without a touchscreen name the process aborts.\<close>

definition Power_new :: "sysfs \<Rightarrow> (string \<Rightarrow> xml) \<Rightarrow> (string \<rightharpoonup> string) \<Rightarrow> power option" where
  "Power_new fs parse props =
     do { name \<leftarrow> read_str fs POWER_TOUCHSCREEN_NAME;
          tab \<leftarrow> loadProfiles fs parse;
          let flat = (name = POWER_TOUCHSCREEN_NAME_EXPECT);
          let st = \<lparr>mIsInteractive = False, mRequestedProfile = BALANCED, mCurrentProfile = INVALID,
                    mVariant = (if flat then FLAT else EDGE),
                    mTouchControlPath = (if flat then POWER_TOUCHSCREEN_ENABLED_FLAT else POWER_TOUCHSCREEN_ENABLED_EDGE),
                    mTouchkeysEnabled = True, mIsDT2WEnabled = False, pw_fs = fs, pw_govs = Map.empty,
                    pw_table = tab, pw_props = props, pw_pending = []\<rparr>;
          st1 \<leftarrow> setProfile (mRequestedProfile st) st;
          st2 \<leftarrow> setInputState True st1;
          Some (setFingerprintState True st2) }"

section \<open>The service\<close>

text \<open>What the runtime answers when the interface is registered and, if it is compiled in, the one of LineageOS; an error aborts.\<close>

definition registerAsSystemService :: "int \<Rightarrow> int option \<Rightarrow> int option" where
  "registerAsSystemService ret lineage =
     (if ret \<noteq> 0 then None
      else case lineage of None \<Rightarrow> Some 0 | Some ret2 \<Rightarrow> if ret2 \<noteq> 0 then None else Some 0)"

text \<open>\<open>main\<close>: the service that the thread pool is joined with, if it is, and the exit status when the pool ends.\<close>

definition power_main ::
    "sysfs \<Rightarrow> (string \<Rightarrow> xml) \<Rightarrow> (string \<rightharpoonup> string) \<Rightarrow> int \<Rightarrow> int option \<Rightarrow> (power option \<times> int) option" where
  "power_main fs parse props ret lineage =
     do { service \<leftarrow> Power_new fs parse props;
          status \<leftarrow> registerAsSystemService ret lineage;
          Some (if status \<noteq> 0 then None else Some service, 1) }"

section \<open>Steps\<close>

text \<open>
  Calls of the interface, and detached threads that run at some later time, in any order, each to its end before the next begins. The build leaves
  \<open>LOCK_PROTECTION\<close> off, so on a device they may also overlap; the relation covers the runs in which they do not.
\<close>

definition run_pending :: "pending \<Rightarrow> power \<Rightarrow> power option" where
  "run_pending a st =
     (case a of
        PApply prof \<Rightarrow> setProfile prof st
      | PTouchkeys \<Rightarrow> Some (put_bool POWER_TOUCHKEYS_ENABLED (mTouchkeysEnabled st) st))"

inductive power_step :: "power \<Rightarrow> power \<Rightarrow> bool" where
  Interactive: "setInteractive b st = Some st' \<Longrightarrow> power_step st st'"
| Hint: "powerHint h d st = Some st' \<Longrightarrow> power_step st st'"
| Feature: "power_step st (setFeature f b st)"
| Thread: "pw_pending st = as @ a # bs \<Longrightarrow> run_pending a (st\<lparr>pw_pending := as @ bs\<rparr>) = Some st'
     \<Longrightarrow> power_step st st'"

inductive_cases power_stepE: "power_step st st'"

end
