(* ===== verification/Power_Correct.thy ===== *)
theory Power_Correct
  imports Power_Service
begin

text \<open>
  What the power service keeps and does: its calls return as long as profiles are valid numbers,
  a profile that extends another takes the parent's switches, which file ends up with which
  setting, and the race of the delayed profile reset with the screen being switched off.
\<close>

section \<open>Files\<close>

lemma write_bool_frame:
  assumes "p \<noteq> path"
  shows "snd (write_bool path b fs) p = fs p"
  using assms by (auto simp: write_bool_def write_int_def write_str_def set_text_def split: option.splits)

lemma write_int_frame:
  assumes "p \<noteq> path"
  shows "snd (write_int path v fs) p = fs p"
  using assms by (auto simp: write_int_def write_str_def set_text_def split: option.splits)

text \<open>The paths an action may write: its own, or one below the directory of the CPUs.\<close>

definition cpu_dir :: string where "cpu_dir = ''/sys/devices/system/cpu/''"

fun act_avoids :: "string \<Rightarrow> act \<Rightarrow> bool" where
  "act_avoids p (Put path data) = (p \<noteq> path)"
| "act_avoids p _ = (take (length cpu_dir) p \<noteq> cpu_dir)"

lemma take_cpu_path: "take (length cpu_dir) (cpu_path core rest) = cpu_dir"
  by (simp add: cpu_path_def cpu_dir_def)

lemma run_acts_frame: "list_all (act_avoids p) as \<Longrightarrow> fst (run_acts as (fs, govs)) p = fs p"
proof (induction as "(fs, govs)" arbitrary: fs govs rule: run_acts.induct)
  case (2 path data as fs govs)
  then show ?case by (auto simp: write_str_def set_text_def split: option.splits)
next
  case (3 core f data as fs govs)
  then have "p \<noteq> gov_path govs core f" using take_cpu_path by (auto simp: gov_path_def)
  then show ?case using 3 by (auto simp: writeCpuGov_def write_str_def set_text_def split: option.splits)
next
  case (4 core as fs govs)
  then show ?case by (auto split: prod.splits bool.splits)
qed simp

lemma cpu_path_neq: "take (length cpu_dir) p \<noteq> cpu_dir \<Longrightarrow> p \<noteq> cpu_path core rest"
  using take_cpu_path by metis

lemma list_all_PROFILE_WRITE: "p \<noteq> path \<Longrightarrow> list_all (act_avoids p) (PROFILE_WRITE sh path s)"
  by (simp add: PROFILE_WRITE_def)

lemma cluster_acts_avoid:
  assumes "take (length cpu_dir) p \<noteq> cpu_dir"
  shows "list_all (act_avoids p) (cluster_acts c cl)"
proof -
  have "list_all (act_avoids p) (map (\<lambda>(n, d). PutGov c n d) gs)" for gs
    using assms by (induction gs) auto
  then show ?thesis
    using assms cpu_path_neq [OF assms] by (simp add: cluster_acts_def list_all_PROFILE_WRITE)
qed

lemma profile_acts_avoid:
  assumes "take (length cpu_dir) p \<noteq> cpu_dir"
    and "list_all (act_avoids p) (cpusets_acts q @ ipa_acts q @ gpu_acts q @ hmp_acts q @ misc_acts q)"
  shows "list_all (act_avoids p) (profile_acts q)"
  using assms cluster_acts_avoid [OF assms(1)] cpu_path_neq [OF assms(1)] by (simp add: profile_acts_def)

definition brightness_path :: string where
  "brightness_path = ''/sys/devices/13900000.dsim/backlight/panel/brightness''"

lemmas static_acts = cpusets_acts_def ipa_acts_def gpu_acts_def hmp_acts_def misc_acts_def threshold_acts_def

lemma profile_acts_keep_brightness: "list_all (act_avoids brightness_path) (profile_acts q)"
proof (rule profile_acts_avoid)
  show "take (length cpu_dir) brightness_path \<noteq> cpu_dir" by (simp add: brightness_path_def cpu_dir_def)
  show "list_all (act_avoids brightness_path) (cpusets_acts q @ ipa_acts q @ gpu_acts q @ hmp_acts q @ misc_acts q)"
    by (simp add: static_acts list_all_PROFILE_WRITE brightness_path_def)
qed

lemma profile_acts_keep_touchkeys: "list_all (act_avoids POWER_TOUCHKEYS_ENABLED) (profile_acts q)"
proof (rule profile_acts_avoid)
  show "take (length cpu_dir) POWER_TOUCHKEYS_ENABLED \<noteq> cpu_dir"
    by (simp add: POWER_TOUCHKEYS_ENABLED_def cpu_dir_def)
  show "list_all (act_avoids POWER_TOUCHKEYS_ENABLED)
      (cpusets_acts q @ ipa_acts q @ gpu_acts q @ hmp_acts q @ misc_acts q)"
    by (simp add: static_acts list_all_PROFILE_WRITE POWER_TOUCHKEYS_ENABLED_def)
qed

section \<open>What ends up in the files\<close>

fun act_path :: "act \<Rightarrow> string" where
  "act_path (Put path data) = path"
| "act_path _ = cpu_dir"

fun is_Put :: "act \<Rightarrow> bool" where
  "is_Put (Put path data) = True"
| "is_Put _ = False"

lemma run_acts_append:
  "list_all is_Put as \<Longrightarrow> run_acts (as @ bs) s = run_acts bs (run_acts as s)"
proof (induction as arbitrary: s)
  case (Cons a as)
  then show ?case by (cases s; cases a) simp_all
qed simp

lemma run_acts_canWrite:
  "list_all is_Put as \<Longrightarrow> canWrite (fst (run_acts as s)) p = canWrite (fst s) p"
proof (induction as arbitrary: s)
  case (Cons a as)
  then show ?case
    by (cases s; cases a) (auto simp: write_str_law(4) [OF surjective_pairing])
qed simp

lemma run_acts_stores:
  assumes "list_all is_Put as" and "distinct (map act_path as)" and "Put path data \<in> set as"
    and "canWrite fs path"
  shows "map_option fn_text (fst (run_acts as (fs, govs)) path) = Some data"
proof -
  obtain xs ys where as: "as = xs @ Put path data # ys" using assms(3) by (meson split_list)
  then have puts: "list_all is_Put xs" "list_all is_Put ys" using assms(1) by auto
  obtain fs1 govs1 where r1: "run_acts xs (fs, govs) = (fs1, govs1)" by (cases "run_acts xs (fs, govs)")
  obtain r fs2 where w: "write_str path data fs1 = (r, fs2)" by (cases "write_str path data fs1")
  have "canWrite fs1 path" using run_acts_canWrite [OF puts(1), of "(fs, govs)" path] r1 assms(4) by simp
  then have stored: "map_option fn_text (fs2 path) = Some data"
    using write_str_law(1,3) [OF w] by simp
  have "path \<notin> set (map act_path ys)" using assms(2) as by auto
  then have "list_all (act_avoids path) ys" using puts(2)
  proof (induction ys)
    case (Cons a ys)
    then show ?case by (cases a) auto
  qed simp
  then have "fst (run_acts ys (fs2, govs1)) path = fs2 path" by (rule run_acts_frame)
  then show ?thesis using as puts r1 w stored by (simp add: run_acts_append)
qed

text \<open>
  What a profile asks for, file by file, in the sections other than its CPU section: the text of the setting if the section is enabled
  and the setting is set, nothing otherwise. The file for the active down migration is listed with the semiboost
  setting; \<^const>\<open>hmp_active_down_migration\<close> is in no line.
\<close>

definition want :: "bool \<Rightarrow> ('a \<Rightarrow> string) \<Rightarrow> 'a setting \<Rightarrow> string option" where
  "want enabled sh s = (if enabled \<and> is_set s then Some (sh (sval s)) else None)"

definition cpusets_files :: "profile \<Rightarrow> (string \<times> string option) list" where
  "cpusets_files p = (let on = sval (pf_cpusets_enabled p) in
     [(''/dev/cpuset/cpus'', want on id (cps_defaults p)),
      (''/dev/cpuset/foreground/cpus'', want on id (cps_foreground p)),
      (''/dev/cpuset/foreground/boost/cpus'', want on id (cps_foreground_boost p)),
      (''/dev/cpuset/background/cpus'', want on id (cps_background p)),
      (''/dev/cpuset/system-background/cpus'', want on id (cps_system_background p)),
      (''/dev/cpuset/top-app/cpus'', want on id (cps_top_app p))])"

definition ipa_gpu_files :: "profile \<Rightarrow> (string \<times> string option) list" where
  "ipa_gpu_files p =
     (let ipa = sval (pf_ipa_enabled p); dvfs = sval (pf_gpu_enabled p) \<and> sval (dvfs_enabled p);
          highspeed = sval (pf_gpu_enabled p) \<and> sval (highspeed_enabled p)
      in [(''/sys/power/ipa/enabled'', if ipa then Some ''1'' else None),
          (''/sys/power/ipa/control_temp'', want ipa to_string (ipa_control_temp p)),
          (''/sys/devices/14ac0000.mali/dvfs_min_lock'', want dvfs uint_str (dvfs_freq_min p)),
          (''/sys/devices/14ac0000.mali/dvfs_max_lock'', want dvfs uint_str (dvfs_freq_max p)),
          (''/sys/devices/14ac0000.mali/highspeed_clock'', want highspeed uint_str (highspeed_freq p)),
          (''/sys/devices/14ac0000.mali/highspeed_load'', want highspeed uint_str (highspeed_load p))])"

definition hmp_files :: "profile \<Rightarrow> (string \<times> string option) list" where
  "hmp_files p =
     (let on = sval (pf_hmp_enabled p); thr = on \<and> sval (th_enabled (hmp_thr p)); sb_thr = on \<and> sval (th_enabled (hmp_sb_thr p))
      in [(''/sys/kernel/hmp/boost'', want on bool_str (hmp_boost p)),
          (''/sys/kernel/hmp/semiboost'', want on bool_str (hmp_semiboost p)),
          (''/sys/kernel/hmp/power_migration'', want on bool_str (hmp_power_migration p)),
          (''/sys/kernel/hmp/active_down_migration'', want on bool_str (hmp_semiboost p)),
          (''/sys/kernel/hmp/aggressive_up_migration'', want on bool_str (hmp_aggressive_up_migration p)),
          (''/sys/kernel/hmp/down_threshold'', want thr uint_str (th_down (hmp_thr p))),
          (''/sys/kernel/hmp/up_threshold'', want thr uint_str (th_up (hmp_thr p))),
          (''/sys/kernel/hmp/sb_down_threshold'', want sb_thr uint_str (th_down (hmp_sb_thr p))),
          (''/sys/kernel/hmp/sb_up_threshold'', want sb_thr uint_str (th_up (hmp_sb_thr p)))])"

definition misc_files :: "profile \<Rightarrow> (string \<times> string option) list" where
  "misc_files p =
     (let slow = sval (pf_slow_enabled p); booster = sval (pf_booster_enabled p)
      in [(''/sys/power/enable_dm_hotplug'', Some ''0''),
          (''/sys/module/workqueue/parameters/power_efficient'', want (sval (pf_kernel_enabled p)) bool_str (kernel_pewq p)),
          (''/sys/devices/virtual/sec/sec_slow/enforced_slow_mode'', want slow bool_str (slow_mode_toggle p)),
          (''/sys/devices/virtual/sec/sec_slow/timer_rate'', want slow to_string (slow_timer_rate p)),
          (''/sys/class/input_booster/tail'', want booster id (booster_tail p)),
          (''/sys/class/input_booster/head'', want booster id (booster_head p))])"

definition profile_files :: "profile \<Rightarrow> (string \<times> string option) list" where
  "profile_files p = cpusets_files p @ ipa_gpu_files p @ hmp_files p @ misc_files p"

lemmas files_defs = cpusets_files_def ipa_gpu_files_def hmp_files_def misc_files_def

lemma profile_files_distinct: "distinct (map fst (profile_files p))"
  by (simp add: profile_files_def files_defs Let_def)

lemma profile_files_dir: "(path, x) \<in> set (profile_files p) \<Longrightarrow> take (length cpu_dir) path \<noteq> cpu_dir"
  by (auto simp: profile_files_def files_defs Let_def cpu_dir_def)

text \<open>The actions of these sections are the lines of the table that ask for something, in order.\<close>

definition static_of :: "profile \<Rightarrow> act list" where
  "static_of p = cpusets_acts p @ ipa_acts p @ gpu_acts p @ hmp_acts p @ misc_acts p"

fun file_acts :: "(string \<times> string option) list \<Rightarrow> act list" where
  "file_acts [] = []"
| "file_acts ((path, None) # fs) = file_acts fs"
| "file_acts ((path, Some data) # fs) = Put path data # file_acts fs"

lemma file_acts_append: "file_acts (xs @ ys) = file_acts xs @ file_acts ys"
  by (induction xs rule: file_acts.induct) simp_all

lemma file_acts_want:
  "file_acts ((path, want on sh s) # fs) = (if on then PROFILE_WRITE sh path s else []) @ file_acts fs"
  by (simp add: want_def PROFILE_WRITE_def)

lemma bool_str_simps: "bool_str True = ''1''" "bool_str False = ''0''"
  by (simp_all add: bool_str_def to_string_def dec.simps digit_char_def)

lemma static_of_files: "static_of p = file_acts (profile_files p)"
proof -
  have "cpusets_acts p = file_acts (cpusets_files p)"
    by (simp add: cpusets_acts_def cpusets_files_def file_acts_want Let_def)
  moreover have "ipa_acts p @ gpu_acts p = file_acts (ipa_gpu_files p)"
    by (simp add: ipa_acts_def gpu_acts_def ipa_gpu_files_def file_acts_want Let_def bool_str_simps)
  moreover have "hmp_acts p = file_acts (hmp_files p)"
    by (simp add: hmp_acts_def threshold_acts_def hmp_files_def file_acts_want Let_def)
  moreover have "misc_acts p = file_acts (misc_files p)"
    by (simp add: misc_acts_def misc_files_def file_acts_want Let_def bool_str_simps)
  ultimately show ?thesis by (simp add: static_of_def profile_files_def file_acts_append)
qed

lemma file_acts_puts: "list_all is_Put (file_acts fs)"
  by (induction fs rule: file_acts.induct) simp_all

lemma file_acts_set: "a \<in> set (file_acts fs) \<longleftrightarrow> (\<exists>path data. a = Put path data \<and> (path, Some data) \<in> set fs)"
  by (induction fs rule: file_acts.induct) auto

lemma file_acts_paths: "set (map act_path (file_acts fs)) \<subseteq> set (map fst fs)"
  by (force simp: file_acts_set)

lemma file_acts_distinct: "distinct (map fst fs) \<Longrightarrow> distinct (map act_path (file_acts fs))"
proof (induction fs rule: file_acts.induct)
  case (3 path data fs)
  then show ?case using file_acts_paths [of fs] by auto
qed simp_all

lemma file_acts_avoid:
  assumes "distinct (map fst fs)" and "(path, None) \<in> set fs"
  shows "list_all (act_avoids path) (file_acts fs)"
proof -
  have "(path, Some d) \<notin> set fs" for d using assms eq_key_imp_eq_value by fastforce
  then show ?thesis by (auto simp: list_all_iff file_acts_set)
qed

text \<open>The governor files the service reads back, and the actions that keep them readable.\<close>

abbreviation gov_file :: "int \<Rightarrow> string" where
  "gov_file c \<equiv> cpu_path c ''/cpufreq/scaling_governor''"

definition govs_readable :: "sysfs \<Rightarrow> bool" where
  "govs_readable fs \<longleftrightarrow> read_str fs (gov_file 0) \<noteq> None \<and> read_str fs (gov_file 4) \<noteq> None"

fun good_act :: "act \<Rightarrow> bool" where
  "good_act (Put path data) \<longleftrightarrow> (path = gov_file 0 \<or> path = gov_file 4 \<longrightarrow> data \<noteq> [])"
| "good_act (UpdateGov c) \<longleftrightarrow> c = 0 \<or> c = 4"
| "good_act (PutGov c f data) \<longleftrightarrow> True"

lemma gov_path_neq: "gov_path govs core f \<noteq> gov_file 0" "gov_path govs core f \<noteq> gov_file 4"
proof -
  let ?n = "\<lambda>s. count_list s (CHR ''/'')"
  have files: "?n (gov_file 0) = 7" "?n (gov_file 4) = 7"
    by (simp_all add: cpu_path_def to_string_def dec.simps digit_char_def)
  have "?n (gov_path govs core f) \<ge> 8" by (simp add: gov_path_def cpu_path_def)
  then show "gov_path govs core f \<noteq> gov_file 0" "gov_path govs core f \<noteq> gov_file 4" using files by auto
qed

lemma read_write_other: "write_str path data fs = (r, fs') \<Longrightarrow> q \<noteq> path \<Longrightarrow> read_str fs' q = read_str fs q"
  using write_str_law(2) [of path data fs r fs' q] by (simp add: read_str_def)

lemma read_write_same:
  "write_str path data fs = (r, fs') \<Longrightarrow> data \<noteq> [] \<Longrightarrow> read_str fs path \<noteq> None \<Longrightarrow> read_str fs' path \<noteq> None"
  by (auto simp: write_str_def set_text_def read_str_def split: if_splits option.splits)

lemma write_keeps_govs:
  assumes "write_str path data fs = (r, fs')" and "govs_readable fs"
    and "path = gov_file 0 \<or> path = gov_file 4 \<longrightarrow> data \<noteq> []"
  shows "govs_readable fs'"
proof -
  have "read_str fs' q \<noteq> None" if "read_str fs q \<noteq> None" "path = q \<longrightarrow> data \<noteq> []" for q
    using read_write_other [OF assms(1), of q] read_write_same [OF assms(1)] that by (cases "q = path") auto
  then show ?thesis using assms(2,3) by (simp add: govs_readable_def)
qed

lemma run_acts_good:
  assumes "list_all good_act as" and "govs_readable fs"
  shows "\<exists>fs' govs'. run_acts as (fs, govs) = (fs', govs') \<and> govs_readable fs'
      \<and> (\<forall>p. canWrite fs' p = canWrite fs p) \<and> (\<forall>bs. run_acts (as @ bs) (fs, govs) = run_acts bs (fs', govs'))"
  using assms
proof (induction as arbitrary: fs govs)
  case (Cons a as)
  show ?case
  proof (cases a)
    case (Put path data)
    obtain r fs1 where w: "write_str path data fs = (r, fs1)" by (cases "write_str path data fs")
    have "govs_readable fs1" using write_keeps_govs [OF w Cons.prems(2)] Cons.prems(1) Put by simp
    from Cons.IH [OF _ this, of govs] show ?thesis using Put w Cons.prems(1) write_str_law(4) [OF w] by simp
  next
    case (UpdateGov c)
    then obtain govs1 where "updateCpuGov c fs govs = (True, govs1)"
      using Cons.prems by (auto simp: updateCpuGov_def govs_readable_def NR_CPUS_def)
    then show ?thesis using Cons.IH [OF _ Cons.prems(2), of govs1] Cons.prems(1) UpdateGov by simp
  next
    case (PutGov c f data)
    obtain r fs1 where w: "writeCpuGov c f data govs fs = (r, fs1)" by (cases "writeCpuGov c f data govs fs")
    then have "govs_readable fs1 \<and> (\<forall>p. canWrite fs1 p = canWrite fs p)"
      using write_keeps_govs [OF _ Cons.prems(2)] gov_path_neq [of govs c f] write_str_law(4) Cons.prems(2)
      by (auto simp: writeCpuGov_def split: if_splits)
    then show ?thesis using Cons.IH [of fs1 govs] PutGov w Cons.prems(1) by simp
  qed
qed simp

definition governors_named :: "profile \<Rightarrow> bool" where
  "governors_named p \<longleftrightarrow>
     sval (cl_governor (pf_apollo p)) \<noteq> [] \<and> sval (cl_governor (pf_atlas p)) \<noteq> []"

lemma to_string_nonempty: "to_string v \<noteq> []"
  by (simp add: to_string_def dec_digits(2))

lemma PROFILE_WRITE_good: "sh (sval s) \<noteq> [] \<Longrightarrow> list_all good_act (PROFILE_WRITE sh path s)"
  by (simp add: PROFILE_WRITE_def)

lemma cluster_acts_good:
  assumes "c = 0 \<or> c = 4" and "sval (cl_governor cl) \<noteq> []"
  shows "list_all good_act (cluster_acts c cl)"
proof -
  have "list_all good_act (map (\<lambda>(n, d). PutGov c n d) gs)" for gs by (induction gs) auto
  then show ?thesis
    using assms by (simp add: cluster_acts_def PROFILE_WRITE_good uint_str_def bool_str_def to_string_nonempty)
qed

text \<open>The actions before the static ones, under the condition that the function gets past them.\<close>

definition cpu_ready :: "profile \<Rightarrow> sysfs \<Rightarrow> bool" where
  "cpu_ready p fs \<longleftrightarrow> (sval (pf_cpu_enabled p) \<longrightarrow> govs_readable fs \<and> governors_named p)"

lemma profile_acts_reach_static:
  assumes "cpu_ready p fs"
  shows "\<exists>fs' govs'. run_acts (profile_acts p) (fs, govs) = run_acts (static_of p) (fs', govs')
      \<and> (\<forall>q. canWrite fs' q = canWrite fs q)"
proof (cases "sval (pf_cpu_enabled p)")
  case True
  let ?as = "[Put (cpu_path 0 ''/online'') (bool_str True), Put (cpu_path 4 ''/online'') (bool_str True)]
    @ cluster_acts 0 (pf_apollo p) @ cluster_acts 4 (pf_atlas p)"
  have "list_all good_act ?as" "govs_readable fs"
    using assms True
    by (simp_all add: cluster_acts_good governors_named_def bool_str_def to_string_nonempty cpu_ready_def)
  from run_acts_good [OF this, of govs] obtain fs' govs' where
    "run_acts (?as @ static_of p) (fs, govs) = run_acts (static_of p) (fs', govs')" "\<forall>q. canWrite fs' q = canWrite fs q"
    by blast
  then show ?thesis using True by (auto simp: profile_acts_def static_of_def)
next
  case False
  let ?as = "[Put (cpu_path 0 ''/online'') (bool_str True), Put (cpu_path 4 ''/online'') (bool_str True)]"
  have puts: "list_all is_Put ?as" by simp
  obtain fs' govs' where r: "run_acts ?as (fs, govs) = (fs', govs')" by (cases "run_acts ?as (fs, govs)")
  have "profile_acts p = ?as @ static_of p" using False by (simp add: profile_acts_def static_of_def)
  then show ?thesis
    using run_acts_append [OF puts, of "static_of p" "(fs, govs)"] run_acts_canWrite [OF puts, of "(fs, govs)"] r
    by (metis fst_conv)
qed

text \<open>
  Property C26. Applying an enabled profile, for which, if it has a CPU section, the governors can be read and are named: afterwards each of the
  27 control files of the cpusets, IPA, GPU, HMP, kernel, slow mode and input booster sections that can be written holds the text that the
  table \<open>profile_files\<close> lists for it, and each of them for which nothing is listed (section disabled or setting not set) is as before. By the table,
  the file of the active down migration gets the semiboost setting, and the setting for the active down migration is not written anywhere. The control
  files are taken to store what is written to them.
\<close>

theorem profile_settings_stored:
  assumes "isModuleEnabled ''profiles'' st" and "getProfileData (pw_table st) prof = Some p"
    and "sval (pf_enabled p)" and "cpu_ready p (pw_fs st)"
  shows "\<exists>st'. setProfile prof st = Some st' \<and> mCurrentProfile st' = prof
    \<and> (\<forall>(path, x) \<in> set (profile_files p).
         case x of None \<Rightarrow> pw_fs st' path = pw_fs st path
         | Some data \<Rightarrow> canWrite (pw_fs st) path \<longrightarrow> map_option fn_text (pw_fs st' path) = Some data)"
proof -
  from profile_acts_reach_static [OF assms(4), of "pw_govs st"] obtain fs1 govs1 where
    r: "run_acts (profile_acts p) (pw_fs st, pw_govs st) = run_acts (static_of p) (fs1, govs1)"
    and cw: "\<forall>q. canWrite fs1 q = canWrite (pw_fs st) q"
    by blast
  obtain fs2 govs2 where r2: "run_acts (static_of p) (fs1, govs1) = (fs2, govs2)"
    by (cases "run_acts (static_of p) (fs1, govs1)")
  have st': "setProfile prof st = Some (st\<lparr>mCurrentProfile := prof, pw_fs := fs2, pw_govs := govs2\<rparr>)"
    using assms r r2 by (simp add: setProfile_def)
  have stored: "map_option fn_text (fs2 path) = Some data"
    if "(path, Some data) \<in> set (profile_files p)" "canWrite (pw_fs st) path" for path data
    using run_acts_stores [OF file_acts_puts file_acts_distinct [OF profile_files_distinct], of path data p fs1 govs1]
      that r2 cw by (simp add: static_of_files file_acts_set)
  have kept: "fs2 path = pw_fs st path" if "(path, None) \<in> set (profile_files p)" for path
    using run_acts_frame [OF profile_acts_avoid [OF profile_files_dir [OF that]], of p "pw_fs st" "pw_govs st"]
      file_acts_avoid [OF profile_files_distinct that] r r2 by (simp add: static_of_def flip: static_of_files)
  show ?thesis using st' stored kept by (auto split: option.split)
qed

section \<open>The calls return\<close>

definition valid_profile :: "int \<Rightarrow> bool" where
  "valid_profile prof \<longleftrightarrow> - 1 \<le> prof \<and> prof \<le> 4"

text \<open>
  The state of the service: all six profiles are there, the profiles it holds are valid, and
  the two files it parses as numbers, if they can be read, hold numbers.
\<close>

definition power_inv :: "power \<Rightarrow> bool" where
  "power_inv st \<longleftrightarrow>
     set profile_names \<subseteq> dom (pw_table st) \<and> valid_profile (mCurrentProfile st)
     \<and> (mRequestedProfile st = INVALID \<or> valid_profile (mRequestedProfile st))
     \<and> (\<forall>prof. PApply prof \<in> set (pw_pending st) \<longrightarrow> valid_profile prof)
     \<and> read_int (pw_fs st) brightness_path \<noteq> None \<and> read_int (pw_fs st) POWER_TOUCHKEYS_ENABLED \<noteq> None"

lemma getProfileData_valid:
  assumes "set profile_names \<subseteq> dom tab" and "valid_profile prof"
  shows "\<exists>data. getProfileData tab prof = Some data"
proof -
  have "prof = - 1 \<or> prof = 0 \<or> prof = 1 \<or> prof = 2 \<or> prof = 3 \<or> prof = 4"
    using assms(2) unfolding valid_profile_def by linarith
  then have "\<exists>n \<in> set profile_names. profile_name prof = Some n"
    by (elim disjE) (simp_all add: profile_name_def profile_ids profile_names_def)
  then show ?thesis using assms(1) by (auto simp: getProfileData_def dom_def)
qed

lemma getProfileData_invalid: "\<not> valid_profile prof \<Longrightarrow> getProfileData tab prof = None"
  by (auto simp: getProfileData_def profile_name_def profile_ids valid_profile_def)

lemma read_int_cong: "fs' p = fs p \<Longrightarrow> read_int fs' p = read_int fs p"
  by (simp add: read_int_def read_str_def)

lemma setProfile_returns:
  assumes "power_inv st" and "valid_profile prof"
  shows "\<exists>st'. setProfile prof st = Some st' \<and> power_inv st' \<and> mCurrentProfile st' = prof
    \<and> pw_pending st' = pw_pending st \<and> mIsInteractive st' = mIsInteractive st
    \<and> mRequestedProfile st' = mRequestedProfile st"
proof -
  have "set profile_names \<subseteq> dom (pw_table st)" using assms(1) by (simp add: power_inv_def)
  then obtain data where data: "getProfileData (pw_table st) prof = Some data"
    using getProfileData_valid assms(2) by blast
  obtain fs govs where run: "run_acts (profile_acts data) (pw_fs st, pw_govs st) = (fs, govs)"
    by (cases "run_acts (profile_acts data) (pw_fs st, pw_govs st)")
  then have "fs brightness_path = pw_fs st brightness_path"
    "fs POWER_TOUCHKEYS_ENABLED = pw_fs st POWER_TOUCHKEYS_ENABLED"
    using run_acts_frame [OF profile_acts_keep_brightness, of data "pw_fs st" "pw_govs st"]
      run_acts_frame [OF profile_acts_keep_touchkeys, of data "pw_fs st" "pw_govs st"] by simp_all
  note same = this [THEN read_int_cong [where fs' = fs and fs = "pw_fs st"]]
  show ?thesis
    using assms data run same by (auto simp: setProfile_def Let_def power_inv_def)
qed

lemma stoi_number: "stoi (takeWhile (\<lambda>c. c \<noteq> CHR 0x0A) (to_string (if b then 1 else 0))) \<noteq> None"
proof -
  define n :: nat where "n = (if b then 1 else 0)"
  have "to_string (if b then 1 else 0) = dec n" by (simp add: to_string_def n_def)
  moreover have "takeWhile (\<lambda>c. c \<noteq> CHR 0x0A) (dec n) = dec n"
    using dec_digits(1) [of n] by (auto simp: takeWhile_eq_all_conv list_all_iff c_isdigit_def less_eq_char_def)
  moreover have "scan_int (dec n) = (Some (int n), [])" using scan_int_dec [of "[]" "[]" n] by simp
  moreover have "stoi (dec n) \<noteq> None" if "scan_int (dec n) = (Some (int n), [])"
    using that by (simp add: stoi_def) (simp add: n_def)
  ultimately show ?thesis by metis
qed

lemma read_int_write_bool:
  "read_int fs p \<noteq> None \<Longrightarrow> read_int (snd (write_bool path b fs)) p \<noteq> None"
proof (cases "p = path")
  case True
  assume "read_int fs p \<noteq> None"
  then show ?thesis
    using True stoi_number [of b]
    by (auto simp: read_int_def read_str_def write_bool_def write_int_def write_str_def set_text_def
        split: option.splits if_splits)
next
  case False
  assume "read_int fs p \<noteq> None"
  then show ?thesis
    using read_int_cong [where fs = fs and p = p and fs' = "snd (write_bool path b fs)", OF write_bool_frame [OF False]]
    by simp
qed

lemma power_inv_put_bool: "power_inv st \<Longrightarrow> power_inv (put_bool path b st)"
  using read_int_write_bool by (simp add: power_inv_def put_bool_def)

lemma power_inv_put_int:
  "power_inv st \<Longrightarrow> power_inv (put_int POWER_TOUCHKEYS_BRIGHTNESS v st)"
proof -
  have "brightness_path \<noteq> POWER_TOUCHKEYS_BRIGHTNESS" "POWER_TOUCHKEYS_ENABLED \<noteq> POWER_TOUCHKEYS_BRIGHTNESS"
    by (simp_all add: brightness_path_def POWER_TOUCHKEYS_BRIGHTNESS_def POWER_TOUCHKEYS_ENABLED_def)
  then have same: "read_int (snd (write_int POWER_TOUCHKEYS_BRIGHTNESS v fs)) p = read_int fs p"
    if "p \<in> {brightness_path, POWER_TOUCHKEYS_ENABLED}" for fs p
    using that by (intro read_int_cong write_int_frame) auto
  show "power_inv st \<Longrightarrow> power_inv (put_int POWER_TOUCHKEYS_BRIGHTNESS v st)"
    by (simp add: power_inv_def put_int_def same)
qed

lemma setInputState_returns:
  assumes "power_inv st"
  shows "\<exists>st'. setInputState b st = Some st' \<and> power_inv st'"
proof (cases b)
  case True
  have "power_inv (st1\<lparr>pw_pending := pw_pending st1 @ [PTouchkeys]\<rparr>)" if "power_inv st1" for st1
    using that by (auto simp: power_inv_def)
  then show ?thesis
    using True assms by (auto simp: setInputState_def setDT2WState_def Let_def intro!: power_inv_put_bool power_inv_put_int)
next
  case False
  obtain r where r: "read_bool (pw_fs st) POWER_TOUCHKEYS_ENABLED = Some r"
    using assms by (auto simp: power_inv_def read_bool_def)
  have "power_inv (case r of None \<Rightarrow> st | Some b \<Rightarrow> st\<lparr>mTouchkeysEnabled := b\<rparr>)"
    using assms by (auto simp: power_inv_def split: option.splits)
  then show ?thesis
    using False assms r
    by (auto simp: setInputState_def setDT2WState_def Let_def intro!: power_inv_put_bool power_inv_put_int)
qed

lemma resetProfile_returns:
  assumes "power_inv st"
  shows "\<exists>st'. resetProfile delay st = Some st' \<and> power_inv st'"
proof -
  let ?prof = "if mRequestedProfile st = INVALID then BALANCED else mRequestedProfile st"
  have valid: "valid_profile ?prof"
    using assms by (auto simp: power_inv_def valid_profile_def BALANCED_def)
  have "power_inv (st\<lparr>pw_pending := pw_pending st @ [PApply ?prof]\<rparr>)"
    using assms valid by (auto simp: power_inv_def split: if_splits)
  then show ?thesis
    using setProfile_returns [OF assms valid] by (auto simp: resetProfile_def setProfile_delayed_def)
qed

lemma power_inv_upd:
  "power_inv st \<Longrightarrow> power_inv (st\<lparr>mIsInteractive := b\<rparr>)" "power_inv st \<Longrightarrow> power_inv (st\<lparr>mIsDT2WEnabled := b\<rparr>)"
  "power_inv st \<Longrightarrow> valid_profile d \<Longrightarrow> power_inv (st\<lparr>mRequestedProfile := d\<rparr>)"
  by (simp_all add: power_inv_def)

lemma setInteractive_returns:
  assumes "power_inv st"
  shows "\<exists>st'. setInteractive b st = Some st' \<and> power_inv st'"
proof (cases b)
  case True
  obtain st2 where "resetProfile 500 (st\<lparr>mIsInteractive := True\<rparr>) = Some st2" "power_inv st2"
    using resetProfile_returns [OF power_inv_upd(1) [OF assms]] by blast
  then show ?thesis using True setInputState_returns by (simp add: setInteractive_def Let_def)
next
  case False
  obtain onn where onn: "screenIsOn (pw_fs st) = Some onn"
    using assms by (auto simp: power_inv_def screenIsOn_def brightness_path_def)
  have valid: "valid_profile SCREEN_OFF" by (simp add: valid_profile_def SCREEN_OFF_def)
  obtain st2 where "setProfile SCREEN_OFF (st\<lparr>mIsInteractive := False\<rparr>) = Some st2" "power_inv st2"
    using setProfile_returns [OF power_inv_upd(1) [OF assms] valid] by blast
  then show ?thesis
    using False onn setInputState_returns [of st2 False] power_inv_upd(1) [OF assms]
    by (auto simp: setInteractive_def Let_def)
qed

lemma powerHint_returns:
  assumes "power_inv st" and "h = SET_PROFILE \<Longrightarrow> valid_profile d"
  shows "\<exists>st'. powerHint h d st = Some st' \<and> power_inv st'"
proof -
  have valid: "valid_profile POWER_SAVE" "valid_profile HIGH_PERFORMANCE"
    by (simp_all add: valid_profile_def profile_ids)
  have keep: "power_inv (snd (boost_cluster c t f st1))" if "power_inv st1" "c \<in> {0, 4}" for c t f st1
  proof -
    let ?as = "\<lambda>a x a' x' a'' x''. [PutGov c a x, PutGov c a' x', PutGov c a'' x'']"
    have "list_all (act_avoids p) (?as a x a' x' a'' x'')"
      if "p = brightness_path \<or> p = POWER_TOUCHKEYS_ENABLED" for p a a' a'' x x' x''
      using that by (elim disjE) (simp_all add: brightness_path_def POWER_TOUCHKEYS_ENABLED_def cpu_dir_def)
    then have same: "read_int (fst (run_acts (?as a x a' x' a'' x'') (fs, gv))) p = read_int fs p"
      if "p = brightness_path \<or> p = POWER_TOUCHKEYS_ENABLED" for p a a' a'' x x' x'' fs gv
      using that by (intro read_int_cong run_acts_frame) blast
    show ?thesis
      using that(1) unfolding boost_cluster_def
      by (auto simp: power_inv_def same split: prod.splits bool.splits simp del: run_acts.simps)
  qed
  have "\<exists>st'. boostpulse d st = Some st' \<and> power_inv st'"
  proof -
    obtain data where "getProfileData (pw_table st) (mCurrentProfile st) = Some data"
      using getProfileData_valid assms(1) unfolding power_inv_def by blast
    moreover define t where "t = (if d \<le> 0 then (1000 div 60) * 10 else d)"
    moreover obtain b st1 where st1: "boost_cluster 0 t (sval (cl_freq_boost (pf_apollo data))) st = (b, st1)"
      by (cases "boost_cluster 0 t (sval (cl_freq_boost (pf_apollo data))) st")
    moreover have "power_inv st1" using keep [OF assms(1), of 0 t] st1 by (metis insertI1 snd_conv)
    moreover from this have "power_inv (snd (boost_cluster 4 t f st1))" for f using keep by simp
    ultimately show ?thesis by (cases b) (simp_all add: boostpulse_def Let_def t_def [symmetric])
  qed
  then show ?thesis
    using setProfile_returns [OF assms(1) valid(1)] setProfile_returns [OF assms(1) valid(2)]
      resetProfile_returns [OF assms(1), of 0] setProfile_returns [OF power_inv_upd(3) [OF assms(1)], of d d] assms
    by (cases h) (auto simp: powerHint_def)
qed

section \<open>Loading\<close>

text \<open>The switches of a profile and of its sections.\<close>

definition switches :: "profile \<Rightarrow> bool list" where
  "switches p = map sval [pf_enabled p, pf_cpu_enabled p, cl_enabled (pf_apollo p), co_enabled (cl_cores (pf_apollo p)),
     cl_enabled (pf_atlas p), co_enabled (cl_cores (pf_atlas p)), pf_cpusets_enabled p, pf_hmp_enabled p,
     th_enabled (hmp_thr p), th_enabled (hmp_sb_thr p), pf_gpu_enabled p, dvfs_enabled p, highspeed_enabled p,
     pf_kernel_enabled p, pf_ipa_enabled p, pf_slow_enabled p, pf_booster_enabled p]"

lemma cluster_switches:
  "XML_GET_CPUCLUSTER x path f cl = Some cl' \<Longrightarrow>
     cl_enabled cl' = cl_enabled cl \<and> co_enabled (cl_cores cl') = co_enabled (cl_cores cl)"
  by (auto simp: XML_GET_CPUCLUSTER_def Option.bind_eq_Some_conv split: if_splits)

lemma gov_switches:
  "XML_GET_CPUGOV x path cl = Some cl' \<Longrightarrow>
     cl_enabled cl' = cl_enabled cl \<and> co_enabled (cl_cores cl') = co_enabled (cl_cores cl)"
  by (auto simp: XML_GET_CPUGOV_def split: option.splits if_splits)

lemma load_cpu_switches: "load_cpu x path p = Some p' \<Longrightarrow> switches p' = switches p"
  by (auto simp: load_cpu_def switches_def Option.bind_eq_Some_conv split: if_splits dest!: cluster_switches gov_switches)

lemma load_cpusets_switches: "load_cpusets x path p = Some p' \<Longrightarrow> switches p' = switches p"
  by (auto simp: load_cpusets_def switches_def Option.bind_eq_Some_conv split: if_splits)

lemma load_hmp_switches: "load_hmp x path p = Some p' \<Longrightarrow> switches p' = switches p"
  by (auto simp: load_hmp_def load_threshold_def switches_def Option.bind_eq_Some_conv split: if_splits)

lemma load_dvfs_switches: "load_dvfs x path p = Some p' \<Longrightarrow> switches p' = switches p"
  by (auto simp: load_dvfs_def switches_def Option.bind_eq_Some_conv split: if_splits)

lemma load_highspeed_switches: "load_highspeed x path p = Some p' \<Longrightarrow> switches p' = switches p"
  by (auto simp: load_highspeed_def switches_def Option.bind_eq_Some_conv split: if_splits)

lemma load_gpu_switches: "load_gpu x path p = Some p' \<Longrightarrow> switches p' = switches p"
  by (auto simp: load_gpu_def Option.bind_eq_Some_conv split: if_splits
      dest!: load_dvfs_switches load_highspeed_switches)

lemma load_kernel_switches: "load_kernel x path p = Some p' \<Longrightarrow> switches p' = switches p"
  by (auto simp: load_kernel_def switches_def split: if_splits)

lemma load_ipa_switches: "load_ipa x path p = Some p' \<Longrightarrow> switches p' = switches p"
  by (auto simp: load_ipa_def switches_def split: if_splits)

lemma load_slow_switches: "load_slow x path p = Some p' \<Longrightarrow> switches p' = switches p"
  by (auto simp: load_slow_def switches_def Option.bind_eq_Some_conv split: if_splits)

lemma load_booster_switches: "load_booster x path p = Some p' \<Longrightarrow> switches p' = switches p"
  by (auto simp: load_booster_def switches_def Option.bind_eq_Some_conv split: if_splits)

lemmas load_switches = load_cpu_switches load_cpusets_switches load_hmp_switches load_gpu_switches
  load_kernel_switches load_ipa_switches load_slow_switches load_booster_switches

section \<open>The delayed reset\<close>

lemma setInputState_keeps:
  assumes "setInputState b st = Some st'"
  shows "mIsInteractive st' = mIsInteractive st" and "mCurrentProfile st' = mCurrentProfile st"
    and "mRequestedProfile st' = mRequestedProfile st" and "\<exists>ps. pw_pending st' = pw_pending st @ ps"
    and "mTouchControlPath st' = mTouchControlPath st"
    and "mTouchControlPath st \<noteq> brightness_path \<Longrightarrow> pw_fs st' brightness_path = pw_fs st brightness_path"
proof -
  have ne: "brightness_path \<noteq> POWER_TOUCHKEYS_BRIGHTNESS" "brightness_path \<noteq> POWER_TOUCHKEYS_ENABLED"
    "brightness_path \<noteq> POWER_DT2W_ENABLED"
    by (simp_all add: brightness_path_def POWER_TOUCHKEYS_BRIGHTNESS_def POWER_TOUCHKEYS_ENABLED_def
        POWER_DT2W_ENABLED_def)
  note frames = ne [THEN write_int_frame] ne [THEN write_bool_frame]
  show "mIsInteractive st' = mIsInteractive st" "mCurrentProfile st' = mCurrentProfile st"
    "mRequestedProfile st' = mRequestedProfile st" "\<exists>ps. pw_pending st' = pw_pending st @ ps"
    "mTouchControlPath st' = mTouchControlPath st"
    using assms by (auto simp: setInputState_def setDT2WState_def put_bool_def put_int_def Let_def
        split: if_splits option.splits bind_splits)
  assume "mTouchControlPath st \<noteq> brightness_path"
  then have "snd (write_bool (mTouchControlPath st) b fs) brightness_path = fs brightness_path" for b fs
    by (intro write_bool_frame) auto
  then show "pw_fs st' brightness_path = pw_fs st brightness_path"
    using assms frames
    by (auto simp: setInputState_def setDT2WState_def put_bool_def put_int_def Let_def
        split: if_splits option.splits bind_splits)
qed

section \<open>Properties\<close>

text \<open>
  Property C25. The service's invariant (all profiles loaded, current, requested and pending
  profiles valid, the files it parses well-formed) is kept by every call and by every detached
  thread, and under it each of them returns: no null profile is dereferenced and no exception
  escapes, provided \<open>SET_PROFILE\<close> is only given a valid profile.
\<close>

theorem power_calls_return:
  assumes "power_inv st"
  shows "(\<forall>b. \<exists>st'. setInteractive b st = Some st' \<and> power_inv st')
    \<and> (\<forall>h d. (h = SET_PROFILE \<longrightarrow> valid_profile d) \<longrightarrow> (\<exists>st'. powerHint h d st = Some st' \<and> power_inv st'))
    \<and> (\<forall>f b. power_inv (setFeature f b st))
    \<and> (\<forall>as a bs. pw_pending st = as @ a # bs \<longrightarrow>
         (\<exists>st'. run_pending a (st\<lparr>pw_pending := as @ bs\<rparr>) = Some st' \<and> power_inv st'))"
proof (intro conjI allI impI)
  show "\<exists>st'. setInteractive b st = Some st' \<and> power_inv st'" for b
    by (rule setInteractive_returns [OF assms])
  show "\<exists>st'. powerHint h d st = Some st' \<and> power_inv st'" if "h = SET_PROFILE \<longrightarrow> valid_profile d" for h d
    using powerHint_returns [OF assms] that by blast
  show "power_inv (setFeature f b st)" for f b
    using assms by (cases f) (simp_all add: setFeature_def setDT2WState_def power_inv_put_bool power_inv_upd)
  show "\<exists>st'. run_pending a (st\<lparr>pw_pending := as @ bs\<rparr>) = Some st' \<and> power_inv st'"
    if "pw_pending st = as @ a # bs" for as a bs
  proof -
    have inv: "power_inv (st\<lparr>pw_pending := as @ bs\<rparr>)" using assms that by (auto simp: power_inv_def)
    show ?thesis
    proof (cases a)
      case (PApply prof)
      then have "valid_profile prof" using assms that by (auto simp: power_inv_def)
      then show ?thesis using PApply setProfile_returns [OF inv] by (auto simp: run_pending_def)
    next
      case PTouchkeys
      then show ?thesis using power_inv_put_bool [OF inv] by (simp add: run_pending_def)
    qed
  qed
qed

definition sample_power :: power where
  "sample_power = \<lparr>mIsInteractive = False, mRequestedProfile = BALANCED, mCurrentProfile = BALANCED, mVariant = EDGE,
     mTouchControlPath = POWER_TOUCHSCREEN_ENABLED_EDGE, mTouchkeysEnabled = True, mIsDT2WEnabled = False,
     pw_fs = [brightness_path \<mapsto> \<lparr>fn_mode = S_IFREG, fn_read = True, fn_write = True, fn_exec = False, fn_text = ''0''\<rparr>],
     pw_govs = Map.empty, pw_table = kProfileNameToData, pw_props = Map.empty, pw_pending = []\<rparr>"

lemma sample_brightness: "read_int (pw_fs sample_power) brightness_path = Some (Some 0)"
  by (simp add: sample_power_def read_int_def read_str_def stoi_def scan_int_def skip_ws_def c_isspace_def split_sign_def
      c_isdigit_def less_eq_char_def digit_val_def)

lemma sample_power_inv: "power_inv sample_power"
proof -
  have "brightness_path \<noteq> POWER_TOUCHKEYS_ENABLED" by (simp add: brightness_path_def POWER_TOUCHKEYS_ENABLED_def)
  then have "read_int (pw_fs sample_power) POWER_TOUCHKEYS_ENABLED = Some None"
    by (simp add: sample_power_def read_int_def read_str_def)
  then show ?thesis
    using sample_brightness
    by (simp add: power_inv_def) (auto simp: sample_power_def kProfileNameToData_def valid_profile_def BALANCED_def)
qed

theorem power_calls_return_witness:
  "\<exists>st'. powerHint SET_PROFILE 4 sample_power = Some st' \<and> power_inv st'"
  using power_calls_return [OF sample_power_inv] by (simp add: valid_profile_def)

lemma zero_profile_off:
  "\<not> sval (pf_cpu_enabled zero_profile)" "\<not> sval (pf_cpusets_enabled zero_profile)" "\<not> sval (pf_hmp_enabled zero_profile)"
  "\<not> sval (pf_gpu_enabled zero_profile)" "\<not> sval (pf_kernel_enabled zero_profile)" "\<not> sval (pf_ipa_enabled zero_profile)"
  "\<not> sval (pf_slow_enabled zero_profile)" "\<not> sval (pf_booster_enabled zero_profile)"
  by (simp_all add: zero_profile_def)

definition hmp_profile :: profile where
  "hmp_profile = zero_profile\<lparr>pf_enabled := (True, True), pf_hmp_enabled := (True, True), hmp_semiboost := (True, True)\<rparr>"

definition hmp_power :: power where
  "hmp_power = sample_power\<lparr>pw_table := kProfileNameToData(''balanced'' \<mapsto> hmp_profile),
     pw_fs := [''/sys/kernel/hmp/active_down_migration'' \<mapsto>
       \<lparr>fn_mode = S_IFREG, fn_read = True, fn_write = True, fn_exec = False, fn_text = ''0''\<rparr>]\<rparr>"

theorem profile_settings_stored_witness:
  "\<exists>st'. setProfile BALANCED hmp_power = Some st'
     \<and> map_option fn_text (pw_fs st' ''/sys/kernel/hmp/active_down_migration'') = Some (bool_str True)"
proof -
  have prof: "sval (pf_enabled hmp_profile)" "sval (pf_hmp_enabled hmp_profile)" "hmp_semiboost hmp_profile = (True, True)"
    "\<not> sval (pf_cpu_enabled hmp_profile)"
    by (simp_all add: hmp_profile_def zero_profile_off)
  have "isModuleEnabled ''profiles'' hmp_power" "getProfileData (pw_table hmp_power) BALANCED = Some hmp_profile"
    "canWrite (pw_fs hmp_power) ''/sys/kernel/hmp/active_down_migration''"
    by (simp_all add: isModuleEnabled_def hmp_power_def sample_power_def getProfileData_def profile_name_def profile_ids
        canWrite_def)
  moreover have "(''/sys/kernel/hmp/active_down_migration'', Some (bool_str True)) \<in> set (profile_files hmp_profile)"
    using prof by (simp add: profile_files_def hmp_files_def want_def Let_def)
  ultimately show ?thesis
    using profile_settings_stored [of hmp_power BALANCED hmp_profile] prof by (fastforce simp: cpu_ready_def)
qed

text \<open>
  A hint \<open>SET_PROFILE\<close> with a number that is not a profile ends in a null
  dereference: at once if the profiles are enabled, and at the next interaction hint if the
  user has disabled them.
\<close>

theorem invalid_profile_crashes:
  assumes "\<not> valid_profile d"
  shows "(isModuleEnabled ''profiles'' st \<longrightarrow> powerHint SET_PROFILE d st = None)
    \<and> (\<not> isModuleEnabled ''profiles'' st \<longrightarrow>
         (\<exists>st'. powerHint SET_PROFILE d st = Some st' \<and> powerHint INTERACTION n st' = None))"
proof -
  have "isModuleEnabled ''profiles'' (st\<lparr>mRequestedProfile := d\<rparr>) = isModuleEnabled ''profiles'' st"
    by (simp add: isModuleEnabled_def)
  then show ?thesis
    using getProfileData_invalid [OF assms] by (simp add: powerHint_def setProfile_def boostpulse_def Let_def)
qed

theorem invalid_profile_crashes_witness: "powerHint SET_PROFILE 5 sample_power = None"
proof -
  have "isModuleEnabled ''profiles'' sample_power" by (simp add: isModuleEnabled_def sample_power_def)
  then show ?thesis using invalid_profile_crashes [of 5 sample_power] by (simp add: valid_profile_def)
qed

text \<open>
  Switching the screen on and off again within the delay of the profile reset
  leaves the requested profile applied while the device is not interactive: the pending reset
  runs after the profile for the screen being off was set.
\<close>

theorem stale_profile_reset:
  assumes inv: "power_inv st" and req: "valid_profile (mRequestedProfile st)"
    and none: "pw_pending st = []" and scr: "screenIsOn (pw_fs st) = Some False"
    and touch: "mTouchControlPath st \<noteq> brightness_path"
  shows "\<exists>st'. power_step\<^sup>*\<^sup>* st st' \<and> \<not> mIsInteractive st' \<and> mCurrentProfile st' = mRequestedProfile st"
proof -
  let ?r = "mRequestedProfile st"
  have "?r \<noteq> INVALID" using req by (auto simp: valid_profile_def INVALID_def)
  then have reset: "resetProfile 500 (st\<lparr>mIsInteractive := True\<rparr>) = Some (st\<lparr>mIsInteractive := True, pw_pending := [PApply ?r]\<rparr>)"
    using none by (simp add: resetProfile_def setProfile_delayed_def)
  obtain st1 where st1: "setInteractive True st = Some st1" "power_inv st1"
    using setInteractive_returns [OF inv] by blast
  then have in1: "setInputState True (st\<lparr>mIsInteractive := True, pw_pending := [PApply ?r]\<rparr>) = Some st1"
    using reset by (simp add: setInteractive_def Let_def)
  note k1 = setInputState_keeps [OF in1]
  obtain ps1 where ps1: "pw_pending st1 = PApply ?r # ps1" using k1(4) by auto
  have "pw_fs st1 brightness_path = pw_fs st brightness_path" using k1(6) touch by simp
  then have off: "screenIsOn (pw_fs st1) = Some False"
    using scr read_int_cong [where fs' = "pw_fs st1" and fs = "pw_fs st" and p = brightness_path]
    by (simp add: screenIsOn_def brightness_path_def)
  obtain st2 where st2: "setInteractive False st1 = Some st2" "power_inv st2"
    using setInteractive_returns [OF st1(2)] by blast
  have so: "valid_profile SCREEN_OFF" by (simp add: valid_profile_def SCREEN_OFF_def)
  obtain sm where sm: "setProfile SCREEN_OFF (st1\<lparr>mIsInteractive := False\<rparr>) = Some sm"
    "pw_pending sm = pw_pending st1" "mIsInteractive sm = False" "mRequestedProfile sm = mRequestedProfile st1"
    using setProfile_returns [OF power_inv_upd(1) [OF st1(2), of False] so] by auto
  then have "setInputState False sm = Some st2" using st2 off by (simp add: setInteractive_def Let_def)
  note k2 = setInputState_keeps [OF this]
  obtain ps2 where ps2: "pw_pending st2 = [] @ PApply ?r # ps2" using k2(4) sm(2) ps1 by auto
  have "power_inv (st2\<lparr>pw_pending := [] @ ps2\<rparr>)" using st2(2) ps2 by (auto simp: power_inv_def)
  from setProfile_returns [OF this req] obtain st3 where st3:
    "run_pending (PApply ?r) (st2\<lparr>pw_pending := [] @ ps2\<rparr>) = Some st3" "mCurrentProfile st3 = ?r"
    "mIsInteractive st3 = mIsInteractive st2"
    by (auto simp: run_pending_def)
  have "power_step st st1" "power_step st1 st2" "power_step st2 st3"
    using power_step.Interactive [OF st1(1)] power_step.Interactive [OF st2(1)] power_step.Thread [OF ps2 st3(1)] .
  then have "power_step\<^sup>*\<^sup>* st st3" by (meson converse_rtranclp_into_rtranclp rtranclp.rtrancl_refl)
  then show ?thesis using st3 k2(1) sm(3) by auto
qed

theorem stale_profile_reset_witness:
  "\<exists>st'. power_step\<^sup>*\<^sup>* sample_power st' \<and> \<not> mIsInteractive st' \<and> mCurrentProfile st' = BALANCED"
proof -
  have "valid_profile (mRequestedProfile sample_power)" "pw_pending sample_power = []"
    "mTouchControlPath sample_power \<noteq> brightness_path" "mRequestedProfile sample_power = BALANCED"
    by (simp_all add: sample_power_def valid_profile_def BALANCED_def POWER_TOUCHSCREEN_ENABLED_EDGE_def brightness_path_def)
  moreover have "screenIsOn (pw_fs sample_power) = Some False"
    using sample_brightness by (simp add: screenIsOn_def brightness_path_def)
  ultimately show ?thesis using stale_profile_reset [OF sample_power_inv] by metis
qed

text \<open>
  A profile that extends another one ends up with exactly the parent's switches:
  whatever its own \<open>enabled\<close> elements say has been read before the parent is copied over it.
\<close>

theorem extends_takes_parent_switches:
  assumes "init_sections x path p0 = Some p1" and "sval (pf_enabled p1)"
    and "XML_GET_ATTR x path ''extends'' = Some parent" and "tab parent = Some q"
    and "loadProfileImpl tab x path p0 = Some p"
  shows "switches p = switches q"
  using assms by (auto simp: loadProfileImpl_def Option.bind_eq_Some_conv dest!: load_switches)

text \<open>A document with a \<open>true\<close> at every path, whose profiles all extend the same one.\<close>

definition sample_xml :: xml where
  "sample_xml =
     \<lparr>xn_node = (\<lambda>q. Node (Some ''true'')), xn_attr = (\<lambda>q a. Some ''power_save''), xn_children = (\<lambda>q. [])\<rparr>"

lemma sample_xml_set: "PROFILE_SET to_bool sample_xml q d e = Some (True, True)"
  by (simp add: PROFILE_SET_def XML_GET_def sample_xml_def to_bool_def)

lemma sample_xml_init: "PROFILE_INIT sample_xml q e = Some ((True, True), True)"
proof -
  have "XML_HAS_NODE sample_xml q" by (simp add: XML_HAS_NODE_def sample_xml_def)
  then show ?thesis by (simp add: PROFILE_INIT_def sample_xml_set)
qed

lemma sample_extends:
  shows "\<exists>p1. init_sections sample_xml q zero_profile = Some p1 \<and> sval (pf_enabled p1) \<and> sval (pf_cpu_enabled p1)"
    and "XML_GET_ATTR sample_xml q ''extends'' = Some ''power_save''"
proof -
  show "\<exists>p1. init_sections sample_xml q zero_profile = Some p1 \<and> sval (pf_enabled p1) \<and> sval (pf_cpu_enabled p1)"
    by (simp add: init_sections_def sample_xml_set sample_xml_init Let_def)
  show "XML_GET_ATTR sample_xml q ''extends'' = Some ''power_save''"
    by (simp add: XML_GET_ATTR_def sample_xml_def)
qed

theorem extends_takes_parent_switches_witness:
  "\<exists>p. loadProfileImpl kProfileNameToData sample_xml ''/profiles/balanced'' zero_profile = Some p
     \<and> \<not> sval (pf_cpu_enabled p)"
proof -
  obtain p1 where p1: "init_sections sample_xml ''/profiles/balanced'' zero_profile = Some p1" "sval (pf_enabled p1)"
    using sample_extends(1) by blast
  have tab: "kProfileNameToData ''power_save'' = Some zero_profile"
    by (simp add: kProfileNameToData_def profile_names_def)
  have load: "loadProfileImpl kProfileNameToData sample_xml ''/profiles/balanced'' zero_profile = Some zero_profile"
    using p1 sample_extends(2) tab
    by (simp add: loadProfileImpl_def load_cpu_def load_cpusets_def load_hmp_def load_gpu_def load_kernel_def
        load_ipa_def load_slow_def load_booster_def zero_profile_off)
  have "switches zero_profile = switches zero_profile"
    using extends_takes_parent_switches [OF p1 sample_extends(2) tab load] .
  then show ?thesis using load zero_profile_off(1) by blast
qed

section \<open>The service\<close>

text \<open>The process either aborts or serves the constructed object; the branch of \<open>main\<close> for a failed registration is dead, and the exit
  status tells an error even after a regular end.\<close>

lemma power_main_serves:
  "power_main fs parse props ret lineage = Some (srv, status) \<longleftrightarrow>
     ret = 0 \<and> lineage \<in> {None, Some 0} \<and> status = 1 \<and> srv \<noteq> None \<and> srv = Power_new fs parse props"
  by (auto simp: power_main_def registerAsSystemService_def split: option.splits if_splits bind_splits)

end
