(* ===== verification/Camera_Parameters.thy ===== *)
theory Camera_Parameters
  imports C_Text
begin

text \<open>
  The camera parameters of \<open>camera/CameraParameters.cpp\<close>: a map from keys to values, its text
  form, and the numbers and sizes in it. The map is a \<open>KeyedVector\<close> of libutils: a record of
  operations that the definitions take, with what is documented about it as \<open>keyed_vector_laws\<close>.
  \<open>lb + 1\<close> is the width of \<open>long\<close>; a null pointer is \<^const>\<open>None\<close>.
\<close>

section \<open>The keyed vector\<close>

record 'm keyed_vector =
  kv_empty :: 'm
  kv_entries :: "'m \<Rightarrow> (string \<times> string) list"
  kv_valueFor :: "'m \<Rightarrow> string \<Rightarrow> string"
  kv_add :: "string \<Rightarrow> string \<Rightarrow> 'm \<Rightarrow> 'm"
  kv_replaceValueFor :: "string \<Rightarrow> string \<Rightarrow> 'm \<Rightarrow> 'm"
  kv_removeItem :: "string \<Rightarrow> 'm \<Rightarrow> 'm"

definition kv_map :: "'m keyed_vector \<Rightarrow> 'm \<Rightarrow> (string \<rightharpoonup> string)" where
  "kv_map kv m = map_of (kv_entries kv m)"

text \<open>
  What the class documents: keys are unique, a missing key gives the empty string, adding or
  replacing maps the key to the value, removing unmaps it.
\<close>

definition keyed_vector_laws :: "'m keyed_vector \<Rightarrow> bool" where
  "keyed_vector_laws kv \<longleftrightarrow>
     kv_entries kv (kv_empty kv) = []
     \<and> (\<forall>m. distinct (map fst (kv_entries kv m)))
     \<and> (\<forall>m k. kv_valueFor kv m k = (case kv_map kv m k of None \<Rightarrow> [] | Some v \<Rightarrow> v))
     \<and> (\<forall>m k v. kv_map kv (kv_add kv k v m) = (kv_map kv m)(k \<mapsto> v))
     \<and> (\<forall>m k v. kv_map kv (kv_replaceValueFor kv k v m) = (kv_map kv m)(k \<mapsto> v))
     \<and> (\<forall>m k. kv_map kv (kv_removeItem kv k m) = (kv_map kv m)(k := None))"

section \<open>Text form\<close>

fun flatten_entries :: "(string \<times> string) list \<Rightarrow> string" where
  "flatten_entries [] = []"
| "flatten_entries ((k, v) # es) = k @ ''='' @ v @ (if es = [] then [] else '';'' @ flatten_entries es)"

definition flatten :: "'m keyed_vector \<Rightarrow> 'm \<Rightarrow> string" where
  "flatten kv m = flatten_entries (kv_entries kv m)"

text \<open>\<open>strchr\<close>, as what is before and after the first occurrence.\<close>

definition split_chr :: "char \<Rightarrow> string \<Rightarrow> (string \<times> string) option" where
  "split_chr c s =
     (if c \<in> set s then Some (takeWhile (\<lambda>x. x \<noteq> c) s, tl (dropWhile (\<lambda>x. x \<noteq> c) s)) else None)"

lemma split_chr_length: "split_chr c s = Some (a, b) \<Longrightarrow> length b < length s"
proof (induction s arbitrary: a b)
  case (Cons x s)
  then show ?case by (auto simp: split_chr_def split: if_splits)
qed (simp add: split_chr_def)

function unflatten_loop :: "'m keyed_vector \<Rightarrow> string \<Rightarrow> 'm \<Rightarrow> 'm" where
  "unflatten_loop kv a m =
     (case split_chr (CHR ''='') a of
        None \<Rightarrow> m
      | Some (k, a1) \<Rightarrow>
          (case split_chr (CHR '';'') a1 of
             None \<Rightarrow> kv_add kv k a1 m
           | Some (v, a2) \<Rightarrow> unflatten_loop kv a2 (kv_add kv k v m)))"
  by pat_completeness auto
termination
  by (relation "measure (\<lambda>(kv, a, m). length a)") (auto dest!: split_chr_length)

declare unflatten_loop.simps [simp del]

definition unflatten :: "'m keyed_vector \<Rightarrow> string \<Rightarrow> 'm" where
  "unflatten kv params = unflatten_loop kv params (kv_empty kv)"

section \<open>Setting and getting\<close>

definition cp_set :: "'m keyed_vector \<Rightarrow> string option \<Rightarrow> string option \<Rightarrow> 'm \<Rightarrow> 'm" where
  "cp_set kv k v m =
     (case (k, v) of
        (Some key', Some v') \<Rightarrow>
          if CHR ''='' \<in> set key' \<or> CHR '';'' \<in> set key' then m
          else if CHR ''='' \<in> set v' \<or> CHR '';'' \<in> set v' then m
          else kv_replaceValueFor kv key' v' m
      | _ \<Rightarrow> m)"

definition cp_set_int :: "'m keyed_vector \<Rightarrow> string \<Rightarrow> int \<Rightarrow> 'm \<Rightarrow> 'm" where
  "cp_set_int kv k v m = cp_set kv (Some k) (Some (to_string v)) m"

text \<open>\<open>fmt\<close> is what \<open>"%g"\<close> prints; the buffer keeps 15 characters.\<close>

definition setFloat :: "('f \<Rightarrow> string) \<Rightarrow> 'm keyed_vector \<Rightarrow> string \<Rightarrow> 'f \<Rightarrow> 'm \<Rightarrow> 'm" where
  "setFloat fmt kv k v m = cp_set kv (Some k) (Some (take 15 (fmt v))) m"

definition cp_get :: "'m keyed_vector \<Rightarrow> 'm \<Rightarrow> string \<Rightarrow> string option" where
  "cp_get kv m k = (let v = kv_valueFor kv m k in if v = [] then None else Some v)"

text \<open>The conversion of \<open>long\<close> to \<open>int\<close> keeps the low 32 bits.\<close>

definition getInt :: "nat \<Rightarrow> 'm keyed_vector \<Rightarrow> 'm \<Rightarrow> string \<Rightarrow> int" where
  "getInt lb kv m k =
     (case cp_get kv m k of None \<Rightarrow> - 1 | Some v \<Rightarrow> signed_take_bit 31 (fst (strtol lb 0 v)))"

definition getFloat :: "(string \<Rightarrow> 'f) \<Rightarrow> 'f \<Rightarrow> 'm keyed_vector \<Rightarrow> 'm \<Rightarrow> string \<Rightarrow> 'f" where
  "getFloat strtof minus_one kv m k = (case cp_get kv m k of None \<Rightarrow> minus_one | Some v \<Rightarrow> strtof v)"

definition cp_remove :: "'m keyed_vector \<Rightarrow> string \<Rightarrow> 'm \<Rightarrow> 'm" where
  "cp_remove kv k m = kv_removeItem kv k m"

definition isEmpty :: "'m keyed_vector \<Rightarrow> 'm \<Rightarrow> bool" where
  "isEmpty kv m \<longleftrightarrow> kv_entries kv m = []"

section \<open>Sizes\<close>

text \<open>\<open>*end\<close> at the end of the string is the terminator, never the delimiter.\<close>

definition parse_pair :: "nat \<Rightarrow> string \<Rightarrow> char \<Rightarrow> (int \<times> int \<times> string) option" where
  "parse_pair lb str delim =
     (case strtol lb 10 str of
        (w, e1) \<Rightarrow>
          (case e1 of
             [] \<Rightarrow> None
           | c # cs \<Rightarrow>
               if c \<noteq> delim then None
               else case strtol lb 10 cs of
                      (h, e2) \<Rightarrow> Some (signed_take_bit 31 w, signed_take_bit 31 h, e2)))"

lemma base_prefix_length: "base_prefix b u = (b', w) \<Longrightarrow> length w \<le> length u"
  by (auto simp: base_prefix_def split: if_splits)

lemma strtol_length: "strtol lb b s = (v, e) \<Longrightarrow> length e \<le> length s"
  using length_split_sign [of "skip_ws s"] length_skip_ws [of s]
  by (auto simp: strtol_def Let_def split: if_splits prod.splits dest!: base_prefix_length)

lemma parse_pair_length: "parse_pair lb s d = Some (w, h, e) \<Longrightarrow> length e < length s"
proof -
  assume a: "parse_pair lb s d = Some (w, h, e)"
  obtain w' e1 where e1: "strtol lb 10 s = (w', e1)" by (cases "strtol lb 10 s")
  then obtain c cs where c: "e1 = c # cs" using a by (cases e1) (auto simp: parse_pair_def)
  then have "\<exists>h'. strtol lb 10 cs = (h', e)"
    using a e1 by (auto simp: parse_pair_def split: if_splits prod.splits)
  then show ?thesis using strtol_length e1 c by (fastforce dest: strtol_length)
qed

function parseSizes :: "nat \<Rightarrow> string \<Rightarrow> (int \<times> int) list" where
  "parseSizes lb s =
     (case parse_pair lb s (CHR ''x'') of
        None \<Rightarrow> []
      | Some (w, h, e) \<Rightarrow>
          (case e of
             [] \<Rightarrow> [(w, h)]
           | c # cs \<Rightarrow> if c \<noteq> CHR '','' then [] else (w, h) # parseSizes lb cs))"
  by pat_completeness auto
termination
  by (relation "measure (\<lambda>(lb, s). length s)") (auto dest!: parse_pair_length)

declare parseSizes.simps [simp del]

definition parseSizesList :: "nat \<Rightarrow> string option \<Rightarrow> (int \<times> int) list" where
  "parseSizesList lb s = (case s of None \<Rightarrow> [] | Some t \<Rightarrow> parseSizes lb t)"

definition size_str :: "int \<Rightarrow> int \<Rightarrow> string" where
  "size_str width height = to_string width @ ''x'' @ to_string height"

definition get_pair :: "nat \<Rightarrow> 'm keyed_vector \<Rightarrow> 'm \<Rightarrow> string \<Rightarrow> char \<Rightarrow> int \<times> int" where
  "get_pair lb kv m k delim =
     (case cp_get kv m k of
        None \<Rightarrow> (- 1, - 1)
      | Some p \<Rightarrow> (case parse_pair lb p delim of None \<Rightarrow> (- 1, - 1) | Some (w, h, _) \<Rightarrow> (w, h)))"

definition setPreviewSize :: "'m keyed_vector \<Rightarrow> int \<Rightarrow> int \<Rightarrow> 'm \<Rightarrow> 'm" where
  "setPreviewSize kv width height m = cp_set kv (Some ''preview-size'') (Some (size_str width height)) m"

definition getPreviewSize :: "nat \<Rightarrow> 'm keyed_vector \<Rightarrow> 'm \<Rightarrow> int \<times> int" where
  "getPreviewSize lb kv m = get_pair lb kv m ''preview-size'' (CHR ''x'')"

definition getPreferredPreviewSizeForVideo :: "nat \<Rightarrow> 'm keyed_vector \<Rightarrow> 'm \<Rightarrow> int \<times> int" where
  "getPreferredPreviewSizeForVideo lb kv m = get_pair lb kv m ''preferred-preview-size-for-video'' (CHR ''x'')"

definition getSupportedPreviewSizes :: "nat \<Rightarrow> 'm keyed_vector \<Rightarrow> 'm \<Rightarrow> (int \<times> int) list" where
  "getSupportedPreviewSizes lb kv m = parseSizesList lb (cp_get kv m ''preview-size-values'')"

definition setVideoSize :: "'m keyed_vector \<Rightarrow> int \<Rightarrow> int \<Rightarrow> 'm \<Rightarrow> 'm" where
  "setVideoSize kv width height m = cp_set kv (Some ''video-size'') (Some (size_str width height)) m"

definition getVideoSize :: "nat \<Rightarrow> 'm keyed_vector \<Rightarrow> 'm \<Rightarrow> int \<times> int" where
  "getVideoSize lb kv m = get_pair lb kv m ''video-size'' (CHR ''x'')"

definition getSupportedVideoSizes :: "nat \<Rightarrow> 'm keyed_vector \<Rightarrow> 'm \<Rightarrow> (int \<times> int) list" where
  "getSupportedVideoSizes lb kv m = parseSizesList lb (cp_get kv m ''video-size-values'')"

definition setPreviewFrameRate :: "'m keyed_vector \<Rightarrow> int \<Rightarrow> 'm \<Rightarrow> 'm" where
  "setPreviewFrameRate kv fps m = cp_set_int kv ''preview-frame-rate'' fps m"

definition getPreviewFrameRate :: "nat \<Rightarrow> 'm keyed_vector \<Rightarrow> 'm \<Rightarrow> int" where
  "getPreviewFrameRate lb kv m = getInt lb kv m ''preview-frame-rate''"

definition getPreviewFpsRange :: "nat \<Rightarrow> 'm keyed_vector \<Rightarrow> 'm \<Rightarrow> int \<times> int" where
  "getPreviewFpsRange lb kv m = get_pair lb kv m ''preview-fps-range'' (CHR '','')"

definition setPreviewFormat :: "'m keyed_vector \<Rightarrow> string option \<Rightarrow> 'm \<Rightarrow> 'm" where
  "setPreviewFormat kv format m = cp_set kv (Some ''preview-format'') format m"

definition getPreviewFormat :: "'m keyed_vector \<Rightarrow> 'm \<Rightarrow> string option" where
  "getPreviewFormat kv m = cp_get kv m ''preview-format''"

definition setPictureSize :: "'m keyed_vector \<Rightarrow> int \<Rightarrow> int \<Rightarrow> 'm \<Rightarrow> 'm" where
  "setPictureSize kv width height m = cp_set kv (Some ''picture-size'') (Some (size_str width height)) m"

definition getPictureSize :: "nat \<Rightarrow> 'm keyed_vector \<Rightarrow> 'm \<Rightarrow> int \<times> int" where
  "getPictureSize lb kv m = get_pair lb kv m ''picture-size'' (CHR ''x'')"

definition getSupportedPictureSizes :: "nat \<Rightarrow> 'm keyed_vector \<Rightarrow> 'm \<Rightarrow> (int \<times> int) list" where
  "getSupportedPictureSizes lb kv m = parseSizesList lb (cp_get kv m ''picture-size-values'')"

definition setPictureFormat :: "'m keyed_vector \<Rightarrow> string option \<Rightarrow> 'm \<Rightarrow> 'm" where
  "setPictureFormat kv format m = cp_set kv (Some ''picture-format'') format m"

definition getPictureFormat :: "'m keyed_vector \<Rightarrow> 'm \<Rightarrow> string option" where
  "getPictureFormat kv m = cp_get kv m ''picture-format''"

section \<open>Formats\<close>

datatype hal_format =
    HAL_YCbCr_422_SP | HAL_YCrCb_420_SP | HAL_YCbCr_422_I | HAL_YV12 | HAL_RGB_565 | HAL_RGBA_8888 | HAL_RAW16

definition previewFormatToEnum :: "string option \<Rightarrow> hal_format option" where
  "previewFormatToEnum format =
     (case format of
        None \<Rightarrow> Some HAL_YCrCb_420_SP
      | Some f \<Rightarrow>
          if f = ''yuv422sp'' then Some HAL_YCbCr_422_SP
          else if f = ''yuv420sp'' then Some HAL_YCrCb_420_SP
          else if f = ''yuv422i-yuyv'' then Some HAL_YCbCr_422_I
          else if f = ''yuv420p'' then Some HAL_YV12
          else if f = ''rgb565'' then Some HAL_RGB_565
          else if f = ''rgba8888'' then Some HAL_RGBA_8888
          else if f = ''bayer-rggb'' then Some HAL_RAW16
          else None)"

text \<open>The tokens of \<open>strtok_r\<close> for one delimiter.\<close>

function strtok :: "char \<Rightarrow> string \<Rightarrow> string list" where
  "strtok c s =
     (let t = dropWhile (\<lambda>x. x = c) s
      in if t = [] then [] else takeWhile (\<lambda>x. x \<noteq> c) t # strtok c (dropWhile (\<lambda>x. x \<noteq> c) t))"
  by pat_completeness auto
termination
proof (relation "measure (\<lambda>(c, s). length s)", goal_cases)
  case (2 c s t)
  from 2(2) obtain x xs where t: "t = x # xs" by (meson list.exhaust)
  then have "x \<noteq> c" using 2(1) hd_dropWhile [of "\<lambda>x. x = c" s] by simp
  then have "length (dropWhile (\<lambda>x. x \<noteq> c) t) \<le> length xs" using t by (simp add: length_dropWhile_le)
  then show ?case using t 2(1) length_dropWhile_le [of "\<lambda>x. x = c" s] by (simp add: order.strict_trans2)
qed simp

declare strtok.simps [simp del]

definition getSupportedPreviewFormats :: "'m keyed_vector \<Rightarrow> 'm \<Rightarrow> hal_format list" where
  "getSupportedPreviewFormats kv m =
     (case cp_get kv m ''preview-format-values'' of
        None \<Rightarrow> []
      | Some s \<Rightarrow> List.map_filter (\<lambda>f. previewFormatToEnum (Some f)) (strtok (CHR '','') s))"

text \<open>The text \<open>dump\<close> writes; each line is cut after 254 characters.\<close>

definition cp_dump :: "'m keyed_vector \<Rightarrow> 'm \<Rightarrow> string" where
  "cp_dump kv m =
     take 254 (''CameraParameters::dump: mMap.size = '' @ dec (length (kv_entries kv m)) @ [CHR 0x0A])
     @ concat (map (\<lambda>(k, v). take 254 (CHR 0x09 # k @ '': '' @ v @ [CHR 0x0A])) (kv_entries kv m))"

end
