(* ===== verification/Camera_Parameters_Correct.thy ===== *)
theory Camera_Parameters_Correct
  imports Camera_Parameters "HOL-Library.DAList"
begin

text \<open>
  The text form of the camera parameters loses nothing, parameters stay in a form that has a
  text form, and the numbers and sizes that are set are the ones that are got.
\<close>

section \<open>Splitting\<close>

lemma split_chr_append: "c \<notin> set a \<Longrightarrow> split_chr c (a @ c # b) = Some (a, b)"
  by (induction a) (auto simp: split_chr_def)

lemma split_chr_None: "split_chr c s = None \<longleftrightarrow> c \<notin> set s"
  by (simp add: split_chr_def)

lemma split_chr_Some:
  assumes "split_chr c s = Some (a, b)"
  shows "c \<notin> set a"
  using assms by (auto simp: split_chr_def split: if_splits dest: set_takeWhileD)

section \<open>The keyed vector\<close>

lemma keyed_vector_lawsD:
  assumes "keyed_vector_laws kv"
  shows "kv_map kv (kv_empty kv) = Map.empty" "distinct (map fst (kv_entries kv m))"
    "kv_valueFor kv m k = (case kv_map kv m k of None \<Rightarrow> [] | Some v \<Rightarrow> v)"
    "kv_map kv (kv_add kv k v m) = (kv_map kv m)(k \<mapsto> v)"
    "kv_map kv (kv_replaceValueFor kv k v m) = (kv_map kv m)(k \<mapsto> v)"
    "kv_map kv (kv_removeItem kv k m) = (kv_map kv m)(k := None)"
  using assms unfolding keyed_vector_laws_def kv_map_def by simp_all

section \<open>Text form\<close>

text \<open>What has a text form: keys without \<open>=\<close> and values without \<open>;\<close>.\<close>

definition params_inv :: "'m keyed_vector \<Rightarrow> 'm \<Rightarrow> bool" where
  "params_inv kv m \<longleftrightarrow>
     (\<forall>k v. kv_map kv m k = Some v \<longrightarrow> CHR ''='' \<notin> set k \<and> CHR '';'' \<notin> set v)"

lemma params_inv_upd:
  "params_inv kv m \<Longrightarrow> kv_map kv m' = (kv_map kv m)(k \<mapsto> v) \<Longrightarrow> CHR ''='' \<notin> set k \<Longrightarrow> CHR '';'' \<notin> set v
     \<Longrightarrow> params_inv kv m'"
  by (auto simp: params_inv_def split: if_splits)

lemma unflatten_loop_inv:
  assumes "keyed_vector_laws kv" and "params_inv kv m"
  shows "params_inv kv (unflatten_loop kv a m)"
  using assms
proof (induction kv a m rule: unflatten_loop.induct)
  case (1 kv a m)
  show ?case
  proof (cases "split_chr (CHR ''='') a")
    case None
    then show ?thesis using 1 by (simp add: unflatten_loop.simps)
  next
    case (Some ka)
    obtain k a1 where ka: "ka = (k, a1)" by (cases ka)
    have k: "CHR ''='' \<notin> set k" using split_chr_Some Some ka by blast
    show ?thesis
    proof (cases "split_chr (CHR '';'') a1")
      case None
      then have "params_inv kv (kv_add kv k a1 m)"
        using params_inv_upd [OF 1(3) keyed_vector_lawsD(4) [OF 1(2)]] k by (simp add: split_chr_None)
      then show ?thesis using None Some ka by (simp add: unflatten_loop.simps [of kv a])
    next
      case v: (Some va)
      obtain v a2 where va: "va = (v, a2)" by (cases va)
      have "params_inv kv (kv_add kv k v m)"
        using params_inv_upd [OF 1(3) keyed_vector_lawsD(4) [OF 1(2)]] k split_chr_Some v va by blast
      then show ?thesis
        using 1(1) [OF Some ka [symmetric] v va [symmetric] 1(2)] Some ka v va by (simp add: unflatten_loop.simps [of kv a])
    qed
  qed
qed

lemma unflatten_loop_entries:
  assumes "keyed_vector_laws kv" and "distinct (map fst es)"
    and "\<forall>(k, v) \<in> set es. CHR ''='' \<notin> set k \<and> CHR '';'' \<notin> set v"
  shows "kv_map kv (unflatten_loop kv (flatten_entries es) m) = kv_map kv m ++ map_of es"
  using assms(2,3)
proof (induction es arbitrary: m rule: flatten_entries.induct)
  case 1
  then show ?case by (simp add: unflatten_loop.simps split_chr_def)
next
  case (2 k v es)
  have k: "split_chr (CHR ''='') (k @ CHR ''='' # r) = Some (k, r)" for r
    using 2(3) by (intro split_chr_append) simp
  have v: "split_chr (CHR '';'') (v @ CHR '';'' # r) = Some (v, r)" "split_chr (CHR '';'') v = None" for r
    using 2(3) by (auto intro: split_chr_append simp: split_chr_None)
  note add = keyed_vector_lawsD(4) [OF assms(1)]
  show ?case
  proof (cases "es = []")
    case True
    then show ?thesis
      using k v by (simp add: unflatten_loop.simps [of kv "k @ _"] add) (simp add: map_add_def fun_eq_iff)
  next
    case False
    then have "unflatten_loop kv (flatten_entries ((k, v) # es)) m
        = unflatten_loop kv (flatten_entries es) (kv_add kv k v m)"
      using k v by (simp add: unflatten_loop.simps [of kv "k @ _"])
    then have "kv_map kv (unflatten_loop kv (flatten_entries ((k, v) # es)) m) = (kv_map kv m)(k \<mapsto> v) ++ map_of es"
      using 2 False by (simp add: add)
    moreover have "map_of es k = None" using 2(2) by (simp add: map_of_eq_None_iff)
    ultimately show ?thesis by (auto simp: map_add_def fun_eq_iff split: option.splits)
  qed
qed

lemma cp_set_law:
  assumes "keyed_vector_laws kv"
  shows "kv_map kv (cp_set kv k v m) =
    (case (k, v) of
       (Some k', Some v') \<Rightarrow>
         if CHR ''='' \<in> set k' \<or> CHR '';'' \<in> set k' \<or> CHR ''='' \<in> set v' \<or> CHR '';'' \<in> set v'
         then kv_map kv m else (kv_map kv m)(k' \<mapsto> v')
     | _ \<Rightarrow> kv_map kv m)"
  using keyed_vector_lawsD(5) [OF assms] by (auto simp: cp_set_def split: option.splits)

lemma cp_set_inv: "keyed_vector_laws kv \<Longrightarrow> params_inv kv m \<Longrightarrow> params_inv kv (cp_set kv k v m)"
  unfolding params_inv_def using cp_set_law [of kv k v m] by (auto split: option.splits if_splits)

lemma cp_remove_inv: "keyed_vector_laws kv \<Longrightarrow> params_inv kv m \<Longrightarrow> params_inv kv (cp_remove kv k m)"
  by (auto simp: params_inv_def cp_remove_def keyed_vector_lawsD(6) split: if_splits)

lemma flatten_law:
  assumes "keyed_vector_laws kv" and "params_inv kv m"
  shows "kv_map kv (unflatten kv (flatten kv m)) = kv_map kv m"
proof -
  have "\<forall>(k, v) \<in> set (kv_entries kv m). CHR ''='' \<notin> set k \<and> CHR '';'' \<notin> set v"
    using assms(2) keyed_vector_lawsD(2) [OF assms(1), of m] by (auto simp: params_inv_def kv_map_def)
  then show ?thesis
    using unflatten_loop_entries [OF assms(1) keyed_vector_lawsD(2) [OF assms(1), of m]]
    by (simp add: unflatten_def flatten_def keyed_vector_lawsD(1) [OF assms(1)] kv_map_def [symmetric])
qed

lemma unflatten_inv: "keyed_vector_laws kv \<Longrightarrow> params_inv kv (unflatten kv s)"
  using unflatten_loop_inv [of kv "kv_empty kv" s] by (simp add: unflatten_def params_inv_def keyed_vector_lawsD(1))

text \<open>
  Property C22. Parameters read from any text, and parameters changed by setting or removing,
  have a text form: flattening them and reading the text gives the same keys and values.
\<close>

theorem camera_parameters_roundtrip:
  assumes "keyed_vector_laws kv"
  shows "(\<forall>s. params_inv kv (unflatten kv s))
    \<and> (\<forall>m k v. params_inv kv m \<longrightarrow> params_inv kv (cp_set kv k v m))
    \<and> (\<forall>m k. params_inv kv m \<longrightarrow> params_inv kv (cp_remove kv k m))
    \<and> (\<forall>m. params_inv kv m \<longrightarrow> kv_map kv (unflatten kv (flatten kv m)) = kv_map kv m)"
  by (intro conjI allI impI unflatten_inv cp_set_inv cp_remove_inv flatten_law assms)

text \<open>The keyed vector as an association list with unique keys.\<close>

definition alist_kv :: "(string, string) alist keyed_vector" where
  "alist_kv = \<lparr>kv_empty = DAList.empty, kv_entries = DAList.impl_of,
     kv_valueFor = (\<lambda>m k. case DAList.lookup m k of None \<Rightarrow> [] | Some v \<Rightarrow> v),
     kv_add = DAList.update, kv_replaceValueFor = DAList.update, kv_removeItem = DAList.delete\<rparr>"

lemma alist_kv_laws: "keyed_vector_laws alist_kv"
proof -
  have "map_of (DAList.impl_of m) = DAList.lookup m" for m :: "(string, string) alist"
    by (simp add: DAList.lookup.rep_eq)
  moreover have "kv_map alist_kv m = DAList.lookup m" for m
    by (simp add: kv_map_def alist_kv_def DAList.lookup.rep_eq)
  ultimately show ?thesis
    unfolding keyed_vector_laws_def
    by (simp add: alist_kv_def DAList.empty.rep_eq DAList.lookup_update fun_eq_iff DAList.lookup_delete)
qed

theorem camera_parameters_roundtrip_witness:
  "kv_map alist_kv (unflatten alist_kv (flatten alist_kv (unflatten alist_kv ''a=1;b=2'')))
   = kv_map alist_kv (unflatten alist_kv ''a=1;b=2'')"
  using camera_parameters_roundtrip [OF alist_kv_laws] by blast

section \<open>Numbers and sizes\<close>

abbreviation int32 :: "int \<Rightarrow> bool" where
  "int32 v \<equiv> - (2 ^ 31) \<le> v \<and> v < 2 ^ 31"

lemma int32_range:
  assumes "int32 v" and "31 \<le> lb"
  shows "- (2 ^ lb) \<le> v" "v < 2 ^ lb" "signed_take_bit 31 v = v"
proof -
  have "(2::int) ^ 31 \<le> 2 ^ lb" using assms(2) by (intro power_increasing) auto
  then show "- (2 ^ lb) \<le> v" "v < 2 ^ lb" using assms(1) by linarith+
  show "signed_take_bit 31 v = v" using assms(1) by (intro signed_take_bit_int_eq_self) auto
qed

lemma set_to_string: "c \<in> set (to_string v) \<Longrightarrow> c = CHR ''-'' \<or> c_isdigit c"
  using dec_digits(1) [of "nat v"] dec_digits(1) [of "nat (- v)"]
  by (auto simp: to_string_def list_all_iff split: if_splits)

lemma to_string_plain: "CHR ''='' \<notin> set (to_string v)" "CHR '';'' \<notin> set (to_string v)" "to_string v \<noteq> []"
  using set_to_string [of "CHR ''=''" v] set_to_string [of "CHR '';''" v] dec_digits(2)
  by (auto simp: c_isdigit_def less_eq_char_def to_string_def)

lemma not_digit_x: "\<not> c_isdigit (CHR ''x'')" "\<not> c_isdigit (CHR '','')"
  by (simp_all add: c_isdigit_def less_eq_char_def)

lemma parse_pair_size:
  assumes "31 \<le> lb" and "int32 w" and "int32 h" and "r = [] \<or> \<not> c_isdigit (hd r)"
  shows "parse_pair lb (size_str w h @ r) (CHR ''x'') = Some (w, h, r)"
  using strtol_to_string [OF int32_range(1,2) [OF assms(2,1)], of "CHR ''x'' # to_string h @ r"]
    strtol_to_string [OF int32_range(1,2) [OF assms(3,1)] assms(4)] not_digit_x(1)
    int32_range(3) [OF assms(2,1)] int32_range(3) [OF assms(3,1)]
  by (simp add: parse_pair_def size_str_def)

lemma size_str_plain: "CHR ''='' \<notin> set (size_str w h)" "CHR '';'' \<notin> set (size_str w h)" "size_str w h \<noteq> []"
  by (simp_all add: size_str_def to_string_plain)

text \<open>A list of sizes, as the values of the parameters have it.\<close>

fun sizes_str :: "(int \<times> int) list \<Rightarrow> string" where
  "sizes_str [] = []"
| "sizes_str ((w, h) # ss) = size_str w h @ (if ss = [] then [] else CHR '','' # sizes_str ss)"

lemma sizes_str_plain:
  "CHR ''='' \<notin> set (sizes_str ss)" "CHR '';'' \<notin> set (sizes_str ss)" "ss \<noteq> [] \<Longrightarrow> sizes_str ss \<noteq> []"
  by (induction ss rule: sizes_str.induct) (auto simp: size_str_plain)

lemma parseSizes_sizes_str:
  assumes "31 \<le> lb" and "ss \<noteq> []" and "\<forall>(w, h) \<in> set ss. int32 w \<and> int32 h"
  shows "parseSizes lb (sizes_str ss) = ss"
  using assms(2,3)
proof (induction ss rule: sizes_str.induct)
  case (2 w h ss)
  then have wh: "int32 w" "int32 h" by auto
  show ?case
  proof (cases "ss = []")
    case True
    then show ?thesis
      using parse_pair_size [OF assms(1) wh, of "[]"] by (simp add: parseSizes.simps [of lb "size_str w h"])
  next
    case False
    then show ?thesis
      using 2 parse_pair_size [OF assms(1) wh, of "CHR '','' # sizes_str ss"] not_digit_x(2)
      by (simp add: parseSizes.simps [of lb "size_str w h @ _"])
  qed
qed simp

lemma cp_get_set:
  assumes "keyed_vector_laws kv" and "CHR ''='' \<notin> set k" and "CHR '';'' \<notin> set k"
    and "CHR ''='' \<notin> set v" and "CHR '';'' \<notin> set v" and "v \<noteq> []"
  shows "cp_get kv (cp_set kv (Some k) (Some v) m) k = Some v"
    and "k' \<noteq> k \<Longrightarrow> cp_get kv (cp_set kv (Some k) (Some v) m) k' = cp_get kv m k'"
  using assms by (simp_all add: cp_get_def keyed_vector_lawsD(3) cp_set_law)

text \<open>
  What is set is what is got: a number under any legal key, the preview size, the
  video size and the picture size, the frame rate, and a list of sizes; other keys keep their values.
\<close>

theorem camera_sizes_roundtrip:
  assumes kv: "keyed_vector_laws kv" and lb: "31 \<le> lb" and w: "int32 w" and h: "int32 h"
    and ss: "ss \<noteq> []" "\<forall>(a, b) \<in> set ss. int32 a \<and> int32 b"
    and k: "CHR ''='' \<notin> set k" "CHR '';'' \<notin> set k"
  shows "getInt lb kv (cp_set_int kv k w m) k = w
    \<and> (\<forall>k'. k' \<noteq> k \<longrightarrow> cp_get kv (cp_set_int kv k w m) k' = cp_get kv m k')
    \<and> getPreviewSize lb kv (setPreviewSize kv w h m) = (w, h)
    \<and> getVideoSize lb kv (setVideoSize kv w h m) = (w, h)
    \<and> getPictureSize lb kv (setPictureSize kv w h m) = (w, h)
    \<and> getPreviewFrameRate lb kv (setPreviewFrameRate kv w m) = w
    \<and> getSupportedVideoSizes lb kv (cp_set kv (Some ''video-size-values'') (Some (sizes_str ss)) m) = ss"
proof -
  have int: "getInt lb kv (cp_set_int kv q w m) q = w" if "CHR ''='' \<notin> set q" "CHR '';'' \<notin> set q" for q
    using cp_get_set(1) [OF kv that to_string_plain] strtol_base0_to_string [OF int32_range(1,2) [OF w lb]]
      int32_range(3) [OF w lb]
    by (simp add: getInt_def cp_set_int_def)
  have pair: "get_pair lb kv (cp_set kv (Some q) (Some (size_str w h)) m) q (CHR ''x'') = (w, h)"
    if "CHR ''='' \<notin> set q" "CHR '';'' \<notin> set q" for q
    using cp_get_set(1) [OF kv that size_str_plain] parse_pair_size [OF lb w h, of "[]"] by (simp add: get_pair_def)
  have sizes: "cp_get kv (cp_set kv (Some ''video-size-values'') (Some (sizes_str ss)) m) ''video-size-values''
      = Some (sizes_str ss)"
    by (rule cp_get_set(1) [OF kv]) (simp_all add: sizes_str_plain ss)
  show ?thesis
    using int [OF k] cp_get_set(2) [OF kv k to_string_plain] pair int parseSizes_sizes_str [OF lb ss] sizes
    by (simp add: getPreviewSize_def setPreviewSize_def getVideoSize_def setVideoSize_def getPictureSize_def
        setPictureSize_def getPreviewFrameRate_def setPreviewFrameRate_def getSupportedVideoSizes_def
        parseSizesList_def cp_set_int_def)
qed

theorem camera_sizes_roundtrip_witness:
  "getPreviewSize 31 alist_kv (setPreviewSize alist_kv 1920 1080 DAList.empty) = (1920, 1080)"
  using camera_sizes_roundtrip [OF alist_kv_laws, where lb = 31 and w = 1920 and h = 1080 and ss = "[(1, 1)]" and k = "''a''"]
  by simp

end
