(* ===== verification/Callback_Worker.thy ===== *)
theory Callback_Worker
  imports Prelude
begin

text \<open>
  The worker thread of \<open>camera/CallbackWorkerThread.cpp\<close>, to which the callbacks of the camera
  are handed: its queue, the operations of its clients and the loop of the thread, each atomic
  under the mutex, and the interleavings as a step relation. Pointers to callbacks and data are
  numbers, null is \<^const>\<open>None\<close> for a callback. An assertion that fails aborts (\<^const>\<open>None\<close>).
\<close>

section \<open>Messages and state\<close>

definition CB_TYPE_NOTIFY :: int where "CB_TYPE_NOTIFY = 1"
definition CB_TYPE_DATA :: int where "CB_TYPE_DATA = 2"

record worker_message =
  CbType :: int
  wm_msg_type :: int
  wm_data :: nat
  wm_index :: u32
  wm_metadata :: nat
  wm_user :: nat
  wm_ext1 :: int
  wm_ext2 :: int

record callback_data =
  NewUserNotifyCb :: "nat option"
  NewUserDataCb :: "nat option"

datatype thread_msg =
    MSG_EXIT_THREAD int
  | MSG_EXECUTE_CALLBACK worker_message int
  | MSG_UPDATE_CALLBACKS callback_data int

text \<open>The calls of the user's callbacks.\<close>

datatype user_call =
    NotifyCall nat int int int nat
  | DataCall nat int nat u32 nat nat

text \<open>
  \<open>cw_running\<close> holds until the loop of the thread returns, \<open>cw_joining\<close> while a client waits for
  that. \<open>cw_calls\<close> are the calls made so far, \<open>cw_lost\<close> the messages deleted without their data.
\<close>

record callback_worker =
  m_thread :: bool
  m_queue :: "thread_msg list"
  cw_running :: bool
  cw_joining :: bool
  UserNotifyCb :: "nat option"
  UserDataCb :: "nat option"
  cw_calls :: "user_call list"
  cw_lost :: "thread_msg list"

definition worker_new :: callback_worker where
  "worker_new = \<lparr>m_thread = False, m_queue = [], cw_running = False, cw_joining = False,
     UserNotifyCb = None, UserDataCb = None, cw_calls = [], cw_lost = []\<rparr>"

section \<open>Clients\<close>

definition CreateThread :: "callback_worker \<Rightarrow> callback_worker" where
  "CreateThread st =
     (if m_thread st then st
      else st\<lparr>m_thread := True, cw_running := True, UserNotifyCb := None, UserDataCb := None\<rparr>)"

text \<open>\<open>ExitThread\<close> up to \<open>join\<close>, and the return from \<open>join\<close>, which the thread has to allow.\<close>

definition ExitThread_post :: "int \<Rightarrow> callback_worker \<Rightarrow> callback_worker" where
  "ExitThread_post now st =
     (if \<not> m_thread st then st
      else st\<lparr>m_queue := m_queue st @ [MSG_EXIT_THREAD now], cw_joining := True\<rparr>)"

definition ExitThread_join :: "callback_worker \<Rightarrow> callback_worker option" where
  "ExitThread_join st =
     (if cw_joining st \<and> \<not> cw_running st then Some (st\<lparr>m_thread := False, cw_joining := False\<rparr>) else None)"

definition AddCallback :: "worker_message \<Rightarrow> int \<Rightarrow> callback_worker \<Rightarrow> callback_worker option" where
  "AddCallback data now st =
     (if \<not> m_thread st then None
      else Some (st\<lparr>m_queue := m_queue st @ [MSG_EXECUTE_CALLBACK data now]\<rparr>))"

definition SetCallbacks :: "callback_data \<Rightarrow> int \<Rightarrow> callback_worker \<Rightarrow> callback_worker option" where
  "SetCallbacks data now st =
     (if \<not> m_thread st then None
      else Some (st\<lparr>m_queue := m_queue st @ [MSG_UPDATE_CALLBACKS data now]\<rparr>))"

fun has_data :: "thread_msg \<Rightarrow> bool" where
  "has_data (MSG_EXIT_THREAD ts) = False"
| "has_data _ = True"

definition ClearCallbacks :: "callback_worker \<Rightarrow> callback_worker option" where
  "ClearCallbacks st =
     (if \<not> m_thread st then None
      else Some (st\<lparr>m_queue := [], cw_lost := cw_lost st @ filter has_data (m_queue st)\<rparr>))"

section \<open>The thread\<close>

text \<open>What one message makes the thread call, at the time of \<open>GetTimestamp\<close>.\<close>

definition execute_callback ::
    "int \<Rightarrow> nat option \<Rightarrow> nat option \<Rightarrow> worker_message \<Rightarrow> int \<Rightarrow> user_call list" where
  "execute_callback now ncb dcb userData CallerTS =
     (if now - CallerTS < 5 then
        (if CbType userData = CB_TYPE_NOTIFY then
           (case ncb of
              None \<Rightarrow> []
            | Some cb \<Rightarrow> [NotifyCall cb (wm_msg_type userData) (wm_ext1 userData) (wm_ext2 userData) (wm_user userData)])
         else if CbType userData = CB_TYPE_DATA then
           (case dcb of
              None \<Rightarrow> []
            | Some cb \<Rightarrow> [DataCall cb (wm_msg_type userData) (wm_data userData) (wm_index userData)
                            (wm_metadata userData) (wm_user userData)])
         else [])
      else [])"

text \<open>One turn of the loop; without a message, or after the return, the thread does not move.\<close>

definition Process_step :: "int \<Rightarrow> callback_worker \<Rightarrow> callback_worker option" where
  "Process_step now st =
     (if \<not> cw_running st then None
      else case m_queue st of
             [] \<Rightarrow> None
           | msg # q \<Rightarrow>
               (let st1 = st\<lparr>m_queue := q\<rparr>
                in case msg of
                     MSG_EXECUTE_CALLBACK userData ts \<Rightarrow>
                       Some (st1\<lparr>cw_calls := cw_calls st
                               @ execute_callback now (UserNotifyCb st) (UserDataCb st) userData ts\<rparr>)
                   | MSG_UPDATE_CALLBACKS data ts \<Rightarrow>
                       Some (st1\<lparr>UserNotifyCb := NewUserNotifyCb data, UserDataCb := NewUserDataCb data\<rparr>)
                   | MSG_EXIT_THREAD ts \<Rightarrow>
                       Some (st1\<lparr>m_queue := [], cw_running := False, cw_lost := cw_lost st @ filter has_data q\<rparr>)))"

section \<open>Interleavings\<close>

text \<open>Steps of the thread and of the client that waits for it, and steps of other clients.\<close>

inductive exit_step :: "callback_worker \<Rightarrow> callback_worker \<Rightarrow> bool" where
  Worker: "Process_step now st = Some st' \<Longrightarrow> exit_step st st'"
| Join: "ExitThread_join st = Some st' \<Longrightarrow> exit_step st st'"

inductive client_step :: "callback_worker \<Rightarrow> callback_worker \<Rightarrow> bool" where
  Add: "AddCallback data now st = Some st' \<Longrightarrow> client_step st st'"
| Set: "SetCallbacks cbs now st = Some st' \<Longrightarrow> client_step st st'"
| Clear: "ClearCallbacks st = Some st' \<Longrightarrow> client_step st st'"

inductive_cases exit_stepE: "exit_step st st'"
inductive_cases client_stepE: "client_step st st'"

text \<open>The thread run over a list of times.\<close>

fun Process :: "int list \<Rightarrow> callback_worker \<Rightarrow> callback_worker" where
  "Process [] st = st"
| "Process (now # nows) st = (case Process_step now st of None \<Rightarrow> st | Some st' \<Rightarrow> Process nows st')"

section \<open>What the thread does with a queue\<close>

text \<open>The calls due for a sequence of messages, each taken at its time.\<close>

fun dispatch :: "nat option \<Rightarrow> nat option \<Rightarrow> (int \<times> thread_msg) list \<Rightarrow> user_call list" where
  "dispatch ncb dcb [] = []"
| "dispatch ncb dcb ((now, msg) # ms) =
     (case msg of
        MSG_EXECUTE_CALLBACK d ts \<Rightarrow> execute_callback now ncb dcb d ts @ dispatch ncb dcb ms
      | MSG_UPDATE_CALLBACKS d ts \<Rightarrow> dispatch (NewUserNotifyCb d) (NewUserDataCb d) ms
      | MSG_EXIT_THREAD ts \<Rightarrow> [])"

fun is_exit :: "thread_msg \<Rightarrow> bool" where
  "is_exit (MSG_EXIT_THREAD ts) = True"
| "is_exit _ = False"

lemma Process_queue:
  assumes "cw_running st" and "m_queue st = q @ MSG_EXIT_THREAD ts # rest" and "\<forall>m \<in> set q. \<not> is_exit m"
    and "length nows = length q"
  shows "\<exists>st'. Process (nows @ [now]) st = st' \<and> \<not> cw_running st' \<and> m_queue st' = [] \<and> cw_joining st' = cw_joining st
      \<and> m_thread st' = m_thread st \<and> cw_lost st' = cw_lost st @ filter has_data rest
      \<and> cw_calls st' = cw_calls st @ dispatch (UserNotifyCb st) (UserDataCb st) (zip nows q)"
  using assms
proof (induction q arbitrary: st nows)
  case Nil
  then show ?case by (simp add: Process_step_def Let_def)
next
  case (Cons m q)
  obtain t nows' where nows: "nows = t # nows'" using Cons.prems(4) by (cases nows) auto
  have m: "\<not> is_exit m" "\<forall>m \<in> set q. \<not> is_exit m" and len: "length nows' = length q"
    using Cons.prems(3,4) nows by auto
  show ?case
  proof (cases m)
    case (MSG_EXIT_THREAD x)
    then show ?thesis using m by simp
  next
    case (MSG_EXECUTE_CALLBACK d x)
    let ?st = "st\<lparr>m_queue := q @ MSG_EXIT_THREAD ts # rest,
      cw_calls := cw_calls st @ execute_callback t (UserNotifyCb st) (UserDataCb st) d x\<rparr>"
    have "Process_step t st = Some ?st"
      using Cons.prems(1,2) MSG_EXECUTE_CALLBACK by (simp add: Process_step_def Let_def)
    then show ?thesis using Cons.IH [of ?st nows'] Cons.prems(1) m(2) len nows MSG_EXECUTE_CALLBACK by simp
  next
    case (MSG_UPDATE_CALLBACKS d x)
    let ?st = "st\<lparr>m_queue := q @ MSG_EXIT_THREAD ts # rest,
      UserNotifyCb := NewUserNotifyCb d, UserDataCb := NewUserDataCb d\<rparr>"
    have "Process_step t st = Some ?st"
      using Cons.prems(1,2) MSG_UPDATE_CALLBACKS by (simp add: Process_step_def Let_def)
    then show ?thesis using Cons.IH [of ?st nows'] Cons.prems(1) m(2) len nows MSG_UPDATE_CALLBACKS by simp
  qed
qed

text \<open>
  Property C23. Leaving works: with a queue \<open>q\<close> of callbacks and updates, the thread takes
  exactly \<open>length q + 1\<close> turns after \<open>ExitThread\<close> has posted its message, makes the calls
  that are due for \<open>q\<close> in the order they were queued, each with the callbacks set last before it, and
  the client that waits returns from \<open>join\<close> without a thread.
\<close>

theorem exit_thread_returns:
  assumes "m_thread st" and "cw_running st" and "\<forall>m \<in> set (m_queue st). \<not> is_exit m"
    and "length nows = length (m_queue st)"
  shows "\<exists>st1 st2. Process (nows @ [now]) (ExitThread_post ts st) = st1 \<and> ExitThread_join st1 = Some st2
    \<and> \<not> m_thread st2 \<and> m_queue st2 = [] \<and> cw_lost st2 = cw_lost st
    \<and> cw_calls st2 = cw_calls st @ dispatch (UserNotifyCb st) (UserDataCb st) (zip nows (m_queue st))"
proof -
  let ?st = "ExitThread_post ts st"
  have "cw_running ?st" "m_queue ?st = m_queue st @ MSG_EXIT_THREAD ts # []" "cw_joining ?st"
    "cw_lost ?st = cw_lost st" "cw_calls ?st = cw_calls st" "UserNotifyCb ?st = UserNotifyCb st"
    "UserDataCb ?st = UserDataCb st"
    using assms(1,2) by (simp_all add: ExitThread_post_def)
  then show ?thesis using Process_queue [of ?st "m_queue st" ts "[]" nows now] assms(3,4)
    by (auto simp: ExitThread_join_def)
qed

definition sample_notify :: worker_message where
  "sample_notify = \<lparr>CbType = CB_TYPE_NOTIFY, wm_msg_type = 4, wm_data = 0, wm_index = 0, wm_metadata = 0,
     wm_user = 9, wm_ext1 = 1, wm_ext2 = 0\<rparr>"

definition sample_worker :: callback_worker where
  "sample_worker = \<lparr>m_thread = True, m_queue = [MSG_UPDATE_CALLBACKS \<lparr>NewUserNotifyCb = Some 7, NewUserDataCb = None\<rparr> 0,
       MSG_EXECUTE_CALLBACK sample_notify 1], cw_running = True, cw_joining = False,
     UserNotifyCb = None, UserDataCb = None, cw_calls = [], cw_lost = []\<rparr>"

theorem exit_thread_returns_witness:
  "\<exists>st1 st2. Process [2, 3, 4] (ExitThread_post 2 sample_worker) = st1 \<and> ExitThread_join st1 = Some st2
     \<and> cw_calls st2 = [NotifyCall 7 4 1 0 9]"
proof -
  have "m_thread sample_worker" "cw_running sample_worker" "\<forall>m \<in> set (m_queue sample_worker). \<not> is_exit m"
    "length [2, 3] = length (m_queue sample_worker)"
    by (simp_all add: sample_worker_def)
  from exit_thread_returns [OF this, of 4 2] show ?thesis
    by (auto simp: sample_worker_def execute_callback_def sample_notify_def)
qed

text \<open>A client waits for the thread, and no message tells the thread to leave.\<close>

definition stuck_inv :: "callback_worker \<Rightarrow> bool" where
  "stuck_inv st \<longleftrightarrow> m_thread st \<and> cw_running st \<and> cw_joining st \<and> (\<forall>m \<in> set (m_queue st). \<not> is_exit m)"

lemma stuck_inv_step:
  assumes "stuck_inv st" and "exit_step st st' \<or> client_step st st'"
  shows "stuck_inv st'"
  using assms
  by (auto simp: stuck_inv_def Process_step_def ExitThread_join_def AddCallback_def SetCallbacks_def ClearCallbacks_def
      Let_def elim!: exit_stepE client_stepE split: if_splits list.splits thread_msg.splits)

text \<open>
  \<open>ClearCallbacks\<close> also clears the message of \<open>ExitThread\<close>: if a client
  clears the queue after the message was posted, neither the thread nor the waiting client can
  take a step any more, whatever callbacks are queued or cleared afterwards, once the thread
  has worked them off.
\<close>

theorem exit_message_lost:
  assumes "m_thread st" and "cw_running st" and "ClearCallbacks (ExitThread_post ts st) = Some st1"
    and "(\<lambda>s s'. exit_step s s' \<or> client_step s s')\<^sup>*\<^sup>* st1 st2"
  shows "ExitThread_join st2 = None \<and> (m_queue st2 = [] \<longrightarrow> (\<nexists>st3. exit_step st2 st3))"
proof -
  have "stuck_inv st1"
    using assms(1-3) by (auto simp: stuck_inv_def ClearCallbacks_def ExitThread_post_def split: if_splits)
  with assms(4) have "stuck_inv st2"
    by (induction rule: rtranclp_induct) (auto intro: stuck_inv_step)
  then have run: "cw_running st2" by (simp add: stuck_inv_def)
  then have join: "ExitThread_join st2 = None" by (simp add: ExitThread_join_def)
  moreover have "Process_step now st2 = None" if "m_queue st2 = []" for now
    using that by (simp add: Process_step_def)
  ultimately show ?thesis by (auto elim!: exit_stepE)
qed

theorem exit_message_lost_witness:
  "\<exists>st1. ClearCallbacks (ExitThread_post 2 sample_worker) = Some st1 \<and> (\<nexists>st2. exit_step st1 st2)"
proof -
  obtain st1 where st1: "ClearCallbacks (ExitThread_post 2 sample_worker) = Some st1" "m_queue st1 = []"
    by (simp add: ClearCallbacks_def ExitThread_post_def sample_worker_def)
  have "m_thread sample_worker" "cw_running sample_worker" by (simp_all add: sample_worker_def)
  from exit_message_lost [OF this st1(1) rtranclp.rtrancl_refl] st1 show ?thesis by blast
qed

end
