(* ===== verification/Camera_Wrapper.thy ===== *)
theory Camera_Wrapper
  imports Callback_Worker Camera_Parameters "HOL-Library.Monad_Syntax"
begin

text \<open>
  The wrapper of \<open>camera/Camera2Wrapper.cpp\<close> around the camera module of the vendor. That module
  is a parameter: what a call returns and the callbacks it makes on its own threads before it
  returns. \<open>dev\<close> is whether the device pointer is not null; every operation of a device
  logs \<open>device->vendor\<close> before it tests the pointer, so that null is a fault (\<^const>\<open>None\<close>), as is a failed
  assertion of the worker. A call takes the time as an argument.
\<close>

section \<open>The module of the vendor\<close>

datatype hal_cb =
    HalNotify int int int nat
  | HalData int nat u32 nat nat

datatype vendor_call =
    V_set_preview_window nat | V_set_callbacks nat nat nat | V_enable_msg_type int | V_disable_msg_type int
  | V_msg_type_enabled int | V_start_preview | V_stop_preview | V_preview_enabled
  | V_store_meta_data_in_buffers int | V_start_recording | V_stop_recording | V_recording_enabled
  | V_release_recording_frame nat | V_auto_focus | V_cancel_auto_focus | V_take_picture | V_cancel_picture
  | V_set_parameters string | V_put_parameters string | V_send_command int int int | V_release | V_dump int | V_close

record 'v vendor_ops =
  v_op :: "vendor_call \<Rightarrow> 'v \<Rightarrow> int \<times> 'v \<times> hal_cb list"
  v_get_parameters :: "'v \<Rightarrow> string \<times> 'v"
  v_module :: "'v \<Rightarrow> int"
  v_number_of_cameras :: "'v \<Rightarrow> int"
  v_open_legacy :: "string \<Rightarrow> 'v \<Rightarrow> int \<times> 'v"

record 'v camera2 =
  cbThread :: callback_worker
  BlockCbs :: int
  CancelAFTimeGuard :: int
  gVendorModule :: bool
  c2_vendor :: 'v

definition EINVAL :: int where "EINVAL = 22"
definition ENOMEM :: int where "ENOMEM = 12"

section \<open>Callbacks\<close>

text \<open>A new message is zeroed before its fields are set.\<close>

definition zero_message :: worker_message where
  "zero_message = \<lparr>CbType = 0, wm_msg_type = 0, wm_data = 0, wm_index = 0, wm_metadata = 0, wm_user = 0,
     wm_ext1 = 0, wm_ext2 = 0\<rparr>"

definition WrappedNotifyCb :: "int \<Rightarrow> int \<Rightarrow> int \<Rightarrow> int \<Rightarrow> nat \<Rightarrow> 'v camera2 \<Rightarrow> 'v camera2 option" where
  "WrappedNotifyCb now mt e1 e2 user st =
     (if BlockCbs st = 1 then Some st
      else map_option (\<lambda>w. st\<lparr>cbThread := w\<rparr>)
        (AddCallback (zero_message\<lparr>CbType := CB_TYPE_NOTIFY, wm_msg_type := mt, wm_ext1 := e1, wm_ext2 := e2,
           wm_user := user\<rparr>) now (cbThread st)))"

definition WrappedDataCb ::
    "int \<Rightarrow> int \<Rightarrow> nat \<Rightarrow> u32 \<Rightarrow> nat \<Rightarrow> nat \<Rightarrow> 'v camera2 \<Rightarrow> 'v camera2 option" where
  "WrappedDataCb now mt data idx meta user st =
     (if BlockCbs st = 1 then Some st
      else map_option (\<lambda>w. st\<lparr>cbThread := w\<rparr>)
        (AddCallback (zero_message\<lparr>CbType := CB_TYPE_DATA, wm_msg_type := mt, wm_data := data, wm_index := idx,
           wm_metadata := meta, wm_user := user\<rparr>) now (cbThread st)))"

fun deliver :: "int \<Rightarrow> hal_cb list \<Rightarrow> 'v camera2 \<Rightarrow> 'v camera2 option" where
  "deliver now [] st = Some st"
| "deliver now (HalNotify mt e1 e2 user # cs) st =
     Option.bind (WrappedNotifyCb now mt e1 e2 user st) (deliver now cs)"
| "deliver now (HalData mt data idx meta user # cs) st =
     Option.bind (WrappedDataCb now mt data idx meta user st) (deliver now cs)"

text \<open>\<open>VENDOR_CALL\<close>: the callbacks arrive while the call runs.\<close>

definition VENDOR_CALL ::
    "'v vendor_ops \<Rightarrow> int \<Rightarrow> vendor_call \<Rightarrow> 'v camera2 \<Rightarrow> (int \<times> 'v camera2) option" where
  "VENDOR_CALL vo now c st =
     (case v_op vo c (c2_vendor st) of
        (r, v, cbs) \<Rightarrow> map_option (\<lambda>st'. (r, st')) (deliver now cbs (st\<lparr>c2_vendor := v\<rparr>)))"

section \<open>Parameters\<close>

definition video_size_values :: string where
  "video_size_values = ''3840x2160,2560x1440,1920x1080,1440x1080,1088x1088,1280x720,960x720,800x450,720x480,640x480,480x320,352x288,320x240,256x144,176x144''"

definition camera2_fixup_getparams :: "'m keyed_vector \<Rightarrow> string \<Rightarrow> string" where
  "camera2_fixup_getparams kv settings =
     flatten kv (cp_set kv (Some ''video-size-values'') (Some video_size_values) (unflatten kv settings))"

definition camera2_fixup_setparams :: "'m keyed_vector \<Rightarrow> string \<Rightarrow> string" where
  "camera2_fixup_setparams kv settings = flatten kv (unflatten kv settings)"

section \<open>Operations of a device\<close>

definition pass_int ::
    "'v vendor_ops \<Rightarrow> vendor_call \<Rightarrow> int \<Rightarrow> bool \<Rightarrow> 'v camera2 \<Rightarrow> (int \<times> 'v camera2) option" where
  "pass_int vo c now dev st = (if \<not> dev then None else VENDOR_CALL vo now c st)"

definition pass_void ::
    "'v vendor_ops \<Rightarrow> vendor_call \<Rightarrow> int \<Rightarrow> bool \<Rightarrow> 'v camera2 \<Rightarrow> 'v camera2 option" where
  "pass_void vo c now dev st = (if \<not> dev then None else map_option snd (VENDOR_CALL vo now c st))"

definition camera2_set_preview_window where "camera2_set_preview_window vo window = pass_int vo (V_set_preview_window window)"
definition camera2_enable_msg_type where "camera2_enable_msg_type vo mt = pass_void vo (V_enable_msg_type mt)"
definition camera2_disable_msg_type where "camera2_disable_msg_type vo mt = pass_void vo (V_disable_msg_type mt)"
definition camera2_msg_type_enabled where "camera2_msg_type_enabled vo mt = pass_int vo (V_msg_type_enabled mt)"
definition camera2_start_preview where "camera2_start_preview vo = pass_int vo V_start_preview"
definition camera2_preview_enabled where "camera2_preview_enabled vo = pass_int vo V_preview_enabled"
definition camera2_store_meta_data_in_buffers where
  "camera2_store_meta_data_in_buffers vo enable = pass_int vo (V_store_meta_data_in_buffers enable)"
definition camera2_start_recording where "camera2_start_recording vo = pass_int vo V_start_recording"
definition camera2_stop_recording where "camera2_stop_recording vo = pass_void vo V_stop_recording"
definition camera2_recording_enabled where "camera2_recording_enabled vo = pass_int vo V_recording_enabled"
definition camera2_release_recording_frame where
  "camera2_release_recording_frame vo opaque = pass_void vo (V_release_recording_frame opaque)"
definition camera2_take_picture where "camera2_take_picture vo = pass_int vo V_take_picture"
definition camera2_cancel_picture where "camera2_cancel_picture vo = pass_int vo V_cancel_picture"
definition camera2_send_command where
  "camera2_send_command vo cmd arg1 arg2 = pass_int vo (V_send_command cmd arg1 arg2)"
definition camera2_release where "camera2_release vo = pass_void vo V_release"
definition camera2_dump where "camera2_dump vo fd = pass_int vo (V_dump fd)"

definition camera2_set_callbacks ::
    "'v vendor_ops \<Rightarrow> nat option \<Rightarrow> nat option \<Rightarrow> nat \<Rightarrow> nat \<Rightarrow> nat \<Rightarrow> int \<Rightarrow> bool \<Rightarrow> 'v camera2 \<Rightarrow> 'v camera2 option" where
  "camera2_set_callbacks vo notify_cb data_cb ts_cb get_memory user now dev st =
     (if \<not> dev then None
      else do { w \<leftarrow> SetCallbacks \<lparr>NewUserNotifyCb = notify_cb, NewUserDataCb = data_cb\<rparr> now (cbThread st);
                (r, st') \<leftarrow> VENDOR_CALL vo now (V_set_callbacks ts_cb get_memory user) (st\<lparr>cbThread := w\<rparr>);
                Some st' })"

definition camera2_stop_preview :: "'v vendor_ops \<Rightarrow> int \<Rightarrow> bool \<Rightarrow> 'v camera2 \<Rightarrow> 'v camera2 option" where
  "camera2_stop_preview vo now dev st =
     (if \<not> dev then None
      else do { w \<leftarrow> ClearCallbacks (cbThread st);
                (r, st') \<leftarrow> VENDOR_CALL vo now V_stop_preview (st\<lparr>BlockCbs := 1, cbThread := w\<rparr>);
                Some (st'\<lparr>BlockCbs := 0\<rparr>) })"

definition camera2_auto_focus :: "'v vendor_ops \<Rightarrow> int \<Rightarrow> bool \<Rightarrow> 'v camera2 \<Rightarrow> (int \<times> 'v camera2) option" where
  "camera2_auto_focus vo now dev st =
     (if \<not> dev then None
      else do { w \<leftarrow> ClearCallbacks (cbThread st);
                (r, st') \<leftarrow> VENDOR_CALL vo now V_auto_focus (st\<lparr>cbThread := w\<rparr>);
                Some (r, st'\<lparr>CancelAFTimeGuard := now + 500\<rparr>) })"

definition camera2_cancel_auto_focus :: "'v vendor_ops \<Rightarrow> int \<Rightarrow> bool \<Rightarrow> 'v camera2 \<Rightarrow> (int \<times> 'v camera2) option" where
  "camera2_cancel_auto_focus vo now dev st =
     (if \<not> dev then None
      else do { w \<leftarrow> ClearCallbacks (cbThread st);
                let st1 = st\<lparr>BlockCbs := 1, cbThread := w\<rparr>;
                if CancelAFTimeGuard st - now > 0 then Some (0, st1)
                else do { (r, st2) \<leftarrow> VENDOR_CALL vo now V_cancel_auto_focus st1;
                          Some (r, st2\<lparr>BlockCbs := 0\<rparr>) } })"

definition camera2_set_parameters ::
    "'v vendor_ops \<Rightarrow> 'm keyed_vector \<Rightarrow> string \<Rightarrow> int \<Rightarrow> bool \<Rightarrow> 'v camera2 \<Rightarrow> (int \<times> 'v camera2) option" where
  "camera2_set_parameters vo kv params now dev st =
     (if \<not> dev then None else VENDOR_CALL vo now (V_set_parameters (camera2_fixup_setparams kv params)) st)"

definition camera2_get_parameters ::
    "'v vendor_ops \<Rightarrow> 'm keyed_vector \<Rightarrow> int \<Rightarrow> bool \<Rightarrow> 'v camera2 \<Rightarrow> (string \<times> 'v camera2) option" where
  "camera2_get_parameters vo kv now dev st =
     (if \<not> dev then None
      else case v_get_parameters vo (c2_vendor st) of
             (params, v) \<Rightarrow>
               do { (r, st') \<leftarrow> VENDOR_CALL vo now (V_put_parameters params) (st\<lparr>c2_vendor := v\<rparr>);
                    Some (camera2_fixup_getparams kv params, st') })"

section \<open>Opening and closing\<close>

definition check_vendor_module :: "'v vendor_ops \<Rightarrow> 'v camera2 \<Rightarrow> int \<times> 'v camera2" where
  "check_vendor_module vo st =
     (if gVendorModule st then (0, st)
      else let rv = v_module vo (c2_vendor st) in (rv, st\<lparr>gVendorModule := rv = 0\<rparr>))"

definition atoi :: "nat \<Rightarrow> string \<Rightarrow> int" where
  "atoi lb s = signed_take_bit 31 (fst (strtol lb 10 s))"

text \<open>What becomes of the pointer to the device.\<close>

datatype device_out = Untouched | NullDevice | Device int

text \<open>\<open>mem1\<close> and \<open>mem2\<close> are whether the two allocations succeed.\<close>

definition camera2_device_open ::
    "nat \<Rightarrow> bool \<Rightarrow> bool \<Rightarrow> 'v vendor_ops \<Rightarrow> string option \<Rightarrow> 'v camera2 \<Rightarrow> int \<times> device_out \<times> 'v camera2" where
  "camera2_device_open lb mem1 mem2 vo name st =
     (let st1 = st\<lparr>cbThread := CreateThread (cbThread st), BlockCbs := 0\<rparr>
      in case name of
           None \<Rightarrow> (0, Untouched, st1)
         | Some n \<Rightarrow>
             (case check_vendor_module vo st1 of
                (rv, st2) \<Rightarrow>
                  if rv \<noteq> 0 then (- EINVAL, Untouched, st2)
                  else if atoi lb n > v_number_of_cameras vo (c2_vendor st2) then (- EINVAL, NullDevice, st2)
                  else if \<not> mem1 then (- ENOMEM, NullDevice, st2)
                  else case v_open_legacy vo n (c2_vendor st2) of
                         (rv, v) \<Rightarrow>
                           (let st3 = st2\<lparr>c2_vendor := v\<rparr>
                            in if rv \<noteq> 0 then (rv, NullDevice, st3)
                               else if \<not> mem2 then (- ENOMEM, NullDevice, st3)
                               else (0, Device (atoi lb n), st3))))"

text \<open>Closing up to the wait for the worker, which \<open>exit_step\<close> goes on with.\<close>

definition camera2_device_close :: "'v vendor_ops \<Rightarrow> int \<Rightarrow> bool \<Rightarrow> 'v camera2 \<Rightarrow> (int \<times> 'v camera2) option" where
  "camera2_device_close vo now dev st =
     (if \<not> dev then Some (- EINVAL, st\<lparr>cbThread := ExitThread_post now (cbThread st)\<rparr>)
      else do { (r, st') \<leftarrow> VENDOR_CALL vo now V_close st;
                Some (0, st'\<lparr>cbThread := ExitThread_post now (cbThread st')\<rparr>) })"

section \<open>Blocked callbacks\<close>

lemma deliver_blocked: "BlockCbs st = 1 \<Longrightarrow> deliver now cbs st = Some st"
  by (induction now cbs st rule: deliver.induct) (simp_all add: WrappedNotifyCb_def WrappedDataCb_def)

lemma VENDOR_CALL_blocked:
  assumes "BlockCbs st = 1"
  shows "\<exists>r v. VENDOR_CALL vo now c st = Some (r, st\<lparr>c2_vendor := v\<rparr>)"
proof -
  obtain r v cbs where "v_op vo c (c2_vendor st) = (r, v, cbs)" by (cases "v_op vo c (c2_vendor st)")
  then show ?thesis using assms deliver_blocked [of "st\<lparr>c2_vendor := v\<rparr>"] by (auto simp: VENDOR_CALL_def)
qed

lemma deliver_frame:
  assumes "deliver now cbs st = Some st'"
  shows "BlockCbs st' = BlockCbs st \<and> CancelAFTimeGuard st' = CancelAFTimeGuard st \<and> c2_vendor st' = c2_vendor st
    \<and> m_thread (cbThread st') = m_thread (cbThread st)"
  using assms
  by (induction now cbs st rule: deliver.induct)
    (auto simp: WrappedNotifyCb_def WrappedDataCb_def AddCallback_def Option.bind_eq_Some_conv split: if_splits)

lemma deliver_returns: "m_thread (cbThread st) \<Longrightarrow> \<exists>st'. deliver now cbs st = Some st'"
proof (induction now cbs st rule: deliver.induct)
  case (2 now mt e1 e2 user cs st)
  then show ?case by (auto simp: WrappedNotifyCb_def AddCallback_def)
next
  case (3 now mt data idx meta user cs st)
  then show ?case by (auto simp: WrappedDataCb_def AddCallback_def)
qed simp

lemma VENDOR_CALL_returns:
  assumes "m_thread (cbThread st)"
  shows "\<exists>r st'. VENDOR_CALL vo now c st = Some (r, st') \<and> BlockCbs st' = BlockCbs st
      \<and> CancelAFTimeGuard st' = CancelAFTimeGuard st \<and> m_thread (cbThread st')"
proof -
  obtain r v cbs where v: "v_op vo c (c2_vendor st) = (r, v, cbs)" by (cases "v_op vo c (c2_vendor st)")
  obtain st' where st': "deliver now cbs (st\<lparr>c2_vendor := v\<rparr>) = Some st'"
    using deliver_returns [of "st\<lparr>c2_vendor := v\<rparr>"] assms by auto
  then show ?thesis using v deliver_frame [OF st'] assms by (simp add: VENDOR_CALL_def)
qed

text \<open>
  Cancelling the auto focus within 500 ms of starting it returns success without
  calling the vendor and leaves the callbacks blocked: from then on every callback of the camera is
  dropped, also those that arrive during any later operation that does not unblock them itself.
\<close>

theorem cancel_auto_focus_blocks:
  assumes "m_thread (cbThread st)" and "camera2_auto_focus vo now1 True st = Some (r, st1)" and "now2 < now1 + 500"
  shows "\<exists>st2. camera2_cancel_auto_focus vo now2 True st1 = Some (0, st2) \<and> c2_vendor st2 = c2_vendor st1
    \<and> (\<forall>now cbs. deliver now cbs st2 = Some st2)
    \<and> (\<forall>now c. \<exists>r v. VENDOR_CALL vo now c st2 = Some (r, st2\<lparr>c2_vendor := v\<rparr>))"
proof -
  obtain w0 where w0: "ClearCallbacks (cbThread st) = Some w0" "m_thread w0"
    using assms(1) by (simp add: ClearCallbacks_def)
  obtain r' st' where "VENDOR_CALL vo now1 V_auto_focus (st\<lparr>cbThread := w0\<rparr>) = Some (r', st')" "m_thread (cbThread st')"
    using VENDOR_CALL_returns [of "st\<lparr>cbThread := w0\<rparr>" vo now1 V_auto_focus] w0(2) by auto
  then have st1: "CancelAFTimeGuard st1 = now1 + 500" "m_thread (cbThread st1)"
    using assms(2) w0(1) by (auto simp: camera2_auto_focus_def)
  then obtain w where w: "ClearCallbacks (cbThread st1) = Some w" by (simp add: ClearCallbacks_def)
  let ?st2 = "st1\<lparr>BlockCbs := 1, cbThread := w\<rparr>"
  have "camera2_cancel_auto_focus vo now2 True st1 = Some (0, ?st2)"
    using st1 w assms(3) by (simp add: camera2_cancel_auto_focus_def Let_def)
  moreover have "BlockCbs ?st2 = 1" by simp
  ultimately show ?thesis using deliver_blocked [of ?st2] VENDOR_CALL_blocked [of ?st2] by auto
qed

definition null_vendor :: "unit vendor_ops" where
  "null_vendor = \<lparr>v_op = (\<lambda>c v. (0, (), [])), v_get_parameters = (\<lambda>v. (''preview-size=1920x1080;zoom=3'', ())),
     v_module = (\<lambda>v. 0), v_number_of_cameras = (\<lambda>v. 2), v_open_legacy = (\<lambda>n v. (0, ()))\<rparr>"

definition sample_camera :: "unit camera2" where
  "sample_camera = \<lparr>cbThread = CreateThread worker_new, BlockCbs = 0, CancelAFTimeGuard = 0, gVendorModule = True,
     c2_vendor = ()\<rparr>"

theorem cancel_auto_focus_blocks_witness:
  "\<exists>st1 st2. camera2_auto_focus null_vendor 1000 True sample_camera = Some (0, st1)
     \<and> camera2_cancel_auto_focus null_vendor 1200 True st1 = Some (0, st2)
     \<and> deliver 2000 [HalNotify 1 2 3 4] st2 = Some st2"
proof -
  have thr: "m_thread (cbThread sample_camera)" by (simp add: sample_camera_def CreateThread_def)
  obtain st1 where st1: "camera2_auto_focus null_vendor 1000 True sample_camera = Some (0, st1)"
    using thr by (simp add: camera2_auto_focus_def ClearCallbacks_def VENDOR_CALL_def null_vendor_def)
  from cancel_auto_focus_blocks [OF thr st1, of 1200] obtain st2 where
    "camera2_cancel_auto_focus null_vendor 1200 True st1 = Some (0, st2)" "\<forall>now cbs. deliver now cbs st2 = Some st2"
    by auto
  then show ?thesis using st1 by blast
qed

section \<open>Stopping the preview\<close>

text \<open>A worker whose user callbacks are not set and who has nothing but callbacks to work off.\<close>

definition silent :: "callback_worker \<Rightarrow> bool" where
  "silent w \<longleftrightarrow> UserNotifyCb w = None \<and> UserDataCb w = None \<and> (\<forall>m \<in> set (m_queue w). \<exists>d ts. m = MSG_EXECUTE_CALLBACK d ts)"

lemma silent_step:
  assumes "silent w" and "Process_step now w = Some w'"
  shows "silent w' \<and> cw_calls w' = cw_calls w"
  using assms
  by (auto simp: silent_def Process_step_def execute_callback_def Let_def split: if_splits list.splits thread_msg.splits)

lemma silent_Process: "silent w \<Longrightarrow> silent (Process nows w) \<and> cw_calls (Process nows w) = cw_calls w"
  by (induction nows w rule: Process.induct) (auto split: option.splits dest: silent_step)

lemma silent_deliver: "silent (cbThread st) \<Longrightarrow> deliver now cbs st = Some st' \<Longrightarrow>
    silent (cbThread st') \<and> cw_calls (cbThread st') = cw_calls (cbThread st)"
  by (induction now cbs st rule: deliver.induct)
    (auto simp: WrappedNotifyCb_def WrappedDataCb_def AddCallback_def silent_def Option.bind_eq_Some_conv split: if_splits)

lemma stop_preview_law:
  assumes "m_thread (cbThread st)"
  shows "\<exists>v. camera2_stop_preview vo now True st = Some (st\<lparr>
    cbThread := (cbThread st)\<lparr>m_queue := [], cw_lost := cw_lost (cbThread st) @ filter has_data (m_queue (cbThread st))\<rparr>,
    c2_vendor := v, BlockCbs := 0\<rparr>)"
proof -
  let ?w = "(cbThread st)\<lparr>m_queue := [], cw_lost := cw_lost (cbThread st) @ filter has_data (m_queue (cbThread st))\<rparr>"
  have w: "ClearCallbacks (cbThread st) = Some ?w" using assms by (simp add: ClearCallbacks_def)
  obtain r v where "VENDOR_CALL vo now V_stop_preview (st\<lparr>BlockCbs := 1, cbThread := ?w\<rparr>)
      = Some (r, st\<lparr>BlockCbs := 1, cbThread := ?w, c2_vendor := v\<rparr>)"
    using VENDOR_CALL_blocked [of "st\<lparr>BlockCbs := 1, cbThread := ?w\<rparr>" vo now V_stop_preview] by auto
  then show ?thesis using w by (intro exI [of _ v]) (simp add: camera2_stop_preview_def)
qed

text \<open>
  Stopping the preview drops everything that is queued and every callback that
  arrives meanwhile; that includes the message with the user's callbacks. If the preview is
  stopped before the worker has taken that message from the queue of a new device, no callback of the camera reaches the
  user any more, whatever arrives and however long the worker runs.
\<close>

theorem stop_preview_loses_callbacks:
  assumes thr: "m_thread (cbThread st)" and none: "UserNotifyCb (cbThread st) = None" "UserDataCb (cbThread st) = None"
    and set: "camera2_set_callbacks vo ncb dcb ts_cb mem user now1 True st = Some st1"
    and stop: "camera2_stop_preview vo now2 True st1 = Some st2"
    and later: "deliver now3 cbs st2 = Some st3"
  shows "m_queue (cbThread st2) = [] \<and> BlockCbs st2 = 0
    \<and> MSG_UPDATE_CALLBACKS \<lparr>NewUserNotifyCb = ncb, NewUserDataCb = dcb\<rparr> now1 \<in> set (cw_lost (cbThread st2))
    \<and> cw_calls (Process nows (cbThread st3)) = cw_calls (cbThread st)"
proof -
  let ?upd = "MSG_UPDATE_CALLBACKS \<lparr>NewUserNotifyCb = ncb, NewUserDataCb = dcb\<rparr> now1"
  have frame: "\<exists>q. cbThread s' = (cbThread s)\<lparr>m_queue := m_queue (cbThread s) @ q\<rparr>"
    if "deliver n cs s = Some s'" for n cs and s s' :: "'a camera2"
    using that
  proof (induction n cs s rule: deliver.induct)
    case (1 n s)
    then show ?case by (auto intro: exI [of _ "[]"])
  qed (fastforce simp: WrappedNotifyCb_def WrappedDataCb_def AddCallback_def Option.bind_eq_Some_conv split: if_splits)+
  obtain r v cs where v: "v_op vo (V_set_callbacks ts_cb mem user) (c2_vendor st) = (r, v, cs)"
    by (cases "v_op vo (V_set_callbacks ts_cb mem user) (c2_vendor st)")
  have "\<exists>q. cbThread st1 = (cbThread st)\<lparr>m_queue := m_queue (cbThread st) @ ?upd # q\<rparr>"
    using set thr v frame
    by (fastforce simp: camera2_set_callbacks_def SetCallbacks_def VENDOR_CALL_def Option.bind_eq_Some_conv)
  then obtain q where st1: "cbThread st1 = (cbThread st)\<lparr>m_queue := m_queue (cbThread st) @ ?upd # q\<rparr>" ..
  then obtain v' where st2: "st2 = st1\<lparr>
      cbThread := (cbThread st1)\<lparr>m_queue := [], cw_lost := cw_lost (cbThread st1) @ filter has_data (m_queue (cbThread st1))\<rparr>,
      c2_vendor := v', BlockCbs := 0\<rparr>"
    using stop_preview_law [of st1 vo now2] stop thr by auto
  have "silent (cbThread st2)" using st1 st2 none by (simp add: silent_def)
  from silent_deliver [OF this later] silent_Process show ?thesis using st1 st2 by simp
qed

theorem stop_preview_loses_callbacks_witness:
  "\<exists>st1 st2 st3. camera2_set_callbacks null_vendor (Some 7) None 0 0 0 10 True sample_camera = Some st1
     \<and> camera2_stop_preview null_vendor 11 True st1 = Some st2
     \<and> deliver 20 [HalNotify 1 2 3 4] st2 = Some st3 \<and> cw_calls (Process [21, 22] (cbThread st3)) = []"
proof -
  have thr: "m_thread (cbThread sample_camera)" "UserNotifyCb (cbThread sample_camera) = None"
    "UserDataCb (cbThread sample_camera) = None" "cw_calls (cbThread sample_camera) = []"
    by (simp_all add: sample_camera_def CreateThread_def worker_new_def)
  obtain st1 where st1: "camera2_set_callbacks null_vendor (Some 7) None 0 0 0 10 True sample_camera = Some st1"
    "m_thread (cbThread st1)"
    using thr by (simp add: camera2_set_callbacks_def SetCallbacks_def VENDOR_CALL_def null_vendor_def)
  obtain st2 where st2: "camera2_stop_preview null_vendor 11 True st1 = Some st2" "m_thread (cbThread st2)"
    using stop_preview_law [OF st1(2), of null_vendor 11] st1(2) by auto
  obtain st3 where "deliver 20 [HalNotify 1 2 3 4] st2 = Some st3" using deliver_returns [OF st2(2)] by blast
  then show ?thesis
    using stop_preview_loses_callbacks [OF thr(1-3) st1(1) st2(1), of 20 "[HalNotify 1 2 3 4]" st3 "[21, 22]"] thr(4) st1 st2
    by auto
qed

end
