(* ===== verification/Bluetooth.thy ===== *)
theory Bluetooth
  imports C_Text "HOL-Library.Monad_Syntax"
begin

text \<open>
  The Bluetooth service: the text form and the choice of the device address
  (\<open>hardware/bluetooth/bluetooth_address.cc\<close>), the interface to the library of the vendor with its low power
  watchdog (\<open>vendor_interface.cc\<close>) and the service on top of it (\<open>bluetooth_hci.cc\<close>). The
  library of the vendor, the transport and the watcher of file descriptors are outside: what
  they answer is in \<open>bt_env\<close>, what they are told is the list \<open>bt_log\<close>. \<^const>\<open>None\<close> is a fault
  or an abort.
\<close>

type_synonym u16 = "16 word"

section \<open>Addresses\<close>

definition hex_char :: "nat \<Rightarrow> char" where
  "hex_char d = ''0123456789abcdef'' ! d"

definition hex2 :: "u8 \<Rightarrow> string" where
  "hex2 b = [hex_char (unat b div 16), hex_char (unat b mod 16)]"

fun bytes_to_string :: "u8 list \<Rightarrow> string" where
  "bytes_to_string [] = []"
| "bytes_to_string [b] = hex2 b"
| "bytes_to_string (b # bs) = hex2 b @ CHR '':'' # bytes_to_string bs"

text \<open>\<open>%02hhx\<close>: at most two characters, which may include a sign.\<close>

definition scan_hhx :: "string \<Rightarrow> (u8 \<times> string) option" where
  "scan_hhx s =
     (let t = skip_ws s; w = take 2 t; (neg, u) = split_sign w; ds = base_digits 16 u
      in if ds = [] then None
         else Some (word_of_int (if neg then - base_val 16 0 ds else base_val 16 0 ds),
                    drop (length w - length u + length ds) t))"

fun scan_bytes :: "nat \<Rightarrow> string \<Rightarrow> (u8 list \<times> string) option" where
  "scan_bytes 0 s = Some ([], s)"
| "scan_bytes (Suc n) s =
     do { (b, r) \<leftarrow> scan_hhx s;
          if n = 0 then Some ([b], r)
          else do { r1 \<leftarrow> scan_lit '':'' r; (bs, r2) \<leftarrow> scan_bytes n r1; Some (b # bs, r2) } }"

definition kStringLength :: nat where "kStringLength = 17"
definition kBytes :: nat where "kBytes = 6"

text \<open>A trailing character would be the seventh conversion.\<close>

definition string_to_bytes :: "string option \<Rightarrow> u8 list option" where
  "string_to_bytes str =
     (case str of
        None \<Rightarrow> None
      | Some s \<Rightarrow>
          if length s < kStringLength then None
          else case scan_bytes kBytes s of Some (bs, []) \<Rightarrow> Some bs | _ \<Rightarrow> None)"

text \<open>\<open>property_get\<close> without a default, and files that can be opened with their contents.\<close>

definition property_get :: "(string \<rightharpoonup> string) \<Rightarrow> string \<Rightarrow> string" where
  "property_get props k = (case props k of None \<Rightarrow> [] | Some v \<Rightarrow> v)"

definition file_address :: "(string \<rightharpoonup> string) \<Rightarrow> string \<Rightarrow> u8 list option" where
  "file_address files path =
     (case files path of
        None \<Rightarrow> None
      | Some t \<Rightarrow>
          (case string_to_bytes (Some (takeWhile (\<lambda>c. c \<noteq> CHR 0x00) (take kStringLength t))) of
             None \<Rightarrow> None
           | Some bs \<Rightarrow> if bs = replicate kBytes 0 then None else Some bs))"

definition property_address :: "(string \<rightharpoonup> string) \<Rightarrow> string \<Rightarrow> u8 list option" where
  "property_address props k =
     (let v = property_get props k in if v = [] then None else string_to_bytes (Some v))"

definition get_local_address :: "(string \<rightharpoonup> string) \<Rightarrow> (string \<rightharpoonup> string) \<Rightarrow> u8 list option" where
  "get_local_address props files =
     (let path = property_get props ''ro.bt.bdaddr_path'';
          from_file = (if path = [] then None else file_address files path)
      in case from_file of
           Some bs \<Rightarrow> Some bs
         | None \<Rightarrow>
             (case property_address props ''ro.boot.btmacaddr'' of
                Some bs \<Rightarrow> Some bs
              | None \<Rightarrow> property_address props ''persist.service.bdroid.bdaddr''))"

section \<open>The vendor interface\<close>

datatype bt_out =
    LibInit "u8 list" | OpPower bool | OpUserialOpen | OpUserialClose | OpFwCfg | OpScoCfg | OpGetLpmTimeout
  | OpLpmMode bool | OpWake bool | Cleanup | HciSend u8 "u8 list" | ConfigureTimeout u32 | StopWatching
  | InitComplete bool | IntCallback nat "u8 list" | EventCb "u8 list"

text \<open>
  What is outside: whether the library and its symbol are found, the local address, the result
  of \<open>init\<close>, the descriptors, the number of channels, the idle timeout, and constants of HCI.
\<close>

record bt_env =
  be_lib :: bool
  be_sym :: bool
  be_address :: "u8 list option"
  be_init :: int
  be_fd_count :: int
  be_fds :: "int list"
  be_ch_max :: int
  be_timeout :: u32
  be_complete_event :: u8
  be_preamble :: nat
  be_command_type :: u8

text \<open>\<open>g_vendor\<close> is whether the object exists; the other flags are its pointers that are not null.\<close>

record bt =
  g_vendor :: bool
  lib_handle :: bool
  lib_interface :: bool
  bt_hci :: bool
  initialize_complete_cb :: bool
  firmware_startup_timer :: bool
  lpm_wake_deasserted :: bool
  lpm_timeout_ms :: u32
  recent_activity_flag :: bool
  internal_cb :: "nat option"
  internal_opcode :: u16
  has_died :: bool
  unlink_cb :: bool
  bt_log :: "bt_out list"

definition emit :: "bt_out list \<Rightarrow> bt \<Rightarrow> bt" where
  "emit os st = st\<lparr>bt_log := bt_log st @ os\<rparr>"

text \<open>The checks of \<open>Open\<close> up to the descriptors.\<close>

definition fds_ok :: "bt_env \<Rightarrow> bool" where
  "fds_ok e \<longleftrightarrow> 1 \<le> be_fd_count e \<and> be_fd_count e \<le> be_ch_max e - 1
     \<and> (\<forall>fd \<in> set (take (nat (be_fd_count e)) (be_fds e)). fd \<noteq> - 1)"

definition Open :: "bt_env \<Rightarrow> bt \<Rightarrow> (bool \<times> bt) option" where
  "Open e st =
     (let st1 = st\<lparr>initialize_complete_cb := True\<rparr>
      in if \<not> be_lib e then Some (False, st1)
         else if \<not> be_sym e then Some (False, st1\<lparr>lib_handle := True\<rparr>)
         else
           (let st2 = st1\<lparr>lib_handle := True, lib_interface := True\<rparr>
            in case be_address e of
                 None \<Rightarrow> None
               | Some bda \<Rightarrow>
                   if be_init e \<noteq> 0 then Some (False, emit [LibInit bda] st2)
                   else
                     (let st3 = emit [LibInit bda, OpPower True, OpUserialOpen] st2
                      in if \<not> fds_ok e then Some (False, st3)
                         else Some (True, emit [OpFwCfg]
                                (st3\<lparr>bt_hci := True, lpm_wake_deasserted := True, firmware_startup_timer := True\<rparr>)))))"

definition Initialize :: "bt_env \<Rightarrow> bt \<Rightarrow> (bool \<times> bt) option" where
  "Initialize e st =
     (if g_vendor st then Some (False, st)
      else Open e (st\<lparr>g_vendor := True, lib_handle := False, lib_interface := False, bt_hci := False,
                       firmware_startup_timer := False\<rparr>))"

definition Close :: "bt \<Rightarrow> bt" where
  "Close st =
     (emit ((if lib_interface st then [OpLpmMode False] else []) @ [StopWatching]
        @ (if lib_interface st then [OpUserialClose, OpPower False, Cleanup] else [])) st)
     \<lparr>bt_hci := False, lib_handle := False, firmware_startup_timer := False\<rparr>"

definition Shutdown :: "bt \<Rightarrow> bt option" where
  "Shutdown st = (if \<not> g_vendor st then None else Some ((Close st)\<lparr>g_vendor := False\<rparr>))"

definition Send :: "u8 \<Rightarrow> u8 list \<Rightarrow> bt \<Rightarrow> bt option" where
  "Send ty data st =
     (if \<not> g_vendor st then None
      else
        do { st2 \<leftarrow>
               (if lpm_wake_deasserted st then
                  (if \<not> lib_interface st then None
                   else Some (emit [ConfigureTimeout (lpm_timeout_ms st), OpWake True]
                          (st\<lparr>recent_activity_flag := True, lpm_wake_deasserted := False\<rparr>)))
                else Some (st\<lparr>recent_activity_flag := True\<rparr>));
             if \<not> bt_hci st2 then None else Some (emit [HciSend ty data] st2) })"

definition OnFirmwareConfigured :: "bt_env \<Rightarrow> u8 \<Rightarrow> bt \<Rightarrow> bt option" where
  "OnFirmwareConfigured e result st =
     (if \<not> g_vendor st \<or> \<not> lib_interface st then None
      else Some (emit ((if initialize_complete_cb st then [InitComplete (result = 0)] else [])
                   @ [OpScoCfg, OpGetLpmTimeout, OpLpmMode True, ConfigureTimeout (be_timeout e)])
             (st\<lparr>firmware_startup_timer := False, initialize_complete_cb := False, lpm_timeout_ms := be_timeout e\<rparr>)))"

definition OnTimeout :: "bt \<Rightarrow> bt option" where
  "OnTimeout st =
     (if \<not> g_vendor st then None
      else if \<not> recent_activity_flag st then
        (if \<not> lib_interface st then None
         else Some (emit [OpWake False, ConfigureTimeout 0]
                (st\<lparr>lpm_wake_deasserted := True, recent_activity_flag := False\<rparr>)))
      else Some (st\<lparr>recent_activity_flag := False\<rparr>))"

definition internal_command_event_match :: "bt_env \<Rightarrow> u8 list \<Rightarrow> bt \<Rightarrow> bool option" where
  "internal_command_event_match e packet st =
     (if packet = [] then None
      else if packet ! 0 \<noteq> be_complete_event e then Some False
      else (let off = be_preamble e + 1
            in if length packet \<le> off + 1 then None
               else Some ((ucast (packet ! off) OR push_bit 8 (ucast (packet ! (off + 1)))) = internal_opcode st)))"

definition HandleIncomingEvent :: "bt_env \<Rightarrow> u8 list \<Rightarrow> bt \<Rightarrow> bt option" where
  "HandleIncomingEvent e packet st =
     (if \<not> g_vendor st then None
      else case internal_cb st of
        None \<Rightarrow> Some (emit [EventCb packet] st)
      | Some cb \<Rightarrow>
          (case internal_command_event_match e packet st of
             None \<Rightarrow> None
           | Some True \<Rightarrow> Some (emit [IntCallback cb packet] (st\<lparr>internal_cb := None\<rparr>))
           | Some False \<Rightarrow> Some (emit [EventCb packet] st)))"

text \<open>The library of the vendor sends a command of its own, with a callback that may be null.\<close>

definition transmit_cb :: "bt_env \<Rightarrow> u16 \<Rightarrow> u8 list \<Rightarrow> nat option \<Rightarrow> bt \<Rightarrow> bt option" where
  "transmit_cb e opcode data callback st =
     Send (be_command_type e) data (st\<lparr>internal_cb := callback, internal_opcode := opcode\<rparr>)"

section \<open>The service\<close>

definition bt_initialize :: "bt_env \<Rightarrow> bool \<Rightarrow> bt \<Rightarrow> bt option" where
  "bt_initialize e cb st =
     (if \<not> cb then Some st
      else do { (rc, st1) \<leftarrow> Initialize e (st\<lparr>has_died := False\<rparr>);
                Some ((if rc then st1 else emit [InitComplete False] st1)\<lparr>unlink_cb := True\<rparr>) })"

text \<open>Calling the empty function \<open>unlink_cb_\<close> aborts.\<close>

definition bt_close :: "bt \<Rightarrow> bt option" where
  "bt_close st = (if \<not> unlink_cb st then None else Shutdown st)"

definition serviceDied :: "bt \<Rightarrow> bt option" where
  "serviceDied st = bt_close (st\<lparr>has_died := True\<rparr>)"

definition sendHciCommand :: "u8 list \<Rightarrow> bt \<Rightarrow> bt option" where "sendHciCommand data = Send 1 data"
definition sendAclData :: "u8 list \<Rightarrow> bt \<Rightarrow> bt option" where "sendAclData data = Send 2 data"
definition sendScoData :: "u8 list \<Rightarrow> bt \<Rightarrow> bt option" where "sendScoData data = Send 3 data"

definition bt_new :: bt where
  "bt_new = \<lparr>g_vendor = False, lib_handle = False, lib_interface = False, bt_hci = False,
     initialize_complete_cb = False, firmware_startup_timer = False, lpm_wake_deasserted = False,
     lpm_timeout_ms = 0, recent_activity_flag = False, internal_cb = None, internal_opcode = 0,
     has_died = False, unlink_cb = False, bt_log = []\<rparr>"

inductive bt_step :: "bt \<Rightarrow> bt \<Rightarrow> bool" where
  Init: "bt_initialize e cb st = Some st' \<Longrightarrow> bt_step st st'"
| Close: "bt_close st = Some st' \<Longrightarrow> bt_step st st'"
| Died: "serviceDied st = Some st' \<Longrightarrow> bt_step st st'"
| Command: "sendHciCommand data st = Some st' \<Longrightarrow> bt_step st st'"
| Acl: "sendAclData data st = Some st' \<Longrightarrow> bt_step st st'"
| Sco: "sendScoData data st = Some st' \<Longrightarrow> bt_step st st'"
| Firmware: "OnFirmwareConfigured e r st = Some st' \<Longrightarrow> bt_step st st'"
| Timeout: "OnTimeout st = Some st' \<Longrightarrow> bt_step st st'"
| Event: "HandleIncomingEvent e packet st = Some st' \<Longrightarrow> bt_step st st'"
| Transmit: "transmit_cb e opcode data cbk st = Some st' \<Longrightarrow> bt_step st st'"

inductive_cases bt_stepE: "bt_step st st'"

end
