(* ===== verification/Bluetooth_Correct.thy ===== *)
theory Bluetooth_Correct
  imports Bluetooth
begin

text \<open>
  Addresses read back from their text form; packets only go to a controller that has been woken, which is put to
  sleep when idle; and a failed initialisation sticks until the service is closed.
\<close>

section \<open>Addresses\<close>

lemma hex_char:
  assumes "d < 16"
  shows "digit_of (hex_char d) = d" "\<not> c_isspace (hex_char d)" "hex_char d \<noteq> CHR ''-''" "hex_char d \<noteq> CHR ''+''"
proof -
  have "d = 0 \<or> d = 1 \<or> d = 2 \<or> d = 3 \<or> d = 4 \<or> d = 5 \<or> d = 6 \<or> d = 7 \<or> d = 8 \<or> d = 9 \<or> d = 10
      \<or> d = 11 \<or> d = 12 \<or> d = 13 \<or> d = 14 \<or> d = 15"
    using assms by presburger
  then show "digit_of (hex_char d) = d" "\<not> c_isspace (hex_char d)" "hex_char d \<noteq> CHR ''-''" "hex_char d \<noteq> CHR ''+''"
    by (elim disjE;
        simp add: hex_char_def digit_of_def c_isdigit_def c_isspace_def less_eq_char_def)+
qed

lemma nibbles: "unat (b :: u8) div 16 < 16" "unat b mod 16 < 16"
proof -
  have "unat b < 256" using unsigned_less [of b, where ?'a = nat] by simp
  then show "unat b div 16 < 16" by auto
qed simp

lemma scan_hhx_hex2: "scan_hhx (hex2 b @ r) = Some (b, r)"
proof -
  let ?h = "unat b div 16" and ?l = "unat b mod 16"
  note h = nibbles(1) [of b] and l = nibbles(2) [of b]
  have t: "skip_ws (hex2 b @ r) = hex2 b @ r" using hex_char(2) [OF h] by (simp add: hex2_def skip_ws_def)
  have sgn: "split_sign (hex2 b) = (False, hex2 b)" using hex_char(3,4) [OF h] by (simp add: hex2_def split_sign_def)
  have ds: "base_digits 16 (hex2 b) = hex2 b" using hex_char(1) [OF h] hex_char(1) [OF l] h l by (simp add: hex2_def base_digits_def)
  have "base_val 16 0 (hex2 b) = 16 * int ?h + int ?l"
    using hex_char(1) [OF h] hex_char(1) [OF l] by (simp only: hex2_def base_val.simps) simp
  also have "\<dots> = int (16 * ?h + ?l)" by (simp only: of_nat_add of_nat_mult of_nat_numeral)
  also have "\<dots> = int (unat b)" by (simp only: mult_div_mod_eq)
  finally have "base_val 16 0 (hex2 b) = uint b" by simp
  then show ?thesis using t sgn ds by (simp add: scan_hhx_def hex2_def Let_def)
qed

lemma scan_bytes_print: "bs \<noteq> [] \<Longrightarrow> scan_bytes (length bs) (bytes_to_string bs) = Some (bs, [])"
proof (induction bs rule: bytes_to_string.induct)
  case (2 b)
  then show ?case using scan_hhx_hex2 [of b "[]"] by simp
next
  case (3 b c bs)
  have "scan_bytes (Suc (length (c # bs))) (hex2 b @ CHR '':'' # bytes_to_string (c # bs)) = Some (b # c # bs, [])"
    by (subst scan_bytes.simps(2)) (use 3 in \<open>simp add: scan_hhx_hex2 del: scan_bytes.simps\<close>)
  then show ?case by (simp del: scan_bytes.simps)
qed simp

lemma length_bytes_to_string: "bs \<noteq> [] \<Longrightarrow> length (bytes_to_string bs) = 3 * length bs - 1"
  by (induction bs rule: bytes_to_string.induct) (auto simp: hex2_def)

lemma hex_char_not_nul: "d < 16 \<Longrightarrow> hex_char d \<noteq> CHR 0x00"
  using hex_char(1) [of d] by (auto simp: digit_of_def c_isdigit_def less_eq_char_def)

lemma bytes_to_string_nul: "CHR 0x00 \<notin> set (bytes_to_string bs)"
proof (induction bs rule: bytes_to_string.induct)
  case (2 b)
  then show ?case using hex_char_not_nul [OF nibbles(1) [of b]] hex_char_not_nul [OF nibbles(2) [of b]] by (auto simp: hex2_def)
next
  case (3 b c bs)
  then show ?case using hex_char_not_nul [OF nibbles(1) [of b]] hex_char_not_nul [OF nibbles(2) [of b]] by (auto simp: hex2_def)
qed simp

text \<open>
  An address reads back from its text form; an address in the configured file is the local
  address, whatever the properties hold, unless it is all zeros, in which case a factory address in the properties is.
\<close>

theorem bluetooth_address_roundtrip:
  assumes "length bs = 6" and "length zs = 6"
  shows "string_to_bytes (Some (bytes_to_string bs)) = Some bs
    \<and> (props ''ro.bt.bdaddr_path'' = Some path \<and> path \<noteq> [] \<and> files path = Some (bytes_to_string bs @ rest)
       \<longrightarrow> (bs \<noteq> replicate 6 0 \<longrightarrow> get_local_address props files = Some bs)
         \<and> (bs = replicate 6 0 \<and> props ''ro.boot.btmacaddr'' = Some (bytes_to_string zs)
              \<longrightarrow> get_local_address props files = Some zs))"
proof -
  have len: "length (bytes_to_string bs) = 17" "length (bytes_to_string zs) = 17"
    using assms length_bytes_to_string [of bs] length_bytes_to_string [of zs] by (cases bs; cases zs; auto)+
  have rt: "string_to_bytes (Some (bytes_to_string bs)) = Some bs" if "length bs = 6" for bs
    using that scan_bytes_print [of bs] length_bytes_to_string [of bs]
    by (cases "bs = []") (auto simp: string_to_bytes_def kStringLength_def kBytes_def)
  have "takeWhile (\<lambda>c. c \<noteq> CHR 0x00) (take kStringLength (bytes_to_string bs @ rest)) = bytes_to_string bs"
    using bytes_to_string_nul [of bs] len by (auto simp: kStringLength_def takeWhile_eq_all_conv)
  then have "file_address files path = (if bs = replicate 6 0 then None else Some bs)"
    if "files path = Some (bytes_to_string bs @ rest)"
    using that rt [OF assms(1)] by (simp add: file_address_def kBytes_def)
  moreover have "bytes_to_string zs \<noteq> []" using len by auto
  ultimately show ?thesis
    using rt [OF assms(1)] rt [OF assms(2)]
    by (auto simp: get_local_address_def property_get_def property_address_def Let_def)
qed

theorem bluetooth_address_roundtrip_witness:
  "string_to_bytes (Some (bytes_to_string [0, 1, 0xab, 3, 4, 0xff])) = Some [0, 1, 0xab, 3, 4, 0xff]"
  using bluetooth_address_roundtrip [of "[0, 1, 0xab, 3, 4, 0xff]" "[0, 0, 0, 0, 0, 0]"] by simp

section \<open>Wake and sleep\<close>

text \<open>Whether the controller is awake after a sequence of outputs, and was for every packet in it.\<close>

fun wake_after :: "bool \<Rightarrow> bt_out list \<Rightarrow> bool" where
  "wake_after w [] = w"
| "wake_after w (OpWake b # os) = wake_after b os"
| "wake_after w (_ # os) = wake_after w os"

fun sends_awake :: "bool \<Rightarrow> bt_out list \<Rightarrow> bool" where
  "sends_awake w [] = True"
| "sends_awake w (OpWake b # os) = sends_awake b os"
| "sends_awake w (HciSend ty data # os) = (w \<and> sends_awake w os)"
| "sends_awake w (_ # os) = sends_awake w os"

lemma wake_after_append: "wake_after w (xs @ ys) = wake_after (wake_after w xs) ys"
  by (induction w xs rule: wake_after.induct) simp_all

lemma sends_awake_append: "sends_awake w (xs @ ys) \<longleftrightarrow> sends_awake w xs \<and> sends_awake (wake_after w xs) ys"
  by (induction w xs rule: sends_awake.induct) auto

definition bt_inv :: "bt \<Rightarrow> bool" where
  "bt_inv st \<longleftrightarrow>
     sends_awake False (bt_log st)
     \<and> (bt_hci st \<longrightarrow> g_vendor st \<and> lib_interface st)
     \<and> (bt_hci st \<and> \<not> lpm_wake_deasserted st \<longrightarrow> wake_after False (bt_log st))"

lemma bt_inv_new: "bt_inv bt_new"
  by (simp add: bt_inv_def bt_new_def)

lemma Send_inv:
  assumes "bt_inv st" and "Send ty data st = Some st'"
  shows "bt_inv st' \<and> \<not> lpm_wake_deasserted st' \<and> recent_activity_flag st' \<and> bt_hci st' \<and> last (bt_log st') = HciSend ty data"
  using assms
  by (auto simp: bt_inv_def Send_def emit_def sends_awake_append wake_after_append Option.bind_eq_Some_conv split: if_splits)

lemma Initialize_inv:
  assumes "bt_inv st" and "Initialize e st = Some (b, st')"
  shows "bt_inv st' \<and> g_vendor st'"
  using assms
  by (auto simp: bt_inv_def Initialize_def Open_def emit_def sends_awake_append wake_after_append Let_def
      split: if_splits option.splits)

lemma bt_inv_upd:
  "bt_inv (st\<lparr>has_died := b\<rparr>) = bt_inv st" "bt_inv (st\<lparr>unlink_cb := b\<rparr>) = bt_inv st"
  "bt_inv (st\<lparr>internal_cb := c, internal_opcode := k\<rparr>) = bt_inv st"
  by (simp_all add: bt_inv_def)

lemma bt_initialize_inv:
  assumes "bt_inv st" and "bt_initialize e cb st = Some st'"
  shows "bt_inv st'"
proof (cases cb)
  case True
  then obtain rc st1 where i: "Initialize e (st\<lparr>has_died := False\<rparr>) = Some (rc, st1)"
    and st': "st' = (if rc then st1 else emit [InitComplete False] st1)\<lparr>unlink_cb := True\<rparr>"
    using assms(2) by (auto simp: bt_initialize_def Option.bind_eq_Some_conv)
  have "bt_inv st1" using Initialize_inv [OF _ i] assms(1) by (simp add: bt_inv_upd)
  then have "bt_inv (emit [InitComplete False] st1)" by (simp add: bt_inv_def emit_def sends_awake_append wake_after_append)
  then show ?thesis using st' \<open>bt_inv st1\<close> by (simp add: bt_inv_upd)
qed (use assms in \<open>simp add: bt_initialize_def\<close>)

lemma bt_close_inv: "bt_inv st \<Longrightarrow> bt_close st = Some st' \<Longrightarrow> bt_inv st'"
  by (auto simp: bt_inv_def bt_close_def Shutdown_def Close_def emit_def sends_awake_append split: if_splits)

lemma bt_step_inv:
  assumes "bt_step st st'" and "bt_inv st"
  shows "bt_inv st'"
  using assms(1)
proof cases
  case (Init e cb)
  then show ?thesis using bt_initialize_inv assms(2) by blast
next
  case Close
  then show ?thesis using bt_close_inv assms(2) by blast
next
  case Died
  then show ?thesis using bt_close_inv [of "st\<lparr>has_died := True\<rparr>" st'] assms(2) by (simp add: serviceDied_def bt_inv_upd)
next
  case (Transmit e opcode data cbk)
  then show ?thesis
    using Send_inv [of "st\<lparr>internal_cb := cbk, internal_opcode := opcode\<rparr>"] assms(2) by (auto simp: transmit_cb_def bt_inv_upd)
next
  case (Event e packet)
  then show ?thesis
    using assms(2)
    by (auto simp: bt_inv_def HandleIncomingEvent_def emit_def sends_awake_append wake_after_append
        split: if_splits option.splits bool.splits)
next
  case (Command data)
  then show ?thesis using Send_inv [OF assms(2)] by (simp add: sendHciCommand_def)
next
  case (Acl data)
  then show ?thesis using Send_inv [OF assms(2)] by (simp add: sendAclData_def)
next
  case (Sco data)
  then show ?thesis using Send_inv [OF assms(2)] by (simp add: sendScoData_def)
next
  case (Firmware e r)
  then show ?thesis
    using assms(2) by (auto simp: bt_inv_def OnFirmwareConfigured_def emit_def sends_awake_append wake_after_append split: if_splits)
next
  case Timeout
  then show ?thesis
    using assms(2) by (auto simp: bt_inv_def OnTimeout_def emit_def sends_awake_append wake_after_append split: if_splits)
qed

lemma bt_reach_inv: "bt_step\<^sup>*\<^sup>* bt_new st \<Longrightarrow> bt_inv st"
  by (induction rule: rtranclp_induct) (auto intro: bt_inv_new bt_step_inv)

text \<open>
  Property C27. In every history of the service, each packet is sent while the controller is awake. With an
  open transport every packet can be sent, and after a packet the controller is put to
  sleep by the second timeout without another packet.
\<close>

theorem bluetooth_sends_awake:
  assumes "bt_step\<^sup>*\<^sup>* bt_new st"
  shows "sends_awake False (bt_log st)
    \<and> (bt_hci st \<longrightarrow>
        (\<exists>st1 st2 st3. Send ty data st = Some st1 \<and> last (bt_log st1) = HciSend ty data
           \<and> OnTimeout st1 = Some st2 \<and> bt_log st2 = bt_log st1 \<and> \<not> lpm_wake_deasserted st2
           \<and> OnTimeout st2 = Some st3 \<and> lpm_wake_deasserted st3 \<and> \<not> wake_after False (bt_log st3)))"
proof -
  have inv: "bt_inv st" by (rule bt_reach_inv [OF assms])
  have "\<exists>st1 st2 st3. Send ty data st = Some st1 \<and> last (bt_log st1) = HciSend ty data
           \<and> OnTimeout st1 = Some st2 \<and> bt_log st2 = bt_log st1 \<and> \<not> lpm_wake_deasserted st2
           \<and> OnTimeout st2 = Some st3 \<and> lpm_wake_deasserted st3 \<and> \<not> wake_after False (bt_log st3)"
    if "bt_hci st"
  proof -
    have "g_vendor st" "lib_interface st" "bt_hci st" using inv that by (simp_all add: bt_inv_def)
    then obtain st1 where st1: "Send ty data st = Some st1" "g_vendor st1" "lib_interface st1"
      by (cases "lpm_wake_deasserted st") (simp_all add: Send_def emit_def)
    from Send_inv [OF inv st1(1)] have "\<not> lpm_wake_deasserted st1" "recent_activity_flag st1" "last (bt_log st1) = HciSend ty data"
      by simp_all
    then show ?thesis using st1 by (simp add: OnTimeout_def emit_def wake_after_append)
  qed
  then show ?thesis using inv by (simp add: bt_inv_def)
qed

definition sample_env :: bt_env where
  "sample_env = \<lparr>be_lib = True, be_sym = True, be_address = Some [0, 1, 2, 3, 4, 5], be_init = 0, be_fd_count = 1,
     be_fds = [3, 0, 0, 0], be_ch_max = 4, be_timeout = 3000, be_complete_event = 14, be_preamble = 2, be_command_type = 1\<rparr>"

theorem bluetooth_sends_awake_witness:
  "\<exists>st st1. bt_initialize sample_env True bt_new = Some st \<and> Send 1 [3, 12, 0] st = Some st1
     \<and> last (bt_log st1) = HciSend 1 [3, 12, 0]"
proof -
  obtain st where st: "bt_initialize sample_env True bt_new = Some st" "bt_hci st"
    by (simp add: bt_initialize_def Initialize_def Open_def bt_new_def sample_env_def fds_ok_def emit_def Let_def)
  have "bt_step\<^sup>*\<^sup>* bt_new st" using bt_step.Init [OF st(1)] by blast
  from bluetooth_sends_awake [OF this, of 1 "[3, 12, 0]"] st show ?thesis by blast
qed

section \<open>Failed initialisation\<close>

text \<open>
  After an initialisation that failed, the object stays: every further
  initialisation fails at once, whatever the state of the library, and sends nothing to it, until the
  service is closed; a second close without an initialisation in between aborts.
\<close>

theorem failed_initialize_sticks:
  assumes "\<not> g_vendor st" and "bt_initialize e True st = Some st1" and "Initialize e (st\<lparr>has_died := False\<rparr>) = Some (False, st0)"
  shows "bt_initialize e' True st1 = Some (emit [InitComplete False] (st1\<lparr>has_died := False\<rparr>))
    \<and> (\<exists>st2. bt_close st1 = Some st2 \<and> \<not> g_vendor st2 \<and> bt_close st2 = None)"
proof -
  have st1: "st1 = (emit [InitComplete False] st0)\<lparr>unlink_cb := True\<rparr>"
    using assms(2,3) by (simp add: bt_initialize_def)
  have "g_vendor st0"
    using assms(1,3)
    by (auto simp: Initialize_def Open_def emit_def Let_def split: if_splits option.splits)
  then show ?thesis
    using st1 by (simp add: bt_initialize_def Initialize_def bt_close_def Shutdown_def Close_def emit_def)
qed

theorem failed_initialize_sticks_witness:
  "\<exists>st1. bt_initialize (sample_env\<lparr>be_lib := False\<rparr>) True bt_new = Some st1
     \<and> bt_initialize sample_env True st1 = Some (emit [InitComplete False] (st1\<lparr>has_died := False\<rparr>))"
proof -
  obtain st0 where i: "Initialize (sample_env\<lparr>be_lib := False\<rparr>) (bt_new\<lparr>has_died := False\<rparr>) = Some (False, st0)"
    by (simp add: Initialize_def Open_def bt_new_def Let_def)
  then have st1: "bt_initialize (sample_env\<lparr>be_lib := False\<rparr>) True bt_new
      = Some ((emit [InitComplete False] st0)\<lparr>unlink_cb := True\<rparr>)"
    by (simp add: bt_initialize_def)
  have "\<not> g_vendor bt_new" by (simp add: bt_new_def)
  from failed_initialize_sticks [OF this st1 i, of sample_env] st1 show ?thesis by blast
qed

end
