(* ===== verification/File_Tree.thy ===== *)
theory File_Tree
  imports Prelude
begin

text \<open>
  The operations on directory trees of \<open>tools/resetprop/utils/file.c\<close>: making, removing, moving,
  cloning and linking directories, and carrying attributes over. A file system is an ordered list of
  names, each with the number of its inode (non-directories may have several names), and a table of
  inodes; \<open>resolve\<close> is the path walk of the kernel with symbolic links, \<open>.\<close> and \<open>..\<close>. A descriptor
  of a directory is its path, \<^const>\<open>None\<close> is -1. The process is root, as its service is, so that
  access rights do not matter, the device has space, and paths stay below \<open>PATH_MAX\<close>. The build defines
  neither \<open>SELINUX\<close> nor \<open>XWRAP_EXIT\<close>: the \<open>x\<close> functions of \<open>utils/xwrap.c\<close> return the error of the call they wrap and
  the code goes on. The result \<^const>\<open>None\<close> is undefined behaviour: \<open>readdir\<close> of a null stream, a
  \<open>file_attr\<close> that was never filled, or a recursion deeper than the fuel.
\<close>

section \<open>Files\<close>

type_synonym path = "string list"

text \<open>\<open>DT_OTHER\<close> stands for pipes, sockets and devices.\<close>

datatype ftype = DT_DIR | DT_REG | DT_LNK | DT_OTHER

record inode =
  i_type :: ftype
  i_mode :: u32
  i_uid :: nat
  i_gid :: nat
  i_data :: string

record fs =
  fs_names :: "(path \<times> nat) list"
  fs_inodes :: "nat \<rightharpoonup> inode"
  fs_next :: nat
  fs_cwd :: path

text \<open>
  The global \<open>excl_list\<close> (null or a list), the umask of the process, and the mode that a call of \<open>open\<close> with
  \<open>O_CREAT\<close> but without a mode argument happens to pass.
\<close>

record fenv =
  excl_list :: "string list option"
  e_umask :: u32
  e_junk :: u32

definition ino_of :: "fs \<Rightarrow> path \<Rightarrow> nat option" where
  "ino_of fs p = map_of (fs_names fs) p"

definition inode_at :: "fs \<Rightarrow> path \<Rightarrow> inode option" where
  "inode_at fs p = Option.bind (ino_of fs p) (fs_inodes fs)"

definition is_dir :: "fs \<Rightarrow> path \<Rightarrow> bool" where
  "is_dir fs p = (case inode_at fs p of None \<Rightarrow> False | Some i \<Rightarrow> i_type i = DT_DIR)"

definition is_excl :: "fenv \<Rightarrow> string \<Rightarrow> bool" where
  "is_excl env n =
     (case excl_list env of None \<Rightarrow> False | Some l \<Rightarrow> list_ex (\<lambda>e. strcmp n e = 0) l)"

section \<open>Path walk\<close>

fun path_comps :: "string \<Rightarrow> string \<Rightarrow> string list" where
  "path_comps acc [] = (if acc = [] then [] else [rev acc])"
| "path_comps acc (c # cs) =
     (if c = CHR ''/'' then (if acc = [] then [] else [rev acc]) @ path_comps [] cs
      else path_comps (c # acc) cs)"

definition path_start :: "path \<Rightarrow> string \<Rightarrow> path" where
  "path_start cur s = (if take 1 s = ''/'' then [] else cur)"

text \<open>
  At most \<open>n\<close> links are followed (40 in the kernel). The last component need not exist.
\<close>

function resolve :: "nat \<Rightarrow> bool \<Rightarrow> fs \<Rightarrow> path \<Rightarrow> string list \<Rightarrow> path option" where
  "resolve n follow fs cur [] = Some cur"
| "resolve n follow fs cur (c # cs) =
     (if \<not> is_dir fs cur then None
      else if c = ''.'' then resolve n follow fs cur cs
      else if c = ''..'' then resolve n follow fs (butlast cur) cs
      else case inode_at fs (cur @ [c]) of
        None \<Rightarrow> if cs = [] then Some (cur @ [c]) else None
      | Some i \<Rightarrow>
          if i_type i = DT_LNK \<and> (cs \<noteq> [] \<or> follow)
          then (case n of
                  0 \<Rightarrow> None
                | Suc m \<Rightarrow> resolve m follow fs (path_start cur (i_data i)) (path_comps [] (i_data i) @ cs))
          else resolve n follow fs (cur @ [c]) cs)"
  by pat_completeness auto
termination
  by (relation "measures [\<lambda>(n, _, _, _, _). n, \<lambda>(_, _, _, _, cs). length cs]") auto

text \<open>A location is a directory to start from and the components to walk.\<close>

type_synonym loc = "path \<times> string list"

definition loc_of :: "fs \<Rightarrow> string \<Rightarrow> loc" where
  "loc_of fs s = (path_start (fs_cwd fs) s, path_comps [] s)"

definition walk :: "bool \<Rightarrow> fs \<Rightarrow> loc \<Rightarrow> path option" where
  "walk follow fs l = resolve 40 follow fs (fst l) (snd l)"

definition existing :: "fs \<Rightarrow> path option \<Rightarrow> path option" where
  "existing fs p = (case p of None \<Rightarrow> None | Some q \<Rightarrow> if inode_at fs q = None then None else Some q)"

section \<open>System calls\<close>

definition create :: "fs \<Rightarrow> path \<Rightarrow> inode \<Rightarrow> fs" where
  "create fs p i =
     fs\<lparr>fs_names := fs_names fs @ [(p, fs_next fs)],
        fs_inodes := (fs_inodes fs)(fs_next fs \<mapsto> i),
        fs_next := Suc (fs_next fs)\<rparr>"

definition upd_node :: "(inode \<Rightarrow> inode) \<Rightarrow> path \<Rightarrow> fs \<Rightarrow> fs" where
  "upd_node f p fs =
     (case ino_of fs p of
        None \<Rightarrow> fs
      | Some k \<Rightarrow> fs\<lparr>fs_inodes := (fs_inodes fs)(k := map_option f (fs_inodes fs k))\<rparr>)"

definition del_name :: "path \<Rightarrow> fs \<Rightarrow> fs" where
  "del_name p fs = fs\<lparr>fs_names := filter (\<lambda>e. fst e \<noteq> p) (fs_names fs)\<rparr>"

definition add_name :: "path \<Rightarrow> nat \<Rightarrow> fs \<Rightarrow> fs" where
  "add_name p k fs = fs\<lparr>fs_names := fs_names fs @ [(p, k)]\<rparr>"

definition children :: "fs \<Rightarrow> path \<Rightarrow> path list" where
  "children fs d = filter (\<lambda>p. p \<noteq> [] \<and> butlast p = d) (map fst (fs_names fs))"

text \<open>\<open>mkdir\<close> tells \<open>EEXIST\<close> from its other errors, the only difference the callers make.\<close>

datatype mkdir_result = Made | EExist | EOther

definition new_dir :: "fenv \<Rightarrow> u32 \<Rightarrow> inode" where
  "new_dir env m =
     \<lparr>i_type = DT_DIR, i_mode = m AND NOT (e_umask env), i_uid = 0, i_gid = 0, i_data = []\<rparr>"

definition mkdir :: "fenv \<Rightarrow> u32 \<Rightarrow> loc \<Rightarrow> fs \<Rightarrow> mkdir_result \<times> fs" where
  "mkdir env m l fs =
     (case walk False fs l of
        None \<Rightarrow> (EOther, fs)
      | Some p \<Rightarrow>
          if inode_at fs p \<noteq> None then (EExist, fs)
          else (Made, create fs p (new_dir env m)))"

definition at_loc :: "path option \<Rightarrow> string \<Rightarrow> loc option" where
  "at_loc d n = map_option (\<lambda>p. (p, [n])) d"

definition xmkdirat :: "fenv \<Rightarrow> path option \<Rightarrow> string \<Rightarrow> u32 \<Rightarrow> fs \<Rightarrow> fs" where
  "xmkdirat env d n m fs = (case at_loc d n of None \<Rightarrow> fs | Some l \<Rightarrow> snd (mkdir env m l fs))"

text \<open>\<open>open\<close> for reading, and for writing with \<open>O_CREAT\<close> and \<open>O_TRUNC\<close>. Both follow links.\<close>

definition open_rd :: "fs \<Rightarrow> loc \<Rightarrow> path option" where
  "open_rd fs l = existing fs (walk True fs l)"

definition open_creat :: "fenv \<Rightarrow> loc \<Rightarrow> fs \<Rightarrow> path option \<times> fs" where
  "open_creat env l fs =
     (case walk True fs l of
        None \<Rightarrow> (None, fs)
      | Some p \<Rightarrow>
          (case inode_at fs p of
             None \<Rightarrow>
               (Some p, create fs p
                 \<lparr>i_type = DT_REG, i_mode = e_junk env AND NOT (e_umask env) AND 0xFFF,
                  i_uid = 0, i_gid = 0, i_data = []\<rparr>)
           | Some i \<Rightarrow>
               (case i_type i of
                  DT_DIR \<Rightarrow> (None, fs)
                | DT_REG \<Rightarrow> (Some p, upd_node (\<lambda>i. i\<lparr>i_data := []\<rparr>) p fs)
                | _ \<Rightarrow> (Some p, fs))))"

definition xopenat_rd :: "fs \<Rightarrow> path option \<Rightarrow> string \<Rightarrow> path option" where
  "xopenat_rd fs d n = Option.bind (at_loc d n) (open_rd fs)"

definition xopenat_creat :: "fenv \<Rightarrow> path option \<Rightarrow> string \<Rightarrow> fs \<Rightarrow> path option \<times> fs" where
  "xopenat_creat env d n fs = (case at_loc d n of None \<Rightarrow> (None, fs) | Some l \<Rightarrow> open_creat env l fs)"

text \<open>One call of \<open>sendfile\<close> moves at most \<open>0x7ffff000\<close> bytes; the output starts at offset 0.\<close>

definition SENDFILE_MAX :: nat where "SENDFILE_MAX = 0x7FFFF000"

definition xsendfile :: "path option \<Rightarrow> path option \<Rightarrow> nat \<Rightarrow> fs \<Rightarrow> fs" where
  "xsendfile dst src count fs =
     (case (dst, Option.bind src (inode_at fs)) of
        (Some q, Some i) \<Rightarrow>
          (let moved = take (min count SENDFILE_MAX) (i_data i)
           in upd_node (\<lambda>j. j\<lparr>i_data := moved @ drop (length moved) (i_data j)\<rparr>) q fs)
      | _ \<Rightarrow> fs)"

definition readlink :: "fs \<Rightarrow> loc \<Rightarrow> string option" where
  "readlink fs l =
     (case Option.bind (walk False fs l) (inode_at fs) of
        None \<Rightarrow> None
      | Some i \<Rightarrow> if i_type i = DT_LNK then Some (i_data i) else None)"

definition symlink :: "string \<Rightarrow> loc \<Rightarrow> fs \<Rightarrow> fs" where
  "symlink target l fs =
     (case walk False fs l of
        None \<Rightarrow> fs
      | Some p \<Rightarrow>
          if inode_at fs p \<noteq> None then fs
          else create fs p
            \<lparr>i_type = DT_LNK, i_mode = 0x1FF, i_uid = 0, i_gid = 0, i_data = target\<rparr>)"

definition unlink :: "loc \<Rightarrow> fs \<Rightarrow> fs" where
  "unlink l fs =
     (case existing fs (walk False fs l) of
        None \<Rightarrow> fs
      | Some p \<Rightarrow> if is_dir fs p then fs else del_name p fs)"

definition rmdir :: "loc \<Rightarrow> fs \<Rightarrow> fs" where
  "rmdir l fs =
     (case existing fs (walk False fs l) of
        None \<Rightarrow> fs
      | Some p \<Rightarrow> if is_dir fs p \<and> p \<noteq> [] \<and> children fs p = [] then del_name p fs else fs)"

text \<open>\<open>remove\<close> of the C library: \<open>unlink\<close>, or \<open>rmdir\<close> for a directory.\<close>

definition remove_path :: "loc \<Rightarrow> fs \<Rightarrow> fs" where
  "remove_path l fs =
     (case existing fs (walk False fs l) of
        None \<Rightarrow> fs
      | Some p \<Rightarrow> if is_dir fs p then rmdir l fs else unlink l fs)"

text \<open>\<open>rename\<close> of anything but a directory, the only way the code calls it.\<close>

definition rename :: "loc \<Rightarrow> loc \<Rightarrow> fs \<Rightarrow> fs" where
  "rename old new fs =
     (case (existing fs (walk False fs old), walk False fs new) of
        (Some p, Some q) \<Rightarrow>
          (case ino_of fs p of
             None \<Rightarrow> fs
           | Some k \<Rightarrow>
               if ino_of fs q = Some k \<or> is_dir fs q then fs
               else add_name q k (del_name p (del_name q fs)))
      | _ \<Rightarrow> fs)"

text \<open>\<open>linkat\<close> with flags 0: a link is linked itself, a directory not at all.\<close>

definition link :: "loc \<Rightarrow> loc \<Rightarrow> fs \<Rightarrow> fs" where
  "link old new fs =
     (case (existing fs (walk False fs old), walk False fs new) of
        (Some p, Some q) \<Rightarrow>
          (case ino_of fs p of
             None \<Rightarrow> fs
           | Some k \<Rightarrow> if is_dir fs p \<or> inode_at fs q \<noteq> None then fs else add_name q k fs)
      | _ \<Rightarrow> fs)"

text \<open>A directory stream: the entries with their types, \<open>.\<close> and \<open>..\<close> first, as they are when it is opened.\<close>

definition entry_type :: "fs \<Rightarrow> path \<Rightarrow> ftype" where
  "entry_type fs p = (case inode_at fs p of None \<Rightarrow> DT_OTHER | Some i \<Rightarrow> i_type i)"

definition readdir :: "fs \<Rightarrow> path \<Rightarrow> (string \<times> ftype) list" where
  "readdir fs d =
     (''.'', DT_DIR) # (''..'', DT_DIR) # map (\<lambda>p. (last p, entry_type fs p)) (children fs d)"

definition fdopendir :: "fs \<Rightarrow> path option \<Rightarrow> (string \<times> ftype) list option" where
  "fdopendir fs d =
     (case d of None \<Rightarrow> None | Some p \<Rightarrow> if is_dir fs p then Some (readdir fs p) else None)"

section \<open>Attributes\<close>

text \<open>A \<open>file_attr\<close> is what \<open>lstat\<close> returns: the inode (its size is the length of the data).\<close>

definition fd_getpathat :: "path option \<Rightarrow> string \<Rightarrow> loc option" where
  "fd_getpathat d n = map_option (\<lambda>p. ([], p @ [n])) d"

definition getattr :: "fs \<Rightarrow> loc \<Rightarrow> inode option" where
  "getattr fs l = Option.bind (walk False fs l) (inode_at fs)"

definition getattrat :: "fs \<Rightarrow> path option \<Rightarrow> string \<Rightarrow> inode option" where
  "getattrat fs d n = Option.bind (fd_getpathat d n) (getattr fs)"

definition fgetattr :: "fs \<Rightarrow> path option \<Rightarrow> inode option" where
  "fgetattr fs fd = Option.bind fd (inode_at fs)"

definition chmod_chown :: "inode \<Rightarrow> inode \<Rightarrow> inode" where
  "chmod_chown a i = i\<lparr>i_mode := i_mode a AND 0x1FF, i_uid := i_uid a, i_gid := i_gid a\<rparr>"

text \<open>\<open>chmod\<close> and \<open>chown\<close> follow links.\<close>

definition setattr :: "loc \<Rightarrow> inode \<Rightarrow> fs \<Rightarrow> int \<times> fs" where
  "setattr l a fs =
     (case existing fs (walk True fs l) of
        None \<Rightarrow> (-1, fs)
      | Some p \<Rightarrow> (0, upd_node (chmod_chown a) p fs))"

definition setattrat :: "path option \<Rightarrow> string \<Rightarrow> inode \<Rightarrow> fs \<Rightarrow> int \<times> fs" where
  "setattrat d n a fs = (case fd_getpathat d n of None \<Rightarrow> (-1, fs) | Some l \<Rightarrow> setattr l a fs)"

definition fsetattr :: "path option \<Rightarrow> inode \<Rightarrow> fs \<Rightarrow> int \<times> fs" where
  "fsetattr fd a fs =
     (case fd of None \<Rightarrow> (-1, fs) | Some p \<Rightarrow> (0, upd_node (chmod_chown a) p fs))"

definition clone_attr :: "loc \<Rightarrow> loc \<Rightarrow> fs \<Rightarrow> fs option" where
  "clone_attr source target fs =
     (case getattr fs source of None \<Rightarrow> None | Some a \<Rightarrow> Some (snd (setattr target a fs)))"

definition fclone_attr :: "path option \<Rightarrow> path option \<Rightarrow> fs \<Rightarrow> fs option" where
  "fclone_attr sourcefd targetfd fs =
     (case fgetattr fs sourcefd of None \<Rightarrow> None | Some a \<Rightarrow> Some (snd (fsetattr targetfd a fs)))"

section \<open>Making directories\<close>

fun mkdirs_loop :: "fenv \<Rightarrow> u32 \<Rightarrow> string list \<Rightarrow> fs \<Rightarrow> int \<times> fs" where
  "mkdirs_loop env m [] fs = (0, fs)"
| "mkdirs_loop env m (s # ss) fs =
     (case mkdir env m (loc_of fs s) fs of
        (EOther, fs') \<Rightarrow> (-1, fs')
      | (_, fs') \<Rightarrow> mkdirs_loop env m ss fs')"

text \<open>Every proper prefix that ends before a slash, from the second character on, then the whole path.\<close>

definition mkdir_prefixes :: "string \<Rightarrow> string list" where
  "mkdir_prefixes s = map (\<lambda>i. take i s) (filter (\<lambda>i. s ! i = CHR ''/'') [1..<length s]) @ [s]"

definition mkdirs :: "fenv \<Rightarrow> string \<Rightarrow> u32 \<Rightarrow> fs \<Rightarrow> (int \<times> fs) option" where
  "mkdirs env s m fs = (if s = [] then None else Some (mkdirs_loop env m (mkdir_prefixes s) fs))"

section \<open>Removing\<close>

fun foldM :: "('a \<Rightarrow> 's \<Rightarrow> 's option) \<Rightarrow> 'a list \<Rightarrow> 's \<Rightarrow> 's option" where
  "foldM f [] s = Some s"
| "foldM f (x # xs) s = (case f x s of None \<Rightarrow> None | Some s' \<Rightarrow> foldM f xs s')"

definition is_dots :: "string \<Rightarrow> bool" where
  "is_dots n \<longleftrightarrow> n = ''.'' \<or> n = ''..''"

type_synonym walk_cb = "path option \<Rightarrow> string \<times> ftype \<Rightarrow> fs \<Rightarrow> fs"

definition walk_entry ::
  "(path option \<Rightarrow> fs \<Rightarrow> fs option) \<Rightarrow> fenv \<Rightarrow> walk_cb \<Rightarrow> path option \<Rightarrow> string \<times> ftype \<Rightarrow> fs \<Rightarrow> fs option" where
  "walk_entry rec env callback dirfd entry fs =
     (if is_dots (fst entry) \<or> is_excl env (fst entry) then Some fs
      else do {
        fs' \<leftarrow> (if snd entry = DT_DIR then rec (xopenat_rd fs dirfd (fst entry)) fs else Some fs);
        Some (callback dirfd entry fs')
      })"

primrec in_order_walk :: "nat \<Rightarrow> fenv \<Rightarrow> walk_cb \<Rightarrow> path option \<Rightarrow> fs \<Rightarrow> fs option" where
  "in_order_walk 0 env callback dirfd fs = None"
| "in_order_walk (Suc k) env callback dirfd fs =
     (case fdopendir fs dirfd of
        None \<Rightarrow> Some fs
      | Some es \<Rightarrow> foldM (walk_entry (in_order_walk k env callback) env callback dirfd) es fs)"

definition rm_cb :: walk_cb where
  "rm_cb dirfd entry fs =
     (case at_loc dirfd (fst entry) of
        None \<Rightarrow> fs
      | Some l \<Rightarrow> if snd entry = DT_DIR then rmdir l fs else unlink l fs)"

definition frm_rf :: "nat \<Rightarrow> fenv \<Rightarrow> path option \<Rightarrow> fs \<Rightarrow> fs option" where
  "frm_rf k env dirfd fs = in_order_walk k env rm_cb dirfd fs"

text \<open>\<open>O_NOFOLLOW\<close>: opening a link fails.\<close>

definition open_nofollow :: "fs \<Rightarrow> loc \<Rightarrow> path option" where
  "open_nofollow fs l =
     (case existing fs (walk False fs l) of
        None \<Rightarrow> None
      | Some p \<Rightarrow> if entry_type fs p = DT_LNK then None else Some p)"

definition rm_rf :: "nat \<Rightarrow> fenv \<Rightarrow> loc \<Rightarrow> fs \<Rightarrow> fs option" where
  "rm_rf k env l fs =
     do {
       fs' \<leftarrow> (case open_nofollow fs l of None \<Rightarrow> Some fs | Some fd \<Rightarrow> frm_rf k env (Some fd) fs);
       Some (remove_path l fs')
     }"

section \<open>Moving\<close>

definition mv_entry ::
  "(path option \<Rightarrow> path option \<Rightarrow> fs \<Rightarrow> fs option) \<Rightarrow> fenv \<Rightarrow> path option \<Rightarrow> path option \<Rightarrow>
     string \<times> ftype \<Rightarrow> fs \<Rightarrow> fs option" where
  "mv_entry rec env src dest entry fs =
     (let n = fst entry in
      if is_dots n \<or> is_excl env n then Some fs
      else do {
        a \<leftarrow> getattrat fs src n;
        (case snd entry of
           DT_DIR \<Rightarrow> do {
             fs1 \<leftarrow> Some (xmkdirat env dest n (i_mode a AND 0x1FF) fs);
             newsrc \<leftarrow> Some (xopenat_rd fs1 src n);
             newdest \<leftarrow> Some (xopenat_rd fs1 dest n);
             fs2 \<leftarrow> rec newsrc newdest (snd (fsetattr newdest a fs1));
             Some (case at_loc src n of None \<Rightarrow> fs2 | Some l \<Rightarrow> rmdir l fs2)
           }
         | DT_OTHER \<Rightarrow> Some fs
         | _ \<Rightarrow> do {
             fs1 \<leftarrow> Some (case (at_loc src n, at_loc dest n) of
                             (Some l, Some l') \<Rightarrow> rename l l' fs | _ \<Rightarrow> fs);
             Some (snd (setattrat dest n a fs1))
           })
      })"

primrec mv_dir :: "nat \<Rightarrow> fenv \<Rightarrow> path option \<Rightarrow> path option \<Rightarrow> fs \<Rightarrow> fs option" where
  "mv_dir 0 env src dest fs = None"
| "mv_dir (Suc k) env src dest fs =
     (case fdopendir fs src of
        None \<Rightarrow> None
      | Some es \<Rightarrow> foldM (mv_entry (mv_dir k env) env src dest) es fs)"

definition mv_f :: "nat \<Rightarrow> fenv \<Rightarrow> string \<Rightarrow> string \<Rightarrow> fs \<Rightarrow> fs option" where
  "mv_f k env source destination fs =
     do {
       st \<leftarrow> getattr fs (loc_of fs source);
       fs2 \<leftarrow> (if i_type st = DT_DIR
               then do {
                 r \<leftarrow> mkdirs env destination (i_mode st AND 0x1FF) fs;
                 src \<leftarrow> Some (open_rd (snd r) (loc_of (snd r) source));
                 dest \<leftarrow> Some (open_rd (snd r) (loc_of (snd r) destination));
                 fs1 \<leftarrow> fclone_attr src dest (snd r);
                 mv_dir k env src dest fs1
               }
               else do {
                 fs1 \<leftarrow> Some (rename (loc_of fs source) (loc_of fs destination) fs);
                 Some (snd (setattr (loc_of fs1 destination) st fs1))
               });
       Some (rmdir (loc_of fs2 source) fs2)
     }"

section \<open>Cloning and linking\<close>

definition clone_entry ::
  "(path option \<Rightarrow> path option \<Rightarrow> fs \<Rightarrow> fs option) \<Rightarrow> fenv \<Rightarrow> path option \<Rightarrow> path option \<Rightarrow>
     string \<times> ftype \<Rightarrow> fs \<Rightarrow> fs option" where
  "clone_entry rec env src dest entry fs =
     (let n = fst entry in
      if is_dots n \<or> is_excl env n then Some fs
      else do {
        a \<leftarrow> getattrat fs src n;
        (case snd entry of
           DT_DIR \<Rightarrow> do {
             fs1 \<leftarrow> Some (xmkdirat env dest n (i_mode a AND 0x1FF) fs);
             fs2 \<leftarrow> Some (snd (setattrat dest n a fs1));
             rec (xopenat_rd fs2 src n) (xopenat_rd fs2 dest n) fs2
           }
         | DT_REG \<Rightarrow>
             (let (destfd, fs1) = xopenat_creat env dest n fs;
                  srcfd = xopenat_rd fs1 src n;
                  fs2 = xsendfile destfd srcfd (length (i_data a)) fs1
              in Some (snd (fsetattr destfd a fs2)))
         | DT_LNK \<Rightarrow> do {
             buf \<leftarrow> Option.bind (at_loc src n) (readlink fs);
             fs1 \<leftarrow> Some (case at_loc dest n of None \<Rightarrow> fs | Some l \<Rightarrow> symlink buf l fs);
             Some (snd (setattrat dest n a fs1))
           }
         | DT_OTHER \<Rightarrow> Some fs)
      })"

primrec clone_dir :: "nat \<Rightarrow> fenv \<Rightarrow> path option \<Rightarrow> path option \<Rightarrow> fs \<Rightarrow> fs option" where
  "clone_dir 0 env src dest fs = None"
| "clone_dir (Suc k) env src dest fs =
     (case fdopendir fs src of
        None \<Rightarrow> None
      | Some es \<Rightarrow> foldM (clone_entry (clone_dir k env) env src dest) es fs)"

text \<open>The mode of the regular file \<open>cp_afc\<close> creates is replaced by the final \<open>setattr\<close>.\<close>

definition cp_afc :: "nat \<Rightarrow> fenv \<Rightarrow> string \<Rightarrow> string \<Rightarrow> fs \<Rightarrow> fs option" where
  "cp_afc k env source destination fs =
     do {
       a \<leftarrow> getattr fs (loc_of fs source);
       fs3 \<leftarrow> (if i_type a = DT_DIR
               then do {
                 r \<leftarrow> mkdirs env destination (i_mode a AND 0x1FF) fs;
                 clone_dir k env (open_rd (snd r) (loc_of (snd r) source))
                   (open_rd (snd r) (loc_of (snd r) destination)) (snd r)
               }
               else do {
                 fs1 \<leftarrow> Some (unlink (loc_of fs destination) fs);
                 (case i_type a of
                    DT_REG \<Rightarrow>
                      (let src = open_rd fs1 (loc_of fs1 source);
                           (dest, fs2) = open_creat env (loc_of fs1 destination) fs1
                       in Some (xsendfile dest src (length (i_data a)) fs2))
                  | DT_LNK \<Rightarrow> do {
                      buf \<leftarrow> readlink fs1 (loc_of fs1 source);
                      Some (symlink buf (loc_of fs1 destination) fs1)
                    }
                  | _ \<Rightarrow> Some fs1)
               });
       Some (snd (setattr (loc_of fs3 destination) a fs3))
     }"

definition link_entry ::
  "(path option \<Rightarrow> path option \<Rightarrow> fs \<Rightarrow> fs option) \<Rightarrow> fenv \<Rightarrow> path option \<Rightarrow> path option \<Rightarrow>
     string \<times> ftype \<Rightarrow> fs \<Rightarrow> fs option" where
  "link_entry rec env src dest entry fs =
     (let n = fst entry in
      if is_dots n \<or> is_excl env n then Some fs
      else if snd entry = DT_DIR
      then do {
        a \<leftarrow> getattrat fs src n;
        fs1 \<leftarrow> Some (xmkdirat env dest n (i_mode a AND 0x1FF) fs);
        fs2 \<leftarrow> Some (snd (setattrat dest n a fs1));
        rec (xopenat_rd fs2 src n) (xopenat_rd fs2 dest n) fs2
      }
      else Some (case (at_loc src n, at_loc dest n) of
                   (Some l, Some l') \<Rightarrow> link l l' fs | _ \<Rightarrow> fs))"

primrec link_dir :: "nat \<Rightarrow> fenv \<Rightarrow> path option \<Rightarrow> path option \<Rightarrow> fs \<Rightarrow> fs option" where
  "link_dir 0 env src dest fs = None"
| "link_dir (Suc k) env src dest fs =
     (case fdopendir fs src of
        None \<Rightarrow> None
      | Some es \<Rightarrow> foldM (link_entry (link_dir k env) env src dest) es fs)"

section \<open>Well-formed file systems\<close>

text \<open>
  Names are distinct and name inodes of the table; the root and the parent of every name are
  directories; no name is a dot name; a directory has one name.
\<close>

definition wf_fs :: "fs \<Rightarrow> bool" where
  "wf_fs fs \<longleftrightarrow>
     distinct (map fst (fs_names fs)) \<and>
     is_dir fs [] \<and>
     list_all (\<lambda>(p, k). k < fs_next fs \<and> fs_inodes fs k \<noteq> None \<and>
                        (p \<noteq> [] \<longrightarrow> is_dir fs (butlast p)) \<and> list_all (\<lambda>c. \<not> is_dots c) p)
       (fs_names fs) \<and>
     list_all (\<lambda>(p, k). list_all (\<lambda>(q, j). k = j \<and> is_dir fs p \<longrightarrow> p = q) (fs_names fs))
       (fs_names fs)"

end
