(* ===== verification/File_Tree_Correct.thy ===== *)
theory File_Tree_Correct
  imports File_Tree "HOL-Library.Sublist"
begin

text \<open>
  Correctness of the directory operations. The first part gives the effect of every system call of the model
  on \<^const>\<open>inode_at\<close> and that it keeps \<^const>\<open>wf_fs\<close>; the rest follows the recursions of
  \<open>file.c\<close> over a tree that the target is disjoint from.
\<close>

section \<open>Well-formedness\<close>

lemma map_of_Some_distinct:
  assumes "distinct (map fst xs)"
  shows "map_of xs p = Some k \<longleftrightarrow> (p, k) \<in> set xs"
  using assms by (rule map_of_eq_Some_iff)

lemma wf_fsD:
  assumes "wf_fs fs" "ino_of fs p = Some k"
  shows "k < fs_next fs" "\<exists>i. fs_inodes fs k = Some i" "p \<noteq> [] \<Longrightarrow> is_dir fs (butlast p)"
    "list_all (\<lambda>c. \<not> is_dots c) p"
proof -
  have "(p, k) \<in> set (fs_names fs)"
    using assms(2) by (simp add: ino_of_def map_of_SomeD)
  then have *: "k < fs_next fs \<and> fs_inodes fs k \<noteq> None \<and> (p \<noteq> [] \<longrightarrow> is_dir fs (butlast p)) \<and>
      list_all (\<lambda>c. \<not> is_dots c) p"
    using assms(1) unfolding wf_fs_def list_all_iff by fastforce
  then show "k < fs_next fs" "\<exists>i. fs_inodes fs k = Some i" "p \<noteq> [] \<Longrightarrow> is_dir fs (butlast p)"
    "list_all (\<lambda>c. \<not> is_dots c) p"
    by auto
qed

lemma wf_fs_distinct: "wf_fs fs \<Longrightarrow> distinct (map fst (fs_names fs))"
  by (simp add: wf_fs_def)

lemma wf_fs_root: "wf_fs fs \<Longrightarrow> is_dir fs []"
  by (simp add: wf_fs_def)

lemma wf_fs_dir_unique:
  assumes "wf_fs fs" "ino_of fs p = Some k" "ino_of fs q = Some k" "is_dir fs p"
  shows "p = q"
proof -
  have "(p, k) \<in> set (fs_names fs)" "(q, k) \<in> set (fs_names fs)"
    using assms(2,3) by (simp_all add: ino_of_def map_of_SomeD)
  then show ?thesis
    using assms(1,4) unfolding wf_fs_def list_all_iff by fastforce
qed

text \<open>The same conditions over \<^const>\<open>ino_of\<close>, the form in which they are established.\<close>

lemma wf_fsI:
  assumes "distinct (map fst (fs_names fs))" "is_dir fs []"
    and "\<And>p k. ino_of fs p = Some k \<Longrightarrow>
      k < fs_next fs \<and> fs_inodes fs k \<noteq> None \<and> (p \<noteq> [] \<longrightarrow> is_dir fs (butlast p)) \<and>
      list_all (\<lambda>c. \<not> is_dots c) p"
    and "\<And>p q k. ino_of fs p = Some k \<Longrightarrow> ino_of fs q = Some k \<Longrightarrow> is_dir fs p \<Longrightarrow> p = q"
  shows "wf_fs fs"
proof -
  have ino: "(p, k) \<in> set (fs_names fs) \<Longrightarrow> ino_of fs p = Some k" for p k
    using assms(1) by (simp add: ino_of_def)
  show ?thesis
    unfolding wf_fs_def list_all_iff
    using assms(1,2) assms(3) [OF ino] assms(4) [OF ino ino] by (auto simp: list_all_iff)
qed

lemma node_None_iff: "wf_fs fs \<Longrightarrow> inode_at fs p = None \<longleftrightarrow> ino_of fs p = None"
  by (cases "ino_of fs p") (auto simp: inode_at_def dest: wf_fsD(2))

lemma is_dir_node: "is_dir fs p \<Longrightarrow> \<exists>i. inode_at fs p = Some i \<and> i_type i = DT_DIR"
  by (auto simp: is_dir_def split: option.splits)

lemma wf_parent:
  assumes "wf_fs fs" "inode_at fs (p @ [n]) \<noteq> None"
  shows "is_dir fs p" "\<not> is_dots n"
proof -
  obtain k where "ino_of fs (p @ [n]) = Some k"
    using assms by (auto simp: node_None_iff)
  from wf_fsD(3,4) [OF assms(1) this] show "is_dir fs p" "\<not> is_dots n" by simp_all
qed

lemma wf_ancestor:
  "wf_fs fs \<Longrightarrow> inode_at fs (p @ q) \<noteq> None \<Longrightarrow> q \<noteq> [] \<Longrightarrow> is_dir fs p"
proof (induction q rule: rev_induct)
  case (snoc n q)
  then have "is_dir fs (p @ q)" using wf_parent(1) [of fs "p @ q" n] by simp
  with snoc show ?case by (cases "q = []") (auto dest: is_dir_node)
qed simp

lemma wf_no_dots: "wf_fs fs \<Longrightarrow> inode_at fs p \<noteq> None \<Longrightarrow> list_all (\<lambda>c. \<not> is_dots c) p"
  using wf_fsD(4) by (auto simp: node_None_iff)

lemma wf_is_dir_take:
  assumes "wf_fs fs" "is_dir fs p"
  shows "is_dir fs (take k p)"
proof (cases "drop k p = []")
  case False
  have "inode_at fs (take k p @ drop k p) \<noteq> None"
    using assms(2) is_dir_node by force
  with False assms(1) show ?thesis by (rule wf_ancestor [rotated 2])
qed (use assms in simp)

lemma not_child_of_file:
  assumes "wf_fs fs" "\<not> is_dir fs p" "q \<noteq> []"
  shows "inode_at fs (p @ q) = None"
  using wf_ancestor [OF assms(1) _ assms(3)] assms(2) by blast

section \<open>Path walk\<close>

lemma resolve_plain:
  assumes "\<And>k. k < length q \<Longrightarrow> is_dir fs (p @ take k q)" "list_all (\<lambda>c. \<not> is_dots c) q"
    and "follow \<longrightarrow> entry_type fs (p @ q) \<noteq> DT_LNK"
  shows "resolve n follow fs p q = Some (p @ q)"
  using assms
proof (induction q arbitrary: p)
  case (Cons c q)
  have dir: "is_dir fs p" using Cons.prems(1) [of 0] by simp
  have step: "resolve n follow fs (p @ [c]) q = Some (p @ c # q)"
  proof -
    have "is_dir fs ((p @ [c]) @ take k q)" if "k < length q" for k
      using Cons.prems(1) [of "Suc k"] that by simp
    from Cons.IH [of "p @ [c]", OF this] Cons.prems(2,3) show ?thesis by simp
  qed
  have link: "\<not> (i_type i = DT_LNK \<and> (q \<noteq> [] \<or> follow))" if i: "inode_at fs (p @ [c]) = Some i" for i
  proof (cases "q = []")
    case True
    then show ?thesis using Cons.prems(3) i by (auto simp: entry_type_def)
  next
    case False
    then have "is_dir fs (p @ [c])" using Cons.prems(1) [of "Suc 0"] by simp
    then show ?thesis using i by (auto simp: is_dir_def)
  qed
  have none: "q = []" if "inode_at fs (p @ [c]) = None"
    using Cons.prems(1) [of "Suc 0"] that by (cases q) (auto dest: is_dir_node)
  show ?case
    using dir step link none Cons.prems(2)
    by (auto simp: is_dots_def simp del: split_paired_All split: option.split)
qed simp

lemma walk_at:
  assumes "is_dir fs d" "\<not> is_dots n" "follow \<longrightarrow> entry_type fs (d @ [n]) \<noteq> DT_LNK"
  shows "walk follow fs (d, [n]) = Some (d @ [n])"
  using resolve_plain [of "[n]" fs d] assms by (simp add: walk_def)

lemma walk_path:
  assumes "wf_fs fs" "is_dir fs d" "\<not> is_dots n" "follow \<longrightarrow> entry_type fs (d @ [n]) \<noteq> DT_LNK"
  shows "walk follow fs ([], d @ [n]) = Some (d @ [n])"
proof -
  have "is_dir fs (take k (d @ [n]))" if "k < length (d @ [n])" for k
    using wf_is_dir_take [OF assms(1,2)] that by simp
  moreover have "list_all (\<lambda>c. \<not> is_dots c) d"
    using wf_no_dots [OF assms(1)] is_dir_node [OF assms(2)] by force
  ultimately show ?thesis
    using assms(3,4) by (auto simp: walk_def intro!: resolve_plain [of "d @ [n]" fs "[]", simplified])
qed

section \<open>System calls\<close>

lemma ino_of_create: "ino_of (create fs p i) q =
  (case ino_of fs q of None \<Rightarrow> if q = p then Some (fs_next fs) else None | Some k \<Rightarrow> Some k)"
  by (auto simp: ino_of_def create_def map_add_def split: option.splits)

lemma node_create:
  assumes "wf_fs fs" "inode_at fs p = None"
  shows "inode_at (create fs p i) q = (if q = p then Some i else inode_at fs q)"
proof -
  have "ino_of fs p = None" using assms by (simp add: node_None_iff)
  then show ?thesis
    using wf_fsD(1) [OF assms(1), of q]
    by (cases "ino_of fs q") (auto simp: inode_at_def ino_of_create, auto simp: create_def)
qed

lemma is_dir_cong: "inode_at fs p = inode_at fs' q \<Longrightarrow> is_dir fs p = is_dir fs' q"
  by (simp add: is_dir_def)

lemma is_dir_create:
  "wf_fs fs \<Longrightarrow> inode_at fs p = None \<Longrightarrow>
     is_dir (create fs p i) q = (if q = p then i_type i = DT_DIR else is_dir fs q)"
  by (simp add: is_dir_def node_create)

lemma wf_create:
  assumes "wf_fs fs" "inode_at fs (d @ [n]) = None" "is_dir fs d" "\<not> is_dots n"
  shows "wf_fs (create fs (d @ [n]) i)"
proof (rule wf_fsI)
  note new = node_create [OF assms(1,2)] is_dir_create [OF assms(1,2)]
  have none: "ino_of fs (d @ [n]) = None" using assms(1,2) by (simp add: node_None_iff)
  show "distinct (map fst (fs_names (create fs (d @ [n]) i)))"
    using wf_fs_distinct [OF assms(1)] none by (auto simp: create_def ino_of_def map_of_eq_None_iff)
  show "is_dir (create fs (d @ [n]) i) []"
    using wf_fs_root [OF assms(1)] by (simp add: new)
  have dots: "list_all (\<lambda>c. \<not> is_dots c) d"
    using wf_no_dots [OF assms(1)] is_dir_node [OF assms(3)] by force
  fix p k assume "ino_of (create fs (d @ [n]) i) p = Some k"
  then consider "p = d @ [n]" "k = fs_next fs" | "p \<noteq> d @ [n]" "ino_of fs p = Some k"
    using none by (cases "p = d @ [n]") (auto simp: ino_of_create split: option.splits if_splits)
  then show "k < fs_next (create fs (d @ [n]) i) \<and> fs_inodes (create fs (d @ [n]) i) k \<noteq> None \<and>
    (p \<noteq> [] \<longrightarrow> is_dir (create fs (d @ [n]) i) (butlast p)) \<and> list_all (\<lambda>c. \<not> is_dots c) p"
  proof cases
    case 1
    then show ?thesis using assms(2,3,4) dots by (auto simp: new) (auto simp: create_def)
  next
    case 2
    have "\<not> is_dir fs (d @ [n])" using assms(2) by (simp add: is_dir_def)
    then have "butlast p \<noteq> d @ [n] \<or> p = []"
      using wf_fsD(3) [OF assms(1) 2(2)] by metis
    with wf_fsD [OF assms(1) 2(2)] show ?thesis
      by (auto simp: new) (auto simp: create_def)
  qed
next
  fix p q k
  assume p: "ino_of (create fs (d @ [n]) i) p = Some k" and q: "ino_of (create fs (d @ [n]) i) q = Some k"
    and dir: "is_dir (create fs (d @ [n]) i) p"
  have none: "ino_of fs (d @ [n]) = None" using assms(1,2) by (simp add: node_None_iff)
  show "p = q"
  proof (cases "p = d @ [n] \<or> q = d @ [n]")
    case True
    then have "k = fs_next fs" using p q none by (auto simp: ino_of_create split: if_splits)
    then show ?thesis using p q wf_fsD(1) [OF assms(1)]
      by (force simp: ino_of_create split: option.splits if_splits)
  next
    case False
    then have "ino_of fs p = Some k" "ino_of fs q = Some k"
      using p q by (auto simp: ino_of_create split: option.splits if_splits)
    with False dir wf_fs_dir_unique [OF assms(1)] show ?thesis
      by (auto simp: is_dir_create [OF assms(1,2)])
  qed
qed

lemma ino_of_upd [simp]: "ino_of (upd_node f p fs) q = ino_of fs q"
  by (simp add: upd_node_def ino_of_def split: option.splits)

lemma node_upd:
  "inode_at (upd_node f p fs) q = (if ino_of fs q = ino_of fs p then map_option f (inode_at fs q) else inode_at fs q)"
  by (cases "ino_of fs p"; cases "ino_of fs q")
     (auto simp: inode_at_def, auto simp: upd_node_def)

lemma is_dir_upd: "(\<And>i. i_type (f i) = i_type i) \<Longrightarrow> is_dir (upd_node f p fs) q = is_dir fs q"
  by (auto simp: is_dir_def node_upd split: option.splits)

lemma wf_upd:
  assumes "wf_fs fs" "\<And>i. i_type (f i) = i_type i"
  shows "wf_fs (upd_node f p fs)"
proof (rule wf_fsI)
  show "distinct (map fst (fs_names (upd_node f p fs)))" "is_dir (upd_node f p fs) []"
    using wf_fs_distinct [OF assms(1)] wf_fs_root [OF assms(1)]
    by (simp_all add: is_dir_upd [of f, OF assms(2)]) (simp add: upd_node_def split: option.splits)
  fix q k assume "ino_of (upd_node f p fs) q = Some k"
  then have "ino_of fs q = Some k" by simp
  from wf_fsD [OF assms(1) this]
  show "k < fs_next (upd_node f p fs) \<and> fs_inodes (upd_node f p fs) k \<noteq> None \<and>
      (q \<noteq> [] \<longrightarrow> is_dir (upd_node f p fs) (butlast q)) \<and> list_all (\<lambda>c. \<not> is_dots c) q"
    by (simp add: is_dir_upd [of f, OF assms(2)]) (auto simp: upd_node_def split: option.splits)
qed (use wf_fs_dir_unique [OF assms(1)] in \<open>simp add: is_dir_upd [of f, OF assms(2)]\<close>)

lemma ino_of_del: "ino_of (del_name p fs) q = (if q = p then None else ino_of fs q)"
proof -
  have "map_of (filter (\<lambda>e. fst e \<noteq> p) xs) q = (if q = p then None else map_of xs q)" for xs :: "(path \<times> nat) list"
    by (induction xs) auto
  then show ?thesis by (simp add: ino_of_def del_name_def)
qed

lemma node_del: "inode_at (del_name p fs) q = (if q = p then None else inode_at fs q)"
  by (simp add: inode_at_def ino_of_del) (simp add: del_name_def)

lemma is_dir_del: "is_dir (del_name p fs) q = (q \<noteq> p \<and> is_dir fs q)"
  by (simp add: is_dir_def node_del)

lemma wf_del:
  assumes "wf_fs fs" "p \<noteq> []" "\<And>n. inode_at fs (p @ [n]) = None"
  shows "wf_fs (del_name p fs)"
proof (rule wf_fsI)
  show "distinct (map fst (fs_names (del_name p fs)))"
    using wf_fs_distinct [OF assms(1)] by (simp add: del_name_def distinct_map_filter)
  show "is_dir (del_name p fs) []" using wf_fs_root [OF assms(1)] assms(2) by (simp add: is_dir_del)
  fix q k assume "ino_of (del_name p fs) q = Some k"
  then have q: "ino_of fs q = Some k" by (simp add: ino_of_del split: if_splits)
  have "butlast q \<noteq> p" if "q \<noteq> []"
    using assms(3) [of "last q"] q that by (auto simp: node_None_iff [OF assms(1)])
  with wf_fsD [OF assms(1) q]
  show "k < fs_next (del_name p fs) \<and> fs_inodes (del_name p fs) k \<noteq> None \<and>
      (q \<noteq> [] \<longrightarrow> is_dir (del_name p fs) (butlast q)) \<and> list_all (\<lambda>c. \<not> is_dots c) q"
    by (simp add: is_dir_del) (simp add: del_name_def)
next
  fix q r k assume "ino_of (del_name p fs) q = Some k" "ino_of (del_name p fs) r = Some k"
    "is_dir (del_name p fs) q"
  then show "q = r"
    using wf_fs_dir_unique [OF assms(1)] by (auto simp: ino_of_del is_dir_del split: if_splits)
qed

lemma ino_of_add:
  "ino_of (add_name p k fs) q = (case ino_of fs q of None \<Rightarrow> if q = p then Some k else None | Some j \<Rightarrow> Some j)"
  by (auto simp: ino_of_def add_name_def map_add_def split: option.splits)

lemma node_add:
  assumes "ino_of fs p = None"
  shows "inode_at (add_name p k fs) q = (if q = p then fs_inodes fs k else inode_at fs q)"
  using assms by (cases "ino_of fs q") (auto simp: inode_at_def ino_of_add, auto simp: add_name_def)

lemma wf_add:
  assumes "wf_fs fs" "ino_of fs (d @ [n]) = None" "is_dir fs d" "\<not> is_dots n"
    and "k < fs_next fs" "fs_inodes fs k = Some i" "i_type i \<noteq> DT_DIR"
  shows "wf_fs (add_name (d @ [n]) k fs)"
proof (rule wf_fsI)
  note new = node_add [OF assms(2)]
  have isd: "is_dir (add_name (d @ [n]) k fs) q = is_dir fs q" for q
    using assms(2,6,7) by (auto simp: is_dir_def new node_None_iff [OF assms(1), symmetric] split: option.splits)
  show "distinct (map fst (fs_names (add_name (d @ [n]) k fs)))"
    using wf_fs_distinct [OF assms(1)] assms(2) by (auto simp: add_name_def ino_of_def map_of_eq_None_iff)
  show "is_dir (add_name (d @ [n]) k fs) []" using wf_fs_root [OF assms(1)] by (simp add: isd)
  have dots: "list_all (\<lambda>c. \<not> is_dots c) d"
    using wf_no_dots [OF assms(1)] is_dir_node [OF assms(3)] by force
  fix q j assume "ino_of (add_name (d @ [n]) k fs) q = Some j"
  then have "q = d @ [n] \<and> j = k \<or> ino_of fs q = Some j"
    by (auto simp: ino_of_add split: option.splits if_splits)
  then show "j < fs_next (add_name (d @ [n]) k fs) \<and> fs_inodes (add_name (d @ [n]) k fs) j \<noteq> None \<and>
      (q \<noteq> [] \<longrightarrow> is_dir (add_name (d @ [n]) k fs) (butlast q)) \<and> list_all (\<lambda>c. \<not> is_dots c) q"
    using wf_fsD [OF assms(1), of q j] assms(3-6) dots by (auto simp: isd) (auto simp: add_name_def)
  fix r assume *: "ino_of (add_name (d @ [n]) k fs) r = Some j" "is_dir (add_name (d @ [n]) k fs) q"
    "ino_of (add_name (d @ [n]) k fs) q = Some j"
  have "fs_inodes (add_name (d @ [n]) k fs) = fs_inodes fs" by (simp add: add_name_def)
  then have "j \<noteq> k"
    using *(2,3) assms(6,7) by (auto simp: is_dir_def inode_at_def)
  with *(3) have "q \<noteq> d @ [n]" using assms(2) by (auto simp: ino_of_add)
  note * \<open>j \<noteq> k\<close> this
  then show "q = r"
    using wf_fs_dir_unique [OF assms(1), of q j r] by (auto simp: isd ino_of_add split: option.splits if_splits)
qed

section \<open>Directory streams\<close>

lemma set_children:
  assumes "wf_fs fs"
  shows "set (children fs d) = {p. \<exists>n. p = d @ [n] \<and> inode_at fs p \<noteq> None}"
proof -
  have "p \<in> fst ` set (fs_names fs) \<longleftrightarrow> inode_at fs p \<noteq> None" for p
    unfolding node_None_iff [OF assms] by (simp add: ino_of_def map_of_eq_None_iff)
  then have "p \<in> set (children fs d) \<longleftrightarrow> p \<noteq> [] \<and> butlast p = d \<and> inode_at fs p \<noteq> None" for p
    by (auto simp: children_def)
  moreover have "p \<noteq> [] \<and> butlast p = d \<longleftrightarrow> (\<exists>n. p = d @ [n])" for p :: path
    by (metis append_butlast_last_id butlast_snoc snoc_eq_iff_butlast)
  ultimately show ?thesis by auto
qed

lemma children_Nil: "wf_fs fs \<Longrightarrow> children fs d = [] \<longleftrightarrow> (\<forall>n. inode_at fs (d @ [n]) = None)"
  using set_children [of fs d] by (auto simp flip: set_empty)

definition entries :: "fs \<Rightarrow> path \<Rightarrow> (string \<times> ftype) list" where
  "entries fs d = map (\<lambda>p. (last p, entry_type fs p)) (children fs d)"

lemma readdir_entries: "readdir fs d = (''.'', DT_DIR) # (''..'', DT_DIR) # entries fs d"
  by (simp add: readdir_def entries_def)

lemma set_entries:
  "wf_fs fs \<Longrightarrow> set (entries fs d) = {(n, t). \<exists>i. inode_at fs (d @ [n]) = Some i \<and> t = i_type i}"
  by (force simp: entries_def set_children entry_type_def split: option.splits)

lemma distinct_entries:
  assumes "wf_fs fs"
  shows "distinct (map fst (entries fs d))"
proof -
  have "inj_on last (set (children fs d))"
    unfolding set_children [OF assms] by (rule inj_onI) auto
  moreover have "distinct (children fs d)"
    using wf_fs_distinct [OF assms] by (simp add: children_def)
  ultimately show ?thesis by (simp add: entries_def comp_def distinct_map)
qed

lemma readdir_split:
  assumes "wf_fs fs" "readdir fs d = xs @ (n, t) # ys" "\<not> is_dots n"
  shows "n \<notin> fst ` set xs" "\<exists>i. inode_at fs (d @ [n]) = Some i \<and> t = i_type i"
proof -
  obtain xs' where xs: "xs = (''.'', DT_DIR) # (''..'', DT_DIR) # xs'" "entries fs d = xs' @ (n, t) # ys"
    using assms(2,3) by (auto simp: readdir_entries is_dots_def Cons_eq_append_conv)
  show "n \<notin> fst ` set xs"
    using distinct_entries [OF assms(1), of d] assms(3) unfolding xs by (force simp: is_dots_def)
  have "(n, t) \<in> set (entries fs d)" by (simp add: xs)
  then show "\<exists>i. inode_at fs (d @ [n]) = Some i \<and> t = i_type i" by (auto simp: set_entries [OF assms(1)])
qed

lemma not_in_readdir:
  assumes "wf_fs fs" "n \<notin> fst ` set (readdir fs d)"
  shows "inode_at fs (d @ n # r) = None"
proof (rule ccontr)
  assume "inode_at fs (d @ n # r) \<noteq> None"
  then have "inode_at fs (d @ [n]) \<noteq> None"
    using wf_ancestor [OF assms(1), of "d @ [n]" r] is_dir_node by (cases r) force+
  with assms(2) show False by (force simp: readdir_entries set_entries [OF assms(1)])
qed

lemma foldM_inv:
  assumes "\<And>xs x ys s. es = xs @ x # ys \<Longrightarrow> I xs s \<Longrightarrow> \<exists>s'. f x s = Some s' \<and> I (xs @ [x]) s'" "I [] s"
  shows "\<exists>s'. foldM f es s = Some s' \<and> I es s'"
proof -
  have "\<exists>s'. foldM f ys s = Some s' \<and> I es s'" if "es = xs @ ys" "I xs s" for xs ys s
    using that
  proof (induction ys arbitrary: xs s)
    case (Cons y ys)
    obtain s' where s': "f y s = Some s'" "I (xs @ [y]) s'"
      using assms(1) [OF Cons.prems] by blast
    have "es = (xs @ [y]) @ ys" using Cons.prems(1) by simp
    from Cons.IH [OF this s'(2)] s'(1) show ?case by simp
  qed simp
  from this [of "[]" es s] assms(2) show ?thesis by simp
qed

lemma xopenat_rd_dir:
  assumes "is_dir fs d" "is_dir fs (d @ [n])" "\<not> is_dots n"
  shows "xopenat_rd fs (Some d) n = Some (d @ [n])"
proof -
  have "entry_type fs (d @ [n]) \<noteq> DT_LNK" "inode_at fs (d @ [n]) \<noteq> None"
    using is_dir_node [OF assms(2)] by (auto simp: entry_type_def)
  with walk_at [OF assms(1,3)] show ?thesis
    by (simp add: xopenat_rd_def at_loc_def open_rd_def existing_def)
qed

section \<open>Removing\<close>

text \<open>What \<open>rm_rf\<close> leaves below \<open>d\<close>: a name at or above an excluded one.\<close>

definition survives :: "fenv \<Rightarrow> fs \<Rightarrow> path \<Rightarrow> path \<Rightarrow> bool" where
  "survives env fs d r \<longleftrightarrow> (\<exists>r'. inode_at fs (d @ r @ r') \<noteq> None \<and> list_ex (is_excl env) (r @ r'))"

definition deep :: "fs \<Rightarrow> path \<Rightarrow> nat \<Rightarrow> bool" where
  "deep fs d k \<longleftrightarrow> (\<forall>r. inode_at fs (d @ r) \<noteq> None \<longrightarrow> length r < k)"

lemma survives_cong:
  "(\<And>r'. inode_at fs (d @ n # r') = inode_at fs' (d @ n # r')) \<Longrightarrow>
     survives env fs d (n # r) = survives env fs' d (n # r)"
  by (simp add: survives_def)

lemma survives_Cons: "\<not> is_excl env n \<Longrightarrow> survives env fs d (n # r) = survives env fs (d @ [n]) r"
  by (simp add: survives_def)

lemma survives_Nil:
  assumes "wf_fs fs"
  shows "survives env fs d [] \<longleftrightarrow> (\<exists>m. inode_at fs (d @ [m]) \<noteq> None \<and> survives env fs d [m])"
proof
  assume "survives env fs d []"
  then obtain r where r: "inode_at fs (d @ r) \<noteq> None" "list_ex (is_excl env) r"
    by (auto simp: survives_def)
  then obtain m r' where m: "r = m # r'" by (cases r) auto
  have "inode_at fs (d @ [m]) \<noteq> None"
  proof (cases "r' = []")
    case False
    with r(1) m wf_ancestor [OF assms, of "d @ [m]" r'] is_dir_node show ?thesis by fastforce
  qed (use r(1) m in simp)
  with r m show "\<exists>m. inode_at fs (d @ [m]) \<noteq> None \<and> survives env fs d [m]"
    by (auto simp: survives_def)
qed (auto simp: survives_def)

lemma survives_file:
  assumes "wf_fs fs" "\<not> is_dir fs d"
  shows "\<not> survives env fs d r"
proof
  assume "survives env fs d r"
  then obtain r' where r': "inode_at fs (d @ (r @ r')) \<noteq> None" "list_ex (is_excl env) (r @ r')"
    by (auto simp: survives_def)
  from r'(2) have "r @ r' \<noteq> []" by auto
  from not_child_of_file [OF assms this] r'(1) show False by simp
qed

lemma rm_unlink:
  assumes "wf_fs fs" "inode_at fs (d @ [n]) = Some i" "i_type i \<noteq> DT_DIR"
  shows "wf_fs (unlink (d, [n]) fs)"
    "inode_at (unlink (d, [n]) fs) q = (if q = d @ [n] then None else inode_at fs q)"
proof -
  have dir: "is_dir fs d" "\<not> is_dots n" using wf_parent [OF assms(1), of d n] assms(2) by simp_all
  have isd: "\<not> is_dir fs (d @ [n])" using assms(2,3) by (simp add: is_dir_def)
  have eq: "unlink (d, [n]) fs = del_name (d @ [n]) fs"
    using walk_at [OF dir, of False] assms(2) isd by (simp add: unlink_def existing_def)
  show "wf_fs (unlink (d, [n]) fs)"
    unfolding eq using not_child_of_file [OF assms(1) isd] by (intro wf_del [OF assms(1)]) auto
  show "inode_at (unlink (d, [n]) fs) q = (if q = d @ [n] then None else inode_at fs q)"
    by (simp add: eq node_del)
qed

lemma rm_rmdir:
  assumes "wf_fs fs" "is_dir fs (d @ [n])"
  shows "wf_fs (rmdir (d, [n]) fs)"
    "inode_at (rmdir (d, [n]) fs) q =
       (if q = d @ [n] \<and> (\<forall>m. inode_at fs (d @ [n, m]) = None) then None else inode_at fs q)"
proof -
  obtain i where i: "inode_at fs (d @ [n]) = Some i" using is_dir_node [OF assms(2)] by blast
  then have dir: "is_dir fs d" "\<not> is_dots n" using wf_parent [OF assms(1), of d n] by simp_all
  have eq: "rmdir (d, [n]) fs =
      (if \<forall>m. inode_at fs (d @ [n, m]) = None then del_name (d @ [n]) fs else fs)"
    using walk_at [OF dir, of False] i assms(2) children_Nil [OF assms(1), of "d @ [n]"]
    by (simp add: rmdir_def existing_def)
  show "wf_fs (rmdir (d, [n]) fs)"
    unfolding eq using assms(1) by (auto intro: wf_del)
  show "inode_at (rmdir (d, [n]) fs) q =
      (if q = d @ [n] \<and> (\<forall>m. inode_at fs (d @ [n, m]) = None) then None else inode_at fs q)"
    by (simp add: eq node_del)
qed

definition removed :: "fenv \<Rightarrow> fs \<Rightarrow> path \<Rightarrow> fs \<Rightarrow> bool" where
  "removed env fs d fs' \<longleftrightarrow> wf_fs fs' \<and>
     (\<forall>q. inode_at fs' q = (if \<exists>n r. q = d @ n # r \<and> \<not> survives env fs d (n # r) then None else inode_at fs q))"

lemma rm_entry:
  assumes IH: "\<And>fs d. wf_fs fs \<Longrightarrow> is_dir fs d \<Longrightarrow> deep fs d k \<Longrightarrow>
      \<exists>fs'. in_order_walk k env rm_cb (Some d) fs = Some fs' \<and> removed env fs d fs'"
    and s: "wf_fs s" "inode_at s (d @ [n]) = Some i" "\<not> is_excl env n" "deep s d (Suc k)"
  shows "\<exists>s'. walk_entry (in_order_walk k env rm_cb) env rm_cb (Some d) (n, i_type i) s = Some s' \<and> wf_fs s' \<and>
    (\<forall>q. inode_at s' q = (if \<exists>r. q = d @ n # r \<and> \<not> survives env s d (n # r) then None else inode_at s q))"
proof -
  have dir: "is_dir s d" "\<not> is_dots n" using wf_parent [OF s(1), of d n] s(2) by simp_all
  show ?thesis
  proof (cases "i_type i = DT_DIR")
    case True
    then have sub: "is_dir s (d @ [n])" using s(2) by (simp add: is_dir_def)
    have "deep s (d @ [n]) k"
      using s(4) unfolding deep_def by (metis Suc_less_eq append.assoc append_Cons append_Nil length_Cons)
    from IH [OF s(1) sub this] obtain s1
      where s1: "in_order_walk k env rm_cb (Some (d @ [n])) s = Some s1" "removed env s (d @ [n]) s1"
      by blast
    have n1: "inode_at s1 q = (if \<exists>m r. q = d @ n # m # r \<and> \<not> survives env s d (n # m # r) then None else inode_at s q)" for q
      using s1(2) survives_Cons [OF s(3), of s d] by (simp add: removed_def)
    have wf1: "wf_fs s1" using s1(2) by (simp add: removed_def)
    have sub1: "is_dir s1 (d @ [n])" using sub by (simp add: is_dir_def n1)
    have empty: "(\<forall>m. inode_at s1 (d @ [n, m]) = None) \<longleftrightarrow> \<not> survives env s d [n]"
      using survives_Nil [OF s(1), of env "d @ [n]"] survives_Cons [OF s(3), of s d] by (auto simp: n1)
    have "inode_at (rmdir (d, [n]) s1) q =
        (if \<exists>r. q = d @ n # r \<and> \<not> survives env s d (n # r) then None else inode_at s q)" for q
    proof (cases "\<exists>r. q = d @ n # r")
      case True
      then obtain r where r: "q = d @ n # r" by blast
      show ?thesis
        by (cases r) (simp_all add: r rm_rmdir(2) [OF wf1 sub1, unfolded empty] n1)
    qed (auto simp: rm_rmdir(2) [OF wf1 sub1, unfolded empty] n1)
    moreover have "walk_entry (in_order_walk k env rm_cb) env rm_cb (Some d) (n, i_type i) s =
        Some (rmdir (d, [n]) s1)"
      using s1(1) s(3) dir(2) True by (simp add: walk_entry_def xopenat_rd_dir [OF dir(1) sub dir(2)] rm_cb_def at_loc_def)
    ultimately show ?thesis using rm_rmdir(1) [OF wf1 sub1] by blast
  next
    case False
    have none: "inode_at s (d @ n # r) = None" if "r \<noteq> []" for r
      using not_child_of_file [OF s(1), of "d @ [n]" r] s(2) False that by (simp add: is_dir_def)
    have "\<not> survives env s d (n # r)" for r
      using survives_file [OF s(1), of "d @ [n]"] survives_Cons [OF s(3)] s(2) False by (simp add: is_dir_def)
    then have "inode_at (unlink (d, [n]) s) q =
        (if \<exists>r. q = d @ n # r \<and> \<not> survives env s d (n # r) then None else inode_at s q)" for q
      using none by (cases "\<exists>r. r \<noteq> [] \<and> q = d @ n # r") (auto simp: rm_unlink(2) [OF s(1,2) False])
    moreover have "walk_entry (in_order_walk k env rm_cb) env rm_cb (Some d) (n, i_type i) s =
        Some (unlink (d, [n]) s)"
      using s(3) dir(2) False by (simp add: walk_entry_def rm_cb_def at_loc_def)
    ultimately show ?thesis using rm_unlink(1) [OF s(1,2) False] by blast
  qed
qed

text \<open>The loop over the entries of a directory: the entries \<open>xs\<close> have been removed.\<close>

definition removing :: "fenv \<Rightarrow> fs \<Rightarrow> path \<Rightarrow> (string \<times> ftype) list \<Rightarrow> fs \<Rightarrow> bool" where
  "removing env fs d xs s \<longleftrightarrow> wf_fs s \<and>
    (\<forall>q. inode_at s q = (if \<exists>n r. n \<in> fst ` set xs \<and> q = d @ n # r \<and> \<not> survives env fs d (n # r)
                     then None else inode_at fs q))"

lemma removing_skip:
  assumes "wf_fs fs" "removing env fs d xs s" "is_dots n \<or> is_excl env n"
  shows "removing env fs d (xs @ [(n, t)]) s"
proof -
  have "inode_at fs (d @ n # r) = None" if "\<not> survives env fs d (n # r)" for r
    using that assms(3) wf_no_dots [OF assms(1), of "d @ n # r"]
    by (cases "inode_at fs (d @ n # r)") (auto simp: survives_def dest: spec [of _ "[]"])
  with assms(2) show ?thesis by (auto simp: removing_def)
qed

lemma removing_entry:
  assumes I: "removing env fs d xs s" and new: "n \<notin> fst ` set xs" and wf: "wf_fs s'"
    and s': "\<And>q. inode_at s' q = (if \<exists>r. q = d @ n # r \<and> \<not> survives env s d (n # r) then None else inode_at s q)"
  shows "removing env fs d (xs @ [(n, t)]) s'"
proof -
  have eq: "inode_at s (d @ n # r) = inode_at fs (d @ n # r)" for r using I new by (auto simp: removing_def)
  then show ?thesis using I wf s' survives_cong [OF eq] by (auto simp: removing_def)
qed

lemma removing_all:
  assumes "wf_fs fs" "removing env fs d (readdir fs d) s"
  shows "removed env fs d s"
proof -
  have "inode_at s q = (if \<exists>n r. q = d @ n # r \<and> \<not> survives env fs d (n # r) then None else inode_at fs q)" for q
  proof (cases "\<exists>n r. q = d @ n # r")
    case True
    then obtain n r where q: "q = d @ n # r" by blast
    show ?thesis
      using assms(2) not_in_readdir [OF assms(1), of n d r]
      by (cases "n \<in> fst ` set (readdir fs d)") (auto simp: removing_def q)
  qed (use assms(2) in \<open>auto simp: removing_def\<close>)
  with assms(2) show ?thesis by (simp add: removing_def removed_def)
qed

lemma frm_rf_removes:
  assumes "wf_fs fs" "is_dir fs d" "deep fs d k"
  shows "\<exists>fs'. in_order_walk k env rm_cb (Some d) fs = Some fs' \<and> removed env fs d fs'"
  using assms
proof (induction k arbitrary: fs d)
  case 0
  then show ?case using is_dir_node [of fs d] by (auto simp: deep_def dest: spec [of _ "[]"])
next
  case (Suc k)
  have "\<exists>s'. foldM (walk_entry (in_order_walk k env rm_cb) env rm_cb (Some d)) (readdir fs d) fs = Some s' \<and>
      removing env fs d (readdir fs d) s'"
  proof (rule foldM_inv)
    show "removing env fs d [] fs" using Suc.prems(1) by (simp add: removing_def)
    fix xs x ys s assume es: "readdir fs d = xs @ x # ys" and I: "removing env fs d xs s"
    obtain n t where x: "x = (n, t)" by (cases x)
    show "\<exists>s'. walk_entry (in_order_walk k env rm_cb) env rm_cb (Some d) x s = Some s' \<and> removing env fs d (xs @ [x]) s'"
    proof (cases "is_dots n \<or> is_excl env n")
      case True
      then show ?thesis using removing_skip [OF Suc.prems(1) I True] by (simp add: x walk_entry_def)
    next
      case False
      have new: "n \<notin> fst ` set xs" and "\<exists>i. inode_at fs (d @ [n]) = Some i \<and> t = i_type i"
        using readdir_split [OF Suc.prems(1), of d xs n t ys] es False by (simp_all add: x)
      moreover have "inode_at s (d @ [n]) = inode_at fs (d @ [n])" using I new by (auto simp: removing_def)
      ultimately obtain i where i: "inode_at s (d @ [n]) = Some i" "t = i_type i" by auto
      have "wf_fs s" "deep s d (Suc k)"
        using Suc.prems(3) I by (auto simp: deep_def removing_def split: if_splits)
      from rm_entry [OF Suc.IH this(1) _ _ this(2), of n i] i False obtain s'
        where s': "walk_entry (in_order_walk k env rm_cb) env rm_cb (Some d) x s = Some s'" "wf_fs s'"
          "\<And>q. inode_at s' q = (if \<exists>r. q = d @ n # r \<and> \<not> survives env s d (n # r) then None else inode_at s q)"
        by (auto simp: x)
      with removing_entry [OF I new, of s' t] show ?thesis by (auto simp: x)
    qed
  qed
  then show ?case using removing_all [OF Suc.prems(1)] Suc.prems(2) by (fastforce simp: fdopendir_def)
qed

lemma unlink_walk: "walk False fs l = walk False fs l' \<Longrightarrow> unlink l fs = unlink l' fs"
  by (simp add: unlink_def)

lemma rmdir_walk: "walk False fs l = walk False fs l' \<Longrightarrow> rmdir l fs = rmdir l' fs"
  by (simp add: rmdir_def)

lemma remove_path_node:
  assumes "wf_fs fs" "inode_at fs (d @ [n]) \<noteq> None"
  shows "remove_path ([], d @ [n]) fs =
    (if is_dir fs (d @ [n]) then rmdir (d, [n]) fs else unlink (d, [n]) fs)"
proof -
  note dir = wf_parent [OF assms]
  have "walk False fs ([], d @ [n]) = Some (d @ [n])" "walk False fs (d, [n]) = Some (d @ [n])"
    using walk_path [OF assms(1) dir] walk_at [OF dir] by simp_all
  then show ?thesis
    using assms(2) unlink_walk [of fs "([], d @ [n])" "(d, [n])"] rmdir_walk [of fs "([], d @ [n])" "(d, [n])"]
    by (auto simp: remove_path_def existing_def)
qed

text \<open>The paths at and below \<open>p\<close> are gone, except those on the way to an excluded name.\<close>

definition gone :: "fenv \<Rightarrow> fs \<Rightarrow> path \<Rightarrow> fs \<Rightarrow> bool" where
  "gone env fs p fs' \<longleftrightarrow> wf_fs fs' \<and>
    (\<forall>q. inode_at fs' q = (if \<exists>r. q = p @ r \<and> \<not> survives env fs p r then None else inode_at fs q))"

lemma rm_rf_dir:
  assumes wf: "wf_fs fs" and isd: "is_dir fs (d @ [n])" and deep: "deep fs (d @ [n]) k"
  shows "\<exists>fs'. rm_rf k env ([], d @ [n]) fs = Some fs' \<and> gone env fs (d @ [n]) fs'"
proof -
  let ?p = "d @ [n]"
  obtain i where i: "inode_at fs ?p = Some i" "i_type i = DT_DIR" using isd by (auto simp: is_dir_def split: option.splits)
  have w: "walk False fs ([], ?p) = Some ?p"
    using walk_path [OF wf wf_parent [OF wf, of d n]] i(1) by simp
  from frm_rf_removes [OF wf isd deep] obtain s
    where s: "in_order_walk k env rm_cb (Some ?p) fs = Some s" "removed env fs ?p s" by blast
  have wfs: "wf_fs s" and
    ns: "inode_at s q = (if \<exists>m r. q = ?p @ m # r \<and> \<not> survives env fs ?p (m # r) then None else inode_at fs q)" for q
    using s(2) by (simp_all add: removed_def)
  have isd': "is_dir s ?p" using isd by (simp add: is_dir_def ns)
  have rm: "rm_rf k env ([], ?p) fs = Some (rmdir (d, [n]) s)"
    using w i s(1) isd' remove_path_node [OF wfs, of d n] is_dir_node [OF isd']
    by (auto simp: rm_rf_def open_nofollow_def existing_def entry_type_def frm_rf_def)
  have empty: "(\<forall>m. inode_at s (d @ [n, m]) = None) \<longleftrightarrow> \<not> survives env fs ?p []"
    using survives_Nil [OF wf, of env ?p] i by (auto simp: ns)
  have "inode_at (rmdir (d, [n]) s) q =
      (if \<exists>r. q = ?p @ r \<and> \<not> survives env fs ?p r then None else inode_at fs q)" for q
  proof (cases "\<exists>r. q = ?p @ r")
    case True
    then obtain r where r: "q = ?p @ r" by blast
    show ?thesis by (cases r) (simp_all add: r rm_rmdir(2) [OF wfs isd', unfolded empty] ns)
  qed (auto simp: rm_rmdir(2) [OF wfs isd', unfolded empty] ns)
  with rm rm_rmdir(1) [OF wfs isd'] show ?thesis unfolding gone_def by blast
qed

lemma rm_rf_leaf:
  assumes wf: "wf_fs fs" and i: "inode_at fs (d @ [n]) = Some i" "i_type i \<noteq> DT_DIR" and k: "k \<noteq> 0"
  shows "\<exists>fs'. rm_rf k env ([], d @ [n]) fs = Some fs' \<and> gone env fs (d @ [n]) fs'"
proof -
  let ?p = "d @ [n]"
  have w: "walk False fs ([], ?p) = Some ?p"
    using walk_path [OF wf wf_parent [OF wf, of d n]] i(1) by simp
  have isd: "\<not> is_dir fs ?p" using i by (simp add: is_dir_def)
  have walk: "in_order_walk k env rm_cb (Some ?p) fs = Some fs"
    using k isd by (cases k) (simp_all add: fdopendir_def)
  have rm: "rm_rf k env ([], ?p) fs = Some (unlink (d, [n]) fs)"
    using w i isd walk remove_path_node [OF wf, of d n]
    by (simp add: rm_rf_def open_nofollow_def existing_def entry_type_def frm_rf_def)
  have none: "inode_at fs (?p @ r) = None" if "r \<noteq> []" for r
    using not_child_of_file [OF wf isd that] .
  with survives_file [OF wf isd] have "inode_at (unlink (d, [n]) fs) q =
      (if \<exists>r. q = ?p @ r \<and> \<not> survives env fs ?p r then None else inode_at fs q)" for q
    by (cases "\<exists>r. r \<noteq> [] \<and> q = ?p @ r") (auto simp: rm_unlink(2) [OF wf i])
  with rm rm_unlink(1) [OF wf i] show ?thesis unfolding gone_def by blast
qed

text \<open>
  Property C19. \<open>rm_rf\<close> of a path of a well-formed file system returns (with more fuel than the
  tree is deep), leaves a well-formed file system, and removes exactly the names at and below the path that
  are neither at, below nor above an excluded name; links are removed and never followed, and nothing outside
  the path changes.
\<close>

theorem rm_rf_removes:
  assumes "wf_fs fs" "inode_at fs (d @ [n]) \<noteq> None"
    and "\<And>r. inode_at fs ((d @ [n]) @ r) \<noteq> None \<Longrightarrow> length r < k"
  shows "\<exists>fs'. rm_rf k env ([], d @ [n]) fs = Some fs' \<and> wf_fs fs' \<and>
    (\<forall>q. inode_at fs' q =
       (if \<exists>r. q = (d @ [n]) @ r \<and>
            \<not> (\<exists>r'. inode_at fs ((d @ [n]) @ r @ r') \<noteq> None \<and> list_ex (is_excl env) (r @ r'))
        then None else inode_at fs q))"
proof -
  obtain i where i: "inode_at fs (d @ [n]) = Some i" using assms(2) by blast
  have "\<exists>fs'. rm_rf k env ([], d @ [n]) fs = Some fs' \<and> gone env fs (d @ [n]) fs'"
  proof (cases "i_type i = DT_DIR")
    case True
    then show ?thesis using assms(1,3) i by (intro rm_rf_dir) (simp_all add: is_dir_def deep_def)
  next
    case False
    then show ?thesis using assms(1,2) assms(3) [of "[]"] i by (intro rm_rf_leaf) auto
  qed
  then show ?thesis by (simp add: gone_def survives_def)
qed

text \<open>A small file system: a directory \<open>/a\<close> with a file, an empty directory \<open>/b\<close>, and a file \<open>/t\<close>.\<close>

definition demo_dir :: inode where
  "demo_dir = \<lparr>i_type = DT_DIR, i_mode = 0x1ED, i_uid = 0, i_gid = 0, i_data = []\<rparr>"

definition demo_file :: inode where
  "demo_file = \<lparr>i_type = DT_REG, i_mode = 0x980, i_uid = 7, i_gid = 8, i_data = ''hello''\<rparr>"

definition demo_fs :: fs where
  "demo_fs =
     \<lparr>fs_names = [([], 0), ([''a''], 1), ([''a'', ''f''], 2), ([''b''], 3), ([''t''], 4)],
      fs_inodes = [0 \<mapsto> demo_dir, 1 \<mapsto> demo_dir, 2 \<mapsto> demo_file, 3 \<mapsto> demo_dir, 4 \<mapsto> demo_file],
      fs_next = 5, fs_cwd = []\<rparr>"

definition demo_env :: fenv where
  "demo_env = \<lparr>excl_list = None, e_umask = 0x12, e_junk = 0\<rparr>"

lemma node_demo_fs:
  "inode_at demo_fs p =
     (if p = [] \<or> p = [''a''] \<or> p = [''b''] then Some demo_dir
      else if p = [''a'', ''f''] \<or> p = [''t''] then Some demo_file else None)"
  by (auto simp: inode_at_def ino_of_def demo_fs_def)

lemma wf_demo_fs: "wf_fs demo_fs"
  by (simp add: wf_fs_def is_dir_def node_demo_fs)
     (simp add: demo_fs_def demo_dir_def demo_file_def is_dots_def)

theorem rm_rf_removes_witness:
  "\<exists>fs'. rm_rf 2 (demo_env\<lparr>excl_list := Some [''x'']\<rparr>) ([], [''a'']) demo_fs = Some fs' \<and>
     inode_at fs' [''a''] = None \<and> inode_at fs' [''a'', ''f''] = None \<and> inode_at fs' [''t''] = Some demo_file"
proof -
  let ?env = "demo_env\<lparr>excl_list := Some [''x'']\<rparr>"
  have "\<exists>fs'. rm_rf 2 ?env ([], [] @ [''a'']) demo_fs = Some fs' \<and> wf_fs fs' \<and>
    (\<forall>q. inode_at fs' q =
       (if \<exists>r. q = ([] @ [''a'']) @ r \<and>
            \<not> (\<exists>r'. inode_at demo_fs (([] @ [''a'']) @ r @ r') \<noteq> None \<and> list_ex (is_excl ?env) (r @ r'))
        then None else inode_at demo_fs q))"
    by (rule rm_rf_removes [OF wf_demo_fs]) (auto simp: node_demo_fs split: if_splits)
  then obtain fs' where fs': "rm_rf 2 ?env ([], [''a'']) demo_fs = Some fs'"
    "\<And>q. inode_at fs' q =
       (if \<exists>r. q = [''a''] @ r \<and>
            \<not> (\<exists>r'. inode_at demo_fs ([''a''] @ r @ r') \<noteq> None \<and> list_ex (is_excl ?env) (r @ r'))
        then None else inode_at demo_fs q)" by auto
  have "\<not> (inode_at demo_fs ([''a''] @ r) \<noteq> None \<and> list_ex (is_excl ?env) r)" for r
    by (auto simp: node_demo_fs is_excl_def)
  with fs' show ?thesis by (auto simp: node_demo_fs is_excl_def)
qed

section \<open>Copying one entry\<close>

definition apart :: "path \<Rightarrow> path \<Rightarrow> bool" where
  "apart p q \<longleftrightarrow> (\<forall>r r'. p @ r \<noteq> q @ r')"

lemma apartI: "\<not> prefix p q \<Longrightarrow> \<not> prefix q p \<Longrightarrow> apart p q"
  unfolding apart_def by (metis prefix_same_cases prefixI)

lemma apart_append: "apart p q \<Longrightarrow> apart (p @ r) (q @ r')"
  by (simp add: apart_def)

lemma getattrat_node:
  assumes "wf_fs fs" "inode_at fs (d @ [n]) \<noteq> None"
  shows "getattrat fs (Some d) n = inode_at fs (d @ [n])"
  using walk_path [OF assms(1) wf_parent [OF assms]]
  by (simp add: getattrat_def fd_getpathat_def getattr_def)

lemma upd_upd: "upd_node f p (upd_node g p fs) = upd_node (f \<circ> g) p fs"
proof (cases "ino_of fs p")
  case (Some k)
  then have "ino_of (upd_node g p fs) p = Some k" by simp
  with Some show ?thesis by (simp add: upd_node_def option.map_comp)
qed (simp add: upd_node_def)

lemma node_upd_create:
  assumes "wf_fs fs" "inode_at fs p = None"
  shows "inode_at (upd_node f p (create fs p i)) q = (if q = p then Some (f i) else inode_at fs q)"
proof -
  have none: "ino_of fs p = None" using assms by (simp add: node_None_iff)
  have "ino_of (create fs p i) q \<noteq> ino_of (create fs p i) p" if "q \<noteq> p"
    using none that wf_fsD(1) [OF assms(1), of q] by (cases "ino_of fs q") (auto simp: ino_of_create)
  then show ?thesis by (auto simp: node_upd node_create [OF assms])
qed

lemma i_type_chmod [simp]: "i_type (chmod_chown a i) = i_type i"
  by (simp add: chmod_chown_def)

lemma setattrat_upd:
  assumes "wf_fs fs" "inode_at fs (d @ [n]) \<noteq> None" "entry_type fs (d @ [n]) \<noteq> DT_LNK"
  shows "snd (setattrat (Some d) n a fs) = upd_node (chmod_chown a) (d @ [n]) fs"
  using walk_path [OF assms(1) wf_parent [OF assms(1,2)], of True] assms(2,3)
  by (auto simp: setattrat_def fd_getpathat_def setattr_def existing_def)

lemma xmkdirat_create:
  assumes "is_dir fs d" "\<not> is_dots n" "inode_at fs (d @ [n]) = None"
  shows "xmkdirat env (Some d) n m fs = create fs (d @ [n]) (new_dir env m)"
  using walk_at [OF assms(1,2), of False] assms(3) by (simp add: xmkdirat_def at_loc_def mkdir_def)

definition dir_like :: "inode \<Rightarrow> inode" where
  "dir_like a = \<lparr>i_type = DT_DIR, i_mode = i_mode a AND 0x1FF, i_uid = i_uid a, i_gid = i_gid a, i_data = []\<rparr>"

text \<open>Making a directory and giving it the attributes of another, through its path or its descriptor.\<close>

lemma mkdir_with_attr:
  fixes env :: fenv and m :: u32 and a :: inode
  assumes "wf_fs fs" "is_dir fs d" "\<not> is_dots n" "inode_at fs (d @ [n]) = None"
  defines "fs1 \<equiv> xmkdirat env (Some d) n m fs"
  defines "fs2 \<equiv> upd_node (chmod_chown a) (d @ [n]) fs1"
  shows "snd (setattrat (Some d) n a fs1) = fs2" "xopenat_rd fs1 (Some d) n = Some (d @ [n])"
    "xopenat_rd fs2 (Some d) n = Some (d @ [n])" "wf_fs fs2"
    "inode_at fs2 q = (if q = d @ [n] then Some (dir_like a) else inode_at fs q)"
proof -
  have fs1: "fs1 = create fs (d @ [n]) (new_dir env m)"
    unfolding fs1_def by (rule xmkdirat_create [OF assms(2-4)])
  have wf1: "wf_fs fs1" unfolding fs1 by (rule wf_create [OF assms(1,4,2,3)])
  have n1: "inode_at fs1 q = (if q = d @ [n] then Some (new_dir env m) else inode_at fs q)" for q
    unfolding fs1 by (rule node_create [OF assms(1,4)])
  have dirs: "is_dir fs1 d" "is_dir fs1 (d @ [n])"
    using assms(2) by (simp_all add: is_dir_def n1 new_dir_def)
  show "snd (setattrat (Some d) n a fs1) = fs2"
    unfolding fs2_def by (rule setattrat_upd [OF wf1]) (simp_all add: n1 entry_type_def new_dir_def)
  show "xopenat_rd fs1 (Some d) n = Some (d @ [n])"
    by (rule xopenat_rd_dir [OF dirs assms(3)])
  have "is_dir fs2 d" "is_dir fs2 (d @ [n])" using dirs by (simp_all add: fs2_def is_dir_upd)
  then show "xopenat_rd fs2 (Some d) n = Some (d @ [n])"
    by (rule xopenat_rd_dir [OF _ _ assms(3)])
  show "wf_fs fs2" unfolding fs2_def by (rule wf_upd [OF wf1]) simp
  show "inode_at fs2 q = (if q = d @ [n] then Some (dir_like a) else inode_at fs q)"
    unfolding fs2_def fs1 node_upd_create [OF assms(1,4)]
    by (simp add: chmod_chown_def new_dir_def dir_like_def)
qed

text \<open>
  What a copy keeps: the type, the permission bits, the owner, and the data up to the limit of \<open>sendfile\<close>.
\<close>

definition copy_of :: "inode \<Rightarrow> inode" where
  "copy_of i = i\<lparr>i_mode := i_mode i AND 0x1FF,
     i_data := (case i_type i of DT_DIR \<Rightarrow> [] | DT_REG \<Rightarrow> take SENDFILE_MAX (i_data i) | _ \<Rightarrow> i_data i)\<rparr>"

lemma copy_of_dir: "i_type i = DT_DIR \<Longrightarrow> copy_of i = dir_like i"
  by (cases i) (simp add: copy_of_def dir_like_def)

lemma take_min_length [simp]: "take (min k (length xs)) xs = take k xs"
  by (simp add: min_def)

lemma clone_reg:
  assumes "wf_fs fs" "is_dir fs dest" "inode_at fs (dest @ [n]) = None"
    and "inode_at fs (src @ [n]) = Some i" "i_type i = DT_REG" "\<not> is_excl env n"
  shows "\<exists>fs'. clone_entry rec env (Some src) (Some dest) (n, DT_REG) fs = Some fs' \<and> wf_fs fs' \<and>
    (\<forall>q. inode_at fs' q = (if q = dest @ [n] then Some (copy_of i) else inode_at fs q))"
proof -
  have src: "is_dir fs src" "\<not> is_dots n" using wf_parent [OF assms(1), of src n] assms(4) by simp_all
  have "dest \<noteq> src" using assms(3,4) by auto
  let ?p = "dest @ [n]"
  let ?new = "\<lparr>i_type = DT_REG, i_mode = e_junk env AND NOT (e_umask env) AND 0xFFF, i_uid = 0, i_gid = 0, i_data = []\<rparr>"
  define fs1 where "fs1 = create fs ?p ?new"
  have open1: "xopenat_creat env (Some dest) n fs = (Some ?p, fs1)"
    using walk_at [OF assms(2) src(2), of True] assms(3)
    by (simp add: xopenat_creat_def at_loc_def open_creat_def fs1_def entry_type_def)
  have n1: "inode_at fs1 q = (if q = ?p then Some ?new else inode_at fs q)" for q
    unfolding fs1_def by (rule node_create [OF assms(1,3)])
  have src1: "is_dir fs1 src" using src(1) assms(3) by (auto simp: is_dir_def n1)
  have ns1: "inode_at fs1 (src @ [n]) = Some i" using assms(4) \<open>dest \<noteq> src\<close> by (simp add: n1)
  have open2: "xopenat_rd fs1 (Some src) n = Some (src @ [n])"
    using walk_at [OF src1 src(2), of True] ns1 assms(5)
    by (simp add: xopenat_rd_def at_loc_def open_rd_def existing_def entry_type_def)
  let ?f = "\<lambda>j. chmod_chown i (j\<lparr>i_data := take SENDFILE_MAX (i_data i) @ drop (min (length (i_data i)) SENDFILE_MAX) (i_data j)\<rparr>)"
  have run: "clone_entry rec env (Some src) (Some dest) (n, DT_REG) fs = Some (upd_node ?f ?p fs1)"
    using assms(6) src(2) getattrat_node [OF assms(1), of src n] assms(4)
    by (simp add: clone_entry_def open1 open2 xsendfile_def ns1 Let_def fsetattr_def upd_upd comp_def min.commute)
  have "wf_fs fs1" unfolding fs1_def by (rule wf_create [OF assms(1,3,2) src(2)])
  then have "wf_fs (upd_node ?f ?p fs1)" by (rule wf_upd) simp
  moreover have "inode_at (upd_node ?f ?p fs1) q = (if q = ?p then Some (copy_of i) else inode_at fs q)" for q
    unfolding fs1_def node_upd_create [OF assms(1,3)]
    using assms(5) by (cases i) (simp add: chmod_chown_def copy_of_def)
  ultimately show ?thesis using run by blast
qed

text \<open>
  After a link is copied, its attributes are set through the new link, on whatever file it leads to. With
  \<open>b\<close> true, \<open>proj b\<close> is the whole inode; otherwise it leaves the attributes out.
\<close>

definition proj :: "bool \<Rightarrow> inode \<Rightarrow> inode" where
  "proj b i = (if b then i else i\<lparr>i_mode := 0, i_uid := 0, i_gid := 0\<rparr>)"

definition look_at :: "bool \<Rightarrow> fs \<Rightarrow> path \<Rightarrow> inode option" where
  "look_at b fs p = map_option (proj b) (inode_at fs p)"

lemma proj_eqD:
  assumes "proj b i = proj b j"
  shows "i_type i = i_type j" "i_data i = i_data j" "proj b (copy_of i) = proj b (copy_of j)"
proof -
  show "i_type i = i_type j" "i_data i = i_data j"
    using assms by (cases i; cases j; simp add: proj_def split: if_splits)+
  with assms show "proj b (copy_of i) = proj b (copy_of j)"
    by (cases i; cases j; simp add: proj_def copy_of_def split: if_splits ftype.splits)
qed

lemma look_at_None [simp]: "look_at b fs p = None \<longleftrightarrow> inode_at fs p = None"
  by (simp add: look_at_def)

lemma look_Some_type:
  "look_at b fs p = look_at b fs' q \<Longrightarrow> inode_at fs p = Some i \<Longrightarrow> \<exists>j. inode_at fs' q = Some j \<and> proj b i = proj b j"
  by (cases "inode_at fs' q") (auto simp: look_at_def)

lemma look_is_dir: "look_at b fs p = look_at b fs' q \<Longrightarrow> is_dir fs p = is_dir fs' q"
  by (cases "inode_at fs p"; cases "inode_at fs' q") (auto simp: look_at_def is_dir_def dest: proj_eqD(1))

lemma setattrat_look:
  assumes "wf_fs fs"
  shows "wf_fs (snd (setattrat d n a fs))" "look_at False (snd (setattrat d n a fs)) q = look_at False fs q"
proof -
  have "\<exists>p. snd (setattrat d n a fs) = fs \<or> snd (setattrat d n a fs) = upd_node (chmod_chown a) p fs"
    by (auto simp: setattrat_def setattr_def split: option.split)
  then obtain p where "snd (setattrat d n a fs) = fs \<or> snd (setattrat d n a fs) = upd_node (chmod_chown a) p fs"
    by blast
  moreover have "wf_fs (upd_node (chmod_chown a) p fs)" by (rule wf_upd [OF assms]) simp
  moreover have "proj False \<circ> chmod_chown a = proj False"
    by (rule ext) (simp add: proj_def chmod_chown_def)
  then have "look_at False (upd_node (chmod_chown a) p fs) q = look_at False fs q"
    by (simp add: look_at_def node_upd option.map_comp)
  ultimately show "wf_fs (snd (setattrat d n a fs))" "look_at False (snd (setattrat d n a fs)) q = look_at False fs q"
    using assms by auto
qed

lemma clone_lnk:
  assumes "wf_fs fs" "is_dir fs dest" "inode_at fs (dest @ [n]) = None"
    and "inode_at fs (src @ [n]) = Some i" "i_type i = DT_LNK" "\<not> is_excl env n"
  shows "\<exists>fs'. clone_entry rec env (Some src) (Some dest) (n, DT_LNK) fs = Some fs' \<and> wf_fs fs' \<and>
    (\<forall>q. look_at False fs' q = (if q = dest @ [n] then Some (proj False (copy_of i)) else look_at False fs q))"
proof -
  have src: "is_dir fs src" "\<not> is_dots n" using wf_parent [OF assms(1), of src n] assms(4) by simp_all
  let ?new = "\<lparr>i_type = DT_LNK, i_mode = 0x1FF, i_uid = 0, i_gid = 0, i_data = i_data i\<rparr>"
  define fs1 where "fs1 = create fs (dest @ [n]) ?new"
  have rl: "readlink fs (src, [n]) = Some (i_data i)"
    using walk_at [OF src, of False] assms(4,5) by (simp add: readlink_def)
  have sl: "symlink (i_data i) (dest, [n]) fs = fs1"
    using walk_at [OF assms(2) src(2), of False] assms(3) by (simp add: symlink_def fs1_def)
  have run: "clone_entry rec env (Some src) (Some dest) (n, DT_LNK) fs = Some (snd (setattrat (Some dest) n i fs1))"
    using assms(6) src(2) getattrat_node [OF assms(1), of src n] assms(4)
    by (simp add: clone_entry_def at_loc_def rl sl)
  have wf1: "wf_fs fs1" unfolding fs1_def by (rule wf_create [OF assms(1,3,2) src(2)])
  have "look_at False fs1 q = (if q = dest @ [n] then Some (proj False (copy_of i)) else look_at False fs q)" for q
    unfolding fs1_def look_at_def node_create [OF assms(1,3)]
    using assms(5) by (cases i) (simp add: proj_def copy_of_def)
  with run setattrat_look [OF wf1] show ?thesis by auto
qed

end
