(* ===== verification/File_Clone.thy ===== *)
theory File_Clone
  imports File_Tree_Correct
begin

text \<open>
  \<open>clone_dir\<close> copies a tree and \<open>link_dir\<close> links one: both make the directories anew and treat every
  other entry on its own. The locale \<open>tree_copy\<close> is what the two recursions share, with the result they have on a
  whole tree: what arrives below the target and what stays as it was. The last part shows what happens to the
  files that copied links lead to.
\<close>

section \<open>Copying a tree\<close>

text \<open>
  \<open>cp i\<close> is the inode that stands for an entry \<open>i\<close> in the target, if any; \<open>good b i\<close> holds if
  the claim about entries like \<open>i\<close> includes the attributes when \<open>b\<close> is true.
\<close>

locale tree_copy =
  fixes copy_dir :: "nat \<Rightarrow> fenv \<Rightarrow> path option \<Rightarrow> path option \<Rightarrow> fs \<Rightarrow> fs option"
    and copy_entry :: "(path option \<Rightarrow> path option \<Rightarrow> fs \<Rightarrow> fs option) \<Rightarrow> fenv \<Rightarrow> path option \<Rightarrow> path option \<Rightarrow>
      string \<times> ftype \<Rightarrow> fs \<Rightarrow> fs option"
    and cp :: "inode \<Rightarrow> inode option"
    and good :: "bool \<Rightarrow> inode \<Rightarrow> bool"
  assumes copy_Suc: "copy_dir (Suc k) env src dest fs =
      (case fdopendir fs src of
         None \<Rightarrow> None | Some es \<Rightarrow> foldM (copy_entry (copy_dir k env) env src dest) es fs)"
    and copy_skip: "is_dots n \<or> is_excl env n \<Longrightarrow> copy_entry rec env src dest (n, t) fs = Some fs"
    and copy_subdir: "\<not> is_dots n \<Longrightarrow> \<not> is_excl env n \<Longrightarrow> getattrat fs src n = Some a \<Longrightarrow>
      copy_entry rec env src dest (n, DT_DIR) fs =
        (let fs2 = snd (setattrat dest n a (xmkdirat env dest n (i_mode a AND 0x1FF) fs))
         in rec (xopenat_rd fs2 src n) (xopenat_rd fs2 dest n) fs2)"
    and copy_leaf: "wf_fs fs \<Longrightarrow> is_dir fs dest' \<Longrightarrow> inode_at fs (dest' @ [n]) = None \<Longrightarrow>
      inode_at fs (src' @ [n]) = Some i \<Longrightarrow> i_type i \<noteq> DT_DIR \<Longrightarrow> \<not> is_excl env n \<Longrightarrow> good b i \<Longrightarrow>
      \<exists>fs'. copy_entry rec env (Some src') (Some dest') (n, i_type i) fs = Some fs' \<and> wf_fs fs' \<and>
        (\<forall>q. look_at b fs' q = (if q = dest' @ [n] then map_option (proj b) (cp i) else look_at b fs q))"
    and cp_dir: "i_type i = DT_DIR \<Longrightarrow> cp i = Some (dir_like i)"
    and cp_cong: "proj b i = proj b j \<Longrightarrow> map_option (proj b) (cp i) = map_option (proj b) (cp j)"
    and good_cong: "proj b i = proj b j \<Longrightarrow> good b i = good b j"
begin

definition img :: "bool \<Rightarrow> fenv \<Rightarrow> fs \<Rightarrow> path \<Rightarrow> path \<Rightarrow> inode option" where
  "img b env fs src r =
     (if list_ex (is_excl env) r then None
      else map_option (proj b) (Option.bind (inode_at fs (src @ r)) cp))"

definition copied :: "bool \<Rightarrow> fenv \<Rightarrow> fs \<Rightarrow> path \<Rightarrow> path \<Rightarrow> fs \<Rightarrow> bool" where
  "copied b env fs src dest fs' \<longleftrightarrow> wf_fs fs' \<and>
     (\<forall>q. (\<forall>n r. q \<noteq> dest @ n # r) \<longrightarrow> look_at b fs' q = look_at b fs q) \<and>
     (\<forall>n r. look_at b fs' (dest @ n # r) = img b env fs src (n # r))"

definition copyable :: "bool \<Rightarrow> fs \<Rightarrow> path \<Rightarrow> path \<Rightarrow> nat \<Rightarrow> bool" where
  "copyable b fs src dest k \<longleftrightarrow>
     wf_fs fs \<and> is_dir fs src \<and> is_dir fs dest \<and> apart src dest \<and> deep fs src k \<and>
     (\<forall>r i. inode_at fs (src @ r) = Some i \<longrightarrow> good b i)"

lemma img_cong:
  assumes "look_at b fs (src @ r) = look_at b fs' (src @ r)"
  shows "img b env fs src r = img b env fs' src r"
proof (cases "inode_at fs (src @ r)")
  case None
  then have "inode_at fs' (src @ r) = None" using assms by (metis look_at_None)
  with None show ?thesis by (simp add: img_def)
next
  case (Some i)
  with assms obtain j where "inode_at fs' (src @ r) = Some j" "proj b i = proj b j"
    by (blast dest: look_Some_type)
  with Some cp_cong [of b i j] show ?thesis by (simp add: img_def)
qed

lemma img_Cons: "\<not> is_excl env n \<Longrightarrow> img b env fs (src @ [n]) r = img b env fs src (n # r)"
  by (simp add: img_def)

text \<open>A state that looks the same on the source and the target is as good a start.\<close>

lemma copyable_cong:
  assumes "copyable b fs src dest k" "wf_fs fs'"
    and "\<And>r. look_at b fs' (src @ r) = look_at b fs (src @ r)" "look_at b fs' dest = look_at b fs dest"
  shows "copyable b fs' src dest k"
proof -
  have "is_dir fs' src" "is_dir fs' dest"
    using assms(1) look_is_dir [OF assms(3) [of "[]"]] look_is_dir [OF assms(4)]
    by (simp_all add: copyable_def)
  moreover have "deep fs' src k"
    using assms(1,3) unfolding copyable_def deep_def by (metis look_at_None)
  moreover have "good b i" if "inode_at fs' (src @ r) = Some i" for r i
    using look_Some_type [OF assms(3) that] assms(1) good_cong
    unfolding copyable_def by metis
  ultimately show ?thesis using assms(1,2) by (simp add: copyable_def)
qed

text \<open>What one entry contributes.\<close>

definition copied_entry :: "bool \<Rightarrow> fenv \<Rightarrow> fs \<Rightarrow> path \<Rightarrow> path \<Rightarrow> string \<Rightarrow> fs \<Rightarrow> bool" where
  "copied_entry b env s src dest n s' \<longleftrightarrow> wf_fs s' \<and>
    (\<forall>q. (\<forall>r. q \<noteq> dest @ n # r) \<longrightarrow> look_at b s' q = look_at b s q) \<and>
    (\<forall>r. look_at b s' (dest @ n # r) = img b env s src (n # r))"

lemma copy_step_leaf:
  assumes wf: "wf_fs s" and dest: "is_dir s dest" and i: "inode_at s (src @ [n]) = Some i" "i_type i \<noteq> DT_DIR" "good b i"
    and ex: "\<not> is_excl env n" and new: "\<And>r. inode_at s (dest @ n # r) = None"
  shows "\<exists>s'. copy_entry rec env (Some src) (Some dest) (n, i_type i) s = Some s' \<and> copied_entry b env s src dest n s'"
proof -
  have new0: "inode_at s (dest @ [n]) = None" using new [of "[]"] by simp
  from copy_leaf [OF wf dest new0 i(1,2) ex i(3), of rec] obtain s'
    where s': "copy_entry rec env (Some src) (Some dest) (n, i_type i) s = Some s'" "wf_fs s'"
      "\<And>q. look_at b s' q = (if q = dest @ [n] then map_option (proj b) (cp i) else look_at b s q)" by blast
  have "inode_at s (src @ n # m # r) = None" for m r
    using not_child_of_file [OF wf, of "src @ [n]" "m # r"] i by (simp add: is_dir_def)
  then have "img b env s src (n # m # r) = None" for m r by (simp add: img_def)
  moreover have "look_at b s (dest @ n # r) = None" for r using new by simp
  ultimately have "look_at b s' (dest @ n # r) = img b env s src (n # r)" for r
    by (cases r) (simp_all add: s'(3) img_def i ex)
  with s' show ?thesis unfolding copied_entry_def by auto
qed

text \<open>The subdirectory was created, with its attributes, and the recursive call has filled it.\<close>

lemma copied_subdir:
  assumes ap: "apart src dest" and i: "inode_at s (src @ [n]) = Some i" "i_type i = DT_DIR" and ex: "\<not> is_excl env n"
    and n2: "\<And>q. inode_at s2 q = (if q = dest @ [n] then Some (dir_like i) else inode_at s q)"
    and cl: "copied b env s2 (src @ [n]) (dest @ [n]) s'"
  shows "copied_entry b env s src dest n s'"
proof -
  have ns: "inode_at s2 (src @ r) = inode_at s (src @ r)" for r using ap by (auto simp: n2 apart_def)
  have "look_at b s' q = look_at b s q" if "\<forall>r. q \<noteq> dest @ n # r" for q
    using cl that by (auto simp: copied_def look_at_def n2)
  moreover have "look_at b s' (dest @ n # r) = img b env s src (n # r)" for r
  proof (cases r)
    case Nil
    have "look_at b s' (dest @ [n]) = look_at b s2 (dest @ [n])" using cl by (auto simp: copied_def)
    then show ?thesis using Nil ex i by (simp add: look_at_def n2 img_def cp_dir)
  next
    case (Cons m r')
    have "look_at b s' ((dest @ [n]) @ m # r') = img b env s2 (src @ [n]) (m # r')"
      using cl unfolding copied_def by blast
    also have "\<dots> = img b env s (src @ [n]) (m # r')"
      by (rule img_cong) (simp add: look_at_def ns)
    finally show ?thesis using Cons img_Cons [OF ex] by simp
  qed
  ultimately show ?thesis using cl by (simp add: copied_entry_def copied_def)
qed

lemma copy_step:
  assumes IH: "\<And>fs src dest. copyable b fs src dest k \<Longrightarrow> (\<And>n r. inode_at fs (dest @ n # r) = None) \<Longrightarrow>
      \<exists>fs'. copy_dir k env (Some src) (Some dest) fs = Some fs' \<and> copied b env fs src dest fs'"
    and c: "copyable b s src dest (Suc k)" and i: "inode_at s (src @ [n]) = Some i"
    and ex: "\<not> is_excl env n" and new: "\<And>r. inode_at s (dest @ n # r) = None"
  shows "\<exists>s'. copy_entry (copy_dir k env) env (Some src) (Some dest) (n, i_type i) s = Some s' \<and>
    copied_entry b env s src dest n s'"
proof (cases "i_type i = DT_DIR")
  case False
  then show ?thesis using c i ex new by (intro copy_step_leaf) (auto simp: copyable_def)
next
  case True
  have wf: "wf_fs s" and dest: "is_dir s dest" and src: "is_dir s src" and ap: "apart src dest"
    using c by (simp_all add: copyable_def)
  have dots: "\<not> is_dots n" using wf_parent(2) [OF wf, of src n] i by simp
  have new0: "inode_at s (dest @ [n]) = None" using new [of "[]"] by simp
  define s2 where "s2 = upd_node (chmod_chown i) (dest @ [n]) (xmkdirat env (Some dest) n (i_mode i AND 0x1FF) s)"
  note mk = mkdir_with_attr(1,3,4,5)
    [OF wf dest dots new0, where a = i and env = env and m = "i_mode i AND 0x1FF", folded s2_def]
  have ns: "inode_at s2 (src @ r) = inode_at s (src @ r)" for r using ap by (auto simp: mk(4) apart_def)
  have sub: "is_dir s2 (src @ [n])" using i True by (simp add: is_dir_def ns)
  have src2: "is_dir s2 src" using src ns [of "[]"] by (simp add: is_dir_def)
  have "copyable b s2 (src @ [n]) (dest @ [n]) k"
    using c sub mk(3) ns apart_append [OF ap] unfolding copyable_def deep_def
    by (auto simp: is_dir_def mk(4) dir_like_def dest: spec [of _ "n # _"])
  moreover have "inode_at s2 ((dest @ [n]) @ m # r) = None" for m r using new by (simp add: mk(4))
  ultimately obtain s'
    where run: "copy_dir k env (Some (src @ [n])) (Some (dest @ [n])) s2 = Some s'"
      and cl: "copied b env s2 (src @ [n]) (dest @ [n]) s'"
    using IH by blast
  have "copy_entry (copy_dir k env) env (Some src) (Some dest) (n, i_type i) s = Some s'"
    using ex dots getattrat_node [OF wf, of src n] i True run
    by (simp add: copy_subdir [OF dots ex] mk(1,2) xopenat_rd_dir [OF src2 sub dots])
  then show ?thesis using copied_subdir [OF ap i True ex mk(4) cl] by blast
qed

text \<open>The invariant of the loop over the entries: the entries \<open>xs\<close> have been copied.\<close>

definition copying :: "bool \<Rightarrow> fenv \<Rightarrow> fs \<Rightarrow> path \<Rightarrow> path \<Rightarrow> (string \<times> ftype) list \<Rightarrow> fs \<Rightarrow> bool" where
  "copying b env fs src dest xs s \<longleftrightarrow> wf_fs s \<and>
    (\<forall>q. (\<forall>n r. q \<noteq> dest @ n # r) \<longrightarrow> look_at b s q = look_at b fs q) \<and>
    (\<forall>n r. look_at b s (dest @ n # r) = (if n \<in> fst ` set xs then img b env fs src (n # r) else None))"

lemma copying_source:
  "copying b env fs src dest xs s \<Longrightarrow> apart src dest \<Longrightarrow> look_at b s (src @ r) = look_at b fs (src @ r)"
  by (auto simp: copying_def apart_def)

lemma copying_skip:
  assumes "wf_fs fs" "copying b env fs src dest xs s" "is_dots n \<or> is_excl env n"
  shows "copying b env fs src dest (xs @ [(n, t)]) s"
proof -
  have "img b env fs src (n # r) = None" for r
    using assms(3) wf_no_dots [OF assms(1), of "src @ n # r"]
    by (cases "inode_at fs (src @ n # r)") (auto simp: img_def)
  with assms(2) show ?thesis by (auto simp: copying_def)
qed

lemma copying_entry:
  assumes I: "copying b env fs src dest xs s" and ap: "apart src dest" and s': "copied_entry b env s src dest n s'"
  shows "copying b env fs src dest (xs @ [(n, t)]) s'"
proof -
  have at: "look_at b s' (dest @ n # r) = img b env fs src (n # r)" for r
    using s' img_cong [OF copying_source [OF I ap], of env "n # r"] by (simp add: copied_entry_def)
  have out: "look_at b s' q = look_at b s q" if "\<forall>r. q \<noteq> dest @ n # r" for q
    using s' that by (simp add: copied_entry_def)
  have "look_at b s' (dest @ m # r) = (if m \<in> fst ` set (xs @ [(n, t)]) then img b env fs src (m # r) else None)" for m r
    using I out [of "dest @ m # r"] at [of r] by (cases "m = n") (auto simp: copying_def)
  moreover have "look_at b s' q = look_at b fs q" if "\<forall>n r. q \<noteq> dest @ n # r" for q
    using I out that by (auto simp: copying_def)
  ultimately show ?thesis using s' by (simp add: copying_def copied_entry_def)
qed

lemma copying_all:
  assumes "wf_fs fs" "copying b env fs src dest (readdir fs src) s"
  shows "copied b env fs src dest s"
proof -
  have "img b env fs src (n # r) = None" if "n \<notin> fst ` set (readdir fs src)" for n r
    using not_in_readdir [OF assms(1) that] by (simp add: img_def)
  with assms(2) show ?thesis by (auto simp: copying_def copied_def)
qed

lemma copy_dir_copies:
  "copyable b fs src dest k \<Longrightarrow> (\<And>n r. inode_at fs (dest @ n # r) = None) \<Longrightarrow>
     \<exists>fs'. copy_dir k env (Some src) (Some dest) fs = Some fs' \<and> copied b env fs src dest fs'"
proof (induction k arbitrary: fs src dest)
  case 0
  then show ?case using is_dir_node [of fs src] by (auto simp: copyable_def deep_def dest: spec [of _ "[]"])
next
  case (Suc k)
  have wf: "wf_fs fs" and src: "is_dir fs src" and ap: "apart src dest"
    using Suc.prems(1) by (simp_all add: copyable_def)
  have "\<exists>s'. foldM (copy_entry (copy_dir k env) env (Some src) (Some dest)) (readdir fs src) fs = Some s' \<and>
      copying b env fs src dest (readdir fs src) s'"
  proof (rule foldM_inv)
    show "copying b env fs src dest [] fs" using wf Suc.prems(2) by (simp add: copying_def)
    fix xs x ys s assume es: "readdir fs src = xs @ x # ys" and I: "copying b env fs src dest xs s"
    obtain n t where x: "x = (n, t)" by (cases x)
    note ls = copying_source [OF I ap]
    show "\<exists>s'. copy_entry (copy_dir k env) env (Some src) (Some dest) x s = Some s' \<and> copying b env fs src dest (xs @ [x]) s'"
    proof (cases "is_dots n \<or> is_excl env n")
      case True
      then show ?thesis using copying_skip [OF wf I True, of t] by (simp add: x copy_skip)
    next
      case False
      have new: "n \<notin> fst ` set xs" and "\<exists>i. inode_at fs (src @ [n]) = Some i \<and> t = i_type i"
        using readdir_split [OF wf, of src xs n t ys] es False by (simp_all add: x)
      then obtain i where i: "inode_at s (src @ [n]) = Some i" "t = i_type i"
        using look_Some_type [OF ls [symmetric]] proj_eqD(1) by metis
      have "copyable b s src dest (Suc k)"
        by (rule copyable_cong [OF Suc.prems(1) _ ls]) (use I in \<open>auto simp: copying_def\<close>)
      moreover have "inode_at s (dest @ n # r) = None" for r
        using I new by (metis copying_def look_at_None)
      ultimately show ?thesis
        using copy_step [OF Suc.IH _ i(1)] False copying_entry [OF I ap, of n _ t] by (fastforce simp: x i(2))
    qed
  qed
  then show ?case using copying_all [OF wf] src by (fastforce simp: fdopendir_def copy_Suc)
qed

end

section \<open>Cloning and linking\<close>

definition clone_cp :: "inode \<Rightarrow> inode option" where
  "clone_cp i = (if i_type i = DT_OTHER then None else Some (copy_of i))"

definition link_cp :: "inode \<Rightarrow> inode option" where
  "link_cp i = Some (if i_type i = DT_DIR then dir_like i else i)"

lemma clone_leaf:
  assumes "wf_fs fs" "is_dir fs dest" "inode_at fs (dest @ [n]) = None"
    and "inode_at fs (src @ [n]) = Some i" "i_type i \<noteq> DT_DIR" "\<not> is_excl env n" "b \<longrightarrow> i_type i \<noteq> DT_LNK"
  shows "\<exists>fs'. clone_entry rec env (Some src) (Some dest) (n, i_type i) fs = Some fs' \<and> wf_fs fs' \<and>
    (\<forall>q. look_at b fs' q = (if q = dest @ [n] then map_option (proj b) (clone_cp i) else look_at b fs q))"
proof (cases "i_type i")
  case DT_REG
  from clone_reg [OF assms(1-4) this assms(6), of rec] DT_REG show ?thesis
    by (auto simp: look_at_def clone_cp_def)
next
  case DT_LNK
  with assms(7) have "b = False" by simp
  with clone_lnk [OF assms(1-4) DT_LNK assms(6), of rec] DT_LNK show ?thesis
    by (auto simp: clone_cp_def)
next
  case DT_OTHER
  then show ?thesis
    using assms(1,3,6) getattrat_node [OF assms(1), of src n] assms(4)
      wf_parent(2) [OF assms(1), of src n]
    by (simp add: clone_entry_def clone_cp_def look_at_def)
qed (use assms(5) in simp)

lemma link_leaf:
  assumes "wf_fs fs" "is_dir fs dest" "inode_at fs (dest @ [n]) = None"
    and "inode_at fs (src @ [n]) = Some i" "i_type i \<noteq> DT_DIR" "\<not> is_excl env n"
  shows "\<exists>fs'. link_entry rec env (Some src) (Some dest) (n, i_type i) fs = Some fs' \<and> wf_fs fs' \<and>
    (\<forall>q. look_at b fs' q = (if q = dest @ [n] then map_option (proj b) (link_cp i) else look_at b fs q))"
proof -
  have src: "is_dir fs src" "\<not> is_dots n" using wf_parent [OF assms(1), of src n] assms(4) by simp_all
  obtain k where k: "ino_of fs (src @ [n]) = Some k" "fs_inodes fs k = Some i"
    using assms(4) by (auto simp: inode_at_def bind_eq_Some_conv)
  have none: "ino_of fs (dest @ [n]) = None" using assms(1,3) by (simp add: node_None_iff)
  have isd: "\<not> is_dir fs (src @ [n])" using assms(4,5) by (simp add: is_dir_def)
  have "link (src, [n]) (dest, [n]) fs = add_name (dest @ [n]) k fs"
    using walk_at [OF src, of False] walk_at [OF assms(2) src(2), of False] assms(3,4) k(1) isd
    by (simp add: link_def existing_def)
  then have run: "link_entry rec env (Some src) (Some dest) (n, i_type i) fs = Some (add_name (dest @ [n]) k fs)"
    using assms(5,6) src(2) by (simp add: link_entry_def at_loc_def)
  moreover have "wf_fs (add_name (dest @ [n]) k fs)"
    by (rule wf_add [OF assms(1) none assms(2) src(2) wf_fsD(1) [OF assms(1) k(1)] k(2) assms(5)])
  moreover have "look_at b (add_name (dest @ [n]) k fs) q =
      (if q = dest @ [n] then map_option (proj b) (link_cp i) else look_at b fs q)" for q
    using assms(5) k(2) by (simp add: look_at_def node_add [OF none] link_cp_def)
  ultimately show ?thesis by blast
qed

lemma clone_skip: "is_dots n \<or> is_excl env n \<Longrightarrow> clone_entry rec env src dest (n, t) fs = Some fs"
  and link_skip: "is_dots n \<or> is_excl env n \<Longrightarrow> link_entry rec env src dest (n, t) fs = Some fs"
  by (simp_all add: clone_entry_def link_entry_def)

lemma clone_subdir:
  "\<not> is_dots n \<Longrightarrow> \<not> is_excl env n \<Longrightarrow> getattrat fs src n = Some a \<Longrightarrow>
   clone_entry rec env src dest (n, DT_DIR) fs =
     (let fs2 = snd (setattrat dest n a (xmkdirat env dest n (i_mode a AND 0x1FF) fs))
      in rec (xopenat_rd fs2 src n) (xopenat_rd fs2 dest n) fs2)"
  and link_subdir:
  "\<not> is_dots n \<Longrightarrow> \<not> is_excl env n \<Longrightarrow> getattrat fs src n = Some a \<Longrightarrow>
   link_entry rec env src dest (n, DT_DIR) fs =
     (let fs2 = snd (setattrat dest n a (xmkdirat env dest n (i_mode a AND 0x1FF) fs))
      in rec (xopenat_rd fs2 src n) (xopenat_rd fs2 dest n) fs2)"
  by (simp_all add: clone_entry_def link_entry_def Let_def)

interpretation clone: tree_copy clone_dir clone_entry clone_cp "\<lambda>b i. b \<longrightarrow> i_type i \<noteq> DT_LNK"
proof unfold_locales
  show "map_option (proj b) (clone_cp i) = map_option (proj b) (clone_cp j)" if "proj b i = proj b j" for b i j
    using proj_eqD [OF that] by (simp add: clone_cp_def)
  show "(b \<longrightarrow> i_type i \<noteq> DT_LNK) = (b \<longrightarrow> i_type j \<noteq> DT_LNK)" if "proj b i = proj b j" for b i j
    using proj_eqD(1) [OF that] by simp
  show "clone_cp i = Some (dir_like i)" if "i_type i = DT_DIR" for i
    using that by (simp add: clone_cp_def copy_of_dir)
qed (simp, rule clone_skip, assumption, rule clone_subdir, assumption+, rule clone_leaf, assumption+)

interpretation link: tree_copy link_dir link_entry link_cp "\<lambda>b i. True"
proof unfold_locales
  show "map_option (proj b) (link_cp i) = map_option (proj b) (link_cp j)" if "proj b i = proj b j" for b i j
  proof -
    have "proj b (dir_like i) = proj b (dir_like j)"
      using that by (cases i; cases j) (simp add: proj_def dir_like_def split: if_splits)
    with that proj_eqD(1) [OF that] show ?thesis by (simp add: link_cp_def)
  qed
qed (simp, rule link_skip, assumption, rule link_subdir, assumption+, rule link_leaf, assumption+, simp_all add: link_cp_def)

text \<open>
  Property C17. \<open>clone_dir\<close> into an empty directory outside the source returns (with more fuel than the
  source is deep) and copies the tree: below the target there is exactly one copy, with the type, the data (up to the
  limit of \<open>sendfile\<close>) and, if the source has no links, the owner and the permissions, of every file, directory and
  link of the source that is not excluded; everything else keeps its type and data, and, without links, its attributes.
\<close>

theorem clone_dir_copies:
  assumes "wf_fs fs" "is_dir fs src" "is_dir fs dest" "\<not> prefix src dest" "\<not> prefix dest src"
    and "\<And>n r. inode_at fs (dest @ n # r) = None"
    and "\<And>r. inode_at fs (src @ r) \<noteq> None \<Longrightarrow> length r < k"
    and "\<And>r i. attrs \<Longrightarrow> inode_at fs (src @ r) = Some i \<Longrightarrow> i_type i \<noteq> DT_LNK"
  shows "\<exists>fs'. clone_dir k env (Some src) (Some dest) fs = Some fs' \<and> wf_fs fs' \<and>
    (\<forall>q. \<not> strict_prefix dest q \<longrightarrow> look_at attrs fs' q = look_at attrs fs q) \<and>
    (\<forall>r. r \<noteq> [] \<longrightarrow> look_at attrs fs' (dest @ r) =
       (if list_ex (is_excl env) r then None
        else map_option (\<lambda>i. proj attrs (copy_of i))
               (Option.bind (inode_at fs (src @ r)) (\<lambda>i. if i_type i = DT_OTHER then None else Some i))))"
proof -
  have "clone.copyable attrs fs src dest k"
    using assms(1-3,7,8) apartI [OF assms(4,5)] by (auto simp: clone.copyable_def deep_def)
  from clone.copy_dir_copies [OF this assms(6)] obtain fs'
    where fs': "clone_dir k env (Some src) (Some dest) fs = Some fs'" "clone.copied attrs env fs src dest fs'"
    by blast
  have "look_at attrs fs' q = look_at attrs fs q" if "\<not> strict_prefix dest q" for q
    using fs'(2) that unfolding clone.copied_def by (metis strict_prefixI')
  moreover have "look_at attrs fs' (dest @ r) =
       (if list_ex (is_excl env) r then None
        else map_option (\<lambda>i. proj attrs (copy_of i))
               (Option.bind (inode_at fs (src @ r)) (\<lambda>i. if i_type i = DT_OTHER then None else Some i)))"
    if "r \<noteq> []" for r
    using fs'(2) that by (cases r; cases "inode_at fs (src @ r)")
      (auto simp: clone.copied_def clone.img_def clone_cp_def)
  ultimately show ?thesis using fs' by (auto simp: clone.copied_def)
qed

theorem clone_dir_copies_witness:
  "\<exists>fs'. clone_dir 2 demo_env (Some [''a'']) (Some [''b'']) demo_fs = Some fs' \<and>
     inode_at fs' [''b'', ''f''] = Some (demo_file\<lparr>i_mode := 0x180\<rparr>) \<and> inode_at fs' [''a'', ''f''] = Some demo_file"
proof -
  have "\<exists>fs'. clone_dir 2 demo_env (Some [''a'']) (Some [''b'']) demo_fs = Some fs' \<and> wf_fs fs' \<and>
    (\<forall>q. \<not> strict_prefix [''b''] q \<longrightarrow> look_at True fs' q = look_at True demo_fs q) \<and>
    (\<forall>r. r \<noteq> [] \<longrightarrow> look_at True fs' ([''b''] @ r) =
       (if list_ex (is_excl demo_env) r then None
        else map_option (\<lambda>i. proj True (copy_of i))
               (Option.bind (inode_at demo_fs ([''a''] @ r)) (\<lambda>i. if i_type i = DT_OTHER then None else Some i))))"
    by (rule clone_dir_copies [OF wf_demo_fs])
       (auto simp: is_dir_def node_demo_fs demo_dir_def demo_file_def split: if_splits)
  then obtain fs' where fs': "clone_dir 2 demo_env (Some [''a'']) (Some [''b'']) demo_fs = Some fs'"
    "\<And>q. \<not> strict_prefix [''b''] q \<Longrightarrow> look_at True fs' q = look_at True demo_fs q"
    "look_at True fs' ([''b''] @ [''f'']) = (if list_ex (is_excl demo_env) [''f''] then None
        else map_option (\<lambda>i. proj True (copy_of i))
               (Option.bind (inode_at demo_fs ([''a''] @ [''f''])) (\<lambda>i. if i_type i = DT_OTHER then None else Some i)))"
    by blast
  have [simp]: "look_at True fs q = inode_at fs q" for fs q by (simp add: look_at_def proj_def option.map_ident cong: option.map_cong)
  show ?thesis
    using fs'(1,3) fs'(2) [of "[''a'', ''f'']"]
    by (auto simp: node_demo_fs is_excl_def demo_env_def demo_file_def copy_of_def proj_def SENDFILE_MAX_def)
qed

text \<open>
  \<open>link_dir\<close> into an empty directory outside the source returns, with the directories of the source
  made anew and every other entry that is not excluded under a second name of the same inode; nothing else changes.
\<close>

theorem link_dir_links:
  assumes "wf_fs fs" "is_dir fs src" "is_dir fs dest" "\<not> prefix src dest" "\<not> prefix dest src"
    and "\<And>n r. inode_at fs (dest @ n # r) = None"
    and "\<And>r. inode_at fs (src @ r) \<noteq> None \<Longrightarrow> length r < k"
  shows "\<exists>fs'. link_dir k env (Some src) (Some dest) fs = Some fs' \<and> wf_fs fs' \<and>
    (\<forall>q. \<not> strict_prefix dest q \<longrightarrow> inode_at fs' q = inode_at fs q) \<and>
    (\<forall>r. r \<noteq> [] \<longrightarrow> inode_at fs' (dest @ r) =
       (if list_ex (is_excl env) r then None
        else map_option (\<lambda>i. if i_type i = DT_DIR then dir_like i else i) (inode_at fs (src @ r))))"
proof -
  have [simp]: "look_at True fs q = inode_at fs q" for fs q by (simp add: look_at_def proj_def option.map_ident cong: option.map_cong)
  have "link.copyable True fs src dest k"
    using assms(1-3,7) apartI [OF assms(4,5)] by (auto simp: link.copyable_def deep_def)
  from link.copy_dir_copies [OF this assms(6)] obtain fs'
    where fs': "link_dir k env (Some src) (Some dest) fs = Some fs'" "link.copied True env fs src dest fs'"
    by blast
  have "inode_at fs' q = inode_at fs q" if "\<not> strict_prefix dest q" for q
    using fs'(2) that unfolding link.copied_def by (metis strict_prefixI' \<open>\<And>q fs. look_at True fs q = inode_at fs q\<close>)
  moreover have "inode_at fs' (dest @ r) =
       (if list_ex (is_excl env) r then None
        else map_option (\<lambda>i. if i_type i = DT_DIR then dir_like i else i) (inode_at fs (src @ r)))"
    if "r \<noteq> []" for r
    using fs'(2) that by (cases r; cases "inode_at fs (src @ r)")
      (auto simp: link.copied_def link.img_def link_cp_def proj_def)
  ultimately show ?thesis using fs' by (auto simp: link.copied_def)
qed

theorem link_dir_links_witness:
  "\<exists>fs'. link_dir 2 demo_env (Some [''a'']) (Some [''b'']) demo_fs = Some fs' \<and>
     inode_at fs' [''b'', ''f''] = Some demo_file"
proof -
  have "\<exists>fs'. link_dir 2 demo_env (Some [''a'']) (Some [''b'']) demo_fs = Some fs' \<and> wf_fs fs' \<and>
    (\<forall>q. \<not> strict_prefix [''b''] q \<longrightarrow> inode_at fs' q = inode_at demo_fs q) \<and>
    (\<forall>r. r \<noteq> [] \<longrightarrow> inode_at fs' ([''b''] @ r) =
       (if list_ex (is_excl demo_env) r then None
        else map_option (\<lambda>i. if i_type i = DT_DIR then dir_like i else i) (inode_at demo_fs ([''a''] @ r))))"
    by (rule link_dir_links [OF wf_demo_fs])
       (auto simp: is_dir_def node_demo_fs demo_dir_def demo_file_def split: if_splits)
  then obtain fs' where fs': "link_dir 2 demo_env (Some [''a'']) (Some [''b'']) demo_fs = Some fs'"
    "inode_at fs' ([''b''] @ [''f'']) = (if list_ex (is_excl demo_env) [''f''] then None
        else map_option (\<lambda>i. if i_type i = DT_DIR then dir_like i else i) (inode_at demo_fs ([''a''] @ [''f''])))"
    by blast
  then show ?thesis by (auto simp: node_demo_fs is_excl_def demo_env_def demo_file_def)
qed

lemma resolve_dirs:
  assumes "\<And>k. k \<le> length q \<Longrightarrow> is_dir fs (p @ take k q)" "list_all (\<lambda>c. \<not> is_dots c) q"
  shows "resolve n follow fs p (q @ rest) = resolve n follow fs (p @ q) rest"
  using assms
proof (induction q arbitrary: p)
  case (Cons c q)
  have "is_dir fs ((p @ [c]) @ take k q)" if "k \<le> length q" for k
    using Cons.prems(1) [of "Suc k"] that by simp
  from Cons.IH [of "p @ [c]", OF this] Cons.prems(2)
  have IH: "resolve n follow fs (p @ [c]) (q @ rest) = resolve n follow fs (p @ c # q) rest" by simp
  obtain i where "inode_at fs (p @ [c]) = Some i" "i_type i = DT_DIR"
    using is_dir_node [of fs "p @ [c]"] Cons.prems(1) [of "Suc 0"] by auto
  with IH Cons.prems(1) [of 0] Cons.prems(2) show ?case by (simp add: is_dots_def)
qed simp

lemma path_comps_plain:
  "CHR ''/'' \<notin> set g \<Longrightarrow> path_comps acc g = (if acc = [] \<and> g = [] then [] else [rev acc @ g])"
  by (induction g arbitrary: acc) auto

text \<open>
  The attributes of a copied link are set with \<open>chmod\<close> and \<open>chown\<close>, which follow it: copying a link to an
  absolute path gives the file there, wherever it is, the owner and the mode of the link, and links have mode 0777.
\<close>

theorem clone_link_opens_target:
  assumes "wf_fs fs" "is_dir fs dest" "inode_at fs (dest @ [n]) = None"
    and "inode_at fs (src @ [n]) = Some i" "i_type i = DT_LNK" "\<not> is_excl env n"
    and "i_data i = CHR ''/'' # f" "f \<noteq> []" "CHR ''/'' \<notin> set f"
    and "inode_at fs [f] = Some j" "i_type j = DT_REG"
  shows "\<exists>fs'. clone_entry (clone_dir k env) env (Some src) (Some dest) (n, DT_LNK) fs = Some fs' \<and>
    inode_at fs' [f] = Some (j\<lparr>i_mode := i_mode i AND 0x1FF, i_uid := i_uid i, i_gid := i_gid i\<rparr>)"
proof -
  have src: "is_dir fs src" "\<not> is_dots n" using wf_parent [OF assms(1), of src n] assms(4) by simp_all
  have "\<not> is_dots f" using wf_parent(2) [OF assms(1), of "[]" f] assms(10) by simp
  let ?new = "\<lparr>i_type = DT_LNK, i_mode = 0x1FF, i_uid = 0, i_gid = 0, i_data = i_data i\<rparr>"
  define fs1 where "fs1 = create fs (dest @ [n]) ?new"
  have n1: "inode_at fs1 q = (if q = dest @ [n] then Some ?new else inode_at fs q)" for q
    unfolding fs1_def by (rule node_create [OF assms(1,3)])
  have rl: "readlink fs (src, [n]) = Some (i_data i)"
    using walk_at [OF src, of False] assms(4,5) by (simp add: readlink_def)
  have sl: "symlink (i_data i) (dest, [n]) fs = fs1"
    using walk_at [OF assms(2) src(2), of False] assms(3) by (simp add: symlink_def fs1_def)
  have run: "clone_entry (clone_dir k env) env (Some src) (Some dest) (n, DT_LNK) fs = Some (snd (setattrat (Some dest) n i fs1))"
    using assms(6) src(2) getattrat_node [OF assms(1), of src n] assms(4)
    by (simp add: clone_entry_def at_loc_def rl sl)
  have nf: "inode_at fs1 [f] = Some j" using assms(3,10) by (auto simp: n1)
  have wf1: "wf_fs fs1" unfolding fs1_def by (rule wf_create [OF assms(1,3,2) src(2)])
  have dest1: "is_dir fs1 dest" using assms(2) by (simp add: is_dir_def n1)
  have "resolve 40 True fs1 [] (dest @ [n]) = resolve 40 True fs1 dest [n]"
    using resolve_dirs [of dest fs1 "[]"] wf_is_dir_take [OF wf1 dest1] wf_no_dots [OF wf1] is_dir_node [OF dest1]
    by force
  also have "\<dots> = resolve 39 True fs1 [] [f]"
    using dest1 src(2) assms(7-9) by (simp add: n1 is_dots_def path_start_def path_comps_plain)
  also have "\<dots> = Some [f]"
    using wf_fs_root [OF wf1] \<open>\<not> is_dots f\<close> nf assms(11) by (simp add: is_dots_def)
  finally have "snd (setattrat (Some dest) n i fs1) = upd_node (chmod_chown i) [f] fs1"
    using nf by (simp add: setattrat_def fd_getpathat_def setattr_def walk_def existing_def)
  with run nf show ?thesis by (simp add: node_upd chmod_chown_def)
qed

definition demo_link :: fs where
  "demo_link =
     demo_fs\<lparr>fs_inodes := (fs_inodes demo_fs)
       (2 \<mapsto> \<lparr>i_type = DT_LNK, i_mode = 0x1FF, i_uid = 0, i_gid = 0, i_data = ''/t''\<rparr>)\<rparr>"

theorem clone_link_opens_target_witness:
  "\<exists>fs'. clone_entry (clone_dir 1 demo_env) demo_env (Some [''a'']) (Some [''b'']) (''f'', DT_LNK) demo_link = Some fs' \<and>
     inode_at demo_link [''t''] = Some demo_file \<and>
     inode_at fs' [''t''] = Some (demo_file\<lparr>i_mode := 0x1FF, i_uid := 0, i_gid := 0\<rparr>)"
proof -
  have nd: "inode_at demo_link p =
     (if p = [] \<or> p = [''a''] \<or> p = [''b''] then Some demo_dir
      else if p = [''t''] then Some demo_file
      else if p = [''a'', ''f''] then Some \<lparr>i_type = DT_LNK, i_mode = 0x1FF, i_uid = 0, i_gid = 0, i_data = ''/t''\<rparr>
      else None)" for p
    by (auto simp: inode_at_def ino_of_def demo_link_def demo_fs_def)
  have wf: "wf_fs demo_link"
    by (simp add: wf_fs_def is_dir_def nd) (simp add: demo_link_def demo_fs_def demo_dir_def demo_file_def is_dots_def)
  show ?thesis
    using clone_link_opens_target [OF wf, of "[''b'']" "''f''" "[''a'']" _ demo_env "''t''" demo_file 1]
    by (simp add: is_dir_def nd demo_dir_def demo_file_def is_excl_def demo_env_def)
qed

end
