(* ===== verification/File_Move.thy ===== *)
theory File_Move
  imports File_Tree_Correct
begin

text \<open>
  \<open>mv_dir\<close> moves a tree entry by entry: files and links are renamed, directories are made anew and the
  emptied ones removed. What is excluded or special stays, with the directories above it.
\<close>

section \<open>Moving one entry\<close>

lemma rename_moves:
  assumes "wf_fs fs" "is_dir fs dest" "inode_at fs (dest @ [n]) = None"
    and "inode_at fs (src @ [n]) = Some i" "i_type i \<noteq> DT_DIR"
  defines "fs' \<equiv> rename (src, [n]) (dest, [n]) fs"
  shows "wf_fs fs'"
    "inode_at fs' q = (if q = dest @ [n] then Some i else if q = src @ [n] then None else inode_at fs q)"
proof -
  have src: "is_dir fs src" "\<not> is_dots n" using wf_parent [OF assms(1), of src n] assms(4) by simp_all
  obtain k where k: "ino_of fs (src @ [n]) = Some k" "fs_inodes fs k = Some i"
    using assms(4) by (auto simp: inode_at_def bind_eq_Some_conv)
  have none: "ino_of fs (dest @ [n]) = None" using assms(1,3) by (simp add: node_None_iff)
  have isd: "\<not> is_dir fs (src @ [n])" "\<not> is_dir fs (dest @ [n])"
    using assms(3-5) by (simp_all add: is_dir_def)
  have same: "del_name (dest @ [n]) fs = fs"
    using none by (cases fs) (force simp: del_name_def ino_of_def map_of_eq_None_iff intro!: filter_True)
  define fs1 where "fs1 = del_name (src @ [n]) fs"
  have eq: "fs' = add_name (dest @ [n]) k fs1"
    using walk_at [OF src, of False] walk_at [OF assms(2) src(2), of False] assms(3,4) k(1) isd none same
    by (simp add: fs'_def rename_def existing_def fs1_def)
  have wf1: "wf_fs fs1"
    unfolding fs1_def using not_child_of_file [OF assms(1) isd(1)] by (intro wf_del [OF assms(1)]) auto
  have none1: "ino_of fs1 (dest @ [n]) = None" using none by (simp add: fs1_def ino_of_del)
  have "is_dir fs1 dest" using assms(2) isd(1) by (auto simp: fs1_def is_dir_del)
  moreover have "k < fs_next fs1" "fs_inodes fs1 k = Some i"
    using wf_fsD(1) [OF assms(1) k(1)] k(2) by (simp_all add: fs1_def del_name_def)
  ultimately show "wf_fs fs'"
    unfolding eq by (intro wf_add [OF wf1 none1 _ src(2) _ _ assms(5)])
  show "inode_at fs' q = (if q = dest @ [n] then Some i else if q = src @ [n] then None else inode_at fs q)"
    unfolding eq using \<open>fs_inodes fs1 k = Some i\<close> by (simp add: node_add [OF none1]) (simp add: fs1_def node_del)
qed

definition mv_cp :: "inode \<Rightarrow> inode option" where
  "mv_cp i = (if i_type i = DT_OTHER then None else Some (if i_type i = DT_DIR then dir_like i else i))"

definition mv_img :: "fenv \<Rightarrow> fs \<Rightarrow> path \<Rightarrow> path \<Rightarrow> inode option" where
  "mv_img env fs src r =
     (if list_ex (is_excl env) r then None
      else map_option (proj False) (Option.bind (inode_at fs (src @ r)) mv_cp))"

text \<open>What stays in the source: an excluded or special entry and every directory above it.\<close>

definition stays :: "fenv \<Rightarrow> fs \<Rightarrow> path \<Rightarrow> path \<Rightarrow> bool" where
  "stays env fs src r \<longleftrightarrow>
     (\<exists>r' i. inode_at fs (src @ r @ r') = Some i \<and> (list_ex (is_excl env) (r @ r') \<or> i_type i = DT_OTHER))"

definition moved :: "fenv \<Rightarrow> fs \<Rightarrow> path \<Rightarrow> path \<Rightarrow> fs \<Rightarrow> bool" where
  "moved env fs src dest fs' \<longleftrightarrow> wf_fs fs' \<and>
     (\<forall>q. (\<forall>n r. q \<noteq> dest @ n # r \<and> q \<noteq> src @ n # r) \<longrightarrow> look_at False fs' q = look_at False fs q) \<and>
     (\<forall>n r. look_at False fs' (dest @ n # r) = mv_img env fs src (n # r)) \<and>
     (\<forall>n r. look_at False fs' (src @ n # r) = (if stays env fs src (n # r) then look_at False fs (src @ n # r) else None))"

definition movable :: "fs \<Rightarrow> path \<Rightarrow> path \<Rightarrow> nat \<Rightarrow> bool" where
  "movable fs src dest k \<longleftrightarrow>
     wf_fs fs \<and> is_dir fs src \<and> is_dir fs dest \<and> apart src dest \<and> deep fs src k"

lemma mv_cp_cong:
  assumes "proj False i = proj False j"
  shows "map_option (proj False) (mv_cp i) = map_option (proj False) (mv_cp j)"
proof -
  have "proj False (dir_like i) = proj False (dir_like j)" by (simp add: proj_def dir_like_def)
  with assms proj_eqD(1) [OF assms] show ?thesis by (simp add: mv_cp_def)
qed

lemma mv_img_cong:
  assumes "look_at False fs (src @ r) = look_at False fs' (src @ r)"
  shows "mv_img env fs src r = mv_img env fs' src r"
proof (cases "inode_at fs (src @ r)")
  case None
  then have "inode_at fs' (src @ r) = None" using assms by (metis look_at_None)
  with None show ?thesis by (simp add: mv_img_def)
next
  case (Some i)
  with assms obtain j where "inode_at fs' (src @ r) = Some j" "proj False i = proj False j"
    by (blast dest: look_Some_type)
  with Some mv_cp_cong [of i j] show ?thesis by (simp add: mv_img_def)
qed

lemma stays_mono:
  assumes "\<And>r'. look_at False fs (src @ r @ r') = look_at False fs' (src @ r @ r')" "stays env fs src r"
  shows "stays env fs' src r"
  using assms(2) look_Some_type [OF assms(1)] proj_eqD(1) unfolding stays_def by metis

lemma stays_cong:
  "(\<And>r'. look_at False fs (src @ r @ r') = look_at False fs' (src @ r @ r')) \<Longrightarrow>
     stays env fs src r = stays env fs' src r"
  using stays_mono by metis

lemma stays_Cons: "\<not> is_excl env n \<Longrightarrow> stays env fs src (n # r) = stays env fs (src @ [n]) r"
  by (simp add: stays_def)

lemma stays_leaf:
  assumes "wf_fs fs" "inode_at fs src = Some i" "i_type i \<noteq> DT_DIR"
  shows "stays env fs src r \<longleftrightarrow> r = [] \<and> i_type i = DT_OTHER"
proof -
  have "inode_at fs (src @ r) = None" if "r \<noteq> []" for r
    using not_child_of_file [OF assms(1) _ that, of src] assms(2,3) by (simp add: is_dir_def)
  note none = this
  show ?thesis
  proof
    assume "stays env fs src r"
    then obtain r' j where j: "inode_at fs (src @ (r @ r')) = Some j" "list_ex (is_excl env) (r @ r') \<or> i_type j = DT_OTHER"
      by (auto simp: stays_def)
    have "r @ r' = []"
    proof (rule ccontr)
      assume "r @ r' \<noteq> []"
      from none [OF this] j(1) show False by simp
    qed
    with j assms(2) show "r = [] \<and> i_type i = DT_OTHER" by auto
  qed (use assms(2) in \<open>auto simp: stays_def intro!: exI [of _ "[]"]\<close>)
qed

lemma stays_dir:
  assumes "wf_fs fs" "is_dir fs src"
  shows "stays env fs src [] \<longleftrightarrow> (\<exists>m. inode_at fs (src @ [m]) \<noteq> None \<and> stays env fs src [m])"
proof
  assume "stays env fs src []"
  then obtain r i where r: "inode_at fs (src @ r) = Some i" "list_ex (is_excl env) r \<or> i_type i = DT_OTHER"
    by (auto simp: stays_def)
  then obtain m r' where m: "r = m # r'" using assms(2) by (cases r) (auto simp: is_dir_def)
  have "inode_at fs (src @ [m]) \<noteq> None"
  proof (cases "r' = []")
    case False
    with r(1) m wf_ancestor [OF assms(1), of "src @ [m]" r'] is_dir_node show ?thesis by fastforce
  qed (use r(1) m in simp)
  with r m show "\<exists>m. inode_at fs (src @ [m]) \<noteq> None \<and> stays env fs src [m]" by (auto simp: stays_def)
next
  assume "\<exists>m. inode_at fs (src @ [m]) \<noteq> None \<and> stays env fs src [m]"
  then obtain m r i where "inode_at fs (src @ m # r) = Some i" "list_ex (is_excl env) (m # r) \<or> i_type i = DT_OTHER"
    by (auto simp: stays_def)
  then show "stays env fs src []" unfolding stays_def by (metis append_Nil)
qed

lemma mv_leaf:
  assumes "wf_fs s" "is_dir s dest" "apart src dest" "inode_at s (src @ [n]) = Some i" "i_type i \<noteq> DT_DIR"
    and "\<not> is_excl env n" "\<And>r. inode_at s (dest @ n # r) = None"
  shows "\<exists>s'. mv_entry rec env (Some src) (Some dest) (n, i_type i) s = Some s' \<and> wf_fs s' \<and>
    (\<forall>q. look_at False s' q =
       (if q = dest @ [n] then map_option (proj False) (mv_cp i)
        else if q = src @ [n] \<and> i_type i \<noteq> DT_OTHER then None else look_at False s q))"
proof -
  have dots: "\<not> is_dots n" using wf_parent(2) [OF assms(1), of src n] assms(4) by simp
  have new0: "inode_at s (dest @ [n]) = None" using assms(7) [of "[]"] by simp
  have get: "getattrat s (Some src) n = Some i"
    using getattrat_node [OF assms(1), of src n] assms(4) by simp
  show ?thesis
  proof (cases "i_type i = DT_OTHER")
    case True
    then show ?thesis
      using assms(1,6) dots get new0 by (auto simp: mv_entry_def mv_cp_def)
  next
    case False
    note rn = rename_moves [OF assms(1,2) new0 assms(4,5)]
    define s' where "s' = snd (setattrat (Some dest) n i (rename (src, [n]) (dest, [n]) s))"
    have "mv_entry rec env (Some src) (Some dest) (n, i_type i) s = Some s'"
      using assms(5,6) dots get False by (cases "i_type i") (simp_all add: mv_entry_def at_loc_def s'_def)
    moreover have "look_at False s' q =
       (if q = dest @ [n] then map_option (proj False) (mv_cp i)
        else if q = src @ [n] then None else look_at False s q)" for q
      using assms(5) False unfolding s'_def setattrat_look(2) [OF rn(1)] unfolding look_at_def rn(2) by (simp add: mv_cp_def)
    ultimately show ?thesis
      using False setattrat_look(1) [OF rn(1)] by (auto simp: s'_def)
  qed
qed

text \<open>What one entry contributes: everything outside the two subtrees is kept, the image is at the destination, the rest is gone.\<close>

definition moved_entry :: "fenv \<Rightarrow> fs \<Rightarrow> path \<Rightarrow> path \<Rightarrow> string \<Rightarrow> fs \<Rightarrow> bool" where
  "moved_entry env s src dest n s' \<longleftrightarrow> wf_fs s' \<and>
    (\<forall>q. (\<forall>r. q \<noteq> dest @ n # r \<and> q \<noteq> src @ n # r) \<longrightarrow> look_at False s' q = look_at False s q) \<and>
    (\<forall>r. look_at False s' (dest @ n # r) = mv_img env s src (n # r)) \<and>
    (\<forall>r. look_at False s' (src @ n # r) = (if stays env s src (n # r) then look_at False s (src @ n # r) else None))"

lemma apart_neq: "apart src dest \<Longrightarrow> src @ r \<noteq> dest @ r' \<and> dest @ r' \<noteq> src @ r"
  unfolding apart_def by metis

lemma mv_step_leaf:
  assumes wf: "wf_fs s" and dest: "is_dir s dest" and ap: "apart src dest" and i: "inode_at s (src @ [n]) = Some i"
    and leaf: "i_type i \<noteq> DT_DIR" and ex: "\<not> is_excl env n" and new: "\<And>r. inode_at s (dest @ n # r) = None"
  shows "\<exists>s'. mv_entry rec env (Some src) (Some dest) (n, i_type i) s = Some s' \<and> moved_entry env s src dest n s'"
proof -
  have apne: "src @ r \<noteq> dest @ r'" "dest @ r' \<noteq> src @ r" for r r' using apart_neq [OF ap] by simp_all
  have [simp]: "src \<noteq> dest" "dest \<noteq> src" using apne(1) [of "[]" "[]"] by auto
  from mv_leaf [OF wf dest ap i leaf ex new, of rec] obtain s'
    where s': "mv_entry rec env (Some src) (Some dest) (n, i_type i) s = Some s'" "wf_fs s'"
     "\<And>q. look_at False s' q = (if q = dest @ [n] then map_option (proj False) (mv_cp i)
        else if q = src @ [n] \<and> i_type i \<noteq> DT_OTHER then None else look_at False s q)" by blast
  have none: "inode_at s (src @ n # m # r) = None" for m r
    using not_child_of_file [OF wf, of "src @ [n]" "m # r"] i leaf by (simp add: is_dir_def)
  have st: "stays env s src (n # r) \<longleftrightarrow> r = [] \<and> i_type i = DT_OTHER" for r
    using stays_Cons [OF ex, of s src r] stays_leaf [OF wf i leaf] by simp
  have "look_at False s' (dest @ n # r) = mv_img env s src (n # r)" for r
  proof (cases r)
    case (Cons m r')
    have "look_at False s (dest @ n # r) = None" using new by simp
    with Cons none show ?thesis by (simp add: s'(3) apne mv_img_def)
  qed (simp add: s'(3) mv_img_def i ex)
  moreover have "look_at False s' (src @ n # r) = (if stays env s src (n # r) then look_at False s (src @ n # r) else None)" for r
  proof (cases r)
    case (Cons m r')
    have "look_at False s (src @ n # r) = None" using none Cons by simp
    with Cons show ?thesis by (simp add: s'(3) apne st)
  qed (simp add: s'(3) apne st)
  moreover have "look_at False s' q = look_at False s q" if "\<forall>r. q \<noteq> dest @ n # r \<and> q \<noteq> src @ n # r" for q
    using that by (auto simp: s'(3))
  ultimately show ?thesis using s'(1,2) unfolding moved_entry_def by blast
qed

text \<open>After the subdirectory was created and the recursive call returned: what is where, and when the source is empty.\<close>

lemma mv_sub:
  assumes wf: "wf_fs s" and ap: "apart src dest" and i: "inode_at s (src @ [n]) = Some i" "i_type i = DT_DIR" and ex: "\<not> is_excl env n"
    and n2: "\<And>q. inode_at s2 q = (if q = dest @ [n] then Some (dir_like i) else inode_at s q)"
    and mv: "moved env s2 (src @ [n]) (dest @ [n]) s3"
  shows "(\<forall>m r. q \<noteq> dest @ n # m # r \<and> q \<noteq> src @ n # m # r) \<Longrightarrow> look_at False s3 q = look_at False s2 q"
    and "look_at False s3 (src @ n # m # r) = (if stays env s src (n # m # r) then look_at False s (src @ n # m # r) else None)"
    and "look_at False s3 (dest @ n # m # r) = mv_img env s src (n # m # r)"
    and "is_dir s3 (src @ [n])"
    and "(\<forall>m. inode_at s3 (src @ [n, m]) = None) \<longleftrightarrow> \<not> stays env s src [n]"
proof -
  have apne: "src @ r \<noteq> dest @ r'" "dest @ r' \<noteq> src @ r" for r r' using apart_neq [OF ap] by simp_all
  have ns: "inode_at s2 (src @ r) = inode_at s (src @ r)" for r by (simp add: n2 apne)
  show out3: "look_at False s3 q = look_at False s2 q" if "\<forall>m r. q \<noteq> dest @ n # m # r \<and> q \<noteq> src @ n # m # r" for q
    using mv that by (simp add: moved_def)
  have "stays env s2 (src @ [n]) (m # r) = stays env s (src @ [n]) (m # r)" for m r
    by (rule stays_cong) (simp add: look_at_def ns)
  then show src3: "look_at False s3 (src @ n # m # r) =
      (if stays env s src (n # m # r) then look_at False s (src @ n # m # r) else None)" for m r
    using mv stays_Cons [OF ex, of s src "m # r"] by (simp add: moved_def look_at_def ns)
  have "mv_img env s2 (src @ [n]) (m # r) = mv_img env s (src @ [n]) (m # r)"
    by (rule mv_img_cong) (simp add: look_at_def ns)
  then show "look_at False s3 (dest @ n # m # r) = mv_img env s src (n # m # r)"
    using mv ex by (simp add: moved_def mv_img_def)
  have dir: "is_dir s (src @ [n])" using i by (simp add: is_dir_def)
  then show "is_dir s3 (src @ [n])"
    using look_is_dir [OF out3, of "src @ [n]"] by (simp add: apne is_dir_def ns)
  have "inode_at s3 (src @ [n, m]) = None \<longleftrightarrow> \<not> (inode_at s (src @ [n, m]) \<noteq> None \<and> stays env s (src @ [n]) [m])" for m
    using src3 [of m "[]"] stays_Cons [OF ex, of s src "[m]"] by (metis append_Nil2 look_at_None)
  then show "(\<forall>m. inode_at s3 (src @ [n, m]) = None) \<longleftrightarrow> \<not> stays env s src [n]"
    using stays_dir [OF wf dir, of env] stays_Cons [OF ex, of s src "[]"] by auto
qed

lemma mv_rmdir:
  assumes wf: "wf_fs s" and ap: "apart src dest" and i: "inode_at s (src @ [n]) = Some i" "i_type i = DT_DIR" and ex: "\<not> is_excl env n"
    and n2: "\<And>q. inode_at s2 q = (if q = dest @ [n] then Some (dir_like i) else inode_at s q)"
    and mv: "moved env s2 (src @ [n]) (dest @ [n]) s3"
  shows "moved_entry env s src dest n (rmdir (src, [n]) s3)"
proof -
  note sub = mv_sub [OF wf ap i ex n2 mv]
  have apne: "src @ r \<noteq> dest @ r'" "dest @ r' \<noteq> src @ r" for r r' using apart_neq [OF ap] by simp_all
  have [simp]: "src \<noteq> dest" "dest \<noteq> src" using apne(1) [of "[]" "[]"] by auto
  have wf3: "wf_fs s3" using mv by (simp add: moved_def)
  define s' where "s' = rmdir (src, [n]) s3"
  have n': "inode_at s' q = (if q = src @ [n] \<and> \<not> stays env s src [n] then None else inode_at s3 q)" for q
    unfolding s'_def using rm_rmdir(2) [OF wf3 sub(4), of q, unfolded sub(5)] .
  have "look_at False s' q = look_at False s q" if "\<forall>r. q \<noteq> dest @ n # r \<and> q \<noteq> src @ n # r" for q
  proof -
    have "look_at False s' q = look_at False s3 q" using that by (simp add: look_at_def n')
    also have "\<dots> = look_at False s2 q" using that by (intro sub(1)) blast
    also have "\<dots> = look_at False s q" using that by (simp add: look_at_def n2)
    finally show ?thesis .
  qed
  moreover have "look_at False s' (dest @ n # r) = mv_img env s src (n # r)" for r
  proof (cases r)
    case Nil
    have "look_at False s' (dest @ [n]) = look_at False s2 (dest @ [n])"
      using sub(1) [of "dest @ [n]"] by (simp add: look_at_def n' apne)
    then show ?thesis using Nil by (simp add: look_at_def n2 mv_img_def ex i mv_cp_def)
  next
    case (Cons m r')
    have "look_at False s' (dest @ n # r) = look_at False s3 (dest @ n # r)" by (simp add: look_at_def n' apne)
    then show ?thesis using sub(3) Cons by simp
  qed
  moreover have "look_at False s' (src @ n # r) = (if stays env s src (n # r) then look_at False s (src @ n # r) else None)" for r
  proof (cases r)
    case Nil
    have "look_at False s3 (src @ [n]) = look_at False s (src @ [n])"
      using sub(1) [of "src @ [n]"] by (simp add: apne) (simp add: look_at_def n2 apne)
    then show ?thesis using Nil by (simp add: look_at_def n')
  next
    case (Cons m r')
    have "look_at False s' (src @ n # r) = look_at False s3 (src @ n # r)" using Cons by (simp add: look_at_def n')
    then show ?thesis using sub(2) Cons by simp
  qed
  ultimately show ?thesis using rm_rmdir(1) [OF wf3 sub(4)] unfolding moved_entry_def s'_def by blast
qed

lemma mv_step:
  assumes IH: "\<And>fs src dest. movable fs src dest k \<Longrightarrow> (\<And>n r. inode_at fs (dest @ n # r) = None) \<Longrightarrow>
      \<exists>fs'. mv_dir k env (Some src) (Some dest) fs = Some fs' \<and> moved env fs src dest fs'"
    and c: "movable s src dest (Suc k)" and i: "inode_at s (src @ [n]) = Some i"
    and ex: "\<not> is_excl env n" and new: "\<And>r. inode_at s (dest @ n # r) = None"
  shows "\<exists>s'. mv_entry (mv_dir k env) env (Some src) (Some dest) (n, i_type i) s = Some s' \<and> moved_entry env s src dest n s'"
proof (cases "i_type i = DT_DIR")
  case False
  then show ?thesis using c i ex new by (intro mv_step_leaf) (simp_all add: movable_def)
next
  case True
  have wf: "wf_fs s" and dest: "is_dir s dest" and src: "is_dir s src" and ap: "apart src dest"
    using c by (simp_all add: movable_def)
  have apne: "src @ r \<noteq> dest @ r'" "dest @ r' \<noteq> src @ r" for r r' using apart_neq [OF ap] by simp_all
  have dots: "\<not> is_dots n" using wf_parent(2) [OF wf, of src n] i by simp
  have new0: "inode_at s (dest @ [n]) = None" using new [of "[]"] by simp
  define s1 where "s1 = xmkdirat env (Some dest) n (i_mode i AND 0x1FF) s"
  define s2 where "s2 = upd_node (chmod_chown i) (dest @ [n]) s1"
  note mk = mkdir_with_attr(4,5)
    [OF wf dest dots new0, where a = i and env = env and m = "i_mode i AND 0x1FF", folded s1_def, folded s2_def]
  have open_dest: "xopenat_rd s1 (Some dest) n = Some (dest @ [n])"
    unfolding s1_def by (rule mkdir_with_attr(2) [OF wf dest dots new0])
  have n1: "inode_at s1 (src @ r) = inode_at s (src @ r)" for r
    unfolding s1_def xmkdirat_create [OF dest dots new0] node_create [OF wf new0] by (simp add: apne)
  have ns: "inode_at s2 (src @ r) = inode_at s (src @ r)" for r by (simp add: mk(2) apne)
  have sub: "is_dir s2 (src @ [n])" "is_dir s1 (src @ [n])" using i True by (simp_all add: is_dir_def ns n1)
  have src1: "is_dir s1 src" using src n1 [of "[]"] by (simp add: is_dir_def)
  have "movable s2 (src @ [n]) (dest @ [n]) k"
    using c sub mk(1) ns apart_append [OF ap] unfolding movable_def deep_def
    by (auto simp: is_dir_def mk(2) dir_like_def dest: spec [of _ "n # _"])
  moreover have "inode_at s2 ((dest @ [n]) @ m # r) = None" for m r using new by (simp add: mk(2))
  ultimately obtain s3
    where run: "mv_dir k env (Some (src @ [n])) (Some (dest @ [n])) s2 = Some s3"
      and mv: "moved env s2 (src @ [n]) (dest @ [n]) s3"
    using IH by blast
  have "mv_entry (mv_dir k env) env (Some src) (Some dest) (n, i_type i) s = Some (rmdir (src, [n]) s3)"
    using ex dots getattrat_node [OF wf, of src n] i True run open_dest
    by (simp add: mv_entry_def at_loc_def s1_def [symmetric] xopenat_rd_dir [OF src1 sub(2) dots] fsetattr_def s2_def [symmetric])
  then show ?thesis using mv_rmdir [OF wf ap i True ex mk(2) mv] by blast
qed

section \<open>Moving a tree\<close>

text \<open>The invariant of the loop over the entries: the entries \<open>xs\<close> have been moved.\<close>

definition moving :: "fenv \<Rightarrow> fs \<Rightarrow> path \<Rightarrow> path \<Rightarrow> (string \<times> ftype) list \<Rightarrow> fs \<Rightarrow> bool" where
  "moving env fs src dest xs s \<longleftrightarrow> wf_fs s \<and>
    (\<forall>q. (\<forall>n r. q \<noteq> dest @ n # r \<and> q \<noteq> src @ n # r) \<longrightarrow> look_at False s q = look_at False fs q) \<and>
    (\<forall>n r. look_at False s (dest @ n # r) = (if n \<in> fst ` set xs then mv_img env fs src (n # r) else None)) \<and>
    (\<forall>n r. look_at False s (src @ n # r) =
       (if n \<in> fst ` set xs \<and> \<not> stays env fs src (n # r) then None else look_at False fs (src @ n # r)))"

lemma moving_skip:
  assumes "wf_fs fs" "moving env fs src dest xs s" "is_dots n \<or> is_excl env n"
  shows "moving env fs src dest (xs @ [(n, t)]) s"
proof -
  have "mv_img env fs src (n # r) = None \<and> (stays env fs src (n # r) \<or> look_at False fs (src @ n # r) = None)" for r
    using assms(3) wf_no_dots [OF assms(1), of "src @ n # r"]
    by (cases "inode_at fs (src @ n # r)") (auto simp: mv_img_def stays_def intro!: exI [of _ "[]"])
  with assms(2) show ?thesis by (simp add: moving_def) metis
qed

lemma moving_entry:
  assumes I: "moving env fs src dest xs s" and new: "n \<notin> fst ` set xs" and ap: "apart src dest"
    and s': "moved_entry env s src dest n s'"
  shows "moving env fs src dest (xs @ [(n, t)]) s'"
proof -
  have apne: "src @ r \<noteq> dest @ r'" "dest @ r' \<noteq> src @ r" for r r' using apart_neq [OF ap] by simp_all
  have ls: "look_at False s (src @ n # r) = look_at False fs (src @ n # r)" for r using I new by (simp add: moving_def)
  have out: "look_at False s' q = look_at False s q" if "\<forall>r. q \<noteq> dest @ n # r \<and> q \<noteq> src @ n # r" for q
    using s' that by (simp add: moved_entry_def)
  have stays: "stays env s src (n # r) = stays env fs src (n # r)" for r
    by (rule stays_cong) (simp add: ls)
  have at: "look_at False s' (dest @ n # r) = mv_img env fs src (n # r)"
    "look_at False s' (src @ n # r) = (if stays env fs src (n # r) then look_at False fs (src @ n # r) else None)" for r
    using s' mv_img_cong [of s src "n # r" fs env, OF ls] by (simp_all add: moved_entry_def stays ls)
  have "look_at False s' (dest @ m # r) = (if m \<in> fst ` set (xs @ [(n, t)]) then mv_img env fs src (m # r) else None)" for m r
    using I out [of "dest @ m # r"] at(1) [of r] by (cases "m = n") (auto simp: moving_def apne)
  moreover have "look_at False s' (src @ m # r) =
      (if m \<in> fst ` set (xs @ [(n, t)]) \<and> \<not> stays env fs src (m # r) then None else look_at False fs (src @ m # r))" for m r
    using I out [of "src @ m # r"] at(2) [of r] by (cases "m = n") (auto simp: moving_def apne)
  moreover have "look_at False s' q = look_at False fs q" if "\<forall>n r. q \<noteq> dest @ n # r \<and> q \<noteq> src @ n # r" for q
    using I out that by (simp add: moving_def)
  ultimately show ?thesis using s' by (auto simp: moving_def moved_entry_def)
qed

lemma moving_movable:
  assumes "moving env fs src dest xs s" "movable fs src dest k"
  shows "movable s src dest k"
proof -
  have apne: "src @ r \<noteq> dest @ r'" "dest @ r' \<noteq> src @ r" for r r' using apart_neq [of src dest] assms(2) by (simp_all add: movable_def)
  have root: "look_at False s src = look_at False fs src" "look_at False s dest = look_at False fs dest"
    using assms(1) apne [of "[]"] apne [of _ "[]"] by (simp_all add: moving_def)
  have "inode_at fs (src @ r) \<noteq> None" if "inode_at s (src @ r) \<noteq> None" for r
  proof -
    have "look_at False s (src @ r) \<noteq> None" using that by simp
    then have "look_at False fs (src @ r) \<noteq> None"
      using assms(1) root(1) by (cases r) (auto simp: moving_def simp del: look_at_None split: if_splits)
    then show ?thesis by simp
  qed
  then show ?thesis
    using assms look_is_dir [OF root(1)] look_is_dir [OF root(2)] unfolding movable_def deep_def moving_def by blast
qed

lemma moving_all:
  assumes "wf_fs fs" "moving env fs src dest (readdir fs src) s"
  shows "moved env fs src dest s"
proof -
  have none: "inode_at fs (src @ n # r) = None" if "n \<notin> fst ` set (readdir fs src)" for n r
    by (rule not_in_readdir [OF assms(1) that])
  have "look_at False s (dest @ n # r) = mv_img env fs src (n # r)" for n r
    using assms(2) none [of n r] by (cases "n \<in> fst ` set (readdir fs src)") (simp_all add: moving_def mv_img_def)
  moreover have "look_at False s (src @ n # r) = (if stays env fs src (n # r) then look_at False fs (src @ n # r) else None)" for n r
  proof (cases "n \<in> fst ` set (readdir fs src)")
    case False
    then have "look_at False fs (src @ n # r) = None" using none by simp
    with assms(2) show ?thesis by (simp add: moving_def)
  qed (use assms(2) in \<open>simp add: moving_def\<close>)
  ultimately show ?thesis using assms(2) by (simp add: moving_def moved_def)
qed

lemma mv_dir_moves:
  "movable fs src dest k \<Longrightarrow> (\<And>n r. inode_at fs (dest @ n # r) = None) \<Longrightarrow>
     \<exists>fs'. mv_dir k env (Some src) (Some dest) fs = Some fs' \<and> moved env fs src dest fs'"
proof (induction k arbitrary: fs src dest)
  case 0
  then show ?case using is_dir_node [of fs src] by (auto simp: movable_def deep_def dest: spec [of _ "[]"])
next
  case (Suc k)
  have wf: "wf_fs fs" and src: "is_dir fs src" and ap: "apart src dest" using Suc.prems(1) by (simp_all add: movable_def)
  have "\<exists>s'. foldM (mv_entry (mv_dir k env) env (Some src) (Some dest)) (readdir fs src) fs = Some s' \<and>
      moving env fs src dest (readdir fs src) s'"
  proof (rule foldM_inv)
    show "moving env fs src dest [] fs" using wf Suc.prems(2) by (simp add: moving_def)
    fix xs x ys s assume es: "readdir fs src = xs @ x # ys" and I: "moving env fs src dest xs s"
    obtain n t where x: "x = (n, t)" by (cases x)
    show "\<exists>s'. mv_entry (mv_dir k env) env (Some src) (Some dest) x s = Some s' \<and> moving env fs src dest (xs @ [x]) s'"
    proof (cases "is_dots n \<or> is_excl env n")
      case True
      then show ?thesis using moving_skip [OF wf I True, of t] by (auto simp: x mv_entry_def)
    next
      case False
      have new: "n \<notin> fst ` set xs" and old: "\<exists>i. inode_at fs (src @ [n]) = Some i \<and> t = i_type i"
        using readdir_split [OF wf, of src xs n t ys] es False by (simp_all add: x)
      have "look_at False fs (src @ [n]) = look_at False s (src @ [n])" using I new by (simp add: moving_def)
      then obtain i where i: "inode_at s (src @ [n]) = Some i" "t = i_type i"
        using old look_Some_type proj_eqD(1) by metis
      have "look_at False s (dest @ n # r) = None" for r using I new unfolding moving_def by presburger
      then have "inode_at s (dest @ n # r) = None" for r by simp
      from mv_step [OF Suc.IH moving_movable [OF I Suc.prems(1)] i(1) _ this] False
      show ?thesis using moving_entry [OF I new ap] by (auto simp: x i(2))
    qed
  qed
  then show ?case using moving_all [OF wf] src by (fastforce simp: fdopendir_def)
qed

text \<open>
  Property C18. \<open>mv_dir\<close> into an empty directory outside the source returns (with more fuel than the source is
  deep) and moves the tree: every file, link and directory that is not excluded is below the target with its type and
  data, and gone from the source unless it is a directory above something that stays; excluded and special entries stay;
  everything else keeps its type and data.
\<close>

theorem mv_dir_moves_tree:
  assumes "wf_fs fs" "is_dir fs src" "is_dir fs dest" "\<not> prefix src dest" "\<not> prefix dest src"
    and "\<And>n r. inode_at fs (dest @ n # r) = None"
    and "\<And>r. inode_at fs (src @ r) \<noteq> None \<Longrightarrow> length r < k"
  shows "\<exists>fs'. mv_dir k env (Some src) (Some dest) fs = Some fs' \<and> wf_fs fs' \<and>
    (\<forall>q. \<not> strict_prefix src q \<and> \<not> strict_prefix dest q \<longrightarrow> look_at False fs' q = look_at False fs q) \<and>
    (\<forall>r. r \<noteq> [] \<longrightarrow>
       look_at False fs' (dest @ r) =
         (if list_ex (is_excl env) r then None
          else map_option (proj False)
                 (case inode_at fs (src @ r) of
                    None \<Rightarrow> None
                  | Some i \<Rightarrow> if i_type i = DT_OTHER then None
                              else Some (if i_type i = DT_DIR then dir_like i else i))) \<and>
       look_at False fs' (src @ r) =
         (if \<exists>r' i. inode_at fs (src @ r @ r') = Some i \<and> (list_ex (is_excl env) (r @ r') \<or> i_type i = DT_OTHER)
          then look_at False fs (src @ r) else None))"
proof -
  have "movable fs src dest k"
    using assms(1-3,7) apartI [OF assms(4,5)] by (auto simp: movable_def deep_def)
  from mv_dir_moves [OF this assms(6)] obtain fs'
    where fs': "mv_dir k env (Some src) (Some dest) fs = Some fs'" "moved env fs src dest fs'" by blast
  have "look_at False fs' q = look_at False fs q" if "\<not> strict_prefix src q" "\<not> strict_prefix dest q" for q
    using fs'(2) that unfolding moved_def by (metis strict_prefixI')
  moreover have "look_at False fs' (dest @ r) =
         (if list_ex (is_excl env) r then None
          else map_option (proj False)
                 (case inode_at fs (src @ r) of
                    None \<Rightarrow> None
                  | Some i \<Rightarrow> if i_type i = DT_OTHER then None
                              else Some (if i_type i = DT_DIR then dir_like i else i)))" if "r \<noteq> []" for r
    using fs'(2) that by (cases r; cases "inode_at fs (src @ r)") (simp_all add: moved_def mv_img_def mv_cp_def)
  moreover have "look_at False fs' (src @ r) =
         (if \<exists>r' i. inode_at fs (src @ r @ r') = Some i \<and> (list_ex (is_excl env) (r @ r') \<or> i_type i = DT_OTHER)
          then look_at False fs (src @ r) else None)" if "r \<noteq> []" for r
    unfolding stays_def [symmetric] using fs'(2) that by (cases r) (simp_all add: moved_def)
  ultimately show ?thesis using fs' unfolding moved_def by blast
qed

theorem mv_dir_moves_tree_witness:
  "\<exists>fs'. mv_dir 2 demo_env (Some [''a'']) (Some [''b'']) demo_fs = Some fs' \<and>
     map_option i_data (inode_at fs' [''b'', ''f'']) = Some ''hello'' \<and> inode_at fs' [''a'', ''f''] = None"
proof -
  have "\<exists>fs'. mv_dir 2 demo_env (Some [''a'']) (Some [''b'']) demo_fs = Some fs' \<and> wf_fs fs' \<and>
    (\<forall>q. \<not> strict_prefix [''a''] q \<and> \<not> strict_prefix [''b''] q \<longrightarrow> look_at False fs' q = look_at False demo_fs q) \<and>
    (\<forall>r. r \<noteq> [] \<longrightarrow>
       look_at False fs' ([''b''] @ r) =
         (if list_ex (is_excl demo_env) r then None
          else map_option (proj False)
                 (case inode_at demo_fs ([''a''] @ r) of
                    None \<Rightarrow> None
                  | Some i \<Rightarrow> if i_type i = DT_OTHER then None
                              else Some (if i_type i = DT_DIR then dir_like i else i))) \<and>
       look_at False fs' ([''a''] @ r) =
         (if \<exists>r' i. inode_at demo_fs ([''a''] @ r @ r') = Some i \<and>
               (list_ex (is_excl demo_env) (r @ r') \<or> i_type i = DT_OTHER)
          then look_at False demo_fs ([''a''] @ r) else None))"
    by (rule mv_dir_moves_tree [OF wf_demo_fs])
       (auto simp: is_dir_def node_demo_fs demo_dir_def demo_file_def split: if_splits)
  then obtain fs' where fs': "mv_dir 2 demo_env (Some [''a'']) (Some [''b'']) demo_fs = Some fs'"
    "look_at False fs' ([''b''] @ [''f'']) =
         (if list_ex (is_excl demo_env) [''f''] then None
          else map_option (proj False)
                 (case inode_at demo_fs ([''a''] @ [''f'']) of
                    None \<Rightarrow> None
                  | Some i \<Rightarrow> if i_type i = DT_OTHER then None
                              else Some (if i_type i = DT_DIR then dir_like i else i)))"
    "look_at False fs' ([''a''] @ [''f'']) =
         (if \<exists>r' i. inode_at demo_fs ([''a''] @ [''f''] @ r') = Some i \<and>
               (list_ex (is_excl demo_env) ([''f''] @ r') \<or> i_type i = DT_OTHER)
          then look_at False demo_fs ([''a''] @ [''f'']) else None)"
    by blast
  have ex: "\<not> is_excl demo_env c" for c by (simp add: is_excl_def demo_env_def)
  have "list_ex (is_excl demo_env) r = False" for r by (induction r) (simp_all add: ex)
  with fs' show ?thesis
    by (auto simp: node_demo_fs demo_file_def look_at_def ex dest: proj_eqD(2) split: if_splits)
qed

end
