(* ===== verification/Misc_Utils.thy ===== *)
theory Misc_Utils
  imports C_Text Vectors File_Tree
begin

text \<open>
  The helpers of \<open>tools/resetprop/utils/misc.c\<close> and the reading functions of \<open>utils/file.c\<close>: the
  replacement of \<open>getline\<close>, line files, reading from descriptors, names of processes, running
  programs. Memory that a function writes into is a list of cells, a cell that was never written is
  \<^const>\<open>None\<close>, and an access outside of it makes the result \<^const>\<open>None\<close>. \<open>size_t\<close> is a 64-bit word, the device
  is arm64, where \<open>char\<close> is unsigned. What the kernel answers is an argument.
\<close>

section \<open>Memory\<close>

type_synonym cells = "char option list"

definition store :: "cells \<Rightarrow> nat \<Rightarrow> char \<Rightarrow> cells option" where
  "store m i c = (if i < length m then Some (m[i := Some c]) else None)"

definition resize :: "cells \<Rightarrow> nat \<Rightarrow> cells" where
  "resize m n = take n m @ replicate (n - length m) None"

text \<open>The C string at the start of a buffer: \<^const>\<open>None\<close> if unset cells come before the terminator.\<close>

fun buf_string :: "cells \<Rightarrow> string option" where
  "buf_string [] = None"
| "buf_string (None # m) = None"
| "buf_string (Some c # m) = (if c = CHR 0x00 then Some [] else map_option ((#) c) (buf_string m))"

section \<open>Lines\<close>

definition MIN_CHUNK :: u64 where "MIN_CHUNK = 64"

text \<open>
  The arguments \<open>lineptr\<close> and \<open>n\<close> (a null line is \<^const>\<open>None\<close>) and the stream: the bytes left and whether reading
  ends in an error. \<open>alloc\<close> tells whether an allocation of a size succeeds.
\<close>

record line_buf =
  lineptr :: "cells option"
  lb_n :: u64

record stream =
  st_rest :: string
  st_err :: bool

definition grow :: "u64 \<Rightarrow> u64" where
  "grow n = (if n > MIN_CHUNK then n * 2 else n + MIN_CHUNK)"

text \<open>Result: the return value, the buffer and the stream. The last two arguments are \<open>nchars_avail\<close> and \<open>read_pos\<close>.\<close>

definition gd_grow :: "(u64 \<Rightarrow> bool) \<Rightarrow> cells \<Rightarrow> u64 \<Rightarrow> u64 \<Rightarrow> nat \<Rightarrow> (cells option \<times> u64 \<times> u64)" where
  "gd_grow alloc m n avail pos =
     (if avail < 2
      then (if alloc (grow n) then Some (resize m (unat (grow n))) else None,
            grow n, grow n - of_nat pos)
      else (Some m, n, avail))"

fun gd_loop :: "(u64 \<Rightarrow> bool) \<Rightarrow> char \<Rightarrow> string \<Rightarrow> bool \<Rightarrow> cells \<Rightarrow> u64 \<Rightarrow> u64 \<Rightarrow> nat \<Rightarrow>
    (int \<times> line_buf \<times> stream) option" where
  "gd_loop alloc delim [] err m n avail pos =
     (case gd_grow alloc m n avail pos of
        (None, n', _) \<Rightarrow> Some (-1, \<lparr>lineptr = None, lb_n = n'\<rparr>, \<lparr>st_rest = [], st_err = err\<rparr>)
      | (Some m', n', avail') \<Rightarrow>
          if err \<or> pos = 0 then Some (-1, \<lparr>lineptr = Some m', lb_n = n'\<rparr>, \<lparr>st_rest = [], st_err = err\<rparr>)
          else map_option (\<lambda>m''. (int pos, \<lparr>lineptr = Some m'', lb_n = n'\<rparr>, \<lparr>st_rest = [], st_err = err\<rparr>))
                 (store m' pos (CHR 0x00)))"
| "gd_loop alloc delim (c # cs) err m n avail pos =
     (case gd_grow alloc m n avail pos of
        (None, n', _) \<Rightarrow> Some (-1, \<lparr>lineptr = None, lb_n = n'\<rparr>, \<lparr>st_rest = cs, st_err = err\<rparr>)
      | (Some m', n', avail') \<Rightarrow>
          (case store m' pos c of
             None \<Rightarrow> None
           | Some m'' \<Rightarrow>
               if c = delim
               then map_option (\<lambda>m3. (int (Suc pos), \<lparr>lineptr = Some m3, lb_n = n'\<rparr>, \<lparr>st_rest = cs, st_err = err\<rparr>))
                      (store m'' (Suc pos) (CHR 0x00))
               else gd_loop alloc delim cs err m'' n' (avail' - 1) (Suc pos)))"

text \<open>Null pointers for \<open>lineptr\<close>, \<open>n\<close> or \<open>stream\<close> themselves, which are refused, are not values of the model.\<close>

definition getdelim :: "(u64 \<Rightarrow> bool) \<Rightarrow> line_buf \<Rightarrow> char \<Rightarrow> stream \<Rightarrow> (int \<times> line_buf \<times> stream) option" where
  "getdelim alloc lb delim st =
     (case lineptr lb of
        None \<Rightarrow>
          if alloc MIN_CHUNK
          then gd_loop alloc delim (st_rest st) (st_err st) (replicate (unat MIN_CHUNK) None) MIN_CHUNK MIN_CHUNK 0
          else Some (-1, \<lparr>lineptr = None, lb_n = MIN_CHUNK\<rparr>, st)
      | Some m \<Rightarrow> gd_loop alloc delim (st_rest st) (st_err st) m (lb_n lb) (lb_n lb) 0)"

definition getline :: "(u64 \<Rightarrow> bool) \<Rightarrow> line_buf \<Rightarrow> stream \<Rightarrow> (int \<times> line_buf \<times> stream) option" where
  "getline alloc lb st = getdelim alloc lb (CHR 0x0A) st"

text \<open>
  \<open>file_to_vector\<close>: every line gets a buffer of its own, its newline is cut off, and the vector keeps the C string.
  The fuel is one more than the bytes of the file: every line takes at least one.
\<close>

definition cut_newline :: "cells \<Rightarrow> nat \<Rightarrow> cells" where
  "cut_newline m r = (if m ! (r - 1) = Some (CHR 0x0A) then m[r - 1 := Some (CHR 0x00)] else m)"

primrec ftv_loop :: "nat \<Rightarrow> (u64 \<Rightarrow> bool) \<Rightarrow> u64 \<Rightarrow> stream \<Rightarrow> string vector \<Rightarrow> string vector option" where
  "ftv_loop 0 alloc len st v = None"
| "ftv_loop (Suc k) alloc len st v =
     do {
       (r, lb, st') \<leftarrow> getline alloc \<lparr>lineptr = None, lb_n = len\<rparr> st;
       if r = -1 then Some v
       else do {
         m \<leftarrow> lineptr lb;
         s \<leftarrow> buf_string (cut_newline m (nat r));
         v' \<leftarrow> vec_push_back v (Some s);
         ftv_loop k alloc (lb_n lb) st' v'
       }
     }"

type_synonym files = "string \<rightharpoonup> string"

definition file_to_vector :: "(u64 \<Rightarrow> bool) \<Rightarrow> files \<Rightarrow> string \<Rightarrow> string vector \<Rightarrow> (int \<times> string vector) option" where
  "file_to_vector alloc fs name v =
     (case fs name of
        None \<Rightarrow> Some (1, v)
      | Some text \<Rightarrow>
          map_option (Pair 0) (ftv_loop (Suc (length text)) alloc 0 \<lparr>st_rest = text, st_err = False\<rparr> v))"

text \<open>Bionic prints \<open>(null)\<close> for a null string; \<open>ok\<close> is whether the file opens for writing.\<close>

definition vector_to_file :: "bool \<Rightarrow> string \<Rightarrow> string vector \<Rightarrow> files \<Rightarrow> int \<times> files" where
  "vector_to_file ok name v fs =
     (if ok
      then (0, fs(name \<mapsto> concat (map (\<lambda>e. (case e of None \<Rightarrow> ''(null)'' | Some s \<Rightarrow> s) @ [CHR 0x0A]) (vec_elems v))))
      else (1, fs))"

section \<open>Descriptors\<close>

text \<open>What each \<open>read\<close> of one byte returns.\<close>

datatype rd = Byte char | Eof | Err

fun fdgets_loop :: "u64 \<Rightarrow> rd list \<Rightarrow> cells \<Rightarrow> nat \<Rightarrow> (int \<times> cells) option" where
  "fdgets_loop sz input m len =
     (if of_nat len < sz - 1
      then (case input of
              [] \<Rightarrow> map_option (Pair (int len)) (store m (unat (sz - 1)) (CHR 0x00))
            | Eof # _ \<Rightarrow> map_option (Pair (int len)) (store m (unat (sz - 1)) (CHR 0x00))
            | Err # _ \<Rightarrow> Some (-1, m)
            | Byte c # rest \<Rightarrow>
                do {
                  m1 \<leftarrow> store m len c;
                  if c = CHR 0x00
                  then do {
                    m2 \<leftarrow> store m1 len (CHR 0x00);
                    map_option (Pair (int len)) (store m2 (unat (sz - 1)) (CHR 0x00))
                  }
                  else if c = CHR 0x0A
                  then do {
                    m2 \<leftarrow> store m1 (Suc len) (CHR 0x00);
                    map_option (Pair (int (Suc len))) (store m2 (unat (sz - 1)) (CHR 0x00))
                  }
                  else fdgets_loop sz rest m1 (Suc len)
                })
      else map_option (Pair (int len)) (store m (unat (sz - 1)) (CHR 0x00)))"

definition fdgets :: "cells \<Rightarrow> u64 \<Rightarrow> rd list \<Rightarrow> (int \<times> cells) option" where
  "fdgets buf sz input = Option.bind (store buf 0 (CHR 0x00)) (\<lambda>m. fdgets_loop sz input m 0)"

text \<open>One \<open>read\<close> returns at most \<open>0x7ffff000\<close> bytes. \<^const>\<open>None\<close>: the descriptor cannot seek, so that the size is -1.\<close>

definition fd_full_read :: "string option \<Rightarrow> (cells \<times> u64) option" where
  "fd_full_read data =
     (case data of
        None \<Rightarrow> None
      | Some d \<Rightarrow>
          map_option (\<lambda>m. (m, of_nat (length d)))
            (store (map Some (take SENDFILE_MAX d) @ replicate (Suc (length d) - min SENDFILE_MAX (length d)) None)
               (length d) (CHR 0x00)))"

definition full_read :: "files \<Rightarrow> string \<Rightarrow> (cells option \<times> u64) option" where
  "full_read fs name =
     (case fs name of
        None \<Rightarrow> Some (None, 0)
      | Some d \<Rightarrow> map_option (\<lambda>(m, n). (Some m, n)) (fd_full_read (Some d)))"

text \<open>The chunks that the calls of \<open>read\<close> return, none longer than the array \<open>tmp\<close>; an empty one ends the loop.\<close>

definition TMP_SIZE :: nat where "TMP_SIZE = 2 ^ 20"

fun store_list :: "cells \<Rightarrow> nat \<Rightarrow> string \<Rightarrow> cells option" where
  "store_list m i [] = Some m"
| "store_list m i (c # cs) = Option.bind (store m i c) (\<lambda>m'. store_list m' (Suc i) cs)"

fun sfr_loop :: "string list \<Rightarrow> cells \<Rightarrow> nat \<Rightarrow> nat \<Rightarrow> (cells \<times> nat) option" where
  "sfr_loop [] buf sz cap = Some (buf, sz)"
| "sfr_loop (chunk # chunks) buf sz cap =
     (if chunk = [] then Some (buf, sz)
      else let cap' = (if sz + length chunk > cap then cap * 2 else cap);
               buf' = (if sz + length chunk > cap then resize buf cap' else buf)
           in Option.bind (store_list buf' sz chunk) (\<lambda>b. sfr_loop chunks b (sz + length chunk) cap'))"

definition stream_full_read :: "string list \<Rightarrow> (cells \<times> nat) option" where
  "stream_full_read chunks = sfr_loop chunks (replicate (2 ^ 20) None) 0 (2 ^ 20)"

text \<open>The contents and the offset of an open file.\<close>

definition write_zero :: "string \<Rightarrow> nat \<Rightarrow> nat \<Rightarrow> string \<times> nat" where
  "write_zero data pos sz =
     (take (pos + sz) (data @ replicate (pos + sz - length data) (CHR 0x00)), pos + sz)"

section \<open>Text\<close>

definition is_num :: "string \<Rightarrow> bool" where
  "is_num s = list_all (\<lambda>c. \<not> (c < CHR ''0'' \<or> c > CHR ''9'')) s"

definition base_chars :: string where
  "base_chars = ''abcdefghijklmnopqrstuvwxyzABCDEFGHIJKLMNOPQRSTUVWXYZ0123456789_.''"

text \<open>\<open>random\<close> is what the device delivers; the buffer holds \<open>len\<close> characters with the terminator.\<close>

definition gen_rand_str :: "string \<Rightarrow> nat \<Rightarrow> cells option" where
  "gen_rand_str random len =
     (if len = 0 then None
      else Some (map (\<lambda>c. Some (base_chars ! (of_char c mod length base_chars))) (take (len - 1) random) @ [Some (CHR 0x00)]))"

text \<open>\<^const>\<open>None\<close>: the comparison starts before the first string.\<close>

definition strend :: "string \<Rightarrow> string \<Rightarrow> int option" where
  "strend s1 s2 =
     (if length s2 > length s1 then None else Some (strcmp (drop (length s1 - length s2) s1) s2))"

text \<open>The POSIX \<open>basename\<close>.\<close>

definition basename :: "string \<Rightarrow> string" where
  "basename s =
     (if s = [] then ''.''
      else let t = rev (dropWhile (\<lambda>c. c = CHR ''/'') (rev s))
           in if t = [] then ''/'' else rev (takeWhile (\<lambda>c. c \<noteq> CHR ''/'') (rev t)))"

section \<open>Processes\<close>

definition getpw_uid :: "nat \<Rightarrow> nat option \<Rightarrow> nat" where
  "getpw_uid dflt ppwd = (case ppwd of None \<Rightarrow> dflt | Some uid \<Rightarrow> uid)"

definition get_shell_uid :: "(string \<Rightarrow> nat option) \<Rightarrow> nat" where
  "get_shell_uid getpwnam = getpw_uid 2000 (getpwnam ''shell'')"

definition get_system_uid :: "(string \<Rightarrow> nat option) \<Rightarrow> nat" where
  "get_system_uid getpwnam = getpw_uid 1000 (getpwnam ''system'')"

definition get_radio_uid :: "(string \<Rightarrow> nat option) \<Rightarrow> nat" where
  "get_radio_uid getpwnam = getpw_uid 1001 (getpwnam ''radio'')"

text \<open>\<open>ps\<close> calls its argument for every numeric directory of \<open>/proc\<close>; the model returns the calls.\<close>

definition atoi_dec :: "string \<Rightarrow> int" where
  "atoi_dec s = (case fst (scan_int s) of None \<Rightarrow> 0 | Some v \<Rightarrow> v)"

definition ps :: "(string \<times> ftype) list option \<Rightarrow> int list" where
  "ps dir = (case dir of
               None \<Rightarrow> []
             | Some es \<Rightarrow> map (atoi_dec \<circ> fst) (filter (\<lambda>e. snd e = DT_DIR \<and> is_num (fst e)) es))"

text \<open>\<open>fgets\<close> of at most 127 characters: a line with its newline, or the buffer as it was for an empty file.\<close>

definition fgets_line :: "string \<Rightarrow> string \<Rightarrow> string" where
  "fgets_line buf text =
     (if text = [] then buf
      else let l = take 127 text
           in takeWhile (\<lambda>c. c \<noteq> CHR 0x00)
                (takeWhile (\<lambda>c. c \<noteq> CHR 0x0A) l @ (if CHR 0x0A \<in> set l then [CHR 0x0A] else [])))"

text \<open>The files \<open>comm\<close> and \<open>cmdline\<close> and the link \<open>exe\<close> of a process, if they are there.\<close>

record proc =
  p_comm :: "string option"
  p_cmdline :: "string option"
  p_exe :: "string option"

definition proc_path :: "int \<Rightarrow> string \<Rightarrow> string" where
  "proc_path pid f = ''/proc/'' @ to_string pid @ ''/'' @ f"

text \<open>\<open>xreadlink\<close> into a buffer of \<open>sz\<close> bytes writes the terminator behind what it read.\<close>

definition xreadlink :: "nat \<Rightarrow> string \<Rightarrow> string option" where
  "xreadlink sz target = (if sz \<le> length target then None else Some target)"

text \<open>\<^const>\<open>None\<close> is a null stream or a write behind the buffer of 128 characters.\<close>

definition check_proc_name :: "proc \<Rightarrow> int \<Rightarrow> string \<Rightarrow> bool option" where
  "check_proc_name p pid name =
     (case p_comm p of
        None \<Rightarrow> Some False
      | Some comm \<Rightarrow>
          if fgets_line (proc_path pid ''comm'') comm = name then Some True
          else do {
            cmdline \<leftarrow> p_cmdline p;
            if basename (fgets_line (proc_path pid ''cmdline'') cmdline) = name then Some True
            else (case p_exe p of
                    None \<Rightarrow> Some False
                  | Some exe \<Rightarrow> map_option (\<lambda>b. basename b = name) (xreadlink 128 exe))
          })"

text \<open>\<open>check_data\<close> from the lines of \<open>/proc/mounts\<close> and the properties \<open>ro.crypto.state\<close> and \<open>init.svc.vold\<close>.\<close>

fun data_mounted :: "string list \<Rightarrow> bool" where
  "data_mounted [] = False"
| "data_mounted (l # ls) = (if strstr l '' /data '' then \<not> strstr l ''tmpfs'' else data_mounted ls)"

definition check_data :: "string list \<Rightarrow> (string \<Rightarrow> string option) \<Rightarrow> bool" where
  "check_data mounts getprop =
     (data_mounted mounts \<and>
      (case getprop ''ro.crypto.state'' of
         None \<Rightarrow> True
       | Some crypto \<Rightarrow> crypto = ''unencrypted'' \<or> getprop ''init.svc.vold'' \<noteq> None))"

section \<open>Running programs\<close>

text \<open>
  \<open>exec_array\<close>: what \<open>pipe2\<close> and \<open>fork\<close> return, and whether \<open>execvp\<close> finds the program. The parent gets the
  return value and its new \<open>*fd\<close> with the descriptors it closed; the child is what standard output and error are
  redirected to and either the program or, after a failed \<open>execvp\<close>, a second process that returns -1.
\<close>

datatype child = NoChild | Runs "int option" "int option" "string list" | Returns int

record exec_result =
  x_ret :: int
  x_fd :: "int option"
  x_closed :: "int list"
  x_child :: child

definition exec_array ::
  "bool \<Rightarrow> int option \<Rightarrow> (int \<times> int) option \<Rightarrow> int \<Rightarrow> bool \<Rightarrow> string list \<Rightarrow> exec_result" where
  "exec_array err fd pipefd pid found argv =
     (let piped = (case fd of None \<Rightarrow> False | Some f \<Rightarrow> f < 0) in
      if piped \<and> pipefd = None
      then \<lparr>x_ret = -1, x_fd = fd, x_closed = [], x_child = NoChild\<rparr>
      else
        let writeEnd = (case fd of None \<Rightarrow> None
                        | Some f \<Rightarrow> if f < 0 then map_option snd pipefd else Some f)
        in \<lparr>x_ret = pid,
            x_fd = (if piped then map_option fst pipefd else fd),
            x_closed = (if piped then (case pipefd of None \<Rightarrow> [] | Some (r, w) \<Rightarrow> [w]) else []),
            x_child =
              (if pid = -1 then NoChild
               else if found then Runs writeEnd (if err then writeEnd else None) argv
               else Returns (-1))\<rparr>)"

definition v_exec_command ::
  "bool \<Rightarrow> int option \<Rightarrow> (int \<times> int) option \<Rightarrow> int \<Rightarrow> bool \<Rightarrow> string \<Rightarrow> string list \<Rightarrow> exec_result option" where
  "v_exec_command err fd pipefd pid found argv0 args =
     do {
       v0 \<leftarrow> vec_push_back vec_init (Some argv0);
       v1 \<leftarrow> vec_push_args v0 args;
       v2 \<leftarrow> vec_push_back v1 None;
       Some (exec_array err fd pipefd pid found (map the (takeWhile (\<lambda>e. e \<noteq> None) (vec_elems v2))))
     }"

definition WEXITSTATUS :: "int \<Rightarrow> int" where
  "WEXITSTATUS status = (status AND 0xFF00) div 256"

definition exec_command_sync :: "int \<Rightarrow> bool \<Rightarrow> int \<Rightarrow> string \<Rightarrow> string list \<Rightarrow> int option" where
  "exec_command_sync pid found status argv0 args =
     map_option (\<lambda>r. if x_ret r < 0 then x_ret r else WEXITSTATUS status)
       (v_exec_command False None None pid found argv0 args)"

definition exec_command ::
  "bool \<Rightarrow> int option \<Rightarrow> (int \<times> int) option \<Rightarrow> int \<Rightarrow> bool \<Rightarrow> string \<Rightarrow> string list \<Rightarrow> exec_result option" where
  "exec_command err fd pipefd pid found argv0 args = v_exec_command err fd pipefd pid found argv0 args"

text \<open>\<open>switch_mnt_ns\<close>: whether the namespace file can be read and opened, and what \<open>setns\<close> returns.\<close>

definition switch_mnt_ns :: "bool \<Rightarrow> bool \<Rightarrow> int \<Rightarrow> int" where
  "switch_mnt_ns readable opens setns = (if \<not> readable \<or> \<not> opens then 1 else setns)"

text \<open>
  \<open>wait_till_exists\<close>: whether the target is there at the start, and after each event that the watch delivers.
  \<^const>\<open>None\<close>: it still waits when the events run out.
\<close>

fun wait_events :: "bool list \<Rightarrow> nat option" where
  "wait_events [] = None"
| "wait_events (b # bs) = (if b then Some 1 else map_option Suc (wait_events bs))"

definition wait_till_exists :: "bool \<Rightarrow> bool list \<Rightarrow> nat option" where
  "wait_till_exists now events = (if now then Some 0 else wait_events events)"

text \<open>\<open>_mmap\<close> of a file that opens: whether it is a block device, the size of the device, and the contents.\<close>

definition mmap_file :: "(bool \<times> u64 \<times> string) option \<Rightarrow> (string option \<times> u64) option" where
  "mmap_file f =
     (case f of
        None \<Rightarrow> None
      | Some (blk, dev_size, data) \<Rightarrow>
          (let sz = (if blk then dev_size else of_nat (length data))
           in Some (if sz > 0 then Some (take (unat sz) data) else None, sz)))"

text \<open>The block devices of \<open>/dev/block\<close> that are made writable: those that open.\<close>

definition unlock_blocks :: "(string \<times> bool) list option \<Rightarrow> (string \<Rightarrow> bool) \<Rightarrow> string list" where
  "unlock_blocks dir opens =
     (case dir of None \<Rightarrow> [] | Some es \<Rightarrow> map fst (filter (\<lambda>e. snd e \<and> opens (fst e)) es))"

definition quit_signals :: "nat list" where
  "quit_signals = [14, 6, 1, 13, 3, 15, 2, 0]"

definition setup_sighandlers :: "'h \<Rightarrow> (nat \<rightharpoonup> 'h) \<Rightarrow> (nat \<rightharpoonup> 'h)" where
  "setup_sighandlers handler acts =
     foldl (\<lambda>a s. a(s \<mapsto> handler)) acts (takeWhile (\<lambda>s. s \<noteq> 0) quit_signals)"

text \<open>
  \<open>fork_dont_care\<close>: the results of the two calls of \<open>fork\<close>; the list has what each process that returns gets.
\<close>

definition fork_dont_care :: "int \<Rightarrow> int \<Rightarrow> int list" where
  "fork_dont_care pid1 pid2 = pid1 # (if pid1 = -1 \<or> pid2 = -1 then [] else [0])"

end
