(* ===== verification/Misc_Utils_Correct.thy ===== *)
theory Misc_Utils_Correct
  imports Misc_Utils
begin

text \<open>
  Correctness of the helpers of resetprop: \<open>getdelim\<close> never writes outside its buffer and returns the next
  line, line files read back what was written, \<open>stream_full_read\<close> collects all of its input; and what \<open>fdgets\<close>,
  \<open>check_proc_name\<close> and \<open>strend\<close> do at their edges.
\<close>

section \<open>Memory\<close>

lemma store_Some: "i < length m \<Longrightarrow> store m i c = Some (m[i := Some c])"
  by (simp add: store_def)

lemma length_resize [simp]: "length (resize m n) = n"
  by (simp add: resize_def)

lemma take_resize: "k \<le> length m \<Longrightarrow> k \<le> n \<Longrightarrow> take k (resize m n) = take k m"
  by (simp add: resize_def min_def)

lemma take_Suc_update: "i < length m \<Longrightarrow> take i m = w \<Longrightarrow> take (Suc i) (m[i := x]) = w @ [x]"
  by (auto simp: take_Suc_conv_app_nth)

lemma buf_string_take:
  "take (Suc (length s)) m = map Some s @ [Some (CHR 0x00)] \<Longrightarrow> CHR 0x00 \<notin> set s \<Longrightarrow> buf_string m = Some s"
proof (induction s arbitrary: m)
  case Nil
  then show ?case by (cases m) auto
next
  case (Cons c s)
  then obtain m' where "m = Some c # m'" by (cases m) auto
  with Cons show ?case by auto
qed

section \<open>Lines\<close>

definition line_of :: "char \<Rightarrow> string \<Rightarrow> string" where
  "line_of delim rest = takeWhile (\<lambda>c. c \<noteq> delim) rest @ (if delim \<in> set rest then [delim] else [])"

lemma line_of_Cons: "line_of d (c # cs) = (if c = d then [d] else c # line_of d cs)"
  by (auto simp: line_of_def)

lemma line_of_Nil [simp]: "line_of d [] = []"
  by (simp add: line_of_def)

lemma line_of_eq_Nil: "line_of d s = [] \<longleftrightarrow> s = []"
  by (cases s) (auto simp: line_of_Cons)

text \<open>The state of the loop: \<open>w\<close> has been read into the first \<open>pos\<close> cells of a buffer of \<open>n\<close>.\<close>

definition gd_inv :: "cells \<Rightarrow> u64 \<Rightarrow> u64 \<Rightarrow> nat \<Rightarrow> string \<Rightarrow> bool" where
  "gd_inv m n avail pos w \<longleftrightarrow>
     length m = unat n \<and> pos \<le> unat n \<and> avail = n - of_nat pos \<and> pos = length w \<and> take pos m = map Some w"

lemma unat_grow:
  assumes "unat n \<le> Suc p" "p < 2 ^ 62"
  shows "unat n + 2 \<le> unat (grow n)"
proof (cases "n > MIN_CHUNK")
  case True
  then have "64 < unat n" by (simp add: MIN_CHUNK_def word_less_nat_alt)
  moreover have "unat (n * 2) = unat n * 2" using assms by (simp add: unat_word_ariths)
  ultimately show ?thesis using True by (simp add: grow_def)
next
  case False
  then have "unat n \<le> 64" by (simp add: MIN_CHUNK_def word_less_nat_alt)
  then have "unat (n + 64) = unat n + 64" by (simp add: unat_word_ariths)
  with False show ?thesis by (simp add: grow_def MIN_CHUNK_def)
qed

lemma unat_avail:
  assumes "pos \<le> unat n"
  shows "unat (n - of_nat pos :: u64) = unat n - pos"
proof -
  have "unat (of_nat pos :: u64) = pos" using assms by (rule le_unat_uoi)
  with assms show ?thesis by (simp add: unat_sub word_le_nat_alt)
qed

lemma gd_grow_inv:
  assumes "gd_inv m n avail pos w" "pos < 2 ^ 62" "\<And>k. alloc k"
  shows "\<exists>m' n' avail'. gd_grow alloc m n avail pos = (Some m', n', avail') \<and>
    gd_inv m' n' avail' pos w \<and> pos + 2 \<le> unat n'"
proof (cases "avail < 2")
  case True
  have inv: "length m = unat n" "pos \<le> unat n" "avail = n - of_nat pos" "pos = length w" "take pos m = map Some w"
    using assms(1) by (auto simp: gd_inv_def)
  have "unat n - pos < 2" using True inv(2) unat_avail [OF inv(2)] by (simp add: inv(3) word_less_nat_alt)
  then have "unat n + 2 \<le> unat (grow n)" using unat_grow [of n pos] assms(2) by simp
  with inv True assms(3) show ?thesis
    by (auto simp: gd_grow_def gd_inv_def take_resize)
next
  case False
  then have "2 \<le> unat n - pos"
    using assms(1) unat_avail [of pos n] by (simp add: gd_inv_def word_less_nat_alt)
  with False assms(1) show ?thesis by (auto simp: gd_grow_def)
qed

text \<open>What a call leaves: the line with its terminator in the buffer, the stream behind it; or a failure.\<close>

definition gd_post :: "char \<Rightarrow> string \<Rightarrow> string \<Rightarrow> bool \<Rightarrow> int \<times> line_buf \<times> stream \<Rightarrow> bool" where
  "gd_post delim w rest err res \<longleftrightarrow>
     (case res of (r, lb, st) \<Rightarrow>
        let l = w @ line_of delim rest in
        st = \<lparr>st_rest = drop (length (line_of delim rest)) rest, st_err = err\<rparr> \<and>
        (\<exists>m. lineptr lb = Some m \<and> length m = unat (lb_n lb) \<and>
           (if l = [] \<or> err \<and> delim \<notin> set rest then r = -1
            else r = int (length l) \<and> take (Suc (length l)) m = map Some l @ [Some (CHR 0x00)])))"

lemma gd_loop_reads:
  assumes "gd_inv m n avail pos w" "pos + length rest < 2 ^ 62" "\<And>k. alloc k"
  shows "\<exists>res. gd_loop alloc delim rest err m n avail pos = Some res \<and> gd_post delim w rest err res"
  using assms(1,2)
proof (induction rest arbitrary: m n avail pos w)
  case Nil
  obtain m' n' avail' where g: "gd_grow alloc m n avail pos = (Some m', n', avail')"
    "gd_inv m' n' avail' pos w" "pos + 2 \<le> unat n'"
    using gd_grow_inv [of m n avail pos w alloc] Nil assms(3) by auto
  have "pos < length m'" "pos = length w" "take pos m' = map Some w" "length m' = unat n'"
    using g(2,3) by (auto simp: gd_inv_def)
  then show ?case
    using g(1) take_Suc_update [of pos m' "map Some w"] by (auto simp: store_Some gd_post_def)
next
  case (Cons c cs)
  obtain m' n' avail' where g: "gd_grow alloc m n avail pos = (Some m', n', avail')"
    "gd_inv m' n' avail' pos w" "pos + 2 \<le> unat n'"
    using gd_grow_inv [of m n avail pos w alloc] Cons.prems assms(3) by auto
  have inv: "Suc pos < length m'" "pos = length w" "take pos m' = map Some w" "length m' = unat n'"
    "avail' = n' - of_nat pos"
    using g(2,3) by (auto simp: gd_inv_def)
  let ?m = "m'[pos := Some c]"
  have t: "take (Suc pos) ?m = map Some w @ [Some c]" using inv by (intro take_Suc_update) auto
  show ?case
  proof (cases "c = delim")
    case True
    have "take (Suc (Suc pos)) (?m[Suc pos := Some (CHR 0x00)]) = (map Some w @ [Some c]) @ [Some (CHR 0x00)]"
      using inv t by (intro take_Suc_update) auto
    with True g(1) inv show ?thesis
      by (auto simp: store_Some gd_post_def line_of_Cons)
  next
    case False
    have "gd_inv ?m n' (avail' - 1) (Suc pos) (w @ [c])"
      using inv t g(3) by (simp add: gd_inv_def)
    from Cons.IH [OF this] Cons.prems(2) obtain res
      where res: "gd_loop alloc delim cs err ?m n' (avail' - 1) (Suc pos) = Some res"
        "gd_post delim (w @ [c]) cs err res" by auto
    have "gd_post delim w (c # cs) err res"
      using res(2) False by (simp add: gd_post_def line_of_Cons)
    with res(1) False g(1) inv show ?thesis by (simp add: store_Some)
  qed
qed

lemma getdelim_post:
  assumes "\<And>k. alloc k" "\<And>m. lineptr lb = Some m \<Longrightarrow> length m = unat (lb_n lb)" "length (st_rest st) < 2 ^ 62"
  shows "\<exists>res. getdelim alloc lb delim st = Some res \<and> gd_post delim [] (st_rest st) (st_err st) res"
proof (cases "lineptr lb")
  case None
  have "gd_inv (replicate (unat MIN_CHUNK) None) MIN_CHUNK MIN_CHUNK 0 []" by (simp add: gd_inv_def)
  from gd_loop_reads [OF this, of "st_rest st" alloc delim "st_err st"] assms(1,3) None show ?thesis
    by (auto simp: getdelim_def)
next
  case (Some m)
  then have "gd_inv m (lb_n lb) (lb_n lb) 0 []" using assms(2) by (simp add: gd_inv_def)
  from gd_loop_reads [OF this, of "st_rest st" alloc delim "st_err st"] assms(1,3) Some show ?thesis
    by (auto simp: getdelim_def)
qed

lemma line_of_append: "line_of delim s @ drop (length (line_of delim s)) s = s"
  by (induction s) (auto simp: line_of_Cons)

text \<open>
  Property C20. With memory available, \<open>getdelim\<close> on any buffer of the size it is told, or none, never writes
  outside the buffer, and on fewer than \<open>2 ^ 62\<close> bytes returns the next line with its delimiter and a terminator
  behind it, its length, and the stream behind the line; only at the end of the input, or when an
  error ends it, does it return -1.
\<close>

theorem getdelim_reads:
  assumes "\<And>k. alloc k" "\<And>m. lineptr lb = Some m \<Longrightarrow> length m = unat (lb_n lb)" "length (st_rest st) < 2 ^ 62"
  shows "\<exists>r lb' m' st'. getdelim alloc lb delim st = Some (r, lb', st') \<and>
    lineptr lb' = Some m' \<and> length m' = unat (lb_n lb') \<and> st_err st' = st_err st \<and>
    st_rest st = line_of delim (st_rest st) @ st_rest st' \<and>
    (if st_rest st = [] \<or> st_err st \<and> delim \<notin> set (st_rest st) then r = -1
     else r = int (length (line_of delim (st_rest st))) \<and>
       take (Suc (length (line_of delim (st_rest st)))) m' = map Some (line_of delim (st_rest st)) @ [Some (CHR 0x00)])"
  using getdelim_post [of alloc lb st delim, OF assms] line_of_append
  by (auto simp: gd_post_def Let_def line_of_eq_Nil split: prod.splits if_splits)

theorem getdelim_reads_witness:
  "\<exists>r lb' m' st'. getdelim (\<lambda>_. True) \<lparr>lineptr = Some [None], lb_n = 1\<rparr> (CHR '':'') \<lparr>st_rest = ''ab:c'', st_err = False\<rparr> =
      Some (r, lb', st') \<and> lineptr lb' = Some m' \<and> r = 3 \<and> take (Suc 3) m' = map Some ''ab:'' @ [Some (CHR 0x00)] \<and>
      st_rest st' = ''c''"
  using getdelim_reads [of "\<lambda>_. True" "\<lparr>lineptr = Some [None], lb_n = 1\<rparr>" "\<lparr>st_rest = ''ab:c'', st_err = False\<rparr>" "CHR '':''"]
  by (auto simp: line_of_def numeral_3_eq_3)

section \<open>Line files\<close>

function lines_of :: "string \<Rightarrow> string list" where
  "lines_of s =
     (if s = [] then []
      else takeWhile (\<lambda>c. c \<noteq> CHR 0x0A) s # lines_of (drop (length (line_of (CHR 0x0A) s)) s))"
  by auto
termination
proof (relation "measure length")
  fix s :: string assume "s \<noteq> []"
  then have "line_of (CHR 0x0A) s \<noteq> []" by (simp add: line_of_eq_Nil)
  with \<open>s \<noteq> []\<close> show "(drop (length (line_of (CHR 0x0A) s)) s, s) \<in> measure length" by simp
qed simp

declare lines_of.simps [simp del]

lemma lines_of_append: "CHR 0x0A \<notin> set l \<Longrightarrow> lines_of (l @ CHR 0x0A # s) = l # lines_of s"
proof -
  assume "CHR 0x0A \<notin> set l"
  then have "takeWhile (\<lambda>c. c \<noteq> CHR 0x0A) (l @ CHR 0x0A # s) = l"
    by (subst takeWhile_append2) auto
  then show ?thesis by (subst lines_of.simps) (simp add: line_of_def)
qed

lemma lines_of_concat:
  "\<forall>l \<in> set ls. CHR 0x0A \<notin> set l \<Longrightarrow> lines_of (concat (map (\<lambda>l. l @ [CHR 0x0A]) ls)) = ls"
proof (induction ls)
  case Nil
  show ?case by (simp add: lines_of.simps)
qed (simp add: lines_of_append)

lemma length_lines_of: "length (lines_of s) \<le> length s"
proof (induction s rule: lines_of.induct)
  case (1 s)
  show ?case
  proof (cases "s = []")
    case False
    then have "line_of (CHR 0x0A) s \<noteq> []" by (simp add: line_of_eq_Nil)
    then have "length (drop (length (line_of (CHR 0x0A) s)) s) < length s" using False by simp
    with 1 False show ?thesis by (subst lines_of.simps) simp
  qed (simp add: lines_of.simps)
qed

text \<open>Cutting the newline off leaves the line without it as the C string.\<close>

lemma cut_newline_string:
  assumes "s \<noteq> []" "CHR 0x00 \<notin> set s"
    and "take (Suc (length (line_of (CHR 0x0A) s))) m = map Some (line_of (CHR 0x0A) s) @ [Some (CHR 0x00)]"
  shows "buf_string (cut_newline m (length (line_of (CHR 0x0A) s))) = Some (takeWhile (\<lambda>c. c \<noteq> CHR 0x0A) s)"
proof -
  let ?w = "takeWhile (\<lambda>c. c \<noteq> CHR 0x0A) s"
  let ?l = "line_of (CHR 0x0A) s"
  have nul: "CHR 0x00 \<notin> set ?w" using assms(2) by (auto dest: set_takeWhileD)
  have len: "length ?l < length m"
    using arg_cong [OF assms(3), of length] by simp
  have nth: "m ! i = Some (?l ! i)" if "i < length ?l" for i
  proof -
    have "m ! i = take (Suc (length ?l)) m ! i" using that by simp
    then show ?thesis using that by (simp add: assms(3) nth_append)
  qed
  show ?thesis
  proof (cases "CHR 0x0A \<in> set s")
    case True
    then have l: "?l = ?w @ [CHR 0x0A]" by (simp add: line_of_def)
    have "m ! (length ?l - 1) = Some (CHR 0x0A)" using nth [of "length ?w"] by (simp add: l)
    then have "cut_newline m (length ?l) = m[length ?w := Some (CHR 0x00)]" by (simp add: cut_newline_def l)
    moreover have "take (length ?w) m = map Some ?w"
      using arg_cong [OF assms(3), of "take (length ?w)"] by (simp add: l)
    then have "take (Suc (length ?w)) (m[length ?w := Some (CHR 0x00)]) = map Some ?w @ [Some (CHR 0x00)]"
      using len by (intro take_Suc_update) (simp_all add: l)
    ultimately show ?thesis using nul by (simp add: buf_string_take)
  next
    case False
    then have l: "?l = s" "?w = s" by (auto simp: line_of_def takeWhile_eq_all_conv)
    have "s ! (length s - 1) \<in> set s" using assms(1) by (intro nth_mem) simp
    moreover have "m ! (length s - 1) = Some (s ! (length s - 1))"
      using nth [of "length s - 1"] assms(1) l(1) by simp
    ultimately have "m ! (length s - 1) \<noteq> Some (CHR 0x0A)" using False by (metis option.inject)
    then have "cut_newline m (length ?l) = m" by (simp add: cut_newline_def l)
    with assms(2,3) show ?thesis by (simp add: l buf_string_take)
  qed
qed

lemma ftv_loop_reads:
  assumes "\<And>k. alloc k" "length inp < k" "length inp < 2 ^ 62" "CHR 0x00 \<notin> set inp"
    and "vec_inv v" "unat (vsize v) + length (lines_of inp) \<le> 2 ^ 31"
  shows "\<exists>v'. ftv_loop k alloc len \<lparr>st_rest = inp, st_err = False\<rparr> v = Some v' \<and> vec_inv v' \<and>
    vec_elems v' = vec_elems v @ map Some (lines_of inp)"
  using assms(2-6)
proof (induction k arbitrary: inp v len)
  case (Suc k)
  let ?l = "line_of (CHR 0x0A) inp"
  obtain r lb st where g: "getline alloc \<lparr>lineptr = None, lb_n = len\<rparr> \<lparr>st_rest = inp, st_err = False\<rparr> = Some (r, lb, st)"
    "gd_post (CHR 0x0A) [] inp False (r, lb, st)"
    using getdelim_post [of alloc "\<lparr>lineptr = None, lb_n = len\<rparr>" "\<lparr>st_rest = inp, st_err = False\<rparr>" "CHR 0x0A"]
      assms(1) Suc.prems(2) by (auto simp: getline_def)
  show ?case
  proof (cases "inp = []")
    case True
    with g(2) have "r = -1" by (auto simp: gd_post_def)
    with g(1) True Suc.prems(4) show ?thesis by (simp add: lines_of.simps)
  next
    case False
    then have ne: "?l \<noteq> []" by (simp add: line_of_eq_Nil)
    with g(2) obtain m where m: "lineptr lb = Some m" "r = int (length ?l)" "st = \<lparr>st_rest = drop (length ?l) inp, st_err = False\<rparr>"
      "take (Suc (length ?l)) m = map Some ?l @ [Some (CHR 0x00)]"
      by (auto simp: gd_post_def Let_def)
    have c: "buf_string (cut_newline m (nat r)) = Some (takeWhile (\<lambda>c. c \<noteq> CHR 0x0A) inp)"
      using cut_newline_string [OF False Suc.prems(3) m(4)] by (simp add: m(2))
    have lines: "lines_of inp = takeWhile (\<lambda>c. c \<noteq> CHR 0x0A) inp # lines_of (drop (length ?l) inp)"
      using False by (subst lines_of.simps) simp
    have "unat (vsize v) < 2 ^ 31" using Suc.prems(5) lines by simp
    with Suc.prems(4) obtain v1 where v1: "vec_push_back v (Some (takeWhile (\<lambda>c. c \<noteq> CHR 0x0A) inp)) = Some v1"
      "vec_inv v1" "vec_elems v1 = vec_elems v @ [Some (takeWhile (\<lambda>c. c \<noteq> CHR 0x0A) inp)]"
      "unat (vsize v1) = Suc (unat (vsize v))"
      by (rule vec_push_back_Some)
    have "length (drop (length ?l) inp) < length inp" using ne False by simp
    moreover have "CHR 0x00 \<notin> set (drop (length ?l) inp)" using Suc.prems(3) by (meson in_set_dropD)
    ultimately obtain v' where "ftv_loop k alloc (lb_n lb) \<lparr>st_rest = drop (length ?l) inp, st_err = False\<rparr> v1 = Some v'"
      "vec_inv v'" "vec_elems v' = vec_elems v1 @ map Some (lines_of (drop (length ?l) inp))"
      using Suc.IH [of "drop (length ?l) inp" v1 "lb_n lb"] Suc.prems(1,2,5) v1(2,4) lines by auto
    with g(1) m c v1 lines show ?thesis by simp
  qed
qed simp

text \<open>
  Property C21. A vector of lines written to a file with \<open>vector_to_file\<close> and read into an empty vector with
  \<open>file_to_vector\<close> comes back unchanged, if no line has a newline or a null character in it.
\<close>

theorem line_file_roundtrip:
  assumes "\<And>k. alloc k" "vec_elems v = map Some ls"
    and "\<And>l. l \<in> set ls \<Longrightarrow> CHR 0x0A \<notin> set l \<and> CHR 0x00 \<notin> set l"
    and "length (concat (map (\<lambda>l. l @ [CHR 0x0A]) ls)) < 2 ^ 31"
  shows "\<exists>v'. file_to_vector alloc (snd (vector_to_file True name v fs)) name vec_init = Some (0, v') \<and>
    vec_inv v' \<and> vec_elems v' = map Some ls"
proof -
  let ?t = "concat (map (\<lambda>l. l @ [CHR 0x0A]) ls)"
  have t: "snd (vector_to_file True name v fs) name = Some ?t"
    by (simp add: vector_to_file_def assms(2) comp_def)
  have lines: "lines_of ?t = ls" using assms(3) by (simp add: lines_of_concat)
  have nul: "CHR 0x00 \<notin> set ?t" using assms(3) by auto
  have "unat (vsize (vec_init :: string vector)) + length (lines_of ?t) \<le> 2 ^ 31"
    using length_lines_of [of ?t] assms(4) by (simp add: vec_init_def)
  from ftv_loop_reads [of alloc ?t "Suc (length ?t)" vec_init 0, OF assms(1) _ _ nul vec_inv_init this] assms(4) t lines
  show ?thesis by (auto simp: file_to_vector_def)
qed

lemma demo_room: "unat (vsize vec_init) + length [''ab'', [], ''c''] \<le> 2 ^ 31"
  by (simp add: vec_init_def)

theorem line_file_roundtrip_witness:
  "\<exists>v v'. vec_push_args vec_init [''ab'', [], ''c''] = Some v \<and>
     file_to_vector (\<lambda>_. True) (snd (vector_to_file True ''f'' v (\<lambda>_. None))) ''f'' vec_init = Some (0, v') \<and>
     vec_elems v' = [Some ''ab'', Some [], Some ''c'']"
proof -
  obtain v where v: "vec_push_args vec_init [''ab'', [], ''c''] = Some v"
    "vec_elems v = map Some [''ab'', [], ''c'']"
    using vec_push_args_Some [OF vec_inv_init, of "[''ab'', [], ''c'']"]
    by (metis add_0 append_Nil demo_room vec_elems_init)
  have "\<exists>v'. file_to_vector (\<lambda>_. True) (snd (vector_to_file True ''f'' v (\<lambda>_. None))) ''f'' vec_init = Some (0, v') \<and>
    vec_inv v' \<and> vec_elems v' = map Some [''ab'', [], ''c'']"
    by (rule line_file_roundtrip [OF _ v(2)]) auto
  with v(1) show ?thesis by auto
qed

section \<open>Reading to the end\<close>

lemma store_list_Some:
  assumes "i + length s \<le> length m" "take i m = w"
  shows "\<exists>m'. store_list m i s = Some m' \<and> length m' = length m \<and> take (i + length s) m' = w @ map Some s"
  using assms
proof (induction s arbitrary: m i w)
  case (Cons c s)
  have i: "i < length m" using Cons.prems(1) by simp
  have "take (Suc i) (m[i := Some c]) = w @ [Some c]" using take_Suc_update [OF i Cons.prems(2)] .
  from Cons.IH [OF _ this] Cons.prems(1) show ?case by (auto simp: store_Some i)
qed simp

lemma sfr_loop_collects:
  assumes "\<forall>c \<in> set chunks. c \<noteq> [] \<and> length c \<le> TMP_SIZE" "length buf = cap" "sz \<le> cap" "TMP_SIZE \<le> cap"
    and "take sz buf = map Some w" "sz = length w"
  shows "\<exists>buf'. sfr_loop chunks buf sz cap = Some (buf', sz + length (concat chunks)) \<and>
    take (sz + length (concat chunks)) buf' = map Some (w @ concat chunks)"
  using assms
proof (induction chunks arbitrary: buf sz cap w)
  case (Cons c cs)
  define cap' where "cap' = (if sz + length c > cap then cap * 2 else cap)"
  define b where "b = (if sz + length c > cap then resize buf cap' else buf)"
  have c: "c \<noteq> []" "length c \<le> TMP_SIZE" using Cons.prems(1) by simp_all
  have b: "length b = cap'" "take sz b = map Some w"
    using Cons.prems(2,3,5) by (auto simp: b_def cap'_def take_resize)
  have room: "sz + length c \<le> cap'" "TMP_SIZE \<le> cap'"
    using c(2) Cons.prems(3,4) by (auto simp: cap'_def)
  obtain b' where b': "store_list b sz c = Some b'" "length b' = cap'" "take (sz + length c) b' = map Some (w @ c)"
    using store_list_Some [of sz c b "map Some w"] b room(1) by auto
  have "\<exists>buf'. sfr_loop cs b' (sz + length c) cap' = Some (buf', sz + length c + length (concat cs)) \<and>
      take (sz + length c + length (concat cs)) buf' = map Some ((w @ c) @ concat cs)"
    by (rule Cons.IH) (use Cons.prems(1,6) b' room in auto)
  then show ?case
    using c(1) b'(1) by (auto simp: Let_def b_def [symmetric] cap'_def [symmetric] add.assoc)
qed simp

text \<open>
  \<open>stream_full_read\<close> collects everything that the calls of \<open>read\<close> deliver, in order: one doubling of the
  capacity is always enough for the next chunk, so nothing is written outside the buffer.
\<close>

theorem stream_full_read_collects:
  assumes "\<forall>c \<in> set chunks. c \<noteq> [] \<and> length c \<le> TMP_SIZE"
  shows "\<exists>buf. stream_full_read chunks = Some (buf, length (concat chunks)) \<and>
    take (length (concat chunks)) buf = map Some (concat chunks)"
  using sfr_loop_collects [OF assms, of "replicate (2 ^ 20) None" "2 ^ 20" 0 "[]"]
  by (simp add: stream_full_read_def TMP_SIZE_def)

theorem stream_full_read_collects_witness:
  "\<exists>buf. stream_full_read [''ab'', ''c''] = Some (buf, 3) \<and> take 3 buf = map Some ''abc''"
  using stream_full_read_collects [of "[''ab'', ''c'']"] by (simp add: TMP_SIZE_def numeral_3_eq_3)

section \<open>Reading a line from a descriptor\<close>

lemma unat_minus_1: "1 < unat (sz :: u64) \<Longrightarrow> unat (sz - 1) = unat sz - 1"
  using unat_minus_one [of sz] by fastforce

lemma fdgets_lt:
  assumes "len + 1 < unat (sz :: u64)"
  shows "(of_nat len :: u64) < sz - 1"
proof -
  have "unat (of_nat len :: u64) = len" using assms by (intro le_unat_uoi [of _ sz]) simp
  with assms unat_minus_1 [of sz] show ?thesis by (simp add: word_less_nat_alt)
qed

lemma fdgets_loop_text:
  assumes "length m = unat sz" "len + length s + 1 < unat sz" "CHR 0x00 \<notin> set s" "CHR 0x0A \<notin> set s"
  shows "fdgets_loop sz (map Byte s @ rest) m len =
    fdgets_loop sz rest (take len m @ map Some s @ drop (len + length s) m) (len + length s)"
  using assms
proof (induction s arbitrary: m len)
  case (Cons c s)
  have lt: "(of_nat len :: u64) < sz - 1" using Cons.prems(2) by (intro fdgets_lt) simp
  have "store m len c = Some (m[len := Some c])" using Cons.prems(1,2) by (intro store_Some) simp
  then have "fdgets_loop sz (map Byte (c # s) @ rest) m len = fdgets_loop sz (map Byte s @ rest) (m[len := Some c]) (Suc len)"
    using lt Cons.prems(3,4) by (subst fdgets_loop.simps) auto
  also have "\<dots> = fdgets_loop sz rest (take (Suc len) (m[len := Some c]) @ map Some s @ drop (Suc len + length s) (m[len := Some c]))
      (Suc len + length s)"
    using Cons.prems by (intro Cons.IH) auto
  also have "take (Suc len) (m[len := Some c]) = take len m @ [Some c]"
    using Cons.prems(1,2) by (intro take_Suc_update) auto
  finally show ?case by simp
qed simp

lemma fdgets_text:
  assumes "length buf = unat sz" "length s + 2 < unat sz" "s \<noteq> []" "CHR 0x00 \<notin> set s" "CHR 0x0A \<notin> set s"
  shows "fdgets buf sz (map Byte s @ rest) =
    fdgets_loop sz rest (map Some s @ drop (length s) buf) (length s)"
proof -
  have "drop (length s) (buf[0 := Some (CHR 0x00)]) = drop (length s) buf"
    using assms(3) by (cases s; cases buf) auto
  with fdgets_loop_text [of "buf[0 := Some (CHR 0x00)]" sz 0 s rest] assms show ?thesis
    by (simp add: fdgets_def store_Some)
qed

text \<open>
  \<open>fdgets\<close> returns a line that ends in a newline and fits, as a string with its length. Where
  the input ends without a newline it leaves the cell behind the text as it was: the buffer is not a string.
\<close>

theorem fdgets_reads:
  assumes "length buf = unat sz" "length s + 2 < unat sz" "s \<noteq> []" "CHR 0x00 \<notin> set s" "CHR 0x0A \<notin> set s"
  shows "(\<exists>m. fdgets buf sz (map Byte s @ Byte (CHR 0x0A) # rest) = Some (int (length s) + 1, m) \<and>
        buf_string m = Some (s @ [CHR 0x0A])) \<and>
     (\<exists>m. fdgets buf sz (map Byte s @ Eof # rest) = Some (int (length s), m) \<and>
        take (length s) m = map Some s \<and> m ! length s = buf ! length s)"
proof -
  let ?m = "map Some s @ drop (length s) buf"
  let ?n = "length s"
  have len: "length ?m = unat sz" using assms(1,2) by simp
  have lt: "(of_nat ?n :: u64) < sz - 1" using assms(2) by (intro fdgets_lt) simp
  have last: "unat (sz - 1) = unat sz - 1" using assms(2) by (intro unat_minus_1) simp
  define m where "m = ?m[?n := Some (CHR 0x0A), Suc ?n := Some (CHR 0x00), unat sz - 1 := Some (CHR 0x00)]"
  have "fdgets buf sz (map Byte s @ Byte (CHR 0x0A) # rest) = Some (int ?n + 1, m)"
    using fdgets_text [OF assms] lt last len assms(2) by (subst (asm) fdgets_loop.simps) (simp add: store_Some m_def)
  moreover have "take (Suc (Suc ?n)) (?m[?n := Some (CHR 0x0A), Suc ?n := Some (CHR 0x00)]) =
      map Some (s @ [CHR 0x0A]) @ [Some (CHR 0x00)]"
    using len assms(2) take_Suc_update [of ?n ?m "map Some s" "Some (CHR 0x0A)"]
    by (intro take_Suc_update) simp_all
  then have "take (Suc (Suc ?n)) m = map Some (s @ [CHR 0x0A]) @ [Some (CHR 0x00)]"
    using assms(2) by (simp add: m_def take_update_cancel)
  then have "buf_string m = Some (s @ [CHR 0x0A])"
    using assms(4) by (intro buf_string_take) simp_all
  moreover have "fdgets buf sz (map Byte s @ Eof # rest) = Some (int ?n, ?m[unat sz - 1 := Some (CHR 0x00)])"
    using fdgets_text [OF assms] lt last len assms(2) by (subst (asm) fdgets_loop.simps) (simp add: store_Some)
  moreover have "take ?n (?m[unat sz - 1 := Some (CHR 0x00)]) = map Some s"
    "(?m[unat sz - 1 := Some (CHR 0x00)]) ! ?n = buf ! ?n"
    using assms(1,2) by (simp_all add: take_update_cancel nth_append)
  ultimately show ?thesis by blast
qed

theorem fdgets_reads_witness:
  "(\<exists>m. fdgets (replicate 8 None) 8 [Byte (CHR ''a''), Byte (CHR 0x0A)] = Some (2, m) \<and> buf_string m = Some [CHR ''a'', CHR 0x0A]) \<and>
   (\<exists>m. fdgets (replicate 8 None) 8 [Byte (CHR ''a''), Eof] = Some (1, m) \<and> m ! 1 = None)"
  using fdgets_reads [of "replicate 8 None" 8 "''a''" "[]"] by auto

section \<open>Programs and text\<close>

text \<open>The argument vector of a command ends in NULL and is read back complete.\<close>

lemma v_exec_command_args:
  assumes "length args < 2 ^ 30"
  shows "v_exec_command err fd pipefd pid found argv0 args =
    Some (exec_array err fd pipefd pid found (argv0 # args))"
proof -
  have sz0: "unat (vsize vec_init) < 2 ^ 31" by (simp add: vec_init_def)
  obtain v0 where v0: "vec_push_back vec_init (Some argv0) = Some v0" "vec_inv v0"
    "vec_elems v0 = [Some argv0]" "unat (vsize v0) = 1"
    using vec_push_back_Some [OF vec_inv_init sz0, of "Some argv0"] by (auto simp: vec_init_def vec_elems_def)
  obtain v1 where v1: "vec_push_args v0 args = Some v1" "vec_inv v1" "vec_elems v1 = Some argv0 # map Some args"
    using vec_push_args_Some [OF v0(2), of args] v0(3,4) assms by auto
  have "unat (vsize v1) < 2 ^ 31" using length_vec_elems [OF v1(2)] v1(3) assms by simp
  with v1(2) obtain v2 where v2: "vec_push_back v1 None = Some v2" "vec_elems v2 = vec_elems v1 @ [None]"
    by (rule vec_push_back_Some)
  have "takeWhile (\<lambda>e. e \<noteq> None) (map Some xs @ [None]) = map Some xs" for xs :: "string list"
    by (induction xs) simp_all
  from this [of "argv0 # args"] show ?thesis
    using v0 v1 v2 by (simp add: v_exec_command_def comp_def)
qed

text \<open>A program that a signal has killed is reported as one that returned 0.\<close>

lemma killed_reports_success:
  assumes "0 \<le> pid" "0 < sig" "sig < 127" "length args < 2 ^ 30"
  shows "exec_command_sync pid found sig argv0 args = Some 0"
proof -
  have "sig AND 0xFF00 = 0"
  proof -
    have "take_bit 7 sig = sig" using assms(2,3) by (simp add: take_bit_eq_mod)
    then have "sig AND 0xFF00 = sig AND (mask 7 AND 0xFF00)"
      by (metis and.assoc and.commute take_bit_eq_mask)
    also have "mask 7 AND (0xFF00 :: int) = 0" by (simp add: mask_eq_exp_minus_1)
    finally show ?thesis by simp
  qed
  with assms(1) show ?thesis
    by (auto simp: exec_command_sync_def v_exec_command_args [OF assms(4)] WEXITSTATUS_def exec_array_def)
qed

text \<open>\<open>strend\<close> tests for a suffix, and reads before its first argument if that is the shorter one.\<close>

lemma strend_suffix:
  "strend s1 s2 = Some 0 \<longleftrightarrow> (\<exists>t. s1 = t @ s2)" "strend s1 s2 = None \<longleftrightarrow> length s1 < length s2"
proof -
  show "strend s1 s2 = Some 0 \<longleftrightarrow> (\<exists>t. s1 = t @ s2)"
    by (auto simp: strend_def intro!: exI [of _ "take (length s1 - length s2) s1"])
       (metis append_take_drop_id)
  show "strend s1 s2 = None \<longleftrightarrow> length s1 < length s2" by (simp add: strend_def)
qed

text \<open>
  The name in \<open>comm\<close> ends in a newline, so it never matches a name without one; and a program whose path is
  as long as the buffer makes \<open>xreadlink\<close> write one byte behind it.
\<close>

lemma check_proc_comm_useless:
  assumes "p_comm p = Some (c @ [CHR 0x0A])" "length c < 126" "CHR 0x0A \<notin> set c" "CHR 0x00 \<notin> set c" "CHR 0x0A \<notin> set name"
    and "p_cmdline p = Some cmd" "basename (fgets_line (proc_path pid ''cmdline'') cmd) \<noteq> name"
  shows "check_proc_name p pid name =
    (case p_exe p of
       None \<Rightarrow> Some False
     | Some exe \<Rightarrow> if 128 \<le> length exe then None else Some (basename exe = name))"
proof -
  have "fgets_line buf (c @ [CHR 0x0A]) = c @ [CHR 0x0A]" for buf
  proof -
    have "takeWhile (\<lambda>x. x \<noteq> CHR 0x0A) (c @ [CHR 0x0A]) = c"
      using assms(3) by (subst takeWhile_append2) auto
    moreover have "takeWhile (\<lambda>x. x \<noteq> CHR 0x00) (c @ [CHR 0x0A]) = c @ [CHR 0x0A]"
      using assms(4) by (subst takeWhile_append2) auto
    moreover note assms(2)
    ultimately show ?thesis by (simp add: fgets_line_def)
  qed
  moreover have "c @ [CHR 0x0A] \<noteq> name" using assms(5) by auto
  ultimately show ?thesis
    using assms(1,6,7) by (auto simp: check_proc_name_def xreadlink_def split: option.split)
qed

text \<open>
  Every character of a random string is one of the 64 of the table, and each of them stands for four bytes.
\<close>

lemma gen_rand_str_chars:
  assumes "0 < len" "len \<le> Suc (length random)"
  shows "\<exists>s. gen_rand_str random len = Some (map Some s @ [Some (CHR 0x00)]) \<and> length s = len - 1 \<and> set s \<subseteq> set base_chars"
proof -
  let ?s = "map (\<lambda>c. base_chars ! (of_char c mod length base_chars)) (take (len - 1) random)"
  have "gen_rand_str random len = Some (map Some ?s @ [Some (CHR 0x00)])"
    using assms(1) by (simp add: gen_rand_str_def)
  moreover have "length base_chars = 64" by (simp add: base_chars_def)
  then have "base_chars ! (of_char c mod length base_chars) \<in> set base_chars" for c
    by (intro nth_mem) simp
  ultimately show ?thesis using assms(2) by (intro exI [of _ ?s]) auto
qed

text \<open>At the end of a file, \<open>write_zero\<close> appends zeros; in front of it, it cuts the file and keeps what is there.\<close>

lemma write_zero_end: "write_zero data (length data) n = (data @ replicate n (CHR 0x00), length data + n)"
  by (simp add: write_zero_def)

lemma write_zero_inside: "pos + n \<le> length data \<Longrightarrow> write_zero data pos n = (take (pos + n) data, pos + n)"
  by (simp add: write_zero_def)

end
