(* ===== verification/Gnss_Convert.thy ===== *)
theory Gnss_Convert
  imports Complex_Main Prelude
begin

text \<open>
  The conversions of the location service, \<open>hardware/gnss\<close>: from the structures of the library of
  the vendor (\<open>include/hardware/gps.h\<close>) to those of the HIDL interface. Floating-point values are only copied or
  negated; they are reals here. The sizes of the arrays are those of the header; an access outside of an
  array is \<^const>\<open>None\<close>. The enumeration constants are those of \<open>include/hardware/gnss-base.h\<close>, which is generated from the
  HIDL interface; fused locations are declared outside of the repository, so their flags are arguments.
\<close>

section \<open>Locations\<close>

record gps_location =
  gl_flags :: "16 word"
  gl_latitude :: real
  gl_longitude :: real
  gl_altitude :: real
  gl_speed :: real
  gl_bearing :: real
  gl_accuracy :: real
  gl_timestamp :: int

record gnss_location =
  gnssLocationFlags :: "16 word"
  latitudeDegrees :: real
  longitudeDegrees :: real
  altitudeMeters :: real
  speedMetersPerSec :: real
  bearingDegrees :: real
  horizontalAccuracyMeters :: real
  verticalAccuracyMeters :: real
  speedAccuracyMetersPerSecond :: real
  bearingAccuracyDegrees :: real
  location_timestamp :: int

definition no_location :: gnss_location where
  "no_location =
     \<lparr>gnssLocationFlags = 0, latitudeDegrees = 0, longitudeDegrees = 0, altitudeMeters = 0,
      speedMetersPerSec = 0, bearingDegrees = 0, horizontalAccuracyMeters = 0,
      verticalAccuracyMeters = 0, speedAccuracyMetersPerSecond = 0, bearingAccuracyDegrees = 0,
      location_timestamp = 0\<rparr>"

definition convertToGnssLocation :: "gps_location option \<Rightarrow> gnss_location" where
  "convertToGnssLocation l =
     (case l of
        None \<Rightarrow> no_location
      | Some g \<Rightarrow>
          \<lparr>gnssLocationFlags = gl_flags g AND 0x1F, latitudeDegrees = gl_latitude g,
           longitudeDegrees = gl_longitude g, altitudeMeters = gl_altitude g,
           speedMetersPerSec = gl_speed g, bearingDegrees = gl_bearing g,
           horizontalAccuracyMeters = gl_accuracy g, verticalAccuracyMeters = 0,
           speedAccuracyMetersPerSecond = 0, bearingAccuracyDegrees = 0,
           location_timestamp = gl_timestamp g\<rparr>)"

text \<open>The bits of the flags of a fused location, in the order of the tests.\<close>

record flp_masks =
  FLP_LOCATION_HAS_LAT_LONG :: "16 word"
  FLP_LOCATION_HAS_ALTITUDE :: "16 word"
  FLP_LOCATION_HAS_SPEED :: "16 word"
  FLP_LOCATION_HAS_BEARING :: "16 word"
  FLP_LOCATION_HAS_ACCURACY :: "16 word"

definition flp_flags :: "flp_masks \<Rightarrow> 16 word \<Rightarrow> 16 word" where
  "flp_flags k f =
     (if f AND FLP_LOCATION_HAS_LAT_LONG k \<noteq> 0 then 1 else 0) OR
     (if f AND FLP_LOCATION_HAS_ALTITUDE k \<noteq> 0 then 2 else 0) OR
     (if f AND FLP_LOCATION_HAS_SPEED k \<noteq> 0 then 4 else 0) OR
     (if f AND FLP_LOCATION_HAS_BEARING k \<noteq> 0 then 8 else 0) OR
     (if f AND FLP_LOCATION_HAS_ACCURACY k \<noteq> 0 then 16 else 0)"

record flp_location = gps_location +
  fl_sources :: u32

definition convertFlpLocation :: "flp_masks \<Rightarrow> flp_location option \<Rightarrow> gnss_location" where
  "convertFlpLocation k l =
     (case l of
        None \<Rightarrow> no_location
      | Some g \<Rightarrow>
          \<lparr>gnssLocationFlags = flp_flags k (gl_flags g), latitudeDegrees = gl_latitude g,
           longitudeDegrees = gl_longitude g, altitudeMeters = gl_altitude g,
           speedMetersPerSec = gl_speed g, bearingDegrees = gl_bearing g,
           horizontalAccuracyMeters = gl_accuracy g, verticalAccuracyMeters = 0,
           speedAccuracyMetersPerSecond = 0, bearingAccuracyDegrees = 0,
           location_timestamp = gl_timestamp g\<rparr>)"

section \<open>Satellites\<close>

datatype constellation = UNKNOWN | GPS | SBAS | GLONASS | QZSS | BEIDOU | GALILEO

text \<open>Arrays of \<open>GPS_MAX_SVS\<close> and \<open>GNSS_MAX_SVS\<close> entries; \<open>GnssMax::SVS_COUNT\<close> is the latter.\<close>

definition GPS_MAX_SVS :: nat where "GPS_MAX_SVS = 32"
definition SVS_COUNT :: nat where "SVS_COUNT = 64"

record gps_sv_info =
  gs_prn :: int
  gs_snr :: real
  gs_elevation :: real
  gs_azimuth :: real

record gps_sv_status =
  gss_num_svs :: int
  gss_list :: "gps_sv_info list"
  gss_ephemeris_mask :: u32
  gss_almanac_mask :: u32
  gss_used_in_fix_mask :: u32

record gnss_sv_info =
  sv_svid :: int
  sv_constellation :: constellation
  sv_cN0Dbhz :: real
  sv_elevation :: real
  sv_azimuth :: real
  sv_flag :: u8
  sv_carrierFrequencyHz :: real

definition to_i16 :: "int \<Rightarrow> int" where
  "to_i16 x = signed_take_bit 15 x"

text \<open>The number of entries, an \<open>int\<close> taken as \<open>uint32_t\<close>, clamped.\<close>

definition clamp_svs :: "int \<Rightarrow> nat" where
  "clamp_svs n = min (unat (word_of_int n :: u32)) SVS_COUNT"

definition GLONASS_SVID_OFFSET :: int where "GLONASS_SVID_OFFSET = 64"
definition GLONASS_SVID_COUNT :: int where "GLONASS_SVID_COUNT = 24"
definition BEIDOU_SVID_OFFSET :: int where "BEIDOU_SVID_OFFSET = 200"
definition BEIDOU_SVID_COUNT :: int where "BEIDOU_SVID_COUNT = 35"
definition SBAS_SVID_MIN :: int where "SBAS_SVID_MIN = 33"
definition SBAS_SVID_MAX :: int where "SBAS_SVID_MAX = 64"
definition SBAS_SVID_ADD :: int where "SBAS_SVID_ADD = 87"
definition QZSS_SVID_MIN :: int where "QZSS_SVID_MIN = 193"
definition QZSS_SVID_MAX :: int where "QZSS_SVID_MAX = 200"

lemmas svid_values = GLONASS_SVID_OFFSET_def GLONASS_SVID_COUNT_def BEIDOU_SVID_OFFSET_def
  BEIDOU_SVID_COUNT_def SBAS_SVID_MIN_def SBAS_SVID_MAX_def SBAS_SVID_ADD_def QZSS_SVID_MIN_def QZSS_SVID_MAX_def

definition sv_class :: "int \<Rightarrow> constellation \<times> int" where
  "sv_class svid =
     (if svid \<ge> 1 \<and> svid \<le> 32 then (GPS, svid)
      else if svid > GLONASS_SVID_OFFSET \<and> svid \<le> GLONASS_SVID_OFFSET + GLONASS_SVID_COUNT
      then (GLONASS, svid - GLONASS_SVID_OFFSET)
      else if svid > BEIDOU_SVID_OFFSET \<and> svid \<le> BEIDOU_SVID_OFFSET + BEIDOU_SVID_COUNT
      then (BEIDOU, svid - BEIDOU_SVID_OFFSET)
      else if svid \<ge> SBAS_SVID_MIN \<and> svid \<le> SBAS_SVID_MAX then (SBAS, svid + SBAS_SVID_ADD)
      else if svid \<ge> QZSS_SVID_MIN \<and> svid \<le> QZSS_SVID_MAX then (QZSS, svid)
      else (UNKNOWN, svid))"

text \<open>The flags: ephemeris 1, almanac 2, used in fix 4; the masks have one bit for each GPS satellite.\<close>

definition gps_sv_flag :: "gps_sv_status \<Rightarrow> constellation \<times> int \<Rightarrow> u8" where
  "gps_sv_flag st cs =
     (if fst cs = GPS
      then let svidMask = push_bit (nat (snd cs - 1)) 1 :: u32
           in (if gss_ephemeris_mask st AND svidMask \<noteq> 0 then 1 else 0) OR
              (if gss_almanac_mask st AND svidMask \<noteq> 0 then 2 else 0) OR
              (if gss_used_in_fix_mask st AND svidMask \<noteq> 0 then 4 else 0)
      else 0)"

definition convert_gps_sv :: "gps_sv_status \<Rightarrow> gps_sv_info \<Rightarrow> gnss_sv_info" where
  "convert_gps_sv st s =
     (let cs = sv_class (to_i16 (gs_prn s))
      in \<lparr>sv_svid = snd cs, sv_constellation = fst cs, sv_cN0Dbhz = gs_snr s, sv_elevation = gs_elevation s,
          sv_azimuth = gs_azimuth s, sv_flag = gps_sv_flag st cs, sv_carrierFrequencyHz = 0\<rparr>)"

text \<open>The first \<open>n\<close> entries of an array.\<close>

definition read_array :: "nat \<Rightarrow> 'a list \<Rightarrow> 'a list option" where
  "read_array n xs = (if n \<le> length xs then Some (take n xs) else None)"

text \<open>
  \<open>gpsSvStatusCb\<close>: the list that is sent to the client. \<open>carrierFrequencyHz\<close> is not written by this function; the entry of the
  model has zero there.
\<close>

definition gps_sv_status_list :: "gps_sv_status \<Rightarrow> gnss_sv_info list option" where
  "gps_sv_status_list st =
     map_option (map (convert_gps_sv st)) (read_array (clamp_svs (gss_num_svs st)) (gss_list st))"

record legacy_sv_info =
  ls_svid :: int
  ls_constellation :: constellation
  ls_c_n0_dbhz :: real
  ls_elevation :: real
  ls_azimuth :: real
  ls_flags :: u8

record gnss_sv_status =
  gns_num_svs :: int
  gns_list :: "legacy_sv_info list"

definition HAS_CARRIER_FREQUENCY :: u8 where "HAS_CARRIER_FREQUENCY = 8"

definition convert_gnss_sv :: "legacy_sv_info \<Rightarrow> gnss_sv_info" where
  "convert_gnss_sv s =
     \<lparr>sv_svid = ls_svid s, sv_constellation = ls_constellation s, sv_cN0Dbhz = ls_c_n0_dbhz s,
      sv_elevation = ls_elevation s, sv_azimuth = ls_azimuth s,
      sv_flag = ls_flags s AND NOT HAS_CARRIER_FREQUENCY, sv_carrierFrequencyHz = 0\<rparr>"

definition gnss_sv_status_list :: "gnss_sv_status \<Rightarrow> gnss_sv_info list option" where
  "gnss_sv_status_list st =
     map_option (map convert_gnss_sv) (read_array (clamp_svs (gns_num_svs st)) (gns_list st))"

section \<open>Measurements\<close>

text \<open>The fields that the conversions read, with the names of the header.\<close>

record measurement =
  m_flags :: u32
  m_svid :: int
  m_constellation :: constellation
  m_time_offset_ns :: real
  m_state :: u32
  m_received_time :: int
  m_received_time_uncertainty :: int
  m_c_n0_dbhz :: real
  m_pseudorange_rate_mps :: real
  m_pseudorange_rate_uncertainty_mps :: real
  m_adr_state :: "16 word"
  m_adr_m :: real
  m_adr_uncertainty_m :: real
  m_carrier_frequency_hz :: real
  m_carrier_cycles :: int
  m_carrier_phase :: real
  m_carrier_phase_uncertainty :: real
  m_multipath_indicator :: u8
  m_snr_db :: real

definition STATE_TOW_DECODED :: u32 where "STATE_TOW_DECODED = 8"
definition STATE_TOW_KNOWN :: u32 where "STATE_TOW_KNOWN = 0x4000"
definition STATE_GLO_TOD_DECODED :: u32 where "STATE_GLO_TOD_DECODED = 0x80"
definition STATE_GLO_TOD_KNOWN :: u32 where "STATE_GLO_TOD_KNOWN = 0x8000"

definition known_state :: "u32 \<Rightarrow> u32" where
  "known_state s =
     (let s1 = (if s AND STATE_TOW_DECODED \<noteq> 0 then s OR STATE_TOW_KNOWN else s)
      in if s1 AND STATE_GLO_TOD_DECODED \<noteq> 0 then s1 OR STATE_GLO_TOD_KNOWN else s1)"

definition convert_gnss_measurement :: "measurement \<Rightarrow> measurement" where
  "convert_gnss_measurement e = e\<lparr>m_state := known_state (m_state e)\<rparr>"

text \<open>
  A measurement of the old kind has a \<open>prn\<close> of 8 bits in place of \<open>m_svid\<close> and no constellation. \<open>carrierCycles\<close> is never
  written: \<open>junk\<close> is what the structure held.
\<close>

definition convert_gps_measurement :: "int \<Rightarrow> measurement \<Rightarrow> measurement" where
  "convert_gps_measurement junk e =
     e\<lparr>m_constellation := (if m_svid e \<ge> 1 \<and> m_svid e \<le> 32 then GPS else UNKNOWN),
       m_carrier_frequency_hz := (if m_flags e AND 512 \<noteq> 0 then m_carrier_frequency_hz e else 0),
       m_carrier_cycles := junk,
       m_carrier_phase := (if m_flags e AND 2048 \<noteq> 0 then m_carrier_phase e else 0),
       m_carrier_phase_uncertainty := (if m_flags e AND 4096 \<noteq> 0 then m_carrier_phase_uncertainty e else 0),
       m_snr_db := (if m_flags e AND 1 \<noteq> 0 then m_snr_db e else 0)\<rparr>"

text \<open>Clocks; the times are 64-bit words.\<close>

datatype clock_type = CLOCK_UNKNOWN | CLOCK_LOCAL_HW_TIME | CLOCK_GPS_TIME

record gps_clock =
  c_flags :: "16 word"
  c_leap_second :: int
  c_type :: clock_type
  c_time_ns :: u64
  c_time_uncertainty_ns :: real
  c_full_bias_ns :: u64
  c_bias_ns :: real
  c_bias_uncertainty_ns :: real
  c_drift_nsps :: real
  c_drift_uncertainty_nsps :: real

record gnss_clock =
  gc_flags :: "16 word"
  gc_leap_second :: int
  gc_time_ns :: u64
  gc_time_uncertainty_ns :: real
  gc_full_bias_ns :: u64
  gc_bias_ns :: real
  gc_bias_uncertainty_ns :: real
  gc_drift_nsps :: real
  gc_drift_uncertainty_nsps :: real
  gc_discontinuity_count :: "u32 option"

definition GPS_CLOCK_HAS_FULL_BIAS :: "16 word" where "GPS_CLOCK_HAS_FULL_BIAS = 4"

text \<open>
  \<open>count\<close> is the static counter; \<^const>\<open>None\<close> for the discontinuity count means that the field was not written.
\<close>

definition convert_gps_clock :: "u32 \<Rightarrow> gps_clock \<Rightarrow> gnss_clock \<times> u32" where
  "convert_gps_clock count c =
     (let gps = (c_type c = CLOCK_GPS_TIME);
          flags = (if gps then c_flags c OR GPS_CLOCK_HAS_FULL_BIAS else c_flags c);
          full_bias = (if gps then c_time_ns c else c_full_bias_ns c);
          time = (if gps then 0 else c_time_ns c)
      in (\<lparr>gc_flags = flags, gc_leap_second = c_leap_second c, gc_time_ns = time,
           gc_time_uncertainty_ns = c_time_uncertainty_ns c, gc_full_bias_ns = - full_bias,
           gc_bias_ns = - c_bias_ns c, gc_bias_uncertainty_ns = c_bias_uncertainty_ns c,
           gc_drift_nsps = c_drift_nsps c, gc_drift_uncertainty_nsps = c_drift_uncertainty_nsps c,
           gc_discontinuity_count = (if gps then Some count else None)\<rparr>,
          if gps then count + 1 else count))"

record 'c meas_data =
  d_count :: u64
  d_measurements :: "measurement list"
  d_clock :: 'c

definition clamp_count :: "u64 \<Rightarrow> nat" where
  "clamp_count n = min (unat n) SVS_COUNT"

definition convert_gnss_data :: "gnss_clock meas_data \<Rightarrow> (measurement list \<times> gnss_clock) option" where
  "convert_gnss_data d =
     map_option (\<lambda>ms. (map convert_gnss_measurement ms, d_clock d))
       (read_array (clamp_count (d_count d)) (d_measurements d))"

definition convert_gps_data ::
  "int \<Rightarrow> u32 \<Rightarrow> gps_clock meas_data \<Rightarrow> ((measurement list \<times> gnss_clock) \<times> u32) option" where
  "convert_gps_data junk count d =
     map_option (\<lambda>ms. let (c, count') = convert_gps_clock count (d_clock d)
                       in ((map (convert_gps_measurement junk) ms, c), count'))
       (read_array (clamp_count (d_count d)) (d_measurements d))"

section \<open>Properties\<close>

text \<open>The flags that older chipsets set wrongly never get through.\<close>

lemma gps_location_flags: "gnssLocationFlags (convertToGnssLocation l) AND NOT 0x1F = 0"
proof -
  have "(x AND 0x1F) AND NOT 0x1F = 0" for x :: "16 word"
    by (metis and.assoc bit.conj_cancel_right bit.conj_zero_right)
  then show ?thesis
    unfolding convertToGnssLocation_def by (cases l) (simp_all add: no_location_def del: not_numeral_eq)
qed

text \<open>The number that a satellite of a known constellation had.\<close>

definition sv_prn :: "constellation \<Rightarrow> int \<Rightarrow> int" where
  "sv_prn c s = (case c of GLONASS \<Rightarrow> s + 64 | BEIDOU \<Rightarrow> s + 200 | SBAS \<Rightarrow> s - 87 | _ \<Rightarrow> s)"

lemma sv_prn_sv_class: "sv_class p = (c, s) \<Longrightarrow> sv_prn c s = p"
  by (auto simp: sv_class_def svid_values sv_prn_def split: if_splits)

lemma sv_class_values:
  "1 \<le> p \<Longrightarrow> p \<le> 32 \<Longrightarrow> sv_class p = (GPS, p)"
  "64 < p \<Longrightarrow> p \<le> 88 \<Longrightarrow> sv_class p = (GLONASS, p - 64)"
  "200 < p \<Longrightarrow> p \<le> 235 \<Longrightarrow> sv_class p = (BEIDOU, p - 200)"
  "32 < p \<Longrightarrow> p \<le> 64 \<Longrightarrow> sv_class p = (SBAS, p + 87)"
  "193 \<le> p \<Longrightarrow> p \<le> 200 \<Longrightarrow> sv_class p = (QZSS, p)"
  "p < 1 \<or> 88 < p \<and> p < 193 \<or> 235 < p \<Longrightarrow> sv_class p = (UNKNOWN, p)"
  by (auto simp: sv_class_def svid_values)

text \<open>
  The numbers of the satellites of the old interface are split into the numbers of the new one: each
  constellation gets exactly its documented range, and no two satellites of known constellations are confused.
\<close>

theorem sv_class_ranges:
  assumes "sv_class p = (c, s)"
  shows "(c = GPS \<longrightarrow> 1 \<le> s \<and> s \<le> 32) \<and> (c = GLONASS \<longrightarrow> 1 \<le> s \<and> s \<le> 24) \<and>
    (c = BEIDOU \<longrightarrow> 1 \<le> s \<and> s \<le> 35) \<and> (c = SBAS \<longrightarrow> 120 \<le> s \<and> s \<le> 151) \<and>
    (c = QZSS \<longrightarrow> 193 \<le> s \<and> s \<le> 200) \<and> c \<noteq> GALILEO \<and>
    (c = UNKNOWN \<longleftrightarrow> p < 1 \<or> 88 < p \<and> p < 193 \<or> 235 < p) \<and>
    (\<forall>q. c \<noteq> UNKNOWN \<longrightarrow> sv_class q = (c, s) \<longrightarrow> q = p)"
proof -
  have "q = p" if "sv_class q = (c, s)" for q
    using sv_prn_sv_class [OF assms] sv_prn_sv_class [OF that] by simp
  note inj = this
  consider "1 \<le> p" "p \<le> 32" | "64 < p" "p \<le> 88" | "200 < p" "p \<le> 235" | "32 < p" "p \<le> 64" | "193 \<le> p" "p \<le> 200"
    | "p < 1 \<or> 88 < p \<and> p < 193 \<or> 235 < p" by linarith
  then show ?thesis
  proof cases
    case 1
    with assms have "c = GPS" "s = p" by (simp_all add: sv_class_values(1))
    with 1 inj show ?thesis by simp
  next
    case 2
    with assms have "c = GLONASS" "s = p - 64" by (simp_all add: sv_class_values(2))
    with 2 inj show ?thesis by simp
  next
    case 3
    with assms have "c = BEIDOU" "s = p - 200" by (simp_all add: sv_class_values(3))
    with 3 inj show ?thesis by simp
  next
    case 4
    with assms have "c = SBAS" "s = p + 87" by (simp_all add: sv_class_values(4))
    with 4 inj show ?thesis by simp
  next
    case 5
    with assms have "c = QZSS" "s = p" by (simp_all add: sv_class_values(5))
    with 5 inj show ?thesis by simp
  next
    case 6
    with assms have "c = UNKNOWN" by (simp add: sv_class_values(6))
    with 6 show ?thesis by simp
  qed
qed

theorem sv_class_ranges_witness:
  "sv_class 65 = (GLONASS, 1) \<and> (\<forall>q. sv_class q = (GLONASS, 1) \<longrightarrow> q = 65)"
proof -
  have "sv_class 65 = (GLONASS, 1)" by (simp add: sv_class_values(2))
  with sv_class_ranges [OF this] show ?thesis by blast
qed

text \<open>
  Property C39. The old satellite report and the old measurement report have arrays of 32 entries, but the
  numbers of entries are only clamped to 64: a count up to 32 converts every entry in order, a larger one, or a negative count of
  satellites, reads outside of the array.
\<close>

theorem gps_reports_overread:
  assumes "length (gss_list st) = GPS_MAX_SVS" "length (d_measurements d) = GPS_MAX_SVS"
    and "- (2 ^ 31) \<le> gss_num_svs st" "gss_num_svs st < 2 ^ 31"
  shows "gps_sv_status_list st =
      (if 0 \<le> gss_num_svs st \<and> gss_num_svs st \<le> 32
       then Some (map (convert_gps_sv st) (take (nat (gss_num_svs st)) (gss_list st))) else None) \<and>
    (convert_gps_data junk count d = None \<longleftrightarrow> 32 < d_count d)"
proof -
  have n: "unat (word_of_int n :: u32) = nat n" if "0 \<le> n" "n < 2 ^ 31" for n
  proof -
    have "n mod 2 ^ 32 = n" using that by simp
    then show ?thesis by (simp add: unat_eq_nat_uint uint_word_of_int)
  qed
  have neg: "64 < unat (word_of_int n :: u32)" if "- (2 ^ 31) \<le> n" "n < 0" for n
  proof -
    have "(n + 2 ^ 32) mod 2 ^ 32 = n + 2 ^ 32" using that by (intro mod_pos_pos_trivial) auto
    then have "n mod 2 ^ 32 = n + 2 ^ 32" by simp
    then show ?thesis using that by (simp add: unat_eq_nat_uint uint_word_of_int)
  qed
  have "gps_sv_status_list st =
      (if 0 \<le> gss_num_svs st \<and> gss_num_svs st \<le> 32
       then Some (map (convert_gps_sv st) (take (nat (gss_num_svs st)) (gss_list st))) else None)"
    using assms(1,3,4) n [of "gss_num_svs st"] neg [of "gss_num_svs st"]
    by (cases "gss_num_svs st < 0")
       (auto simp: gps_sv_status_list_def read_array_def clamp_svs_def SVS_COUNT_def GPS_MAX_SVS_def min_def)
  moreover have "convert_gps_data junk count d = None \<longleftrightarrow> 32 < d_count d"
    using assms(2)
    by (auto simp: convert_gps_data_def read_array_def clamp_count_def SVS_COUNT_def GPS_MAX_SVS_def word_less_nat_alt)
  ultimately show ?thesis by blast
qed

definition demo_measurement :: measurement where
  "demo_measurement =
     \<lparr>m_flags = 0, m_svid = 1, m_constellation = UNKNOWN, m_time_offset_ns = 0, m_state = 0, m_received_time = 0,
      m_received_time_uncertainty = 0, m_c_n0_dbhz = 0, m_pseudorange_rate_mps = 0,
      m_pseudorange_rate_uncertainty_mps = 0, m_adr_state = 0, m_adr_m = 0, m_adr_uncertainty_m = 0,
      m_carrier_frequency_hz = 0, m_carrier_cycles = 0, m_carrier_phase = 0, m_carrier_phase_uncertainty = 0,
      m_multipath_indicator = 0, m_snr_db = 0\<rparr>"

definition demo_clock :: gps_clock where
  "demo_clock =
     \<lparr>c_flags = 0, c_leap_second = 0, c_type = CLOCK_GPS_TIME, c_time_ns = 0, c_time_uncertainty_ns = 0,
      c_full_bias_ns = 0, c_bias_ns = 0, c_bias_uncertainty_ns = 0, c_drift_nsps = 0, c_drift_uncertainty_nsps = 0\<rparr>"

theorem gps_reports_overread_witness:
  "gps_sv_status_list \<lparr>gss_num_svs = 33, gss_list = replicate 32 \<lparr>gs_prn = 1, gs_snr = 0, gs_elevation = 0, gs_azimuth = 0\<rparr>,
     gss_ephemeris_mask = 0, gss_almanac_mask = 0, gss_used_in_fix_mask = 0\<rparr> = None \<and>
   convert_gps_data 0 0 \<lparr>d_count = 33, d_measurements = replicate 32 demo_measurement, d_clock = demo_clock\<rparr> = None"
proof -
  let ?st = "\<lparr>gss_num_svs = 33, gss_list = replicate 32 \<lparr>gs_prn = 1, gs_snr = 0, gs_elevation = 0, gs_azimuth = 0\<rparr>,
     gss_ephemeris_mask = 0, gss_almanac_mask = 0, gss_used_in_fix_mask = 0\<rparr>"
  let ?d = "\<lparr>d_count = 33, d_measurements = replicate 32 demo_measurement, d_clock = demo_clock\<rparr>"
  show ?thesis using gps_reports_overread [of ?st ?d 0 0] by (simp add: GPS_MAX_SVS_def)
qed

text \<open>
  The clock: hardware time minus full bias is the GPS time that the old structure told, whichever type of clock it had; a
  clock of GPS time gets a new discontinuity count each time.
\<close>

lemma convert_gps_clock_time:
  assumes "convert_gps_clock count c = (g, count')"
  shows "gc_time_ns g - gc_full_bias_ns g =
      (if c_type c = CLOCK_GPS_TIME then c_time_ns c else c_time_ns c + c_full_bias_ns c)"
    "c_type c = CLOCK_GPS_TIME \<Longrightarrow>
       gc_discontinuity_count g = Some count \<and> count' = count + 1 \<and> gc_flags g AND GPS_CLOCK_HAS_FULL_BIAS \<noteq> 0"
proof -
  have "(x OR 4) AND 4 = (4 :: 16 word)" for x
    by (simp add: bit.conj_disj_distrib2 and.commute [of _ 4] bit.conj_disj_distrib)
  with assms show "gc_time_ns g - gc_full_bias_ns g =
      (if c_type c = CLOCK_GPS_TIME then c_time_ns c else c_time_ns c + c_full_bias_ns c)"
    "c_type c = CLOCK_GPS_TIME \<Longrightarrow>
       gc_discontinuity_count g = Some count \<and> count' = count + 1 \<and> gc_flags g AND GPS_CLOCK_HAS_FULL_BIAS \<noteq> 0"
    by (auto simp: convert_gps_clock_def Let_def GPS_CLOCK_HAS_FULL_BIAS_def)
qed

end
