(* ===== verification/Gnss_Service.thy ===== *)
theory Gnss_Service
  imports Gnss_Convert C_Text
begin

text \<open>
  The location service of \<open>hardware/gnss\<close>: the class \<open>Gnss\<close> with its wakelock and its reconnection, and the
  extensions for batching, measurements, navigation messages, geofences, assistance, network initiated requests, extra
  data, configuration and debugging. The state has the static and member variables of all of them, a log of
  the messages to the clients and one of the calls to the library of the vendor. A client is a number, what the
  library returns is an argument. A result \<^const>\<open>None\<close> is an abort, an access outside of an array, or a call through a null pointer.
\<close>

section \<open>State\<close>

datatype extension = E_AGNSS_RIL | E_CONFIGURATION | E_GEOFENCING | E_AGNSS | E_NI | E_MEASUREMENT
  | E_NAVIGATION | E_XTRA | E_DEBUG | E_BATCHING

record ni_notification =
  ni_id :: int
  ni_type :: u32
  ni_flags :: u32
  ni_timeout :: int
  ni_default_response :: int
  ni_requestor_id :: string
  ni_text :: string
  ni_requestor_id_encoding :: int
  ni_text_encoding :: int

record cell_id =
  ci_type :: "16 word"
  ci_mcc :: "16 word"
  ci_mnc :: "16 word"
  ci_lac :: "16 word"
  ci_cid :: u32
  ci_tac :: "16 word"
  ci_pcid :: "16 word"

datatype gnss_msg =
    M_Location gnss_location
  | M_Status int
  | M_SvStatus "gnss_sv_info list"
  | M_Nmea int string
  | M_Capabilities u32
  | M_AcquireWakelock
  | M_ReleaseWakelock
  | M_RequestTime
  | M_SystemInfo "16 word"
  | M_Batch "gnss_location list"
  | M_Measurement "measurement list" gnss_clock
  | M_Navigation int int int int int "u8 list"
  | M_GfTransition int gnss_location int int
  | M_GfStatus int gnss_location
  | M_GfAdd int int
  | M_GfRemove int int
  | M_GfPause int int
  | M_GfResume int int
  | M_AgnssIpV4 int int u32
  | M_AgnssIpV6 int int "u8 list"
  | M_RequestSetId u32
  | M_RequestRefLoc
  | M_NiNotify ni_notification
  | M_XtraDownload

datatype hal_call =
    H_Init | H_Start | H_Stop | H_Cleanup
  | H_InjectLocation real real real
  | H_InjectTime int int int
  | H_DeleteAidingData u32
  | H_PositionMode u32 u32 u32 u32 u32
  | H_MeasInit | H_MeasClose | H_NavInit | H_NavClose
  | H_FlpInit | H_FlpStart u32 u32 u64 | H_FlpFlush | H_FlpStop | H_FlpCleanup
  | H_GfInit | H_GfAdd int real real real int int u32 u32 | H_GfPause int | H_GfResume int int | H_GfRemove int
  | H_AgnssInit | H_DataConnClosed | H_DataConnFailed | H_SetServer int string int | H_DataConnOpen string int
  | H_RilInit | H_SetRefLocation "16 word" cell_id | H_SetSetId int string | H_NetworkState bool int bool
  | H_NetworkAvailability bool string
  | H_NiInit | H_NiRespond int int
  | H_XtraInit | H_XtraInject string
  | H_ConfigUpdate string

record gnss =
  g_iface :: bool
  g_exists :: bool
  g_cb :: "nat option"
  g_held_gnss :: bool
  g_held_fused :: bool
  g_held :: bool
  g_caps :: u32
  g_year :: "16 word"
  g_exts :: "extension list"
  g_ext_exists :: "extension list"
  g_ext_cb :: "extension \<Rightarrow> nat option"
  g_flp_batching :: bool
  g_discontinuity :: u32
  g_threads :: nat
  g_msgs :: "(nat \<times> gnss_msg) list"
  g_calls :: "hal_call list"

text \<open>The variables before the service is there, and the constructor; \<open>device\<close> is whether it gets a device with an interface.\<close>

definition gnss_statics :: gnss where
  "gnss_statics =
     \<lparr>g_iface = False, g_exists = False, g_cb = None, g_held_gnss = False, g_held_fused = False, g_held = False,
      g_caps = 0, g_year = 0, g_exts = [], g_ext_exists = [], g_ext_cb = (\<lambda>_. None), g_flp_batching = False,
      g_discontinuity = 0, g_threads = 0, g_msgs = [], g_calls = []\<rparr>"

definition gnss_new :: "bool \<Rightarrow> gnss \<Rightarrow> gnss option" where
  "gnss_new device st = (if g_exists st then None else Some (st\<lparr>g_exists := True, g_iface := device\<rparr>))"

definition gnss_delete :: "gnss \<Rightarrow> gnss" where
  "gnss_delete st = st\<lparr>g_exists := False, g_threads := 0\<rparr>"

text \<open>\<open>HIDL_FETCH_IGnss\<close>: what \<open>hw_get_module\<close> and \<open>open\<close> return; the outer result is an abort, the inner one a null interface.\<close>

definition HIDL_FETCH_IGnss :: "int \<Rightarrow> int \<Rightarrow> bool \<Rightarrow> gnss \<Rightarrow> gnss option option" where
  "HIDL_FETCH_IGnss module_err open_err device st =
     (if module_err = 0 \<and> open_err = 0 then map_option Some (gnss_new device st) else Some None)"

definition send :: "nat option \<Rightarrow> gnss_msg \<Rightarrow> gnss \<Rightarrow> gnss" where
  "send c m st = (case c of None \<Rightarrow> st | Some k \<Rightarrow> st\<lparr>g_msgs := g_msgs st @ [(k, m)]\<rparr>)"

definition hal :: "hal_call \<Rightarrow> gnss \<Rightarrow> gnss" where
  "hal c st = st\<lparr>g_calls := g_calls st @ [c]\<rparr>"

text \<open>A method that returns whether the call of the library returned 0, and false without an interface.\<close>

definition hal_bool :: "bool \<Rightarrow> hal_call \<Rightarrow> int \<Rightarrow> gnss \<Rightarrow> bool \<times> gnss" where
  "hal_bool iface c ret st = (if iface then (ret = 0, hal c st) else (False, st))"

definition hal_void :: "bool \<Rightarrow> hal_call \<Rightarrow> gnss \<Rightarrow> gnss" where
  "hal_void iface c st = (if iface then hal c st else st)"

section \<open>Callbacks of the library\<close>

definition locationCb :: "gps_location option \<Rightarrow> gnss \<Rightarrow> gnss" where
  "locationCb l st = (if l = None then st else send (g_cb st) (M_Location (convertToGnssLocation l)) st)"

definition statusCb :: "int option \<Rightarrow> gnss \<Rightarrow> gnss" where
  "statusCb s st = (case s of None \<Rightarrow> st | Some v \<Rightarrow> send (g_cb st) (M_Status v) st)"

definition gnssSvStatusCb :: "gnss_sv_status option \<Rightarrow> gnss \<Rightarrow> gnss option" where
  "gnssSvStatusCb s st =
     (if g_cb st = None then Some st
      else case s of
        None \<Rightarrow> Some st
      | Some v \<Rightarrow> map_option (\<lambda>l. send (g_cb st) (M_SvStatus l) st) (gnss_sv_status_list v))"

definition gpsSvStatusCb :: "gps_sv_status option \<Rightarrow> gnss \<Rightarrow> gnss option" where
  "gpsSvStatusCb s st =
     (if g_cb st = None then Some st
      else case s of
        None \<Rightarrow> Some st
      | Some v \<Rightarrow> map_option (\<lambda>l. send (g_cb st) (M_SvStatus l) st) (gps_sv_status_list v))"

text \<open>
  The memory at \<open>nmea\<close>: the code reads the character at \<open>length\<close>; if it is not the terminator, it copies up to the
  next one.
\<close>

definition nmeaCb :: "int \<Rightarrow> string \<Rightarrow> nat \<Rightarrow> gnss \<Rightarrow> gnss option" where
  "nmeaCb timestamp mem len st =
     (if g_cb st = None then Some st
      else if length mem \<le> len then None
      else if mem ! len = CHR 0x00 then Some (send (g_cb st) (M_Nmea timestamp (take len mem)) st)
      else if CHR 0x00 \<in> set mem
      then Some (send (g_cb st) (M_Nmea timestamp (takeWhile (\<lambda>c. c \<noteq> CHR 0x00) mem)) st)
      else None)"

definition setCapabilitiesCb :: "u32 \<Rightarrow> gnss \<Rightarrow> gnss" where
  "setCapabilitiesCb caps st =
     (if g_cb st = None then st else (send (g_cb st) (M_Capabilities caps) st)\<lparr>g_caps := caps\<rparr>)"

definition requestUtcTimeCb :: "gnss \<Rightarrow> gnss" where
  "requestUtcTimeCb st = send (g_cb st) M_RequestTime st"

definition setSystemInfoCb :: "16 word option \<Rightarrow> gnss \<Rightarrow> gnss" where
  "setSystemInfoCb info st =
     (if g_cb st = None then st
      else case info of
        None \<Rightarrow> st
      | Some year \<Rightarrow> (send (g_cb st) (M_SystemInfo year) st)\<lparr>g_year := year\<rparr>)"

text \<open>Every thread keeps its arguments in a list until the interface goes.\<close>

definition createThreadCb :: "gnss \<Rightarrow> gnss" where
  "createThreadCb st = st\<lparr>g_threads := Suc (g_threads st)\<rparr>"

section \<open>Wakelock\<close>

definition updateWakelock :: "gnss \<Rightarrow> gnss" where
  "updateWakelock st =
     (if g_cb st = None then st
      else if g_held_gnss st \<or> g_held_fused st
      then (if g_held st then st else send (g_cb st) M_AcquireWakelock (st\<lparr>g_held := True\<rparr>))
      else send (g_cb st) M_ReleaseWakelock (st\<lparr>g_held := False\<rparr>))"

definition acquireWakelockGnss :: "gnss \<Rightarrow> gnss" where
  "acquireWakelockGnss st = updateWakelock (st\<lparr>g_held_gnss := True\<rparr>)"

definition releaseWakelockGnss :: "gnss \<Rightarrow> gnss" where
  "releaseWakelockGnss st = updateWakelock (st\<lparr>g_held_gnss := False\<rparr>)"

definition acquireWakelockFused :: "gnss \<Rightarrow> gnss" where
  "acquireWakelockFused st = updateWakelock (st\<lparr>g_held_fused := True\<rparr>)"

definition releaseWakelockFused :: "gnss \<Rightarrow> gnss" where
  "releaseWakelockFused st = updateWakelock (st\<lparr>g_held_fused := False\<rparr>)"

section \<open>Methods of the service\<close>

definition gnss_setCallback :: "nat option \<Rightarrow> int \<Rightarrow> gnss \<Rightarrow> bool \<times> gnss" where
  "gnss_setCallback callback ret st =
     (if \<not> g_iface st \<or> callback = None then (False, st)
      else
        let st1 = st\<lparr>g_cb := callback\<rparr>;
            st2 = (if g_caps st1 \<noteq> 0 then setCapabilitiesCb (g_caps st1) st1 else st1);
            st3 = (if g_year st2 \<noteq> 0 then setSystemInfoCb (Some (g_year st2)) st2 else st2)
        in (ret = 0, hal H_Init st3))"

definition gnss_start :: "int \<Rightarrow> gnss \<Rightarrow> bool \<times> gnss" where
  "gnss_start ret st = hal_bool (g_iface st) H_Start ret st"

definition gnss_stop :: "int \<Rightarrow> gnss \<Rightarrow> bool \<times> gnss" where
  "gnss_stop ret st = hal_bool (g_iface st) H_Stop ret st"

definition gnss_cleanup :: "gnss \<Rightarrow> gnss" where
  "gnss_cleanup st = hal_void (g_iface st) H_Cleanup st"

definition injectLocation :: "real \<Rightarrow> real \<Rightarrow> real \<Rightarrow> int \<Rightarrow> gnss \<Rightarrow> bool \<times> gnss" where
  "injectLocation lat lon acc ret st = hal_bool (g_iface st) (H_InjectLocation lat lon acc) ret st"

definition injectTime :: "int \<Rightarrow> int \<Rightarrow> int \<Rightarrow> int \<Rightarrow> gnss \<Rightarrow> bool \<times> gnss" where
  "injectTime t ref unc ret st = hal_bool (g_iface st) (H_InjectTime t ref unc) ret st"

definition deleteAidingData :: "u32 \<Rightarrow> gnss \<Rightarrow> gnss" where
  "deleteAidingData flags st = hal_void (g_iface st) (H_DeleteAidingData flags) st"

definition setPositionMode :: "u32 \<Rightarrow> u32 \<Rightarrow> u32 \<Rightarrow> u32 \<Rightarrow> u32 \<Rightarrow> int \<Rightarrow> gnss \<Rightarrow> bool \<times> gnss" where
  "setPositionMode mode recurrence interval accuracy time ret st =
     hal_bool (g_iface st) (H_PositionMode mode recurrence interval accuracy time) ret st"

text \<open>
  The extensions are made when they are asked for; \<open>avail\<close> is whether the library has the interface. Five of them abort if
  an instance exists already.
\<close>

definition single_instance :: "extension \<Rightarrow> bool" where
  "single_instance e \<longleftrightarrow> e \<in> set [E_AGNSS_RIL, E_GEOFENCING, E_AGNSS, E_NI, E_XTRA]"

definition getExtension :: "extension \<Rightarrow> bool \<Rightarrow> gnss \<Rightarrow> (bool \<times> gnss) option" where
  "getExtension e avail st =
     (if \<not> g_iface st then Some (False, st)
      else if e \<in> set (g_exts st) then Some (True, st)
      else if \<not> avail then Some (False, st)
      else if single_instance e \<and> e \<in> set (g_ext_exists st) then None
      else Some (True, st\<lparr>g_exts := e # g_exts st,
                         g_ext_exists := (if single_instance e then e # g_ext_exists st else g_ext_exists st)\<rparr>))"

definition getExtensionAGnssRil :: "bool \<Rightarrow> gnss \<Rightarrow> (bool \<times> gnss) option" where
  "getExtensionAGnssRil avail st = getExtension E_AGNSS_RIL avail st"

definition getExtensionGnssConfiguration :: "bool \<Rightarrow> gnss \<Rightarrow> (bool \<times> gnss) option" where
  "getExtensionGnssConfiguration avail st = getExtension E_CONFIGURATION avail st"

definition getExtensionGnssGeofencing :: "bool \<Rightarrow> gnss \<Rightarrow> (bool \<times> gnss) option" where
  "getExtensionGnssGeofencing avail st = getExtension E_GEOFENCING avail st"

definition getExtensionAGnss :: "bool \<Rightarrow> gnss \<Rightarrow> (bool \<times> gnss) option" where
  "getExtensionAGnss avail st = getExtension E_AGNSS avail st"

definition getExtensionGnssNi :: "bool \<Rightarrow> gnss \<Rightarrow> (bool \<times> gnss) option" where
  "getExtensionGnssNi avail st = getExtension E_NI avail st"

definition getExtensionGnssMeasurement :: "bool \<Rightarrow> gnss \<Rightarrow> (bool \<times> gnss) option" where
  "getExtensionGnssMeasurement avail st = getExtension E_MEASUREMENT avail st"

definition getExtensionGnssNavigationMessage :: "bool \<Rightarrow> gnss \<Rightarrow> (bool \<times> gnss) option" where
  "getExtensionGnssNavigationMessage avail st = getExtension E_NAVIGATION avail st"

definition getExtensionXtra :: "bool \<Rightarrow> gnss \<Rightarrow> (bool \<times> gnss) option" where
  "getExtensionXtra avail st = getExtension E_XTRA avail st"

definition getExtensionGnssDebug :: "bool \<Rightarrow> gnss \<Rightarrow> (bool \<times> gnss) option" where
  "getExtensionGnssDebug avail st = getExtension E_DEBUG avail st"

text \<open>
  For batching the interface comes from the module for fused locations: what \<open>hw_get_module\<close> and \<open>open\<close> return, whether the
  module and its methods are there, and whether the device has an interface.
\<close>

definition getExtensionGnssBatching :: "int \<Rightarrow> bool \<Rightarrow> bool \<Rightarrow> int \<Rightarrow> bool \<Rightarrow> gnss \<Rightarrow> (bool \<times> gnss) option" where
  "getExtensionGnssBatching err has_module methods open_err flp st =
     getExtension E_BATCHING (err = 0 \<and> has_module \<and> methods \<and> open_err = 0 \<and> flp) st"

section \<open>Batching\<close>

definition MAX_LOCATIONS_PER_BATCH :: int where "MAX_LOCATIONS_PER_BATCH = 1000"
definition FLP_GNSS_BATCHING_CLIENT_ID :: u32 where "FLP_GNSS_BATCHING_CLIENT_ID = 4"

text \<open>
  \<open>tech\<close> is \<open>FLP_TECH_MASK_GNSS_AND_SENSORS\<close>; the array holds pointers that may be null.
\<close>

definition clamp_locations :: "int \<Rightarrow> nat" where
  "clamp_locations n =
     nat (if n < 0 then 0 else if n > MAX_LOCATIONS_PER_BATCH then MAX_LOCATIONS_PER_BATCH else n)"

definition batch_list :: "flp_masks \<Rightarrow> u32 \<Rightarrow> flp_location option list \<Rightarrow> gnss_location list" where
  "batch_list k tech ls =
     map (convertFlpLocation k)
       (filter (\<lambda>l. case l of None \<Rightarrow> False | Some f \<Rightarrow> fl_sources f AND NOT tech = 0) ls)"

definition batch_locationCb ::
  "flp_masks \<Rightarrow> u32 \<Rightarrow> int \<Rightarrow> flp_location option list option \<Rightarrow> gnss \<Rightarrow> gnss option" where
  "batch_locationCb k tech n locations st =
     (if g_ext_cb st E_BATCHING = None then Some st
      else case locations of
        None \<Rightarrow> Some st
      | Some ls \<Rightarrow>
          map_option (\<lambda>xs. send (g_ext_cb st E_BATCHING) (M_Batch (batch_list k tech xs)) st)
            (read_array (clamp_locations n) ls))"

text \<open>\<open>gnss_bit\<close> is \<open>CAPABILITY_GNSS\<close>.\<close>

definition flpCapabilitiesCb :: "u32 \<Rightarrow> u32 \<Rightarrow> gnss \<Rightarrow> gnss" where
  "flpCapabilitiesCb gnss_bit caps st = (if caps AND gnss_bit \<noteq> 0 then st\<lparr>g_flp_batching := True\<rparr> else st)"

definition setExtCb :: "extension \<Rightarrow> nat option \<Rightarrow> gnss \<Rightarrow> gnss" where
  "setExtCb e c st = st\<lparr>g_ext_cb := (g_ext_cb st)(e := c)\<rparr>"

text \<open>An extension that exists has its interface, so the tests for a null interface are tests for the extension.\<close>

definition has_ext :: "gnss \<Rightarrow> extension \<Rightarrow> bool" where
  "has_ext st e \<longleftrightarrow> e \<in> set (g_exts st)"

definition batch_init :: "nat option \<Rightarrow> int \<Rightarrow> gnss \<Rightarrow> bool \<times> gnss" where
  "batch_init callback ret st =
     (if has_ext st E_BATCHING then (ret = 0, hal H_FlpInit (setExtCb E_BATCHING callback st)) else (False, st))"

definition getBatchSize :: "nat \<Rightarrow> gnss \<Rightarrow> nat" where
  "getBatchSize batch_size st = (if has_ext st E_BATCHING then batch_size mod 2 ^ 16 else 0)"

definition batch_start :: "u32 \<Rightarrow> bool \<Rightarrow> u64 \<Rightarrow> int \<Rightarrow> gnss \<Rightarrow> bool \<times> gnss" where
  "batch_start tech wakeup_on_full period ret st =
     (if \<not> has_ext st E_BATCHING \<or> \<not> g_flp_batching st then (False, st)
      else (ret = 0, hal (H_FlpStart tech (if wakeup_on_full then 1 else 0) period) st))"

definition batch_flush :: "gnss \<Rightarrow> gnss" where
  "batch_flush st = hal_void (has_ext st E_BATCHING) H_FlpFlush st"

definition batch_stop :: "int \<Rightarrow> gnss \<Rightarrow> bool \<times> gnss" where
  "batch_stop ret st = hal_bool (has_ext st E_BATCHING) H_FlpStop ret st"

definition batch_cleanup :: "gnss \<Rightarrow> gnss" where
  "batch_cleanup st = hal_void (has_ext st E_BATCHING) H_FlpCleanup st"

section \<open>Measurements and navigation messages\<close>

definition gnssMeasurementCb :: "gnss_clock meas_data option \<Rightarrow> gnss \<Rightarrow> gnss option" where
  "gnssMeasurementCb d st =
     (if g_ext_cb st E_MEASUREMENT = None then Some st
      else case d of
        None \<Rightarrow> Some st
      | Some v \<Rightarrow>
          map_option (\<lambda>(ms, c). send (g_ext_cb st E_MEASUREMENT) (M_Measurement ms c) st) (convert_gnss_data v))"

definition gpsMeasurementCb :: "int \<Rightarrow> gps_clock meas_data option \<Rightarrow> gnss \<Rightarrow> gnss option" where
  "gpsMeasurementCb junk d st =
     (if g_ext_cb st E_MEASUREMENT = None then Some st
      else case d of
        None \<Rightarrow> Some st
      | Some v \<Rightarrow>
          map_option (\<lambda>((ms, c), n). send (g_ext_cb st E_MEASUREMENT) (M_Measurement ms c) (st\<lparr>g_discontinuity := n\<rparr>))
            (convert_gps_data junk (g_discontinuity st) v))"

definition MEASUREMENT_ERROR_GENERIC :: int where "MEASUREMENT_ERROR_GENERIC = -101"

definition meas_setCallback :: "nat option \<Rightarrow> int \<Rightarrow> gnss \<Rightarrow> int \<times> gnss" where
  "meas_setCallback callback ret st =
     (if has_ext st E_MEASUREMENT then (ret, hal H_MeasInit (setExtCb E_MEASUREMENT callback st))
      else (MEASUREMENT_ERROR_GENERIC, st))"

definition meas_close :: "gnss \<Rightarrow> gnss" where
  "meas_close st = hal_void (has_ext st E_MEASUREMENT) H_MeasClose st"

record nav_message =
  nm_svid :: int
  nm_type :: int
  nm_status :: int
  nm_message_id :: int
  nm_submessage_id :: int
  nm_length :: nat
  nm_data :: "u8 list"

definition gnssNavigationMessageCb :: "nav_message option \<Rightarrow> gnss \<Rightarrow> gnss option" where
  "gnssNavigationMessageCb m st =
     (if g_ext_cb st E_NAVIGATION = None then Some st
      else case m of
        None \<Rightarrow> Some st
      | Some v \<Rightarrow>
          map_option (\<lambda>d. send (g_ext_cb st E_NAVIGATION)
              (M_Navigation (nm_svid v) (nm_type v) (nm_status v) (nm_message_id v) (nm_submessage_id v) d) st)
            (read_array (nm_length v) (nm_data v)))"

definition nav_setCallback :: "nat option \<Rightarrow> int \<Rightarrow> gnss \<Rightarrow> int \<times> gnss" where
  "nav_setCallback callback ret st =
     (if has_ext st E_NAVIGATION then (ret, hal H_NavInit (setExtCb E_NAVIGATION callback st))
      else (MEASUREMENT_ERROR_GENERIC, st))"

definition nav_close :: "gnss \<Rightarrow> gnss" where
  "nav_close st = hal_void (has_ext st E_NAVIGATION) H_NavClose st"

text \<open>When the client dies; the arguments are what \<open>stop\<close> of the service and of batching return.\<close>

definition handleHidlDeath :: "int \<Rightarrow> int \<Rightarrow> gnss \<Rightarrow> gnss" where
  "handleHidlDeath stop_ret batch_ret st =
     (let st1 = snd (gnss_stop stop_ret st);
          st2 = (if has_ext st1 E_MEASUREMENT then meas_close st1 else st1);
          st3 = (if has_ext st2 E_NAVIGATION then nav_close st2 else st2);
          st4 = (if has_ext st3 E_BATCHING then batch_cleanup (snd (batch_stop batch_ret st3)) else st3);
          st5 = gnss_cleanup st4
      in st5\<lparr>g_cb := None\<rparr>)"

section \<open>Geofences\<close>

definition gnssGfTransitionCb :: "int \<Rightarrow> gps_location option \<Rightarrow> int \<Rightarrow> int \<Rightarrow> gnss \<Rightarrow> gnss" where
  "gnssGfTransitionCb gid l transition timestamp st =
     (if l = None then st
      else send (g_ext_cb st E_GEOFENCING) (M_GfTransition gid (convertToGnssLocation l) transition timestamp) st)"

definition gnssGfStatusCb :: "int \<Rightarrow> gps_location option \<Rightarrow> gnss \<Rightarrow> gnss" where
  "gnssGfStatusCb status l st =
     send (g_ext_cb st E_GEOFENCING)
       (M_GfStatus status (if l \<noteq> None then convertToGnssLocation l else no_location)) st"

definition gnssGfAddCb :: "int \<Rightarrow> int \<Rightarrow> gnss \<Rightarrow> gnss" where
  "gnssGfAddCb gid status st = send (g_ext_cb st E_GEOFENCING) (M_GfAdd gid status) st"

definition gnssGfRemoveCb :: "int \<Rightarrow> int \<Rightarrow> gnss \<Rightarrow> gnss" where
  "gnssGfRemoveCb gid status st = send (g_ext_cb st E_GEOFENCING) (M_GfRemove gid status) st"

definition gnssGfPauseCb :: "int \<Rightarrow> int \<Rightarrow> gnss \<Rightarrow> gnss" where
  "gnssGfPauseCb gid status st = send (g_ext_cb st E_GEOFENCING) (M_GfPause gid status) st"

definition gnssGfResumeCb :: "int \<Rightarrow> int \<Rightarrow> gnss \<Rightarrow> gnss" where
  "gnssGfResumeCb gid status st = send (g_ext_cb st E_GEOFENCING) (M_GfResume gid status) st"

definition gf_setCallback :: "nat option \<Rightarrow> gnss \<Rightarrow> gnss" where
  "gf_setCallback callback st = hal_void (has_ext st E_GEOFENCING) H_GfInit (setExtCb E_GEOFENCING callback st)"

definition addGeofence :: "int \<Rightarrow> real \<Rightarrow> real \<Rightarrow> real \<Rightarrow> int \<Rightarrow> int \<Rightarrow> u32 \<Rightarrow> u32 \<Rightarrow> gnss \<Rightarrow> gnss" where
  "addGeofence gid lat lon radius last_transition monitor response timer st =
     hal_void (has_ext st E_GEOFENCING) (H_GfAdd gid lat lon radius last_transition monitor response timer) st"

definition pauseGeofence :: "int \<Rightarrow> gnss \<Rightarrow> gnss" where
  "pauseGeofence gid st = hal_void (has_ext st E_GEOFENCING) (H_GfPause gid) st"

definition resumeGeofence :: "int \<Rightarrow> int \<Rightarrow> gnss \<Rightarrow> gnss" where
  "resumeGeofence gid monitor st = hal_void (has_ext st E_GEOFENCING) (H_GfResume gid monitor) st"

definition removeGeofence :: "int \<Rightarrow> gnss \<Rightarrow> gnss" where
  "removeGeofence gid st = hal_void (has_ext st E_GEOFENCING) (H_GfRemove gid) st"

section \<open>Assistance\<close>

text \<open>
  The status of the assistance server: its size tells which version of the structure it is, and the newer
  one has an address with its family. On arm64 they have 144 and 16 bytes.
\<close>

datatype sockaddr = SA_INET u32 | SA_INET6 "u8 list" | SA_OTHER

record agps_status =
  as_size :: nat
  as_type :: int
  as_status :: int
  as_ipaddr :: u32
  as_addr :: sockaddr

definition SIZEOF_AGpsStatus :: nat where "SIZEOF_AGpsStatus = 144"
definition SIZEOF_AGpsStatus_v2 :: nat where "SIZEOF_AGpsStatus_v2 = 16"
definition AF_INET :: int where "AF_INET = 2"

definition htonl :: "u32 \<Rightarrow> u32" where
  "htonl x =
     push_bit 24 (x AND 0xFF) OR push_bit 8 (x AND 0xFF00) OR drop_bit 8 (x AND 0xFF0000) OR drop_bit 24 x"

definition agnss_statusCb :: "agps_status option \<Rightarrow> gnss \<Rightarrow> gnss" where
  "agnss_statusCb s st =
     (case s of
        None \<Rightarrow> st
      | Some v \<Rightarrow>
          if as_size v = SIZEOF_AGpsStatus
          then (case as_addr v of
                  SA_INET a \<Rightarrow> send (g_ext_cb st E_AGNSS) (M_AgnssIpV4 (as_type v) (as_status v) a) st
                | SA_INET6 a \<Rightarrow> send (g_ext_cb st E_AGNSS) (M_AgnssIpV6 (as_type v) (as_status v) a) st
                | SA_OTHER \<Rightarrow> st)
          else if as_size v \<ge> SIZEOF_AGpsStatus_v2
          then send (g_ext_cb st E_AGNSS) (M_AgnssIpV4 AF_INET (as_status v) (htonl (as_ipaddr v))) st
          else st)"

definition agnss_setCallback :: "nat option \<Rightarrow> gnss \<Rightarrow> gnss" where
  "agnss_setCallback callback st =
     (if has_ext st E_AGNSS then hal H_AgnssInit (setExtCb E_AGNSS callback st) else st)"

definition dataConnClosed :: "int \<Rightarrow> gnss \<Rightarrow> bool \<times> gnss" where
  "dataConnClosed ret st = hal_bool (has_ext st E_AGNSS) H_DataConnClosed ret st"

definition dataConnFailed :: "int \<Rightarrow> gnss \<Rightarrow> bool \<times> gnss" where
  "dataConnFailed ret st = hal_bool (has_ext st E_AGNSS) H_DataConnFailed ret st"

definition setServer :: "int \<Rightarrow> string \<Rightarrow> int \<Rightarrow> int \<Rightarrow> gnss \<Rightarrow> bool \<times> gnss" where
  "setServer type host port ret st = hal_bool (has_ext st E_AGNSS) (H_SetServer type host port) ret st"

definition dataConnOpen :: "string \<Rightarrow> int \<Rightarrow> int \<Rightarrow> gnss \<Rightarrow> bool \<times> gnss" where
  "dataConnOpen apn ip_type ret st = hal_bool (has_ext st E_AGNSS) (H_DataConnOpen apn ip_type) ret st"

definition requestSetId :: "u32 \<Rightarrow> gnss \<Rightarrow> gnss" where
  "requestSetId flags st = send (g_ext_cb st E_AGNSS_RIL) (M_RequestSetId flags) st"

definition requestRefLoc :: "u32 \<Rightarrow> gnss \<Rightarrow> gnss" where
  "requestRefLoc flags st = send (g_ext_cb st E_AGNSS_RIL) M_RequestRefLoc st"

definition ril_setCallback :: "nat option \<Rightarrow> gnss \<Rightarrow> gnss" where
  "ril_setCallback callback st =
     (if has_ext st E_AGNSS_RIL then hal H_RilInit (setExtCb E_AGNSS_RIL callback st) else st)"

text \<open>Only the cell of the location is handed on, whatever its type.\<close>

definition setRefLocation :: "16 word \<Rightarrow> cell_id \<Rightarrow> gnss \<Rightarrow> gnss" where
  "setRefLocation type cell st = hal_void (has_ext st E_AGNSS_RIL) (H_SetRefLocation type cell) st"

definition setSetId :: "int \<Rightarrow> string \<Rightarrow> gnss \<Rightarrow> bool \<times> gnss" where
  "setSetId type setid st = hal_bool (has_ext st E_AGNSS_RIL) (H_SetSetId (type mod 2 ^ 16) setid) 0 st"

definition updateNetworkState :: "bool \<Rightarrow> int \<Rightarrow> bool \<Rightarrow> gnss \<Rightarrow> bool \<times> gnss" where
  "updateNetworkState up type roaming st =
     hal_bool (has_ext st E_AGNSS_RIL) (H_NetworkState up type roaming) 0 st"

definition updateNetworkAvailability :: "bool \<Rightarrow> string \<Rightarrow> gnss \<Rightarrow> bool \<times> gnss" where
  "updateNetworkAvailability available apn st =
     hal_bool (has_ext st E_AGNSS_RIL) (H_NetworkAvailability available apn) 0 st"

section \<open>Network initiated requests, extra data, configuration and debugging\<close>

text \<open>The fields keep their values but for the timeout, which becomes an unsigned number.\<close>

definition niNotifyCb :: "ni_notification option \<Rightarrow> gnss \<Rightarrow> gnss" where
  "niNotifyCb n st =
     (case n of
        None \<Rightarrow> st
      | Some v \<Rightarrow> send (g_ext_cb st E_NI) (M_NiNotify (v\<lparr>ni_timeout := ni_timeout v mod 2 ^ 32\<rparr>)) st)"

definition ni_setCallback :: "nat option \<Rightarrow> gnss \<Rightarrow> gnss" where
  "ni_setCallback callback st = (if has_ext st E_NI then hal H_NiInit (setExtCb E_NI callback st) else st)"

definition ni_respond :: "int \<Rightarrow> int \<Rightarrow> gnss \<Rightarrow> gnss" where
  "ni_respond k response st = hal_void (has_ext st E_NI) (H_NiRespond k response) st"

definition gnssXtraDownloadRequestCb :: "gnss \<Rightarrow> gnss" where
  "gnssXtraDownloadRequestCb st = send (g_ext_cb st E_XTRA) M_XtraDownload st"

definition xtra_setCallback :: "nat option \<Rightarrow> int \<Rightarrow> gnss \<Rightarrow> bool \<times> gnss" where
  "xtra_setCallback callback ret st =
     (if has_ext st E_XTRA then (ret = 0, hal H_XtraInit (setExtCb E_XTRA callback st)) else (False, st))"

definition injectXtraData :: "string \<Rightarrow> int \<Rightarrow> gnss \<Rightarrow> bool \<times> gnss" where
  "injectXtraData data ret st = hal_bool (has_ext st E_XTRA) (H_XtraInject data) ret st"

definition config_update :: "string \<Rightarrow> int \<Rightarrow> gnss \<Rightarrow> bool \<times> gnss" where
  "config_update name v st =
     hal_bool (has_ext st E_CONFIGURATION) (H_ConfigUpdate (name @ ''='' @ to_string v @ [CHR 0x0A])) 0 st"

definition setSuplEs :: "bool \<Rightarrow> gnss \<Rightarrow> bool \<times> gnss" where
  "setSuplEs enabled st = config_update ''SUPL_ES'' (if enabled then 1 else 0) st"

definition setSuplVersion :: "u32 \<Rightarrow> gnss \<Rightarrow> bool \<times> gnss" where
  "setSuplVersion version st = config_update ''SUPL_VER'' (uint version) st"

definition setSuplMode :: "u8 \<Rightarrow> gnss \<Rightarrow> bool \<times> gnss" where
  "setSuplMode mode st = config_update ''SUPL_MODE'' (uint mode) st"

definition setLppProfile :: "u8 \<Rightarrow> gnss \<Rightarrow> bool \<times> gnss" where
  "setLppProfile profile st = config_update ''LPP_PROFILE'' (uint profile) st"

definition setGlonassPositioningProtocol :: "u8 \<Rightarrow> gnss \<Rightarrow> bool \<times> gnss" where
  "setGlonassPositioningProtocol protocol st = config_update ''A_GLONASS_POS_PROTOCOL_SELECT'' (uint protocol) st"

definition setGpsLock :: "u8 \<Rightarrow> gnss \<Rightarrow> bool \<times> gnss" where
  "setGpsLock lck st = config_update ''GPS_LOCK'' (uint lck) st"

definition setEmergencySuplPdn :: "bool \<Rightarrow> gnss \<Rightarrow> bool \<times> gnss" where
  "setEmergencySuplPdn enabled st =
     config_update ''USE_EMERGENCY_PDN_FOR_EMERGENCY_SUPL'' (if enabled then 1 else 0) st"

text \<open>
  \<open>getDebugData\<close>: the library wrote \<open>written\<close> characters and returned a length; the buffer has one cell more than
  \<open>kMaxDebugStrLen\<close>. \<^const>\<open>None\<close> is a write outside of it.
\<close>

definition kMaxDebugStrLen :: nat where "kMaxDebugStrLen = 2047"

definition getDebugData :: "nat \<Rightarrow> nat option" where
  "getDebugData len = (let l = max len kMaxDebugStrLen in if l < kMaxDebugStrLen + 1 then Some l else None)"

end
