(* ===== verification/Gnss_Correct.thy ===== *)
theory Gnss_Correct
  imports Gnss_Service
begin

text \<open>
  Correctness of the location service. The step relation \<open>gnss_step\<close> has every operation that can happen while one
  client is connected; the wakelock that the client is told to hold is an invariant of it. The rest is about the death of a client and its
  successor, the extensions, and the answers that the conversions send.
\<close>

section \<open>Steps with a connected client\<close>


section \<open>The wakelock\<close>

text \<open>
  What a client knows: it holds the wakelock after an acquire and until a release. \<open>lock_log\<close> is \<^const>\<open>None\<close> if it
  was told to acquire a wakelock that it held, which a counting layer above would count twice.
\<close>

fun lock_log :: "nat \<Rightarrow> bool \<Rightarrow> (nat \<times> gnss_msg) list \<Rightarrow> bool option" where
  "lock_log c held [] = Some held"
| "lock_log c held ((k, m) # ms) =
     (if k = c \<and> m = M_AcquireWakelock then (if held then None else lock_log c True ms)
      else if k = c \<and> m = M_ReleaseWakelock then lock_log c False ms
      else lock_log c held ms)"

lemma lock_log_append: "lock_log c held (ms @ ms') = Option.bind (lock_log c held ms) (\<lambda>h. lock_log c h ms')"
  by (induction c held ms rule: lock_log.induct) auto


text \<open>The operations that touch neither the wakelock nor the client, and only send other messages.\<close>

definition wakelock_frame :: "gnss \<Rightarrow> gnss \<Rightarrow> bool" where
  "wakelock_frame st st' \<longleftrightarrow>
     g_cb st' = g_cb st \<and> g_held_gnss st' = g_held_gnss st \<and> g_held_fused st' = g_held_fused st \<and>
     g_held st' = g_held st \<and>
     (\<exists>ms. g_msgs st' = g_msgs st @ ms \<and> (\<forall>m \<in> snd ` set ms. m \<noteq> M_AcquireWakelock \<and> m \<noteq> M_ReleaseWakelock))"



lemma wakelock_frame_refl [intro, simp]: "wakelock_frame st st"
  by (auto simp: wakelock_frame_def intro: exI [of _ "[]"])

lemma frame_send [intro, simp]:
  "m \<noteq> M_AcquireWakelock \<Longrightarrow> m \<noteq> M_ReleaseWakelock \<Longrightarrow> wakelock_frame st (send k m st)"
  by (cases k) (auto simp: send_def wakelock_frame_def intro: exI [of _ "[]"])

lemma frame_hal [intro, simp]: "wakelock_frame st (hal c st)"
  by (auto simp: hal_def wakelock_frame_def intro: exI [of _ "[]"])

lemma frame_hal_bool [intro, simp]: "wakelock_frame st (snd (hal_bool i c r st))"
  by (simp add: hal_bool_def)

lemma frame_hal_void [intro, simp]: "wakelock_frame st (hal_void i c st)"
  by (simp add: hal_void_def)

lemma frame_ext_cb [simp]: "wakelock_frame st (hal h (setExtCb e c st))"
  by (auto simp: hal_def setExtCb_def wakelock_frame_def intro: exI [of _ "[]"])

lemma frame_caps [simp]: "wakelock_frame st (setCapabilitiesCb caps st)"
  by (auto simp: setCapabilitiesCb_def send_def wakelock_frame_def)

lemma frame_system_info [simp]: "wakelock_frame st (setSystemInfoCb info st)"
  by (auto simp: setSystemInfoCb_def send_def wakelock_frame_def split: option.splits)


lemma frame_thread [simp]: "wakelock_frame st (createThreadCb st)"
  by (auto simp: createThreadCb_def wakelock_frame_def intro: exI [of _ "[]"])

lemma frame_flp [simp]: "wakelock_frame st (flpCapabilitiesCb gnss_bit caps st)"
  by (auto simp: flpCapabilitiesCb_def wakelock_frame_def intro: exI [of _ "[]"])





definition demo_gnss :: gnss where
  "demo_gnss = gnss_statics\<lparr>g_iface := True, g_exists := True\<rparr>"

lemma demo_gnss_connected:
  "snd (gnss_setCallback (Some c) 0 demo_gnss) = demo_gnss\<lparr>g_cb := Some c, g_calls := [H_Init]\<rparr>"
  by (simp add: gnss_setCallback_def demo_gnss_def gnss_statics_def hal_def)


section \<open>Death of a client\<close>

lemma death_fields:
  fixes st :: gnss and r1 r2 :: int
  defines "st' \<equiv> handleHidlDeath r1 r2 st"
  shows "g_cb st' = None" "g_held_gnss st' = g_held_gnss st" "g_held_fused st' = g_held_fused st" "g_held st' = g_held st"
    "g_msgs st' = g_msgs st" "g_caps st' = g_caps st" "g_year st' = g_year st" "g_iface st' = g_iface st"
    "g_ext_cb st' = g_ext_cb st" "g_exts st' = g_exts st"
  unfolding st'_def
  by (simp_all add: handleHidlDeath_def Let_def gnss_stop_def gnss_cleanup_def meas_close_def nav_close_def
      batch_cleanup_def batch_stop_def hal_bool_def hal_void_def hal_def has_ext_def)

lemma setCallback_fields:
  fixes st :: gnss and c :: nat and ret :: int
  assumes "g_iface st"
  defines "st' \<equiv> snd (gnss_setCallback (Some c) ret st)"
  shows "g_cb st' = Some c" "g_held_gnss st' = g_held_gnss st" "g_held_fused st' = g_held_fused st" "g_held st' = g_held st"
    "g_caps st' = g_caps st" "g_year st' = g_year st"
    "g_msgs st' = g_msgs st @ (if g_caps st \<noteq> 0 then [(c, M_Capabilities (g_caps st))] else []) @
       (if g_year st \<noteq> 0 then [(c, M_SystemInfo (g_year st))] else [])"
  unfolding st'_def using assms(1)
  by (simp_all add: gnss_setCallback_def setCapabilitiesCb_def setSystemInfoCb_def send_def hal_def Let_def)

text \<open>
  The capabilities and the year of the hardware that the library reported to one client are sent again to the next
  client after the first one has died, whatever else happened in between.
\<close>

theorem reconnect_resends:
  assumes "g_iface st" "g_cb st = Some c" "caps \<noteq> 0" "year \<noteq> 0"
    and "st1 = setSystemInfoCb (Some year) (setCapabilitiesCb caps st)"
    and "st2 = snd (gnss_setCallback (Some c') ret (handleHidlDeath r1 r2 st1))"
  shows "g_msgs st2 = g_msgs st @ [(c, M_Capabilities caps), (c, M_SystemInfo year),
      (c', M_Capabilities caps), (c', M_SystemInfo year)] \<and> g_cb st2 = Some c'"
proof -
  have st1: "g_iface st1" "g_msgs st1 = g_msgs st @ [(c, M_Capabilities caps), (c, M_SystemInfo year)]"
    "g_caps st1 = caps" "g_year st1 = year"
    using assms(1,2,5) by (simp_all add: setCapabilitiesCb_def setSystemInfoCb_def send_def)
  let ?d = "handleHidlDeath r1 r2 st1"
  have "g_iface ?d" using st1(1) by (simp add: death_fields)
  from setCallback_fields [OF this, of c' ret] assms(3,4) st1 show ?thesis
    by (simp add: assms(6) death_fields)
qed

theorem reconnect_resends_witness:
  "g_msgs (snd (gnss_setCallback (Some 2) 0 (handleHidlDeath 0 0 (setSystemInfoCb (Some 2015) (setCapabilitiesCb 7
     (snd (gnss_setCallback (Some 1) 0 demo_gnss))))))) =
   [(1, M_Capabilities 7), (1, M_SystemInfo 2015), (2, M_Capabilities 7), (2, M_SystemInfo 2015)]"
  using reconnect_resends [of "snd (gnss_setCallback (Some 1) 0 demo_gnss)" 1 7 2015 _ _ 2 0 0 0, OF _ _ _ _ refl refl]
  by (simp add: demo_gnss_connected) (simp add: demo_gnss_def gnss_statics_def)

fun acquire_many :: "bool list \<Rightarrow> gnss \<Rightarrow> gnss" where
  "acquire_many [] st = st"
| "acquire_many (b # bs) st = acquire_many bs (if b then acquireWakelockGnss st else acquireWakelockFused st)"

lemma acquire_many_held:
  assumes "g_held st" "g_cb st = Some c" "g_held_gnss st \<or> g_held_fused st"
  shows "g_msgs (acquire_many bs st) = g_msgs st \<and>
    (g_held_gnss (acquire_many bs st) \<or> g_held_fused (acquire_many bs st))"
  using assms
proof (induction bs arbitrary: st)
  case (Cons b bs)
  let ?st = "if b then acquireWakelockGnss st else acquireWakelockFused st"
  have "g_held ?st \<and> g_cb ?st = Some c \<and> (g_held_gnss ?st \<or> g_held_fused ?st) \<and> g_msgs ?st = g_msgs st"
    using Cons.prems by (simp add: acquireWakelockGnss_def acquireWakelockFused_def updateWakelock_def)
  with Cons.IH [of ?st] show ?case by simp
qed simp

text \<open>
  The service remembers across the death of a client that the wakelock was acquired, but the next client is not told: if the
  wakelock was held, the new client is not asked to hold it, however often the libraries acquire it again, until they
  have both released it.
\<close>

theorem reconnect_loses_wakelock:
  assumes "g_iface st" "g_held st" "g_held_gnss st \<or> g_held_fused st" "\<And>m. (c', m) \<notin> set (g_msgs st)"
    and "st' = acquire_many bs (snd (gnss_setCallback (Some c') ret (handleHidlDeath r1 r2 st)))"
  shows "(g_held_gnss st' \<or> g_held_fused st') \<and> lock_log c' False (g_msgs st') = Some False"
proof -
  let ?d = "handleHidlDeath r1 r2 st"
  let ?s = "snd (gnss_setCallback (Some c') ret ?d)"
  have iface: "g_iface ?d" using assms(1) by (simp add: death_fields)
  note f = setCallback_fields [OF iface, of c' ret]
  have acq: "g_msgs st' = g_msgs ?s \<and> (g_held_gnss st' \<or> g_held_fused st')"
    unfolding assms(5) using acquire_many_held [of ?s c' bs] f assms(2,3) by (simp add: death_fields)
  have "lock_log c' False ms = Some False" if "\<And>m. (c', m) \<notin> set ms" for ms
    using that by (induction c' False ms rule: lock_log.induct) auto
  from this [of "g_msgs st"] assms(4) have "lock_log c' False (g_msgs st) = Some False" by blast
  then have "lock_log c' False (g_msgs ?s) = Some False"
    by (simp add: f(7) death_fields lock_log_append)
  with acq show ?thesis by simp
qed

theorem reconnect_loses_wakelock_witness:
  "let st = acquireWakelockGnss (snd (gnss_setCallback (Some 1) 0 demo_gnss));
       st' = acquire_many [True, False] (snd (gnss_setCallback (Some 2) 0 (handleHidlDeath 0 0 st)))
   in (g_held_gnss st' \<or> g_held_fused st') \<and> lock_log 2 False (g_msgs st') = Some False"
proof -
  let ?st = "acquireWakelockGnss (snd (gnss_setCallback (Some 1) 0 demo_gnss))"
  have st: "?st = demo_gnss\<lparr>g_cb := Some 1, g_calls := [H_Init], g_held_gnss := True, g_held := True,
      g_msgs := [(1, M_AcquireWakelock)]\<rparr>"
    by (simp add: demo_gnss_connected acquireWakelockGnss_def updateWakelock_def send_def)
       (simp add: demo_gnss_def gnss_statics_def)
  show ?thesis
    unfolding Let_def
    by (rule reconnect_loses_wakelock [OF _ _ _ _ refl]; unfold st) (simp_all add: demo_gnss_def)
qed

text \<open>The callbacks of the extensions still go to the client that died.\<close>

lemma death_keeps_extension_callbacks:
  "g_ext_cb (handleHidlDeath r1 r2 st) = g_ext_cb st"
  by (simp add: death_fields)

section \<open>Extensions\<close>

text \<open>
  An extension that must be the only instance exists exactly if the service has it: asking for an extension never
  aborts, and returns the same one again.
\<close>

definition exts_ok :: "gnss \<Rightarrow> bool" where
  "exts_ok st \<longleftrightarrow> (\<forall>e. single_instance e \<longrightarrow> e \<in> set (g_exts st) \<longleftrightarrow> e \<in> set (g_ext_exists st))"

lemma getExtension_ok:
  assumes "exts_ok st"
  shows "\<exists>b st'. getExtension e avail st = Some (b, st') \<and> exts_ok st' \<and>
    b = (g_iface st \<and> (e \<in> set (g_exts st) \<or> avail)) \<and> (b \<longrightarrow> getExtension e avail' st' = Some (True, st'))"
  using assms by (auto simp: getExtension_def exts_ok_def)

text \<open>
  A batch has at most a thousand locations, all of them from requested sources, in the order of the array; the
  flags for the accuracies that the old structure does not have are never set.
\<close>

lemma batch_locations:
  assumes "batch_locationCb k tech n (Some ls) st = Some st'" "g_ext_cb st E_BATCHING = Some c"
  shows "\<exists>b. g_msgs st' = g_msgs st @ [(c, M_Batch b)] \<and> length b \<le> 1000 \<and>
    (\<forall>l \<in> set b. gnssLocationFlags l AND NOT 0x1F = 0)"
proof -
  obtain xs where xs: "read_array (clamp_locations n) ls = Some xs" "st' = send (Some c) (M_Batch (batch_list k tech xs)) st"
    using assms by (auto simp: batch_locationCb_def)
  have "length xs \<le> 1000"
    using xs(1) by (auto simp: read_array_def clamp_locations_def MAX_LOCATIONS_PER_BATCH_def split: if_splits)
  then have "length (batch_list k tech xs) \<le> 1000"
    unfolding batch_list_def by (simp add: le_trans [OF length_filter_le])
  moreover have "flp_flags k f AND NOT 0x1F = 0" for f
    by (simp add: flp_flags_def)
  then have "\<forall>l \<in> set (batch_list k tech xs). gnssLocationFlags l AND NOT 0x1F = 0"
    by (auto simp: batch_list_def convertFlpLocation_def no_location_def simp del: not_numeral_eq split: option.splits)
  ultimately show ?thesis using xs(2) by (auto simp: send_def)
qed

text \<open>
  The debug text is cut at the larger of two lengths, where the smaller one is meant: a length below the maximum is replaced by the
  maximum, and one above it makes the terminator land behind the buffer.
\<close>

lemma debug_length: "getDebugData len = (if len \<le> kMaxDebugStrLen then Some kMaxDebugStrLen else None)"
  by (auto simp: getDebugData_def Let_def max_def)

text \<open>An old status of the assistance server is reported with the address family in place of its type.\<close>

lemma old_agnss_status_type:
  assumes "as_size v = SIZEOF_AGpsStatus_v2" "g_ext_cb st E_AGNSS = Some c"
  shows "g_msgs (agnss_statusCb (Some v) st) = g_msgs st @ [(c, M_AgnssIpV4 2 (as_status v) (htonl (as_ipaddr v)))]"
  using assms by (simp add: agnss_statusCb_def send_def SIZEOF_AGpsStatus_def SIZEOF_AGpsStatus_v2_def AF_INET_def)

end
