(* ===== verification/Livedisplay.thy ===== *)
theory Livedisplay
  imports Sys_Utils
begin

text \<open>
  The display services of \<open>hardware/livedisplay\<close>: display modes, colour calibration, sunlight enhancement and the
  main function. Control files of the kernel are nodes of a \<^typ>\<open>sysfs\<close>; \<open>drv path data\<close> is the text
  a node shows after \<open>data\<close> was written to it, \<^const>\<open>None\<close> if its driver refuses the data. Opening a node
  for writing does not change it. A C++ stream buffers what is written: the driver sees it when the
  stream is closed, after the code has tested the stream, so a refusal goes unnoticed. The same holds for the ordinary file with the default mode: opening
  it empties it, success is reported, and only then the disk takes as much as it has room for (\<open>dk_space\<close>). The functions of \<open>libbase\<close>
  (\<open>Trim\<close>, \<open>Split\<close>, \<open>ReadFileToString\<close>, \<open>WriteStringToFile\<close>) are parameters. \<^const>\<open>None\<close> is an uncaught exception.
\<close>

type_synonym driver = "string \<Rightarrow> string \<Rightarrow> string option"

section \<open>Streams\<close>

text \<open>\<open>>> value\<close> of an \<open>ifstream\<close>: whether the stream is good, and the variable afterwards. A stream that did not open and
  an empty one leave the variable as it was, a text that is no number sets it to 0, a number out of range to the nearest one.\<close>

definition ifs_text :: "string \<Rightarrow> sysfs \<Rightarrow> string option" where
  "ifs_text path fs = (if canRead fs path then map_option fn_text (fs path) else None)"

definition extract_int :: "string option \<Rightarrow> int \<Rightarrow> bool \<times> int" where
  "extract_int str old =
     (case str of
        None \<Rightarrow> (False, old)
      | Some t \<Rightarrow>
          if skip_ws t = [] then (False, old)
          else (case fst (scan_int t) of
                  None \<Rightarrow> (False, 0)
                | Some v \<Rightarrow> (- (2 ^ 31) \<le> v \<and> v < 2 ^ 31, clamp 31 v)))"

text \<open>An \<open>ofstream\<close> of a control file, written to and closed: whether the stream was good before it was closed.\<close>

definition ofs_node :: "driver \<Rightarrow> string \<Rightarrow> string \<Rightarrow> sysfs \<Rightarrow> bool \<times> sysfs" where
  "ofs_node drv path data fs =
     (if canWrite fs path
      then (True, case drv path data of None \<Rightarrow> fs | Some t \<Rightarrow> set_text fs path t)
      else (False, fs))"

text \<open>
  An \<open>ofstream\<close> of an ordinary file, written to and closed: whether the stream was good before it was closed. The file is emptied, or created if it is
  missing and the directory permits it (\<open>dk_creat\<close>); the buffer is flushed when the stream is closed, and \<open>dk_space\<close> bytes of it
  reach the disk.
\<close>

record disk =
  dk_creat :: bool
  dk_space :: nat

definition new_file :: "string \<Rightarrow> fnode" where
  "new_file data = \<lparr>fn_mode = S_IFREG OR 0x180, fn_read = True, fn_write = True, fn_exec = False, fn_text = data\<rparr>"

definition ofs_file :: "disk \<Rightarrow> string \<Rightarrow> string \<Rightarrow> sysfs \<Rightarrow> bool \<times> sysfs" where
  "ofs_file dk path data fs =
     (case fs path of
        None \<Rightarrow> if dk_creat dk then (True, fs(path \<mapsto> new_file (take (dk_space dk) data))) else (False, fs)
      | Some n \<Rightarrow>
          if fn_write n then (True, fs(path \<mapsto> n\<lparr>fn_text := take (dk_space dk) data\<rparr>)) else (False, fs))"

section \<open>Display modes\<close>

definition kModePath :: string where "kModePath = ''/sys/class/mdnie/mdnie/mode''"
definition kModeMaxPath :: string where "kModeMaxPath = ''/sys/class/mdnie/mdnie/mode_max''"
definition kDefaultPath :: string where "kDefaultPath = ''/data/vendor/display/.displaymodedefault''"

definition kModeMap :: "(int \<times> string) list" where
  "kModeMap = [(0, ''Dynamic''), (1, ''Standard''), (2, ''Natural''), (3, ''Cinema''), (4, ''Adaptive'')]"

text \<open>The state of the service: the default mode, and the files.\<close>

record display_modes =
  mDefaultModeId :: int
  dm_files :: sysfs

text \<open>The loop over the map that looks for a mode, with the value before it.\<close>

definition mode_entry :: "int \<Rightarrow> int \<Rightarrow> int" where
  "mode_entry old v = (case find (\<lambda>e. fst e = v) kModeMap of None \<Rightarrow> old | Some e \<Rightarrow> fst e)"

definition setDisplayMode :: "driver \<Rightarrow> disk \<Rightarrow> int \<Rightarrow> bool \<Rightarrow> display_modes \<Rightarrow> bool \<times> display_modes" where
  "setDisplayMode drv dk modeID makeDefault st =
     (case find (\<lambda>e. fst e = modeID) kModeMap of
        None \<Rightarrow> (False, st)
      | Some e \<Rightarrow>
          (case ofs_node drv kModePath (to_string (fst e)) (dm_files st) of
             (ok, fs) \<Rightarrow>
               if \<not> ok then (False, st\<lparr>dm_files := fs\<rparr>)
               else if makeDefault
               then (case ofs_file dk kDefaultPath (to_string (fst e)) fs of
                       (ok', fs') \<Rightarrow>
                         if \<not> ok' then (False, st\<lparr>dm_files := fs'\<rparr>)
                         else (True, st\<lparr>mDefaultModeId := fst e, dm_files := fs'\<rparr>))
               else (True, st\<lparr>dm_files := fs\<rparr>)))"

definition DisplayModes :: "driver \<Rightarrow> disk \<Rightarrow> int \<Rightarrow> sysfs \<Rightarrow> display_modes" where
  "DisplayModes drv dk junk fs =
     (let st = \<lparr>mDefaultModeId = 0, dm_files = fs\<rparr>;
          (good, value) = extract_int (ifs_text kDefaultPath fs) junk
      in if \<not> good then st
         else (let st' = st\<lparr>mDefaultModeId := mode_entry 0 value\<rparr>
               in snd (setDisplayMode drv dk (mDefaultModeId st') False st')))"

definition dm_isSupported :: "display_modes \<Rightarrow> bool" where
  "dm_isSupported st = canWrite (dm_files st) kModePath"

text \<open>\<open>junk\<close> is the value of the variable that is read although nothing was stored in it.\<close>

definition getDisplayModes :: "int \<Rightarrow> display_modes \<Rightarrow> (int \<times> string) list" where
  "getDisplayModes junk st =
     (let value = (case ifs_text kModeMaxPath (dm_files st) of
                     Some t \<Rightarrow> snd (extract_int (Some t) junk)
                   | None \<Rightarrow> int (length kModeMap))
      in filter (\<lambda>e. fst e < value) kModeMap)"

definition getCurrentDisplayMode :: "int \<Rightarrow> display_modes \<Rightarrow> (int \<times> string) option" where
  "getCurrentDisplayMode junk st =
     (let (good, value) = extract_int (ifs_text kModePath (dm_files st)) junk;
          currentModeId = (if good then mode_entry (mDefaultModeId st) value else mDefaultModeId st)
      in map_option (\<lambda>name. (currentModeId, name)) (map_of kModeMap currentModeId))"

definition getDefaultDisplayMode :: "display_modes \<Rightarrow> (int \<times> string) option" where
  "getDefaultDisplayMode st =
     map_option (\<lambda>name. (mDefaultModeId st, name)) (map_of kModeMap (mDefaultModeId st))"

section \<open>Colour calibration and sunlight enhancement\<close>

text \<open>What the services use of \<open>libbase\<close>: \<open>Trim\<close>, \<open>Split\<close> at one character, and reading and writing whole files.\<close>

record base_lib =
  b_Trim :: "string \<Rightarrow> string"
  b_Split :: "string \<Rightarrow> char \<Rightarrow> string list"
  b_ReadFileToString :: "string \<Rightarrow> sysfs \<Rightarrow> string option"
  b_WriteStringToFile :: "string \<Rightarrow> string \<Rightarrow> sysfs \<Rightarrow> bool \<times> sysfs"

definition FILE_RGB :: string where "FILE_RGB = ''/sys/class/graphics/fb0/rgb''"

definition cc_isSupported :: "sysfs \<Rightarrow> bool" where
  "cc_isSupported fs \<longleftrightarrow> canRead fs FILE_RGB \<and> canWrite fs FILE_RGB"

definition getMaxValue :: int where "getMaxValue = 255"
definition getMinValue :: int where "getMinValue = 0"

fun stoi_all :: "string list \<Rightarrow> int list option" where
  "stoi_all [] = Some []"
| "stoi_all (color # colors) =
     (case stoi color of None \<Rightarrow> None | Some v \<Rightarrow> map_option ((#) v) (stoi_all colors))"

definition getCalibration :: "base_lib \<Rightarrow> sysfs \<Rightarrow> int list option" where
  "getCalibration lib fs =
     (case b_ReadFileToString lib FILE_RGB fs of
        None \<Rightarrow> Some []
      | Some tmp \<Rightarrow> stoi_all (b_Split lib (b_Trim lib tmp) (CHR '' '')))"

definition setCalibration :: "base_lib \<Rightarrow> int list \<Rightarrow> sysfs \<Rightarrow> bool \<times> sysfs" where
  "setCalibration lib rgb fs =
     b_WriteStringToFile lib (b_Trim lib (concat (map (\<lambda>color. to_string color @ '' '') rgb))) FILE_RGB fs"

definition kLuxPath :: string where "kLuxPath = ''/sys/class/mdnie/mdnie/lux''"

definition se_isSupported :: "sysfs \<Rightarrow> bool" where
  "se_isSupported fs \<longleftrightarrow> canRead fs kLuxPath \<and> canWrite fs kLuxPath"

definition isEnabled :: "base_lib \<Rightarrow> sysfs \<Rightarrow> bool option" where
  "isEnabled lib fs =
     (case b_ReadFileToString lib kLuxPath fs of
        None \<Rightarrow> Some False
      | Some tmp \<Rightarrow> map_option (\<lambda>status. status \<noteq> 0) (stoi (b_Trim lib tmp)))"

definition setEnabled :: "base_lib \<Rightarrow> bool \<Rightarrow> sysfs \<Rightarrow> bool \<times> sysfs" where
  "setEnabled lib enabled fs = b_WriteStringToFile lib (if enabled then ''1'' else ''0'') kLuxPath fs"

section \<open>The service\<close>

text \<open>\<open>main\<close>: the services that are registered, \<open>reg\<close> telling whether a registration succeeds, and whether the thread pool is joined.\<close>

datatype iface = IDisplayColorCalibration | IDisplayModes | ISunlightEnhancement

fun register_all :: "(iface \<Rightarrow> bool) \<Rightarrow> (iface \<times> bool) list \<Rightarrow> iface list \<times> bool" where
  "register_all reg [] = ([], True)"
| "register_all reg ((i, supported) # rest) =
     (if \<not> supported then register_all reg rest
      else if \<not> reg i then ([], False)
      else (case register_all reg rest of (is, ok) \<Rightarrow> (i # is, ok)))"

definition livedisplay_main :: "driver \<Rightarrow> disk \<Rightarrow> int \<Rightarrow> (iface \<Rightarrow> bool) \<Rightarrow> sysfs \<Rightarrow> (iface list \<times> bool) \<times> display_modes" where
  "livedisplay_main drv dk junk reg fs =
     (let displayModes = DisplayModes drv dk junk fs; fs' = dm_files displayModes
      in (register_all reg
            [(IDisplayColorCalibration, cc_isSupported fs'), (IDisplayModes, dm_isSupported displayModes),
             (ISunlightEnhancement, se_isSupported fs')],
          displayModes))"

section \<open>Display modes: what holds\<close>

lemma find_mode: "find (\<lambda>e. fst e = v) kModeMap = map_option (Pair v) (map_of kModeMap v)"
  by (simp add: kModeMap_def)

lemma mode_range: "map_of kModeMap v \<noteq> None \<longleftrightarrow> 0 \<le> v \<and> v \<le> 4"
  by (auto simp: kModeMap_def)

lemma mode_entry_eq: "mode_entry old v = (if map_of kModeMap v = None then old else v)"
  by (simp add: mode_entry_def find_mode split: option.split)

lemma paths_distinct [simp]: "kModePath \<noteq> kDefaultPath" "kDefaultPath \<noteq> kModePath"
  by (simp_all add: kModePath_def kDefaultPath_def)

lemma extract_to_string:
  assumes "0 \<le> v" "v < 2 ^ 31" "r = [] \<or> \<not> c_isdigit (hd r)"
  shows "extract_int (Some (to_string v @ r)) old = (True, v)"
proof -
  have "to_string v @ r = [] @ dec (nat v) @ r" using assms(1) by (simp add: to_string_def)
  then have "scan_int (to_string v @ r) = (Some (int (nat v)), r)" by (simp only: scan_int_dec [OF assms(3)] list.set ball_empty)
  moreover have "skip_ws (to_string v @ r) \<noteq> []"
    using to_string_split(1) [of v r] assms(1) dec_digits(2) [of "nat v"] by (simp add: to_string_def)
  ultimately show ?thesis using assms(1,2) by (simp add: extract_int_def clamp_id)
qed

text \<open>What every call keeps: the default mode is one of the map.\<close>

definition dm_inv :: "display_modes \<Rightarrow> bool" where
  "dm_inv st \<longleftrightarrow> map_of kModeMap (mDefaultModeId st) \<noteq> None"

lemma setDisplayMode_inv: "dm_inv st \<Longrightarrow> dm_inv (snd (setDisplayMode drv dk m d st))"
  by (auto simp: setDisplayMode_def dm_inv_def find_mode split: option.split prod.split)

lemma DisplayModes_inv: "dm_inv (DisplayModes drv dk junk fs)"
proof -
  have "dm_inv \<lparr>mDefaultModeId = 0, dm_files = fs\<rparr>" by (simp add: dm_inv_def kModeMap_def)
  moreover have "dm_inv \<lparr>mDefaultModeId = mode_entry 0 v, dm_files = fs\<rparr>" for v
    by (simp add: dm_inv_def mode_entry_eq) (simp add: kModeMap_def)
  ultimately show ?thesis by (auto simp: DisplayModes_def Let_def setDisplayMode_inv split: prod.split)
qed

text \<open>The life of the service: calls of clients, and anything that happens to the files meanwhile.\<close>

inductive dm_step :: "display_modes \<Rightarrow> display_modes \<Rightarrow> bool" where
  step_set: "dm_step st (snd (setDisplayMode drv dk m d st))"
| step_files: "dm_step st (st\<lparr>dm_files := fs\<rparr>)"

lemma dm_steps_inv: "dm_step\<^sup>*\<^sup>* st st' \<Longrightarrow> dm_inv st \<Longrightarrow> dm_inv st'"
proof (induction rule: rtranclp_induct)
  case (step s s')
  show ?case using step.hyps(2) step.IH [OF step.prems]
    by (auto elim!: dm_step.cases simp: setDisplayMode_inv) (simp add: dm_inv_def)
qed

text \<open>
  Property C29. In every state that the service reaches from its start, whatever is in its files, the default mode is a mode of the map, and
  the lookups of the names by \<open>at\<close> in both queries do not throw: each answers with a mode of the map.
\<close>

theorem display_modes_typed:
  assumes "dm_step\<^sup>*\<^sup>* (DisplayModes drv dk junk fs) st"
  shows "\<exists>d c. getDefaultDisplayMode st = Some d \<and> getCurrentDisplayMode junk' st = Some c \<and> d \<in> set kModeMap \<and> c \<in> set kModeMap"
proof -
  have "dm_inv st" using dm_steps_inv [OF assms DisplayModes_inv] .
  then obtain n where n: "map_of kModeMap (mDefaultModeId st) = Some n" by (auto simp: dm_inv_def)
  obtain good v where e: "extract_int (ifs_text kModePath (dm_files st)) junk' = (good, v)" by fastforce
  define c where "c = (if good then mode_entry (mDefaultModeId st) v else mDefaultModeId st)"
  have "map_of kModeMap c \<noteq> None" using n by (simp add: c_def mode_entry_eq)
  then obtain n' where n': "map_of kModeMap c = Some n'" by blast
  have "getDefaultDisplayMode st = Some (mDefaultModeId st, n)" by (simp add: getDefaultDisplayMode_def n)
  moreover have "getCurrentDisplayMode junk' st = Some (c, n')" by (simp add: getCurrentDisplayMode_def e c_def [symmetric] n')
  ultimately show ?thesis using map_of_SomeD [OF n] map_of_SomeD [OF n'] by blast
qed

definition demo_display :: sysfs where
  "demo_display = [kModePath \<mapsto> new_file ''7'', kDefaultPath \<mapsto> new_file ''3'']"

definition demo_disk :: disk where "demo_disk = \<lparr>dk_creat = True, dk_space = 4096\<rparr>"

theorem display_modes_typed_witness:
  "\<exists>d c. getDefaultDisplayMode (DisplayModes (\<lambda>p. Some) demo_disk 9 demo_display) = Some d \<and>
     getCurrentDisplayMode 9 (DisplayModes (\<lambda>p. Some) demo_disk 9 demo_display) = Some c \<and> d \<in> set kModeMap \<and> c \<in> set kModeMap"
  by (rule display_modes_typed [OF rtranclp.rtrancl_refl])


lemma ofs_node_text:
  assumes "canWrite fs p" "drv p d = Some t"
  shows "fst (ofs_node drv p d fs)" "canRead fs p \<Longrightarrow> ifs_text p (snd (ofs_node drv p d fs)) = Some t"
    "q \<noteq> p \<Longrightarrow> snd (ofs_node drv p d fs) q = fs q"
  using assms by (auto simp: ofs_node_def ifs_text_def set_text_def canRead_def canWrite_def split: option.splits)

lemma ofs_file_text:
  assumes "ofs_file dk p d fs = (True, fs')" "fs p \<noteq> None \<Longrightarrow> canRead fs p"
  shows "ifs_text p fs' = Some (take (dk_space dk) d)"
  using assms by (auto simp: ofs_file_def ifs_text_def canRead_def new_file_def split: option.splits if_splits)

lemma length_mode: "0 \<le> m \<Longrightarrow> m \<le> 4 \<Longrightarrow> length (to_string m) = 1"
proof -
  assume "0 \<le> m" "m \<le> 4"
  then have "m = 0 \<or> m = 1 \<or> m = 2 \<or> m = 3 \<or> m = 4" by linarith
  then show ?thesis by (elim disjE) (simp_all add: to_string_def dec.simps)
qed

lemma setDisplayMode_ok:
  assumes "setDisplayMode drv dk m d st = (ok, st')" "0 \<le> m" "m \<le> 4" "canWrite (dm_files st) kModePath"
    and "canRead (dm_files st) kModePath" "drv kModePath (to_string m) = Some t"
  shows "ifs_text kModePath (dm_files st') = Some t"
proof -
  obtain name where "map_of kModeMap m = Some name" using mode_range [of m] assms(2,3) by auto
  moreover obtain ok1 fs1 where o1: "ofs_node drv kModePath (to_string m) (dm_files st) = (ok1, fs1)" by fastforce
  moreover have ok1: "ok1" and t: "ifs_text kModePath fs1 = Some t"
    using ofs_node_text [OF assms(4), of drv "to_string m" t] assms(5,6) o1 by simp_all
  moreover have "fs' kModePath = fs1 kModePath" if "ofs_file dk kDefaultPath (to_string m) fs1 = (b, fs')" for b fs'
    using that by (auto simp: ofs_file_def write_str_def set_text_def split: option.splits if_splits)
  ultimately show ?thesis using assms(1)
    by (auto simp: setDisplayMode_def find_mode ifs_text_def canRead_def split: if_splits prod.splits)
qed

text \<open>The constructor applies the mode it finds in the file of the default mode.\<close>

lemma DisplayModes_default:
  assumes "ifs_text kDefaultPath fs = Some (to_string m)" "0 \<le> m" "m \<le> 4"
  shows "DisplayModes drv dk junk fs = snd (setDisplayMode drv dk m False \<lparr>mDefaultModeId = m, dm_files = fs\<rparr>)"
proof -
  have "extract_int (Some (to_string m)) junk = (True, m)" using extract_to_string [of m "[]"] assms(2,3) by simp
  moreover have "mode_entry 0 m = m" using mode_range [of m] assms(2,3) by (auto simp: mode_entry_eq)
  ultimately show ?thesis by (simp add: DisplayModes_def assms(1))
qed

lemma setDisplayMode_keeps_default: "mDefaultModeId (snd (setDisplayMode drv dk m False st)) = mDefaultModeId st"
  by (auto simp: setDisplayMode_def split: option.split prod.split)

lemma getCurrentDisplayMode_read:
  assumes "ifs_text kModePath (dm_files st) = Some (to_string m @ r)" "0 \<le> m" "m \<le> 4" "r = [] \<or> \<not> c_isdigit (hd r)"
  shows "getCurrentDisplayMode junk st = Some (m, the (map_of kModeMap m))"
proof -
  have "extract_int (Some (to_string m @ r)) junk = (True, m)" using extract_to_string [of m r] assms(2-4) by simp
  then show ?thesis using mode_range [of m] assms(2,3) by (auto simp: getCurrentDisplayMode_def assms(1) mode_entry_eq)
qed

text \<open>
  Property C30. When \<open>setDisplayMode\<close> with the default flag reports success, the number was one of a mode and the service reports it as the default. If the
  disk then takes the one byte of the number, a service that is started later on the same default file, with the control file in any state, has the mode as
  its default and as the current mode again, provided that the driver takes the number and shows it. If the disk takes nothing, success was reported all the
  same, the old default is lost, and the service starts with mode 0 as its default.
\<close>

theorem default_mode_survives:
  assumes "setDisplayMode drv dk m True st = (True, st')"
    and "dm_files st kDefaultPath \<noteq> None \<Longrightarrow> canRead (dm_files st) kDefaultPath"
    and "fs = (dm_files st')(kModePath \<mapsto> n)" "fn_read n" "fn_write n"
    and "drv kModePath (to_string m) = Some (to_string m @ r)" "r = [] \<or> \<not> c_isdigit (hd r)"
  shows "\<exists>name. map_of kModeMap m = Some name \<and> getDefaultDisplayMode st' = Some (m, name) \<and>
    (if 0 < dk_space dk
     then getDefaultDisplayMode (DisplayModes drv dk' junk fs) = Some (m, name) \<and>
       getCurrentDisplayMode junk' (DisplayModes drv dk' junk fs) = Some (m, name)
     else getDefaultDisplayMode (DisplayModes drv dk' junk fs) = Some (0, ''Dynamic''))"
proof -
  obtain name ok1 fs1 fs2 where name: "map_of kModeMap m = Some name"
    and o1: "ofs_node drv kModePath (to_string m) (dm_files st) = (ok1, fs1)"
    and o2: "ofs_file dk kDefaultPath (to_string m) fs1 = (True, fs2)" "st' = st\<lparr>mDefaultModeId := m, dm_files := fs2\<rparr>"
    using assms(1) by (auto simp: setDisplayMode_def find_mode split: option.splits prod.splits if_splits)
  have m: "0 \<le> m" "m \<le> 4" using mode_range [of m] name by auto
  have "fs1 kDefaultPath = dm_files st kDefaultPath"
    using o1 by (auto simp: ofs_node_def set_text_def split: if_splits option.splits)
  then have "ifs_text kDefaultPath fs2 = Some (take (dk_space dk) (to_string m))"
    using ofs_file_text [OF o2(1)] assms(2) by (simp add: canRead_def)
  then have def: "ifs_text kDefaultPath fs = Some (take (dk_space dk) (to_string m))"
    using assms(3) o2(2) by (simp add: ifs_text_def canRead_def split: if_splits)
  have now: "getDefaultDisplayMode st' = Some (m, name)" using name o2(2) by (simp add: getDefaultDisplayMode_def)
  show ?thesis
  proof (cases "0 < dk_space dk")
    case True
    then have def: "ifs_text kDefaultPath fs = Some (to_string m)" using def length_mode [OF m] by simp
    let ?s = "\<lparr>mDefaultModeId = m, dm_files = fs\<rparr>"
    have d: "DisplayModes drv dk' junk fs = snd (setDisplayMode drv dk' m False ?s)" by (rule DisplayModes_default [OF def m])
    have "ifs_text kModePath (dm_files (snd (setDisplayMode drv dk' m False ?s))) = Some (to_string m @ r)"
      using setDisplayMode_ok [OF _ m, of drv dk' False ?s _ _ "to_string m @ r"] assms(3-6)
      by (metis canRead_def canWrite_def display_modes.select_convs(2) fun_upd_same option.simps(5) prod.collapse)
    then have "getCurrentDisplayMode junk' (DisplayModes drv dk' junk fs) = Some (m, name)"
      using getCurrentDisplayMode_read [OF _ m assms(7)] name d by simp
    moreover have "getDefaultDisplayMode (DisplayModes drv dk' junk fs) = Some (m, name)"
      using name by (simp add: getDefaultDisplayMode_def d setDisplayMode_keeps_default)
    ultimately show ?thesis using name now True by simp
  next
    case False
    then have "extract_int (ifs_text kDefaultPath fs) junk = (False, junk)" using def by (simp add: extract_int_def skip_ws_def)
    then have "getDefaultDisplayMode (DisplayModes drv dk' junk fs) = Some (0, ''Dynamic'')"
      by (simp add: DisplayModes_def getDefaultDisplayMode_def kModeMap_def)
    then show ?thesis using name now False by simp
  qed
qed

theorem default_mode_survives_witness:
  "let st' = snd (setDisplayMode (\<lambda>p. Some) demo_disk 2 True (DisplayModes (\<lambda>p. Some) demo_disk 9 demo_display));
       st2 = DisplayModes (\<lambda>p. Some) demo_disk 9 ((dm_files st')(kModePath \<mapsto> new_file ''0''))
   in getDefaultDisplayMode st2 = Some (2, ''Natural'') \<and> getCurrentDisplayMode 9 st2 = Some (2, ''Natural'')"
proof -
  let ?st = "DisplayModes (\<lambda>p. Some) demo_disk 9 demo_display"
  have "ifs_text kDefaultPath demo_display = Some (to_string 3)"
    by (simp add: ifs_text_def canRead_def demo_display_def new_file_def to_string_def dec.simps digit_char_def)
  from DisplayModes_default [OF this, of "\<lambda>p. Some" demo_disk 9]
  have "?st = snd (setDisplayMode (\<lambda>p. Some) demo_disk 3 False \<lparr>mDefaultModeId = 3, dm_files = demo_display\<rparr>)" by simp
  moreover have "map_of kModeMap 3 = Some ''Cinema''" by (simp add: kModeMap_def)
  ultimately have st: "?st = \<lparr>mDefaultModeId = 3, dm_files = [kModePath \<mapsto> new_file ''3'', kDefaultPath \<mapsto> new_file ''3'']\<rparr>"
    by (simp add: setDisplayMode_def find_mode ofs_node_def canWrite_def demo_display_def new_file_def set_text_def
        to_string_def dec.simps digit_char_def fun_upd_twist)
  have map2: "map_of kModeMap 2 = Some ''Natural''" by (simp add: kModeMap_def)
  have set2: "setDisplayMode (\<lambda>p. Some) demo_disk 2 True ?st = (True, snd (setDisplayMode (\<lambda>p. Some) demo_disk 2 True ?st))"
    unfolding st by (simp add: setDisplayMode_def find_mode map2 ofs_node_def ofs_file_def canWrite_def new_file_def set_text_def)
  have space: "0 < dk_space demo_disk" by (simp add: demo_disk_def)
  show ?thesis
    using default_mode_survives [OF set2 _ refl, of "new_file ''0''" "[]" demo_disk 9 9] map2 space
    by (simp add: st canRead_def new_file_def)
qed

section \<open>Colour calibration: what holds\<close>

fun join_with :: "char \<Rightarrow> string list \<Rightarrow> string" where
  "join_with d [] = []"
| "join_with d [p] = p"
| "join_with d (p # q # ps) = p @ d # join_with d (q # ps)"

text \<open>What is documented of \<open>libbase\<close>: \<open>Trim\<close> removes the white space at both ends, \<open>Split\<close> undoes joining.\<close>

definition base_lib_laws :: "base_lib \<Rightarrow> bool" where
  "base_lib_laws lib \<longleftrightarrow>
     (\<forall>w s w'. list_all c_isspace w \<and> list_all c_isspace w' \<and> (s = [] \<or> \<not> c_isspace (hd s) \<and> \<not> c_isspace (last s)) \<longrightarrow>
        b_Trim lib (w @ s @ w') = s) \<and>
     (\<forall>d ps. ps \<noteq> [] \<and> (\<forall>p \<in> set ps. d \<notin> set p) \<longrightarrow> b_Split lib (join_with d ps) d = ps)"

text \<open>A control file that shows what was written to it last, with white space behind it.\<close>

definition node_echoes :: "base_lib \<Rightarrow> string \<Rightarrow> bool" where
  "node_echoes lib path \<longleftrightarrow>
     (\<forall>data fs fs'. b_WriteStringToFile lib data path fs = (True, fs') \<longrightarrow>
        (\<exists>w. list_all c_isspace w \<and> b_ReadFileToString lib path fs' = Some (data @ w)))"

lemma to_string_ends:
  "to_string v \<noteq> []" "\<not> c_isspace (hd (to_string v))" "\<not> c_isspace (last (to_string v))" "CHR '' '' \<notin> set (to_string v)"
proof -
  have d: "c \<in> set (dec n) \<Longrightarrow> c_isdigit c" for c n using dec_digits(1) [of n] by (simp add: list_all_iff)
  have ne: "dec n \<noteq> []" for n by (rule dec_digits(2))
  show "to_string v \<noteq> []" using ne by (simp add: to_string_def)
  show "\<not> c_isspace (hd (to_string v))"
    using d [OF hd_in_set [OF ne]] not_space_digit by (auto simp: to_string_def c_isspace_def)
  show "\<not> c_isspace (last (to_string v))"
    using d [OF last_in_set [OF ne]] not_space_digit ne by (auto simp: to_string_def)
  show "CHR '' '' \<notin> set (to_string v)"
    using d [of "CHR '' ''"] by (auto simp: to_string_def c_isdigit_def less_eq_char_def)
qed

lemma join_with_ends:
  assumes "ps \<noteq> []" "\<forall>p \<in> set ps. p \<noteq> [] \<and> \<not> c_isspace (hd p) \<and> \<not> c_isspace (last p)"
  shows "join_with d ps \<noteq> [] \<and> \<not> c_isspace (hd (join_with d ps)) \<and> \<not> c_isspace (last (join_with d ps))"
  using assms by (induction d ps rule: join_with.induct) auto

lemma contents_join: "rgb \<noteq> [] \<Longrightarrow>
  concat (map (\<lambda>color. to_string color @ '' '') rgb) = join_with (CHR '' '') (map to_string rgb) @ '' ''"
proof (induction rgb)
  case (Cons c cs)
  then show ?case by (cases cs) simp_all
qed simp

lemma stoi_to_string: "- (2 ^ 31) \<le> v \<Longrightarrow> v < 2 ^ 31 \<Longrightarrow> stoi (to_string v) = Some v"
proof -
  assume v: "- (2 ^ 31) \<le> v" "v < 2 ^ 31"
  obtain c cs where c: "dec (nat \<bar>v\<bar>) = c # cs" "c_isdigit c" using dec_digits [of "nat \<bar>v\<bar>"] by (cases "dec (nat \<bar>v\<bar>)") auto
  have val: "digits_val 0 (c # cs) = \<bar>v\<bar>" using digits_val_dec [of "nat \<bar>v\<bar>"] c(1) by (simp del: digits_val.simps)
  have "fst (scan_int (to_string v)) = Some (if v < 0 then - digits_val 0 (c # cs) else digits_val 0 (c # cs))"
    using to_string_split [of v "[]"] c by (simp add: scan_int_def)
  then show ?thesis using v by (simp add: stoi_def val del: digits_val.simps)
qed

lemma stoi_all_to_string: "(\<And>v. v \<in> set rgb \<Longrightarrow> - (2 ^ 31) \<le> v \<and> v < 2 ^ 31) \<Longrightarrow> stoi_all (map to_string rgb) = Some rgb"
  by (induction rgb) (simp_all add: stoi_to_string)

text \<open>
  A calibration that is set reads back: after \<open>setCalibration\<close> of some colours reported success, \<open>getCalibration\<close>
  returns them, on a node that shows what was written to it. For no colours at all the node is emptied, and reading it ends in an
  exception that nobody catches.
\<close>

theorem calibration_roundtrip:
  assumes lib: "base_lib_laws lib" "node_echoes lib FILE_RGB"
    and "\<And>v. v \<in> set rgb \<Longrightarrow> - (2 ^ 31) \<le> v \<and> v < 2 ^ 31" "setCalibration lib rgb fs = (True, fs')"
  shows "getCalibration lib fs' = (if rgb = [] then None else Some rgb)"
proof -
  have trim: "b_Trim lib (s @ w) = s" if "list_all c_isspace w" "s = [] \<or> \<not> c_isspace (hd s) \<and> \<not> c_isspace (last s)" for s w
    using lib(1) that unfolding base_lib_laws_def by (metis append_Nil list.pred_inject(1))
  let ?s = "join_with (CHR '' '') (map to_string rgb)"
  have ends: "?s = [] \<or> \<not> c_isspace (hd ?s) \<and> \<not> c_isspace (last ?s)"
    using join_with_ends [of "map to_string rgb"] to_string_ends by (cases "rgb = []") auto
  have "b_Trim lib (concat (map (\<lambda>color. to_string color @ '' '') rgb)) = ?s"
    using trim [OF _ ends, of "'' ''"] trim [OF _ ends, of "[]"] contents_join [of rgb] by (cases "rgb = []") (auto simp: c_isspace_def)
  then obtain w where w: "list_all c_isspace w" "b_ReadFileToString lib FILE_RGB fs' = Some (?s @ w)"
    using assms(4) lib(2) by (fastforce simp: setCalibration_def node_echoes_def)
  have split: "b_Split lib (join_with d ps) d = ps" if "ps \<noteq> []" "\<forall>p \<in> set ps. d \<notin> set p" for d ps
    using lib(1) that by (simp add: base_lib_laws_def)
  show ?thesis
  proof (cases "rgb = []")
    case True
    have "b_Split lib [] (CHR '' '') = [[]]" using split [of "[[]]"] by simp
    then show ?thesis using True trim [OF w(1) ends]
      by (simp add: getCalibration_def w stoi_def scan_int_def skip_ws_def split_sign_def)
  next
    case False
    then show ?thesis using split [of "map to_string rgb" "CHR '' ''"] to_string_ends(4) trim [OF w(1) ends] assms(3)
      by (simp add: getCalibration_def w stoi_all_to_string)
  qed
qed

text \<open>An implementation of the functions, on which the hypotheses hold.\<close>

fun split_at :: "string \<Rightarrow> char \<Rightarrow> string list" where
  "split_at [] d = [[]]"
| "split_at (c # cs) d =
     (if c = d then [] # split_at cs d
      else (case split_at cs d of [] \<Rightarrow> [[c]] | p # ps \<Rightarrow> (c # p) # ps))"

definition trim_ws :: "string \<Rightarrow> string" where
  "trim_ws s = rev (dropWhile c_isspace (rev (dropWhile c_isspace s)))"

definition plain_base :: base_lib where
  "plain_base = \<lparr>b_Trim = trim_ws, b_Split = split_at, b_ReadFileToString = \<lambda>p fs. ifs_text p fs,
     b_WriteStringToFile = \<lambda>d p fs. if canWrite fs p \<and> canRead fs p then (True, set_text fs p (d @ [CHR 0x0A])) else (False, fs)\<rparr>"

lemma split_at_part: "d \<notin> set p \<Longrightarrow> split_at p d = [p]" "d \<notin> set p \<Longrightarrow> split_at (p @ d # r) d = p # split_at r d"
  by (induction p) auto

lemma split_at_join: "ps \<noteq> [] \<Longrightarrow> \<forall>p \<in> set ps. d \<notin> set p \<Longrightarrow> split_at (join_with d ps) d = ps"
  by (induction d ps rule: join_with.induct) (simp_all add: split_at_part)

lemma trim_ws_law:
  assumes "list_all c_isspace w" "list_all c_isspace w'" "s = [] \<or> \<not> c_isspace (hd s) \<and> \<not> c_isspace (last s)"
  shows "trim_ws (w @ s @ w') = s"
proof (cases "s = []")
  case False
  then obtain a where "s = hd s # a" by (cases s) auto
  then have "dropWhile c_isspace (s @ w') = s @ w'" using False assms(3) by (metis append_Cons dropWhile.simps(2))
  moreover have "dropWhile c_isspace (rev s) = rev s" using False assms(3) by (metis dropWhile_eq_self_iff hd_rev)
  moreover have "dropWhile c_isspace (rev w' @ rev s) = dropWhile c_isspace (rev s)"
    using assms(2) by (intro dropWhile_append2) (simp add: list_all_iff)
  ultimately show ?thesis using assms(1) by (simp add: trim_ws_def list_all_iff dropWhile_append2)
next
  case True
  then show ?thesis using assms(1,2) by (simp add: trim_ws_def list_all_iff dropWhile_append2 dropWhile_eq_Nil_conv)
      (metis set_dropWhileD)
qed

lemma plain_base_laws: "base_lib_laws plain_base" "node_echoes plain_base path"
proof -
  show "base_lib_laws plain_base" by (simp add: base_lib_laws_def plain_base_def trim_ws_law split_at_join)
  have "list_all c_isspace [CHR 0x0A]" by (simp add: c_isspace_def)
  then show "node_echoes plain_base path"
    by (auto simp: node_echoes_def plain_base_def ifs_text_def set_text_def canWrite_def canRead_def split: option.splits if_splits)
qed

theorem calibration_roundtrip_witness:
  "getCalibration plain_base (snd (setCalibration plain_base [255, 0, 128] [FILE_RGB \<mapsto> new_file []])) = Some [255, 0, 128]"
proof -
  have "fst (setCalibration plain_base [255, 0, 128] [FILE_RGB \<mapsto> new_file []])"
    by (simp add: setCalibration_def plain_base_def canWrite_def canRead_def new_file_def)
  then have "setCalibration plain_base [255, 0, 128] [FILE_RGB \<mapsto> new_file []] =
      (True, snd (setCalibration plain_base [255, 0, 128] [FILE_RGB \<mapsto> new_file []]))" by (simp add: prod_eq_iff)
  moreover have "- (2 ^ 31) \<le> v \<and> v < 2 ^ 31" if "v \<in> set [255, 0, 128 :: int]" for v using that by auto
  ultimately show ?thesis using calibration_roundtrip [OF plain_base_laws, of "[255, 0, 128]"] by (metis list.distinct(1))
qed

text \<open>Switching the sunlight enhancement reads back too.\<close>

lemma sunlight_roundtrip:
  assumes "base_lib_laws lib" "node_echoes lib kLuxPath" "setEnabled lib b fs = (True, fs')"
  shows "isEnabled lib fs' = Some b"
proof -
  let ?s = "to_string (if b then 1 else 0)"
  have s: "(if b then ''1'' else ''0'') = ?s" by (simp add: to_string_def dec.simps digit_char_def)
  obtain w where w: "list_all c_isspace w" "b_ReadFileToString lib kLuxPath fs' = Some (?s @ w)"
    using assms(2,3) by (fastforce simp: setEnabled_def node_echoes_def s)
  have "b_Trim lib ([] @ ?s @ w) = ?s"
    using assms(1) w(1) to_string_ends [of "if b then 1 else 0"] unfolding base_lib_laws_def by (metis list.pred_inject(1))
  then show ?thesis using w(2) stoi_to_string [of "if b then 1 else 0"] by (simp add: isEnabled_def)
qed

end
