(* ===== verification/Device_Model.thy ===== *)
theory Device_Model
  imports C_Text
begin

text \<open>
  The choice of the device variant from the name of the boot loader (\<open>include/zero-helpers.h\<close>), the choices of the
  audio library that depend on it (\<open>include/samsung_audio-common.h\<close>), and the daemon of the radio interface
  (\<open>hardware/rild/rild.c\<close>), which loads the library for the variant. Properties, the loader of libraries and the
  name of the radio service are arguments. \<^const>\<open>None\<close> is a write outside an array.
\<close>

section \<open>The variant of the device\<close>

datatype zero_model = UNDEFINED | DEFAULT | INDIA | TMOBILE | CANADA | SPRINT

definition PROPERTY_VALUE_MAX :: nat where "PROPERTY_VALUE_MAX = 92"

text \<open>\<open>!strncmp(s, lit, n)\<close> for one of several literals.\<close>

definition starts :: "string \<Rightarrow> nat \<Rightarrow> string list \<Rightarrow> bool" where
  "starts s n lits = list_ex (\<lambda>lit. take n s = take n lit) lits"

text \<open>The result and the cached variant; \<open>bootloader\<close> is what \<open>property_get\<close> stores.\<close>

definition zero_model_read :: "string \<Rightarrow> zero_model \<Rightarrow> zero_model \<times> zero_model" where
  "zero_model_read bootloader cached =
     (if cached \<noteq> UNDEFINED then (cached, cached)
      else (let bootloader_len = length bootloader;
                m = (if bootloader_len \<le> 0 \<or> PROPERTY_VALUE_MAX \<le> bootloader_len then UNDEFINED
                     else if starts bootloader 5 [''G920I'', ''G925I'', ''G928I'', ''N920I''] then INDIA
                     else if starts bootloader 5 [''G920T'', ''G925T'', ''G928T'', ''N920T''] then TMOBILE
                     else if starts bootloader 6 [''G920W8'', ''G925W8'', ''G928W8'', ''N920W8''] then CANADA
                     else if starts bootloader 6 [''G920P'', ''G925P'', ''G920R4'', ''G925R4'', ''G9200'', ''G9250'',
                       ''G9208'', ''G9258'', ''G9209'', ''G9259''] then SPRINT
                     else DEFAULT)
            in (m, m)))"

definition zero_audio_supports_audience :: "string \<Rightarrow> zero_model \<Rightarrow> bool \<times> zero_model" where
  "zero_audio_supports_audience bootloader cached =
     (case zero_model_read bootloader cached of (model, cached') \<Rightarrow> (model \<in> {TMOBILE, CANADA, SPRINT}, cached'))"

definition zero_audio_select_mixer_paths :: "string \<Rightarrow> zero_model \<Rightarrow> (string \<times> bool) \<times> zero_model" where
  "zero_audio_select_mixer_paths bootloader cached =
     (case zero_audio_supports_audience bootloader cached of
        (audience, cached') \<Rightarrow>
          ((if audience then ''/vendor/etc/mixer_paths-audience.xml'' else ''/vendor/etc/mixer_paths.xml'', True), cached'))"

section \<open>Arguments of the radio daemon\<close>

definition MAX_LIB_ARGS :: nat where "MAX_LIB_ARGS = 16"
definition RIL_PATH_MAX :: nat where "RIL_PATH_MAX = 4096"
definition MAX_RILDS :: int where "MAX_RILDS = 3"
definition MAX_SERVICE_NAME_LENGTH :: nat where "MAX_SERVICE_NAME_LENGTH = 6"
definition MAX_CLIENT_ID_LENGTH :: nat where "MAX_CLIENT_ID_LENGTH = 2"

text \<open>Writing to a slot of an array.\<close>

definition put_slot :: "nat \<Rightarrow> 'a \<Rightarrow> 'a list \<Rightarrow> 'a list option" where
  "put_slot i x xs = (if i < length xs then Some (xs[i := x]) else None)"

text \<open>The calls of \<open>strtok\<close> with a space as the delimiter.\<close>

function strtok_all :: "string \<Rightarrow> string list" where
  "strtok_all s =
     (let t = dropWhile (\<lambda>c. c = CHR '' '') s
      in if t = [] then []
         else takeWhile (\<lambda>c. c \<noteq> CHR '' '') t # strtok_all (dropWhile (\<lambda>c. c \<noteq> CHR '' '') t))"
  by pat_completeness auto
termination
proof (relation "measure length")
  fix s t :: string
  assume t: "t = dropWhile (\<lambda>c. c = CHR '' '') s" "t \<noteq> []"
  then have "hd t \<noteq> CHR '' ''" using hd_dropWhile [of "\<lambda>c. c = CHR '' ''" s] by simp
  then have "length (dropWhile (\<lambda>c. c \<noteq> CHR '' '') t) < length t"
    using t(2) by (cases t) (auto simp: le_imp_less_Suc length_dropWhile_le)
  also have "\<dots> \<le> length s" using t(1) by (simp add: length_dropWhile_le)
  finally show "(dropWhile (\<lambda>c. c \<noteq> CHR '' '') t, s) \<in> measure length" by simp
qed simp

declare strtok_all.simps [simp del]

fun fill_argv :: "string list \<Rightarrow> nat \<Rightarrow> string option list \<Rightarrow> (nat \<times> string option list) option" where
  "fill_argv [] count argv = Some (count, argv)"
| "fill_argv (tok # toks) count argv =
     (case put_slot count (Some tok) argv of None \<Rightarrow> None | Some argv' \<Rightarrow> fill_argv toks (count + 1) argv')"

definition make_argv :: "string \<Rightarrow> string option list \<Rightarrow> (nat \<times> string option list) option" where
  "make_argv args argv = fill_argv (strtok_all args) 1 argv"

record rild_opts =
  rilLibPath :: "string option"
  clientId :: "string option"
  rilImplSuffix :: "string option"
  hasLibArgs :: bool

text \<open>The loop over the arguments behind \<open>argv[0]\<close>: \<^const>\<open>None\<close> is the exit in \<open>usage\<close>, the second result the arguments that are left.\<close>

function rild_parse_args :: "string list \<Rightarrow> rild_opts \<Rightarrow> (rild_opts \<times> string list) option" where
  "rild_parse_args [] opts = Some (opts, [])"
| "rild_parse_args (a # rest) opts =
     (if a = ''-l'' \<and> rest \<noteq> [] then rild_parse_args (tl rest) (opts\<lparr>rilLibPath := Some (hd rest)\<rparr>)
      else if a = ''--'' then Some (opts\<lparr>hasLibArgs := True\<rparr>, rest)
      else if a = ''-c'' \<and> rest \<noteq> [] then rild_parse_args (tl rest) (opts\<lparr>clientId := Some (hd rest)\<rparr>)
      else if a = ''-s'' \<and> rest \<noteq> [] then rild_parse_args (tl rest) (opts\<lparr>rilImplSuffix := Some (hd rest)\<rparr>)
      else None)"
  by pat_completeness auto
termination by (relation "measure (length \<circ> fst)") auto

definition no_opts :: rild_opts where
  "no_opts = \<lparr>rilLibPath = None, clientId = None, rilImplSuffix = None, hasLibArgs = False\<rparr>"

section \<open>The radio daemon\<close>

record rild_env =
  re_service_base :: string
  re_service :: string
  re_bootloader :: string
  re_libargs :: string
  re_dlopen :: "string \<Rightarrow> bool"
  re_init :: "string \<Rightarrow> bool"
  re_sap :: "string \<Rightarrow> bool"

text \<open>What is handed to \<open>RIL_Init\<close>, and the block of arguments and environment afterwards.\<close>

record rild_start =
  rs_lib :: string
  rs_service :: string
  rs_argc :: nat
  rs_argv :: "string option list"
  rs_block :: "string option list"
  rs_sap :: bool

datatype rild_run = Exit int | Started rild_start

definition auto_lib :: "zero_model \<Rightarrow> string" where
  "auto_lib model =
     (case model of
        INDIA \<Rightarrow> ''/vendor/lib64/libsec-ril-india''
      | TMOBILE \<Rightarrow> ''/vendor/lib64/libsec-ril-tmobile''
      | CANADA \<Rightarrow> ''/vendor/lib64/libsec-ril-canada''
      | SPRINT \<Rightarrow> ''/vendor/lib64/libsec-ril-spr''
      | _ \<Rightarrow> ''/vendor/lib64/libsec-ril'')"

definition lib_path :: "string \<Rightarrow> rild_opts \<Rightarrow> string option" where
  "lib_path bootloader opts =
     (case rilLibPath opts of
        Some p \<Rightarrow> Some p
      | None \<Rightarrow>
          (let newRilLibPath = auto_lib (fst (zero_model_read bootloader UNDEFINED)) @
                 (case rilImplSuffix opts of None \<Rightarrow> [] | Some s \<Rightarrow> ''-'' @ s) @ ''.so''
           in if length newRilLibPath < RIL_PATH_MAX then Some newRilLibPath else None))"

definition client_number :: "string \<Rightarrow> int" where
  "client_number s = signed_take_bit 31 (fst (strtol 63 10 s))"

definition service_name :: "rild_env \<Rightarrow> string \<Rightarrow> string" where
  "service_name env client =
     (if take MAX_CLIENT_ID_LENGTH client = take MAX_CLIENT_ID_LENGTH ''0'' then re_service env
      else take (MAX_SERVICE_NAME_LENGTH - 1) (re_service_base env @ client))"

text \<open>The block the kernel lays out: the arguments, a null pointer, the environment, a null pointer.\<close>

definition arg_block :: "string list \<Rightarrow> string list \<Rightarrow> string option list" where
  "arg_block argv envp = map Some argv @ [None] @ map Some envp @ [None]"

text \<open>The arguments of the library: the number, the array, and the block of the process afterwards. With \<open>--\<close> the array
  is part of the block, from the argument \<open>--\<close> on.\<close>

definition ril_argv ::
    "string list \<Rightarrow> string list \<Rightarrow> string list \<Rightarrow> bool \<Rightarrow> string \<Rightarrow> string \<Rightarrow> (nat \<times> string option list \<times> string option list) option" where
  "ril_argv argv envp rest hasArgs libargs client =
     (if hasArgs
      then (let block = arg_block argv envp; off = length argv - length rest - 1; argc = length rest + 1
            in do { block \<leftarrow> put_slot (off + argc) (Some ''-c'') block;
                    block \<leftarrow> put_slot (off + argc + 1) (Some client) block;
                    block \<leftarrow> put_slot off (Some (hd argv)) block;
                    Some (argc + 2, drop off block, block) })
      else do { (argc, rilArgv) \<leftarrow> make_argv libargs (replicate MAX_LIB_ARGS None);
                rilArgv \<leftarrow> put_slot argc (Some ''-c'') rilArgv;
                rilArgv \<leftarrow> put_slot (argc + 1) (Some client) rilArgv;
                rilArgv \<leftarrow> put_slot 0 (Some (hd argv)) rilArgv;
                Some (argc + 2, rilArgv, arg_block argv envp) })"

definition rild_main :: "rild_env \<Rightarrow> string list \<Rightarrow> string list \<Rightarrow> rild_run option" where
  "rild_main env argv envp =
     (case rild_parse_args (tl argv) no_opts of
        None \<Rightarrow> Some (Exit 1)
      | Some (opts, rest) \<Rightarrow>
          if (case clientId opts of None \<Rightarrow> False | Some c \<Rightarrow> MAX_RILDS \<le> client_number c) then Some (Exit 0)
          else (let client = (case clientId opts of None \<Rightarrow> ''0'' | Some c \<Rightarrow> c)
                in do { lib \<leftarrow> lib_path (re_bootloader env) opts;
                        if \<not> re_dlopen env lib then Some (Exit 1)
                        else if \<not> re_init env lib then Some (Exit 1)
                        else do { (argc, rilArgv, block) \<leftarrow> ril_argv argv envp rest (hasLibArgs opts) (re_libargs env) client;
                                  Some (Started \<lparr>rs_lib = lib, rs_service = service_name env client, rs_argc = argc,
                                                 rs_argv = rilArgv, rs_block = block, rs_sap = re_sap env lib\<rparr>) } }))"

section \<open>What holds of the variant\<close>

text \<open>A second call takes the result of the first one, whatever the property has become.\<close>

lemma zero_model_cached:
  "zero_model_read b UNDEFINED = (m, c) \<Longrightarrow> m \<noteq> UNDEFINED \<Longrightarrow> zero_model_read b' c = (m, m)"
  by (auto simp: zero_model_read_def Let_def split: if_splits)

lemma model_plain:
  assumes "p \<in> {''G920P'', ''G925P'', ''G9200'', ''G9250'', ''G9208'', ''G9258'', ''G9209'', ''G9259''}" "v \<noteq> []" "length v < 80"
  shows "fst (zero_model_read (p @ v) UNDEFINED) = DEFAULT"
proof -
  obtain c w where v: "v = c # w" using assms(2) by (cases v) auto
  from assms(1) show ?thesis
    using assms(3) by (elim insertE emptyE) (simp_all add: zero_model_read_def starts_def PROPERTY_VALUE_MAX_def v)
qed

lemma model_named:
  assumes "v \<noteq> []" "length v < 80"
  shows "p \<in> {''G920R4'', ''G925R4''} \<Longrightarrow> fst (zero_model_read (p @ v) UNDEFINED) = SPRINT"
    and "p \<in> {''G920I'', ''G925I'', ''G928I'', ''N920I''} \<Longrightarrow> fst (zero_model_read (p @ v) UNDEFINED) = INDIA"
    and "p \<in> {''G920T'', ''G925T'', ''G928T'', ''N920T''} \<Longrightarrow> fst (zero_model_read (p @ v) UNDEFINED) = TMOBILE"
    and "p \<in> {''G920W8'', ''G925W8'', ''G928W8'', ''N920W8''} \<Longrightarrow> fst (zero_model_read (p @ v) UNDEFINED) = CANADA"
  using assms
  by (elim insertE emptyE; simp add: zero_model_read_def starts_def PROPERTY_VALUE_MAX_def)+

text \<open>
  Comparing six characters with a literal of five also compares its end: of the boot loaders of the Sprint
  variant (P, R4, 0, 8, 9), named by a model and a version behind it, only R4 is recognised. For the others the variant is the default one, so
  the radio daemon loads the library of the default variant and the audio library the mixer paths without audience. The shorter comparisons of the
  variants I and T and the comparison with W8 do what they are for.
\<close>

theorem sprint_not_recognised:
  assumes "v \<noteq> []" "length v < 80"
  shows "(\<forall>p \<in> {''G920P'', ''G925P'', ''G9200'', ''G9250'', ''G9208'', ''G9258'', ''G9209'', ''G9259''}.
      fst (zero_model_read (p @ v) UNDEFINED) = DEFAULT \<and>
      lib_path (p @ v) no_opts = Some ''/vendor/lib64/libsec-ril.so'' \<and>
      fst (fst (zero_audio_select_mixer_paths (p @ v) UNDEFINED)) = ''/vendor/etc/mixer_paths.xml'') \<and>
    (\<forall>p \<in> {''G920R4'', ''G925R4''}. fst (zero_model_read (p @ v) UNDEFINED) = SPRINT) \<and>
    (\<forall>p \<in> {''G920I'', ''G925I'', ''G928I'', ''N920I''}. fst (zero_model_read (p @ v) UNDEFINED) = INDIA) \<and>
    (\<forall>p \<in> {''G920T'', ''G925T'', ''G928T'', ''N920T''}. fst (zero_model_read (p @ v) UNDEFINED) = TMOBILE) \<and>
    (\<forall>p \<in> {''G920W8'', ''G925W8'', ''G928W8'', ''N920W8''}. fst (zero_model_read (p @ v) UNDEFINED) = CANADA)"
proof (intro conjI ballI)
  fix p assume p: "p \<in> {''G920P'', ''G925P'', ''G9200'', ''G9250'', ''G9208'', ''G9258'', ''G9209'', ''G9259''}"
  show d: "fst (zero_model_read (p @ v) UNDEFINED) = DEFAULT" using p assms by (rule model_plain)
  then show "lib_path (p @ v) no_opts = Some ''/vendor/lib64/libsec-ril.so''"
    by (simp add: lib_path_def no_opts_def auto_lib_def RIL_PATH_MAX_def)
  show "fst (fst (zero_audio_select_mixer_paths (p @ v) UNDEFINED)) = ''/vendor/etc/mixer_paths.xml''"
    using d by (auto simp: zero_audio_select_mixer_paths_def zero_audio_supports_audience_def split: prod.split)
qed (use model_named [OF assms] in blast)+

theorem sprint_not_recognised_witness:
  "fst (zero_model_read (''G920P'' @ ''VPU3DQD1'') UNDEFINED) = DEFAULT \<and> fst (zero_model_read (''G920W8'' @ ''VLU5'') UNDEFINED) = CANADA"
  using sprint_not_recognised [of "''VPU3DQD1''"] sprint_not_recognised [of "''VLU5''"] by simp

section \<open>What holds of the radio daemon\<close>

lemma fill_argv_spec:
  "fill_argv toks count argv =
     (if count + length toks \<le> length argv \<or> toks = []
      then Some (count + length toks, take count argv @ map Some toks @ drop (count + length toks) argv) else None)"
proof (induction toks arbitrary: count argv)
  case (Cons t ts)
  show ?case
  proof (cases "count < length argv")
    case True
    then have "take (Suc count) (argv[count := Some t]) = take count argv @ [Some t]" by (simp add: take_Suc_conv_app_nth)
    then show ?thesis using True by (auto simp: put_slot_def Cons.IH)
  qed (simp add: put_slot_def)
qed simp

text \<open>The arguments from the property: the array has room for thirteen words beside the name and the client.\<close>

lemma ril_argv_property:
  assumes "length (strtok_all libargs) = n" "argv \<noteq> []"
  shows "ril_argv argv envp rest False libargs client =
    (if n \<le> 13
     then Some (n + 3, map Some (hd argv # strtok_all libargs @ [''-c'', client]) @ replicate (13 - n) None, arg_block argv envp)
     else None)"
proof (cases "n \<le> 13")
  case True
  let ?t = "strtok_all libargs"
  have fill: "make_argv libargs (replicate 16 None) = Some (n + 1, None # map Some ?t @ replicate (15 - n) None)"
    using True assms(1) by (auto simp: make_argv_def fill_argv_spec)
  moreover have "15 - n = Suc (Suc (13 - n))" using True by simp
  moreover have "(xs @ a # b # ys)[length xs := c, Suc (length xs) := d] = xs @ c # d # ys" for xs ys and a b c d :: "string option"
    by (simp add: list_update_append)
  ultimately show ?thesis using True assms(1)
    by (simp add: ril_argv_def MAX_LIB_ARGS_def put_slot_def list_update_append)
next
  case False
  have "(do { (argc, rilArgv) \<leftarrow> make_argv libargs (replicate MAX_LIB_ARGS None);
              rilArgv \<leftarrow> put_slot argc (Some ''-c'') rilArgv;
              put_slot (argc + 1) (Some client) rilArgv }) = None"
    using False assms(1) by (auto simp: make_argv_def fill_argv_spec MAX_LIB_ARGS_def put_slot_def)
  then show ?thesis using False by (auto simp: ril_argv_def Option.bind_eq_None_conv split: prod.splits)
qed

lemma put_slot_append: "n = length xs \<Longrightarrow> put_slot n a (xs @ b # ys) = Some (xs @ a # ys)"
  by (simp add: put_slot_def)

text \<open>The arguments behind \<open>--\<close>: the two words that are appended replace the null pointer behind the arguments and the first
  pointer of the environment.\<close>

lemma ril_argv_block:
  assumes "argv = pre @ ''--'' # rest" "pre \<noteq> []"
  shows "ril_argv argv envp rest True libargs client =
    Some (length rest + 3,
      map Some (hd argv # rest @ [''-c'', client]) @ drop 1 (map Some envp @ [None]),
      map Some (pre @ hd argv # rest @ [''-c'', client]) @ drop 1 (map Some envp @ [None]))"
proof -
  have off: "length argv - length rest - 1 = length pre" using assms(1) by simp
  obtain e es where e: "map Some envp @ [None] = e # es" by (cases envp) auto
  have block: "arg_block argv envp = map Some pre @ Some ''--'' # map Some rest @ None # e # es"
    using e assms(1) by (simp add: arg_block_def)
  have "put_slot (length pre + (length rest + 1)) (Some ''-c'') (arg_block argv envp) =
      Some ((map Some pre @ Some ''--'' # map Some rest) @ Some ''-c'' # e # es)"
    using put_slot_append [of _ "map Some pre @ Some ''--'' # map Some rest"] by (simp add: block)
  moreover have "put_slot (length pre + (length rest + 1) + 1) (Some client) ((map Some pre @ Some ''--'' # map Some rest) @ Some ''-c'' # e # es) =
      Some (map Some pre @ Some ''--'' # map Some rest @ Some ''-c'' # Some client # es)"
    using put_slot_append [of _ "map Some pre @ Some ''--'' # map Some rest @ [Some ''-c'']" "Some client" e es] by simp
  moreover have "put_slot (length pre) (Some (hd argv)) (map Some pre @ Some ''--'' # map Some rest @ Some ''-c'' # Some client # es) =
      Some (map Some pre @ Some (hd argv) # map Some rest @ Some ''-c'' # Some client # es)"
    by (simp add: put_slot_append)
  ultimately show ?thesis unfolding ril_argv_def off by (simp add: e)
qed

text \<open>
  Property C34. If the options are well-formed, the client is one of three and the library loads, the daemon starts the library with its own name, the
  further arguments and the client. The arguments from the property \<open>rild.libargs\<close> fit if there are at most thirteen, with more the daemon
  writes behind its array. The arguments behind \<open>--\<close> are passed on too, but the client is written over the first variable of
  the environment.
\<close>

theorem rild_passes_arguments:
  assumes opts: "rild_parse_args (tl argv) no_opts = Some (opts, rest)" "argv \<noteq> []" "case_option ''0'' id (clientId opts) = client"
    and "client_number client < 3" "lib_path (re_bootloader env) opts = Some lib" "re_dlopen env lib" "re_init env lib"
    and block: "hasLibArgs opts \<Longrightarrow> argv = pre @ ''--'' # rest \<and> pre \<noteq> []"
  shows "rild_main env argv envp =
    (let words = (if hasLibArgs opts then rest else strtok_all (re_libargs env));
         env' = (if hasLibArgs opts then drop 1 (map Some envp @ [None]) else replicate (13 - length words) None)
     in if \<not> hasLibArgs opts \<and> 13 < length words then None
        else Some (Started \<lparr>rs_lib = lib, rs_service = service_name env client, rs_argc = length words + 3,
          rs_argv = map Some (hd argv # words @ [''-c'', client]) @ env',
          rs_block = (if hasLibArgs opts then map Some (pre @ hd argv # rest @ [''-c'', client]) @ drop 1 (map Some envp @ [None])
                      else arg_block argv envp),
          rs_sap = re_sap env lib\<rparr>))"
proof -
  have c: "\<not> (case clientId opts of None \<Rightarrow> False | Some c \<Rightarrow> MAX_RILDS \<le> client_number c)"
    using assms(3,4) by (auto simp: MAX_RILDS_def split: option.splits)
  have c': "(case clientId opts of None \<Rightarrow> ''0'' | Some c \<Rightarrow> c) = client" using assms(3) by (auto split: option.splits)
  have "rild_main env argv envp =
      map_option (\<lambda>(argc, a, b). Started \<lparr>rs_lib = lib, rs_service = service_name env client, rs_argc = argc,
        rs_argv = a, rs_block = b, rs_sap = re_sap env lib\<rparr>)
      (ril_argv argv envp rest (hasLibArgs opts) (re_libargs env) client)"
    using c c' assms(5-7)
    by (cases "ril_argv argv envp rest (hasLibArgs opts) (re_libargs env) client") (auto simp: rild_main_def opts(1) split: option.split)
  moreover have "ril_argv argv envp rest (hasLibArgs opts) (re_libargs env) client =
    (if hasLibArgs opts then ril_argv argv envp rest True (re_libargs env) client
     else ril_argv argv envp rest False (re_libargs env) client)" by simp
  ultimately show ?thesis
    using ril_argv_block [of argv pre rest envp "re_libargs env" client] block
      ril_argv_property [OF refl opts(2), where libargs = "re_libargs env" and client = client]
    by (cases "hasLibArgs opts") (simp_all add: Let_def)
qed

definition demo_rild :: rild_env where
  "demo_rild = \<lparr>re_service_base = ''rild'', re_service = ''rild'', re_bootloader = ''G920IDVU3FQD1'', re_libargs = ''-d /dev/smd0'',
     re_dlopen = (\<lambda>l. l = ''/vendor/lib64/libsec-ril-india.so''), re_init = (\<lambda>l. True), re_sap = (\<lambda>l. False)\<rparr>"

theorem rild_passes_arguments_witness:
  "rild_main demo_rild [''rild'', ''-c'', ''2'', ''--'', ''-x''] [''PATH=/bin'', ''HOME=/''] =
   Some (Started \<lparr>rs_lib = ''/vendor/lib64/libsec-ril-india.so'', rs_service = ''rild2'', rs_argc = 4,
     rs_argv = [Some ''rild'', Some ''-x'', Some ''-c'', Some ''2'', Some ''HOME=/'', None],
     rs_block = map Some [''rild'', ''-c'', ''2'', ''rild'', ''-x'', ''-c'', ''2'', ''HOME=/''] @ [None], rs_sap = False\<rparr>)"
proof -
  let ?argv = "[''rild'', ''-c'', ''2'', ''--'', ''-x'']"
  let ?o = "no_opts\<lparr>clientId := Some ''2'', hasLibArgs := True\<rparr>"
  let ?lib = "''/vendor/lib64/libsec-ril-india.so''"
  have a: "rild_parse_args (tl ?argv) no_opts = Some (?o, [''-x''])" by (simp add: no_opts_def)
  have b: "client_number ''2'' < 3"
    using strtol_to_string [of 63 2 "[]"] by (simp add: client_number_def to_string_def dec.simps digit_char_def signed_take_bit_int_eq_self)
  have c: "lib_path (re_bootloader demo_rild) ?o = Some ?lib"
    by (simp add: lib_path_def no_opts_def demo_rild_def zero_model_read_def starts_def PROPERTY_VALUE_MAX_def auto_lib_def RIL_PATH_MAX_def)
  have d: "case_option ''0'' id (clientId ?o) = ''2''" "hasLibArgs ?o" "?argv \<noteq> []" by simp_all
  have e: "re_dlopen demo_rild ?lib" "re_init demo_rild ?lib" by (simp_all add: demo_rild_def)
  have f: "?argv = [''rild'', ''-c'', ''2''] @ ''--'' # [''-x''] \<and> [''rild'', ''-c'', ''2''] \<noteq> []" by simp
  have g: "service_name demo_rild ''2'' = ''rild2''" "re_sap demo_rild ?lib = False"
    by (simp_all add: service_name_def demo_rild_def MAX_CLIENT_ID_LENGTH_def MAX_SERVICE_NAME_LENGTH_def)
  show ?thesis
    using rild_passes_arguments [OF a d(3) d(1) b c e f, where envp = "[''PATH=/bin'', ''HOME=/'']"]
    unfolding Let_def g by (simp only: d(2) if_True simp_thms if_False) simp
qed

end
