(* ===== verification/Init_Sec.thy ===== *)
theory Init_Sec
  imports C_Text
begin

text \<open>
  The library \<open>init/init_sec.{h,cpp}\<close>, which init calls before it reads the properties of the vendor: it chooses model, device and
  product from the name of the boot loader and overrides properties. The functions of the property system of the platform are
  arguments, over a state \<open>'s\<close> and records \<open>'p\<close>; each may fail, answer with an error code and change the state. What the library relies on is
  the locale \<open>platform_properties\<close>, which the model of the property system interprets in \<open>Property_Api\<close>.
\<close>

section \<open>Strings\<close>

text \<open>\<open>string::find\<close> and the replacement of the first occurrence.\<close>

fun str_find :: "string \<Rightarrow> string \<Rightarrow> nat option" where
  "str_find [] pat = (if pat = [] then Some 0 else None)"
| "str_find (c # cs) pat = (if take (length pat) (c # cs) = pat then Some 0 else map_option Suc (str_find cs pat))"

definition str_replace :: "string \<Rightarrow> string \<Rightarrow> string \<Rightarrow> bool \<times> string" where
  "str_replace str from to =
     (case str_find str from of
        None \<Rightarrow> (False, str)
      | Some start_pos \<Rightarrow> (True, take start_pos str @ to @ drop (start_pos + length from) str))"

section \<open>Properties\<close>

text \<open>\<open>android::base::GetProperty\<close> with an empty default, and the three functions of the C interface.\<close>

record ('s, 'p) property_api =
  pa_get :: "string \<Rightarrow> 's \<Rightarrow> (string \<times> 's) option"
  pa_find :: "string \<Rightarrow> 's \<Rightarrow> ('p option \<times> 's) option"
  pa_update :: "'p \<Rightarrow> string \<Rightarrow> nat \<Rightarrow> 's \<Rightarrow> (int \<times> 's) option"
  pa_add :: "string \<Rightarrow> string \<Rightarrow> 's \<Rightarrow> (int \<times> 's) option"

text \<open>The result of the update or addition is ignored.\<close>

definition property_override :: "('s, 'p) property_api \<Rightarrow> string \<Rightarrow> string \<Rightarrow> 's \<Rightarrow> 's option" where
  "property_override api prop v s =
     do { (pi, s1) \<leftarrow> pa_find api prop s;
          (r, s2) \<leftarrow> (case pi of Some p \<Rightarrow> pa_update api p v (length v) s1 | None \<Rightarrow> pa_add api prop v s1);
          Some s2 }"

fun override_all :: "('s, 'p) property_api \<Rightarrow> (string \<times> string) list \<Rightarrow> 's \<Rightarrow> 's option" where
  "override_all api [] s = Some s"
| "override_all api ((prop, v) # ps) s = do { s1 \<leftarrow> property_override api prop v s; override_all api ps s1 }"

section \<open>The variants\<close>

text \<open>An if-else chain of tests \<open>bootloader.find(code) != npos\<close>.\<close>

fun pick_variant :: "string \<Rightarrow> (string \<times> 'a) list \<Rightarrow> 'a \<Rightarrow> 'a" where
  "pick_variant b [] d = d"
| "pick_variant b ((code, x) # rest) d = (if str_find b code \<noteq> None then x else pick_variant b rest d)"

text \<open>Model, device, and whether the device has two SIM cards; nothing is set in the branch of the variant that was built for.\<close>

type_synonym variant = "string \<times> string \<times> bool"

definition unset :: variant where "unset = ([], [], False)"

definition unless_orig :: "string \<Rightarrow> string \<Rightarrow> variant \<Rightarrow> variant" where
  "unless_orig device_orig d v = (if device_orig \<noteq> d then v else unset)"

definition flat_variants :: "string \<Rightarrow> (string \<times> variant) list" where
  "flat_variants device_orig =
     [(''G920F'', unless_orig device_orig ''zeroflteduo'' (''SM-G920F'', ''zerofltexx'', False)),
      (''G920I'', ''SM-G920I'', ''zerofltexx'', False), (''G920K'', ''SM-G920K'', ''zerofltektt'', False),
      (''G920L'', ''SM-G920L'', ''zerofltelgt'', False), (''G920P'', ''SM-G920P'', ''zerofltespr'', False),
      (''G920S'', ''SM-G920S'', ''zeroflteskt'', False), (''G920T'', ''SM-G920T'', ''zerofltetmo'', False),
      (''G920W8'', ''SM-G920W8'', ''zerofltecan'', False)]"

definition edge_variants :: "string \<Rightarrow> (string \<times> variant) list" where
  "edge_variants device_orig =
     [(''G925F'', unless_orig device_orig ''zeroflteduo'' (''SM-G925F'', ''zeroltexx'', False)),
      (''G925I'', ''SM-G925I'', ''zeroltexx'', False), (''G925K'', ''SM-G925K'', ''zeroltektt'', False),
      (''G925L'', ''SM-G925L'', ''zeroltelgt'', False), (''G925P'', ''SM-G925P'', ''zeroltespr'', False),
      (''G925S'', ''SM-G925S'', ''zerolteskt'', False), (''G925T'', ''SM-G925T'', ''zeroltetmo'', False),
      (''G925W8'', ''SM-G925W8'', ''zeroltecan'', False)]"

definition edge_plus_variants :: "string \<Rightarrow> (string \<times> variant) list" where
  "edge_plus_variants device_orig =
     [(''G928F'', unless_orig device_orig ''zenltexx'' (''SM-G928F'', ''zenltexx'', False)),
      (''G928C'', ''SM-G928C'', ''zenltejv'', False), (''G928I'', ''SM-G928I'', ''zenltedv'', False),
      (''G928G'', ''SM-G928G'', ''zenltedd'', False), (''G928K'', ''SM-G928K'', ''zenltektt'', False),
      (''G928L'', ''SM-G928L'', ''zenltelgt'', False), (''G928S'', ''SM-G928S'', ''zenlteskt'', False),
      (''G928T'', ''SM-G928T'', ''zenltetmo'', False), (''G928W8'', ''SM-G928W8'', ''zenltecan'', False)]"

definition note5_variants :: "string \<Rightarrow> (string \<times> variant) list" where
  "note5_variants device_orig =
     [(''N920C'', unless_orig device_orig ''nobleltejv'' (''SM-N920C'', ''nobleltejv'', True)),
      (''N9208'', ''SM-N9208'', ''nobleltezt'', True), (''N920G'', ''SM-N920G'', ''nobleltedd'', False),
      (''N920I'', ''SM-N920I'', ''nobleltedv'', False), (''N920P'', ''SM-N920P'', ''nobleltespr'', False),
      (''N920S'', ''SM-N920S'', ''noblelteskt'', False), (''N920K'', ''SM-N920K'', ''nobleltektt'', False),
      (''N920L'', ''SM-N920L'', ''nobleltelgt'', False), (''N920T'', ''SM-N920T'', ''nobleltetmo'', False),
      (''N920W8'', ''SM-N920W8'', ''nobleltecan'', False)]"

definition families :: "string \<Rightarrow> (string \<times> string \<times> (string \<times> variant) list) list" where
  "families device_orig =
     [(''G920'', ''zeroflte'', flat_variants device_orig), (''G925'', ''zerolte'', edge_variants device_orig),
      (''G928'', ''zenlte'', edge_plus_variants device_orig), (''N920'', ''noblelte'', note5_variants device_orig)]"

text \<open>The product and the variant.\<close>

definition select_variant :: "string \<Rightarrow> string \<Rightarrow> string \<times> variant" where
  "select_variant device_orig bootloader =
     (case pick_variant bootloader (families device_orig) ([], []) of (product, vs) \<Rightarrow> (product, pick_variant bootloader vs unset))"

section \<open>Loading the properties\<close>

definition renamed :: "string \<Rightarrow> string \<Rightarrow> string \<Rightarrow> string" where
  "renamed device_orig device s = (if device_orig \<noteq> [] \<and> s \<noteq> [] then snd (str_replace s device_orig device) else s)"

definition vendor_properties :: "string \<Rightarrow> string \<Rightarrow> string \<Rightarrow> string \<Rightarrow> (string \<times> string) list" where
  "vendor_properties device_orig bootloader description_orig fingerprint_orig =
     (case select_variant device_orig bootloader of
        (product, model, device, dualsim) \<Rightarrow>
          [(''ro.product.model'', model), (''ro.product.device'', device), (''ro.build.product'', product),
           (''ro.lineage.device'', device), (''ro.vendor.product.device'', device),
           (''ro.build.description'', renamed device_orig device description_orig),
           (''ro.build.fingerprint'', renamed device_orig device fingerprint_orig),
           (''ro.boot.warranty_bit'', ''0''), (''ro.warranty_bit'', ''0''), (''ro.boot.veritymode'', ''enforcing''),
           (''ro.boot.verifiedbootstate'', ''green''), (''ro.boot.flash.locked'', ''1''), (''ro.boot.ddrinfo'', ''00000001''),
           (''ro.build.selinux'', ''1''), (''ro.fmp_config'', ''1''), (''ro.boot.fmp_config'', ''1''),
           (''sys.oem_unlock_allowed'', ''0'')] @
          (if dualsim
           then [(''persist.multisim.config'', ''dsds''), (''persist.radio.multisim.config'', ''dsds''),
                 (''ro.multisim.simslotcount'', ''2''), (''ro.telephony.default_network'', ''9,9'')]
           else []))"

definition vendor_load_properties :: "('s, 'p) property_api \<Rightarrow> 's \<Rightarrow> 's option" where
  "vendor_load_properties api s =
     do { (device_orig, s1) \<leftarrow> pa_get api ''ro.product.device'' s;
          (bootloader, s2) \<leftarrow> pa_get api ''ro.bootloader'' s1;
          (description_orig, s3) \<leftarrow> pa_get api ''ro.build.description'' s2;
          (fingerprint_orig, s4) \<leftarrow> pa_get api ''ro.build.fingerprint'' s3;
          override_all api (vendor_properties device_orig bootloader description_orig fingerprint_orig) s4 }"

section \<open>What the library asks of the property system\<close>

definition short_value :: "string \<Rightarrow> bool" where
  "short_value v \<longleftrightarrow> NUL \<notin> set v \<and> length v < 92"

definition prop_text :: "string option \<Rightarrow> string" where
  "prop_text x = (case x of None \<Rightarrow> [] | Some v \<Rightarrow> v)"

text \<open>
  The bytes that the missing ones of a list of properties need, and the condition that all of the list can be stored: each missing one finds that many free
  bytes in the memory it goes to, each existing one can be updated.
\<close>

definition missing_need :: "(string \<Rightarrow> string option) \<Rightarrow> (string \<Rightarrow> string \<Rightarrow> nat) \<Rightarrow> (string \<times> string) list \<Rightarrow> nat" where
  "missing_need g need ps = sum_list (map (\<lambda>(n, v). if g n = None then need n v else 0) ps)"

definition storable_list ::
    "(string \<Rightarrow> string option) \<Rightarrow> (string \<Rightarrow> bool) \<Rightarrow> (string \<Rightarrow> nat) \<Rightarrow> (string \<Rightarrow> string \<Rightarrow> nat) \<Rightarrow> (string \<times> string) list \<Rightarrow> bool" where
  "storable_list g upd space need ps \<longleftrightarrow>
     list_all (\<lambda>(n, v). short_value v \<and> (if g n = None then missing_need g need ps \<le> space n else upd n)) ps"

text \<open>
  A property system with bounded memory. Reading and finding change nothing. An update of a property that can be updated stores a short value.
  An addition stores it if there is room, says so, and takes at most the bytes it needs. Neither touches another property.
\<close>

locale platform_properties =
  fixes api :: "('s, 'p) property_api" and ok :: "'s \<Rightarrow> bool" and get :: "'s \<Rightarrow> string \<Rightarrow> string option"
    and updatable :: "'s \<Rightarrow> string \<Rightarrow> bool" and space :: "'s \<Rightarrow> string \<Rightarrow> nat" and need :: "string \<Rightarrow> string \<Rightarrow> nat"
  assumes get_law: "ok s \<Longrightarrow> \<exists>s1. pa_get api n s = Some (prop_text (get s n), s1) \<and> ok s1
      \<and> get s1 = get s \<and> updatable s1 = updatable s \<and> space s1 = space s"
    and find_law: "ok s \<Longrightarrow> \<exists>pi s1. pa_find api n s = Some (pi, s1) \<and> ok s1 \<and> (pi = None \<longleftrightarrow> get s n = None)
      \<and> get s1 = get s \<and> updatable s1 = updatable s \<and> space s1 = space s"
    and update_law: "ok s \<Longrightarrow> pa_find api n s = Some (Some p, s1) \<Longrightarrow> updatable s n \<Longrightarrow> short_value v \<Longrightarrow>
      \<exists>s2. pa_update api p v (length v) s1 = Some (0, s2) \<and> ok s2 \<and> get s2 = (get s)(n \<mapsto> v)
        \<and> (\<forall>m. m \<noteq> n \<longrightarrow> updatable s2 m = updatable s m) \<and> space s2 = space s"
    and add_law: "ok s \<Longrightarrow> get s n = None \<Longrightarrow> short_value v \<Longrightarrow>
      \<exists>r s2. pa_add api n v s = Some (r, s2) \<and> ok s2 \<and> get s2 = (if r = 0 then (get s)(n \<mapsto> v) else get s)
        \<and> (need n v \<le> space s n \<longrightarrow> r = 0) \<and> (\<forall>m. m \<noteq> n \<longrightarrow> updatable s2 m = updatable s m)
        \<and> (\<forall>m. space s m \<le> space s2 m + need n v)"
begin

lemma override_law:
  assumes "ok s" "short_value v" "if get s n = None then need n v \<le> space s n else updatable s n"
  shows "\<exists>s2. property_override api n v s = Some s2 \<and> ok s2 \<and> get s2 = (get s)(n \<mapsto> v)
    \<and> (\<forall>m. m \<noteq> n \<longrightarrow> updatable s2 m = updatable s m)
    \<and> (\<forall>m. space s m \<le> space s2 m + (if get s n = None then need n v else 0))"
proof -
  obtain pi s1 where l: "pa_find api n s = Some (pi, s1)" "ok s1" "pi = None \<longleftrightarrow> get s n = None"
    "get s1 = get s" "updatable s1 = updatable s" "space s1 = space s"
    using find_law [OF assms(1)] by blast
  show ?thesis
  proof (cases pi)
    case None
    then show ?thesis using l add_law [OF l(2) _ assms(2), of n] assms(3) by (auto simp: property_override_def)
  next
    case (Some p)
    then have e: "get s n \<noteq> None" "updatable s n" using l(3) assms(3) by auto
    from update_law [OF assms(1) _ e(2) assms(2)] l(1) Some obtain s2 where
      "pa_update api p v (length v) s1 = Some (0, s2)" "ok s2" "get s2 = (get s)(n \<mapsto> v)"
      "\<forall>m. m \<noteq> n \<longrightarrow> updatable s2 m = updatable s m" "space s2 = space s" by blast
    then show ?thesis using l(1) Some e(1) by (auto simp: property_override_def)
  qed
qed

lemma override_all_law:
  assumes "ok s" "distinct (map fst ps)" "storable_list (get s) (updatable s) (space s) need ps"
  shows "\<exists>s2. override_all api ps s = Some s2 \<and> ok s2 \<and> get s2 = get s ++ map_of ps"
  using assms
proof (induction ps arbitrary: s)
  case (Cons p ps)
  obtain n v where p: "p = (n, v)" by fastforce
  let ?k = "if get s n = None then need n v else 0"
  have sp: "missing_need (get s) need (p # ps) = ?k + missing_need (get s) need ps" by (simp add: missing_need_def p)
  obtain s1 where s1: "property_override api n v s = Some s1" "ok s1" "get s1 = (get s)(n \<mapsto> v)"
    "\<And>m. m \<noteq> n \<Longrightarrow> updatable s1 m = updatable s m" "\<And>m. space s m \<le> space s1 m + ?k"
    using override_law [OF Cons.prems(1), of v n] Cons.prems(3) sp by (auto simp: storable_list_def p split: if_splits)
  have fresh: "m \<noteq> n" if "(m, w) \<in> set ps" for m w using Cons.prems(2) p that by force
  have same: "missing_need (get s1) need ps = missing_need (get s) need ps"
    unfolding missing_need_def using fresh s1(3) by (intro arg_cong [of _ _ sum_list] map_cong) auto
  have "short_value w \<and> (if get s1 m = None then missing_need (get s1) need ps \<le> space s1 m else updatable s1 m)"
    if "(m, w) \<in> set ps" for m w
  proof -
    have "short_value w \<and> (if get s m = None then ?k + missing_need (get s) need ps \<le> space s m else updatable s m)"
      using Cons.prems(3) that sp unfolding storable_list_def list_all_iff by auto
    then show ?thesis using s1(3) s1(4) [of m] s1(5) [of m] fresh [OF that] same by (auto split: if_splits)
  qed
  then have "storable_list (get s1) (updatable s1) (space s1) need ps" unfolding storable_list_def list_all_iff by blast
  from Cons.IH [OF s1(2) _ this] Cons.prems(2) obtain s2 where "override_all api ps s1 = Some s2" "ok s2" "get s2 = get s1 ++ map_of ps"
    by auto
  moreover have "map_of ps n = None" using Cons.prems(2) p by (simp add: map_of_eq_None_iff)
  then have "(get s)(n \<mapsto> v) ++ map_of ps = get s ++ map_of (p # ps)"
    using p by (auto simp: fun_eq_iff map_add_def split: option.split)
  ultimately show ?case unfolding p using s1(1,3) by (metis bind.bind_lunit override_all.simps(2))
qed simp

text \<open>The whole call: the four properties are read before any is overridden.\<close>

lemma vendor_load_law:
  assumes "ok s" and "storable_list (get s) (updatable s) (space s) need
      (vendor_properties (prop_text (get s ''ro.product.device'')) (prop_text (get s ''ro.bootloader''))
        (prop_text (get s ''ro.build.description'')) (prop_text (get s ''ro.build.fingerprint'')))"
    and "distinct (map fst (vendor_properties (prop_text (get s ''ro.product.device'')) (prop_text (get s ''ro.bootloader''))
        (prop_text (get s ''ro.build.description'')) (prop_text (get s ''ro.build.fingerprint''))))"
  shows "\<exists>s2. vendor_load_properties api s = Some s2 \<and> ok s2 \<and> get s2 = get s ++ map_of
      (vendor_properties (prop_text (get s ''ro.product.device'')) (prop_text (get s ''ro.bootloader''))
        (prop_text (get s ''ro.build.description'')) (prop_text (get s ''ro.build.fingerprint'')))"
proof -
  obtain s1 where s1: "pa_get api ''ro.product.device'' s = Some (prop_text (get s ''ro.product.device''), s1)" "ok s1"
    "get s1 = get s" "updatable s1 = updatable s" "space s1 = space s" using get_law [OF assms(1)] by blast
  obtain s2 where s2: "pa_get api ''ro.bootloader'' s1 = Some (prop_text (get s1 ''ro.bootloader''), s2)" "ok s2"
    "get s2 = get s1" "updatable s2 = updatable s1" "space s2 = space s1" using get_law [OF s1(2)] by blast
  obtain s3 where s3: "pa_get api ''ro.build.description'' s2 = Some (prop_text (get s2 ''ro.build.description''), s3)" "ok s3"
    "get s3 = get s2" "updatable s3 = updatable s2" "space s3 = space s2" using get_law [OF s2(2)] by blast
  obtain s4 where s4: "pa_get api ''ro.build.fingerprint'' s3 = Some (prop_text (get s3 ''ro.build.fingerprint''), s4)" "ok s4"
    "get s4 = get s3" "updatable s4 = updatable s3" "space s4 = space s3" using get_law [OF s3(2)] by blast
  note eq = s1 s2 s3 s4
  from override_all_law [OF s4(2) assms(3)] assms(2) show ?thesis by (simp add: vendor_load_properties_def eq)
qed

end

section \<open>The choice of the variant\<close>

text \<open>The tables: every model is named after the code it is chosen by, and every device after its product.\<close>

definition good_variant :: "string \<Rightarrow> string \<Rightarrow> variant \<Rightarrow> bool" where
  "good_variant product code v \<longleftrightarrow>
     v = unset \<or> fst v = ''SM-'' @ code \<and> take (length product) (fst (snd v)) = product"

lemma good_tables:
  "\<forall>(code, v) \<in> set (flat_variants orig). good_variant ''zeroflte'' code v"
  "\<forall>(code, v) \<in> set (edge_variants orig). good_variant ''zerolte'' code v"
  "\<forall>(code, v) \<in> set (edge_plus_variants orig). good_variant ''zenlte'' code v"
  "\<forall>(code, v) \<in> set (note5_variants orig). good_variant ''noblelte'' code v"
  by (simp_all add: flat_variants_def edge_variants_def edge_plus_variants_def note5_variants_def good_variant_def unless_orig_def unset_def)

lemma pick_variant_cases:
  "(\<exists>code x. (code, x) \<in> set vs \<and> str_find b code \<noteq> None \<and> pick_variant b vs d = x) \<or>
   (\<forall>(code, x) \<in> set vs. str_find b code = None) \<and> pick_variant b vs d = d"
  by (induction b vs d rule: pick_variant.induct) auto

lemma good_family:
  assumes "pick_variant b (families orig) ([], []) = (product, vs)"
  shows "(vs = [] \<or> product \<noteq> []) \<and> (\<forall>(code, v) \<in> set vs. good_variant product code v)"
  using assms good_tables [of orig] by (auto simp: families_def split: if_splits)

lemma good_select:
  assumes "select_variant orig b = (product, v)"
  shows "v = unset \<or> (\<exists>code. good_variant product code v \<and> str_find b code \<noteq> None \<and> product \<noteq> [])"
proof -
  obtain vs where f: "pick_variant b (families orig) ([], []) = (product, vs)" and v: "v = pick_variant b vs unset"
    using assms by (auto simp: select_variant_def split: prod.splits)
  show "v = unset \<or> (\<exists>code. good_variant product code v \<and> str_find b code \<noteq> None \<and> product \<noteq> [])"
    using good_family [OF f] pick_variant_cases [of vs b unset] v by fastforce
qed

text \<open>A text with the first occurrence of a name, if any, replaced.\<close>

definition first_replaced :: "string \<Rightarrow> string \<Rightarrow> string \<Rightarrow> string" where
  "first_replaced old new str =
     (if old = [] then str
      else case str_find str old of None \<Rightarrow> str | Some i \<Rightarrow> take i str @ new @ drop (i + length old) str)"

lemma renamed_first: "renamed old new str = first_replaced old new str"
  by (simp add: renamed_def str_replace_def first_replaced_def split: option.split)

lemma vendor_properties_distinct: "distinct (map fst (vendor_properties orig b descr fp))"
proof -
  obtain product model device dual where "select_variant orig b = (product, model, device, dual)" by (metis prod_cases4)
  then show ?thesis by (cases dual) (simp_all add: vendor_properties_def)
qed

text \<open>The family that the name of a boot loader contains, none for the empty string, and the variants whose branch tests the device.\<close>

definition names_family :: "string \<Rightarrow> string \<Rightarrow> bool" where
  "names_family b family = list_all (\<lambda>f. (str_find b f \<noteq> None) = (f = family)) [''G920'', ''G925'', ''G928'', ''N920'']"

definition built_for :: "string \<Rightarrow> string \<Rightarrow> bool" where
  "built_for device b =
     list_ex (\<lambda>(family, code, d). device = d \<and> names_family b family \<and> str_find b code \<noteq> None)
       [(''G920'', ''G920F'', ''zeroflteduo''), (''G925'', ''G925F'', ''zeroflteduo''),
        (''G928'', ''G928F'', ''zenltexx''), (''N920'', ''N920C'', ''nobleltejv'')]"

lemma family_picked:
  "names_family b [] \<Longrightarrow> pick_variant b (families d) ([], []) = ([], [])"
  "names_family b ''G920'' \<Longrightarrow> pick_variant b (families d) ([], []) = (''zeroflte'', flat_variants d)"
  "names_family b ''G925'' \<Longrightarrow> pick_variant b (families d) ([], []) = (''zerolte'', edge_variants d)"
  "names_family b ''G928'' \<Longrightarrow> pick_variant b (families d) ([], []) = (''zenlte'', edge_plus_variants d)"
  "names_family b ''N920'' \<Longrightarrow> pick_variant b (families d) ([], []) = (''noblelte'', note5_variants d)"
  by (simp_all add: names_family_def families_def)

lemma first_picked: "str_find b code \<noteq> None \<Longrightarrow> pick_variant b ((code, x) # vs) d = x"
  by simp

lemma nothing_chosen: "names_family b [] \<or> built_for device b \<Longrightarrow> snd (select_variant device b) = unset"
proof -
  have "snd (select_variant device b) = pick_variant b (snd (pick_variant b (families device) ([], []))) unset"
    by (simp add: select_variant_def split: prod.split)
  moreover have "pick_variant b (snd (pick_variant b (families device) ([], []))) unset = unset" if "built_for device b"
    using that unfolding built_for_def list_ex_Nil_iff list_ex_Cons_iff prod.case
    by (elim disjE conjE)
      (simp_all only: family_picked snd_conv flat_variants_def edge_variants_def edge_plus_variants_def note5_variants_def first_picked
        unless_orig_def, simp_all)
  ultimately show "names_family b [] \<or> built_for device b \<Longrightarrow> snd (select_variant device b) = unset"
    by (auto simp: family_picked)
qed

end
