(* ===== verification/Camera_Module.thy ===== *)
theory Camera_Module
  imports Camera_Wrapper
begin

text \<open>
  The camera 3 wrapper (\<open>Camera3Wrapper.cpp\<close>) and the module that offers both wrappers (\<open>CameraWrapper.cpp\<close>). The module of the vendor is
  a parameter over its state, which the two wrappers share; devices of the wrapper are objects on a heap with the
  device of the vendor and the table of operations inside. The table holds pointers to the wrapper functions; the camera service calls
  through it. \<^const>\<open>None\<close> is a null pointer that is followed: the log messages read the
  device before it is tested.
\<close>

section \<open>The module of the vendor\<close>

datatype module_call =
    M_get_camera_info int nat | M_set_callbacks nat | M_get_vendor_tag_ops nat | M_set_torch_mode string bool | M_init

record ('v, 'd) vendor3 =
  v3_open :: "string \<Rightarrow> 'v \<Rightarrow> int \<times> 'd \<times> 'v"
  v3_close :: "'d \<Rightarrow> 'v \<Rightarrow> 'v"
  v3_initialize :: "'d \<Rightarrow> nat \<Rightarrow> 'v \<Rightarrow> int \<times> 'v"
  v3_configure_streams :: "'d \<Rightarrow> nat \<Rightarrow> 'v \<Rightarrow> int \<times> 'v"
  v3_register_stream_buffers :: "'d \<Rightarrow> nat \<Rightarrow> 'v \<Rightarrow> int \<times> 'v"
  v3_construct_default_request_settings :: "'d \<Rightarrow> int \<Rightarrow> 'v \<Rightarrow> nat option \<times> 'v"
  v3_process_capture_request :: "'d \<Rightarrow> nat \<Rightarrow> 'v \<Rightarrow> int \<times> 'v"
  v3_get_metadata_vendor_tag_ops :: "'d \<Rightarrow> nat \<Rightarrow> 'v \<Rightarrow> 'v"
  v3_dump :: "'d \<Rightarrow> int \<Rightarrow> 'v \<Rightarrow> 'v"
  v3_flush :: "'d \<Rightarrow> 'v \<Rightarrow> int \<times> 'v"
  v3_module :: "module_call \<Rightarrow> 'v \<Rightarrow> int \<times> 'v"

section \<open>State\<close>

text \<open>The wrapper functions a pointer of the table may point to, and the table; a null pointer is \<^const>\<open>None\<close>.\<close>

datatype wrapper3 =
    W_initialize | W_configure_streams | W_register_stream_buffers | W_construct_default_request_settings
  | W_process_capture_request | W_get_metadata_vendor_tag_ops | W_dump | W_flush

record camera3_device_ops =
  op_initialize :: "wrapper3 option"
  op_configure_streams :: "wrapper3 option"
  op_register_stream_buffers :: "wrapper3 option"
  op_construct_default_request_settings :: "wrapper3 option"
  op_process_capture_request :: "wrapper3 option"
  op_get_metadata_vendor_tag_ops :: "wrapper3 option"
  op_dump :: "wrapper3 option"
  op_flush :: "wrapper3 option"

record 'd wrapper_camera3_device =
  w3_id :: int
  w3_vendor :: 'd
  w3_ops :: camera3_device_ops

text \<open>Each wrapper has a pointer to the module of its own; \<open>h_cam2\<close> holds that of the camera 2 wrapper.\<close>

record ('v, 'd) camera_hal =
  h_loaded :: bool
  h_loaded3 :: bool
  h_devs :: "nat \<rightharpoonup> 'd wrapper_camera3_device"
  h_next :: nat
  h_cam2 :: "'v camera2"

definition h_vendor :: "('v, 'd) camera_hal \<Rightarrow> 'v" where "h_vendor st = c2_vendor (h_cam2 st)"

definition set_vendor :: "'v \<Rightarrow> ('v, 'd) camera_hal \<Rightarrow> ('v, 'd) camera_hal" where
  "set_vendor v st = st\<lparr>h_cam2 := (h_cam2 st)\<lparr>c2_vendor := v\<rparr>\<rparr>"

lemma h_vendor_simps [simp]:
  "h_vendor (set_vendor v st) = v" "h_devs (set_vendor v st) = h_devs st" "h_next (set_vendor v st) = h_next st"
  "h_loaded (set_vendor v st) = h_loaded st" "h_loaded3 (set_vendor v st) = h_loaded3 st"
  by (simp_all add: h_vendor_def set_vendor_def)

section \<open>The camera 3 wrapper\<close>

definition check_vendor_module3 :: "'v vendor_ops \<Rightarrow> ('v, 'd) camera_hal \<Rightarrow> int \<times> ('v, 'd) camera_hal" where
  "check_vendor_module3 vo st =
     (if h_loaded3 st then (0, st)
      else let rv = v_module vo (h_vendor st) in (rv, st\<lparr>h_loaded3 := rv = 0\<rparr>))"

text \<open>\<open>VENDOR_CALL\<close> of one operation of the vendor's device, with the log message before it.\<close>

definition camera3_call ::
    "('d \<Rightarrow> 'v \<Rightarrow> 'r \<times> 'v) \<Rightarrow> nat option \<Rightarrow> ('v, 'd) camera_hal \<Rightarrow> ('r \<times> ('v, 'd) camera_hal) option" where
  "camera3_call func device st =
     do { p \<leftarrow> device; w \<leftarrow> h_devs st p;
          let (r, v) = func (w3_vendor w) (h_vendor st) in Some (r, set_vendor v st) }"

definition camera3_initialize where
  "camera3_initialize v3 callback_ops = camera3_call (\<lambda>d. v3_initialize v3 d callback_ops)"
definition camera3_configure_streams where
  "camera3_configure_streams v3 stream_list = camera3_call (\<lambda>d. v3_configure_streams v3 d stream_list)"
definition camera3_register_stream_buffers where
  "camera3_register_stream_buffers v3 buffer_set = camera3_call (\<lambda>d. v3_register_stream_buffers v3 d buffer_set)"
definition camera3_construct_default_request_settings where
  "camera3_construct_default_request_settings v3 type = camera3_call (\<lambda>d. v3_construct_default_request_settings v3 d type)"
definition camera3_process_capture_request where
  "camera3_process_capture_request v3 request = camera3_call (\<lambda>d. v3_process_capture_request v3 d request)"
definition camera3_get_metadata_vendor_tag_ops where
  "camera3_get_metadata_vendor_tag_ops v3 ops = camera3_call (\<lambda>d v. ((), v3_get_metadata_vendor_tag_ops v3 d ops v))"
definition camera3_dump where "camera3_dump v3 fd = camera3_call (\<lambda>d v. ((), v3_dump v3 d fd v))"
definition camera3_flush where "camera3_flush v3 = camera3_call (v3_flush v3)"

text \<open>
  A call of the camera service through a slot of the table: the argument behind the device, and what is returned. A null slot, and
  an argument that does not fit the function, are \<^const>\<open>None\<close>.
\<close>

datatype arg3 = APtr nat | AInt int | ANone
datatype res3 = RInt int | RPtr "nat option" | RVoid

fun run_wrapper3 ::
    "('v, 'd) vendor3 \<Rightarrow> wrapper3 \<Rightarrow> arg3 \<Rightarrow> nat option \<Rightarrow> ('v, 'd) camera_hal \<Rightarrow> (res3 \<times> ('v, 'd) camera_hal) option" where
  "run_wrapper3 v3 W_initialize (APtr a) dev st = map_option (apfst RInt) (camera3_initialize v3 a dev st)"
| "run_wrapper3 v3 W_configure_streams (APtr a) dev st = map_option (apfst RInt) (camera3_configure_streams v3 a dev st)"
| "run_wrapper3 v3 W_register_stream_buffers (APtr a) dev st = map_option (apfst RInt) (camera3_register_stream_buffers v3 a dev st)"
| "run_wrapper3 v3 W_construct_default_request_settings (AInt t) dev st =
     map_option (apfst RPtr) (camera3_construct_default_request_settings v3 t dev st)"
| "run_wrapper3 v3 W_process_capture_request (APtr a) dev st = map_option (apfst RInt) (camera3_process_capture_request v3 a dev st)"
| "run_wrapper3 v3 W_get_metadata_vendor_tag_ops (APtr a) dev st =
     map_option (apfst (\<lambda>u. RVoid)) (camera3_get_metadata_vendor_tag_ops v3 a dev st)"
| "run_wrapper3 v3 W_dump (AInt fd) dev st = map_option (apfst (\<lambda>u. RVoid)) (camera3_dump v3 fd dev st)"
| "run_wrapper3 v3 W_flush ANone dev st = map_option (apfst RInt) (camera3_flush v3 dev st)"
| "run_wrapper3 v3 f a dev st = None"

definition call_op3 ::
    "('v, 'd) vendor3 \<Rightarrow> (camera3_device_ops \<Rightarrow> wrapper3 option) \<Rightarrow> arg3 \<Rightarrow> nat \<Rightarrow> ('v, 'd) camera_hal \<Rightarrow>
     (res3 \<times> ('v, 'd) camera_hal) option" where
  "call_op3 v3 slot a p st = do { w \<leftarrow> h_devs st p; f \<leftarrow> slot (w3_ops w); run_wrapper3 v3 f a (Some p) st }"

definition camera3_device_close ::
    "('v, 'd) vendor3 \<Rightarrow> nat option \<Rightarrow> ('v, 'd) camera_hal \<Rightarrow> (int \<times> ('v, 'd) camera_hal) option" where
  "camera3_device_close v3 device st =
     (case device of
        None \<Rightarrow> Some (- EINVAL, st)
      | Some p \<Rightarrow>
          do { w \<leftarrow> h_devs st p;
               Some (0, (set_vendor (v3_close v3 (w3_vendor w) (h_vendor st)) st)\<lparr>h_devs := (h_devs st)(p := None)\<rparr>) })"

text \<open>The table that is filled in, and what becomes of the pointer to the device.\<close>

definition camera3_ops_table :: camera3_device_ops where
  "camera3_ops_table =
     \<lparr>op_initialize = Some W_initialize, op_configure_streams = Some W_configure_streams, op_register_stream_buffers = None,
      op_construct_default_request_settings = Some W_construct_default_request_settings,
      op_process_capture_request = Some W_process_capture_request,
      op_get_metadata_vendor_tag_ops = Some W_get_metadata_vendor_tag_ops, op_dump = Some W_dump, op_flush = Some W_flush\<rparr>"

datatype device3_out = Untouched3 | NullDevice3 | Device3 nat

definition camera3_device_open ::
    "nat \<Rightarrow> bool \<Rightarrow> bool \<Rightarrow> 'v vendor_ops \<Rightarrow> ('v, 'd) vendor3 \<Rightarrow> string option \<Rightarrow> ('v, 'd) camera_hal \<Rightarrow>
     int \<times> device3_out \<times> ('v, 'd) camera_hal" where
  "camera3_device_open lb mem1 mem2 vo v3 name st =
     (case name of
        None \<Rightarrow> (0, Untouched3, st)
      | Some n \<Rightarrow>
          (case check_vendor_module3 vo st of
             (rv, st1) \<Rightarrow>
               if rv \<noteq> 0 then (- EINVAL, Untouched3, st1)
               else if atoi lb n > v_number_of_cameras vo (h_vendor st1) then (- EINVAL, NullDevice3, st1)
               else if \<not> mem1 then (- ENOMEM, NullDevice3, st1)
               else (case v3_open v3 n (h_vendor st1) of
                       (rv, d, v) \<Rightarrow>
                         let st2 = set_vendor v st1
                         in if rv \<noteq> 0 then (rv, NullDevice3, st2)
                            else if \<not> mem2 then (- ENOMEM, NullDevice3, st2)
                            else (0, Device3 (h_next st2),
                                  st2\<lparr>h_devs := (h_devs st2)(h_next st2 \<mapsto> \<lparr>w3_id = atoi lb n, w3_vendor = d, w3_ops = camera3_ops_table\<rparr>),
                                      h_next := h_next st2 + 1\<rparr>))))"

section \<open>The module\<close>

definition check_vendor_module1 :: "'v vendor_ops \<Rightarrow> ('v, 'd) camera_hal \<Rightarrow> int \<times> ('v, 'd) camera_hal" where
  "check_vendor_module1 vo st =
     (if h_loaded st then (0, st)
      else let rv = v_module vo (h_vendor st) in (rv, st\<lparr>h_loaded := rv = 0\<rparr>))"

definition camera_device_open ::
    "nat \<Rightarrow> bool \<Rightarrow> bool \<Rightarrow> 'v vendor_ops \<Rightarrow> ('v, 'd) vendor3 \<Rightarrow> string option \<Rightarrow> ('v, 'd) camera_hal \<Rightarrow>
     int \<times> device3_out \<times> ('v, 'd) camera_hal" where
  "camera_device_open lb mem1 mem2 vo v3 name st =
     (if name = None then (- EINVAL, Untouched3, st)
      else (case check_vendor_module1 vo st of
              (rv, st1) \<Rightarrow>
                if rv \<noteq> 0 then (- EINVAL, Untouched3, st1)
                else camera3_device_open lb mem1 mem2 vo v3 name st1))"

definition camera_get_number_of_cameras :: "'v vendor_ops \<Rightarrow> ('v, 'd) camera_hal \<Rightarrow> int \<times> ('v, 'd) camera_hal" where
  "camera_get_number_of_cameras vo st =
     (case check_vendor_module1 vo st of
        (rv, st1) \<Rightarrow> if rv \<noteq> 0 then (0, st1) else (v_number_of_cameras vo (h_vendor st1), st1))"

text \<open>The calls that are handed on to the module of the vendor; if there is none, they return 0.\<close>

definition module_pass ::
    "'v vendor_ops \<Rightarrow> ('v, 'd) vendor3 \<Rightarrow> module_call \<Rightarrow> ('v, 'd) camera_hal \<Rightarrow> int \<times> ('v, 'd) camera_hal" where
  "module_pass vo v3 c st =
     (case check_vendor_module1 vo st of
        (rv, st1) \<Rightarrow>
          if rv \<noteq> 0 then (0, st1)
          else (case v3_module v3 c (h_vendor st1) of (r, v) \<Rightarrow> (r, set_vendor v st1)))"

definition camera_get_camera_info where "camera_get_camera_info vo v3 i info = module_pass vo v3 (M_get_camera_info i info)"
definition camera_set_callbacks where "camera_set_callbacks vo v3 cbs = module_pass vo v3 (M_set_callbacks cbs)"
definition camera_get_vendor_tag_ops where
  "camera_get_vendor_tag_ops vo v3 ops st = snd (module_pass vo v3 (M_get_vendor_tag_ops ops) st)"
definition camera_set_torch_mode where "camera_set_torch_mode vo v3 i b = module_pass vo v3 (M_set_torch_mode i b)"
definition camera_init where "camera_init vo v3 = module_pass vo v3 M_init"

definition camera_open_legacy ::
    "nat \<Rightarrow> bool \<Rightarrow> bool \<Rightarrow> 'v vendor_ops \<Rightarrow> string option \<Rightarrow> ('v, 'd) camera_hal \<Rightarrow> int \<times> device_out \<times> ('v, 'd) camera_hal" where
  "camera_open_legacy lb mem1 mem2 vo i st =
     (case check_vendor_module1 vo st of
        (rv, st1) \<Rightarrow>
          if rv \<noteq> 0 then (0, Untouched, st1)
          else (case camera2_device_open lb mem1 mem2 vo i (h_cam2 st1) of
                  (r, dev, c2) \<Rightarrow> (r, dev, st1\<lparr>h_cam2 := c2\<rparr>)))"

section \<open>What holds\<close>

text \<open>Addresses of devices are below the next free one.\<close>

definition hal_inv :: "('v, 'd) camera_hal \<Rightarrow> bool" where
  "hal_inv st \<longleftrightarrow> (\<forall>p. h_devs st p \<noteq> None \<longrightarrow> p < h_next st)"

lemma check_vendor_module_fields:
  assumes "check_vendor_module3 vo st = (rv, st') \<or> check_vendor_module1 vo st = (rv, st')"
  shows "h_devs st' = h_devs st" "h_next st' = h_next st" "h_vendor st' = h_vendor st" "h_cam2 st' = h_cam2 st"
  using assms by (auto simp: check_vendor_module3_def check_vendor_module1_def h_vendor_def Let_def split: if_splits)

text \<open>What opening does: a result other than 0 leaves the devices alone, 0 adds a new one that holds the device of the vendor.\<close>

lemma camera_device_open_cases:
  assumes "camera_device_open lb mem1 mem2 vo v3 name st = (r, dev, st')"
  shows "r \<noteq> 0 \<and> h_devs st' = h_devs st \<and> h_next st' = h_next st \<and> (\<forall>p. dev \<noteq> Device3 p) \<or>
    (\<exists>n d. name = Some n \<and> atoi lb n \<le> v_number_of_cameras vo (h_vendor st) \<and> r = 0 \<and> dev = Device3 (h_next st) \<and>
       v3_open v3 n (h_vendor st) = (0, d, h_vendor st') \<and> h_next st' = h_next st + 1 \<and>
       h_devs st' = (h_devs st)(h_next st \<mapsto> \<lparr>w3_id = atoi lb n, w3_vendor = d, w3_ops = camera3_ops_table\<rparr>))"
proof (cases name)
  case (Some n)
  obtain rv1 st1 where 1: "check_vendor_module1 vo st = (rv1, st1)" by fastforce
  obtain rv2 st2 where 2: "check_vendor_module3 vo st1 = (rv2, st2)" by fastforce
  note f = check_vendor_module_fields [of vo st rv1 st1] check_vendor_module_fields [of vo st1 rv2 st2]
  show ?thesis using assms 1 2 Some f
    by (auto simp: camera_device_open_def camera3_device_open_def EINVAL_def ENOMEM_def Let_def h_vendor_def set_vendor_def
        split: if_splits prod.splits)
qed (use assms in \<open>auto simp: camera_device_open_def EINVAL_def\<close>)

lemma camera_device_open_inv:
  "hal_inv st \<Longrightarrow> camera_device_open lb mem1 mem2 vo v3 name st = (r, dev, st') \<Longrightarrow> hal_inv st'"
  using camera_device_open_cases [of lb mem1 mem2 vo v3 name st r dev st'] by (fastforce simp: hal_inv_def split: if_splits)

text \<open>
  Property C33. A device that is opened through the module is a new one and stands for the device of the vendor: a call through each slot of its
  table of operations runs the operation of that name of the vendor on that device, with the argument, and returns its result, except
  that the slot for registering buffers is null, so that this operation never reaches the vendor; closing
  releases the device at the vendor and removes exactly this one; the other devices stay as they are.
\<close>

theorem camera3_device_cycle:
  assumes "hal_inv st" "camera_device_open lb mem1 mem2 vo v3 name st = (0, dev, st')" and v: "v = h_vendor st'"
  shows "\<exists>n p d. name = Some n \<and> dev = Device3 p \<and> h_devs st p = None \<and> hal_inv st' \<and>
    v3_open v3 n (h_vendor st) = (0, d, v) \<and> (\<forall>q. q \<noteq> p \<longrightarrow> h_devs st' q = h_devs st q) \<and>
    (\<forall>a r v'. v3_initialize v3 d a v = (r, v') \<longrightarrow> call_op3 v3 op_initialize (APtr a) p st' = Some (RInt r, set_vendor v' st')) \<and>
    (\<forall>a r v'. v3_configure_streams v3 d a v = (r, v') \<longrightarrow>
       call_op3 v3 op_configure_streams (APtr a) p st' = Some (RInt r, set_vendor v' st')) \<and>
    (\<forall>t r v'. v3_construct_default_request_settings v3 d t v = (r, v') \<longrightarrow>
       call_op3 v3 op_construct_default_request_settings (AInt t) p st' = Some (RPtr r, set_vendor v' st')) \<and>
    (\<forall>a r v'. v3_process_capture_request v3 d a v = (r, v') \<longrightarrow>
       call_op3 v3 op_process_capture_request (APtr a) p st' = Some (RInt r, set_vendor v' st')) \<and>
    (\<forall>a. call_op3 v3 op_get_metadata_vendor_tag_ops (APtr a) p st' =
       Some (RVoid, set_vendor (v3_get_metadata_vendor_tag_ops v3 d a v) st')) \<and>
    (\<forall>fd. call_op3 v3 op_dump (AInt fd) p st' = Some (RVoid, set_vendor (v3_dump v3 d fd v) st')) \<and>
    (\<forall>r v'. v3_flush v3 d v = (r, v') \<longrightarrow> call_op3 v3 op_flush ANone p st' = Some (RInt r, set_vendor v' st')) \<and>
    map_option (\<lambda>w. op_register_stream_buffers (w3_ops w)) (h_devs st' p) = Some None \<and>
    (\<exists>st2. camera3_device_close v3 (Some p) st' = Some (0, st2) \<and> h_devs st2 = h_devs st \<and>
       h_vendor st2 = v3_close v3 d v \<and> camera3_device_close v3 (Some p) st2 = None)"
proof -
  from camera_device_open_cases [OF assms(2)] obtain n d where
    o: "name = Some n" "dev = Device3 (h_next st)" "v3_open v3 n (h_vendor st) = (0, d, h_vendor st')"
    "h_devs st' = (h_devs st)(h_next st \<mapsto> \<lparr>w3_id = atoi lb n, w3_vendor = d, w3_ops = camera3_ops_table\<rparr>)" by auto
  let ?p = "h_next st"
  have new: "h_devs st ?p = None" using assms(1) by (auto simp: hal_inv_def)
  have c: "camera3_call func (Some ?p) st' = Some (fst (func d v), set_vendor (snd (func d v)) st')"
    for func :: "'b \<Rightarrow> 'a \<Rightarrow> 'r \<times> 'a" by (simp add: camera3_call_def o(4) v split: prod.split)
  have ops: "call_op3 v3 slot a ?p st' = Option.bind (slot camera3_ops_table) (\<lambda>f. run_wrapper3 v3 f a (Some ?p) st')" for slot a
    by (simp add: call_op3_def o(4))
  note slots = ops camera3_ops_table_def c camera3_initialize_def camera3_configure_streams_def camera3_construct_default_request_settings_def
    camera3_process_capture_request_def camera3_get_metadata_vendor_tag_ops_def camera3_dump_def camera3_flush_def
  let ?st2 = "(set_vendor (v3_close v3 d v) st')\<lparr>h_devs := h_devs st\<rparr>"
  have "camera3_device_close v3 (Some ?p) st' = Some (0, ?st2)"
    by (simp add: camera3_device_close_def o(4) fun_upd_idem new v)
  moreover have "camera3_device_close v3 (Some ?p) ?st2 = None" "h_vendor ?st2 = v3_close v3 d v"
    using new by (simp_all add: camera3_device_close_def) (simp add: h_vendor_def set_vendor_def)
  moreover have "hal_inv st'" by (rule camera_device_open_inv [OF assms(1,2)])
  ultimately show ?thesis using o new v
    by (intro exI [of _ n] exI [of _ ?p] exI [of _ d]) (simp add: slots)
qed

definition log_vendor3 :: "(unit, string) vendor3" where
  "log_vendor3 = \<lparr>v3_open = \<lambda>n v. (0, n, v), v3_close = \<lambda>d v. v, v3_initialize = \<lambda>d a v. (int (length d), v),
     v3_configure_streams = \<lambda>d a v. (int a, v), v3_register_stream_buffers = \<lambda>d a v. (0, v),
     v3_construct_default_request_settings = \<lambda>d t v. (None, v), v3_process_capture_request = \<lambda>d a v. (0, v),
     v3_get_metadata_vendor_tag_ops = \<lambda>d a v. v, v3_dump = \<lambda>d fd v. v, v3_flush = \<lambda>d v. (0, v), v3_module = \<lambda>c v. (0, v)\<rparr>"

definition sample_hal :: "(unit, string) camera_hal" where
  "sample_hal = \<lparr>h_loaded = False, h_loaded3 = False, h_devs = Map.empty, h_next = 0, h_cam2 = sample_camera\<rparr>"

theorem camera3_device_cycle_witness:
  "\<exists>p st'. camera_device_open 31 True True null_vendor log_vendor3 (Some ''1'') sample_hal = (0, Device3 p, st') \<and>
     call_op3 log_vendor3 op_configure_streams (APtr 7) p st' = Some (RInt 7, set_vendor () st') \<and>
     (\<exists>st2. camera3_device_close log_vendor3 (Some p) st' = Some (0, st2) \<and> h_devs st2 = Map.empty)"
proof -
  have "atoi 31 ''1'' \<le> 2"
    using strtol_to_string [of 31 1 "[]"] by (simp add: atoi_def to_string_def dec.simps digit_char_def signed_take_bit_int_eq_self)
  then have "fst (camera_device_open 31 True True null_vendor log_vendor3 (Some ''1'') sample_hal) = 0"
    by (simp add: camera_device_open_def camera3_device_open_def check_vendor_module1_def check_vendor_module3_def
        null_vendor_def log_vendor3_def sample_hal_def Let_def)
  then obtain dev st' where o: "camera_device_open 31 True True null_vendor log_vendor3 (Some ''1'') sample_hal = (0, dev, st')"
    by (metis prod.collapse)
  have inv: "hal_inv sample_hal" by (simp add: hal_inv_def sample_hal_def)
  obtain p d where p: "dev = Device3 p"
    "\<forall>a r v'. v3_configure_streams log_vendor3 d a (h_vendor st') = (r, v') \<longrightarrow>
       call_op3 log_vendor3 op_configure_streams (APtr a) p st' = Some (RInt r, set_vendor v' st')"
    "\<exists>st2. camera3_device_close log_vendor3 (Some p) st' = Some (0, st2) \<and> h_devs st2 = h_devs sample_hal"
    using camera3_device_cycle [OF inv o refl] by blast
  have "v3_configure_streams log_vendor3 d 7 (h_vendor st') = (7, ())" by (simp add: log_vendor3_def)
  then show ?thesis using o p by (auto simp: sample_hal_def)
qed

text \<open>When the second allocation fails, the device that the vendor has opened is not closed again.\<close>

lemma failed_open_leaks:
  assumes "v_module vo (h_vendor st) = 0" "atoi lb n \<le> v_number_of_cameras vo (h_vendor st)" "v3_open v3 n (h_vendor st) = (0, d, v)"
  shows "\<exists>st'. camera_device_open lb True False vo v3 (Some n) st = (- ENOMEM, NullDevice3, st') \<and>
    h_vendor st' = v \<and> h_devs st' = h_devs st"
  using assms
  by (auto simp: camera_device_open_def camera3_device_open_def check_vendor_module1_def check_vendor_module3_def Let_def h_vendor_def
      set_vendor_def)

text \<open>Without a module of the vendor the calls of the module report success.\<close>

lemma missing_module_succeeds:
  assumes "\<not> h_loaded st" "v_module vo (h_vendor st) \<noteq> 0"
  shows "module_pass vo v3 c st = (0, st)" "camera_open_legacy lb m1 m2 vo i st = (0, Untouched, st)"
  using assms by (simp_all add: module_pass_def camera_open_legacy_def check_vendor_module1_def Let_def)

end
