(* ===== verification/Native_Features.thy ===== *)
theory Native_Features
  imports C_Text
begin

text \<open>
  The library \<open>hardware/libsecnativefeature\<close>: features read from an XML file, looked up by name. The parser is a parameter: \<open>xml_parse\<close>
  takes its state, a piece of the text and whether it is the last one, and answers with the events it reports, whether the text was
  well-formed so far, and its next state. Maps from names to texts are maps; a pointer that is returned is a string, \<^const>\<open>None\<close> a
  null pointer.
\<close>

section \<open>Handlers\<close>

datatype xml_event = Start_element string | End_element | Char_data string

record ParserUserData =
  curr_name :: string
  pFeatures :: "string \<rightharpoonup> string"
  ud_depth :: int

definition charDataHandler :: "string \<Rightarrow> ParserUserData \<Rightarrow> ParserUserData" where
  "charDataHandler s d =
     (if curr_name d = [] then d
      else (let v = (case pFeatures d (curr_name d) of None \<Rightarrow> s | Some old \<Rightarrow> old @ s)
            in d\<lparr>pFeatures := (pFeatures d)(curr_name d \<mapsto> v)\<rparr>))"

definition startElement :: "string \<Rightarrow> ParserUserData \<Rightarrow> ParserUserData" where
  "startElement name d = d\<lparr>curr_name := name, ud_depth := ud_depth d + 1\<rparr>"

definition endElement :: "ParserUserData \<Rightarrow> ParserUserData" where
  "endElement d = d\<lparr>curr_name := [], ud_depth := ud_depth d - 1\<rparr>"

fun handle :: "xml_event \<Rightarrow> ParserUserData \<Rightarrow> ParserUserData" where
  "handle (Start_element name) d = startElement name d"
| "handle End_element d = endElement d"
| "handle (Char_data s) d = charDataHandler s d"

section \<open>Loading\<close>

definition BUFSIZ :: nat where "BUFSIZ = 1024"

definition FEATURE_FILE :: string where "FEATURE_FILE = ''/system/csc/feature.xml''"
definition MPS_FEATURE_FILE :: string where "MPS_FEATURE_FILE = ''/system/csc/others.xml''"

type_synonym 'x xml_parser = "'x \<Rightarrow> string \<Rightarrow> bool \<Rightarrow> xml_event list \<times> bool \<times> 'x"

text \<open>The loop over pieces of the file. A file that holds a multiple of the size of the buffer is read to its end by an empty piece.
  \<open>bad\<close> is the position at which reading fails, if it does.\<close>

function load_loop :: "'x xml_parser \<Rightarrow> nat option \<Rightarrow> string \<Rightarrow> 'x \<Rightarrow> ParserUserData \<Rightarrow> int \<times> ParserUserData" where
  "load_loop xml_parse bad text x d =
     (let buf = take BUFSIZ text; last = length buf < BUFSIZ
      in if (case bad of None \<Rightarrow> False | Some n \<Rightarrow> n < BUFSIZ) then (-1, d)
         else (case xml_parse x buf last of
                 (events, ok, x') \<Rightarrow>
                   let d' = fold handle events d
                   in if \<not> ok then (-1, d')
                      else if last then (0, d')
                      else load_loop xml_parse (map_option (\<lambda>n. n - BUFSIZ) bad) (drop BUFSIZ text) x' d'))"
  by pat_completeness auto
termination
  by (relation "measure (\<lambda>(_, _, text, _, _). length text)") (auto simp: BUFSIZ_def)

declare load_loop.simps [simp del]

definition loadFeature ::
    "'x xml_parser \<Rightarrow> 'x \<Rightarrow> (string \<rightharpoonup> nat option \<times> string) \<Rightarrow> int \<times> (string \<rightharpoonup> string)" where
  "loadFeature xml_parse x0 files =
     (case (case files FEATURE_FILE of None \<Rightarrow> files MPS_FEATURE_FILE | Some f \<Rightarrow> Some f) of
        None \<Rightarrow> (-1, Map.empty)
      | Some (bad, text) \<Rightarrow>
          (case load_loop xml_parse bad text x0 \<lparr>curr_name = [], pFeatures = Map.empty, ud_depth = 0\<rparr> of
             (r, d) \<Rightarrow> (r, pFeatures d)))"

text \<open>The constructor ignores the result of loading; \<open>getInstance\<close> keeps the first instance.\<close>

definition getInstance ::
    "'x xml_parser \<Rightarrow> 'x \<Rightarrow> (string \<rightharpoonup> nat option \<times> string) \<Rightarrow> (string \<rightharpoonup> string) option \<Rightarrow> (string \<rightharpoonup> string)" where
  "getInstance xml_parse x0 files inst =
     (case inst of Some i \<Rightarrow> i | None \<Rightarrow> snd (loadFeature xml_parse x0 files))"

section \<open>Queries\<close>

definition getEnableStatus :: "(string \<rightharpoonup> string) \<Rightarrow> string \<Rightarrow> bool" where
  "getEnableStatus features tag =
     (case features tag of None \<Rightarrow> False | Some v \<Rightarrow> v = ''true'' \<or> v = ''TRUE'')"

definition getEnableStatus_default :: "(string \<rightharpoonup> string) \<Rightarrow> string \<Rightarrow> bool \<Rightarrow> bool" where
  "getEnableStatus_default features tag defaultValue =
     (case features tag of
        None \<Rightarrow> defaultValue
      | Some v \<Rightarrow> if v = ''true'' \<or> v = ''TRUE'' then True else defaultValue)"

definition getString :: "(string \<rightharpoonup> string) \<Rightarrow> string \<Rightarrow> string" where
  "getString features tag = (case features tag of None \<Rightarrow> [] | Some v \<Rightarrow> v)"

definition getString_default :: "(string \<rightharpoonup> string) \<Rightarrow> string \<Rightarrow> string option \<Rightarrow> string option" where
  "getString_default features tag defaultValue = (case features tag of None \<Rightarrow> defaultValue | Some v \<Rightarrow> Some v)"

definition feature_atoi :: "string \<Rightarrow> int" where
  "feature_atoi s = signed_take_bit 31 (fst (strtol 63 10 s))"

definition getInteger :: "(string \<rightharpoonup> string) \<Rightarrow> string \<Rightarrow> int" where
  "getInteger features tag = (case features tag of None \<Rightarrow> -1 | Some v \<Rightarrow> feature_atoi v)"

definition getInteger_default :: "(string \<rightharpoonup> string) \<Rightarrow> string \<Rightarrow> int \<Rightarrow> int" where
  "getInteger_default features tag defaultValue = (case features tag of None \<Rightarrow> defaultValue | Some v \<Rightarrow> feature_atoi v)"

text \<open>The C interface; the instance is never null.\<close>

definition SecNativeFeature_getEnableStatus :: "(string \<rightharpoonup> string) \<Rightarrow> string \<Rightarrow> int" where
  "SecNativeFeature_getEnableStatus inst tag = of_bool (getEnableStatus inst tag)"

definition SecNativeFeature_getEnableStatusWithDefault :: "(string \<rightharpoonup> string) \<Rightarrow> string \<Rightarrow> int \<Rightarrow> int" where
  "SecNativeFeature_getEnableStatusWithDefault inst tag defaultValue = of_bool (getEnableStatus_default inst tag (defaultValue \<noteq> 0))"

definition SecNativeFeature_getInteger :: "(string \<rightharpoonup> string) \<Rightarrow> string \<Rightarrow> int" where
  "SecNativeFeature_getInteger inst tag = getInteger inst tag"

definition SecNativeFeature_getIntegerWithDefault :: "(string \<rightharpoonup> string) \<Rightarrow> string \<Rightarrow> int \<Rightarrow> int" where
  "SecNativeFeature_getIntegerWithDefault inst tag defaultValue = getInteger_default inst tag defaultValue"

definition SecNativeFeature_getString :: "(string \<rightharpoonup> string) \<Rightarrow> string \<Rightarrow> string option" where
  "SecNativeFeature_getString inst tag = Some (getString inst tag)"

definition SecNativeFeature_getStringWithDefault :: "(string \<rightharpoonup> string) \<Rightarrow> string \<Rightarrow> string option \<Rightarrow> string option" where
  "SecNativeFeature_getStringWithDefault inst tag defaultValue = getString_default inst tag defaultValue"

section \<open>What holds\<close>

text \<open>The text that a list of events has for a name: what is reported while the name is that of the element opened last.\<close>

fun texts_of :: "string \<Rightarrow> string \<Rightarrow> xml_event list \<Rightarrow> string list" where
  "texts_of name cur [] = []"
| "texts_of name cur (Start_element n # es) = texts_of name n es"
| "texts_of name cur (End_element # es) = texts_of name [] es"
| "texts_of name cur (Char_data s # es) = (if cur = name \<and> name \<noteq> [] then [s] else []) @ texts_of name cur es"

lemma handle_texts:
  "pFeatures (fold handle es d) name =
     (let ts = texts_of name (curr_name d) es
      in if ts = [] then pFeatures d name
         else Some ((case pFeatures d name of None \<Rightarrow> [] | Some old \<Rightarrow> old) @ concat ts))"
proof (induction es arbitrary: d)
  case (Cons e es)
  show ?case
  proof (cases e)
    case (Char_data s)
    then show ?thesis by (auto simp: Cons.IH charDataHandler_def Let_def split: option.split)
  qed (simp_all add: Cons.IH startElement_def endElement_def Let_def)
qed simp

text \<open>What the parser reports of a text that is read in pieces: the pieces of \<open>BUFSIZ\<close> characters, the last one shorter.\<close>

function chunk_events :: "'x xml_parser \<Rightarrow> string \<Rightarrow> 'x \<Rightarrow> xml_event list \<times> bool" where
  "chunk_events xml_parse text x =
     (case xml_parse x (take BUFSIZ text) (length text < BUFSIZ) of
        (events, ok, x') \<Rightarrow>
          if \<not> ok then (events, False)
          else if length text < BUFSIZ then (events, True)
          else (case chunk_events xml_parse (drop BUFSIZ text) x' of (es, ok') \<Rightarrow> (events @ es, ok')))"
  by pat_completeness auto
termination by (relation "measure (\<lambda>(_, text, _). length text)") (auto simp: BUFSIZ_def)

declare chunk_events.simps [simp del]

lemma load_loop_events:
  "load_loop xml_parse None content x d =
     (case chunk_events xml_parse content x of (es, ok) \<Rightarrow> (if ok then 0 else -1, fold handle es d))"
proof (induction xml_parse content x arbitrary: d rule: chunk_events.induct)
  case (1 xml_parse content x)
  obtain es ok x' where p: "xml_parse x (take BUFSIZ content) (length content < BUFSIZ) = (es, ok, x')" by (metis prod_cases3)
  have l: "length (take BUFSIZ content) < BUFSIZ \<longleftrightarrow> length content < BUFSIZ" by auto
  show ?case
  proof (cases "ok \<and> \<not> length content < BUFSIZ")
    case True
    then have "load_loop xml_parse None (drop BUFSIZ content) x' (fold handle es d) =
        (case chunk_events xml_parse (drop BUFSIZ content) x' of (es', ok) \<Rightarrow> (if ok then 0 else -1, fold handle es' (fold handle es d)))"
      using 1 [OF p [symmetric]] by simp
    then show ?thesis using True p
      by (subst load_loop.simps; subst chunk_events.simps) (auto simp: l Let_def split: prod.split)
  next
    case False
    then show ?thesis using p
      by (subst load_loop.simps; subst chunk_events.simps) (cases "length content < BUFSIZ"; auto simp: Let_def)
  qed
qed

text \<open>
  A feature has the text that the parser reports for its element, joined in order, however the parser and the buffer of the
  reader split it. An element that occurs twice has both texts, and a text behind a nested element is lost, as the name is cleared at its end.
\<close>

theorem features_are_texts:
  assumes "files FEATURE_FILE = Some (None, text)" "chunk_events xml_parse text x0 = (es, ok)"
  shows "loadFeature xml_parse x0 files =
    (if ok then 0 else -1,
     \<lambda>name. if texts_of name [] es = [] then None else Some (concat (texts_of name [] es)))"
  using handle_texts [of es "\<lparr>curr_name = [], pFeatures = Map.empty, ud_depth = 0\<rparr>"]
  by (auto simp: loadFeature_def assms load_loop_events Let_def)

text \<open>A parser for one flat document, for the witness: the text up to a space is the name of an element, the rest its text, one event each
  character.\<close>

definition toy_xml :: "bool xml_parser" where
  "toy_xml started buf fin =
     (let w = takeWhile (\<lambda>c. c \<noteq> CHR '' '') buf
      in (Start_element w # map (\<lambda>c. Char_data [c]) (drop (Suc (length w)) buf) @ [End_element], fin, True))"

theorem features_are_texts_witness:
  "getString (snd (loadFeature toy_xml False [FEATURE_FILE \<mapsto> (None, ''Radio on'')])) ''Radio'' = ''on''"
proof -
  have "chunk_events toy_xml ''Radio on'' False = ([Start_element ''Radio'', Char_data ''o'', Char_data ''n'', End_element], True)"
    by (subst chunk_events.simps) (simp add: toy_xml_def BUFSIZ_def)
  then show ?thesis
    using features_are_texts [of "[FEATURE_FILE \<mapsto> (None, ''Radio on'')]" "''Radio on''" toy_xml False]
    by (simp add: getString_def)
qed

text \<open>A feature that is set to false is reported as true to a caller whose default is true.\<close>

lemma false_feature_enabled: "features tag = Some ''false'' \<Longrightarrow> getEnableStatus_default features tag True"
  by (simp add: getEnableStatus_default_def)

end
