(* ===== verification/Shims.thy ===== *)
theory Shims
  imports Camera_Parameters
begin

text \<open>
  The functions of \<open>shims\<close> that stand in for symbols that libraries of the vendor expect: the colour format of the camera source
  (\<open>libstagefright\<close>), the destructor of a fence (\<open>libexynoscamera\<close>) and the hand-over of authentication tokens (\<open>libbauthtzcommon\<close>). The
  numbers of colour formats are those of the headers of OpenMAX, which are a parameter.
\<close>

section \<open>Colour formats\<close>

record omx_formats =
  OMX_COLOR_FormatYUV420Planar :: int
  OMX_COLOR_FormatYUV422SemiPlanar :: int
  OMX_COLOR_FormatYUV420SemiPlanar :: int
  OMX_COLOR_FormatYCbYCr :: int
  OMX_COLOR_Format16bitRGB565 :: int
  OMX_TI_COLOR_FormatYUV420PackedSemiPlanar :: int
  OMX_COLOR_FormatAndroidOpaque :: int
  OMX_QCOM_COLOR_FormatYVU420SemiPlanar :: int

definition getColorFormat :: "omx_formats \<Rightarrow> string option \<Rightarrow> int" where
  "getColorFormat omx colorFormat =
     (case colorFormat of
        None \<Rightarrow> -1
      | Some f \<Rightarrow>
          if f = ''yuv420p'' then OMX_COLOR_FormatYUV420Planar omx
          else if f = ''yuv422sp'' then OMX_COLOR_FormatYUV422SemiPlanar omx
          else if f = ''yuv420sp'' then OMX_COLOR_FormatYUV420SemiPlanar omx
          else if f = ''nv21'' then 0x7F000011
          else if f = ''yuv422i-yuyv'' then OMX_COLOR_FormatYCbYCr omx
          else if f = ''rgb565'' then OMX_COLOR_Format16bitRGB565 omx
          else if f = ''OMX_TI_COLOR_FormatYUV420PackedSemiPlanar'' then OMX_TI_COLOR_FormatYUV420PackedSemiPlanar omx
          else if f = ''android-opaque'' then OMX_COLOR_FormatAndroidOpaque omx
          else if f = ''YVU420SemiPlanar'' then OMX_QCOM_COLOR_FormatYVU420SemiPlanar omx
          else -1)"

definition BAD_VALUE :: int where "BAD_VALUE = -22"

text \<open>The status and the stored format.\<close>

definition isCameraColorFormatSupported :: "omx_formats \<Rightarrow> 'm keyed_vector \<Rightarrow> 'm \<Rightarrow> int \<times> int" where
  "isCameraColorFormatSupported omx kv params =
     (let mColorFormat = getColorFormat omx (cp_get kv params ''video-frame-format'')
      in (if mColorFormat = -1 then BAD_VALUE else 0, mColorFormat))"

section \<open>Other symbols\<close>

definition Fence_destructor :: "'a \<Rightarrow> 'a" where "Fence_destructor this = this"

definition BAuth_Hat_OP :: "int \<Rightarrow> int \<Rightarrow> int \<Rightarrow> int \<Rightarrow> int \<Rightarrow> int \<Rightarrow> int" where
  "BAuth_Hat_OP arg0 arg1 arg2 arg3 arg4 arg5 = 0"

section \<open>What holds\<close>

definition known_formats :: "string list" where
  "known_formats = [''yuv420p'', ''yuv422sp'', ''yuv420sp'', ''nv21'', ''yuv422i-yuyv'', ''rgb565'',
     ''OMX_TI_COLOR_FormatYUV420PackedSemiPlanar'', ''android-opaque'', ''YVU420SemiPlanar'']"

text \<open>A camera is supported exactly if its parameters name a known format; the parameter may be missing.\<close>

lemma color_format_supported:
  assumes "\<And>f. f \<in> set known_formats \<Longrightarrow> getColorFormat omx (Some f) \<noteq> -1"
  shows "fst (isCameraColorFormatSupported omx kv params) = 0 \<longleftrightarrow>
    (\<exists>f \<in> set known_formats. cp_get kv params ''video-frame-format'' = Some f)"
proof (cases "cp_get kv params ''video-frame-format''")
  case (Some f)
  have "f \<notin> set known_formats \<Longrightarrow> getColorFormat omx (Some f) = -1"
    by (simp add: known_formats_def getColorFormat_def)
  then show ?thesis using Some assms [of f] by (auto simp: isCameraColorFormatSupported_def Let_def BAD_VALUE_def)
qed (simp add: isCameraColorFormatSupported_def getColorFormat_def BAD_VALUE_def)

end
