(* ===== verification/Xwrap.thy ===== *)
theory Xwrap
  imports Misc_Utils
begin

text \<open>
  The wrappers of \<open>tools/resetprop/utils/xwrap.c\<close>, and the last helpers of \<open>utils/misc.c\<close>, over the three kinds of logging
  that \<open>include/logging.h\<close> can be compiled with: none (as in this build), the log of a daemon, and exit. A function that is wrapped is an
  argument: from the state, which holds \<open>errno\<close>, to its result and the next state. The library that writes the log
  may change \<open>errno\<close>; what it makes of it is the argument \<open>relog\<close>. The result is \<^const>\<open>Inl\<close> if the process exits, with the message.
  Wrappers that the model of directory trees uses (\<open>xmkdirat\<close>, \<open>xopenat\<close>, \<open>xsendfile\<close>) and \<open>xreadlink\<close> stand with their users.
\<close>

section \<open>Logging\<close>

datatype log_mode = No_log | Daemon_log "int \<Rightarrow> int" | Exit_log

record 'k xst =
  x_errno :: int
  x_out :: "(string \<times> int) list"
  x_info :: "string list"
  x_kernel :: 'k

type_synonym ('k, 'a) xcall = "'k xst \<Rightarrow> 'a \<times> 'k xst"
type_synonym ('k, 'a) xrun = "'k xst \<Rightarrow> (string \<times> int) + ('a \<times> 'k xst)"

definition PLOGE :: "log_mode \<Rightarrow> string \<Rightarrow> 'k xst \<Rightarrow> (string \<times> int) + 'k xst" where
  "PLOGE md msg st =
     (case md of
        No_log \<Rightarrow> Inr st
      | Daemon_log relog \<Rightarrow> Inr (st\<lparr>x_out := x_out st @ [(msg, x_errno st)], x_errno := relog (x_errno st)\<rparr>)
      | Exit_log \<Rightarrow> Inl (msg, x_errno st))"

text \<open>Only the daemon logs what is not an error.\<close>

definition LOGI :: "log_mode \<Rightarrow> string \<Rightarrow> 'k xst \<Rightarrow> 'k xst" where
  "LOGI md msg st =
     (case md of Daemon_log relog \<Rightarrow> st\<lparr>x_info := x_info st @ [msg], x_errno := relog (x_errno st)\<rparr> | _ \<Rightarrow> st)"

text \<open>The shape of most wrappers: call, test the result (and \<open>errno\<close>), log, return the result.\<close>

definition wrap :: "log_mode \<Rightarrow> ('a \<Rightarrow> int \<Rightarrow> bool) \<Rightarrow> string \<Rightarrow> ('k, 'a) xcall \<Rightarrow> ('k, 'a) xrun" where
  "wrap md fails msg call st =
     (case call st of
        (r, st1) \<Rightarrow>
          if fails r (x_errno st1)
          then (case PLOGE md msg st1 of Inl e \<Rightarrow> Inl e | Inr st2 \<Rightarrow> Inr (r, st2))
          else Inr (r, st1))"

definition null_result :: "'a option \<Rightarrow> int \<Rightarrow> bool" where "null_result r e \<longleftrightarrow> r = None"
definition negative :: "int \<Rightarrow> int \<Rightarrow> bool" where "negative r e \<longleftrightarrow> r < 0"
definition minus_one :: "int \<Rightarrow> int \<Rightarrow> bool" where "minus_one r e \<longleftrightarrow> r = -1"
definition not_exists :: "int \<Rightarrow> int \<Rightarrow> bool" where "not_exists r e \<longleftrightarrow> r = -1 \<and> e \<noteq> 17"

section \<open>Files and directories\<close>

definition xfopen where "xfopen md sys pathname mode = wrap md null_result (''fopen: '' @ pathname) (sys pathname mode)"
definition xfdopen where "xfdopen md sys (fd :: int) (mode :: string) = wrap md null_result ''fopen'' (sys fd mode)"
definition xopen2 where "xopen2 md sys pathname (flags :: int) = wrap md negative (''open: '' @ pathname) (sys pathname flags)"
definition xopen3 where
  "xopen3 md sys pathname (flags :: int) (mode :: u32) = wrap md negative (''open: '' @ pathname) (sys pathname flags mode)"
definition xopendir where "xopendir md sys name = wrap md null_result (''opendir: '' @ name) (sys name)"
definition xfdopendir where "xfdopendir md sys (fd :: int) = wrap md null_result ''fdopendir'' (sys fd)"

text \<open>\<open>errno\<close> is cleared first, so that the end of the directory is told from an error.\<close>

definition xreaddir where
  "xreaddir md sys dirp st = wrap md (\<lambda>e n. n \<noteq> 0 \<and> e = None) ''readdir'' (sys dirp) (st\<lparr>x_errno := 0\<rparr>)"

definition xstat where "xstat md sys pathname = wrap md minus_one (''stat '' @ pathname) (sys pathname)"
definition xlstat where "xlstat md sys pathname = wrap md minus_one (''lstat '' @ pathname) (sys pathname)"
definition xsymlink where
  "xsymlink md sys target linkpath = wrap md minus_one (''symlink '' @ target @ ''->'' @ linkpath) (sys target linkpath)"
definition xsymlinkat where
  "xsymlinkat md sys target (newdirfd :: int) linkpath =
     wrap md minus_one (''symlinkat '' @ target @ ''->'' @ linkpath) (sys target newdirfd linkpath)"
definition xlinkat where
  "xlinkat md sys (olddirfd :: int) oldpath (newdirfd :: int) newpath (flags :: int) =
     wrap md minus_one (''linkat '' @ oldpath @ ''->'' @ newpath) (sys olddirfd oldpath newdirfd newpath flags)"
definition xrename where
  "xrename md sys oldpath newpath = wrap md minus_one (''rename '' @ oldpath @ ''->'' @ newpath) (sys oldpath newpath)"
definition xmkdir where
  "xmkdir md sys pathname (mode :: u32) =
     wrap md not_exists (''mkdir '' @ pathname @ '' '' @ to_string (uint mode)) (sys pathname mode)"
definition xmkdirs where "xmkdirs md sys pathname (mode :: u32) = wrap md minus_one (''mkdirs '' @ pathname) (sys pathname mode)"
definition xmount where
  "xmount md sys source target fstype (flags :: u64) data =
     wrap md minus_one (''mount '' @ source @ ''->'' @ target) (sys source target fstype flags data)"
definition xumount where "xumount md sys target = wrap md minus_one (''umount '' @ target) (sys target)"
definition xumount2 where "xumount2 md sys target (flags :: int) = wrap md minus_one (''umount2 '' @ target) (sys target flags)"

text \<open>\<open>readlinkat\<close> with the terminator behind the text; \<^const>\<open>None\<close> if that is outside of the buffer.\<close>

definition xreadlinkat ::
    "log_mode \<Rightarrow> (int \<Rightarrow> string \<Rightarrow> nat \<Rightarrow> 'k xst \<Rightarrow> int \<times> string \<times> 'k xst) \<Rightarrow> int \<Rightarrow> string \<Rightarrow> cells \<Rightarrow> nat \<Rightarrow> 'k xst \<Rightarrow>
     ((string \<times> int) + (int \<times> cells \<times> 'k xst)) option" where
  "xreadlinkat md sys dirfd pathname buf bufsiz st =
     (case sys dirfd pathname bufsiz st of
        (ret, t, st1) \<Rightarrow>
          if ret = -1
          then (case PLOGE md (''readlinkat '' @ pathname) st1 of Inl e \<Rightarrow> Some (Inl e) | Inr st2 \<Rightarrow> Some (Inr (ret, buf, st2)))
          else map_option (\<lambda>m. Inr (ret, m, st1)) (store (map Some t @ drop (length t) buf) (nat ret) (CHR 0x00)))"

section \<open>Reading and writing\<close>

text \<open>The result of type \<open>ssize_t\<close> goes through an \<open>int\<close>; comparing it with a \<open>size_t\<close> makes it one.\<close>

definition as_int :: "int \<Rightarrow> int" where "as_int r = signed_take_bit 31 r"

definition wrong_size :: "u64 \<Rightarrow> int \<Rightarrow> int \<Rightarrow> bool" where "wrong_size cnt r e \<longleftrightarrow> cnt \<noteq> word_of_int r"

definition through_int :: "('k, int) xcall \<Rightarrow> ('k, int) xcall" where
  "through_int call st = (case call st of (r, st1) \<Rightarrow> (as_int r, st1))"

definition xwrite where "xwrite md sys (fd :: int) (buf :: string) (cnt :: u64) = wrap md (wrong_size cnt) ''write'' (through_int (sys fd buf cnt))"
definition xread where "xread md sys (fd :: int) (cnt :: u64) = wrap md negative ''read'' (through_int (sys fd cnt))"
definition xxread where "xxread md sys (fd :: int) (cnt :: u64) = wrap md (wrong_size cnt) ''read'' (through_int (sys fd cnt))"
definition xsendmsg where "xsendmsg md sys (sockfd :: int) msg (flags :: int) = wrap md minus_one ''sendmsg'' (through_int (sys sockfd msg flags))"
definition xrecvmsg where "xrecvmsg md sys (sockfd :: int) (flags :: int) = wrap md minus_one ''recvmsg'' (through_int (sys sockfd flags))"

section \<open>Descriptors, sockets, processes and memory\<close>

definition xpipe2 where "xpipe2 md sys (flags :: int) = wrap md minus_one ''pipe2'' (sys flags)"
definition xdup2 where "xdup2 md sys (oldfd :: int) (newfd :: int) = wrap md minus_one ''dup2'' (sys oldfd newfd)"
definition xdup3 where "xdup3 md sys (oldfd :: int) (newfd :: int) (flags :: int) = wrap md minus_one ''dup3'' (sys oldfd newfd flags)"
definition xsetns where "xsetns md sys (fd :: int) (nstype :: int) = wrap md minus_one ''setns'' (sys fd nstype)"
definition xunshare where "xunshare md sys (flags :: int) = wrap md minus_one ''unshare'' (sys flags)"
definition xsetsid where "xsetsid md sys = wrap md minus_one ''setsid'' sys"
definition xfork where "xfork md sys = wrap md minus_one ''fork'' sys"
definition xsocket where "xsocket md sys (domain :: int) (ty :: int) (protocol :: int) = wrap md minus_one ''socket'' (sys domain ty protocol)"
definition xbind where "xbind md sys (sockfd :: int) addr (addrlen :: nat) = wrap md minus_one ''bind'' (sys sockfd addr addrlen)"
definition xlisten where "xlisten md sys (sockfd :: int) (backlog :: int) = wrap md minus_one ''listen'' (sys sockfd backlog)"
definition xmalloc where "xmalloc md sys (sz :: u64) = wrap md null_result ''malloc'' (sys sz)"
definition xcalloc where "xcalloc md sys (nmemb :: u64) (sz :: u64) = wrap md null_result ''calloc'' (sys nmemb sz)"
definition xrealloc where "xrealloc md sys ptr (sz :: u64) = wrap md null_result ''realloc'' (sys ptr sz)"
definition xmmap where
  "xmmap md sys addr (len :: u64) (prot :: int) (flags :: int) (fd :: int) (offset :: int) =
     wrap md null_result ''mmap'' (sys addr len prot flags fd offset)"

text \<open>\<open>accept\<close>, then the flags, which are set even if there is no descriptor. \<open>fcntl_fd\<close>, \<open>fcntl_getfl\<close> and \<open>fcntl_setfl\<close> are the three uses of \<open>fcntl\<close>.\<close>

definition SOCK_CLOEXEC :: u32 where "SOCK_CLOEXEC = 0x80000"
definition SOCK_NONBLOCK :: u32 where "SOCK_NONBLOCK = 0x800"
definition O_NONBLOCK :: u32 where "O_NONBLOCK = 0x800"

definition xaccept4 ::
    "log_mode \<Rightarrow> (int \<Rightarrow> ('k, int) xcall) \<Rightarrow> (int \<Rightarrow> 'k xst \<Rightarrow> 'k xst) \<Rightarrow> (int \<Rightarrow> ('k, u32) xcall) \<Rightarrow> (int \<Rightarrow> u32 \<Rightarrow> 'k xst \<Rightarrow> 'k xst) \<Rightarrow>
     int \<Rightarrow> u32 \<Rightarrow> ('k, int) xrun" where
  "xaccept4 md sys fcntl_cloexec fcntl_getfl fcntl_setfl sockfd flags st =
     (case wrap md minus_one ''accept4'' (sys sockfd) st of
        Inl e \<Rightarrow> Inl e
      | Inr (fd, st1) \<Rightarrow>
          let st2 = (if flags AND SOCK_CLOEXEC \<noteq> 0 then fcntl_cloexec fd st1 else st1)
          in Inr (fd, if flags AND SOCK_NONBLOCK \<noteq> 0
                      then (case fcntl_getfl fd st2 of (i, st3) \<Rightarrow> fcntl_setfl fd (i OR O_NONBLOCK) st3)
                      else st2))"

text \<open>\<open>errno\<close> takes the result, is tested, and is returned after the log message.\<close>

definition xpthread_create :: "log_mode \<Rightarrow> ('k, int) xcall \<Rightarrow> ('k, int) xrun" where
  "xpthread_create md sys st =
     (case sys st of
        (e, st1) \<Rightarrow>
          let st2 = st1\<lparr>x_errno := e\<rparr>
          in if e \<noteq> 0
             then (case PLOGE md ''pthread_create'' st2 of Inl x \<Rightarrow> Inl x | Inr st3 \<Rightarrow> Inr (x_errno st3, st3))
             else Inr (e, st2))"

section \<open>The last helpers of misc.c\<close>

definition MS_BIND :: u64 where "MS_BIND = 4096"

definition bind_mount where
  "bind_mount md sys source target st =
     (case xmount md sys source target None MS_BIND None st of
        Inl e \<Rightarrow> Inl e
      | Inr (ret, st1) \<Rightarrow> Inr (ret, LOGI md (''bind_mount: '' @ target @ [CHR 0x0A]) st1))"

text \<open>The credentials stay as they were if the call fails.\<close>

definition get_client_cred where
  "get_client_cred md sys (fd :: int) cred st =
     (case sys fd st of
        (r :: int, c, st1) \<Rightarrow>
          if r \<noteq> 0
          then (case PLOGE md ''getsockopt'' st1 of Inl e \<Rightarrow> Inl e | Inr st2 \<Rightarrow> Inr (cred, st2))
          else Inr (c, st1))"

definition fsetxattr_call where
  "fsetxattr_call sys (fd :: int) (name :: string) (v :: string) (sz :: u64) (flags :: int) st = through_int (sys fd name v sz flags) st"

section \<open>What holds\<close>

text \<open>What a wrapper does beyond the call it wraps: nothing without a log; with one, a line with the error of the call, after which only \<open>errno\<close>
  may differ; with exit, the end of the process, exactly if the call failed.\<close>

lemma wrap_cases:
  assumes "call st = (r, st')"
  shows "wrap No_log fails msg call st = Inr (r, st')"
    and "wrap (Daemon_log relog) fails msg call st =
      Inr (r, if fails r (x_errno st')
              then st'\<lparr>x_out := x_out st' @ [(msg, x_errno st')], x_errno := relog (x_errno st')\<rparr> else st')"
    and "wrap Exit_log fails msg call st = (if fails r (x_errno st') then Inl (msg, x_errno st') else Inr (r, st'))"
  using assms by (simp_all add: wrap_def PLOGE_def)

lemma as_int_id: "- (2 ^ 31) \<le> r \<Longrightarrow> r < 2 ^ 31 \<Longrightarrow> as_int r = r"
  by (simp add: as_int_def signed_take_bit_int_eq_self)

text \<open>
  Reading and writing through the wrappers: as long as the kernel transfers at most its limit of \<open>0x7ffff000\<close> bytes at once, the result
  is the one of the call, and the wrappers for whole transfers log exactly if not all the bytes that were asked for were transferred. The
  result passes through 32 bits, so a kernel without the limit would be misunderstood: a transfer of \<open>2\<^sup>32\<close> bytes counts as none.
\<close>

theorem transfers_reported:
  assumes call: "call st = (r, st')" and r: "-1 \<le> r" "r \<le> 0x7ffff000" and big: "cnt \<noteq> -1"
    and io: "wr fd buf cnt = call" "rd fd cnt = call"
  shows "xread No_log rd fd cnt st = Inr (r, st') \<and>
    xwrite (Daemon_log relog) wr fd buf cnt st =
      Inr (r, if r = int (unat cnt) then st'
              else st'\<lparr>x_out := x_out st' @ [(''write'', x_errno st')], x_errno := relog (x_errno st')\<rparr>) \<and>
    xxread Exit_log rd fd cnt st = (if r = int (unat cnt) then Inr (r, st') else Inl (''read'', x_errno st')) \<and>
    as_int (2 ^ 32) = 0"
proof -
  have t: "through_int call st = (r, st')" using call r by (simp add: through_int_def as_int_id)
  have w: "wrong_size cnt r e \<longleftrightarrow> r \<noteq> int (unat cnt)" for e
  proof (cases "r = -1")
    case False
    then have "uint (word_of_int r :: u64) = r" using r by (simp add: unsigned_of_int take_bit_int_eq_self)
    moreover have "int (unat cnt) = uint cnt" by simp
    ultimately show ?thesis unfolding wrong_size_def by (metis word_of_int_uint)
  qed (use big uint_ge_0 [of cnt] in \<open>simp add: wrong_size_def; linarith\<close>)
  have "as_int (2 ^ 32) = 0" by (simp add: as_int_def signed_take_bit_eq_take_bit_shift)
  then show ?thesis
    using r by (simp add: xread_def xwrite_def xxread_def io wrap_cases [of "through_int call" st, OF t] w negative_def)
qed

definition demo_xst :: "unit xst" where
  "demo_xst = \<lparr>x_errno = 0, x_out = [], x_info = [], x_kernel = ()\<rparr>"

theorem transfers_reported_witness:
  "xwrite (Daemon_log (\<lambda>e. 0)) (\<lambda>fd buf n st. (3, st\<lparr>x_errno := 28\<rparr>)) 1 ''hello'' 5 demo_xst =
     Inr (3, demo_xst\<lparr>x_out := [(''write'', 28)], x_errno := 0\<rparr>)"
  using transfers_reported [of "\<lambda>st. (3, st\<lparr>x_errno := 28\<rparr>)" demo_xst 3 "demo_xst\<lparr>x_errno := 28\<rparr>" 5
      "\<lambda>fd buf n st. (3, st\<lparr>x_errno := 28\<rparr>)" 1 "''hello''" "\<lambda>fd n st. (3, st\<lparr>x_errno := 28\<rparr>)" "\<lambda>e. 0"]
  by (simp add: demo_xst_def)

text \<open>A thread that was not created is reported as created when the logger clears \<open>errno\<close>.\<close>

lemma xpthread_create_zero:
  assumes "sys st = (e, st')" "e \<noteq> 0" "relog e = 0"
  shows "\<exists>st2. xpthread_create (Daemon_log relog) sys st = Inr (0, st2)"
  using assms by (simp add: xpthread_create_def PLOGE_def)

text \<open>The terminator is behind the buffer when the link fills it.\<close>

lemma xreadlinkat_overflow:
  assumes "sys dirfd pathname (length buf) st = (int (length buf), t, st1)" "length t = length buf"
  shows "xreadlinkat md sys dirfd pathname buf (length buf) st = None"
  using assms by (simp add: xreadlinkat_def store_def)

text \<open>An accepted descriptor gets the flags that were asked for; after a failure the flags of no descriptor are read and written.\<close>

lemma xaccept4_flags:
  assumes "sys sockfd st = (fd, st1)" "fd \<noteq> -1 \<or> md = No_log" "flags AND SOCK_CLOEXEC \<noteq> 0" "flags AND SOCK_NONBLOCK \<noteq> 0"
    and "getfl fd (cloexec fd st1) = (i, st2)"
  shows "xaccept4 md sys cloexec getfl setfl sockfd flags st = Inr (fd, setfl fd (i OR O_NONBLOCK) st2)"
  using assms by (auto simp: xaccept4_def wrap_def PLOGE_def minus_one_def Let_def)

end
