(* ===== verification/Property_Api.thy ===== *)
theory Property_Api
  imports Property_Room Init_Sec
begin

text \<open>
  The C interface of the property system, \<open>tools/resetprop/system_property_api.cpp\<close>, on the one object \<open>system_properties\<close>, and a client of it:
  the overriding of properties that \<open>init/init_sec.h\<close> does through the same functions of the platform. The locale \<open>platform_properties\<close> is
  what the client asks of the interface; the model of the property system interprets it.
\<close>

section \<open>The C interface\<close>

definition system_property_set_filename :: "string \<Rightarrow> int" where "system_property_set_filename name = -1"

definition system_property_area_serial :: "sysprops \<Rightarrow> u32 option" where
  "system_property_area_serial sp = sp_AreaSerial sp"

definition system_property_find :: "string \<Rightarrow> sysprops \<Rightarrow> (pi_ptr option \<times> sysprops) option" where
  "system_property_find name sp = sp_Find name sp"

text \<open>The functions that take a record: a null or dangling pointer is \<^const>\<open>None\<close>.\<close>

definition system_property_read :: "pi_ptr \<Rightarrow> sysprops \<Rightarrow> (nat \<times> string \<times> char list) option" where
  "system_property_read pi sp = do { (pa, i) \<leftarrow> sp_info sp pi; sp_Read i }"

definition system_property_read_callback :: "pi_ptr \<Rightarrow> sysprops \<Rightarrow> (string \<times> string \<times> u32) option" where
  "system_property_read_callback pi sp = do { (pa, i) \<leftarrow> sp_info sp pi; sp_ReadCallback pa (snd pi) i }"

definition system_property_serial :: "pi_ptr \<Rightarrow> sysprops \<Rightarrow> u32 option" where
  "system_property_serial pi sp = do { (pa, i) \<leftarrow> sp_info sp pi; sp_Serial i }"

definition system_property_get :: "string \<Rightarrow> sysprops \<Rightarrow> ((nat \<times> string) \<times> sysprops) option" where
  "system_property_get name sp = sp_Get name sp"

definition system_property_update :: "pi_ptr \<Rightarrow> string \<Rightarrow> nat \<Rightarrow> sysprops \<Rightarrow> (int \<times> sysprops) option" where
  "system_property_update pi v len sp = sp_Update pi v len sp"

text \<open>The lengths that are passed to \<open>Add\<close> are those of the strings.\<close>

definition system_property_add :: "string \<Rightarrow> string \<Rightarrow> sysprops \<Rightarrow> (int \<times> sysprops) option" where
  "system_property_add name v sp = sp_Add name v sp"

definition system_property_del :: "string \<Rightarrow> sysprops \<Rightarrow> (int \<times> sysprops) option" where
  "system_property_del name sp = sp_Delete name sp"

definition system_property_wait_any :: "u32 \<Rightarrow> (bool \<times> u32) list \<Rightarrow> sysprops \<Rightarrow> u32 option option" where
  "system_property_wait_any old_serial evs sp = sp_WaitAny old_serial evs sp"

definition system_property_wait :: "pi_ptr option \<Rightarrow> u32 \<Rightarrow> (bool \<times> u32) list \<Rightarrow> sysprops \<Rightarrow> (bool \<times> u32 option) option" where
  "system_property_wait pi old_serial evs sp = sp_Wait pi old_serial evs sp"

definition system_property_find_nth :: "u32 \<Rightarrow> sysprops \<Rightarrow> (pi_ptr option \<times> sysprops) option" where
  "system_property_find_nth n sp = sp_FindNth n sp"

definition system_property_foreach :: "sysprops \<Rightarrow> (int \<times> pi_ptr list \<times> sysprops) option" where
  "system_property_foreach sp = sp_Foreach sp"

section \<open>The property system as the platform of init\<close>

text \<open>\<open>GetProperty\<close> of libbase: find, then read through the callback; a property that does not exist gives the empty default.\<close>

definition GetProperty :: "string \<Rightarrow> sysprops \<Rightarrow> (string \<times> sysprops) option" where
  "GetProperty name sp =
     do { (pi, sp1) \<leftarrow> system_property_find name sp;
          (case pi of
             None \<Rightarrow> Some ([], sp1)
           | Some p \<Rightarrow> do { (n, v, serial) \<leftarrow> system_property_read_callback p sp1; Some (v, sp1) }) }"

definition sysprops_api :: "(sysprops, pi_ptr) property_api" where
  "sysprops_api = \<lparr>pa_get = GetProperty, pa_find = system_property_find, pa_update = system_property_update, pa_add = system_property_add\<rparr>"

lemma sysprops_api_simps [simp]:
  "pa_get sysprops_api = GetProperty" "pa_find sysprops_api = sp_Find" "pa_update sysprops_api = sp_Update" "pa_add sysprops_api = sp_Add"
  by (simp_all add: sysprops_api_def fun_eq_iff system_property_find_def system_property_update_def system_property_add_def)

text \<open>The bytes that are free for a property; none for a name with an empty piece, which no area takes.\<close>

definition free_bytes :: "sysprops \<Rightarrow> string \<Rightarrow> nat" where
  "free_bytes sp n = (if [] \<in> set (tokens n) then 0 else sp_space sp n)"

lemma add_need_pos: "0 < add_need n v"
  using align4_pos [of "sizeof_prop_info + length n + 1"] by (simp add: add_need_def info_size_def)

lemma room_cong: "sp_rec s1 = sp_rec s \<Longrightarrow> updatable s1 = updatable s" "sp_space s1 = sp_space s \<Longrightarrow> free_bytes s1 = free_bytes s"
  by (simp_all add: fun_eq_iff updatable_def free_bytes_def)

lemma find_sysprops:
  assumes "sp_ok s"
  shows "\<exists>pi s1. sp_Find n s = Some (pi, s1) \<and> sp_ok s1 \<and> (pi = None \<longleftrightarrow> sp_get s n = None)
    \<and> sp_get s1 = sp_get s \<and> updatable s1 = updatable s \<and> free_bytes s1 = free_bytes s
    \<and> (\<forall>p. pi = Some p \<longrightarrow> (\<exists>serial. system_property_read_callback p s1 = Some (n, prop_text (sp_get s n), serial)))"
proof -
  obtain pi s1 where f: "sp_Find n s = Some (pi, s1)" "sp_ok s1" "\<forall>m. sp_get s1 m = sp_get s m"
    "case pi of None \<Rightarrow> sp_get s n = None
     | Some p \<Rightarrow> \<exists>pa i v serial. sp_info s1 p = Some (pa, i)
         \<and> sp_ReadCallback pa (snd p) i = Some (n, v, serial) \<and> sp_get s n = Some v"
    using Find_law [OF assms, of n] by blast
  have "sp_rec s1 = sp_rec s" "sp_space s1 = sp_space s" using Find_room [OF assms f(1)] by auto
  then show ?thesis
    using f room_cong by (cases pi) (auto simp: system_property_read_callback_def prop_text_def fun_eq_iff)
qed

interpretation sysprop: platform_properties sysprops_api sp_ok sp_get updatable free_bytes add_need
proof
  fix s n
  assume ok: "sp_ok s"
  from find_sysprops [OF ok, of n] obtain pi s1 where f: "sp_Find n s = Some (pi, s1)" "sp_ok s1" "pi = None \<longleftrightarrow> sp_get s n = None"
    "sp_get s1 = sp_get s" "updatable s1 = updatable s" "free_bytes s1 = free_bytes s"
    "\<forall>p. pi = Some p \<longrightarrow> (\<exists>serial. system_property_read_callback p s1 = Some (n, prop_text (sp_get s n), serial))" by (elim exE conjE) (rule that)
  show "\<exists>pi s1. pa_find sysprops_api n s = Some (pi, s1) \<and> sp_ok s1 \<and> (pi = None \<longleftrightarrow> sp_get s n = None)
      \<and> sp_get s1 = sp_get s \<and> updatable s1 = updatable s \<and> free_bytes s1 = free_bytes s"
    using f by auto
  show "\<exists>s1. pa_get sysprops_api n s = Some (prop_text (sp_get s n), s1) \<and> sp_ok s1
      \<and> sp_get s1 = sp_get s \<and> updatable s1 = updatable s \<and> free_bytes s1 = free_bytes s"
    using f by (cases pi) (auto simp: GetProperty_def system_property_find_def prop_text_def)
next
  fix s n p s1 v
  assume a: "sp_ok s" "pa_find sysprops_api n s = Some (Some p, s1)" "updatable s n" "short_value v"
  then obtain s2 where s2: "sp_Update p v (length v) s1 = Some (0, s2)" "sp_ok s2"
    "\<forall>m. sp_get s2 m = (if m = n then Some (take (length v) v) else sp_get s m)"
    "\<forall>m. m \<noteq> n \<longrightarrow> sp_rec s2 m = sp_rec s m" "\<forall>m. sp_space s2 m = sp_space s m"
    using Update_room [OF a(1), of n p s1 "length v" v] by (auto simp: short_value_def PROP_VALUE_MAX_def)
  have "\<forall>m. m \<noteq> n \<longrightarrow> updatable s2 m = updatable s m" "free_bytes s2 = free_bytes s" "sp_get s2 = (sp_get s)(n \<mapsto> v)"
    using s2(3-5) by (simp_all add: updatable_def free_bytes_def fun_eq_iff)
  with s2(1,2) show "\<exists>s2. pa_update sysprops_api p v (length v) s1 = Some (0, s2) \<and> sp_ok s2 \<and> sp_get s2 = (sp_get s)(n \<mapsto> v)
      \<and> (\<forall>m. m \<noteq> n \<longrightarrow> updatable s2 m = updatable s m) \<and> free_bytes s2 = free_bytes s"
    by simp
next
  fix s n v
  assume a: "sp_ok s" "sp_get s n = None" "short_value v"
  then obtain r s2 where r: "sp_Add n v s = Some (r, s2)" "sp_ok s2"
    "\<forall>m. sp_get s2 m = (if m = n \<and> r = 0 then Some v else sp_get s m)"
    "n \<noteq> [] \<and> [] \<notin> set (tokens n) \<and> add_need n v \<le> sp_space s n \<longrightarrow> r = 0"
    "\<forall>m. m \<noteq> n \<longrightarrow> sp_rec s2 m = sp_rec s m" "\<forall>m. sp_space s m \<le> sp_space s2 m + add_need n v"
    using Add_room [OF a(1) _ _ a(2), of v] by (auto simp: short_value_def PROP_VALUE_MAX_def)
  have "r = 0" if "add_need n v \<le> free_bytes s n"
    using that r(4) add_need_pos [of n v] by (cases n) (auto simp: free_bytes_def split: if_splits)
  moreover have "\<forall>m. m \<noteq> n \<longrightarrow> updatable s2 m = updatable s m" "\<forall>m. free_bytes s m \<le> free_bytes s2 m + add_need n v"
    "sp_get s2 = (if r = 0 then (sp_get s)(n \<mapsto> v) else sp_get s)"
    using r(3,5,6) by (simp_all add: updatable_def free_bytes_def fun_eq_iff)
  ultimately show "\<exists>r s2. pa_add sysprops_api n v s = Some (r, s2) \<and> sp_ok s2 \<and> sp_get s2 = (if r = 0 then (sp_get s)(n \<mapsto> v) else sp_get s)
      \<and> (add_need n v \<le> free_bytes s n \<longrightarrow> r = 0) \<and> (\<forall>m. m \<noteq> n \<longrightarrow> updatable s2 m = updatable s m)
      \<and> (\<forall>m. free_bytes s m \<le> free_bytes s2 m + add_need n v)"
    using r(1,2) by (intro exI [of _ r] exI [of _ s2]) simp
qed

section \<open>Init on the property system\<close>

text \<open>The properties that init overrides in a state, and the condition that they can be stored.\<close>

definition init_list :: "sysprops \<Rightarrow> (string \<times> string) list" where
  "init_list sp =
     vendor_properties (prop_text (sp_get sp ''ro.product.device'')) (prop_text (sp_get sp ''ro.bootloader''))
       (prop_text (sp_get sp ''ro.build.description'')) (prop_text (sp_get sp ''ro.build.fingerprint''))"

definition init_room :: "sysprops \<Rightarrow> bool" where
  "init_room sp \<longleftrightarrow> storable_list (sp_get sp) (updatable sp) (free_bytes sp) add_need (init_list sp)"

lemma vendor_load_sysprops:
  assumes "sp_ok sp" and "init_room sp"
  shows "\<exists>sp'. vendor_load_properties sysprops_api sp = Some sp' \<and> sp_ok sp' \<and> sp_get sp' = sp_get sp ++ map_of (init_list sp)"
  using sysprop.vendor_load_law [OF assms(1) assms(2) [unfolded init_room_def init_list_def] vendor_properties_distinct]
  by (simp add: init_list_def)

text \<open>A device with the given properties and nothing else, in one area.\<close>

lemma seed_properties:
  assumes "distinct (map fst qs)" and "\<forall>(n, v) \<in> set qs. short_value v \<and> [] \<notin> set (tokens n)"
    and "sum_list (map (\<lambda>(n, v). add_need n v) qs) \<le> 130924"
  shows "\<exists>sp. sp_ok sp \<and> sp_get sp = map_of qs \<and> (\<forall>m. updatable sp m)
    \<and> (\<forall>m. 130924 \<le> sp_space sp m + sum_list (map (\<lambda>(n, v). add_need n v) qs))"
  using assms
proof (induction qs)
  case Nil
  have "sp_space sample_sp m = 130924" for m
    by (simp add: sp_space_def sp_pa_def sample_sp_area prop_area_init_def sizeof_prop_bt_def)
  then show ?case
    using sample_sp_ok updatable_missing [OF sample_sp_ok sample_sp_get] by (intro exI [of _ sample_sp]) (auto simp: sample_sp_get fun_eq_iff)
next
  case (Cons q qs)
  obtain n v where q: "q = (n, v)" by fastforce
  obtain sp where sp: "sp_ok sp" "sp_get sp = map_of qs" "\<And>m. updatable sp m"
    "\<And>m. 130924 \<le> sp_space sp m + sum_list (map (\<lambda>(n, v). add_need n v) qs)"
    using Cons by auto
  have "sp_get sp n = None" "NUL \<notin> set v" "length v < PROP_VALUE_MAX" "[] \<notin> set (tokens n)"
    using Cons.prems(1,2) q sp(2) by (auto simp: map_of_eq_None_iff short_value_def PROP_VALUE_MAX_def)
  moreover from this(4) have "n \<noteq> []" by (cases n) auto
  moreover have "add_need n v \<le> sp_space sp n" using sp(4) [of n] Cons.prems(3) q by simp
  ultimately obtain sp' where a: "sp_ok sp'"
    "\<forall>m. sp_get sp' m = (if m = n then Some v else sp_get sp m)" "\<forall>m. m \<noteq> n \<longrightarrow> sp_rec sp' m = sp_rec sp m"
    "\<forall>m. sp_space sp m \<le> sp_space sp' m + add_need n v" "sp_rec sp' n = Some (prop_info_short n v)"
    using Add_room [OF sp(1), of v n] by auto
  have u: "updatable sp' m" for m using a(3,5) sp(3) [of m] updatable_short [of sp' n n v] by (cases "m = n") (auto simp: updatable_def)
  have "130924 \<le> sp_space sp' m + sum_list (map (\<lambda>(n, v). add_need n v) (q # qs))" for m
    using sp(4) [of m] a(4) [rule_format, of m] q by simp
  then show ?case using a(1,2) sp(2) u q by (intro exI [of _ sp']) (auto simp: fun_eq_iff)
qed

text \<open>What is set, by kind: for every device, from the variant, and for devices with two SIM cards.\<close>

definition fixed_settings :: "(string \<times> string) list" where
  "fixed_settings =
     [(''ro.boot.warranty_bit'', ''0''), (''ro.warranty_bit'', ''0''), (''ro.boot.veritymode'', ''enforcing''),
      (''ro.boot.verifiedbootstate'', ''green''), (''ro.boot.flash.locked'', ''1''), (''ro.boot.ddrinfo'', ''00000001''),
      (''ro.build.selinux'', ''1''), (''ro.fmp_config'', ''1''), (''ro.boot.fmp_config'', ''1''), (''sys.oem_unlock_allowed'', ''0'')]"

definition device_names :: "string list" where
  "device_names =
     [''ro.product.model'', ''ro.product.device'', ''ro.build.product'', ''ro.lineage.device'', ''ro.vendor.product.device'',
      ''ro.build.description'', ''ro.build.fingerprint'']"

definition sim_settings :: "(string \<times> string) list" where
  "sim_settings =
     [(''persist.multisim.config'', ''dsds''), (''persist.radio.multisim.config'', ''dsds''), (''ro.multisim.simslotcount'', ''2''),
      (''ro.telephony.default_network'', ''9,9'')]"

definition device_settings :: "string \<Rightarrow> string \<Rightarrow> string \<Rightarrow> string \<Rightarrow> string \<Rightarrow> (string \<times> string) list" where
  "device_settings product model device description fingerprint =
     zip device_names [model, device, product, device, device, description, fingerprint]"

lemma init_list_settings:
  assumes "select_variant (prop_text (sp_get sp ''ro.product.device'')) (prop_text (sp_get sp ''ro.bootloader'')) = (product, model, device, dualsim)"
  defines "d \<equiv> prop_text (sp_get sp ''ro.product.device'')"
  shows "init_list sp =
    device_settings product model device (first_replaced d device (prop_text (sp_get sp ''ro.build.description'')))
      (first_replaced d device (prop_text (sp_get sp ''ro.build.fingerprint''))) @ fixed_settings @ (if dualsim then sim_settings else [])"
  using assms by (simp add: init_list_def vendor_properties_def device_settings_def device_names_def fixed_settings_def sim_settings_def renamed_first)

lemma map_of_settings:
  "n \<notin> set device_names \<Longrightarrow> map_of (device_settings product model device descr fp) n = None"
  "n \<in> set device_names \<Longrightarrow> \<exists>v. map_of (device_settings product model device descr fp) n = Some v"
  "map_of (device_settings product model device descr fp) ''ro.product.model'' = Some model"
  "map_of (device_settings product model device descr fp) ''ro.product.device'' = Some device"
  "map_of (device_settings product model device descr fp) ''ro.build.product'' = Some product"
  "map_of (device_settings product model device descr fp) ''ro.lineage.device'' = Some device"
  "map_of (device_settings product model device descr fp) ''ro.vendor.product.device'' = Some device"
  "map_of (device_settings product model device descr fp) ''ro.build.description'' = Some descr"
  "map_of (device_settings product model device descr fp) ''ro.build.fingerprint'' = Some fp"
  by (auto simp: device_settings_def device_names_def)

lemma disjoint_settings:
  "(n, v) \<in> set fixed_settings \<Longrightarrow> n \<notin> set device_names \<and> map_of fixed_settings n = Some v"
  "(n, v) \<in> set sim_settings \<Longrightarrow> n \<notin> set device_names \<and> map_of sim_settings n = Some v \<and> map_of fixed_settings n = None"
  by (auto simp: fixed_settings_def sim_settings_def device_names_def)

text \<open>What is read after the call.\<close>

lemma vendor_load_get:
  assumes "sp_ok sp" and "init_room sp"
    and sel: "select_variant (prop_text (sp_get sp ''ro.product.device'')) (prop_text (sp_get sp ''ro.bootloader'')) = (product, model, device, dualsim)"
  defines "d \<equiv> prop_text (sp_get sp ''ro.product.device'')"
  defines "ds \<equiv> device_settings product model device (first_replaced d device (prop_text (sp_get sp ''ro.build.description'')))
      (first_replaced d device (prop_text (sp_get sp ''ro.build.fingerprint'')))"
  obtains sp' where "vendor_load_properties sysprops_api sp = Some sp'" and "sp_ok sp'"
    and "\<And>n v. map_of ds n = Some v \<Longrightarrow> sp_get sp' n = Some v"
    and "\<And>n v. (n, v) \<in> set fixed_settings \<Longrightarrow> sp_get sp' n = Some v"
    and "\<And>n v. (n, v) \<in> set sim_settings \<Longrightarrow> sp_get sp' n = (if dualsim then Some v else sp_get sp n)"
    and "\<And>n. n \<notin> fst ` set fixed_settings \<Longrightarrow> n \<notin> set device_names \<Longrightarrow> n \<notin> fst ` set sim_settings \<Longrightarrow> sp_get sp' n = sp_get sp n"
proof -
  obtain sp' where sp': "vendor_load_properties sysprops_api sp = Some sp'" "sp_ok sp'" "sp_get sp' = sp_get sp ++ map_of (init_list sp)"
    using vendor_load_sysprops [OF assms(1,2)] by blast
  have get: "sp_get sp' n = (case map_of ds n of Some v \<Rightarrow> Some v | None \<Rightarrow>
      (case map_of fixed_settings n of Some v \<Rightarrow> Some v | None \<Rightarrow>
        (case (if dualsim then map_of sim_settings n else None) of Some v \<Rightarrow> Some v | None \<Rightarrow> sp_get sp n)))" for n
    unfolding sp'(3) init_list_settings [OF sel] ds_def d_def by (simp add: map_add_def split: option.split)
  have none: "n \<notin> set device_names \<Longrightarrow> map_of ds n = None" for n unfolding ds_def by (rule map_of_settings(1))
  show ?thesis
  proof (rule that [OF sp'(1,2)])
    show "map_of ds n = Some v \<Longrightarrow> sp_get sp' n = Some v" for n v by (simp add: get)
    show "(n, v) \<in> set fixed_settings \<Longrightarrow> sp_get sp' n = Some v" for n v
      using disjoint_settings(1) [of n v] none [of n] by (simp add: get)
    show "(n, v) \<in> set sim_settings \<Longrightarrow> sp_get sp' n = (if dualsim then Some v else sp_get sp n)" for n v
      using disjoint_settings(2) [of n v] none [of n] by (simp add: get)
    show "n \<notin> fst ` set fixed_settings \<Longrightarrow> n \<notin> set device_names \<Longrightarrow> n \<notin> fst ` set sim_settings \<Longrightarrow> sp_get sp' n = sp_get sp n" for n
      using none [of n] map_of_eq_None_iff [of fixed_settings n] map_of_eq_None_iff [of sim_settings n] by (simp add: get)
  qed
qed

text \<open>Devices that start with a few properties.\<close>

lemma seeded_room:
  assumes sp: "\<And>m. updatable sp m" "\<And>m. 130924 \<le> sp_space sp m + k"
    and ps: "list_all (\<lambda>(n, v). short_value v \<and> [] \<notin> set (tokens n)) (init_list sp)"
      "sum_list (map (\<lambda>(n, v). add_need n v) (init_list sp)) + k \<le> 130924"
  shows "init_room sp"
proof -
  have "missing_need (sp_get sp) add_need (init_list sp) \<le> sum_list (map (\<lambda>(n, v). add_need n v) (init_list sp))"
    unfolding missing_need_def by (rule sum_list_mono) auto
  then have "missing_need (sp_get sp) add_need (init_list sp) \<le> sp_space sp m" for m using sp(2) [of m] ps(2) by linarith
  then show ?thesis using ps(1) sp(1) by (auto simp: init_room_def storable_list_def free_bytes_def list_all_iff)
qed

lemma seeded_state:
  assumes qs: "distinct (map fst qs)" "\<forall>(n, v) \<in> set qs. short_value v \<and> [] \<notin> set (tokens n)"
      "sum_list (map (\<lambda>(n, v). add_need n v) qs) \<le> 10000"
    and ps: "\<And>sp. sp_get sp = map_of qs \<Longrightarrow> list_all (\<lambda>(n, v). short_value v \<and> [] \<notin> set (tokens n)) (init_list sp)
      \<and> sum_list (map (\<lambda>(n, v). add_need n v) (init_list sp)) \<le> 10000"
  shows "\<exists>sp. sp_ok sp \<and> init_room sp \<and> sp_get sp = map_of qs"
proof -
  let ?k = "sum_list (map (\<lambda>(n, v). add_need n v) qs)"
  obtain sp where sp: "sp_ok sp" "sp_get sp = map_of qs" "\<And>m. updatable sp m" "\<And>m. 130924 \<le> sp_space sp m + ?k"
    using seed_properties [OF qs(1,2)] qs(3) by auto
  then have "init_room sp" using ps [OF sp(2)] qs(3) by (intro seeded_room [where k = ?k]) simp_all
  then show ?thesis using sp(1,2) by blast
qed

lemmas size_simps = add_need_def info_size_def node_size_def sizeof_prop_bt_def sizeof_prop_info_def align4_def PROP_VALUE_MAX_def

definition demo_props :: "string \<Rightarrow> (string \<times> string) list" where
  "demo_props device =
     [(''ro.product.device'', device), (''ro.bootloader'', ''N920CXXU3CQD1''), (''ro.build.fingerprint'', ''samsung/'' @ device @ ''/x'')]"

lemma demo_variant:
  "select_variant ''nobleltexx'' ''N920CXXU3CQD1'' = (''noblelte'', ''SM-N920C'', ''nobleltejv'', True)"
  "select_variant ''nobleltejv'' ''N920CXXU3CQD1'' = (''noblelte'', [], [], False)"
  by (simp_all add: select_variant_def families_def note5_variants_def unless_orig_def unset_def)

lemma demo_state:
  assumes d: "d \<in> {''nobleltexx'', ''nobleltejv''}"
  shows "\<exists>sp. sp_ok sp \<and> init_room sp \<and> sp_get sp = map_of (demo_props d)"
proof (rule seeded_state)
  show "distinct (map fst (demo_props d))" "\<forall>(n, v) \<in> set (demo_props d). short_value v \<and> [] \<notin> set (tokens n)"
    "sum_list (map (\<lambda>(n, v). add_need n v) (demo_props d)) \<le> 10000"
    using d by (auto simp: demo_props_def short_value_def size_simps)
  fix sp assume "sp_get sp = map_of (demo_props d)"
  then have "prop_text (sp_get sp ''ro.product.device'') = d" "prop_text (sp_get sp ''ro.bootloader'') = ''N920CXXU3CQD1''"
    "prop_text (sp_get sp ''ro.build.fingerprint'') = ''samsung/'' @ d @ ''/x''" "prop_text (sp_get sp ''ro.build.description'') = []"
    by (simp_all add: demo_props_def prop_text_def)
  then show "list_all (\<lambda>(n, v). short_value v \<and> [] \<notin> set (tokens n)) (init_list sp)
      \<and> sum_list (map (\<lambda>(n, v). add_need n v) (init_list sp)) \<le> 10000"
    using d by (auto simp: init_list_def vendor_properties_def demo_variant renamed_def str_replace_def short_value_def size_simps)
qed

text \<open>
  Property C32. Init on the property system, when all it sets can be stored (each missing property finds the bytes that the missing ones need together, each
  existing one can be updated, which a read-only one with a short value can, and no value is longer than 91 characters): the call returns, the property
  system stays well-formed, the ten properties that are set on every device have their values whether they existed or not, read-only or not, the seven that
  depend on the device exist, and no property other than these and the four for two SIM cards changes.
\<close>

theorem init_properties_stored:
  assumes ok: "sp_ok sp" and room: "init_room sp"
  shows "\<exists>sp'. vendor_load_properties sysprops_api sp = Some sp' \<and> sp_ok sp' \<and>
    (\<forall>(n, v) \<in> set fixed_settings. sp_get sp' n = Some v) \<and>
    (\<forall>n \<in> set device_names. sp_get sp' n \<noteq> None) \<and>
    (\<forall>n. n \<notin> fst ` set fixed_settings \<and> n \<notin> set device_names \<and> n \<notin> fst ` set sim_settings \<longrightarrow> sp_get sp' n = sp_get sp n)"
proof -
  obtain product model device dualsim where sel:
    "select_variant (prop_text (sp_get sp ''ro.product.device'')) (prop_text (sp_get sp ''ro.bootloader'')) = (product, model, device, dualsim)"
    by (metis prod_cases4)
  show ?thesis
  proof (rule vendor_load_get [OF ok room sel], goal_cases)
    case (1 sp')
    have "sp_get sp' n \<noteq> None" if "n \<in> set device_names" for n
      using map_of_settings(2) [OF that] 1(3) by blast
    then show ?case using 1 by blast
  qed
qed

theorem init_properties_stored_witness:
  "\<exists>sp sp'. sp_get sp ''ro.product.device'' = Some ''nobleltexx'' \<and> sp_get sp ''ro.boot.flash.locked'' = None \<and>
     vendor_load_properties sysprops_api sp = Some sp' \<and> sp_get sp' ''ro.boot.flash.locked'' = Some ''1'' \<and>
     sp_get sp' ''ro.bootloader'' = Some ''N920CXXU3CQD1''"
proof -
  obtain sp where sp: "sp_ok sp" "init_room sp" "sp_get sp = map_of (demo_props ''nobleltexx'')"
    using demo_state [of "''nobleltexx''"] by blast
  obtain sp' where sp': "vendor_load_properties sysprops_api sp = Some sp'" "\<forall>(n, v) \<in> set fixed_settings. sp_get sp' n = Some v"
    "\<forall>n. n \<notin> fst ` set fixed_settings \<and> n \<notin> set device_names \<and> n \<notin> fst ` set sim_settings \<longrightarrow> sp_get sp' n = sp_get sp n"
    using init_properties_stored [OF sp(1,2)] by blast
  have "(''ro.boot.flash.locked'', ''1'') \<in> set fixed_settings" by (simp add: fixed_settings_def)
  then have "sp_get sp' ''ro.boot.flash.locked'' = Some ''1''" using sp'(2) by blast
  moreover have "sp_get sp' ''ro.bootloader'' = sp_get sp ''ro.bootloader''"
    using sp'(3) by (simp add: fixed_settings_def device_names_def sim_settings_def)
  ultimately show ?thesis using sp'(1) by (intro exI [of _ sp] exI [of _ sp']) (simp add: sp(3) demo_props_def)
qed

text \<open>
  Property C31. When moreover the boot loader names a known variant: the model is the one the boot loader names, the device belongs to the
  product, five properties name model, device and product, description and fingerprint have the first occurrence of the device of the build
  replaced by the device, the four properties for two SIM cards are set exactly on variants that have them and otherwise keep their values, and every property that
  is not among those that the call sets keeps its value.
\<close>

theorem device_properties_set:
  assumes ok: "sp_ok sp" and room: "init_room sp" and d: "d = prop_text (sp_get sp ''ro.product.device'')"
    and b: "b = prop_text (sp_get sp ''ro.bootloader'')"
    and sel: "select_variant d b = (product, model, device, dualsim)" and known: "model \<noteq> []"
  shows "\<exists>sp'. vendor_load_properties sysprops_api sp = Some sp' \<and> sp_ok sp' \<and>
    (\<exists>code. model = ''SM-'' @ code \<and> str_find b code \<noteq> None) \<and> take (length product) device = product \<and> product \<noteq> [] \<and>
    sp_get sp' ''ro.product.model'' = Some model \<and> sp_get sp' ''ro.product.device'' = Some device \<and>
    sp_get sp' ''ro.lineage.device'' = Some device \<and> sp_get sp' ''ro.vendor.product.device'' = Some device \<and>
    sp_get sp' ''ro.build.product'' = Some product \<and>
    sp_get sp' ''ro.build.description'' = Some (first_replaced d device (prop_text (sp_get sp ''ro.build.description''))) \<and>
    sp_get sp' ''ro.build.fingerprint'' = Some (first_replaced d device (prop_text (sp_get sp ''ro.build.fingerprint''))) \<and>
    (\<forall>(n, v) \<in> set sim_settings. sp_get sp' n = (if dualsim then Some v else sp_get sp n)) \<and>
    (\<forall>n. n \<notin> fst ` set fixed_settings \<and> n \<notin> set device_names \<and> n \<notin> fst ` set sim_settings \<longrightarrow> sp_get sp' n = sp_get sp n)"
proof -
  have "(model, device, dualsim) \<noteq> unset" using known by (simp add: unset_def)
  then have names: "(\<exists>code. model = ''SM-'' @ code \<and> str_find b code \<noteq> None) \<and> take (length product) device = product \<and> product \<noteq> []"
    using good_select [OF sel] by (auto simp: good_variant_def)
  show ?thesis
  proof (rule vendor_load_get [OF ok room sel [unfolded d b]], goal_cases)
    case (1 sp')
    have "\<forall>(n, v) \<in> set sim_settings. sp_get sp' n = (if dualsim then Some v else sp_get sp n)" using 1(5) by blast
    then show ?case using names 1(1,2,6) 1(3) [OF map_of_settings(3)] 1(3) [OF map_of_settings(4)] 1(3) [OF map_of_settings(5)]
        1(3) [OF map_of_settings(6)] 1(3) [OF map_of_settings(7)] 1(3) [OF map_of_settings(8)] 1(3) [OF map_of_settings(9)] d
      by blast
  qed
qed

theorem device_properties_set_witness:
  "\<exists>sp sp'. sp_get sp ''ro.product.device'' = Some ''nobleltexx'' \<and> vendor_load_properties sysprops_api sp = Some sp' \<and>
     sp_get sp' ''ro.product.model'' = Some ''SM-N920C'' \<and> sp_get sp' ''ro.product.device'' = Some ''nobleltejv'' \<and>
     sp_get sp' ''ro.build.fingerprint'' = Some ''samsung/nobleltejv/x'' \<and> sp_get sp' ''ro.multisim.simslotcount'' = Some ''2''"
proof -
  obtain sp where sp: "sp_ok sp" "init_room sp" "sp_get sp = map_of (demo_props ''nobleltexx'')"
    using demo_state [of "''nobleltexx''"] by blast
  have g: "prop_text (sp_get sp ''ro.product.device'') = ''nobleltexx''" "prop_text (sp_get sp ''ro.bootloader'') = ''N920CXXU3CQD1''"
    "prop_text (sp_get sp ''ro.build.fingerprint'') = ''samsung/'' @ ''nobleltexx'' @ ''/x''"
    by (simp_all add: sp(3) demo_props_def prop_text_def)
  obtain sp' where sp': "vendor_load_properties sysprops_api sp = Some sp'" "sp_get sp' ''ro.product.model'' = Some ''SM-N920C''"
    "sp_get sp' ''ro.product.device'' = Some ''nobleltejv''"
    "sp_get sp' ''ro.build.fingerprint'' = Some (first_replaced ''nobleltexx'' ''nobleltejv'' (''samsung/'' @ ''nobleltexx'' @ ''/x''))"
    "\<forall>(n, v) \<in> set sim_settings. sp_get sp' n = (if True then Some v else sp_get sp n)"
    using device_properties_set [OF sp(1,2) refl refl, unfolded g, OF demo_variant(1)] by blast
  have "first_replaced ''nobleltexx'' ''nobleltejv'' (''samsung/'' @ ''nobleltexx'' @ ''/x'') = ''samsung/nobleltejv/x''"
    by (simp add: first_replaced_def)
  moreover have "(''ro.multisim.simslotcount'', ''2'') \<in> set sim_settings" by (simp add: sim_settings_def)
  then have "sp_get sp' ''ro.multisim.simslotcount'' = Some ''2''" using sp'(5) by (simp only: if_True) blast
  moreover have "sp_get sp ''ro.product.device'' = Some ''nobleltexx''" by (simp add: sp(3) demo_props_def)
  ultimately show ?thesis using sp'(1-4) by metis
qed

text \<open>
  Property C38. When all can be stored, then on a boot loader of none of the four families, and on a variant for which the build was made already (the four tests
  against the device of the build, one of them against a device that is named after another family), nothing is chosen but
  everything is overridden: the model and the three properties for the device become empty, and the first occurrence of the name of the device is
  cut out of description and fingerprint.
\<close>

theorem unknown_device_blanked:
  assumes ok: "sp_ok sp" and room: "init_room sp" and d: "d = prop_text (sp_get sp ''ro.product.device'')"
    and b: "b = prop_text (sp_get sp ''ro.bootloader'')" and bad: "names_family b [] \<or> built_for d b"
  shows "\<exists>sp'. vendor_load_properties sysprops_api sp = Some sp' \<and>
    sp_get sp' ''ro.product.model'' = Some [] \<and> sp_get sp' ''ro.product.device'' = Some [] \<and>
    sp_get sp' ''ro.lineage.device'' = Some [] \<and> sp_get sp' ''ro.vendor.product.device'' = Some [] \<and>
    sp_get sp' ''ro.build.description'' = Some (first_replaced d [] (prop_text (sp_get sp ''ro.build.description''))) \<and>
    sp_get sp' ''ro.build.fingerprint'' = Some (first_replaced d [] (prop_text (sp_get sp ''ro.build.fingerprint'')))"
proof -
  have "snd (select_variant d b) = unset" using bad by (rule nothing_chosen)
  then obtain product where sel: "select_variant d b = (product, [], [], False)" by (metis prod.collapse unset_def)
  show ?thesis
  proof (rule vendor_load_get [OF ok room sel [unfolded d b]], goal_cases)
    case (1 sp')
    then show ?case using 1(3) [OF map_of_settings(3)] 1(3) [OF map_of_settings(4)] 1(3) [OF map_of_settings(6)]
        1(3) [OF map_of_settings(7)] 1(3) [OF map_of_settings(8)] 1(3) [OF map_of_settings(9)] d by blast
  qed
qed

theorem unknown_device_blanked_witness:
  "\<exists>sp sp'. sp_get sp ''ro.product.device'' = Some ''nobleltejv'' \<and> vendor_load_properties sysprops_api sp = Some sp' \<and>
     sp_get sp' ''ro.product.device'' = Some [] \<and> sp_get sp' ''ro.build.fingerprint'' = Some ''samsung//x''"
proof -
  obtain sp where sp: "sp_ok sp" "init_room sp" "sp_get sp = map_of (demo_props ''nobleltejv'')"
    using demo_state [of "''nobleltejv''"] by blast
  have g: "prop_text (sp_get sp ''ro.product.device'') = ''nobleltejv''" "prop_text (sp_get sp ''ro.bootloader'') = ''N920CXXU3CQD1''"
    "prop_text (sp_get sp ''ro.build.fingerprint'') = ''samsung/'' @ ''nobleltejv'' @ ''/x''"
    by (simp_all add: sp(3) demo_props_def prop_text_def)
  have "built_for ''nobleltejv'' ''N920CXXU3CQD1''" by (simp add: built_for_def names_family_def)
  then obtain sp' where "vendor_load_properties sysprops_api sp = Some sp'" "sp_get sp' ''ro.product.device'' = Some []"
    "sp_get sp' ''ro.build.fingerprint'' = Some (first_replaced ''nobleltejv'' [] (''samsung/'' @ ''nobleltejv'' @ ''/x''))"
    using unknown_device_blanked [OF sp(1,2) refl refl, unfolded g] by blast
  moreover have "first_replaced ''nobleltejv'' [] (''samsung/'' @ ''nobleltejv'' @ ''/x'') = ''samsung//x''"
    by (simp add: first_replaced_def)
  moreover have "sp_get sp ''ro.product.device'' = Some ''nobleltejv''" by (simp add: sp(3) demo_props_def)
  ultimately show ?thesis by metis
qed

end
