(* ===== verification/File_Labels.thy ===== *)
theory File_Labels
  imports File_Tree_Correct
begin

text \<open>
  The part of \<open>tools/resetprop/utils/file.c\<close> that is compiled with \<open>SELINUX\<close> (this build does not define it): restoring the
  security labels of the image directory and of the binaries. The label belongs to the inode, as its owner does; how the type
  of the label of the binaries is spelled is an argument, as its header is not part of the sources. Both recursions are one walk, given what is done at a name;
  the locale \<open>labeller\<close> is what the walk asks of that.
\<close>

section \<open>Labels\<close>

record sfs =
  s_fs :: fs
  s_con :: "nat \<Rightarrow> string"

definition UNLABEL_CON :: string where "UNLABEL_CON = ''u:object_r:unlabeled:s0''"
definition SYSTEM_CON :: string where "SYSTEM_CON = ''u:object_r:system_file:s0''"
definition ADB_CON :: string where "ADB_CON = ''u:object_r:adb_data_file:s0''"
definition MAGISK_CON :: "string \<Rightarrow> string" where "MAGISK_CON domain = ''u:object_r:'' @ domain @ '':s0''"

definition MOUNTPOINT :: string where "MOUNTPOINT = ''/sbin/.core/img''"
definition SECURE_DIR :: string where "SECURE_DIR = ''/data/adb''"
definition DATABIN :: string where "DATABIN = ''/data/adb/magisk''"

text \<open>\<open>getfilecon\<close> follows links, \<open>lgetfilecon\<close>, \<open>lsetfilecon\<close> and \<open>lchown\<close> do not. Without a label to return the pointer stays
  uninitialised: \<^const>\<open>None\<close>.\<close>

definition getcon :: "bool \<Rightarrow> loc \<Rightarrow> sfs \<Rightarrow> string option" where
  "getcon follow l s = map_option (s_con s) (Option.bind (walk follow (s_fs s) l) (ino_of (s_fs s)))"

definition lsetfilecon :: "loc \<Rightarrow> string \<Rightarrow> sfs \<Rightarrow> sfs" where
  "lsetfilecon l con s =
     (case Option.bind (walk False (s_fs s) l) (ino_of (s_fs s)) of
        None \<Rightarrow> s
      | Some k \<Rightarrow> s\<lparr>s_con := (s_con s)(k := con)\<rparr>)"

definition lchown :: "loc \<Rightarrow> nat \<Rightarrow> nat \<Rightarrow> sfs \<Rightarrow> sfs" where
  "lchown l u g s =
     (case walk False (s_fs s) l of
        None \<Rightarrow> s
      | Some p \<Rightarrow> s\<lparr>s_fs := upd_node (\<lambda>i. i\<lparr>i_uid := u, i_gid := g\<rparr>) p (s_fs s)\<rparr>)"

section \<open>The walks\<close>

text \<open>What is done at the directory itself (\<open>follow\<close>) and at the entries that are no directories.\<close>

type_synonym visit = "bool \<Rightarrow> loc \<Rightarrow> sfs \<Rightarrow> sfs option"

definition syscon_visit :: visit where
  "syscon_visit follow l s =
     (case getcon follow l s of
        None \<Rightarrow> None
      | Some con \<Rightarrow> Some (if con = [] \<or> con = UNLABEL_CON then lsetfilecon l SYSTEM_CON s else s))"

definition magiskcon_visit :: "string \<Rightarrow> visit" where
  "magiskcon_visit domain follow l s = Some (lchown l 0 0 (lsetfilecon l (MAGISK_CON domain) s))"

definition label_entry :: "visit \<Rightarrow> (path option \<Rightarrow> sfs \<Rightarrow> sfs option) \<Rightarrow> path \<Rightarrow> string \<times> ftype \<Rightarrow> sfs \<Rightarrow> sfs option" where
  "label_entry visit rec d entry s =
     (if is_dots (fst entry) then Some s
      else if snd entry = DT_DIR then rec (xopenat_rd (s_fs s) (Some d) (fst entry)) s
      else visit False ([], d @ [fst entry]) s)"

text \<open>On a descriptor that is not open the label is not read and the stream is null.\<close>

primrec label_walk :: "nat \<Rightarrow> visit \<Rightarrow> path option \<Rightarrow> sfs \<Rightarrow> sfs option" where
  "label_walk 0 visit dirfd s = None"
| "label_walk (Suc k) visit dirfd s =
     (case dirfd of
        None \<Rightarrow> None
      | Some d \<Rightarrow>
          do { s1 \<leftarrow> visit True ([], d) s;
               es \<leftarrow> fdopendir (s_fs s1) dirfd;
               foldM (label_entry visit (label_walk k visit) d) es s1 })"

definition restore_syscon :: "nat \<Rightarrow> path option \<Rightarrow> sfs \<Rightarrow> sfs option" where
  "restore_syscon k dirfd s = label_walk k syscon_visit dirfd s"

definition restore_magiskcon :: "nat \<Rightarrow> string \<Rightarrow> path option \<Rightarrow> sfs \<Rightarrow> sfs option" where
  "restore_magiskcon k domain dirfd s = label_walk k (magiskcon_visit domain) dirfd s"

text \<open>\<open>valid\<close> is what the kernel answers when the label is written to its file of labels.\<close>

definition restorecon :: "nat \<Rightarrow> string \<Rightarrow> (string \<Rightarrow> bool) \<Rightarrow> sfs \<Rightarrow> sfs option" where
  "restorecon k domain valid s =
     (let s1 = (if valid ADB_CON then lsetfilecon (loc_of (s_fs s) SECURE_DIR) ADB_CON s else s)
      in do { s2 \<leftarrow> restore_syscon k (open_rd (s_fs s1) (loc_of (s_fs s1) MOUNTPOINT)) s1;
              restore_magiskcon k domain (open_rd (s_fs s2) (loc_of (s_fs s2) DATABIN)) s2 })"

section \<open>Relabelling a set of inodes\<close>

definition relabel :: "(inode \<Rightarrow> inode) \<Rightarrow> (string \<Rightarrow> string) \<Rightarrow> nat set \<Rightarrow> sfs \<Rightarrow> sfs" where
  "relabel own lab K s =
     s\<lparr>s_fs := (s_fs s)\<lparr>fs_inodes := (\<lambda>k. if k \<in> K then map_option own (fs_inodes (s_fs s) k) else fs_inodes (s_fs s) k)\<rparr>,
       s_con := (\<lambda>k. if k \<in> K then lab (s_con s k) else s_con s k)\<rparr>"

definition below :: "fs \<Rightarrow> path \<Rightarrow> nat set" where
  "below fs d = {k. \<exists>r. ino_of fs (d @ r) = Some k}"

lemma ino_of_relabel [simp]: "ino_of (s_fs (relabel own lab K s)) = ino_of (s_fs s)"
  by (simp add: relabel_def ino_of_def fun_eq_iff)

lemma below_relabel [simp]: "below (s_fs (relabel own lab K s)) d = below (s_fs s) d"
  by (simp add: below_def)

lemma relabel_empty [simp]: "relabel own lab {} s = s"
  by (simp add: relabel_def)

text \<open>After the entries \<open>xs\<close> the directory and what is below them is relabelled.\<close>

definition visited :: "fs \<Rightarrow> path \<Rightarrow> (string \<times> ftype) list \<Rightarrow> nat set" where
  "visited fs d xs = {k. ino_of fs d = Some k} \<union> (\<Union>n \<in> {n \<in> fst ` set xs. \<not> is_dots n}. below fs (d @ [n]))"

lemma visited_snoc:
  "visited fs d (xs @ [(n, t)]) = (if is_dots n then visited fs d xs else below fs (d @ [n]) \<union> visited fs d xs)"
  by (auto simp: visited_def)

lemma visited_all:
  assumes "wf_fs fs"
  shows "visited fs d (readdir fs d) = below fs d"
proof -
  have "k \<in> visited fs d (readdir fs d)" if k: "ino_of fs (d @ r) = Some k" for k r
  proof (cases r)
    case (Cons n q)
    then have "inode_at fs (d @ n # q) \<noteq> None" using k by (simp add: node_None_iff [OF assms])
    then have "n \<in> fst ` set (readdir fs d)" using not_in_readdir [OF assms, of n d q] by (rule contrapos_np)
    moreover have "\<not> is_dots n" using wf_no_dots [OF assms, of "d @ n # q"] \<open>inode_at fs (d @ n # q) \<noteq> None\<close> by simp
    moreover have "k \<in> below fs (d @ [n])" unfolding below_def using k Cons by auto
    ultimately show ?thesis by (auto simp: visited_def)
  qed (use k in \<open>simp add: visited_def\<close>)
  moreover have "k \<in> below fs d" if "k \<in> visited fs d xs" for k xs
    using that by (force simp: visited_def below_def intro: exI [of _ "[]"])
  ultimately show ?thesis by (auto simp: below_def)
qed

lemma below_leaf:
  assumes "wf_fs fs" "\<not> is_dir fs p" "ino_of fs p = Some k"
  shows "below fs p = {k}"
proof -
  have "r = []" if "ino_of fs (p @ r) = Some j" for r j
    using not_child_of_file [OF assms(1,2), of r] that by (auto simp: node_None_iff [OF assms(1)])
  then have "ino_of fs (p @ r) = Some j \<longleftrightarrow> r = [] \<and> j = k" for r j using assms(3) by fastforce
  then show ?thesis by (simp add: below_def)
qed

locale labeller =
  fixes visit :: visit and own :: "inode \<Rightarrow> inode" and lab :: "string \<Rightarrow> string"
  assumes own_type: "i_type (own i) = i_type i"
    and own_idem: "own (own i) = own i" and lab_idem: "lab (lab c) = lab c"
    and visit_law: "walk False (s_fs s) l = Some p \<Longrightarrow> walk follow (s_fs s) l = Some p \<Longrightarrow> ino_of (s_fs s) p = Some k \<Longrightarrow>
      visit follow l s = Some (relabel own lab {k} s)"
begin

lemma relabel_relabel: "relabel own lab A (relabel own lab B s) = relabel own lab (A \<union> B) s"
  by (auto simp: relabel_def fun_eq_iff option.map_comp comp_def own_idem lab_idem)

lemma is_dir_relabel [simp]: "is_dir (s_fs (relabel own lab K s)) p \<longleftrightarrow> is_dir (s_fs s) p"
proof (cases "ino_of (s_fs s) p")
  case (Some k)
  then show ?thesis
    by (cases "fs_inodes (s_fs s) k") (auto simp: is_dir_def inode_at_def ino_of_def relabel_def own_type)
qed (simp add: is_dir_def inode_at_def)

lemma node_relabel: "inode_at (s_fs (relabel own lab K s)) p = None \<longleftrightarrow> inode_at (s_fs s) p = None"
proof (cases "ino_of (s_fs s) p")
  case (Some k)
  then show ?thesis by (simp add: inode_at_def) (simp add: relabel_def)
qed (simp add: inode_at_def)

lemma type_relabel: "entry_type (s_fs (relabel own lab K s)) p = entry_type (s_fs s) p"
proof (cases "ino_of (s_fs s) p")
  case (Some k)
  then show ?thesis
    by (cases "fs_inodes (s_fs s) k") (auto simp: entry_type_def inode_at_def ino_of_def relabel_def own_type)
qed (simp add: entry_type_def inode_at_def)

lemma readdir_relabel [simp]: "readdir (s_fs (relabel own lab K s)) d = readdir (s_fs s) d"
  by (simp add: readdir_def type_relabel children_def) (simp add: relabel_def)

lemma wf_relabel [simp]:
  assumes "wf_fs (s_fs s)"
  shows "wf_fs (s_fs (relabel own lab K s))"
proof -
  have names: "fs_names (s_fs (relabel own lab K s)) = fs_names (s_fs s)" "fs_next (s_fs (relabel own lab K s)) = fs_next (s_fs s)"
    and nodes: "fs_inodes (s_fs (relabel own lab K s)) k = None \<longleftrightarrow> fs_inodes (s_fs s) k = None" for k
    by (simp_all add: relabel_def)
  show ?thesis using assms unfolding wf_fs_def by (simp add: names nodes)
qed

lemma deep_relabel [simp]: "deep (s_fs (relabel own lab K s)) d k \<longleftrightarrow> deep (s_fs s) d k"
  by (simp add: deep_def node_relabel)

lemma visit_name:
  assumes "wf_fs (s_fs s)" "ino_of (s_fs s) (d @ [n]) = Some k" "follow \<longrightarrow> is_dir (s_fs s) (d @ [n])"
  shows "visit follow ([], d @ [n]) s = Some (relabel own lab {k} s)"
proof -
  have n: "is_dir (s_fs s) d" "\<not> is_dots n"
    using wf_parent [OF assms(1), of d n] assms(2) node_None_iff [OF assms(1), of "d @ [n]"] by auto
  have "follow \<longrightarrow> entry_type (s_fs s) (d @ [n]) \<noteq> DT_LNK"
    using assms(3) by (auto simp: is_dir_def entry_type_def split: option.splits)
  then show ?thesis using walk_path [OF assms(1) n] assms(2) by (intro visit_law) auto
qed

lemma visit_dir:
  assumes "wf_fs (s_fs s)" "is_dir (s_fs s) d" "ino_of (s_fs s) d = Some k"
  shows "visit True ([], d) s = Some (relabel own lab {k} s)"
proof (cases d rule: rev_cases)
  case Nil
  then show ?thesis using assms(3) by (intro visit_law [of _ _ "[]"]) (simp_all add: walk_def)
qed (use assms visit_name in auto)

lemma label_entry_law:
  assumes IH: "\<And>d s. wf_fs (s_fs s) \<Longrightarrow> is_dir (s_fs s) d \<Longrightarrow> deep (s_fs s) d k \<Longrightarrow>
      label_walk k visit (Some d) s = Some (relabel own lab (below (s_fs s) d) s)"
    and wf: "wf_fs (s_fs s)" and d: "is_dir (s_fs s) d" "deep (s_fs s) d (Suc k)"
    and n: "\<not> is_dots n" "inode_at (s_fs s) (d @ [n]) = Some i"
  shows "label_entry visit (label_walk k visit) d (n, i_type i) s = Some (relabel own lab (below (s_fs s) (d @ [n])) s)"
proof (cases "i_type i = DT_DIR")
  case True
  then have sub: "is_dir (s_fs s) (d @ [n])" using n(2) by (simp add: is_dir_def)
  have "deep (s_fs s) (d @ [n]) k" using d(2) by (force simp: deep_def dest: spec [of _ "n # _"])
  then show ?thesis using IH [OF wf sub] True n(1) by (simp add: label_entry_def xopenat_rd_dir [OF d(1) sub n(1)])
next
  case False
  then have leaf: "\<not> is_dir (s_fs s) (d @ [n])" using n(2) by (simp add: is_dir_def)
  obtain j where j: "ino_of (s_fs s) (d @ [n]) = Some j" using n(2) by (auto simp: inode_at_def bind_eq_Some_conv)
  show ?thesis using visit_name [OF wf j, of False] False n(1) by (simp add: label_entry_def below_leaf [OF wf leaf j])
qed

lemma label_walk_law:
  assumes "wf_fs (s_fs s)" "is_dir (s_fs s) d" "deep (s_fs s) d k"
  shows "label_walk k visit (Some d) s = Some (relabel own lab (below (s_fs s) d) s)"
  using assms
proof (induction k arbitrary: d s)
  case 0
  then show ?case using is_dir_node [of "s_fs s" d] by (auto simp: deep_def dest: spec [of _ "[]"])
next
  case (Suc k)
  let ?fs = "s_fs s"
  obtain j where j: "ino_of ?fs d = Some j" using is_dir_node [OF Suc.prems(2)] by (auto simp: inode_at_def bind_eq_Some_conv)
  have "\<exists>s'. foldM (label_entry visit (label_walk k visit) d) (readdir ?fs d) (relabel own lab {j} s) = Some s' \<and>
      s' = relabel own lab (visited ?fs d (readdir ?fs d)) s"
  proof (rule foldM_inv)
    show "relabel own lab {j} s = relabel own lab (visited ?fs d []) s" using j by (simp add: visited_def)
    fix xs x ys s1 assume es: "readdir ?fs d = xs @ x # ys" and I: "s1 = relabel own lab (visited ?fs d xs) s"
    obtain n t where x: "x = (n, t)" by (cases x)
    show "\<exists>s'. label_entry visit (label_walk k visit) d x s1 = Some s' \<and> s' = relabel own lab (visited ?fs d (xs @ [x])) s"
    proof (cases "is_dots n")
      case False
      then obtain i0 where "inode_at ?fs (d @ [n]) = Some i0" "t = i_type i0"
        using readdir_split(2) [OF Suc.prems(1), of d xs n t ys] es by (auto simp: x)
      then obtain i where i: "inode_at (s_fs s1) (d @ [n]) = Some i" "t = i_type i"
        using type_relabel [of "visited ?fs d xs" s "d @ [n]"] node_relabel [of "visited ?fs d xs" s "d @ [n]"] I
        by (auto simp: entry_type_def split: option.splits)
      show ?thesis
        using label_entry_law [OF Suc.IH, of s1 d n i] Suc.prems False i I by (simp add: x visited_snoc relabel_relabel)
    qed (use I in \<open>simp add: x label_entry_def visited_snoc\<close>)
  qed
  then show ?case
    using visit_dir [OF Suc.prems(1,2) j] Suc.prems(2) by (simp add: fdopendir_def visited_all [OF Suc.prems(1)])
qed

end

section \<open>What the labels become\<close>

definition system_label :: "string \<Rightarrow> string" where
  "system_label c = (if c = [] \<or> c = UNLABEL_CON then SYSTEM_CON else c)"

definition to_root :: "inode \<Rightarrow> inode" where
  "to_root i = i\<lparr>i_uid := 0, i_gid := 0\<rparr>"

lemma syscon_fs [simp]: "s_fs (relabel id lab K s) = s_fs s"
  by (simp add: relabel_def option.map_id cong: if_cong)

lemma relabel_con: "s_con (relabel own lab {k} s) = (s_con s)(k := lab (s_con s k))"
  by (auto simp: relabel_def)

interpretation syscon: labeller syscon_visit id system_label
proof
  fix s :: sfs and l p follow k
  assume "walk False (s_fs s) l = Some p" "walk follow (s_fs s) l = Some p" "ino_of (s_fs s) p = Some k"
  then show "syscon_visit follow l s = Some (relabel id system_label {k} s)"
    by (auto simp: syscon_visit_def getcon_def lsetfilecon_def relabel_con system_label_def intro!: sfs.equality)
qed (auto simp: system_label_def)

interpretation magiskcon: labeller "magiskcon_visit domain" to_root "\<lambda>c. MAGISK_CON domain"
proof
  fix s :: sfs and l p follow k
  assume "walk False (s_fs s) l = Some p" "ino_of (s_fs s) p = Some k"
  then show "magiskcon_visit domain follow l s = Some (relabel to_root (\<lambda>c. MAGISK_CON domain) {k} s)"
    by (simp add: magiskcon_visit_def lsetfilecon_def lchown_def upd_node_def relabel_def fun_upd_def to_root_def [abs_def] cong: if_cong)
qed (simp_all add: to_root_def)

text \<open>
  Restoring the labels: if both directories are there and the fuel is above the depth of their trees, \<open>restorecon\<close> returns. Everything below the directory of the binaries
  has their label and belongs to root, below the image exactly what had no label becomes a system file, the
  directory of the module data gets its own label if the kernel knows it, and nothing else changes.
\<close>

theorem restorecon_labels:
  assumes wf: "wf_fs (s_fs s)" and adb: "walk False (s_fs s) (loc_of (s_fs s) SECURE_DIR) = Some a" "ino_of (s_fs s) a = Some j"
    and img: "open_rd (s_fs s) (loc_of (s_fs s) MOUNTPOINT) = Some m" "is_dir (s_fs s) m" "deep (s_fs s) m k"
    and bin: "open_rd (s_fs s) (loc_of (s_fs s) DATABIN) = Some b" "is_dir (s_fs s) b" "deep (s_fs s) b k"
  shows "\<exists>s'. restorecon k domain valid s = Some s' \<and>
    (\<forall>p. ino_of (s_fs s') p = ino_of (s_fs s) p) \<and>
    (\<forall>n. fs_inodes (s_fs s') n = map_option (if n \<in> below (s_fs s) b then to_root else id) (fs_inodes (s_fs s) n)) \<and>
    (\<forall>n. s_con s' n =
       (if n \<in> below (s_fs s) b then MAGISK_CON domain
        else let c = (if valid ADB_CON \<and> n = j then ADB_CON else s_con s n) in if n \<in> below (s_fs s) m then system_label c else c))"
proof -
  define s1 where "s1 = (if valid ADB_CON then lsetfilecon (loc_of (s_fs s) SECURE_DIR) ADB_CON s else s)"
  have s1: "s_fs s1 = s_fs s" "s_con s1 n = (if valid ADB_CON \<and> n = j then ADB_CON else s_con s n)" for n
    using adb by (simp_all add: s1_def lsetfilecon_def)
  define s2 where "s2 = relabel id system_label (below (s_fs s) m) s1"
  have s2: "s_fs s2 = s_fs s" by (simp add: s2_def s1)
  have "label_walk k syscon_visit (Some m) s1 = Some s2"
    using syscon.label_walk_law [of s1 m k] wf img(2,3) by (simp add: s1(1) s2_def)
  moreover have "label_walk k (magiskcon_visit domain) (Some b) s2 = Some (relabel to_root (\<lambda>c. MAGISK_CON domain) (below (s_fs s) b) s2)"
    using magiskcon.label_walk_law [of s2 b k domain] wf bin(2,3) by (simp add: s2)
  ultimately have "restorecon k domain valid s = Some (relabel to_root (\<lambda>c. MAGISK_CON domain) (below (s_fs s) b) s2)"
    unfolding restorecon_def Let_def restore_syscon_def restore_magiskcon_def s1_def [symmetric] s1(1) img(1)
    by (simp add: s2 bin(1))
  moreover have "fs_inodes (s_fs (relabel to_root lab B s2)) n = map_option (if n \<in> B then to_root else id) (fs_inodes (s_fs s) n)" for lab B n
    by (simp add: relabel_def s2 option.map_id)
  moreover have "s_con (relabel to_root lab B s2) n =
      (if n \<in> B then lab (s_con s2 n) else if n \<in> below (s_fs s) m then system_label (s_con s1 n) else s_con s1 n)" for lab B n
    by (simp add: relabel_def s2_def)
  ultimately show ?thesis by (simp add: s1(2) s2 Let_def)
qed

text \<open>An image with an unlabelled file and a binary that belongs to someone else.\<close>

definition demo_sfs :: sfs where
  "demo_sfs =
     \<lparr>s_fs = \<lparr>fs_names = [([], 0), ([''sbin''], 1), ([''sbin'', ''.core''], 2), ([''sbin'', ''.core'', ''img''], 3),
                ([''sbin'', ''.core'', ''img'', ''f''], 4), ([''data''], 5), ([''data'', ''adb''], 6),
                ([''data'', ''adb'', ''magisk''], 7), ([''data'', ''adb'', ''magisk'', ''su''], 8)],
              fs_inodes = (\<lambda>k. if k = 4 \<or> k = 8 then Some demo_file else if k < 9 then Some demo_dir else None),
              fs_next = 9, fs_cwd = []\<rparr>,
      s_con = (\<lambda>k. if k = 4 then [] else ''u:object_r:other:s0'')\<rparr>"

lemma restorecon_demo:
  "map_option (\<lambda>s. (map (s_con s) [3, 4, 5, 6, 7, 8], map_option i_uid (fs_inodes (s_fs s) 8), map_option i_uid (fs_inodes (s_fs s) 4)))
     (restorecon 2 ''magisk_file'' (\<lambda>c. True) demo_sfs) =
   Some ([''u:object_r:other:s0'', SYSTEM_CON, ''u:object_r:other:s0'', ADB_CON, MAGISK_CON ''magisk_file'', MAGISK_CON ''magisk_file''], Some 0, Some 7)"
  by code_simp

end
