(* ===== verification/Bionic_Macros.thy ===== *)
theory Bionic_Macros
  imports Prelude
begin

text \<open>
  The arithmetic of \<open>private/bionic_macros.h\<close>: alignment by masks, and the power of two above a value. Both are on 64-bit words, the
  width of \<open>uintptr_t\<close> and \<open>unsigned long\<close> here.
\<close>

section \<open>Alignment\<close>

definition align_down :: "u64 \<Rightarrow> u64 \<Rightarrow> u64" where "align_down p align = p AND NOT (align - 1)"
definition align_up :: "u64 \<Rightarrow> u64 \<Rightarrow> u64" where "align_up p align = (p + align - 1) AND NOT (align - 1)"

lemma unat_bound: "unat (p :: u64) < 2 ^ 64"
  using unsigned_less [of p, where 'a = nat] by simp

lemma and_not_mask: "p AND NOT (mask k) = push_bit k (drop_bit k (p :: u64))"
  by (rule bit_eqI) (auto simp: bit_simps)

text \<open>For a power of two that a word can hold, \<open>align_down\<close> is the greatest multiple that is not above.\<close>

lemma align_down_multiple:
  assumes "k < 64"
  shows "unat (align_down p (2 ^ k)) = unat p div 2 ^ k * 2 ^ k"
proof -
  have "unat (drop_bit k p) = unat p div 2 ^ k" unfolding unat_drop_bit_eq by (simp add: drop_bit_eq_div)
  moreover have "unat p div 2 ^ k * 2 ^ k < 2 ^ 64"
    using unat_bound [of p] div_times_less_eq_dividend [of "unat p" "2 ^ k"] by linarith
  ultimately show ?thesis
    unfolding align_down_def mask_eq_exp_minus_1 [symmetric] and_not_mask unsigned_push_bit_eq
    by (simp add: push_bit_eq_mult take_bit_nat_eq_self)
qed

text \<open>\<open>align_up\<close> is the least multiple that is not below, unless the sum wraps: then it is 0.\<close>

lemma align_up_multiple:
  assumes k: "k < 64"
  shows "unat (align_up p (2 ^ k)) =
    (if unat p + (2 ^ k - 1) < 2 ^ 64 then (unat p + (2 ^ k - 1)) div 2 ^ k * 2 ^ k else 0)"
proof -
  have le: "(2::nat) ^ k - 1 < 2 ^ k" "(2::nat) ^ k \<le> 2 ^ 64" using k power_increasing [of k 64 "2 :: nat"] by simp_all
  have "(2 ^ k - 1 :: u64) = of_nat (2 ^ k - 1)" by (simp add: of_nat_diff)
  then have one: "unat (2 ^ k - 1 :: u64) = 2 ^ k - 1"
    using le by (simp add: unsigned_of_nat take_bit_nat_eq_self del: of_nat_diff)
  have up: "align_up p (2 ^ k) = align_down (p + (2 ^ k - 1)) (2 ^ k)" by (simp add: align_up_def align_down_def algebra_simps)
  show ?thesis
  proof (cases "unat p + (2 ^ k - 1) < 2 ^ 64")
    case True
    then have "unat (p + (2 ^ k - 1)) = unat p + (2 ^ k - 1)" by (simp add: unat_word_ariths one)
    then show ?thesis using True by (simp add: up align_down_multiple [OF k])
  next
    case False
    then have "(unat p + (2 ^ k - 1)) mod 2 ^ 64 = unat p + (2 ^ k - 1) - 2 ^ 64"
      using unat_bound [of p] le by (simp add: le_mod_geq)
    moreover have "unat (p + (2 ^ k - 1)) = (unat p + (2 ^ k - 1)) mod 2 ^ 64" by (simp add: unat_word_ariths one)
    ultimately have "unat (p + (2 ^ k - 1)) < 2 ^ k" using unat_bound [of p] le(1) by linarith
    then show ?thesis using False by (simp add: up align_down_multiple [OF k])
  qed
qed

section \<open>The power of two above a value\<close>

text \<open>The number of bits without leading zeros, what is left of the width after \<open>__builtin_clz\<close>. That is undefined on 0, and so is a shift
  by the whole width.\<close>

fun bit_len :: "nat \<Rightarrow> nat" where
  "bit_len n = (if n = 0 then 0 else Suc (bit_len (n div 2)))"

declare bit_len.simps [simp del]

definition BIONIC_ROUND_UP_POWER_OF_2 :: "nat \<Rightarrow> nat \<Rightarrow> u64 option" where
  "BIONIC_ROUND_UP_POWER_OF_2 sz v =
     (let n = bit_len (if sz = 8 then v else v mod 2 ^ 32)
      in if n = 0 \<or> n = 64 then None else Some (push_bit n 1))"

lemma bit_len_bounds: "n < 2 ^ bit_len n \<and> (n \<noteq> 0 \<longrightarrow> 2 ^ bit_len n \<le> 2 * n)"
proof (induction n rule: bit_len.induct)
  case (1 n)
  show ?case
  proof (cases "n = 0")
    case False
    note IH = 1 [OF False]
    have "n < 2 * 2 ^ bit_len (n div 2)" using IH by linarith
    moreover have "2 * 2 ^ bit_len (n div 2) \<le> 2 * n"
    proof (cases "n div 2 = 0")
      case True
      then have "n = 1" using False by auto
      then show ?thesis by (simp add: bit_len.simps)
    qed (use IH in linarith)
    ultimately show ?thesis using False by (simp add: bit_len.simps [of n])
  qed (simp add: bit_len.simps)
qed

text \<open>The result is the least power of two strictly above the value: a power of two is doubled, not kept.\<close>

lemma round_up_above:
  assumes "0 < v" "v < 2 ^ 63"
  shows "\<exists>j. BIONIC_ROUND_UP_POWER_OF_2 8 v = Some (2 ^ j) \<and> j < 64 \<and> v < 2 ^ j \<and> 2 ^ j \<le> 2 * v"
proof -
  have "(2::nat) ^ bit_len v < 2 ^ 64" using bit_len_bounds [of v] assms by simp
  then have "bit_len v < 64" by (rule power_less_imp_less_exp [rotated]) simp
  moreover have "bit_len v \<noteq> 0" using assms(1) by (simp add: bit_len.simps)
  ultimately show ?thesis using bit_len_bounds [of v] assms(1) by (auto simp: BIONIC_ROUND_UP_POWER_OF_2_def Let_def push_bit_eq_mult)
qed

lemma round_up_doubles: "i < 63 \<Longrightarrow> BIONIC_ROUND_UP_POWER_OF_2 8 (2 ^ i) = Some (2 ^ Suc i)"
proof -
  assume "i < 63"
  moreover have "bit_len (2 ^ i) = Suc i" by (induction i) (simp_all add: bit_len.simps)
  ultimately show ?thesis by (simp add: BIONIC_ROUND_UP_POWER_OF_2_def Let_def push_bit_eq_mult)
qed

text \<open>The alignment of the records of the property areas is the one by mask.\<close>

lemma align4_mask: "n < 2 ^ 63 \<Longrightarrow> unat (align_up (of_nat n) 4) = align4 n"
  using align_up_multiple [of 2 "of_nat n"] by (simp add: align4_def unsigned_of_nat take_bit_nat_eq_self)

end
