(* ===== verification/Spec2Isabelle.thy ===== *)
theory Spec2Isabelle
  imports Prelude C_Text Vectors Prop_Area_Spec Property_Info_Correct System_Properties_Correct Contexts_Split_Correct
    Seqlock Locks Property_Set Persist_Props_Correct Resetprop_Correct Irqbalance_Correct Power_Correct Camera_Parameters_Correct Camera_Wrapper
    Bluetooth_Correct File_Clone File_Move Misc_Utils_Correct Gnss_Correct Livedisplay Device_Model Init_Sec Camera_Module
    Native_Features Shims Xwrap Property_Api File_Labels Bionic_Macros
begin

text \<open>
  \<^bold>\<open>A verification library for the device tree of the Samsung universal7420 family.\<close>

  The repository holds the native programs and libraries of a family of phones. The development models the
  ones with logic of their own, each in one or more theories named below, as
  functions and step relations translated from the C and C++ sources, and proves what makes
  them correct. Theorems that state a fault of the code are
  part of it: they show, from the same definitions, an input on which the code goes wrong.

  \<^bold>\<open>Conventions.\<close> A struct is a \<open>record\<close>, an enumeration a \<open>datatype\<close>, a C string a \<^typ>\<open>string\<close> without NUL,
  memory that the code shares or indexes a list of bytes or a map from offsets to objects. Machine integers are
  words, or integers with the wrap-around written out. The \<open>option\<close> value \<^const>\<open>None\<close> of an operation is a
  fault (access out of bounds, null pointer, abort, uncaught exception) wherever the theory says so; error
  codes are values. Code outside the repository is an argument of the definitions: the
  comparison and the result of \<open>qsort\<close>, the nanopb codec, the answers of sockets, libxml, expat, libbase, the modules of the vendor,
  the property system of the platform, the keyed vector of libutils. What a theorem needs of it is a hypothesis, and a witness instantiates it.

  \<^bold>\<open>1. System properties\<close> (\<open>tools/resetprop/libuniversal7420systemproperties\<close>).
  \<^item> \<open>Prop_Area\<close>, \<open>Prop_Trie\<close>, \<open>Prop_Area_Correct\<close>, \<open>Prop_Area_Spec\<close>: the shared memory area of \<open>prop_area.cpp\<close> and
    \<open>prop_info.cpp\<close>, a trie of binary trees of names, objects linked by offsets, and its abstraction to a map from
    names to values. Adding, finding, deleting and
    visiting refine the map operations, return, and follow no bad link. The locale \<open>prop_store\<close>
    is the contract the callers use; the area interprets it.
  \<^item> \<open>Property_Info\<close>, \<open>Property_Info_Correct\<close>: the serialized trie of \<open>property_info_parser.cpp\<close>; on every image of a
    well-formed trie the lookup agrees with the specification on trees.
  \<^item> \<open>Contexts\<close>, \<open>Contexts_Correct\<close>, \<open>Contexts_Split_Correct\<close>: \<open>context_node.cpp\<close> and the three kinds of contexts, which map a name
    to its area. The locale \<open>area_resolver\<close> is their common contract; all three kinds, and their sum,
    interpret it.
  \<^item> \<open>System_Properties\<close>, \<open>System_Properties_Correct\<close>: \<open>system_properties.cpp\<close>. Find, read, add,
    update and delete as map operations on the whole property system; two theorems
    show how updates of long properties go wrong.
  \<^item> \<open>Property_Api\<close>: \<open>system_property_api.cpp\<close>, the C interface. The locale \<open>platform_properties\<close> is what a client asks of it; the
    property system interprets it, and the properties that init chooses for a device are stored through it.
  \<^item> \<open>Seqlock\<close>, \<open>Locks\<close>: the serial protocol between \<open>Update\<close> and readers, and the futex lock of \<open>bionic_lock.h\<close>, as step
    relations over all interleavings, with their invariants; the calls of \<open>bionic_futex.h\<close> leave \<open>errno\<close> alone.
  \<^item> \<open>Bionic_Macros\<close>: the alignment and rounding of \<open>bionic_macros.h\<close> on words, against division.

  \<^bold>\<open>2. The resetprop command\<close> (\<open>tools/resetprop\<close>).
  \<^item> \<open>Vectors\<close>: \<open>utils/vector.c\<close> with 32-bit sizes; the locale \<open>comparator\<close> is what \<open>vec_sort\<close> asks of a comparison, and the
    order of properties interprets it (in \<open>Persist_Props\<close>).
  \<^item> \<open>Property_Set\<close>: \<open>system_property_set.cpp\<close>, both formats of the messages to the property service.
  \<^item> \<open>Persist_Props\<close>, \<open>Persist_Props_Correct\<close>: \<open>persist_properties.c\<close>, both forms of the storage.
  \<^item> \<open>Resetprop\<close>, \<open>Resetprop_Correct\<close>: \<open>resetprop.c\<close>; name check, get, set, delete, list, load from a file.
  \<^item> \<open>File_Tree\<close>: \<open>utils/file.c\<close> on a file system of names, inodes, hard and symbolic links. \<open>File_Tree_Correct\<close>,
    \<open>File_Clone\<close>, \<open>File_Move\<close>: removing, copying, linking and moving trees return, keep the file system well-formed and do exactly what they are
    for; the locale \<open>tree_copy\<close> is what the two copying recursions share, and both interpret it. A theorem shows how a copied link opens
    its target. \<open>File_Labels\<close>: the security labels, the part for \<open>SELINUX\<close>; the locale \<open>labeller\<close> is what its walk asks of the operation at a
    name, and both recursions interpret it.
  \<^item> \<open>Xwrap\<close>: \<open>utils/xwrap.c\<close> over the calls that are wrapped and the three kinds of logging of \<open>logging.h\<close>: what a wrapper adds to its call.
  \<^item> \<open>Misc_Utils\<close>, \<open>Misc_Utils_Correct\<close>: \<open>utils/misc.c\<close> and the reading functions of \<open>utils/file.c\<close>: lines from files and
    descriptors, processes, running programs. Reading lines is safe and complete, and a vector of lines reads back from its file.

  \<^bold>\<open>3. Hardware services\<close> (\<open>hardware\<close>).
  \<^item> \<open>Irqbalance\<close>, \<open>Irqbalance_Correct\<close>: \<open>irqbalance/irqbalance.c\<close>; reading configuration, interrupts and load from texts, sorting, and the
    distribution, which assigns every interrupt exactly once.
  \<^item> \<open>Sys_Utils\<close>: \<open>Utils.cpp\<close> on a map of control files. \<open>Power_Profiles\<close>, \<open>Power_Service\<close>, \<open>Power_Correct\<close>: \<open>power/Profiles.cpp\<close> and
    \<open>power/Power.cpp\<close>; profiles read from XML, applied to control files, hints, and the detached threads as pending
    actions of a step relation, and \<open>power/Service.cpp\<close>, which serves them. Calls return and keep the invariant, settings end up in their files; three theorems
    show faults.
  \<^item> \<open>Bluetooth\<close>, \<open>Bluetooth_Correct\<close>: \<open>bluetooth\<close>; the device address, the vendor interface with its low power watchdog, and the service, as a
    step relation with a log of what the controller is told. Packets go to a controller that is awake, an idle one is put to sleep.
  \<^item> \<open>Gnss_Convert\<close>, \<open>Gnss_Service\<close>, \<open>Gnss_Correct\<close>: \<open>gnss\<close>; the conversions of locations, satellites, measurements and clocks, and the service with
    its ten extensions over the library of the vendor. A step relation of callbacks and calls keeps the wakelock of the client; theorems
    show what a client gets after the death of another, and where reports are read past their end.
  \<^item> \<open>Livedisplay\<close>: \<open>livedisplay\<close>; display modes, calibration and sunlight enhancement on control files, with invariant and round trips.
  \<^item> \<open>Device_Model\<close>: \<open>include/zero-helpers.h\<close>, the choices of \<open>include/samsung_audio-common.h\<close> and \<open>rild/rild.c\<close>; the variant, the
    options of the daemon and the arguments of the library, with the block of arguments and environment it writes to.
  \<^item> \<open>Native_Features\<close>: \<open>libsecnativefeature\<close>; features as the texts a parser reports, independent of how they are split.

  \<^bold>\<open>4. Camera\<close> (\<open>camera\<close>).
  \<^item> \<open>Camera_Parameters\<close>, \<open>Camera_Parameters_Correct\<close>: \<open>CameraParameters.cpp\<close>; the text form, numbers and sizes read back.
  \<^item> \<open>Callback_Worker\<close>: \<open>CallbackWorkerThread.cpp\<close> as a step relation; leaving works, and how it may fail.
  \<^item> \<open>Camera_Wrapper\<close>: \<open>Camera2Wrapper.cpp\<close>, over the module of the vendor.
  \<^item> \<open>Camera_Module\<close>: \<open>Camera3Wrapper.cpp\<close> and \<open>CameraWrapper.cpp\<close>, devices on a heap and the module with both wrappers.
  \<^item> This theory composes them: what a caller of the wrapper gets as parameters.

  \<^bold>\<open>5. Start of the device.\<close>
  \<^item> \<open>Init_Sec\<close>: \<open>init/init_sec.{h,cpp}\<close>; the variant from the boot loader and the properties that follow from it, and the devices on
    which they come out empty. This theory compares the choice with the one of the radio daemon.
  \<^item> \<open>Shims\<close>: the functions of \<open>shims\<close>.

  \<open>Prelude\<close> holds types, byte buffers and generic lemmas, \<open>C_Text\<close> the parts of the C library that read and print text.

  \<^bold>\<open>Termination and fuel.\<close> Loops are recursive functions with a termination proof. Loops over a stream that the
  sources leave by end of file (\<open>config_loop\<close>, \<open>count_irqs\<close>, \<open>read_irqs\<close>) take as fuel one more
  than the length of the text; each turn consumes a character, so the fuel is never used up, which the theorems
  on them include. The recursions over directories take as fuel a bound of the depth: the theorems ask for more than the depth of the tree and state that the
  operation returns. Walks over the
  property area may meet any memory and are \<open>partial_function (option)\<close>: a walk over a cycle is \<^const>\<open>None\<close>, and the theorems on
  well-formed areas state that the walk returns.

  \<^bold>\<open>Not modelled.\<close> The headers of Android and vendor interfaces (\<open>include\<close>, half of all lines), which contain no code beyond the
  constants and structures that are modelled with their users; the empty HIDL library; everything that is not C or C++. Memory is not exhausted except where an allocation is an
  argument. Logging has no effect, except that its arguments are evaluated, and except in \<open>Xwrap\<close>, where it is what the wrappers are for.
\<close>

section \<open>Camera parameters through the wrapper\<close>

text \<open>The sizes of the wrapper's list.\<close>

definition wrapper_video_sizes :: "(int \<times> int) list" where
  "wrapper_video_sizes = [(3840, 2160), (2560, 1440), (1920, 1080), (1440, 1080), (1088, 1088), (1280, 720), (960, 720),
     (800, 450), (720, 480), (640, 480), (480, 320), (352, 288), (320, 240), (256, 144), (176, 144)]"

lemma video_size_values_sizes: "video_size_values = sizes_str wrapper_video_sizes"
  by (simp add: wrapper_video_sizes_def size_str_def to_string_def dec.simps digit_char_def video_size_values_def)

text \<open>
  Property C16. What the wrapper hands to the camera service is what the module of the vendor
  reports, with the video sizes replaced: reading the text gives the vendor's value for every
  other key, and for the video sizes a list that parses to the wrapper's fifteen sizes.
\<close>

theorem get_parameters_fixed:
  assumes kv: "keyed_vector_laws kv" and thr: "m_thread (cbThread st)" and lb: "31 \<le> lb"
    and get: "v_get_parameters vo (c2_vendor st) = (params, v)"
  shows "\<exists>s st'. camera2_get_parameters vo kv now True st = Some (s, st')
    \<and> kv_map kv (unflatten kv s) = (kv_map kv (unflatten kv params))(''video-size-values'' \<mapsto> video_size_values)
    \<and> getSupportedVideoSizes lb kv (unflatten kv s) = wrapper_video_sizes"
proof -
  let ?m = "cp_set kv (Some ''video-size-values'') (Some video_size_values) (unflatten kv params)"
  obtain r st' where "VENDOR_CALL vo now (V_put_parameters params) (st\<lparr>c2_vendor := v\<rparr>) = Some (r, st')"
    using VENDOR_CALL_returns [of "st\<lparr>c2_vendor := v\<rparr>" vo now "V_put_parameters params"] thr by auto
  then have call: "camera2_get_parameters vo kv now True st = Some (flatten kv ?m, st')"
    using get by (simp add: camera2_get_parameters_def camera2_fixup_getparams_def)
  have plain: "CHR ''='' \<notin> set video_size_values" "CHR '';'' \<notin> set video_size_values" "video_size_values \<noteq> []"
    unfolding video_size_values_sizes using sizes_str_plain [of wrapper_video_sizes] by (simp_all only: wrapper_video_sizes_def) simp_all
  have "params_inv kv ?m" by (intro cp_set_inv unflatten_inv kv)
  then have same: "kv_map kv (unflatten kv (flatten kv ?m)) = kv_map kv ?m" by (rule flatten_law [OF kv])
  also have upd: "\<dots> = (kv_map kv (unflatten kv params))(''video-size-values'' \<mapsto> video_size_values)"
    using cp_set_law [OF kv] plain by simp
  finally have "cp_get kv (unflatten kv (flatten kv ?m)) ''video-size-values'' = Some video_size_values"
    using plain by (simp add: cp_get_def keyed_vector_lawsD(3) [OF kv])
  then have "getSupportedVideoSizes lb kv (unflatten kv (flatten kv ?m)) = wrapper_video_sizes"
    using parseSizes_sizes_str [OF lb, of wrapper_video_sizes]
    by (simp add: getSupportedVideoSizes_def parseSizesList_def video_size_values_sizes) (simp add: wrapper_video_sizes_def)
  then show ?thesis using call same upd by metis
qed

theorem get_parameters_fixed_witness:
  "\<exists>s st'. camera2_get_parameters null_vendor alist_kv 5 True sample_camera = Some (s, st')
     \<and> getSupportedVideoSizes 31 alist_kv (unflatten alist_kv s) = wrapper_video_sizes"
proof -
  have "m_thread (cbThread sample_camera)" by (simp add: sample_camera_def CreateThread_def)
  moreover have "v_get_parameters null_vendor (c2_vendor sample_camera) = (''preview-size=1920x1080;zoom=3'', ())"
    by (simp add: null_vendor_def)
  ultimately show ?thesis using get_parameters_fixed [OF alist_kv_laws, where lb = 31 and now = 5] by fastforce
qed

section \<open>The variant at start and in the daemons\<close>

text \<open>A version behind the model that names no model itself.\<close>

definition plain_version :: "string \<Rightarrow> bool" where
  "plain_version v \<longleftrightarrow> v \<noteq> [] \<and> length v < 80 \<and> str_find v ''G9'' = None \<and> str_find v ''N9'' = None"

lemma str_find_longer: "str_find s p = None \<Longrightarrow> str_find s (p @ q) = None"
proof (induction s)
  case (Cons c cs)
  have "take (length p) (c # cs) = p" if "take (length (p @ q)) (c # cs) = p @ q"
  proof -
    have "take (length p) (take (length (p @ q)) (c # cs)) = p" using that by (simp del: take_Cons length_append)
    then show ?thesis by (simp add: min_def)
  qed
  with Cons show ?case by (auto split: if_splits)
qed (auto split: if_splits)

lemma plain_version_find:
  assumes "plain_version v"
  shows "str_find v (CHR ''G'' # CHR ''9'' # q) = None" "str_find v (CHR ''N'' # CHR ''9'' # q) = None"
  using str_find_longer [of v "''G9''" q] str_find_longer [of v "''N9''" q] assms by (simp_all add: plain_version_def)

definition product_of :: "string \<Rightarrow> string" where
  "product_of family =
     (if family = ''G920'' then ''zeroflte'' else if family = ''G925'' then ''zerolte''
      else if family = ''G928'' then ''zenlte'' else ''noblelte'')"

lemma init_device:
  assumes v: "plain_version v" and f: "f \<in> {''G920'', ''G925'', ''G928'', ''N920''}"
  shows "snd (select_variant d (f @ ''T'' @ v)) = (''SM-'' @ f @ ''T'', product_of f @ ''tmo'', False)"
    and "snd (select_variant d (f @ ''W8'' @ v)) = (''SM-'' @ f @ ''W8'', product_of f @ ''can'', False)"
    and "f \<noteq> ''G928'' \<Longrightarrow> snd (select_variant d (f @ ''P'' @ v)) = (''SM-'' @ f @ ''P'', product_of f @ ''spr'', False)"
  using f
  by (elim insertE emptyE; simp add: select_variant_def families_def flat_variants_def edge_variants_def edge_plus_variants_def
      note5_variants_def plain_version_find [OF v] product_of_def)+

lemma daemon_model:
  assumes v: "plain_version v" and f: "f \<in> {''G920'', ''G925'', ''G928'', ''N920''}"
  shows "fst (zero_model_read (f @ ''T'' @ v) UNDEFINED) = TMOBILE" "fst (zero_model_read (f @ ''W8'' @ v) UNDEFINED) = CANADA"
    "fst (zero_model_read (f @ ''P'' @ v) UNDEFINED) = DEFAULT"
proof -
  obtain c w where v': "v = c # w" using v by (cases v) (auto simp: plain_version_def)
  show "fst (zero_model_read (f @ ''T'' @ v) UNDEFINED) = TMOBILE" "fst (zero_model_read (f @ ''W8'' @ v) UNDEFINED) = CANADA"
    "fst (zero_model_read (f @ ''P'' @ v) UNDEFINED) = DEFAULT"
    using f v unfolding v'
    by (elim insertE emptyE; simp add: zero_model_read_def starts_def PROPERTY_VALUE_MAX_def plain_version_def)+
qed

text \<open>
  Property C35. The properties that the device is started with and the library that the radio daemon loads are chosen from the same
  name of the boot loader, by different code. When the properties can be stored and the rest of the name contains no model itself, the two agree on the
  variants T and W8 of all four families; on the variant P of the three families that have one (all but G928) the properties say Sprint
  and the daemon loads the library of the default variant.
\<close>

theorem variant_choices:
  assumes ok: "sp_ok sp" and room: "init_room sp"
    and b: "sp_get sp ''ro.bootloader'' = Some (f @ c @ v)" and v: "plain_version v" and f: "f \<in> {''G920'', ''G925'', ''G928'', ''N920''}"
  shows "\<exists>sp'. vendor_load_properties sysprops_api sp = Some sp' \<and>
    (c = ''T'' \<longrightarrow> sp_get sp' ''ro.product.device'' = Some (product_of f @ ''tmo'') \<and>
        lib_path (prop_text (sp_get sp' ''ro.bootloader'')) no_opts = Some ''/vendor/lib64/libsec-ril-tmobile.so'') \<and>
    (c = ''W8'' \<longrightarrow> sp_get sp' ''ro.product.device'' = Some (product_of f @ ''can'') \<and>
        lib_path (prop_text (sp_get sp' ''ro.bootloader'')) no_opts = Some ''/vendor/lib64/libsec-ril-canada.so'') \<and>
    (c = ''P'' \<and> f \<noteq> ''G928'' \<longrightarrow> sp_get sp' ''ro.product.device'' = Some (product_of f @ ''spr'') \<and>
        lib_path (prop_text (sp_get sp' ''ro.bootloader'')) no_opts = Some ''/vendor/lib64/libsec-ril.so'')"
proof -
  let ?d = "prop_text (sp_get sp ''ro.product.device'')"
  have t: "prop_text (sp_get sp ''ro.bootloader'') = f @ c @ v" by (simp add: b prop_text_def)
  obtain product model device dualsim where sel: "select_variant ?d (f @ c @ v) = (product, model, device, dualsim)"
    by (metis prod_cases4)
  show ?thesis
  proof (rule vendor_load_get [OF ok room sel [folded t]], goal_cases)
    case (1 sp')
    have "sp_get sp' ''ro.product.device'' = Some device" by (rule 1(3) [OF map_of_settings(4)])
    moreover have "sp_get sp' ''ro.bootloader'' = Some (f @ c @ v)"
      using 1(6) [of "''ro.bootloader''"] b by (simp add: fixed_settings_def device_names_def sim_settings_def)
    moreover have "device = fst (snd (snd (select_variant ?d (f @ c @ v))))" by (simp add: sel)
    ultimately show ?case using 1(1)
      by (auto simp: prop_text_def init_device [OF v f, simplified] daemon_model [OF v f, simplified] lib_path_def no_opts_def
          auto_lib_def RIL_PATH_MAX_def)
  qed
qed

theorem variant_choices_witness:
  "\<exists>sp sp'. sp_get sp ''ro.bootloader'' = Some ''N920PVPS3DRH1'' \<and> vendor_load_properties sysprops_api sp = Some sp' \<and>
     sp_get sp' ''ro.product.device'' = Some ''nobleltespr'' \<and>
     lib_path (prop_text (sp_get sp' ''ro.bootloader'')) no_opts = Some ''/vendor/lib64/libsec-ril.so''"
proof -
  let ?qs = "[(''ro.bootloader'', ''N920PVPS3DRH1'')]"
  have pv: "plain_version ''VPS3DRH1''" by (simp add: plain_version_def)
  have sel: "select_variant [] ''N920PVPS3DRH1'' = (''noblelte'', ''SM-N920P'', ''nobleltespr'', False)"
    by (simp add: select_variant_def families_def note5_variants_def unless_orig_def)
  have "\<exists>sp. sp_ok sp \<and> init_room sp \<and> sp_get sp = map_of ?qs"
  proof (rule seeded_state)
    fix sp assume "sp_get sp = map_of ?qs"
    then show "list_all (\<lambda>(n, v). short_value v \<and> [] \<notin> set (tokens n)) (init_list sp)
        \<and> sum_list (map (\<lambda>(n, v). add_need n v) (init_list sp)) \<le> 10000"
      by (simp add: init_list_def vendor_properties_def prop_text_def sel renamed_def short_value_def size_simps)
  qed (simp_all add: short_value_def size_simps)
  then obtain sp where sp: "sp_ok sp" "init_room sp" "sp_get sp = map_of ?qs" by blast
  have b: "sp_get sp ''ro.bootloader'' = Some (''N920'' @ ''P'' @ ''VPS3DRH1'')" by (simp add: sp(3))
  obtain sp' where "vendor_load_properties sysprops_api sp = Some sp'"
    "sp_get sp' ''ro.product.device'' = Some (product_of ''N920'' @ ''spr'')"
    "lib_path (prop_text (sp_get sp' ''ro.bootloader'')) no_opts = Some ''/vendor/lib64/libsec-ril.so''"
    using variant_choices [OF sp(1,2) b pv] by auto
  then show ?thesis using b by (intro exI [of _ sp] exI [of _ sp']) (simp add: product_of_def)
qed

end
